(* ===== verification/Nexnet_Prelude.thy ===== *)
theory Nexnet_Prelude
  imports Main "HOL-Library.Word" "HOL-Library.AList"
begin

text \<open>
  Shared vocabulary of the development: byte strings, the JavaScript \<open>Map\<close> as an
  insertion-ordered association list, the string functions the sources use
  (\<open>trim\<close>, \<open>toLowerCase\<close>, hexadecimal), and the lemma collections the
  component theories draw on.

  Strings. A JavaScript string is a sequence of UTF-16 code units; \<open>string\<close> is a
  list of \<open>char\<close>, so the model covers the strings whose code units are below 256
  (identifiers, hexadecimal, base64, user names in Latin-1). Where the code inspects
  arbitrary Unicode text (\<open>validateBody\<close> of the gateway) the definition is on lists of code units
  instead, and its caller passes the code units of its \<open>string\<close>.
\<close>

named_theorems jm_simps \<open>equations for reading a JavaScript Map after an update\<close>
named_theorems hex_simps \<open>hexadecimal and base64 encodings\<close>
named_theorems step_defs \<open>definitions of the operations a component exposes\<close>

type_synonym byte = "8 word"
type_synonym bytes = "byte list"

section \<open>JavaScript Map: insertion-ordered association list\<close>

type_synonym ('k, 'v) jmap = "('k \<times> 'v) list"

definition jm_get :: "('k, 'v) jmap \<Rightarrow> 'k \<Rightarrow> 'v option" where
  "jm_get m k = map_of m k"

definition jm_has :: "('k, 'v) jmap \<Rightarrow> 'k \<Rightarrow> bool" where
  "jm_has m k = (map_of m k \<noteq> None)"

definition jm_set :: "'k \<Rightarrow> 'v \<Rightarrow> ('k, 'v) jmap \<Rightarrow> ('k, 'v) jmap" where
  "jm_set k v m = AList.update k v m"

definition jm_del :: "'k \<Rightarrow> ('k, 'v) jmap \<Rightarrow> ('k, 'v) jmap" where
  "jm_del k m = filter (\<lambda>(k', v). k' \<noteq> k) m"

definition jm_size :: "('k, 'v) jmap \<Rightarrow> nat" where
  "jm_size m = length m"

definition jm_ok :: "('k, 'v) jmap \<Rightarrow> bool" where
  "jm_ok m = distinct (map fst m)"

text \<open>\<open>m.get(k) ?? d\<close>.\<close>

definition jm_get_or :: "('k, 'v) jmap \<Rightarrow> 'k \<Rightarrow> 'v \<Rightarrow> 'v" where
  "jm_get_or m k d = (case jm_get m k of None \<Rightarrow> d | Some v \<Rightarrow> v)"

lemma jm_get_empty [jm_simps, simp]: "jm_get [] k = None"
  by (simp add: jm_get_def)

lemma jm_get_set [jm_simps]: "jm_get (jm_set k v m) k' = (if k' = k then Some v else jm_get m k')"
  by (simp add: jm_get_def jm_set_def update_conv')

lemma jm_get_del [jm_simps]: "jm_get (jm_del k m) k' = (if k' = k then None else jm_get m k')"
  by (induction m) (auto simp: jm_get_def jm_del_def)

lemma jm_set_new: "jm_get m k = None \<Longrightarrow> jm_set k v m = m @ [(k, v)]"
  unfolding jm_set_def jm_get_def by (induction m) (auto split: if_splits)

lemma jm_has_get [jm_simps]: "jm_has m k \<longleftrightarrow> jm_get m k \<noteq> None"
  by (simp add: jm_has_def jm_get_def)

lemma jm_get_or_set: "jm_get_or (jm_set k v m) k' d = (if k' = k then v else jm_get_or m k' d)"
  by (simp add: jm_get_or_def jm_get_set)

lemma jm_ok_empty [simp]: "jm_ok []"
  by (simp add: jm_ok_def)

lemma jm_ok_set [simp, intro]: "jm_ok m \<Longrightarrow> jm_ok (jm_set k v m)"
  by (simp add: jm_ok_def jm_set_def distinct_update)

lemma jm_ok_del [simp, intro]: "jm_ok m \<Longrightarrow> jm_ok (jm_del k m)"
  by (induction m) (auto simp: jm_ok_def jm_del_def)

lemma jm_ok_filter [simp, intro]: "jm_ok m \<Longrightarrow> jm_ok (filter P m)"
  by (induction m) (auto simp: jm_ok_def)

lemma jm_get_in_set: "jm_get m k = Some v \<Longrightarrow> (k, v) \<in> set m"
  by (simp add: jm_get_def map_of_SomeD)

lemma jm_in_set_get: "jm_ok m \<Longrightarrow> (k, v) \<in> set m \<longleftrightarrow> jm_get m k = Some v"
  by (simp add: jm_ok_def jm_get_def)

lemma jm_keys_get: "fst ` set m = {k. jm_get m k \<noteq> None}"
  by (auto simp: jm_get_def map_of_eq_None_iff)

lemma jm_size_del: "jm_ok m \<Longrightarrow> jm_get m k \<noteq> None \<Longrightarrow> jm_size (jm_del k m) = jm_size m - 1"
proof (induction m)
  case Nil
  then show ?case by simp
next
  case (Cons p m)
  obtain k' v where p: "p = (k', v)" by (cases p)
  show ?case
  proof (cases "k' = k")
    case True
    have "jm_del k m = m"
      using Cons.prems(1) True p
      by (force simp: jm_ok_def jm_del_def filter_id_conv)
    then show ?thesis
      using True p by (simp add: jm_del_def jm_size_def)
  next
    case False
    then have "jm_size (jm_del k m) = jm_size m - 1" "jm_get m k \<noteq> None"
      using Cons p by (auto simp: jm_ok_def jm_get_def)
    moreover from this(2) have "m \<noteq> []" by auto
    ultimately show ?thesis
      using False p by (cases m) (auto simp: jm_del_def jm_size_def)
  qed
qed

lemma jm_size_set:
  "jm_size (jm_set k v m) = (if jm_get m k = None then Suc (jm_size m) else jm_size m)"
  by (induction m) (auto simp: jm_size_def jm_set_def jm_get_def)

lemma jm_get_filter:
  "jm_ok m \<Longrightarrow> jm_get (filter (\<lambda>(k, v). P k v) m) k
     = (case jm_get m k of None \<Rightarrow> None | Some v \<Rightarrow> if P k v then Some v else None)"
  by (induction m)
     (auto simp: jm_get_def jm_ok_def map_of_eq_None_iff split: option.splits intro: rev_image_eqI)

lemma jm_get_map_val:
  "jm_get (map (\<lambda>(k, v). (k, f v)) m) k = map_option f (jm_get m k)"
  by (induction m) (auto simp: jm_get_def)

lemma jm_ok_map_val [simp]: "jm_ok (map (\<lambda>(k, v). (k, f v)) m) = jm_ok m"
proof -
  have "map fst (map (\<lambda>(k, v). (k, f v)) m) = map fst m" by (induction m) auto
  then show ?thesis unfolding jm_ok_def by (rule arg_cong)
qed

lemma jm_set_set: "(k', v') \<in> set (jm_set k v m) \<Longrightarrow> (k' = k \<and> v' = v) \<or> (k', v') \<in> set m"
  by (induction m) (auto simp: jm_set_def split: if_splits)

lemma find_SomeD: "List.find P xs = Some x \<Longrightarrow> x \<in> set xs \<and> P x"
  by (auto simp: find_Some_iff)

text \<open>
  The contract a keyed container offers to its clients, stated once; the JavaScript
  \<open>Map\<close> model provides it below, and the storage tables reuse the derived laws.
\<close>

locale keyed_store =
  fixes get :: "'s \<Rightarrow> 'k \<Rightarrow> 'v option"
    and put :: "'k \<Rightarrow> 'v \<Rightarrow> 's \<Rightarrow> 's"
    and del :: "'k \<Rightarrow> 's \<Rightarrow> 's"
  assumes get_put: "get (put k v s) k' = (if k' = k then Some v else get s k')"
    and get_del: "get (del k s) k' = (if k' = k then None else get s k')"
begin

lemma get_put_same: "get (put k v s) k = Some v"
  by (simp add: get_put)

lemma get_put_other: "k' \<noteq> k \<Longrightarrow> get (put k v s) k' = get s k'"
  by (simp add: get_put)

lemma get_fold_del: "get (fold del ks s) k = (if k \<in> set ks then None else get s k)"
  by (induction ks arbitrary: s) (auto simp: get_del)

lemma put_idem_get: "get s k = Some v \<Longrightarrow> get (put k v s) = get s"
  by (auto simp: get_put)

end

interpretation jsmap: keyed_store jm_get jm_set jm_del
  by unfold_locales (simp_all add: jm_simps)

section \<open>Strings\<close>

text \<open>White space removed by \<open>String.prototype.trim\<close>, on code units below 256.\<close>

definition js_ws :: "char \<Rightarrow> bool" where
  "js_ws c = (let n = of_char c :: nat in (9 \<le> n \<and> n \<le> 13) \<or> n = 32 \<or> n = 160)"

definition js_trim :: "string \<Rightarrow> string" where
  "js_trim s = rev (dropWhile js_ws (rev (dropWhile js_ws s)))"

text \<open>\<open>String.prototype.toLowerCase\<close> on code units below 256.\<close>

definition js_lower_char :: "char \<Rightarrow> char" where
  "js_lower_char c = (let n = of_char c :: nat in
     if (65 \<le> n \<and> n \<le> 90) \<or> (192 \<le> n \<and> n \<le> 222 \<and> n \<noteq> 215) then char_of (n + 32) else c)"

definition js_lower :: "string \<Rightarrow> string" where
  "js_lower s = map js_lower_char s"

lemma of_char_char_of_lt: "n < 256 \<Longrightarrow> (of_char (char_of (n::nat) :: char) :: nat) = n"
  by simp

lemma js_lower_char_idem [simp]: "js_lower_char (js_lower_char c) = js_lower_char c"
  by (auto simp: js_lower_char_def Let_def)

lemma js_lower_idem [simp]: "js_lower (js_lower s) = js_lower s"
  by (simp add: js_lower_def)

lemma js_ws_lower [simp]: "js_ws (js_lower_char c) = js_ws c"
  by (auto simp: js_lower_char_def js_ws_def Let_def)

lemma dropWhile_js_ws_lower: "dropWhile js_ws (js_lower s) = js_lower (dropWhile js_ws s)"
  by (induction s) (auto simp: js_lower_def)

lemma js_trim_lower: "js_trim (js_lower s) = js_lower (js_trim s)"
  by (simp add: js_trim_def dropWhile_js_ws_lower js_lower_def rev_map dropWhile_js_ws_lower [unfolded js_lower_def])

lemma dropWhile_idem: "dropWhile P (dropWhile P xs) = dropWhile P xs"
  by (induction xs) auto

lemma js_trim_idem [simp]: "js_trim (js_trim s) = js_trim s"
proof -
  define t where "t = dropWhile js_ws (rev (dropWhile js_ws s))"
  have keep: "dropWhile js_ws (rev t) = rev t"
  proof (cases "rev t")
    case (Cons c cs)
    have "\<exists>us. rev (dropWhile js_ws s) = us @ t"
      unfolding t_def by (metis takeWhile_dropWhile_id)
    then obtain us where "rev (dropWhile js_ws s) = us @ t" ..
    then have "dropWhile js_ws s = rev t @ rev us" by (metis rev_append rev_rev_ident)
    then have "\<not> js_ws c"
      using Cons hd_dropWhile [of js_ws s] by auto
    then show ?thesis using Cons by simp
  qed simp
  have "js_trim s = rev t" by (simp add: js_trim_def t_def)
  then show ?thesis
    using keep by (simp add: js_trim_def t_def dropWhile_idem)
qed

section \<open>Hexadecimal\<close>

definition hex_digit :: "nat \<Rightarrow> char" where
  "hex_digit n = (if n < 10 then char_of (48 + n) else char_of (87 + n))"

definition hex_value :: "char \<Rightarrow> nat option" where
  "hex_value c = (let n = of_char c :: nat in
     if 48 \<le> n \<and> n \<le> 57 then Some (n - 48)
     else if 97 \<le> n \<and> n \<le> 102 then Some (n - 87) else None)"

definition is_hex :: "char \<Rightarrow> bool" where
  "is_hex c = (hex_value c \<noteq> None)"

lemma hex_value_digit [hex_simps]: "n < 16 \<Longrightarrow> hex_value (hex_digit n) = Some n"
  by (auto simp: hex_value_def hex_digit_def Let_def)

lemma hex_digit_value: "hex_value c = Some n \<Longrightarrow> n < 16 \<and> hex_digit n = c"
  by (auto simp: hex_value_def hex_digit_def Let_def split: if_splits)

lemma unat_byte_lt: "unat (b::byte) < 256"
  using unsigned_less [of b, where 'a = nat] by simp

lemma byte_nibbles: "unat (b::byte) div 16 < 16" "unat b mod 16 < 16"
  using unat_byte_lt [of b] by auto

section \<open>Decimal\<close>

text \<open>The decimal digits of a number, as in a template literal.\<close>

fun decimal :: "nat \<Rightarrow> string" where
  "decimal n = (if n < 10 then [char_of (48 + n)] else decimal (n div 10) @ [char_of (48 + n mod 10)])"

declare decimal.simps [simp del]

lemma decimal_nonempty [simp]: "decimal n \<noteq> []"
  by (subst decimal.simps) simp

lemma decimal_last: "last (decimal n) = char_of (48 + n mod 10)"
  by (subst decimal.simps) simp

lemma decimal_butlast: "butlast (decimal n) = (if n < 10 then [] else decimal (n div 10))"
  by (subst decimal.simps) simp

lemma decimal_inj: "decimal m = decimal n \<Longrightarrow> m = n"
proof (induction m arbitrary: n rule: less_induct)
  case (less m)
  have "(of_char (char_of (48 + m mod 10) :: char) :: nat) = of_char (char_of (48 + n mod 10) :: char)"
    using less.prems decimal_last by metis
  then have l: "m mod 10 = n mod 10" by (simp add: of_char_char_of_lt)
  have b: "(if m < 10 then [] else decimal (m div 10)) = (if n < 10 then [] else decimal (n div 10))"
    using less.prems decimal_butlast by metis
  show ?case
  proof (cases "m < 10")
    case True
    then have "n < 10" using b by (metis decimal_nonempty)
    then show ?thesis using l True by simp
  next
    case False
    then have "\<not> n < 10" using b by (metis decimal_nonempty)
    then have "m div 10 = n div 10" using less.IH [of "m div 10" "n div 10"] b False by simp
    then show ?thesis using l by (metis mod_div_mult_eq)
  qed
qed

section \<open>Errors as values\<close>

text \<open>Sequencing of computations that may throw: \<open>Inl\<close> is the exception.\<close>

definition sbind :: "'e + 'a \<Rightarrow> ('a \<Rightarrow> 'e + 'b) \<Rightarrow> 'e + 'b" where
  "sbind m f = (case m of Inl e \<Rightarrow> Inl e | Inr x \<Rightarrow> f x)"

lemma sbind_simps [simp]: "sbind (Inl e) f = Inl e" "sbind (Inr x) f = f x"
  by (simp_all add: sbind_def)

lemma sbind_Inr_iff: "sbind m f = Inr y \<longleftrightarrow> (\<exists>x. m = Inr x \<and> f x = Inr y)"
  by (cases m) auto

end
