(* ===== verification/Wire_Codec.thy ===== *)
theory Wire_Codec
  imports Nexnet_Prelude
begin

text \<open>
  The text encodings of \<open>packages/protocol/src/wire.ts\<close>: lower-case hexadecimal and
  unpadded base64url, with the platform's \<open>btoa\<close> and \<open>atob\<close> they are built on.
  A thrown \<open>Error\<close> is \<open>None\<close>. The lemmas show that decoding inverts encoding
  and which strings an encoder can produce.
\<close>

section \<open>Hexadecimal\<close>

definition toHex :: "bytes \<Rightarrow> string" where
  "toHex bs = concat (map (\<lambda>b. [hex_digit (unat b div 16), hex_digit (unat b mod 16)]) bs)"

text \<open>\<open>Number.parseInt(value.slice(2 i, 2 i + 2), 16)\<close> for every pair of digits.\<close>

fun hex_pairs :: "string \<Rightarrow> bytes" where
  "hex_pairs (a # b # r) =
     word_of_nat (the (hex_value a) * 16 + the (hex_value b)) # hex_pairs r"
| "hex_pairs _ = []"

definition fromHex :: "string \<Rightarrow> bytes option" where
  "fromHex value =
     (if length value mod 2 \<noteq> 0 \<or> \<not> list_all is_hex value then None else Some (hex_pairs value))"

lemma toHex_simps [simp, hex_simps]:
  "toHex [] = []"
  "toHex (b # bs) = hex_digit (unat b div 16) # hex_digit (unat b mod 16) # toHex bs"
  by (simp_all add: toHex_def)

lemma length_toHex [simp, hex_simps]: "length (toHex bs) = 2 * length bs"
  by (induction bs) auto

lemma is_hex_digit [simp]: "n < 16 \<Longrightarrow> is_hex (hex_digit n)"
  by (simp add: is_hex_def hex_value_digit)

lemma toHex_is_hex [simp, hex_simps]: "list_all is_hex (toHex bs)"
  by (induction bs) (auto simp: byte_nibbles)

lemma byte_of_nibbles: "(word_of_nat (unat (b::byte) div 16 * 16 + unat b mod 16) :: byte) = b"
  by (simp only: div_mult_mod_eq) simp

lemma hex_pairs_toHex [simp, hex_simps]: "hex_pairs (toHex bs) = bs"
proof (induction bs)
  case (Cons b bs)
  then show ?case
    using byte_of_nibbles [of b] by (simp add: hex_value_digit byte_nibbles)
qed simp

lemma fromHex_toHex [simp, hex_simps]: "fromHex (toHex bs) = Some bs"
  by (simp add: fromHex_def)

lemma toHex_inj [simp, hex_simps]: "toHex a = toHex b \<longleftrightarrow> a = b"
  by (metis hex_pairs_toHex)

lemma unat_byte_of: "n < 256 \<Longrightarrow> unat (word_of_nat n :: byte) = n"
  by (simp add: unsigned_of_nat take_bit_nat_eq_self)

lemma two_digits: "(y::nat) < n \<Longrightarrow> (x * n + y) div n = x" "(y::nat) < n \<Longrightarrow> (x * n + y) mod n = y"
  by auto

lemma toHex_hex_pairs:
  "length s mod 2 = 0 \<Longrightarrow> list_all is_hex s \<Longrightarrow> toHex (hex_pairs s) = s"
proof (induction s rule: hex_pairs.induct)
  case (1 a b r)
  obtain h l where hl: "hex_value a = Some h" "hex_value b = Some l"
    using "1.prems" by (auto simp: is_hex_def)
  then have bounds: "h < 16" "l < 16" "hex_digit h = a" "hex_digit l = b"
    using hex_digit_value by auto
  have u: "unat (word_of_nat (h * 16 + l) :: byte) = h * 16 + l"
    using bounds by (intro unat_byte_of) simp
  have "toHex (hex_pairs r) = r"
    using "1.IH" "1.prems" by simp
  then show ?case
    using hl bounds by (simp add: u two_digits del: of_nat_add of_nat_mult)
qed auto

lemma fromHex_Some_toHex: "fromHex s = Some bs \<Longrightarrow> toHex bs = s"
  by (auto simp: fromHex_def toHex_hex_pairs split: if_splits)

text \<open>A hexadecimal string holds no separator, so composite keys can be split again.\<close>

lemma hex_no_colon: "list_all is_hex s \<Longrightarrow> CHR '':'' \<notin> set s"
  by (induction s) (auto simp: is_hex_def hex_value_def)

lemma toHex_no_colon [simp]: "CHR '':'' \<notin> set (toHex bs)"
  by (rule hex_no_colon) simp

lemma split_at_separator:
  assumes "xs @ c # ys = xs' @ c # ys'" and "c \<notin> set xs" and "c \<notin> set xs'"
  shows "xs = xs' \<and> ys = ys'"
proof -
  have "takeWhile (\<lambda>d. d \<noteq> c) (xs @ c # ys) = xs" "takeWhile (\<lambda>d. d \<noteq> c) (xs' @ c # ys') = xs'"
    using assms(2,3) by (auto simp: takeWhile_tail)
  then show ?thesis using assms(1) by auto
qed

section \<open>Base64\<close>

definition b64_char :: "nat \<Rightarrow> char" where
  "b64_char n = (if n < 26 then char_of (65 + n) else if n < 52 then char_of (71 + n)
     else if n < 62 then char_of (n - 4) else if n = 62 then CHR ''+'' else CHR ''/'')"

definition b64_value :: "char \<Rightarrow> nat option" where
  "b64_value c = (let n = of_char c :: nat in
     if 65 \<le> n \<and> n \<le> 90 then Some (n - 65) else if 97 \<le> n \<and> n \<le> 122 then Some (n - 71)
     else if 48 \<le> n \<and> n \<le> 57 then Some (n + 4) else if c = CHR ''+'' then Some 62
     else if c = CHR ''/'' then Some 63 else None)"

fun b64_sextets :: "bytes \<Rightarrow> nat list" where
  "b64_sextets [] = []"
| "b64_sextets [a] = [unat a div 4, (unat a mod 4) * 16]"
| "b64_sextets [a, b] = [unat a div 4, (unat a mod 4) * 16 + unat b div 16, (unat b mod 16) * 4]"
| "b64_sextets (a # b # c # r) =
     unat a div 4 # ((unat a mod 4) * 16 + unat b div 16)
       # ((unat b mod 16) * 4 + unat c div 64) # (unat c mod 64) # b64_sextets r"

fun b64_bytes :: "nat list \<Rightarrow> bytes" where
  "b64_bytes (w # x # y # z # r) =
     word_of_nat (w * 4 + x div 16) # word_of_nat ((x mod 16) * 16 + y div 4)
       # word_of_nat ((y mod 4) * 64 + z) # b64_bytes r"
| "b64_bytes [w, x, y] = [word_of_nat (w * 4 + x div 16), word_of_nat ((x mod 16) * 16 + y div 4)]"
| "b64_bytes [w, x] = [word_of_nat (w * 4 + x div 16)]"
| "b64_bytes _ = []"

definition rstrip :: "char \<Rightarrow> string \<Rightarrow> string" where
  "rstrip c s = rev (dropWhile (\<lambda>d. d = c) (rev s))"

text \<open>\<open>s.padEnd(Math.ceil(s.length / 4) * 4, "=")\<close>.\<close>

definition pad4 :: "string \<Rightarrow> string" where
  "pad4 s = s @ replicate ((4 - length s mod 4) mod 4) (CHR ''='')"

definition btoa :: "bytes \<Rightarrow> string" where
  "btoa bs = pad4 (map b64_char (b64_sextets bs))"

text \<open>The forgiving-base64 decoder: white space dropped, at most two padding characters.\<close>

definition ascii_ws :: "char \<Rightarrow> bool" where
  "ascii_ws c = (let n = of_char c :: nat in n = 9 \<or> n = 10 \<or> n = 12 \<or> n = 13 \<or> n = 32)"

definition unpad :: "string \<Rightarrow> string" where
  "unpad s = (if length s mod 4 \<noteq> 0 then s else
     if drop (length s - 2) s = ''=='' then take (length s - 2) s
     else if drop (length s - 1) s = ''='' then take (length s - 1) s else s)"

definition atob :: "string \<Rightarrow> bytes option" where
  "atob s = (let t = unpad (filter (\<lambda>c. \<not> ascii_ws c) s) in
     if length t mod 4 = 1 \<or> \<not> list_all (\<lambda>c. b64_value c \<noteq> None) t then None
     else Some (b64_bytes (map (\<lambda>c. the (b64_value c)) t)))"

definition url_char :: "char \<Rightarrow> char" where
  "url_char c = (if c = CHR ''+'' then CHR ''-'' else if c = CHR ''/'' then CHR ''_'' else c)"

definition std_char :: "char \<Rightarrow> char" where
  "std_char c = (if c = CHR ''-'' then CHR ''+'' else if c = CHR ''_'' then CHR ''/'' else c)"

definition toBase64Url :: "bytes \<Rightarrow> string" where
  "toBase64Url bs = rstrip (CHR ''='') (map url_char (btoa bs))"

definition fromBase64Url :: "string \<Rightarrow> bytes option" where
  "fromBase64Url value = atob (pad4 (map std_char value))"

text \<open>\<open>/^[A-Za-z0-9_-]+$/\<close>, character by character.\<close>

definition is_b64url :: "char \<Rightarrow> bool" where
  "is_b64url c = (c = CHR ''-'' \<or> c = CHR ''_'' \<or>
     (b64_value c \<noteq> None \<and> c \<noteq> CHR ''+'' \<and> c \<noteq> CHR ''/''))"

subsection \<open>Round trip\<close>

lemma sextets_lt: "n \<in> set (b64_sextets bs) \<Longrightarrow> n < 64"
proof (induction bs rule: b64_sextets.induct)
  case (2 a)
  then show ?case using unat_byte_lt [of a] by auto
next
  case (3 a b)
  then show ?case using unat_byte_lt [of a] unat_byte_lt [of b] by auto
next
  case (4 a b c r)
  then show ?case using unat_byte_lt [of a] unat_byte_lt [of b] unat_byte_lt [of c] by auto
qed simp

lemma length_sextets: "length (b64_sextets bs) mod 4 \<noteq> 1"
  by (induction bs rule: b64_sextets.induct) (auto simp: mod_Suc)

lemma byte_eq_nat: "n = unat (b::byte) \<Longrightarrow> word_of_nat n = b"
  by simp

lemma sextet_parts:
  fixes a b c :: byte
  shows "unat a div 4 * 4 + (unat a mod 4 * 16 + unat b div 16) div 16 = unat a"
    and "(unat a mod 4 * 16 + unat b div 16) mod 16 * 16 + (unat b mod 16 * 4 + unat c div 64) div 4 = unat b"
    and "(unat b mod 16 * 4 + unat c div 64) mod 4 * 64 + unat c mod 64 = unat c"
proof -
  have lt: "unat b div 16 < 16" "unat c div 64 < 4" "unat b div 16 < 16" "unat c mod 64 < 64"
    using unat_byte_lt [of b] unat_byte_lt [of c] by auto
  show "unat a div 4 * 4 + (unat a mod 4 * 16 + unat b div 16) div 16 = unat a"
    by (simp only: two_digits(1) [OF lt(1)] div_mult_mod_eq)
  show "(unat a mod 4 * 16 + unat b div 16) mod 16 * 16 + (unat b mod 16 * 4 + unat c div 64) div 4 = unat b"
    by (simp only: two_digits(1) [OF lt(2)] two_digits(2) [OF lt(1)] div_mult_mod_eq)
  show "(unat b mod 16 * 4 + unat c div 64) mod 4 * 64 + unat c mod 64 = unat c"
    by (simp only: two_digits(2) [OF lt(2)] div_mult_mod_eq)
qed

lemma b64_bytes_sextets: "b64_bytes (b64_sextets bs) = bs"
proof (induction bs rule: b64_sextets.induct)
  case (2 a)
  have "unat a div 4 * 4 + unat a mod 4 * 16 div 16 = unat a" by simp
  then show ?case by (simp add: byte_eq_nat del: of_nat_add of_nat_mult)
next
  case (3 a b)
  have "(unat a mod 4 * 16 + unat b div 16) mod 16 * 16 + unat b mod 16 * 4 div 4 = unat b"
    using sextet_parts(2) [of a b 0] by simp
  then show ?case using sextet_parts(1) [of a b] by (simp add: byte_eq_nat del: of_nat_add of_nat_mult)
next
  case (4 a b c r)
  then show ?case
    using sextet_parts(1) [of a b] sextet_parts(2) [of a b c] sextet_parts(3) [of b c]
    by (simp add: byte_eq_nat del: of_nat_add of_nat_mult)
qed simp

lemma b64_value_char: "n < 64 \<Longrightarrow> b64_value (b64_char n) = Some n"
  by (auto simp: b64_value_def b64_char_def Let_def)

lemma b64_char_value: "b64_value c = Some n \<Longrightarrow> n < 64 \<and> b64_char n = c"
  by (auto simp: b64_value_def b64_char_def Let_def split: if_splits)

lemma b64_value_special:
  "b64_value (CHR ''='') = None" "b64_value (CHR ''-'') = None" "b64_value (CHR ''_'') = None"
  by (simp_all add: b64_value_def)

lemma b64_value_not_ws: "b64_value c \<noteq> None \<Longrightarrow> \<not> ascii_ws c"
  by (auto simp: b64_value_def ascii_ws_def Let_def split: if_splits)

lemma rstrip_replicate: "c \<notin> set xs \<Longrightarrow> rstrip c (xs @ replicate n c) = xs"
proof -
  assume c: "c \<notin> set xs"
  have "dropWhile (\<lambda>d. d = c) (replicate n c @ rev xs) = dropWhile (\<lambda>d. d = c) (rev xs)"
    by (induction n) auto
  also have "\<dots> = rev xs" using c by (cases "rev xs") auto
  finally show ?thesis by (simp add: rstrip_def)
qed

lemma unpad_pad4:
  assumes "CHR ''='' \<notin> set s" and "length s mod 4 \<noteq> 1"
  shows "unpad (pad4 s) = s"
proof -
  consider "length s mod 4 = 0" | "length s mod 4 = 2" | "length s mod 4 = 3"
    using assms(2) by linarith
  then show ?thesis
  proof cases
    case 1
    moreover have "drop (length s - n) s \<noteq> ''==''" "drop (length s - n) s \<noteq> ''=''" for n
      using assms(1) set_drop_subset [of "length s - n" s] by (metis list.set_intros(1) subsetD)+
    ultimately show ?thesis by (simp add: pad4_def unpad_def)
  next
    case 2
    then have "pad4 s = s @ ''==''" by (simp add: pad4_def numeral_2_eq_2)
    then show ?thesis using 2 by (simp add: unpad_def mod_Suc)
  next
    case 3
    then have p: "pad4 s = s @ ''=''" by (simp add: pad4_def)
    obtain t x where "s = t @ [x]" using 3 by (cases s rule: rev_cases) auto
    then have "drop (length (pad4 s) - 2) (pad4 s) = [x, CHR ''='']" using p by simp
    moreover have "x \<noteq> CHR ''=''" using assms(1) \<open>s = t @ [x]\<close> by auto
    ultimately show ?thesis using p 3 by (simp add: unpad_def mod_Suc)
  qed
qed

lemma filter_ws_pad4:
  "list_all (\<lambda>c. b64_value c \<noteq> None) s \<Longrightarrow> filter (\<lambda>c. \<not> ascii_ws c) (pad4 s) = pad4 s"
proof -
  assume a: "list_all (\<lambda>c. b64_value c \<noteq> None) s"
  have "\<not> ascii_ws (CHR ''='')" by (simp add: ascii_ws_def)
  then show ?thesis
    using a b64_value_not_ws by (auto simp: pad4_def list_all_iff filter_id_conv)
qed

lemma no_pad_char: "list_all (\<lambda>c. b64_value c \<noteq> None) s \<Longrightarrow> CHR ''='' \<notin> set s"
  using b64_value_special(1) by (auto simp: list_all_iff)

lemma atob_pad4:
  assumes "list_all (\<lambda>c. b64_value c \<noteq> None) s" and "length s mod 4 \<noteq> 1"
  shows "atob (pad4 s) = Some (b64_bytes (map (\<lambda>c. the (b64_value c)) s))"
  using assms by (simp add: atob_def filter_ws_pad4 unpad_pad4 no_pad_char)

lemma sextet_chars: "list_all (\<lambda>c. b64_value c \<noteq> None) (map b64_char (b64_sextets bs))"
  by (auto simp: list_all_iff sextets_lt b64_value_char)

lemma map_value_char: "map (\<lambda>c. the (b64_value c)) (map b64_char (b64_sextets bs)) = b64_sextets bs"
proof -
  have "\<forall>n \<in> set (b64_sextets bs). the (b64_value (b64_char n)) = n"
    by (simp add: sextets_lt b64_value_char)
  then show ?thesis by (simp add: map_idI)
qed

lemma atob_sextets: "atob (pad4 (map b64_char (b64_sextets bs))) = Some bs"
  using atob_pad4 [OF sextet_chars, of bs] length_sextets [of bs]
  by (simp add: map_value_char [unfolded map_map] b64_bytes_sextets)

lemma atob_btoa [simp, hex_simps]: "atob (btoa bs) = Some bs"
  by (simp add: btoa_def atob_sextets)

lemma std_url_char: "c \<noteq> CHR ''-'' \<Longrightarrow> c \<noteq> CHR ''_'' \<Longrightarrow> std_char (url_char c) = c"
  by (auto simp: std_char_def url_char_def)

lemma toBase64Url_eq: "toBase64Url bs = map url_char (map b64_char (b64_sextets bs))"
proof -
  have "CHR ''='' \<notin> set (map url_char (map b64_char (b64_sextets bs)))"
    using no_pad_char [OF sextet_chars, of bs] by (auto simp: url_char_def split: if_splits)
  moreover have "url_char (CHR ''='') = CHR ''=''" by (simp add: url_char_def)
  ultimately show ?thesis
    by (simp add: toBase64Url_def btoa_def pad4_def rstrip_replicate del: map_map)
qed

lemma std_toBase64Url: "map std_char (toBase64Url bs) = map b64_char (b64_sextets bs)"
proof -
  have "std_char (url_char c) = c" if "c \<in> set (map b64_char (b64_sextets bs))" for c
    using that sextet_chars [of bs] b64_value_special
    by (intro std_url_char) (auto simp: list_all_iff simp del: set_map)
  then show ?thesis
    unfolding toBase64Url_eq map_map [of std_char] by (simp add: map_idI)
qed

lemma fromBase64Url_toBase64Url [simp, hex_simps]: "fromBase64Url (toBase64Url bs) = Some bs"
  by (simp add: fromBase64Url_def std_toBase64Url atob_sextets)

lemma toBase64Url_alphabet: "list_all is_b64url (toBase64Url bs)"
proof -
  have "is_b64url (url_char c)" if "b64_value c \<noteq> None" for c
    using that by (auto simp: is_b64url_def url_char_def)
  then show ?thesis
    using sextet_chars [of bs] by (auto simp: toBase64Url_eq list_all_iff)
qed

lemma length_b64_sextets: "length (b64_sextets bs) = (4 * length bs + 2) div 3"
  by (induction bs rule: b64_sextets.induct) auto

lemma length_toBase64Url: "length (toBase64Url bs) = (4 * length bs + 2) div 3"
  by (simp add: toBase64Url_eq length_b64_sextets)

section \<open>Big-endian 32-bit integers\<close>

text \<open>\<open>DataView.getUint32\<close> and \<open>setUint32\<close>, the latter modulo \<open>2 ^ 32\<close>.\<close>

definition be32 :: "bytes \<Rightarrow> nat" where
  "be32 b = unat (b ! 0) * 2 ^ 24 + unat (b ! 1) * 2 ^ 16 + unat (b ! 2) * 2 ^ 8 + unat (b ! 3)"

definition put32 :: "nat \<Rightarrow> bytes" where
  "put32 v = [word_of_nat (v div 2 ^ 24), word_of_nat (v div 2 ^ 16), word_of_nat (v div 2 ^ 8), word_of_nat v]"

lemma unat_word_of_nat_byte: "unat (word_of_nat n :: byte) = n mod 256"
  by (simp add: unsigned_of_nat take_bit_eq_mod)

lemma be32_parts:
  assumes "v < 2 ^ 32"
  shows "v div 2 ^ 24 mod 256 * 2 ^ 24 + v div 2 ^ 16 mod 256 * 2 ^ 16 + v div 2 ^ 8 mod 256 * 2 ^ 8
    + v mod 256 = (v::nat)"
proof -
  have a: "v div 2 ^ 24 mod 256 = v div 2 ^ 24" using assms by simp
  have b: "v div 2 ^ 24 * 256 + v div 2 ^ 16 mod 256 = v div 2 ^ 16"
    using div_mult_mod_eq [of "v div 2 ^ 16" 256] by (simp add: div_mult2_eq [symmetric])
  have c: "v div 2 ^ 16 * 256 + v div 2 ^ 8 mod 256 = v div 2 ^ 8"
    using div_mult_mod_eq [of "v div 2 ^ 8" 256] by (simp add: div_mult2_eq [symmetric])
  have d: "v div 2 ^ 8 * 256 + v mod 256 = v"
    using div_mult_mod_eq [of v 256] by simp
  have "A * 256 + m1 = B \<Longrightarrow> B * 256 + m2 = C \<Longrightarrow> C * 256 + m3 = v \<Longrightarrow>
      A * 2 ^ 24 + m1 * 2 ^ 16 + m2 * 2 ^ 8 + m3 = v" for A B C m1 m2 m3 :: nat
    by (auto simp: algebra_simps)
  from this [OF b c d] show ?thesis unfolding a .
qed

lemma length_put32 [simp]: "length (put32 v) = 4"
  by (simp add: put32_def)

lemma be32_put32 [simp]: "v < 2 ^ 32 \<Longrightarrow> be32 (put32 v) = v"
  using be32_parts [of v] by (simp add: be32_def put32_def unat_word_of_nat_byte)

lemma be32_lt: "be32 b < 2 ^ 32"
  using unat_byte_lt [of "b ! 0"] unat_byte_lt [of "b ! 1"] unat_byte_lt [of "b ! 2"] unat_byte_lt [of "b ! 3"]
  by (simp add: be32_def)

end
