(* ===== verification/Nexnet_Types.thy ===== *)
theory Nexnet_Types
  imports Wire_Codec "HOL-Library.Char_ord" "HOL-Library.List_Lexorder"
begin

text \<open>
  The data of \<open>packages/types/src/index.ts\<close> the modelled components exchange, the
  dynamically typed values that reach the services (\<open>unknown\<close>, JSON, CBOR), and the
  record of third-party primitives the sources call.

  Times and counters are \<open>int\<close>: the JavaScript numbers they come from are integers
  wherever the code stores them, so \<open>Number.isFinite\<close> holds by typing and
  \<open>Number.isSafeInteger\<close> is the range check \<open>safe_int\<close>.
\<close>

section \<open>Dynamic values\<close>

text \<open>
  A value of type \<open>unknown\<close>. \<open>JNum\<close> is a number with an integral value,
  \<open>JFrac\<close> any other number (with its source text); a missing property is
  \<open>None\<close> of \<open>jfield\<close>.
\<close>

datatype jval =
    JNull
  | JBool bool
  | JNum int
  | JFrac string
  | JStr string
  | JBytes bytes
  | JArr "jval list"
  | JObj "(string \<times> jval) list"

definition safe_int :: "int \<Rightarrow> bool" where
  "safe_int n = (\<bar>n\<bar> \<le> 9007199254740991)"

fun jfield :: "(string \<times> jval) list \<Rightarrow> string \<Rightarrow> jval option" where
  "jfield obj k = map_of obj k"

section \<open>Third-party primitives\<close>

text \<open>
  The functions of \<open>@noble/curves\<close>, \<open>@noble/hashes\<close>, \<open>@noble/ciphers\<close>
  and \<open>cbor2\<close> that the sources call. \<open>ed_verify\<close>, \<open>aead_dec\<close> and \<open>x_dh\<close> may throw
  (\<open>None\<close>), and so may the CBOR decoder.
\<close>

record crypto =
  ed_sign :: "bytes \<Rightarrow> bytes \<Rightarrow> bytes"
  ed_verify :: "bytes \<Rightarrow> bytes \<Rightarrow> bytes \<Rightarrow> bool option"
  ed_public :: "bytes \<Rightarrow> bytes"
  deriveId :: "string \<Rightarrow> bytes \<Rightarrow> bytes"
  sha256 :: "bytes \<Rightarrow> bytes"
  sha512 :: "bytes \<Rightarrow> bytes"
  cdeEncode :: "jval \<Rightarrow> bytes"
  cdeDecode :: "bytes \<Rightarrow> jval option"
  hkdf :: "bytes \<Rightarrow> bytes \<Rightarrow> bytes \<Rightarrow> nat \<Rightarrow> bytes"
  aead_enc :: "bytes \<Rightarrow> bytes \<Rightarrow> bytes \<Rightarrow> bytes \<Rightarrow> bytes"
  aead_dec :: "bytes \<Rightarrow> bytes \<Rightarrow> bytes \<Rightarrow> bytes \<Rightarrow> bytes option"
  x_dh :: "bytes \<Rightarrow> bytes \<Rightarrow> bytes option"
  x_public :: "bytes \<Rightarrow> bytes"

text \<open>Documented behaviour of the primitives, used as named hypotheses.\<close>

definition signatures_correct :: "crypto \<Rightarrow> bool" where
  "signatures_correct c = (\<forall>sk m. ed_verify c (ed_public c sk) m (ed_sign c sk m) = Some True)"

definition signature_length :: "crypto \<Rightarrow> bool" where
  "signature_length c = (\<forall>sk m. length (ed_sign c sk m) = 64)"

text \<open>The deterministic encoding orders the keys of a map, so decoding gives the value up to that order.\<close>

fun canon :: "jval \<Rightarrow> jval" where
  "canon (JArr xs) = JArr (map canon xs)"
| "canon (JObj fs) = JObj (sort_key fst (map (\<lambda>p. (fst p, canon (snd p))) fs))"
| "canon v = v"

definition cbor_roundtrip :: "crypto \<Rightarrow> bool" where
  "cbor_roundtrip c = (\<forall>v. \<exists>w. cdeDecode c (cdeEncode c v) = Some w \<and> canon w = canon v)"

definition aead_correct :: "crypto \<Rightarrow> bool" where
  "aead_correct c = (\<forall>k n a p. length k = 32 \<longrightarrow> length n = 24 \<longrightarrow>
     length (aead_enc c k n a p) = length p + 16 \<and> aead_dec c k n a (aead_enc c k n a p) = Some p)"

definition hkdf_length :: "crypto \<Rightarrow> bool" where
  "hkdf_length c = (\<forall>k s i n. length (hkdf c k s i n) = n)"

definition dh_agrees :: "crypto \<Rightarrow> bool" where
  "dh_agrees c = (\<forall>a b. length a = 32 \<longrightarrow> length b = 32 \<longrightarrow>
     (\<exists>s. x_dh c a (x_public c b) = Some s \<and> x_dh c b (x_public c a) = Some s))"

definition public_length :: "crypto \<Rightarrow> bool" where
  "public_length c = (\<forall>a. length a = 32 \<longrightarrow> length (x_public c a) = 32)"

section \<open>Constants\<close>

definition PROTOCOL_VERSION :: int where "PROTOCOL_VERSION = 1"
definition MAX_PAYLOAD_BYTES :: nat where "MAX_PAYLOAD_BYTES = 256 * 1024"
definition MAX_PARENT_IDS :: nat where "MAX_PARENT_IDS = 32"
definition MAX_EVENT_TYPE_LEN :: nat where "MAX_EVENT_TYPE_LEN = 64"
definition DOMAIN_EVENT_ID :: string where "DOMAIN_EVENT_ID = ''nexnet event id v1''"
definition DOMAIN_ROOM_ID :: string where "DOMAIN_ROOM_ID = ''nexnet room id v1''"
definition DOMAIN_GROUP_ID :: string where "DOMAIN_GROUP_ID = ''nexnet group id v1''"
definition DOMAIN_IDENTITY_ID :: string where "DOMAIN_IDENTITY_ID = ''nexnet identity id v1''"

section \<open>Protocol records\<close>

record nexnet_event =
  ev_protocolVersion :: int
  ev_eventType :: string
  ev_eventId :: bytes
  ev_authorIdentityId :: bytes
  ev_authorDeviceId :: bytes
  ev_createdAt :: int
  ev_sequence :: int
  ev_parentIds :: "bytes list"
  ev_payload :: bytes
  ev_signature :: bytes

record device_certificate =
  dc_accountId :: bytes
  dc_deviceId :: bytes
  dc_signingKey :: bytes
  dc_encryptionKey :: bytes
  dc_issuedAt :: int
  dc_expiresAt :: int
  dc_capabilities :: int
  dc_rootSignature :: bytes

record identity_record =
  ir_identityId :: bytes
  ir_wallet :: bytes
  ir_createdAt :: int
  ir_username :: "string option"

datatype credential_kind = KDevice | KSsh | KPasskey

fun kind_name :: "credential_kind \<Rightarrow> string" where
  "kind_name KDevice = ''device''"
| "kind_name KSsh = ''ssh''"
| "kind_name KPasskey = ''passkey''"

record ssh_commitment =
  sk_algorithm :: string
  sk_publicKey :: bytes
  sk_fingerprint :: string

record revocation =
  rv_accountId :: bytes
  rv_kind :: credential_kind
  rv_credentialId :: string
  rv_sequence :: int
  rv_rootSignature :: bytes

text \<open>\<open>DeviceAuthorization\<close>: the credential a device certificate rests on.\<close>

datatype auth_kind = ARoot | ASsh | APasskey

record device_authorization =
  da_kind :: auth_kind
  da_credentialId :: "string option"

record passkey_credential =
  pk_credentialId :: string
  pk_publicKey :: bytes
  pk_counter :: int
  pk_rpId :: string
  pk_origin :: string

record passkey_assertion =
  pa_id :: string
  pa_rawId :: string
  pa_clientDataJSON :: string
  pa_authenticatorData :: string
  pa_signature :: string
  pa_userHandle :: "string option"

record username_record =
  un_username :: string
  un_ownerWallet :: bytes
  un_identityId :: bytes
  un_registeredAt :: int

record validator_record =
  va_wallet :: bytes
  va_bondedStake :: int
  va_effectivePower :: int
  va_joinedAt :: int

lemma kind_name_inj [simp]: "kind_name k = kind_name k' \<longleftrightarrow> k = k'"
  by (cases k; cases k') auto

lemma kind_name_no_colon [simp]: "CHR '':'' \<notin> set (kind_name k)"
  by (cases k) auto

text \<open>\<open>new TextEncoder().encode\<close> on code units below 256.\<close>

definition utf8_char :: "char \<Rightarrow> bytes" where
  "utf8_char c = (let n = of_char c :: nat in
     if n < 128 then [word_of_nat n] else [word_of_nat (192 + n div 64), word_of_nat (128 + n mod 64)])"

definition utf8 :: "string \<Rightarrow> bytes" where
  "utf8 s = concat (map utf8_char s)"

lemma utf8_simps [simp]: "utf8 [] = []" "utf8 (c # s) = utf8_char c @ utf8 s"
  by (simp_all add: utf8_def)

lemma utf8_ascii: "list_all (\<lambda>c. (of_char c :: nat) < 128) s \<Longrightarrow> length (utf8 s) = length s"
  by (induction s) (auto simp: utf8_char_def Let_def)

end
