(* ===== verification/Policy.thy ===== *)
theory Policy
  imports Nexnet_Types
begin

text \<open>
  Channel policy of the gateway, \<open>packages/gateway/src/policy.ts\<close>: the channel table, the
  text rules of \<open>validateBody\<close>, the \<open>SlidingWindow\<close> rate limiter and the
  \<open>DuplicateGuard\<close>. Both limiters keep times of accepted calls and answer from those
  still inside the window; the locale \<open>window_limiter\<close> states that contract, proves the
  rate bound once, and is interpreted on each of them.
\<close>

section \<open>Channels\<close>

datatype channel_id = Updates | Public

datatype writers = WOwner | WRegistered

record channel_policy =
  cp_id :: channel_id
  cp_writers :: writers
  cp_rateLimit :: nat
  cp_retains :: bool

fun CHANNELS :: "channel_id \<Rightarrow> channel_policy" where
  "CHANNELS Updates = \<lparr>cp_id = Updates, cp_writers = WOwner, cp_rateLimit = 30, cp_retains = True\<rparr>"
| "CHANNELS Public = \<lparr>cp_id = Public, cp_writers = WRegistered, cp_rateLimit = 5, cp_retains = False\<rparr>"

definition MAX_BODY_BYTES :: nat where "MAX_BODY_BYTES = 2000"
definition RATE_WINDOW_MS :: int where "RATE_WINDOW_MS = 60000"
definition SPAM_DUPLICATE_THRESHOLD :: nat where "SPAM_DUPLICATE_THRESHOLD = 3"

text \<open>The type guard \<open>isChannelId\<close>, as the partial function from names to channels.\<close>

definition isChannelId :: "string \<Rightarrow> channel_id option" where
  "isChannelId value =
     (if value = ''updates'' then Some Updates else if value = ''public'' then Some Public else None)"

fun channel_name :: "channel_id \<Rightarrow> string" where
  "channel_name Updates = ''updates''"
| "channel_name Public = ''public''"

lemma isChannelId_name [simp]: "isChannelId (channel_name ch) = Some ch"
  by (cases ch) (simp_all add: isChannelId_def)

lemma channel_name_inj [simp]: "channel_name a = channel_name b \<longleftrightarrow> a = b"
  by (cases a; cases b) auto

section \<open>Message text\<close>

text \<open>
  A message body is a sequence of UTF-16 code units. The regular expressions have the
  \<open>u\<close> flag, so they see code points: a surrogate pair is one, a lone surrogate is itself.
\<close>

type_synonym code_units = "nat list"

definition high_surrogate :: "nat \<Rightarrow> bool" where "high_surrogate u = (0xD800 \<le> u \<and> u \<le> 0xDBFF)"
definition low_surrogate :: "nat \<Rightarrow> bool" where "low_surrogate u = (0xDC00 \<le> u \<and> u \<le> 0xDFFF)"

fun code_points :: "code_units \<Rightarrow> nat list" where
  "code_points [] = []"
| "code_points [u] = [u]"
| "code_points (u # v # us) =
     (if high_surrogate u \<and> low_surrogate v
      then (0x10000 + (u - 0xD800) * 0x400 + (v - 0xDC00)) # code_points us
      else u # code_points (v # us))"

text \<open>\<open>Buffer.byteLength(body, "utf8")\<close>; a lone surrogate is written as U+FFFD.\<close>

definition utf8_length :: "nat \<Rightarrow> nat" where
  "utf8_length p = (if p < 0x80 then 1 else if p < 0x800 then 2 else if p < 0x10000 then 3 else 4)"

definition byteLength :: "code_units \<Rightarrow> nat" where
  "byteLength us = sum_list (map utf8_length (code_points us))"

definition js_space :: "nat \<Rightarrow> bool" where
  "js_space u = (u \<in> {9, 10, 11, 12, 13, 32, 0xA0, 0x1680, 0x2028, 0x2029, 0x202F, 0x205F, 0x3000, 0xFEFF}
     \<or> 0x2000 \<le> u \<and> u \<le> 0x200A)"

definition blank :: "code_units \<Rightarrow> bool" where
  "blank us = list_all js_space us"

text \<open>
  Properties that Unicode guarantees stable are written out. The general categories
  Cf (format) and M (mark) grow with the Unicode version of the engine, so they are a
  parameter.
\<close>

record unicode =
  uc_format :: "nat \<Rightarrow> bool"
  uc_mark :: "nat \<Rightarrow> bool"

definition Bidi_Control :: "nat \<Rightarrow> bool" where
  "Bidi_Control p = (p = 0x61C \<or> p = 0x200E \<or> p = 0x200F \<or> 0x202A \<le> p \<and> p \<le> 0x202E \<or> 0x2066 \<le> p \<and> p \<le> 0x2069)"

definition Join_Control :: "nat \<Rightarrow> bool" where
  "Join_Control p = (p = 0x200C \<or> p = 0x200D)"

definition CONTROL_OR_SURROGATE :: "nat \<Rightarrow> bool" where
  "CONTROL_OR_SURROGATE p = (p \<le> 0x1F \<or> 0x7F \<le> p \<and> p \<le> 0x9F \<or> 0xD800 \<le> p \<and> p \<le> 0xDFFF \<or> p = 0x2028 \<or> p = 0x2029)"

definition INVISIBLE_FORMAT :: "unicode \<Rightarrow> nat \<Rightarrow> bool" where
  "INVISIBLE_FORMAT uc p = (\<not> Join_Control p \<and> uc_format uc p)"

text \<open>\<open>COMBINING_RUN\<close>: at some position nine or more marks in a row.\<close>

fun combining_run :: "unicode \<Rightarrow> nat list \<Rightarrow> bool" where
  "combining_run uc [] = False"
| "combining_run uc (p # ps) =
     (length (takeWhile (uc_mark uc) (p # ps)) \<ge> 9 \<or> combining_run uc ps)"

datatype body_problem = BodyEmpty | BodyTooLong | BodyControl | BodyBidi | BodyInvisible | BodyMarks

definition validateBody :: "unicode \<Rightarrow> code_units \<Rightarrow> body_problem option" where
  "validateBody uc body =
     (if blank body then Some BodyEmpty
      else if byteLength body > MAX_BODY_BYTES then Some BodyTooLong
      else if list_ex CONTROL_OR_SURROGATE (code_points body) then Some BodyControl
      else if list_ex Bidi_Control (code_points body) then Some BodyBidi
      else if list_ex (INVISIBLE_FORMAT uc) (code_points body) then Some BodyInvisible
      else if combining_run uc (code_points body) then Some BodyMarks
      else None)"

lemma takeWhile_prefix:
  "n \<le> length (takeWhile P ps) \<longleftrightarrow> (\<exists>xs ys. ps = xs @ ys \<and> list_all P xs \<and> length xs = n)"
proof
  assume n: "n \<le> length (takeWhile P ps)"
  have "ps = takeWhile P ps @ dropWhile P ps" by simp
  then have "ps = take n (takeWhile P ps) @ (drop n (takeWhile P ps) @ dropWhile P ps)"
    by (metis append.assoc append_take_drop_id)
  moreover have "list_all P (take n (takeWhile P ps))"
    by (auto simp: list_all_iff dest: in_set_takeD set_takeWhileD)
  ultimately show "\<exists>xs ys. ps = xs @ ys \<and> list_all P xs \<and> length xs = n"
    using n by (intro exI [of _ "take n (takeWhile P ps)"] exI [of _ "drop n (takeWhile P ps) @ dropWhile P ps"]) simp
next
  assume "\<exists>xs ys. ps = xs @ ys \<and> list_all P xs \<and> length xs = n"
  then show "n \<le> length (takeWhile P ps)" by (auto simp: list_all_iff)
qed

lemma combining_run_iff:
  "combining_run uc ps \<longleftrightarrow> (\<exists>as xs bs. ps = as @ xs @ bs \<and> list_all (uc_mark uc) xs \<and> length xs = 9)"
proof (induction ps)
  case Nil
  then show ?case by auto
next
  case (Cons p ps)
  have "(\<exists>as xs bs. p # ps = as @ xs @ bs \<and> list_all (uc_mark uc) xs \<and> length xs = 9) \<longleftrightarrow>
      (\<exists>xs bs. p # ps = xs @ bs \<and> list_all (uc_mark uc) xs \<and> length xs = 9)
      \<or> (\<exists>as xs bs. ps = as @ xs @ bs \<and> list_all (uc_mark uc) xs \<and> length xs = 9)" (is "?L \<longleftrightarrow> ?R")
  proof
    assume ?L
    then obtain as xs bs where e: "p # ps = as @ xs @ bs" "list_all (uc_mark uc) xs" "length xs = 9" by blast
    show ?R
    proof (cases as)
      case Nil
      then show ?thesis using e by auto
    next
      case (Cons a as')
      then show ?thesis using e by auto
    qed
  next
    assume ?R
    then show ?L by (metis append_Cons append_Nil)
  qed
  then show ?case using Cons by (simp only: combining_run.simps takeWhile_prefix)
qed

section \<open>Limiters\<close>

text \<open>\<open>SlidingWindow\<close>: times of accepted calls per key; sweeping happens above 50000 keys.\<close>

type_synonym sliding_window = "(string, int list) jmap"

definition sw_allow :: "nat \<Rightarrow> int \<Rightarrow> string \<Rightarrow> int \<Rightarrow> sliding_window \<Rightarrow> sliding_window \<times> bool" where
  "sw_allow limit windowMs key now hits =
     (let recent = filter (\<lambda>at. now - at < windowMs) (jm_get_or hits key []) in
      if length recent \<ge> limit then (jm_set key recent hits, False)
      else let hits' = jm_set key (recent @ [now]) hits in
        (if jm_size hits' > 50000
         then filter (\<lambda>(entry, times). \<not> list_all (\<lambda>at. now - at \<ge> windowMs) times) hits'
         else hits', True))"

text \<open>\<open>DuplicateGuard\<close>: accepted texts per key.\<close>

type_synonym duplicate_guard = "(string, (int \<times> code_units) list) jmap"

definition dg_allow ::
  "nat \<Rightarrow> int \<Rightarrow> string \<Rightarrow> code_units \<Rightarrow> int \<Rightarrow> duplicate_guard \<Rightarrow> duplicate_guard \<times> bool" where
  "dg_allow threshold windowMs key body now texts =
     (let recent = filter (\<lambda>(at, b). now - at < windowMs) (jm_get_or texts key []);
          duplicates = length (filter (\<lambda>(at, b). b = body) recent)
      in if duplicates + 1 \<ge> threshold then (jm_set key recent texts, False)
         else (jm_set key (recent @ [(now, body)]) texts, True))"

text \<open>A run of calls from a given state: the state after it and the accepted calls, in order.\<close>

definition limiter_step ::
  "('k \<Rightarrow> int \<Rightarrow> 's \<Rightarrow> 's \<times> bool) \<Rightarrow> 's \<times> ('k \<times> int) list \<Rightarrow> 'k \<times> int \<Rightarrow> 's \<times> ('k \<times> int) list" where
  "limiter_step allow x call =
     (let (s', ok) = allow (fst call) (snd call) (fst x)
      in (s', if ok then snd x @ [call] else snd x))"

definition limiter_run ::
  "('k \<Rightarrow> int \<Rightarrow> 's \<Rightarrow> 's \<times> bool) \<Rightarrow> 's \<Rightarrow> ('k \<times> int) list \<Rightarrow> 's \<times> ('k \<times> int) list" where
  "limiter_run allow s calls = foldl (limiter_step allow) (s, []) calls"

definition times_of :: "'k \<Rightarrow> ('k \<times> int) list \<Rightarrow> int list" where
  "times_of k log = map snd (filter (\<lambda>c. fst c = k) log)"

lemma times_of_simps [simp]:
  "times_of k [] = []" "times_of k (log @ [c]) = times_of k log @ (if fst c = k then [snd c] else [])"
  by (simp_all add: times_of_def)

locale window_limiter =
  fixes allow :: "'k \<Rightarrow> int \<Rightarrow> 's \<Rightarrow> 's \<times> bool"
    and hits :: "'s \<Rightarrow> 'k \<Rightarrow> int list"
    and limit :: nat and window :: int
    and start :: 's and inv :: "'s \<Rightarrow> bool"
  assumes start_hits: "hits start k = []"
    and start_inv: "inv start"
    and allow_inv: "inv s \<Longrightarrow> inv (fst (allow k now s))"
    and decision: "snd (allow k now s) \<longleftrightarrow> length (filter (\<lambda>at. now - at < window) (hits s k)) < limit"
    and hits_allow: "inv s \<Longrightarrow> now \<le> t \<Longrightarrow>
      filter (\<lambda>at. t - at < window) (hits (fst (allow k now s)) k') =
      filter (\<lambda>at. t - at < window) (hits s k' @ (if snd (allow k now s) \<and> k' = k then [now] else []))"
begin

lemma run_snoc:
  "limiter_run allow start (calls @ [c]) =
     (let (s, log) = limiter_run allow start calls in
      (fst (allow (fst c) (snd c) s), if snd (allow (fst c) (snd c) s) then log @ [c] else log))"
  by (simp add: limiter_run_def limiter_step_def Let_def split_beta)

lemma run_inv: "inv (fst (limiter_run allow start calls))"
proof (induction calls rule: rev_induct)
  case (snoc c calls)
  then show ?case by (auto simp: run_snoc allow_inv split: prod.splits)
qed (simp add: limiter_run_def start_inv)

lemma tracks_log:
  "sorted (map snd calls) \<Longrightarrow> \<forall>c \<in> set calls. snd c \<le> t \<Longrightarrow>
   filter (\<lambda>at. t - at < window) (hits (fst (limiter_run allow start calls)) k) =
   filter (\<lambda>at. t - at < window) (times_of k (snd (limiter_run allow start calls)))"
proof (induction calls arbitrary: k rule: rev_induct)
  case Nil
  then show ?case by (simp add: limiter_run_def start_hits)
next
  case (snoc c calls)
  obtain s log where run: "limiter_run allow start calls = (s, log)" by force
  have IH: "filter (\<lambda>at. t - at < window) (hits s k) = filter (\<lambda>at. t - at < window) (times_of k log)" for k
    using snoc run by (simp add: sorted_append)
  show ?case
    using hits_allow [of s "snd c" t "fst c" k] run_inv [of calls] snoc.prems IH [of k]
    by (auto simp: run_snoc run)
qed

lemma log_times: "set (snd (limiter_run allow start calls)) \<subseteq> set calls"
proof (induction calls rule: rev_induct)
  case (snoc c calls)
  then show ?case by (auto simp: run_snoc split: prod.splits)
qed (simp add: limiter_run_def)

lemma exact:
  assumes "sorted (map snd (calls @ [(k, now)]))"
  shows "snd (allow k now (fst (limiter_run allow start calls))) \<longleftrightarrow>
    length (filter (\<lambda>at. now - at < window) (times_of k (snd (limiter_run allow start calls)))) < limit"
  unfolding decision using tracks_log [of calls now k] assms
  by (simp add: sorted_append)

lemma bounded:
  "sorted (map snd calls) \<Longrightarrow>
   length (filter (\<lambda>at. t \<le> at \<and> at < t + window) (times_of k (snd (limiter_run allow start calls)))) \<le> limit"
proof (induction calls rule: rev_induct)
  case Nil
  then show ?case by (simp add: limiter_run_def)
next
  case (snoc c calls)
  obtain s log where run: "limiter_run allow start calls = (s, log)" by force
  have IH: "length (filter (\<lambda>at. t \<le> at \<and> at < t + window) (times_of k log)) \<le> limit"
    using snoc run by (simp add: sorted_append)
  let ?new = "snd (allow (fst c) (snd c) s) \<and> fst c = k \<and> t \<le> snd c \<and> snd c < t + window"
  show ?case
  proof (cases ?new)
    case True
    have "length (filter (\<lambda>at. snd c - at < window) (times_of k log)) < limit"
      using exact [of calls k "snd c"] True snoc.prems run by (cases c) simp
    moreover have "length (filter (\<lambda>at. t \<le> at \<and> at < t + window) (times_of k log))
        \<le> length (filter (\<lambda>at. snd c - at < window) (times_of k log))"
      using True by (induction log rule: rev_induct) auto
    ultimately show ?thesis using True by (simp add: run_snoc run)
  next
    case False
    then show ?thesis using IH by (auto simp: run_snoc run)
  qed
qed

end

section \<open>The two limiters meet the contract\<close>

lemma filter_recent_mono:
  "now \<le> t \<Longrightarrow> filter (\<lambda>at. t - at < w) (filter (\<lambda>at. now - at < w) xs) = filter (\<lambda>at. t - at < (w::int)) xs"
  by (induction xs) auto

lemma sw_sweep:
  assumes "jm_ok m" and "now \<le> t"
  shows "filter (\<lambda>at. t - at < w)
      (jm_get_or (filter (\<lambda>(entry, times). \<not> list_all (\<lambda>at. now - at \<ge> w) times) m) k [])
    = filter (\<lambda>at. t - at < (w::int)) (jm_get_or m k [])"
proof (cases "jm_get m k")
  case None
  then show ?thesis using jm_get_filter [OF assms(1)] by (simp add: jm_get_or_def)
next
  case (Some times)
  have "list_all (\<lambda>at. now - at \<ge> w) times \<Longrightarrow> filter (\<lambda>at. t - at < w) times = []"
    using assms(2) by (auto simp: list_all_iff filter_empty_conv)
  then show ?thesis using Some jm_get_filter [OF assms(1)] by (auto simp: jm_get_or_def)
qed

interpretation sw: window_limiter "sw_allow limit w" "\<lambda>m k. jm_get_or m k []" limit w "[]" jm_ok
  for limit w
proof (unfold_locales, goal_cases)
  case (1 k)
  then show ?case by (simp add: jm_get_or_def)
next
  case (5 m now t k k')
  then show ?case
    by (auto simp: sw_allow_def Let_def sw_sweep filter_recent_mono jm_get_or_set simp del: filter_filter)
qed (auto simp: sw_allow_def Let_def)

lemma dg_times:
  "map fst (filter (\<lambda>(at, b). b = body) (filter (\<lambda>(at, b). now - at < w) xs))
   = filter (\<lambda>at. now - at < (w::int)) (map fst (filter (\<lambda>(at, b). b = body) xs))"
  by (induction xs) auto

lemma dg_count:
  "length (filter (\<lambda>(at, b). b = body) (filter (\<lambda>(at, b). now - at < w) xs))
   = length (filter (\<lambda>at. now - at < (w::int)) (map fst (filter (\<lambda>(at, b). b = body) xs)))"
  by (metis dg_times length_map)

interpretation dg: window_limiter "\<lambda>(key, body) now. dg_allow threshold w key body now"
  "\<lambda>m (key, body). map fst (filter (\<lambda>(at, b). b = body) (jm_get_or m key []))" "threshold - 1" w "[]" "\<lambda>_. True"
  for threshold w
proof (unfold_locales, goal_cases)
  case (1 k)
  then show ?case by (auto simp: jm_get_or_def split: prod.split)
next
  case (4 k now s)
  then show ?case by (cases k) (auto simp: dg_allow_def Let_def dg_count simp del: filter_filter)
next
  case (5 m now t k k')
  then show ?case
    by (cases k; cases k') (auto simp: dg_allow_def Let_def dg_times filter_recent_mono jm_get_or_set simp del: filter_filter)
qed auto

section \<open>Properties\<close>

text \<open>
  The rate limiter is exact. Over any sequence of calls in time order, started empty,
  at most \<open>limit\<close> calls of a key are accepted in any window of \<open>windowMs\<close>, and a
  call is refused only when that many were accepted within the last window; sweeping old
  keys never changes an answer.
\<close>

lemma sliding_window_exact:
  assumes "sorted (map snd (calls @ [(key, now)]))"
  shows "length (filter (\<lambda>at. t \<le> at \<and> at < t + windowMs)
      (times_of k (snd (limiter_run (sw_allow limit windowMs) [] calls)))) \<le> limit
    \<and> (snd (sw_allow limit windowMs key now (fst (limiter_run (sw_allow limit windowMs) [] calls))) \<longleftrightarrow>
       length (filter (\<lambda>at. now - at < windowMs)
         (times_of key (snd (limiter_run (sw_allow limit windowMs) [] calls)))) < limit)"
  using sw.bounded [of calls t windowMs k limit] sw.exact [OF assms, of limit windowMs] assms
  by (simp add: sorted_append)

lemma sliding_window_exact_witness:
  "snd (limiter_run (sw_allow 2 60) [] [(''a'', 0), (''a'', 10), (''a'', 20), (''a'', 65)])
     = [(''a'', 0), (''a'', 10), (''a'', 65)]
   \<and> \<not> snd (sw_allow 2 60 ''a'' 66 (fst (limiter_run (sw_allow 2 60) [] [(''a'', 0), (''a'', 10), (''a'', 20), (''a'', 65)])))"
proof -
  have "snd (limiter_run (sw_allow 2 60) [] [(''a'', 0), (''a'', 10), (''a'', 20), (''a'', 65)])
     = [(''a'', 0), (''a'', 10), (''a'', 65)]"
    by (simp add: limiter_run_def limiter_step_def sw_allow_def Let_def jm_get_def jm_get_or_def jm_size_def jm_set_def)
  then show ?thesis
    using sliding_window_exact [of "[(''a'', 0), (''a'', 10), (''a'', 20), (''a'', 65)]" "''a''" 66 0 60 "''a''" 2]
    by (simp add: times_of_def)
qed

text \<open>
  The duplicate guard: over any sequence of posts in time order, an author has at most
  \<open>threshold - 1\<close> copies of the same text accepted in any window (two with the
  configured threshold of three), and a text is refused only when that many copies were
  accepted within the last window. Other texts and other authors do not count.
\<close>

lemma duplicate_guard_exact:
  assumes "sorted (map snd (calls @ [((key, body), now)]))"
  shows "length (filter (\<lambda>at. t \<le> at \<and> at < t + windowMs)
      (times_of k (snd (limiter_run (\<lambda>(key, body) now. dg_allow threshold windowMs key body now) [] calls)))) \<le> threshold - 1
    \<and> (snd (dg_allow threshold windowMs key body now
          (fst (limiter_run (\<lambda>(key, body) now. dg_allow threshold windowMs key body now) [] calls))) \<longleftrightarrow>
       length (filter (\<lambda>at. now - at < windowMs)
         (times_of (key, body) (snd (limiter_run (\<lambda>(key, body) now. dg_allow threshold windowMs key body now) [] calls))))
         < threshold - 1)"
  using dg.bounded [of calls t windowMs k threshold] dg.exact [OF assms, of threshold windowMs] assms
  by (simp add: sorted_append)

lemma duplicate_guard_exact_witness:
  "\<not> snd (dg_allow 3 60 ''a'' [104] 20
     (fst (limiter_run (\<lambda>(key, body) now. dg_allow 3 60 key body now) [] [((''a'', [104]), 0), ((''a'', [104]), 10)])))"
proof -
  have "snd (limiter_run (\<lambda>(key, body) now. dg_allow 3 60 key body now) [] [((''a'', [104]), 0), ((''a'', [104]), 10)])
     = [((''a'', [104]), 0), ((''a'', [104]), 10)]"
    by (simp add: limiter_run_def limiter_step_def dg_allow_def Let_def jm_get_def jm_get_or_def jm_size_def jm_set_def)
  then show ?thesis
    using duplicate_guard_exact [of "[((''a'', [104]), 0), ((''a'', [104]), 10)]" "''a''" "[104]" 20 0 60 "(''a'', [104])" 3]
    by (simp add: times_of_def)
qed

text \<open>
  What an accepted message body looks like: not blank, at most 2000 bytes of UTF-8,
  every code point a Unicode scalar value that is no control, line or paragraph separator,
  no directional control, no invisible format character except the two joiners, and no nine
  combining marks in a row; and every body with these properties is accepted.
\<close>

lemma validateBody_accepts_iff:
  "validateBody uc body = None \<longleftrightarrow>
     (\<exists>u \<in> set body. \<not> js_space u) \<and> byteLength body \<le> 2000
     \<and> (\<forall>p \<in> set (code_points body). \<not> CONTROL_OR_SURROGATE p \<and> \<not> Bidi_Control p
          \<and> (uc_format uc p \<longrightarrow> p = 0x200C \<or> p = 0x200D))
     \<and> (\<nexists>as xs bs. code_points body = as @ xs @ bs \<and> list_all (uc_mark uc) xs \<and> length xs = 9)"
proof -
  have "(\<exists>u \<in> set body. \<not> js_space u) \<longleftrightarrow> \<not> blank body"
    by (auto simp: blank_def list_all_iff)
  moreover have "(\<forall>p \<in> set (code_points body). \<not> CONTROL_OR_SURROGATE p \<and> \<not> Bidi_Control p
      \<and> (uc_format uc p \<longrightarrow> p = 0x200C \<or> p = 0x200D)) \<longleftrightarrow>
    \<not> list_ex CONTROL_OR_SURROGATE (code_points body) \<and> \<not> list_ex Bidi_Control (code_points body)
      \<and> \<not> list_ex (INVISIBLE_FORMAT uc) (code_points body)"
    by (auto simp: list_ex_iff INVISIBLE_FORMAT_def Join_Control_def)
  ultimately show ?thesis
    unfolding validateBody_def combining_run_iff [symmetric]
    by (simp add: MAX_BODY_BYTES_def)
qed

end
