(* ===== verification/Store.thy ===== *)
theory Store
  imports Policy
begin

text \<open>
  The gateway's database, \<open>packages/gateway/src/store.ts\<close>: one field per table. The
  \<open>messages\<close> table has an AUTOINCREMENT key, so SQLite remembers the largest key ever
  used; \<open>UNIQUE\<close> and \<open>PRIMARY KEY\<close> constraints that an insert violates raise, which
  is the \<open>None\<close> of \<open>createSession\<close>. \<open>insertMessage\<close> runs in a transaction and
  is atomic.
\<close>

section \<open>Tables\<close>

record stored_message =
  sm_seq :: int
  sm_channel :: string
  sm_eventId :: string
  sm_identity :: string
  sm_device :: string
  sm_createdAt :: int
  sm_receivedAt :: int
  sm_body :: string

record stored_session =
  ss_tokenHash :: string
  ss_identity :: string
  ss_device :: string
  ss_method :: string
  ss_expiresAt :: int

record store =
  db_messages :: "(stored_message \<times> int) list"
  db_lastRowid :: int
  db_deviceSequences :: "(string, int) jmap"
  db_sessions :: "stored_session list"

definition empty_store :: store where
  "empty_store = \<lparr>db_messages = [], db_lastRowid = 0, db_deviceSequences = [], db_sessions = []\<rparr>"

datatype insert_result = Duplicate | StaleSequence | Inserted stored_message

section \<open>Operations\<close>

definition lastSequence :: "string \<Rightarrow> store \<Rightarrow> int" where
  "lastSequence sequenceKey db = jm_get_or (db_deviceSequences db) sequenceKey 0"

definition hasEvent :: "string \<Rightarrow> store \<Rightarrow> bool" where
  "hasEvent eventId db = list_ex (\<lambda>(m, _). sm_eventId m = eventId) (db_messages db)"

definition sequenceKey :: "string \<Rightarrow> string \<Rightarrow> string" where
  "sequenceKey identity device = identity @ '':'' @ device"

text \<open>The \<open>seq\<close> of the argument is ignored: the source omits it.\<close>

definition insertMessage :: "stored_message \<Rightarrow> int \<Rightarrow> store \<Rightarrow> store \<times> insert_result" where
  "insertMessage message deviceSequence db =
     (if hasEvent (sm_eventId message) db then (db, Duplicate)
      else let key = sequenceKey (sm_identity message) (sm_device message) in
        if deviceSequence \<le> lastSequence key db then (db, StaleSequence)
        else let seq = db_lastRowid db + 1; row = message\<lparr>sm_seq := seq\<rparr> in
          (db\<lparr>db_messages := db_messages db @ [(row, deviceSequence)], db_lastRowid := seq,
              db_deviceSequences := jm_set key deviceSequence (db_deviceSequences db)\<rparr>, Inserted row))"

text \<open>\<open>ORDER BY seq DESC LIMIT ?\<close>, then \<open>reverse()\<close>.\<close>

definition messages :: "string \<Rightarrow> nat \<Rightarrow> int option \<Rightarrow> store \<Rightarrow> stored_message list" where
  "messages channel limit beforeSeq db =
     (let rows = filter (\<lambda>m. sm_channel m = channel \<and> (case beforeSeq of None \<Rightarrow> True | Some b \<Rightarrow> sm_seq m < b))
                   (map fst (db_messages db))
      in rev (take limit (rev (sort_key sm_seq rows))))"

definition lastMessageAt :: "string \<Rightarrow> store \<Rightarrow> int option" where
  "lastMessageAt channel db =
     (case map (\<lambda>(m, _). sm_receivedAt m) (filter (\<lambda>(m, _). sm_channel m = channel) (db_messages db)) of
        [] \<Rightarrow> None | t # ts \<Rightarrow> Some (foldl max t ts))"

definition purgeChannel :: "string \<Rightarrow> store \<Rightarrow> store" where
  "purgeChannel channel db = db\<lparr>db_messages := filter (\<lambda>(m, _). sm_channel m \<noteq> channel) (db_messages db)\<rparr>"

definition createSession :: "stored_session \<Rightarrow> store \<Rightarrow> store option" where
  "createSession session db =
     (if list_ex (\<lambda>s. ss_tokenHash s = ss_tokenHash session) (db_sessions db) then None
      else Some (db\<lparr>db_sessions := db_sessions db @ [session]\<rparr>))"

definition getSession :: "string \<Rightarrow> store \<Rightarrow> stored_session option" where
  "getSession tokenHash db = List.find (\<lambda>s. ss_tokenHash s = tokenHash) (db_sessions db)"

definition deleteSession :: "string \<Rightarrow> store \<Rightarrow> store" where
  "deleteSession tokenHash db = db\<lparr>db_sessions := filter (\<lambda>s. ss_tokenHash s \<noteq> tokenHash) (db_sessions db)\<rparr>"

definition sessionsForIdentity :: "string \<Rightarrow> store \<Rightarrow> stored_session list" where
  "sessionsForIdentity identity db = filter (\<lambda>s. ss_identity s = identity) (db_sessions db)"

definition deleteExpiredSessions :: "int \<Rightarrow> store \<Rightarrow> store" where
  "deleteExpiredSessions now db = db\<lparr>db_sessions := filter (\<lambda>s. \<not> ss_expiresAt s \<le> now) (db_sessions db)\<rparr>"

section \<open>Steps and invariant\<close>

inductive store_step :: "store \<Rightarrow> store \<Rightarrow> bool" where
  insert: "store_step db (fst (insertMessage m n db))"
| purge: "store_step db (purgeChannel ch db)"
| create: "createSession s db = Some db' \<Longrightarrow> store_step db db'"
| delete: "store_step db (deleteSession h db)"
| expire: "store_step db (deleteExpiredSessions now db)"

definition store_ok :: "store \<Rightarrow> bool" where
  "store_ok db \<longleftrightarrow> distinct (map (\<lambda>(m, _). sm_eventId m) (db_messages db))
     \<and> sorted_wrt (\<lambda>a b. sm_seq (fst a) < sm_seq (fst b)) (db_messages db)
     \<and> (\<forall>(m, n) \<in> set (db_messages db). sm_seq m \<le> db_lastRowid db
          \<and> n \<le> lastSequence (sequenceKey (sm_identity m) (sm_device m)) db)
     \<and> distinct (map ss_tokenHash (db_sessions db))"

lemma store_ok_empty [simp]: "store_ok empty_store"
  by (simp add: store_ok_def empty_store_def)

lemma lastSequence_insert:
  "lastSequence key (fst (insertMessage m n db)) =
     (if (\<exists>r. snd (insertMessage m n db) = Inserted r) \<and> key = sequenceKey (sm_identity m) (sm_device m)
      then n else lastSequence key db)"
  by (auto simp: insertMessage_def Let_def lastSequence_def jm_get_or_set)

lemma insert_ok_iff:
  "(\<exists>r. snd (insertMessage m n db) = Inserted r) \<longleftrightarrow>
     \<not> hasEvent (sm_eventId m) db \<and> lastSequence (sequenceKey (sm_identity m) (sm_device m)) db < n"
  by (auto simp: insertMessage_def Let_def)

lemma insert_store_ok:
  assumes inv: "store_ok db"
  shows "store_ok (fst (insertMessage m n db))"
proof (cases "\<exists>r. snd (insertMessage m n db) = Inserted r")
  case True
  let ?db = "fst (insertMessage m n db)"
  have new: "\<not> hasEvent (sm_eventId m) db" "lastSequence (sequenceKey (sm_identity m) (sm_device m)) db < n"
    using True unfolding insert_ok_iff by auto
  then have eq: "?db = db\<lparr>db_messages := db_messages db @ [(m\<lparr>sm_seq := db_lastRowid db + 1\<rparr>, n)],
      db_lastRowid := db_lastRowid db + 1,
      db_deviceSequences := jm_set (sequenceKey (sm_identity m) (sm_device m)) n (db_deviceSequences db)\<rparr>"
    by (simp add: insertMessage_def Let_def)
  have mono: "lastSequence key db \<le> lastSequence key ?db" for key
    using new(2) by (auto simp: lastSequence_insert)
  have last: "lastSequence (sequenceKey (sm_identity m) (sm_device m)) ?db = n"
    using True by (simp add: lastSequence_insert)
  have seqs: "sm_seq x \<le> db_lastRowid db" if "(x, k) \<in> set (db_messages db)" for x k
    using inv that by (auto simp: store_ok_def)
  have rows: "sm_seq x \<le> db_lastRowid ?db \<and> k \<le> lastSequence (sequenceKey (sm_identity x) (sm_device x)) ?db"
    if "(x, k) \<in> set (db_messages ?db)" for x k
  proof (cases "(x, k) \<in> set (db_messages db)")
    case old: True
    then have "k \<le> lastSequence (sequenceKey (sm_identity x) (sm_device x)) db"
      using inv by (auto simp: store_ok_def)
    then show ?thesis using mono [of "sequenceKey (sm_identity x) (sm_device x)"] seqs [OF old] eq by simp
  next
    case False
    then show ?thesis using that last unfolding eq by auto
  qed
  have "sorted_wrt (\<lambda>a b. sm_seq (fst a) < sm_seq (fst b)) (db_messages ?db)"
    using inv seqs unfolding eq by (fastforce simp: store_ok_def sorted_wrt_append)
  moreover have "distinct (map (\<lambda>(m, _). sm_eventId m) (db_messages ?db))"
    using inv new(1) unfolding eq by (auto simp: store_ok_def hasEvent_def list_ex_iff)
  moreover have "distinct (map ss_tokenHash (db_sessions ?db))"
    using inv unfolding eq by (simp add: store_ok_def)
  ultimately show ?thesis
    using rows unfolding store_ok_def [of ?db] by blast
next
  case False
  then have "fst (insertMessage m n db) = db" by (auto simp: insertMessage_def Let_def)
  then show ?thesis using inv by simp
qed

lemma store_step_ok: "store_step db db' \<Longrightarrow> store_ok db \<Longrightarrow> store_ok db'"
proof (induction rule: store_step.induct)
  case (insert db m n)
  then show ?case by (simp add: insert_store_ok)
next
  case (purge db ch)
  then show ?case
    by (auto simp: store_ok_def purgeChannel_def lastSequence_def distinct_map_filter sorted_wrt_filter)
next
  case (create s db db')
  then show ?case
    by (auto simp: createSession_def store_ok_def lastSequence_def list_ex_iff image_iff split: if_splits) metis
qed (auto simp: store_ok_def deleteSession_def deleteExpiredSessions_def lastSequence_def
      distinct_map_filter)

lemma store_step_sequences: "store_step db db' \<Longrightarrow> lastSequence key db \<le> lastSequence key db'"
proof (induction rule: store_step.induct)
  case (insert db m n)
  then show ?case using insert_ok_iff [of m n db] by (auto simp: lastSequence_insert)
qed (auto simp: lastSequence_def purgeChannel_def createSession_def deleteSession_def deleteExpiredSessions_def
      split: if_splits)

lemma store_steps_sequences: "store_step\<^sup>*\<^sup>* db db' \<Longrightarrow> lastSequence key db \<le> lastSequence key db'"
proof (induction rule: rtranclp_induct)
  case (step y z)
  then show ?case using store_step_sequences order_trans by blast
qed simp

section \<open>Properties\<close>

text \<open>
  A message is accepted at most once, for ever. Once a message of a device with
  sequence n is stored, inserting any message of that device with a sequence of at most n
  is refused and changes nothing, whatever happened to the tables in between, including a
  purge of the channel that forgets the message itself.
\<close>

lemma no_replay_after_purge:
  assumes "snd (insertMessage m n db) = Inserted r" and "store_step\<^sup>*\<^sup>* (fst (insertMessage m n db)) db'"
    and "sm_identity m' = sm_identity m" "sm_device m' = sm_device m" "n' \<le> n"
  shows "fst (insertMessage m' n' db') = db' \<and> snd (insertMessage m' n' db') \<in> {Duplicate, StaleSequence}"
proof -
  have "n \<le> lastSequence (sequenceKey (sm_identity m) (sm_device m)) db'"
    using store_steps_sequences [OF assms(2)] assms(1) by (metis lastSequence_insert)
  then show ?thesis using assms(3-) by (simp add: insertMessage_def Let_def)
qed

definition demo_message :: stored_message where
  "demo_message = \<lparr>sm_seq = 0, sm_channel = ''public'', sm_eventId = ''e1'', sm_identity = ''aa'',
     sm_device = ''bb'', sm_createdAt = 5, sm_receivedAt = 6, sm_body = ''hi''\<rparr>"

lemma no_replay_after_purge_witness:
  "snd (insertMessage demo_message 1 (purgeChannel ''public'' (fst (insertMessage demo_message 1 empty_store))))
     \<in> {Duplicate, StaleSequence}"
proof (rule no_replay_after_purge [THEN conjunct2])
  show "snd (insertMessage demo_message 1 empty_store) = Inserted (demo_message\<lparr>sm_seq := 1\<rparr>)"
    by (simp add: insertMessage_def hasEvent_def lastSequence_def empty_store_def jm_get_or_def Let_def)
  show "store_step\<^sup>*\<^sup>* (fst (insertMessage demo_message 1 empty_store))
      (purgeChannel ''public'' (fst (insertMessage demo_message 1 empty_store)))"
    by (rule r_into_rtranclp) (rule store_step.purge)
qed simp_all

text \<open>The rows of a channel, in order.\<close>

definition channel_rows :: "string \<Rightarrow> int option \<Rightarrow> store \<Rightarrow> stored_message list" where
  "channel_rows channel beforeSeq db =
     filter (\<lambda>m. sm_channel m = channel \<and> (case beforeSeq of None \<Rightarrow> True | Some b \<Rightarrow> sm_seq m < b))
       (map fst (db_messages db))"

lemma rows_sorted: "store_ok db \<Longrightarrow> sorted_wrt (\<lambda>a b. sm_seq a < sm_seq b) (channel_rows ch b db)"
  unfolding channel_rows_def store_ok_def by (intro sorted_wrt_filter) (simp add: sorted_wrt_map)

lemma sort_rows: "store_ok db \<Longrightarrow> sort_key sm_seq (channel_rows ch b db) = channel_rows ch b db"
proof -
  assume "store_ok db"
  then have "sorted (map sm_seq (channel_rows ch b db))"
    using rows_sorted [of db ch b] by (simp add: sorted_wrt_map) (metis (mono_tags, lifting) less_imp_le sorted_wrt_mono_rel)
  then show ?thesis by (rule sort_key_id_if_sorted)
qed

lemma messages_suffix:
  "store_ok db \<Longrightarrow> messages ch n b db = drop (length (channel_rows ch b db) - n) (channel_rows ch b db)"
  using sort_rows by (simp add: messages_def Let_def channel_rows_def [symmetric] rev_take)

text \<open>
  Reading back page by page loses nothing and repeats nothing: in a store that satisfies
  its invariant, the page of n messages before the first message of a non-empty page of m
  messages, followed by that page, is the page of n + m messages; a page is in strictly
  increasing order of sequence number and holds only the channel asked for.
\<close>

lemma pages_compose:
  assumes ok: "store_ok db" and page: "messages ch m b db = p # ps"
  shows "messages ch n (Some (sm_seq p)) db @ messages ch m b db = messages ch (n + m) b db
    \<and> sorted_wrt (\<lambda>x y. sm_seq x < sm_seq y) (messages ch (n + m) b db)
    \<and> (\<forall>x \<in> set (messages ch (n + m) b db). sm_channel x = ch)"
proof -
  let ?R = "channel_rows ch b db"
  define i where "i = length ?R - m"
  have sorted: "sorted_wrt (\<lambda>x y. sm_seq x < sm_seq y) ?R" using rows_sorted [OF ok] .
  have drop: "drop i ?R = p # ps" using page messages_suffix [OF ok] by (simp add: i_def)
  then have split: "?R = take i ?R @ p # ps" by (metis append_take_drop_id)
  have lt: "\<forall>x \<in> set (take i ?R). sm_seq x < sm_seq p" "\<forall>x \<in> set (p # ps). \<not> sm_seq x < sm_seq p"
    using sorted by (subst (asm) split, auto simp: sorted_wrt_append)+
  have "channel_rows ch (Some (sm_seq p)) db = filter (\<lambda>x. sm_seq x < sm_seq p) ?R"
  proof -
    have "p \<in> set ?R" by (subst split) simp
    then have "sm_seq x < sm_seq p \<Longrightarrow> (case b of None \<Rightarrow> True | Some c \<Rightarrow> sm_seq x < c)" for x
      by (cases b) (auto simp: channel_rows_def)
    then show ?thesis by (auto simp: channel_rows_def intro!: filter_cong)
  qed
  also have "\<dots> = take i ?R"
    using lt by (subst split) (simp add: filter_id_conv filter_empty_conv)
  finally have pre: "channel_rows ch (Some (sm_seq p)) db = take i ?R" .
  have i: "i \<le> length ?R" by (simp add: i_def)
  have "messages ch n (Some (sm_seq p)) db @ messages ch m b db = drop (i - n) (take i ?R) @ drop i ?R"
    using i by (simp add: messages_suffix [OF ok] pre i_def [symmetric])
  also have "\<dots> = drop (i - n) ?R"
  proof -
    have "drop (i - n) (take i ?R @ drop i ?R) = drop (i - n) (take i ?R) @ drop i ?R"
      using i by (simp only: drop_append) (simp add: min_def)
    then show ?thesis by simp
  qed
  also have "\<dots> = messages ch (n + m) b db"
    by (simp add: messages_suffix [OF ok] i_def add.commute)
  finally have cat: "messages ch n (Some (sm_seq p)) db @ messages ch m b db = messages ch (n + m) b db" .
  have "sorted_wrt (\<lambda>x y. sm_seq x < sm_seq y) (messages ch (n + m) b db)"
    using sorted by (simp add: messages_suffix [OF ok] sorted_wrt_drop)
  moreover have "\<forall>x \<in> set (messages ch (n + m) b db). sm_channel x = ch"
    by (auto simp: messages_suffix [OF ok] channel_rows_def dest!: in_set_dropD)
  ultimately show ?thesis using cat by blast
qed

definition demo_store :: store where
  "demo_store = fst (insertMessage (demo_message\<lparr>sm_eventId := ''e2''\<rparr>) 2 (fst (insertMessage demo_message 1 empty_store)))"

lemma pages_compose_witness:
  "messages ''public'' 1 (Some 2) demo_store @ messages ''public'' 1 None demo_store = messages ''public'' 2 None demo_store"
proof -
  have ok: "store_ok demo_store" unfolding demo_store_def by (intro insert_store_ok store_ok_empty)
  have "messages ''public'' 1 None demo_store = [demo_message\<lparr>sm_eventId := ''e2'', sm_seq := 2\<rparr>]"
    by (simp add: demo_store_def insertMessage_def hasEvent_def lastSequence_def empty_store_def jm_get_or_def
        Let_def messages_def demo_message_def jm_get_set)
  then show ?thesis
    using pages_compose [OF ok, of "''public''" 1 None _ "[]" 1] by (simp add: numeral_2_eq_2)
qed

end
