(* ===== verification/Sample_Crypto.thy ===== *)
theory Sample_Crypto
  imports Nexnet_Types
begin

text \<open>
  An executable instance of the third-party primitives, on which the witnesses run. It has
  nothing to do with security: it only shows that the documented laws the theorems assume
  (signatures verify, decoding inverts encoding, decryption inverts encryption, key
  agreement commutes) hold together. Values are encoded with a tag byte, lengths and
  numbers as base-128 digits; a signature is a 64-byte prefix of key and message; the cipher
  prepends a 16-byte tag.
\<close>

section \<open>Numbers and byte strings\<close>

fun put_nat :: "nat \<Rightarrow> bytes" where
  "put_nat n = (if n < 128 then [word_of_nat n] else word_of_nat (n mod 128 + 128) # put_nat (n div 128))"

declare put_nat.simps [simp del]

fun get_nat :: "bytes \<Rightarrow> (nat \<times> bytes) option" where
  "get_nat [] = None"
| "get_nat (b # bs) =
     (if unat b < 128 then Some (unat b, bs)
      else case get_nat bs of None \<Rightarrow> None | Some (n, r) \<Rightarrow> Some (unat b - 128 + 128 * n, r))"

lemma get_put_nat [simp]: "get_nat (put_nat n @ r) = Some (n, r)"
proof (induction n rule: put_nat.induct)
  case (1 n)
  show ?case
  proof (cases "n < 128")
    case True
    then show ?thesis by (simp add: put_nat.simps [of n] unat_byte_of)
  next
    case False
    have "unat (word_of_nat (n mod 128 + 128) :: byte) = n mod 128 + 128" by (simp add: unat_byte_of del: of_nat_add)
    moreover have "n mod 128 + 128 * (n div 128) = n" by simp
    ultimately show ?thesis using False 1 by (simp add: put_nat.simps [of n] del: of_nat_add)
  qed
qed

lemma put_nat_nonempty: "0 < length (put_nat n)"
  by (subst put_nat.simps) simp

definition put_bytes :: "bytes \<Rightarrow> bytes" where
  "put_bytes b = put_nat (length b) @ b"

definition get_bytes :: "bytes \<Rightarrow> (bytes \<times> bytes) option" where
  "get_bytes b = (case get_nat b of None \<Rightarrow> None
     | Some (n, r) \<Rightarrow> if n \<le> length r then Some (take n r, drop n r) else None)"

lemma get_put_bytes [simp]: "get_bytes (put_bytes b @ r) = Some (b, r)"
  by (simp add: get_bytes_def put_bytes_def)

definition char_byte :: "char \<Rightarrow> byte" where "char_byte ch = word_of_nat (of_char ch)"
definition byte_char :: "byte \<Rightarrow> char" where "byte_char b = char_of (unat b)"

lemma byte_char_byte [simp]: "byte_char (char_byte ch) = ch"
proof -
  have "(of_char ch :: nat) < 256" by (metis of_char_eqI of_nat_of_char of_char_mod_256 mod_less_divisor zero_less_numeral)
  then show ?thesis by (simp add: byte_char_def char_byte_def unat_byte_of)
qed

lemma map_byte_char [simp]: "map byte_char (map char_byte s) = s"
  by (simp add: map_idI)

section \<open>Values\<close>

fun put_value :: "jval \<Rightarrow> bytes" where
  "put_value JNull = [0]"
| "put_value (JBool b) = [if b then 1 else 2]"
| "put_value (JNum n) = (if 0 \<le> n then 3 # put_nat (nat n) else 4 # put_nat (nat (- n)))"
| "put_value (JFrac s) = 5 # put_bytes (map char_byte s)"
| "put_value (JStr s) = 6 # put_bytes (map char_byte s)"
| "put_value (JBytes b) = 7 # put_bytes b"
| "put_value (JArr vs) = 8 # put_nat (length vs) @ concat (map put_value vs)"
| "put_value (JObj fs) = 9 # put_nat (length fs)
     @ concat (map (\<lambda>p. put_bytes (map char_byte (fst p)) @ put_value (snd p)) fs)"

text \<open>The first argument bounds the nesting; the length of the input is always enough.\<close>

fun get_value :: "nat \<Rightarrow> bytes \<Rightarrow> (jval \<times> bytes) option"
  and get_values :: "nat \<Rightarrow> nat \<Rightarrow> bytes \<Rightarrow> (jval list \<times> bytes) option"
  and get_fields :: "nat \<Rightarrow> nat \<Rightarrow> bytes \<Rightarrow> ((string \<times> jval) list \<times> bytes) option" where
  "get_value (Suc f) (t # b) =
     (if t = 0 then Some (JNull, b)
      else if t = 1 then Some (JBool True, b)
      else if t = 2 then Some (JBool False, b)
      else if t = 3 then map_option (\<lambda>(n, r). (JNum (int n), r)) (get_nat b)
      else if t = 4 then map_option (\<lambda>(n, r). (JNum (- int n), r)) (get_nat b)
      else if t = 5 then map_option (\<lambda>(s, r). (JFrac (map byte_char s), r)) (get_bytes b)
      else if t = 6 then map_option (\<lambda>(s, r). (JStr (map byte_char s), r)) (get_bytes b)
      else if t = 7 then map_option (\<lambda>(s, r). (JBytes s, r)) (get_bytes b)
      else if t = 8 then (case get_nat b of None \<Rightarrow> None
        | Some (n, r) \<Rightarrow> map_option (\<lambda>(vs, r). (JArr vs, r)) (get_values f n r))
      else if t = 9 then (case get_nat b of None \<Rightarrow> None
        | Some (n, r) \<Rightarrow> map_option (\<lambda>(fs, r). (JObj fs, r)) (get_fields f n r))
      else None)"
| "get_value _ _ = None"
| "get_values f 0 b = Some ([], b)"
| "get_values f (Suc n) b = (case get_value f b of None \<Rightarrow> None
     | Some (v, r) \<Rightarrow> map_option (\<lambda>(vs, r). (v # vs, r)) (get_values f n r))"
| "get_fields f 0 b = Some ([], b)"
| "get_fields f (Suc n) b = (case get_bytes b of None \<Rightarrow> None
     | Some (k, r) \<Rightarrow> (case get_value f r of None \<Rightarrow> None
        | Some (v, r) \<Rightarrow> map_option (\<lambda>(fs, r). ((map byte_char k, v) # fs, r)) (get_fields f n r)))"

fun nesting :: "jval \<Rightarrow> nat" where
  "nesting (JArr vs) = Suc (sum_list (map nesting vs))"
| "nesting (JObj fs) = Suc (sum_list (map (\<lambda>p. nesting (snd p)) fs))"
| "nesting _ = Suc 0"

lemma nesting_le: "nesting v \<le> length (put_value v)"
proof (induction v)
  case (JArr vs)
  then have "sum_list (map nesting vs) \<le> sum_list (map (\<lambda>v. length (put_value v)) vs)"
    by (intro sum_list_mono)
  then show ?case by (simp add: length_concat comp_def)
next
  case (JObj fs)
  have "sum_list (map (\<lambda>p. nesting (snd p)) fs)
      \<le> sum_list (map (\<lambda>p. length (put_bytes (map char_byte (fst p))) + length (put_value (snd p))) fs)"
    by (intro sum_list_mono) (metis JObj.IH le_add2 order_trans prod_set_simps(2) singletonI snds.intros)
  then show ?case by (simp add: length_concat comp_def)
qed simp_all

lemma get_put_value: "nesting v \<le> f \<Longrightarrow> get_value f (put_value v @ r) = Some (v, r)"
proof (induction v arbitrary: f r)
  case (JArr vs)
  obtain f' where f: "f = Suc f'" "sum_list (map nesting vs) \<le> f'" using JArr.prems by (cases f) auto
  have "get_values f' (length ws) (concat (map put_value ws) @ r) = Some (ws, r)"
    if "set ws \<subseteq> set vs" "sum_list (map nesting ws) \<le> f'" for ws
    using that JArr.IH by (induction ws) auto
  then show ?case using f by simp
next
  case (JObj fs)
  obtain f' where f: "f = Suc f'" "sum_list (map (\<lambda>p. nesting (snd p)) fs) \<le> f'" using JObj.prems by (cases f) auto
  have "get_fields f' (length gs) (concat (map (\<lambda>p. put_bytes (map char_byte (fst p)) @ put_value (snd p)) gs) @ r) = Some (gs, r)"
    if "set gs \<subseteq> set fs" "sum_list (map (\<lambda>p. nesting (snd p)) gs) \<le> f'" for gs
    using that
  proof (induction gs)
    case (Cons p gs)
    have "snd p \<in> Basic_BNFs.snds p" by (simp add: snds.intros)
    then have "get_value f' (put_value (snd p) @ r') = Some (snd p, r')" for r'
      using Cons.prems JObj.IH [of p "snd p" f' r'] by simp
    moreover have "map byte_char (map char_byte (fst p)) = fst p" by (rule map_byte_char)
    ultimately show ?case using Cons by (simp del: map_map)
  qed simp
  then show ?case using f by simp
qed (auto simp: Suc_le_eq gr0_conv_Suc simp del: map_map)

section \<open>The instance\<close>

definition sample_sign :: "bytes \<Rightarrow> bytes \<Rightarrow> bytes" where
  "sample_sign sk m = take 64 (sk @ m @ replicate 64 0)"

definition sample_decode :: "bytes \<Rightarrow> jval option" where
  "sample_decode b = (case get_value (length b) b of Some (v, []) \<Rightarrow> Some v | _ \<Rightarrow> None)"

lemma sample_decode_put [simp]: "sample_decode (put_value v) = Some v"
  using get_put_value [OF nesting_le, of v "[]"] by (simp add: sample_decode_def)

definition sample_crypto :: crypto where
  "sample_crypto = \<lparr>ed_sign = sample_sign, ed_verify = (\<lambda>pk m s. Some (s = sample_sign pk m)),
     ed_public = (\<lambda>sk. sk), deriveId = (\<lambda>ctx d. take 32 (rev d @ replicate 32 0)),
     sha256 = (\<lambda>m. take 32 (m @ replicate 32 0)), sha512 = (\<lambda>m. take 64 (m @ replicate 64 0)),
     cdeEncode = put_value, cdeDecode = sample_decode,
     hkdf = (\<lambda>k s i n. take n (k @ s @ i @ replicate n 0)),
     aead_enc = (\<lambda>k n a p. replicate 16 0 @ p), aead_dec = (\<lambda>k n a ct. Some (drop 16 ct)),
     x_dh = (\<lambda>a b. if length a = 32 \<and> length b = 32 then Some (map2 (+) a b) else None), x_public = (\<lambda>a. a)\<rparr>"

lemma length_sample_sign [simp]: "length (sample_sign sk m) = 64"
  by (simp add: sample_sign_def min_def)

lemma sample_signatures: "signatures_correct sample_crypto"
  by (simp add: signatures_correct_def sample_crypto_def)

lemma sample_signature_length: "signature_length sample_crypto"
  by (simp add: signature_length_def sample_crypto_def)

lemma sample_cbor: "cbor_roundtrip sample_crypto"
  by (simp add: cbor_roundtrip_def sample_crypto_def)

lemma sample_aead: "aead_correct sample_crypto"
  by (simp add: aead_correct_def sample_crypto_def)

lemma sample_hkdf: "hkdf_length sample_crypto"
  by (simp add: hkdf_length_def sample_crypto_def del: take_append)

lemma sample_public: "public_length sample_crypto"
  by (simp add: public_length_def sample_crypto_def)

lemma sample_dh: "dh_agrees sample_crypto"
proof -
  have "map2 (+) a b = map2 (+) b a" for a b :: bytes
    by (rule nth_equalityI) (auto simp: add.commute)
  then show ?thesis by (simp add: dh_agrees_def sample_crypto_def)
qed

end
