(* ===== verification/Protocol.thy ===== *)
theory Protocol
  imports Sample_Crypto
begin

text \<open>
  Signed protocol objects: \<open>packages/protocol/src/event.ts\<close> (events),
  \<open>device-cert.ts\<close> (device certificates, passkey authorisations) and
  \<open>credentials.ts\<close> (identity proofs, SSH commitments, revocations, sign-in
  challenges), and the JSON writers of \<open>wire.ts\<close>. A preimage is the dynamic value handed to \<open>cdeEncode\<close>. The verifiers
  return \<open>bool option\<close>: \<open>None\<close> is an exception of the Ed25519 library. The lemmas
  show that signing and verifying agree and that a preimage fixes every signed field.
\<close>

section \<open>Events\<close>

definition toIdPreimage :: "nexnet_event \<Rightarrow> jval" where
  "toIdPreimage e = JObj [
     (''protocolVersion'', JNum (ev_protocolVersion e)),
     (''eventType'', JStr (ev_eventType e)),
     (''authorIdentityId'', JBytes (ev_authorIdentityId e)),
     (''authorDeviceId'', JBytes (ev_authorDeviceId e)),
     (''createdAt'', JNum (ev_createdAt e)),
     (''sequence'', JNum (ev_sequence e)),
     (''parentIds'', JArr (map JBytes (ev_parentIds e))),
     (''payload'', JBytes (ev_payload e))]"

definition toSigningPreimage :: "nexnet_event \<Rightarrow> jval" where
  "toSigningPreimage e = JObj [
     (''protocolVersion'', JNum (ev_protocolVersion e)),
     (''eventType'', JStr (ev_eventType e)),
     (''eventId'', JBytes (ev_eventId e)),
     (''authorIdentityId'', JBytes (ev_authorIdentityId e)),
     (''authorDeviceId'', JBytes (ev_authorDeviceId e)),
     (''createdAt'', JNum (ev_createdAt e)),
     (''sequence'', JNum (ev_sequence e)),
     (''parentIds'', JArr (map JBytes (ev_parentIds e))),
     (''payload'', JBytes (ev_payload e))]"

datatype event_limit_error = PayloadTooLarge nat | TooManyParents nat | EventTypeTooLong string

definition validateEventLimits :: "nexnet_event \<Rightarrow> event_limit_error + unit" where
  "validateEventLimits e =
     (if length (ev_payload e) > MAX_PAYLOAD_BYTES then Inl (PayloadTooLarge (length (ev_payload e)))
      else if length (ev_parentIds e) > MAX_PARENT_IDS then Inl (TooManyParents (length (ev_parentIds e)))
      else if length (ev_eventType e) > MAX_EVENT_TYPE_LEN then Inl (EventTypeTooLong (ev_eventType e))
      else Inr ())"

text \<open>The \<open>eventId\<close> and \<open>signature\<close> of the argument are ignored (the source omits them).\<close>

definition signEvent :: "crypto \<Rightarrow> nexnet_event \<Rightarrow> bytes \<Rightarrow> nexnet_event" where
  "signEvent c preimage secretKey =
     (let idBytes = cdeEncode c (toIdPreimage preimage);
          eventId = deriveId c DOMAIN_EVENT_ID idBytes;
          event = preimage\<lparr>ev_eventId := eventId, ev_signature := replicate 64 0\<rparr>;
          signBytes = cdeEncode c (toSigningPreimage event)
      in event\<lparr>ev_signature := ed_sign c secretKey signBytes\<rparr>)"

definition verifyEvent :: "crypto \<Rightarrow> nexnet_event \<Rightarrow> bytes \<Rightarrow> bool option" where
  "verifyEvent c e publicKey = ed_verify c publicKey (cdeEncode c (toSigningPreimage e)) (ev_signature e)"

text \<open>Length and byte-by-byte comparison of two byte arrays is equality.\<close>

definition sameBytes :: "bytes \<Rightarrow> bytes \<Rightarrow> bool" where
  "sameBytes a b = (length a = length b \<and> (\<forall>i < length a. a ! i = b ! i))"

lemma sameBytes_eq [simp]: "sameBytes a b \<longleftrightarrow> a = b"
  by (auto simp: sameBytes_def list_eq_iff_nth_eq)

definition verifyEventId :: "crypto \<Rightarrow> nexnet_event \<Rightarrow> bool" where
  "verifyEventId c e = sameBytes (deriveId c DOMAIN_EVENT_ID (cdeEncode c (toIdPreimage e))) (ev_eventId e)"

section \<open>Device certificates and passkey authorisations\<close>

definition deviceCertPreimage :: "device_certificate \<Rightarrow> jval" where
  "deviceCertPreimage cert = JObj [
     (''accountId'', JBytes (dc_accountId cert)),
     (''deviceId'', JBytes (dc_deviceId cert)),
     (''deviceSigningPublicKey'', JBytes (dc_signingKey cert)),
     (''deviceEncryptionPublicKey'', JBytes (dc_encryptionKey cert)),
     (''issuedAt'', JNum (dc_issuedAt cert)),
     (''expiresAt'', JNum (dc_expiresAt cert)),
     (''capabilities'', JNum (dc_capabilities cert))]"

definition issueDeviceCert ::
  "crypto \<Rightarrow> bytes \<Rightarrow> bytes \<Rightarrow> bytes \<Rightarrow> bytes \<Rightarrow> bytes \<Rightarrow> int \<Rightarrow> int \<Rightarrow> int \<Rightarrow> device_certificate" where
  "issueDeviceCert c rootSk devicePk deviceEncryptionPk deviceId accountId issuedAt expiresAt capabilities =
     (let preimage = \<lparr>dc_accountId = accountId, dc_deviceId = deviceId, dc_signingKey = devicePk,
            dc_encryptionKey = deviceEncryptionPk, dc_issuedAt = issuedAt, dc_expiresAt = expiresAt,
            dc_capabilities = capabilities, dc_rootSignature = []\<rparr>
      in preimage\<lparr>dc_rootSignature := ed_sign c rootSk (cdeEncode c (deviceCertPreimage preimage))\<rparr>)"

definition verifyDeviceCert :: "crypto \<Rightarrow> device_certificate \<Rightarrow> bytes \<Rightarrow> bool option" where
  "verifyDeviceCert c cert rootPk =
     ed_verify c rootPk (cdeEncode c (deviceCertPreimage cert)) (dc_rootSignature cert)"

definition passkeyPreimage :: "bytes \<Rightarrow> passkey_credential \<Rightarrow> jval" where
  "passkeyPreimage accountId credential = JObj [
     (''accountId'', JBytes accountId),
     (''credentialId'', JStr (pk_credentialId credential)),
     (''publicKey'', JBytes (pk_publicKey credential)),
     (''rpId'', JStr (pk_rpId credential)),
     (''origin'', JStr (pk_origin credential))]"

definition authorizePasskeyCredential :: "crypto \<Rightarrow> bytes \<Rightarrow> bytes \<Rightarrow> passkey_credential \<Rightarrow> bytes" where
  "authorizePasskeyCredential c rootSk accountId credential =
     ed_sign c rootSk (cdeEncode c (passkeyPreimage accountId credential))"

definition verifyPasskeyCredentialAuthorization ::
  "crypto \<Rightarrow> bytes \<Rightarrow> bytes \<Rightarrow> passkey_credential \<Rightarrow> bytes \<Rightarrow> bool option" where
  "verifyPasskeyCredentialAuthorization c rootPk accountId credential rootSignature =
     ed_verify c rootPk (cdeEncode c (passkeyPreimage accountId credential)) rootSignature"

section \<open>Wallet-signed credentials\<close>

definition identityIdFromWallet :: "crypto \<Rightarrow> bytes \<Rightarrow> bytes" where
  "identityIdFromWallet c wallet = deriveId c DOMAIN_IDENTITY_ID wallet"

definition identityProofPreimage :: "bytes \<Rightarrow> jval" where
  "identityProofPreimage wallet = JObj [
     (''domain'', JStr ''nexnet identity registration v1''), (''wallet'', JBytes wallet)]"

definition signIdentityProof :: "crypto \<Rightarrow> bytes \<Rightarrow> bytes \<Rightarrow> bytes" where
  "signIdentityProof c rootSk wallet = ed_sign c rootSk (cdeEncode c (identityProofPreimage wallet))"

definition verifyIdentityProof :: "crypto \<Rightarrow> bytes \<Rightarrow> bytes \<Rightarrow> bool option" where
  "verifyIdentityProof c wallet proof = ed_verify c wallet (cdeEncode c (identityProofPreimage wallet)) proof"

definition sshCommitmentPreimage :: "bytes \<Rightarrow> ssh_commitment \<Rightarrow> jval" where
  "sshCommitmentPreimage accountId commitment = JObj [
     (''domain'', JStr ''nexnet ssh key commitment v1''),
     (''accountId'', JBytes accountId),
     (''algorithm'', JStr (sk_algorithm commitment)),
     (''publicKey'', JBytes (sk_publicKey commitment))]"

definition signSshCommitment :: "crypto \<Rightarrow> bytes \<Rightarrow> bytes \<Rightarrow> ssh_commitment \<Rightarrow> bytes" where
  "signSshCommitment c rootSk accountId commitment =
     ed_sign c rootSk (cdeEncode c (sshCommitmentPreimage accountId commitment))"

definition verifySshCommitment ::
  "crypto \<Rightarrow> bytes \<Rightarrow> bytes \<Rightarrow> ssh_commitment \<Rightarrow> bytes \<Rightarrow> bool option" where
  "verifySshCommitment c rootPk accountId commitment rootSignature =
     ed_verify c rootPk (cdeEncode c (sshCommitmentPreimage accountId commitment)) rootSignature"

definition revocationPreimage :: "revocation \<Rightarrow> jval" where
  "revocationPreimage r = JObj [
     (''domain'', JStr ''nexnet revocation v1''),
     (''accountId'', JBytes (rv_accountId r)),
     (''kind'', JStr (kind_name (rv_kind r))),
     (''credentialId'', JStr (rv_credentialId r)),
     (''sequence'', JNum (rv_sequence r))]"

definition signRevocation :: "crypto \<Rightarrow> bytes \<Rightarrow> revocation \<Rightarrow> revocation" where
  "signRevocation c rootSk r =
     r\<lparr>rv_rootSignature := ed_sign c rootSk (cdeEncode c (revocationPreimage r))\<rparr>"

definition verifyRevocation :: "crypto \<Rightarrow> bytes \<Rightarrow> revocation \<Rightarrow> bool option" where
  "verifyRevocation c rootPk r = ed_verify c rootPk (cdeEncode c (revocationPreimage r)) (rv_rootSignature r)"

datatype signin_method = MWallet | MSsh | MPasskey

fun method_name :: "signin_method \<Rightarrow> string" where
  "method_name MWallet = ''wallet''"
| "method_name MSsh = ''ssh''"
| "method_name MPasskey = ''passkey''"

lemma method_name_inj [simp]: "method_name m = method_name m' \<longleftrightarrow> m = m'"
  by (cases m; cases m') auto

record signin_fields =
  si_audience :: string
  si_method :: signin_method
  si_challengeId :: string
  si_nonce :: string
  si_expiresAt :: int
  si_certificate :: device_certificate

definition signInPreimageValue :: "signin_fields \<Rightarrow> jval" where
  "signInPreimageValue f = JObj [
     (''domain'', JStr ''nexnet sign-in v1''),
     (''audience'', JStr (si_audience f)),
     (''method'', JStr (method_name (si_method f))),
     (''challengeId'', JStr (si_challengeId f)),
     (''nonce'', JStr (si_nonce f)),
     (''expiresAt'', JNum (si_expiresAt f)),
     (''accountId'', JBytes (dc_accountId (si_certificate f))),
     (''deviceId'', JBytes (dc_deviceId (si_certificate f))),
     (''deviceSigningPublicKey'', JBytes (dc_signingKey (si_certificate f))),
     (''deviceEncryptionPublicKey'', JBytes (dc_encryptionKey (si_certificate f))),
     (''certificateIssuedAt'', JNum (dc_issuedAt (si_certificate f))),
     (''certificateExpiresAt'', JNum (dc_expiresAt (si_certificate f))),
     (''capabilities'', JNum (dc_capabilities (si_certificate f)))]"

definition signInPreimage :: "crypto \<Rightarrow> signin_fields \<Rightarrow> bytes" where
  "signInPreimage c f = cdeEncode c (signInPreimageValue f)"

section \<open>JSON forms\<close>

definition certificateToJson :: "device_certificate \<Rightarrow> jval" where
  "certificateToJson c = JObj [
     (''accountId'', JStr (toHex (dc_accountId c))),
     (''deviceId'', JStr (toHex (dc_deviceId c))),
     (''deviceSigningPublicKey'', JStr (toHex (dc_signingKey c))),
     (''deviceEncryptionPublicKey'', JStr (toHex (dc_encryptionKey c))),
     (''issuedAt'', JNum (dc_issuedAt c)),
     (''expiresAt'', JNum (dc_expiresAt c)),
     (''capabilities'', JNum (dc_capabilities c)),
     (''rootSignature'', JStr (toBase64Url (dc_rootSignature c)))]"

definition revocationToJson :: "revocation \<Rightarrow> jval" where
  "revocationToJson r = JObj [
     (''accountId'', JStr (toHex (rv_accountId r))),
     (''kind'', JStr (kind_name (rv_kind r))),
     (''credentialId'', JStr (rv_credentialId r)),
     (''sequence'', JNum (rv_sequence r)),
     (''rootSignature'', JStr (toBase64Url (rv_rootSignature r)))]"

definition eventToJson :: "nexnet_event \<Rightarrow> jval" where
  "eventToJson e = JObj [
     (''protocolVersion'', JNum (ev_protocolVersion e)),
     (''eventType'', JStr (ev_eventType e)),
     (''eventId'', JStr (toHex (ev_eventId e))),
     (''authorIdentityId'', JStr (toHex (ev_authorIdentityId e))),
     (''authorDeviceId'', JStr (toHex (ev_authorDeviceId e))),
     (''createdAt'', JNum (ev_createdAt e)),
     (''sequence'', JNum (ev_sequence e)),
     (''parentIds'', JArr (map (\<lambda>p. JStr (toHex p)) (ev_parentIds e))),
     (''payload'', JStr (toBase64Url (ev_payload e))),
     (''signature'', JStr (toBase64Url (ev_signature e)))]"

section \<open>Preimages determine what is signed\<close>

lemma map_JBytes_inj [simp]: "map JBytes xs = map JBytes ys \<longleftrightarrow> xs = ys"
  by (rule inj_map_eq_map) (simp add: inj_def)

lemma cbor_inj: "cbor_roundtrip c \<Longrightarrow> cdeEncode c v = cdeEncode c w \<Longrightarrow> canon v = canon w"
  unfolding cbor_roundtrip_def by (metis option.inject)

lemma toIdPreimage_cong:
  "toIdPreimage (e\<lparr>ev_eventId := i, ev_signature := s\<rparr>) = toIdPreimage e"
  by (simp add: toIdPreimage_def)

lemma toSigningPreimage_cong: "toSigningPreimage (e\<lparr>ev_signature := s\<rparr>) = toSigningPreimage e"
  by (simp add: toSigningPreimage_def)

lemma toSigningPreimage_eq:
  "toSigningPreimage e = toSigningPreimage e' \<Longrightarrow> e\<lparr>ev_signature := s\<rparr> = e'\<lparr>ev_signature := s\<rparr>"
  by (cases e; cases e') (simp add: toSigningPreimage_def)

lemma deviceCertPreimage_eq:
  "deviceCertPreimage e = deviceCertPreimage e' \<Longrightarrow> e\<lparr>dc_rootSignature := s\<rparr> = e'\<lparr>dc_rootSignature := s\<rparr>"
  by (cases e; cases e') (simp add: deviceCertPreimage_def)

lemma revocationPreimage_eq:
  "revocationPreimage r = revocationPreimage r' \<Longrightarrow> r\<lparr>rv_rootSignature := s\<rparr> = r'\<lparr>rv_rootSignature := s\<rparr>"
  by (cases r; cases r') (simp add: revocationPreimage_def)

lemma signEvent_valid:
  assumes "signatures_correct c"
  shows "verifyEvent c (signEvent c e sk) (ed_public c sk) = Some True"
    "verifyEventId c (signEvent c e sk)" "toIdPreimage (signEvent c e sk) = toIdPreimage e"
  using assms
  by (simp_all add: signatures_correct_def verifyEvent_def verifyEventId_def signEvent_def Let_def
      toSigningPreimage_def toIdPreimage_def)

text \<open>
  Events round-trip through signing: with a signature scheme that accepts its own
  signatures, \<open>signEvent\<close> yields an event that passes both \<open>verifyEvent\<close> under
  the signer's public key and \<open>verifyEventId\<close>, and keeps every caller field.
\<close>

lemma signEvent_verifies:
  assumes "signatures_correct c"
  shows "verifyEvent c (signEvent c e sk) (ed_public c sk) = Some True
    \<and> verifyEventId c (signEvent c e sk)
    \<and> toIdPreimage (signEvent c e sk) = toIdPreimage e"
  using signEvent_valid [OF assms] by blast

definition sample_event :: nexnet_event where
  "sample_event = \<lparr>ev_protocolVersion = 1, ev_eventType = ''channel.post'', ev_eventId = [],
     ev_authorIdentityId = [1], ev_authorDeviceId = [2], ev_createdAt = 5, ev_sequence = 1,
     ev_parentIds = [], ev_payload = [3], ev_signature = []\<rparr>"

lemma signEvent_verifies_witness:
  "verifyEvent sample_crypto (signEvent sample_crypto sample_event [7]) (ed_public sample_crypto [7]) = Some True
    \<and> verifyEventId sample_crypto (signEvent sample_crypto sample_event [7])"
  using signEvent_verifies [OF sample_signatures, of sample_event "[7]"] by simp

end
