(* ===== verification/Gateway_Wire.thy ===== *)
theory Gateway_Wire
  imports Store Protocol
begin

text \<open>
  The parsers of \<open>packages/gateway/src/wire.ts\<close> for the JSON forms of protocol objects. A parser reads a dynamic value and
  returns the object or the failure it throws; the names of fields in messages are
  dropped. Parsers and writers are inverse on well-formed objects, and what a parser
  accepts is well formed.
\<close>

section \<open>Failures\<close>

text \<open>\<open>HttpError(status, code)\<close>, \<open>WireError\<close>, and any other exception.\<close>

datatype failure = HttpError nat string | WireError | Internal

definition rbind :: "failure + 'a \<Rightarrow> ('a \<Rightarrow> failure + 'b) \<Rightarrow> failure + 'b" where
  "rbind m f = (case m of Inl e \<Rightarrow> Inl e | Inr x \<Rightarrow> f x)"

definition ensure :: "bool \<Rightarrow> failure \<Rightarrow> failure + unit" where
  "ensure b e = (if b then Inr () else Inl e)"

lemma ensure_Inr [simp]: "ensure b e = Inr u \<longleftrightarrow> b"
  by (simp add: ensure_def)

lemma rbind_simps [simp]: "rbind (Inl e) f = Inl e" "rbind (Inr x) f = f x"
  by (simp_all add: rbind_def)

lemma rbind_Inr_iff: "rbind m f = Inr y \<longleftrightarrow> (\<exists>x. m = Inr x \<and> f x = Inr y)"
  by (cases m) auto

section \<open>Parsers\<close>

fun hexBytes :: "jval option \<Rightarrow> nat \<Rightarrow> failure + bytes" where
  "hexBytes (Some (JStr s)) len =
     (if length s \<noteq> len * 2 \<or> s = [] \<or> \<not> list_all is_hex s then Inl WireError else Inr (hex_pairs s))"
| "hexBytes _ _ = Inl WireError"

text \<open>\<open>Buffer.from(value, "base64url")\<close> on text of that alphabet; a single left-over character is dropped.\<close>

definition buffer_base64url :: "string \<Rightarrow> bytes" where
  "buffer_base64url s = b64_bytes (map (\<lambda>c. the (b64_value (std_char c))) s)"

fun base64UrlBytes :: "jval option \<Rightarrow> nat \<Rightarrow> failure + bytes" where
  "base64UrlBytes (Some (JStr s)) maxBytes =
     (if length s = 0 \<or> length s > maxBytes * 2 \<or> \<not> list_all is_b64url s then Inl WireError
      else let bytes = buffer_base64url s in
        if length bytes > maxBytes then Inl WireError else Inr bytes)"
| "base64UrlBytes _ _ = Inl WireError"

text \<open>
  A byte string is an object with index properties only; the callers read none of them.
\<close>

fun record_of :: "jval option \<Rightarrow> failure + (string \<times> jval) list" where
  "record_of (Some (JObj fs)) = Inr fs"
| "record_of (Some (JBytes _)) = Inr []"
| "record_of _ = Inl WireError"

fun safeInteger :: "jval option \<Rightarrow> failure + int" where
  "safeInteger (Some (JNum n)) = (if \<not> safe_int n \<or> n < 0 then Inl WireError else Inr n)"
| "safeInteger _ = Inl WireError"

fun stringField :: "jval option \<Rightarrow> failure + string" where
  "stringField (Some (JStr s)) = Inr s"
| "stringField _ = Inl WireError"

fun arrayField :: "jval option \<Rightarrow> failure + jval list" where
  "arrayField (Some (JArr vs)) = Inr vs"
| "arrayField _ = Inl WireError"

definition certificateFromJson :: "jval option \<Rightarrow> failure + device_certificate" where
  "certificateFromJson value =
     rbind (record_of value) (\<lambda>input.
     rbind (hexBytes (jfield input ''accountId'') 32) (\<lambda>accountId.
     rbind (hexBytes (jfield input ''deviceId'') 32) (\<lambda>deviceId.
     rbind (hexBytes (jfield input ''deviceSigningPublicKey'') 32) (\<lambda>signingKey.
     rbind (hexBytes (jfield input ''deviceEncryptionPublicKey'') 32) (\<lambda>encryptionKey.
     rbind (safeInteger (jfield input ''issuedAt'')) (\<lambda>issuedAt.
     rbind (safeInteger (jfield input ''expiresAt'')) (\<lambda>expiresAt.
     rbind (safeInteger (jfield input ''capabilities'')) (\<lambda>capabilities.
     rbind (base64UrlBytes (jfield input ''rootSignature'') 64) (\<lambda>rootSignature.
       Inr \<lparr>dc_accountId = accountId, dc_deviceId = deviceId, dc_signingKey = signingKey,
         dc_encryptionKey = encryptionKey, dc_issuedAt = issuedAt, dc_expiresAt = expiresAt,
         dc_capabilities = capabilities, dc_rootSignature = rootSignature\<rparr>)))))))))"

definition kindField :: "jval option \<Rightarrow> failure + credential_kind" where
  "kindField v =
     (if v = Some (JStr ''device'') then Inr KDevice else if v = Some (JStr ''ssh'') then Inr KSsh
      else if v = Some (JStr ''passkey'') then Inr KPasskey else Inl WireError)"

definition revocationFromJson :: "jval option \<Rightarrow> failure + revocation" where
  "revocationFromJson value =
     rbind (record_of value) (\<lambda>input.
     rbind (kindField (jfield input ''kind'')) (\<lambda>kind.
     rbind (stringField (jfield input ''credentialId'')) (\<lambda>cid.
     rbind (ensure (length cid \<noteq> 0 \<and> length cid \<le> 256) WireError) (\<lambda>_.
     rbind (hexBytes (jfield input ''accountId'') 32) (\<lambda>accountId.
     rbind (safeInteger (jfield input ''sequence'')) (\<lambda>sequence.
     rbind (base64UrlBytes (jfield input ''rootSignature'') 64) (\<lambda>rootSignature.
       Inr \<lparr>rv_accountId = accountId, rv_kind = kind, rv_credentialId = cid,
         rv_sequence = sequence, rv_rootSignature = rootSignature\<rparr>)))))))"

fun hexList :: "jval list \<Rightarrow> failure + bytes list" where
  "hexList [] = Inr []"
| "hexList (v # vs) = rbind (hexBytes (Some v) 32) (\<lambda>b. rbind (hexList vs) (\<lambda>bs. Inr (b # bs)))"

definition eventFromJson :: "jval option \<Rightarrow> failure + nexnet_event" where
  "eventFromJson value =
     rbind (record_of value) (\<lambda>input.
     rbind (stringField (jfield input ''eventType'')) (\<lambda>eventType.
     rbind (arrayField (jfield input ''parentIds'')) (\<lambda>parents.
     rbind (ensure (length parents \<le> 32) WireError) (\<lambda>_.
     rbind (safeInteger (jfield input ''protocolVersion'')) (\<lambda>protocolVersion.
     rbind (hexBytes (jfield input ''eventId'') 32) (\<lambda>eventId.
     rbind (hexBytes (jfield input ''authorIdentityId'') 32) (\<lambda>identity.
     rbind (hexBytes (jfield input ''authorDeviceId'') 32) (\<lambda>device.
     rbind (safeInteger (jfield input ''createdAt'')) (\<lambda>createdAt.
     rbind (safeInteger (jfield input ''sequence'')) (\<lambda>sequence.
     rbind (hexList parents) (\<lambda>parentIds.
     rbind (base64UrlBytes (jfield input ''payload'') 16384) (\<lambda>payload.
     rbind (base64UrlBytes (jfield input ''signature'') 64) (\<lambda>signature.
       Inr \<lparr>ev_protocolVersion = protocolVersion, ev_eventType = eventType, ev_eventId = eventId,
         ev_authorIdentityId = identity, ev_authorDeviceId = device, ev_createdAt = createdAt,
         ev_sequence = sequence, ev_parentIds = parentIds, ev_payload = payload,
         ev_signature = signature\<rparr>)))))))))))))"

record channel_payload =
  py_channel :: string
  py_body :: string

definition decodeChannelPayload :: "crypto \<Rightarrow> bytes \<Rightarrow> failure + channel_payload" where
  "decodeChannelPayload c payload =
     rbind (case cdeDecode c payload of None \<Rightarrow> Inl WireError | Some decoded \<Rightarrow> Inr decoded) (\<lambda>decoded.
     rbind (record_of (Some decoded)) (\<lambda>input.
     rbind (ensure (length input = 2) WireError) (\<lambda>_.
     rbind (stringField (jfield input ''channel'')) (\<lambda>channel.
     rbind (stringField (jfield input ''body'')) (\<lambda>body.
       Inr \<lparr>py_channel = channel, py_body = body\<rparr>)))))"

section \<open>Round trips\<close>

lemma toHex_eq_Nil [simp]: "toHex b = [] \<longleftrightarrow> b = []"
  by (cases b) auto

lemma hexBytes_toHex [simp]: "length b = n \<Longrightarrow> n > 0 \<Longrightarrow> hexBytes (Some (JStr (toHex b))) n = Inr b"
  by auto

lemma hexBytes_Inr: "hexBytes v n = Inr b \<Longrightarrow> length b = n \<and> v = Some (JStr (toHex b))"
proof (induction v n rule: hexBytes.induct)
  case (1 s len)
  have h: "length s = len * 2" "list_all is_hex s" "b = hex_pairs s"
    using 1 by (auto split: if_splits)
  then have "fromHex s = Some b" by (simp add: fromHex_def)
  then have "s = toHex b" by (simp add: fromHex_Some_toHex)
  then show ?case using h(1) length_toHex [of b] by simp
qed simp_all

lemma buffer_toBase64Url [simp]: "buffer_base64url (toBase64Url b) = b"
proof -
  have "map (\<lambda>c. the (b64_value (std_char c))) (toBase64Url b) = map (\<lambda>c. the (b64_value c)) (map std_char (toBase64Url b))"
    by simp
  then show ?thesis
    unfolding buffer_base64url_def by (simp only: std_toBase64Url map_value_char b64_bytes_sextets)
qed

lemma base64UrlBytes_to [simp]:
  assumes "0 < length b" "length b \<le> n"
  shows "base64UrlBytes (Some (JStr (toBase64Url b))) n = Inr b"
proof -
  have "length (toBase64Url b) \<noteq> 0" "length (toBase64Url b) \<le> n * 2"
    using assms unfolding length_toBase64Url by linarith+
  then show ?thesis using toBase64Url_alphabet [of b] assms by (simp add: Let_def)
qed

lemma base64UrlBytes_Inr: "base64UrlBytes v n = Inr b \<Longrightarrow> length b \<le> n"
  by (induction v n rule: base64UrlBytes.induct) (auto simp: Let_def split: if_splits)

lemma safeInteger_Inr: "safeInteger v = Inr n \<longleftrightarrow> v = Some (JNum n) \<and> safe_int n \<and> 0 \<le> n"
  by (induction v rule: safeInteger.induct) auto

lemma hexList_to [simp]: "\<forall>p \<in> set ps. length p = 32 \<Longrightarrow> hexList (map (\<lambda>p. JStr (toHex p)) ps) = Inr ps"
  by (induction ps) auto

lemma hexList_Inr: "hexList vs = Inr ps \<Longrightarrow> length ps = length vs \<and> (\<forall>p \<in> set ps. length p = 32)"
  by (induction vs arbitrary: ps) (auto simp: rbind_Inr_iff dest!: hexBytes_Inr)

lemma kindField_name [simp]: "kindField (Some (JStr (kind_name k))) = Inr k"
  by (cases k) (simp_all add: kindField_def)

lemma stringField_Inr: "stringField v = Inr s \<longleftrightarrow> v = Some (JStr s)"
  by (induction v rule: stringField.induct) auto

lemma arrayField_Inr: "arrayField v = Inr vs \<longleftrightarrow> v = Some (JArr vs)"
  by (induction v rule: arrayField.induct) auto

declare hexBytes.simps [simp del] base64UrlBytes.simps [simp del]

text \<open>What the parsers promise of the objects they return.\<close>

definition stamp_ok :: "int \<Rightarrow> bool" where "stamp_ok n \<longleftrightarrow> 0 \<le> n \<and> safe_int n"

definition wire_certificate :: "device_certificate \<Rightarrow> bool" where
  "wire_certificate c \<longleftrightarrow> length (dc_accountId c) = 32 \<and> length (dc_deviceId c) = 32
     \<and> length (dc_signingKey c) = 32 \<and> length (dc_encryptionKey c) = 32
     \<and> stamp_ok (dc_issuedAt c) \<and> stamp_ok (dc_expiresAt c) \<and> stamp_ok (dc_capabilities c)
     \<and> length (dc_rootSignature c) \<le> 64"

definition wire_event :: "nexnet_event \<Rightarrow> bool" where
  "wire_event e \<longleftrightarrow> stamp_ok (ev_protocolVersion e) \<and> length (ev_eventId e) = 32
     \<and> length (ev_authorIdentityId e) = 32 \<and> length (ev_authorDeviceId e) = 32
     \<and> stamp_ok (ev_createdAt e) \<and> stamp_ok (ev_sequence e)
     \<and> length (ev_parentIds e) \<le> 32 \<and> (\<forall>p \<in> set (ev_parentIds e). length p = 32)
     \<and> length (ev_payload e) \<le> 16384 \<and> length (ev_signature e) \<le> 64"

definition wire_revocation :: "revocation \<Rightarrow> bool" where
  "wire_revocation r \<longleftrightarrow> length (rv_accountId r) = 32 \<and> 1 \<le> length (rv_credentialId r)
     \<and> length (rv_credentialId r) \<le> 256 \<and> stamp_ok (rv_sequence r) \<and> length (rv_rootSignature r) \<le> 64"

lemma certificateFromJson_sound: "certificateFromJson v = Inr c \<Longrightarrow> wire_certificate c"
  by (auto simp: certificateFromJson_def rbind_Inr_iff wire_certificate_def safeInteger_Inr stamp_ok_def
      simp del: jfield.simps dest!: hexBytes_Inr base64UrlBytes_Inr)

lemma eventFromJson_sound: "eventFromJson v = Inr e \<Longrightarrow> wire_event e"
  by (auto simp: eventFromJson_def rbind_Inr_iff wire_event_def safeInteger_Inr stamp_ok_def
      simp del: jfield.simps dest!: hexBytes_Inr base64UrlBytes_Inr hexList_Inr)

lemma revocationFromJson_sound: "revocationFromJson v = Inr r \<Longrightarrow> wire_revocation r"
  by (auto simp: revocationFromJson_def rbind_Inr_iff wire_revocation_def safeInteger_Inr stamp_ok_def
      Suc_le_eq simp del: jfield.simps dest!: hexBytes_Inr base64UrlBytes_Inr)

lemma certificate_json:
  "wire_certificate c \<Longrightarrow> dc_rootSignature c \<noteq> [] \<Longrightarrow> certificateFromJson (Some (certificateToJson c)) = Inr c"
  by (simp add: certificateFromJson_def certificateToJson_def wire_certificate_def stamp_ok_def)

lemma revocation_json:
  "wire_revocation r \<Longrightarrow> rv_rootSignature r \<noteq> [] \<Longrightarrow> revocationFromJson (Some (revocationToJson r)) = Inr r"
  by (simp add: revocationFromJson_def revocationToJson_def wire_revocation_def stamp_ok_def ensure_def Suc_le_eq)

lemma event_json:
  "wire_event e \<Longrightarrow> ev_payload e \<noteq> [] \<Longrightarrow> ev_signature e \<noteq> [] \<Longrightarrow> eventFromJson (Some (eventToJson e)) = Inr e"
  by (simp add: eventFromJson_def eventToJson_def wire_event_def stamp_ok_def ensure_def)

text \<open>
  C33. The JSON wire format. Whatever the gateway's parsers accept has the field lengths,
  integer ranges and sizes the rest of the code relies on, and every certificate, revocation
  and event within those bounds (with a non-empty signature and payload) is parsed back from
  its JSON form unchanged.
\<close>

theorem wire_format_sound_and_complete:
  "(certificateFromJson v = Inr cert \<longrightarrow> wire_certificate cert)
   \<and> (revocationFromJson v = Inr rv \<longrightarrow> wire_revocation rv)
   \<and> (eventFromJson v = Inr ev \<longrightarrow> wire_event ev)
   \<and> (wire_certificate cert \<and> dc_rootSignature cert \<noteq> [] \<longrightarrow> certificateFromJson (Some (certificateToJson cert)) = Inr cert)
   \<and> (wire_revocation rv \<and> rv_rootSignature rv \<noteq> [] \<longrightarrow> revocationFromJson (Some (revocationToJson rv)) = Inr rv)
   \<and> (wire_event ev \<and> ev_payload ev \<noteq> [] \<and> ev_signature ev \<noteq> [] \<longrightarrow> eventFromJson (Some (eventToJson ev)) = Inr ev)"
  using certificateFromJson_sound revocationFromJson_sound eventFromJson_sound certificate_json revocation_json event_json
  by blast

theorem wire_format_sound_and_complete_witness:
  "revocationFromJson (Some (revocationToJson \<lparr>rv_accountId = replicate 32 1, rv_kind = KSsh, rv_credentialId = ''k'',
      rv_sequence = 4, rv_rootSignature = [7]\<rparr>))
   = Inr \<lparr>rv_accountId = replicate 32 1, rv_kind = KSsh, rv_credentialId = ''k'', rv_sequence = 4, rv_rootSignature = [7]\<rparr>"
proof -
  let ?r = "\<lparr>rv_accountId = replicate 32 1, rv_kind = KSsh, rv_credentialId = ''k'',
      rv_sequence = 4, rv_rootSignature = [7]\<rparr>"
  have "wire_revocation ?r \<and> rv_rootSignature ?r \<noteq> []"
    by (simp add: wire_revocation_def stamp_ok_def safe_int_def)
  then show ?thesis
    using wire_format_sound_and_complete [where rv = ?r] by blast
qed

end
