(* ===== verification/Ssh.thy ===== *)
theory Ssh
  imports Protocol
begin

text \<open>
  OpenSSH public keys and detached signatures, \<open>packages/protocol/src/ssh.ts\<close>. The
  \<open>Reader\<close> object is the list of bytes still to be read; every read returns the value
  and the rest, or the exception. The lemmas give the printer/parser round trip for public
  keys and the shape of fingerprints.
\<close>

datatype ssh_error = SshTruncated | SshBadText | SshOnlyEd25519 | SshInvalidKey | SshInvalidArmor | SshInvalidBase64

definition SSH_ED25519 :: string where "SSH_ED25519 = ''ssh-ed25519''"
definition SSH_SIGNATURE_NAMESPACE :: string where "SSH_SIGNATURE_NAMESPACE = ''nexnet-auth''"
definition SSHSIG_MAGIC :: bytes where "SSHSIG_MAGIC = utf8 ''SSHSIG''"
definition ARMOR_BEGIN :: string where "ARMOR_BEGIN = ''-----BEGIN SSH SIGNATURE-----''"
definition ARMOR_END :: string where "ARMOR_END = ''-----END SSH SIGNATURE-----''"
definition MAX_SIGNATURE_BYTES :: nat where "MAX_SIGNATURE_BYTES = 4096"

definition standardBase64 :: "bytes \<Rightarrow> bool \<Rightarrow> string" where
  "standardBase64 bs padded =
     (let value = map std_char (toBase64Url bs) in if padded then pad4 value else value)"

definition decodeBase64 :: "string \<Rightarrow> ssh_error + bytes" where
  "decodeBase64 value = (case atob value of None \<Rightarrow> Inl SshInvalidBase64 | Some bs \<Rightarrow> Inr bs)"

section \<open>The binary reader\<close>

definition reader_raw :: "nat \<Rightarrow> bytes \<Rightarrow> ssh_error + bytes \<times> bytes" where
  "reader_raw n r = (if n > length r then Inl SshTruncated else Inr (take n r, drop n r))"

definition reader_uint32 :: "bytes \<Rightarrow> ssh_error + nat \<times> bytes" where
  "reader_uint32 r = (case reader_raw 4 r of Inl e \<Rightarrow> Inl e | Inr (b, r') \<Rightarrow> Inr (be32 b, r'))"

definition reader_string :: "bytes \<Rightarrow> ssh_error + bytes \<times> bytes" where
  "reader_string r = (case reader_uint32 r of Inl e \<Rightarrow> Inl e | Inr (n, r') \<Rightarrow> reader_raw n r')"

text \<open>
  \<open>text()\<close> decodes with \<open>TextDecoder("utf-8", fatal)\<close>, which drops a leading byte
  order mark; since UTF-8 decoding is injective on valid input, the decoded text equals
  \<open>s\<close> iff the bytes after the mark are the encoding of \<open>s\<close>.
\<close>

definition text_is :: "bytes \<Rightarrow> string \<Rightarrow> bool" where
  "text_is bs s = ((if take 3 bs = [239, 187, 191] then drop 3 bs else bs) = utf8 s)"

definition ssh_uint32 :: "nat \<Rightarrow> bytes" where
  "ssh_uint32 v = [word_of_nat (v div 2 ^ 24), word_of_nat (v div 2 ^ 16), word_of_nat (v div 2 ^ 8), word_of_nat v]"

definition sshString :: "bytes \<Rightarrow> bytes" where
  "sshString bs = ssh_uint32 (length bs) @ bs"

definition sshText :: "string \<Rightarrow> bytes" where
  "sshText s = sshString (utf8 s)"

section \<open>Public keys\<close>

definition sshPublicKeyBlob :: "bytes \<Rightarrow> bytes" where
  "sshPublicKeyBlob publicKey = sshText SSH_ED25519 @ sshString publicKey"

definition sshFingerprint :: "crypto \<Rightarrow> bytes \<Rightarrow> string" where
  "sshFingerprint c publicKey = ''SHA256:'' @ standardBase64 (sha256 c (sshPublicKeyBlob publicKey)) False"

definition parsePublicKeyBlob :: "bytes \<Rightarrow> ssh_error + bytes" where
  "parsePublicKeyBlob blob =
     (case reader_string blob of
        Inl e \<Rightarrow> Inl e
      | Inr (name, r) \<Rightarrow>
          if \<not> text_is name SSH_ED25519 then Inl SshOnlyEd25519
          else case reader_string r of
            Inl e \<Rightarrow> Inl e
          | Inr (key, r') \<Rightarrow>
              if length key \<noteq> 32 \<or> r' \<noteq> [] then Inl SshInvalidKey else Inr key)"

text \<open>\<open>s.split(/\s+/)\<close>.\<close>

function split_ws :: "string \<Rightarrow> string list" where
  "split_ws s =
     (let w = takeWhile (\<lambda>c. \<not> js_ws c) s; r = dropWhile (\<lambda>c. \<not> js_ws c) s
      in if r = [] then [w] else w # split_ws (dropWhile js_ws r))"
  by pat_completeness auto
termination
proof (relation "measure length", simp, goal_cases)
  case (1 s w r)
  have "length r \<le> length s"
    using 1(2) by (simp add: length_dropWhile_le)
  moreover have "length (dropWhile js_ws r) < length r"
  proof -
    obtain c cs where r: "r = c # cs" using 1(3) by (cases r) auto
    then have "js_ws c" using 1(2) hd_dropWhile [of "\<lambda>c. \<not> js_ws c" s] by auto
    then show ?thesis using r length_dropWhile_le [of js_ws cs] by simp
  qed
  ultimately show ?case by simp
qed

declare split_ws.simps [simp del]

text \<open>\<open>/^[A-Za-z0-9+/]+={0,2}$/\<close>.\<close>

definition is_base64 :: "string \<Rightarrow> bool" where
  "is_base64 s = (let core = rstrip (CHR ''='') s in
     core \<noteq> [] \<and> length s - length core \<le> 2 \<and> list_all (\<lambda>c. b64_value c \<noteq> None) core)"

definition parseSshPublicKey :: "string \<Rightarrow> ssh_error + bytes" where
  "parseSshPublicKey line =
     (let fields = split_ws (js_trim line) in
      if length fields < 2 \<or> fields ! 0 \<noteq> SSH_ED25519 then Inl SshOnlyEd25519
      else if \<not> is_base64 (fields ! 1) then Inl SshInvalidKey
      else case decodeBase64 (fields ! 1) of Inl e \<Rightarrow> Inl e | Inr blob \<Rightarrow> parsePublicKeyBlob blob)"

definition formatSshPublicKey :: "bytes \<Rightarrow> string" where
  "formatSshPublicKey publicKey =
     SSH_ED25519 @ '' '' @ standardBase64 (sshPublicKeyBlob publicKey) True"

section \<open>Detached signatures\<close>

text \<open>\<open>s.split(/\r?\n/)\<close>: a carriage return directly before the line feed goes with it.\<close>

definition strip_cr :: "string \<Rightarrow> string" where
  "strip_cr s = (if s \<noteq> [] \<and> last s = CHR 0x0D then butlast s else s)"

fun split_lines_acc :: "string \<Rightarrow> string \<Rightarrow> string list" where
  "split_lines_acc acc [] = [rev acc]"
| "split_lines_acc acc (c # s) =
     (if c = CHR 0x0A then strip_cr (rev acc) # split_lines_acc [] s else split_lines_acc (c # acc) s)"

definition dearmor :: "string \<Rightarrow> ssh_error + bytes" where
  "dearmor armored =
     (let lines = split_lines_acc [] (js_trim armored) in
      if length lines < 3 \<or> hd lines \<noteq> ARMOR_BEGIN \<or> last lines \<noteq> ARMOR_END then Inl SshInvalidArmor
      else let body = concat (butlast (tl lines)) in
        if \<not> is_base64 body \<or> length body > MAX_SIGNATURE_BYTES * 2 then Inl SshInvalidArmor
        else decodeBase64 body)"

definition ssh_digest :: "crypto \<Rightarrow> bytes \<Rightarrow> bytes \<Rightarrow> (string \<times> bytes) option" where
  "ssh_digest c hashAlgorithm message =
     (if text_is hashAlgorithm ''sha512'' then Some (''sha512'', sha512 c message)
      else if text_is hashAlgorithm ''sha256'' then Some (''sha256'', sha256 c message) else None)"

definition ssh_signed_data :: "string \<Rightarrow> string \<Rightarrow> bytes \<Rightarrow> bytes" where
  "ssh_signed_data namespace hashAlgorithm digest =
     SSHSIG_MAGIC @ sshText namespace @ sshString [] @ sshText hashAlgorithm @ sshString digest"

text \<open>The part after the namespace: reserved field, hash algorithm, signature blob.\<close>

definition verifySshTail :: "crypto \<Rightarrow> bytes \<Rightarrow> bytes \<Rightarrow> string \<Rightarrow> bytes \<Rightarrow> bool" where
  "verifySshTail c publicKey message namespace r4 =
     (case reader_string r4 of
        Inl e \<Rightarrow> False
      | Inr (reserved, r5) \<Rightarrow>
          if length reserved \<noteq> 0 then False
          else case reader_string r5 of
            Inl e \<Rightarrow> False
          | Inr (hashAlgorithm, r6) \<Rightarrow>
              (case ssh_digest c hashAlgorithm message of
                 None \<Rightarrow> False
               | Some (alg, digest) \<Rightarrow>
                   (case reader_string r6 of
                      Inl e \<Rightarrow> False
                    | Inr (blob, r7) \<Rightarrow>
                        if r7 \<noteq> [] then False
                        else case reader_string blob of
                          Inl e \<Rightarrow> False
                        | Inr (name, b1) \<Rightarrow>
                            if \<not> text_is name SSH_ED25519 then False
                            else case reader_string b1 of
                              Inl e \<Rightarrow> False
                            | Inr (signature, b2) \<Rightarrow>
                                if length signature \<noteq> 64 \<or> b2 \<noteq> [] then False
                                else ed_verify c publicKey (ssh_signed_data namespace alg digest) signature
                                       = Some True)))"

definition verifySshSignature :: "crypto \<Rightarrow> string \<Rightarrow> bytes \<Rightarrow> bytes \<Rightarrow> string \<Rightarrow> bool" where
  "verifySshSignature c armoredSignature message expectedPublicKey namespace =
     (case dearmor armoredSignature of
        Inl e \<Rightarrow> False
      | Inr r0 \<Rightarrow>
          (case reader_raw (length SSHSIG_MAGIC) r0 of
             Inl e \<Rightarrow> False
           | Inr (magic, r1) \<Rightarrow>
               if \<not> sameBytes magic SSHSIG_MAGIC then False
               else case reader_uint32 r1 of
                 Inl e \<Rightarrow> False
               | Inr (version, r2) \<Rightarrow>
                   if version \<noteq> 1 then False
                   else case reader_string r2 of
                     Inl e \<Rightarrow> False
                   | Inr (blob, r3) \<Rightarrow>
                       (case parsePublicKeyBlob blob of
                          Inl e \<Rightarrow> False
                        | Inr publicKey \<Rightarrow>
                            if \<not> sameBytes publicKey expectedPublicKey then False
                            else case reader_string r3 of
                              Inl e \<Rightarrow> False
                            | Inr (ns, r4) \<Rightarrow>
                                if \<not> text_is ns namespace then False
                                else verifySshTail c publicKey message namespace r4)))"

section \<open>Lemmas\<close>

lemma length_ssh_uint32 [simp]: "length (ssh_uint32 v) = 4"
  by (simp add: ssh_uint32_def)

lemma be32_ssh_uint32: "v < 2 ^ 32 \<Longrightarrow> be32 (ssh_uint32 v) = v"
  using be32_parts [of v]
  by (simp add: be32_def ssh_uint32_def unat_word_of_nat_byte)

lemma reader_raw_append: "reader_raw (length a) (a @ r) = Inr (a, r)"
  by (simp add: reader_raw_def)

lemma reader_string_sshString:
  "length bs < 2 ^ 32 \<Longrightarrow> reader_string (sshString bs @ r) = Inr (bs, r)"
proof -
  assume l: "length bs < 2 ^ 32"
  have "reader_raw 4 (ssh_uint32 (length bs) @ bs @ r) = Inr (ssh_uint32 (length bs), bs @ r)"
    using reader_raw_append [of "ssh_uint32 (length bs)" "bs @ r"] by simp
  then show ?thesis
    using l by (simp add: reader_string_def reader_uint32_def sshString_def be32_ssh_uint32 reader_raw_append)
qed

lemma text_is_refl: "take 3 (utf8 s) \<noteq> [239, 187, 191] \<Longrightarrow> text_is (utf8 s) s"
  by (simp add: text_is_def)

lemma text_is_ed25519: "text_is (utf8 SSH_ED25519) SSH_ED25519"
  by (rule text_is_refl) (simp add: SSH_ED25519_def utf8_char_def)

lemma parse_blob: "length pk = 32 \<Longrightarrow> parsePublicKeyBlob (sshPublicKeyBlob pk) = Inr pk"
proof -
  assume l: "length pk = 32"
  have "length (utf8 SSH_ED25519) < 2 ^ 32"
    by (simp add: SSH_ED25519_def utf8_char_def)
  then have "reader_string (sshPublicKeyBlob pk) = Inr (utf8 SSH_ED25519, sshString pk)"
    unfolding sshPublicKeyBlob_def sshText_def by (rule reader_string_sshString)
  moreover have "reader_string (sshString pk) = Inr (pk, [])"
    using reader_string_sshString [of pk "[]"] l by simp
  ultimately show ?thesis
    using l text_is_ed25519 by (simp add: parsePublicKeyBlob_def)
qed

lemma standardBase64_padded: "standardBase64 bs True = btoa bs"
  by (simp add: standardBase64_def std_toBase64Url btoa_def)

lemma standardBase64_plain: "standardBase64 bs False = map b64_char (b64_sextets bs)"
  by (simp add: standardBase64_def std_toBase64Url)

lemma rstrip_pad4: "list_all (\<lambda>c. b64_value c \<noteq> None) s \<Longrightarrow> rstrip (CHR ''='') (pad4 s) = s"
  by (simp add: pad4_def rstrip_replicate no_pad_char)

lemma pad_length: "n mod 4 \<noteq> 1 \<Longrightarrow> (4 - n mod 4) mod 4 \<le> (2::nat)"
proof -
  assume "n mod 4 \<noteq> 1"
  then consider "n mod 4 = 0" | "n mod 4 = 2" | "n mod 4 = 3" by linarith
  then show ?thesis by cases simp_all
qed

lemma btoa_is_base64: "bs \<noteq> [] \<Longrightarrow> is_base64 (btoa bs)"
proof -
  assume ne: "bs \<noteq> []"
  let ?s = "map b64_char (b64_sextets bs)"
  have "?s \<noteq> []" using ne by (cases bs rule: b64_sextets.cases) auto
  moreover have "(4 - length ?s mod 4) mod 4 \<le> 2"
    using pad_length [of "length ?s"] length_sextets [of bs] by simp
  ultimately show ?thesis
    using rstrip_pad4 [OF sextet_chars, of bs] sextet_chars [of bs]
    by (simp add: is_base64_def btoa_def Let_def) (simp add: pad4_def)
qed

lemma no_ws_b64: "c \<in> set (btoa bs) \<Longrightarrow> \<not> js_ws c"
proof -
  assume "c \<in> set (btoa bs)"
  then consider "b64_value c \<noteq> None" | "c = CHR ''=''"
    using sextet_chars [of bs] by (auto simp: btoa_def pad4_def list_all_iff simp del: set_map)
  then show ?thesis
    by cases (auto simp: b64_value_def js_ws_def Let_def split: if_splits)
qed

lemma split_ws_word: "(\<forall>c \<in> set w. \<not> js_ws c) \<Longrightarrow> split_ws w = [w]"
proof -
  assume a: "\<forall>c \<in> set w. \<not> js_ws c"
  then have "takeWhile (\<lambda>c. \<not> js_ws c) w = w" "dropWhile (\<lambda>c. \<not> js_ws c) w = []" by auto
  then show ?thesis by (simp add: split_ws.simps [of w])
qed

lemma split_ws_two:
  assumes "\<forall>c \<in> set a. \<not> js_ws c" and "\<forall>c \<in> set b. \<not> js_ws c" and "b \<noteq> []"
  shows "split_ws (a @ '' '' @ b) = [a, b]"
proof -
  have sp: "js_ws (CHR '' '')" by (simp add: js_ws_def)
  let ?s = "a @ CHR '' '' # b"
  have "takeWhile (\<lambda>c. \<not> js_ws c) ?s = a" "dropWhile (\<lambda>c. \<not> js_ws c) ?s = CHR '' '' # b"
    using assms(1) sp by (simp_all add: takeWhile_tail dropWhile_append3)
  moreover have "dropWhile js_ws (CHR '' '' # b) = b" using sp assms(2,3) by (cases b) auto
  ultimately have "split_ws ?s = [a, b]"
    using assms(2) by (subst split_ws.simps) (simp add: Let_def split_ws_word)
  then show ?thesis by simp
qed

lemma js_trim_id:
  assumes "s \<noteq> []" "\<not> js_ws (hd s)" "\<not> js_ws (last s)"
  shows "js_trim s = s"
proof -
  have "dropWhile js_ws s = s" "dropWhile js_ws (rev s) = rev s"
    using assms by (simp_all add: dropWhile_eq_self_iff hd_rev)
  then show ?thesis by (simp add: js_trim_def)
qed

lemma blob_nonempty: "sshPublicKeyBlob pk \<noteq> []"
  by (simp add: sshPublicKeyBlob_def sshText_def sshString_def ssh_uint32_def)

lemma btoa_nonempty: "bs \<noteq> [] \<Longrightarrow> btoa bs \<noteq> []"
  by (cases bs rule: b64_sextets.cases) (auto simp: btoa_def pad4_def)

text \<open>
  SSH public keys round-trip: parsing the line \<open>formatSshPublicKey\<close> prints for a
  32-byte Ed25519 key gives back exactly that key.
\<close>

lemma ssh_public_key_roundtrip:
  assumes "length pk = 32"
  shows "parseSshPublicKey (formatSshPublicKey pk) = Inr pk"
proof -
  let ?b = "btoa (sshPublicKeyBlob pk)"
  have ed: "\<forall>c \<in> set SSH_ED25519. \<not> js_ws c" by (simp add: SSH_ED25519_def js_ws_def)
  have b: "\<forall>c \<in> set ?b. \<not> js_ws c" using no_ws_b64 by blast
  have ne: "?b \<noteq> []" by (simp add: btoa_nonempty blob_nonempty)
  have f: "formatSshPublicKey pk = SSH_ED25519 @ '' '' @ ?b"
    by (simp add: formatSshPublicKey_def standardBase64_padded)
  have "js_trim (formatSshPublicKey pk) = formatSshPublicKey pk"
    unfolding f using b ne by (intro js_trim_id) (auto simp: SSH_ED25519_def js_ws_def)
  then have fields: "split_ws (js_trim (formatSshPublicKey pk)) = [SSH_ED25519, ?b]"
    using split_ws_two [OF ed b ne] by (simp add: f)
  show ?thesis
    using assms unfolding parseSshPublicKey_def fields Let_def
    by (simp add: btoa_is_base64 blob_nonempty decodeBase64_def parse_blob)
qed

lemma ssh_public_key_roundtrip_witness:
  "parseSshPublicKey (formatSshPublicKey (replicate 32 7)) = Inr (replicate 32 7)"
  by (rule ssh_public_key_roundtrip) simp

lemma sshFingerprint_shape:
  assumes "length (sha256 c (sshPublicKeyBlob pk)) = 32"
  obtains body where "sshFingerprint c pk = ''SHA256:'' @ body" "length body = 43"
    "list_all (\<lambda>ch. b64_value ch \<noteq> None) body"
  using assms sextet_chars that
  by (simp add: sshFingerprint_def standardBase64_plain length_b64_sextets)

end
