(* ===== verification/Dev_Chain.thy ===== *)
theory Dev_Chain
  imports Ssh
begin

text \<open>
  The development chain, \<open>DevChainClient\<close> of \<open>packages/client/src/chain-stub.ts\<close>: its
  state (one field per private \<open>Map\<close>) and every operation. An operation takes the
  state, the value of \<open>Date.now()\<close> during the call and, where it verifies signatures,
  the primitives; it returns the new state and either the thrown error or the result. The
  reachable states and their invariants are in \<open>Dev_Chain_Inv\<close>.

  One clock value per call stands for the several \<open>Date.now()\<close> calls of a body. Each body is one
  step. They have no await in them but for \<open>registerIdentity\<close>, after its last change, and
  \<open>authorizeDeviceCertificateWithSshKey\<close>, which awaits \<open>resolveSshKey\<close> of the same object; the call
  another caller may slip in there is not modelled. \<open>structuredClone\<close> and \<open>new Uint8Array\<close> copies
  are the identity on values. \<open>persist()\<close> writes the serialised state of
  \<open>Dev_Chain_Persist\<close> and leaves the in-memory state unchanged.
\<close>

section \<open>State\<close>

definition DAY_MS :: int where "DAY_MS = 24 * 60 * 60 * 1000"
definition MIN_ACCOUNT_AGE_MS :: int where "MIN_ACCOUNT_AGE_MS = 7 * 24 * 60 * 60 * 1000"
definition INACTIVITY_RELEASE_MS :: int where "INACTIVITY_RELEASE_MS = 90 * 24 * 60 * 60 * 1000"
definition MIN_VALIDATORS :: nat where "MIN_VALIDATORS = 4"
definition MAX_VALIDATORS :: nat where "MAX_VALIDATORS = 21"
definition MIN_BOND :: int where "MIN_BOND = 1"
definition VALIDATOR_POWER_CAP :: int where "VALIDATOR_POWER_CAP = 1000000"
definition MAX_SSH_KEYS_PER_IDENTITY :: nat where "MAX_SSH_KEYS_PER_IDENTITY = 8"
definition MAX_PENDING_PASSKEYS_PER_IDENTITY :: nat where "MAX_PENDING_PASSKEYS_PER_IDENTITY = 16"
definition MAX_REVOCATION_SEQUENCE_AHEAD_MS :: int where
  "MAX_REVOCATION_SEQUENCE_AHEAD_MS = 24 * 60 * 60 * 1000"

record account_meta =
  am_createdAt :: int
  am_lastActiveAt :: int

record persisted_certificate =
  pc_accountId :: string
  pc_deviceId :: string
  pc_signingKey :: string
  pc_encryptionKey :: string
  pc_issuedAt :: int
  pc_expiresAt :: int
  pc_capabilities :: int
  pc_rootSignature :: string

record pending_passkey =
  pp_challenge :: string
  pp_certificate :: persisted_certificate
  pp_expiresAt :: int

record chain =
  ch_usernames :: "(string, username_record) jmap"
  ch_walletToUsername :: "(string, string) jmap"
  ch_history :: "(string, username_record list) jmap"
  ch_identityRoots :: "(string, bytes) jmap"
  ch_deviceCertificates :: "(string, device_certificate) jmap"
  ch_passkeys :: "(string, passkey_credential list) jmap"
  ch_pending :: "(string, pending_passkey) jmap"
  ch_sshKeys :: "(string, ssh_commitment list) jmap"
  ch_revocations :: "(string, int) jmap"
  ch_revocationSequences :: "(string, int) jmap"
  ch_deviceAuthorizations :: "(string, device_authorization) jmap"
  ch_accounts :: "(string, account_meta) jmap"
  ch_validators :: "(string, validator_record) jmap"

definition empty_chain :: chain where
  "empty_chain = \<lparr>ch_usernames = [], ch_walletToUsername = [], ch_history = [],
     ch_identityRoots = [], ch_deviceCertificates = [], ch_passkeys = [], ch_pending = [],
     ch_sshKeys = [], ch_revocations = [], ch_revocationSequences = [],
     ch_deviceAuthorizations = [], ch_accounts = [], ch_validators = []\<rparr>"

text \<open>One constructor per message the class throws; \<open>CryptoThrows\<close> is an exception of a library.\<close>

datatype chain_error =
    AccountNotRegistered | AccountTooNew int | WalletOwnsUsername | IdentityRootBound
  | UsernameTaken | TransferDisabled | InvalidDeviceCertificate | NotIdentityRoot
  | InvalidCertificateSignature | DeviceIsRevoked | DeviceConflict | InvalidPasskeyAuthorization
  | PasskeyAlreadyRegistered | NoPasskeyRegistered | TooManyPendingPasskeys
  | PasskeyAuthorizationMissing | PasskeyNotAuthorized | InvalidPasskeyAssertion
  | InvalidIdentityRegistration | IdentityIdMismatch | InvalidIdentityProof | InvalidSshAuthorization
  | SshKeyAlreadyRegistered | SshKeyRevoked | TooManySshKeys | SshKeyNotAuthorized
  | InvalidRevocation | RevocationStale | AlreadyValidator | InsufficientStake | ValidatorSetFull
  | NotAValidator | BelowMinValidators | CryptoThrows

section \<open>Keys and shapes\<close>

definition deviceCertificateKey :: "bytes \<Rightarrow> bytes \<Rightarrow> string" where
  "deviceCertificateKey identityId deviceId = toHex identityId @ '':'' @ toHex deviceId"

definition pendingKey :: "string \<Rightarrow> bytes \<Rightarrow> string" where
  "pendingKey identityHex deviceId = identityHex @ '':'' @ toHex deviceId"

definition revocationKey :: "string \<Rightarrow> credential_kind \<Rightarrow> string \<Rightarrow> string" where
  "revocationKey identityHex kind credentialId = identityHex @ '':'' @ kind_name kind @ '':'' @ credentialId"

definition isRevokedKey :: "chain \<Rightarrow> string \<Rightarrow> credential_kind \<Rightarrow> string \<Rightarrow> bool" where
  "isRevokedKey st identityHex kind credentialId =
     jm_has (ch_revocations st) (revocationKey identityHex kind credentialId)"

fun auth_credential_kind :: "auth_kind \<Rightarrow> credential_kind option" where
  "auth_credential_kind ARoot = None"
| "auth_credential_kind ASsh = Some KSsh"
| "auth_credential_kind APasskey = Some KPasskey"

definition isCertificateRevoked :: "chain \<Rightarrow> bytes \<Rightarrow> bytes \<Rightarrow> bool" where
  "isCertificateRevoked st identityId deviceId =
     (let identityHex = toHex identityId in
      if isRevokedKey st identityHex KDevice (toHex deviceId) then True
      else case jm_get (ch_deviceAuthorizations st) (deviceCertificateKey identityId deviceId) of
        None \<Rightarrow> False
      | Some a \<Rightarrow>
          (case (auth_credential_kind (da_kind a), da_credentialId a) of
             (Some k, Some cid) \<Rightarrow> isRevokedKey st identityHex k cid
           | _ \<Rightarrow> False))"

definition isCredentialIdWellFormed :: "credential_kind \<Rightarrow> string \<Rightarrow> bool" where
  "isCredentialIdWellFormed kind cid =
     (if length cid = 0 \<or> length cid > 256 then False
      else case kind of
        KDevice \<Rightarrow> length cid = 64 \<and> list_all is_hex cid
      | KSsh \<Rightarrow> take 7 cid = ''SHA256:'' \<and> length (drop 7 cid) = 43
                \<and> list_all (\<lambda>c. b64_value c \<noteq> None) (drop 7 cid)
      | KPasskey \<Rightarrow> True)"

definition isDeviceCertificateShapeValid :: "int \<Rightarrow> device_certificate \<Rightarrow> bytes \<Rightarrow> bool" where
  "isDeviceCertificateShapeValid now cert identityId =
     (length (dc_accountId cert) = 32 \<and> dc_accountId cert = identityId
      \<and> length (dc_deviceId cert) = 32 \<and> length (dc_signingKey cert) = 32
      \<and> length (dc_encryptionKey cert) = 32 \<and> length (dc_rootSignature cert) = 64
      \<and> dc_expiresAt cert > dc_issuedAt cert \<and> dc_expiresAt cert > now)"

definition sameDeviceCertificate :: "device_certificate \<Rightarrow> device_certificate \<Rightarrow> bool" where
  "sameDeviceCertificate a b =
     (dc_accountId a = dc_accountId b \<and> dc_deviceId a = dc_deviceId b
      \<and> dc_signingKey a = dc_signingKey b \<and> dc_encryptionKey a = dc_encryptionKey b
      \<and> dc_issuedAt a = dc_issuedAt b \<and> dc_expiresAt a = dc_expiresAt b
      \<and> dc_capabilities a = dc_capabilities b \<and> dc_rootSignature a = dc_rootSignature b)"

text \<open>\<open>Buffer.from(s, "base64")\<close> never throws; it is only applied to text \<open>persist\<close> wrote.\<close>

definition from_base64 :: "string \<Rightarrow> bytes" where
  "from_base64 s = (case atob s of None \<Rightarrow> [] | Some bs \<Rightarrow> bs)"

definition persistedDeviceCertificate :: "device_certificate \<Rightarrow> persisted_certificate" where
  "persistedDeviceCertificate c = \<lparr>pc_accountId = btoa (dc_accountId c), pc_deviceId = btoa (dc_deviceId c),
     pc_signingKey = btoa (dc_signingKey c), pc_encryptionKey = btoa (dc_encryptionKey c),
     pc_issuedAt = dc_issuedAt c, pc_expiresAt = dc_expiresAt c, pc_capabilities = dc_capabilities c,
     pc_rootSignature = btoa (dc_rootSignature c)\<rparr>"

definition deviceCertificate :: "persisted_certificate \<Rightarrow> device_certificate" where
  "deviceCertificate r = \<lparr>dc_accountId = from_base64 (pc_accountId r), dc_deviceId = from_base64 (pc_deviceId r),
     dc_signingKey = from_base64 (pc_signingKey r), dc_encryptionKey = from_base64 (pc_encryptionKey r),
     dc_issuedAt = pc_issuedAt r, dc_expiresAt = pc_expiresAt r, dc_capabilities = pc_capabilities r,
     dc_rootSignature = from_base64 (pc_rootSignature r)\<rparr>"

text \<open>The exception of \<open>assertNoConflictingDevice\<close> as a test: \<open>True\<close> is "no conflict".\<close>

definition assertNoConflictingDevice :: "int \<Rightarrow> chain \<Rightarrow> device_certificate \<Rightarrow> device_authorization \<Rightarrow> bool" where
  "assertNoConflictingDevice now st cert next =
     (let key = deviceCertificateKey (dc_accountId cert) (dc_deviceId cert) in
      case jm_get (ch_deviceCertificates st) key of
        None \<Rightarrow> True
      | Some existing \<Rightarrow>
          if dc_expiresAt existing \<le> now then True
          else (let authorization = jm_get (ch_deviceAuthorizations st) key;
                    sameKey = (dc_signingKey existing = dc_signingKey cert);
                    sameAuthorization = (case authorization of
                        None \<Rightarrow> False
                      | Some a \<Rightarrow> da_kind a = da_kind next \<and> da_credentialId a = da_credentialId next)
                in sameKey \<and> sameAuthorization))"

section \<open>Accounts and user names\<close>

definition registerAccount :: "int \<Rightarrow> bytes \<Rightarrow> chain \<Rightarrow> chain" where
  "registerAccount now wallet st =
     (let walletHex = toHex wallet in
      if jm_has (ch_accounts st) walletHex then st
      else st\<lparr>ch_accounts := jm_set walletHex \<lparr>am_createdAt = now, am_lastActiveAt = now\<rparr> (ch_accounts st)\<rparr>)"

definition recordActivity :: "int \<Rightarrow> bytes \<Rightarrow> chain \<Rightarrow> chain" where
  "recordActivity now wallet st =
     (let walletHex = toHex wallet in
      case jm_get (ch_accounts st) walletHex of
        None \<Rightarrow> st
      | Some m \<Rightarrow> st\<lparr>ch_accounts := jm_set walletHex (m\<lparr>am_lastActiveAt := now\<rparr>) (ch_accounts st)\<rparr>)"

definition normalize_username :: "string \<Rightarrow> string" where
  "normalize_username u = js_trim (js_lower u)"

definition appendHistory :: "string \<Rightarrow> username_record \<Rightarrow> chain \<Rightarrow> chain" where
  "appendHistory u r st =
     st\<lparr>ch_history := jm_set u (jm_get_or (ch_history st) u [] @ [r]) (ch_history st)\<rparr>"

text \<open>The four writes at the end of \<open>registerUsername\<close>.\<close>

definition bindUsername :: "int \<Rightarrow> string \<Rightarrow> bytes \<Rightarrow> bytes \<Rightarrow> chain \<Rightarrow> chain \<times> username_record" where
  "bindUsername now normalized wallet identityId st =
     (let record = \<lparr>un_username = normalized, un_ownerWallet = wallet, un_identityId = identityId,
            un_registeredAt = now\<rparr>;
          st1 = st\<lparr>ch_usernames := jm_set normalized record (ch_usernames st),
                  ch_walletToUsername := jm_set (toHex wallet) normalized (ch_walletToUsername st),
                  ch_identityRoots := jm_set (toHex identityId) wallet (ch_identityRoots st)\<rparr>
      in (appendHistory normalized record st1, record))"

definition releaseUsername :: "string \<Rightarrow> string \<Rightarrow> chain \<Rightarrow> chain" where
  "releaseUsername normalized ownerHex st =
     st\<lparr>ch_usernames := jm_del normalized (ch_usernames st),
        ch_walletToUsername := jm_del ownerHex (ch_walletToUsername st)\<rparr>"

definition registerUsername ::
  "int \<Rightarrow> string \<Rightarrow> bytes \<Rightarrow> bytes \<Rightarrow> chain \<Rightarrow> chain \<times> (chain_error + username_record)" where
  "registerUsername now username wallet identityId st =
     (let walletHex = toHex wallet; normalized = normalize_username username in
      case jm_get (ch_accounts st) walletHex of
        None \<Rightarrow> (st, Inl AccountNotRegistered)
      | Some meta \<Rightarrow>
          let accountAge = now - am_createdAt meta in
          if accountAge < MIN_ACCOUNT_AGE_MS
          then (st, Inl (AccountTooNew ((MIN_ACCOUNT_AGE_MS - accountAge + DAY_MS - 1) div DAY_MS)))
          else if jm_has (ch_walletToUsername st) walletHex then (st, Inl WalletOwnsUsername)
          else if (case jm_get (ch_identityRoots st) (toHex identityId) of
                     None \<Rightarrow> False | Some root \<Rightarrow> root \<noteq> wallet)
          then (st, Inl IdentityRootBound)
          else case jm_get (ch_usernames st) normalized of
            None \<Rightarrow> (let (st', r) = bindUsername now normalized wallet identityId st in (st', Inr r))
          | Some existing \<Rightarrow>
              let ownerHex = toHex (un_ownerWallet existing) in
              (case jm_get (ch_accounts st) ownerHex of
                 None \<Rightarrow> (st, Inl UsernameTaken)
               | Some ownerMeta \<Rightarrow>
                   if now - am_lastActiveAt ownerMeta \<ge> INACTIVITY_RELEASE_MS
                   then (let (st', r) = bindUsername now normalized wallet identityId
                                          (releaseUsername normalized ownerHex st)
                         in (st', Inr r))
                   else (st, Inl UsernameTaken)))"

definition resolveUsername :: "string \<Rightarrow> chain \<Rightarrow> username_record option" where
  "resolveUsername username st = jm_get (ch_usernames st) (normalize_username username)"

definition transferUsername :: "chain \<Rightarrow> chain \<times> (chain_error + username_record)" where
  "transferUsername st = (st, Inl TransferDisabled)"

definition getUsernameHistory :: "string \<Rightarrow> chain \<Rightarrow> username_record list" where
  "getUsernameHistory username st = jm_get_or (ch_history st) (normalize_username username) []"

section \<open>Identities\<close>

definition getIdentityRoot :: "bytes \<Rightarrow> chain \<Rightarrow> bytes option" where
  "getIdentityRoot identityId st = jm_get (ch_identityRoots st) (toHex identityId)"

definition getIdentity :: "bytes \<Rightarrow> chain \<Rightarrow> identity_record option" where
  "getIdentity identityId st =
     (case jm_get (ch_identityRoots st) (toHex identityId) of
        None \<Rightarrow> None
      | Some wallet \<Rightarrow>
          let walletHex = toHex wallet in
          Some \<lparr>ir_identityId = identityId, ir_wallet = wallet,
            ir_createdAt = (case jm_get (ch_accounts st) walletHex of None \<Rightarrow> 0 | Some m \<Rightarrow> am_createdAt m),
            ir_username = jm_get (ch_walletToUsername st) walletHex\<rparr>)"

definition registerIdentity ::
  "crypto \<Rightarrow> int \<Rightarrow> bytes \<Rightarrow> bytes \<Rightarrow> bytes \<Rightarrow> chain \<Rightarrow> chain \<times> (chain_error + identity_record)" where
  "registerIdentity c now wallet identityId proof st =
     (if length wallet \<noteq> 32 \<or> length identityId \<noteq> 32 \<or> length proof \<noteq> 64
      then (st, Inl InvalidIdentityRegistration)
      else if identityId \<noteq> identityIdFromWallet c wallet then (st, Inl IdentityIdMismatch)
      else case verifyIdentityProof c wallet proof of
        None \<Rightarrow> (st, Inl CryptoThrows)
      | Some False \<Rightarrow> (st, Inl InvalidIdentityProof)
      | Some True \<Rightarrow>
          let identityHex = toHex identityId in
          (case jm_get (ch_identityRoots st) identityHex of
             Some root \<Rightarrow>
               if root \<noteq> wallet then (st, Inl IdentityRootBound)
               else (st, Inr (the (getIdentity identityId st)))
           | None \<Rightarrow>
               let st1 = registerAccount now wallet st;
                   st2 = st1\<lparr>ch_identityRoots := jm_set identityHex wallet (ch_identityRoots st1)\<rparr>
               in (st2, Inr (the (getIdentity identityId st2)))))"

section \<open>Device certificates\<close>

definition storeDevice :: "device_certificate \<Rightarrow> device_authorization \<Rightarrow> chain \<Rightarrow> chain" where
  "storeDevice cert authorization st =
     (let key = deviceCertificateKey (dc_accountId cert) (dc_deviceId cert) in
      st\<lparr>ch_deviceCertificates := jm_set key cert (ch_deviceCertificates st),
         ch_deviceAuthorizations := jm_set key authorization (ch_deviceAuthorizations st)\<rparr>)"

definition registerDeviceCertificate ::
  "crypto \<Rightarrow> int \<Rightarrow> bytes \<Rightarrow> device_certificate \<Rightarrow> chain \<Rightarrow> chain \<times> (chain_error + device_certificate)" where
  "registerDeviceCertificate c now wallet cert st =
     (if length wallet \<noteq> 32 \<or> length (dc_accountId cert) \<noteq> 32 \<or> length (dc_deviceId cert) \<noteq> 32
         \<or> length (dc_signingKey cert) \<noteq> 32 \<or> length (dc_encryptionKey cert) \<noteq> 32
         \<or> length (dc_rootSignature cert) \<noteq> 64
         \<or> dc_expiresAt cert \<le> dc_issuedAt cert \<or> dc_expiresAt cert \<le> now
      then (st, Inl InvalidDeviceCertificate)
      else let identityHex = toHex (dc_accountId cert) in
        if jm_get (ch_identityRoots st) identityHex \<noteq> Some wallet then (st, Inl NotIdentityRoot)
        else case verifyDeviceCert c cert wallet of
          None \<Rightarrow> (st, Inl CryptoThrows)
        | Some False \<Rightarrow> (st, Inl InvalidCertificateSignature)
        | Some True \<Rightarrow>
            if isRevokedKey st identityHex KDevice (toHex (dc_deviceId cert)) then (st, Inl DeviceIsRevoked)
            else if \<not> assertNoConflictingDevice now st cert \<lparr>da_kind = ARoot, da_credentialId = None\<rparr>
            then (st, Inl DeviceConflict)
            else (storeDevice cert \<lparr>da_kind = ARoot, da_credentialId = None\<rparr> st, Inr cert))"

definition resolveDeviceCertificate :: "int \<Rightarrow> bytes \<Rightarrow> bytes \<Rightarrow> chain \<Rightarrow> device_certificate option" where
  "resolveDeviceCertificate now identityId deviceId st =
     (case jm_get (ch_deviceCertificates st) (deviceCertificateKey identityId deviceId) of
        None \<Rightarrow> None
      | Some cert \<Rightarrow>
          if dc_issuedAt cert > now \<or> now \<ge> dc_expiresAt cert then None
          else if isCertificateRevoked st identityId deviceId then None
          else Some cert)"

definition getDeviceAuthorization :: "bytes \<Rightarrow> bytes \<Rightarrow> chain \<Rightarrow> device_authorization option" where
  "getDeviceAuthorization identityId deviceId st =
     jm_get (ch_deviceAuthorizations st) (deviceCertificateKey identityId deviceId)"

section \<open>Passkeys\<close>

definition registerPasskeyCredential ::
  "crypto \<Rightarrow> bytes \<Rightarrow> bytes \<Rightarrow> passkey_credential \<Rightarrow> bytes \<Rightarrow> chain \<Rightarrow> chain \<times> (chain_error + passkey_credential)" where
  "registerPasskeyCredential c wallet identityId credential rootSignature st =
     (let identityHex = toHex identityId in
      if jm_get (ch_identityRoots st) identityHex \<noteq> Some wallet then (st, Inl NotIdentityRoot)
      else if pk_credentialId credential = [] \<or> pk_publicKey credential = []
         \<or> \<not> safe_int (pk_counter credential) \<or> pk_counter credential < 0
         \<or> pk_rpId credential = [] \<or> pk_origin credential = [] \<or> length rootSignature \<noteq> 64
      then (st, Inl InvalidPasskeyAuthorization)
      else case verifyPasskeyCredentialAuthorization c wallet identityId credential rootSignature of
        None \<Rightarrow> (st, Inl CryptoThrows)
      | Some False \<Rightarrow> (st, Inl InvalidPasskeyAuthorization)
      | Some True \<Rightarrow>
          let credentials = jm_get_or (ch_passkeys st) identityHex [] in
          if list_ex (\<lambda>item. pk_credentialId item = pk_credentialId credential) credentials
          then (st, Inl PasskeyAlreadyRegistered)
          else (st\<lparr>ch_passkeys := jm_set identityHex (credentials @ [credential]) (ch_passkeys st)\<rparr>,
                Inr credential))"

definition livePasskeys :: "chain \<Rightarrow> string \<Rightarrow> passkey_credential list" where
  "livePasskeys st identityHex =
     filter (\<lambda>item. \<not> isRevokedKey st identityHex KPasskey (pk_credentialId item))
       (jm_get_or (ch_passkeys st) identityHex [])"

definition hasLivePasskey :: "bytes \<Rightarrow> chain \<Rightarrow> bool" where
  "hasLivePasskey identityId st =
     list_ex (\<lambda>item. \<not> isRevokedKey st (toHex identityId) KPasskey (pk_credentialId item))
       (jm_get_or (ch_passkeys st) (toHex identityId) [])"

definition starts_with :: "string \<Rightarrow> string \<Rightarrow> bool" where
  "starts_with p s = (take (length p) s = p)"

definition prunePendingPasskeys :: "int \<Rightarrow> string \<Rightarrow> chain \<Rightarrow> chain \<times> nat" where
  "prunePendingPasskeys now identityHex st =
     (let kept = filter (\<lambda>(key, pending). \<not> pp_expiresAt pending \<le> now) (ch_pending st) in
      (st\<lparr>ch_pending := kept\<rparr>,
       length (filter (\<lambda>(key, pending). starts_with (identityHex @ '':'') key) kept)))"

definition beginPasskeyDeviceCertificateAuthorization ::
  "int \<Rightarrow> bytes \<Rightarrow> bytes \<Rightarrow> device_certificate \<Rightarrow> chain \<Rightarrow> chain \<times> (chain_error + string \<times> int)" where
  "beginPasskeyDeviceCertificateAuthorization now random identityId cert st =
     (let identityHex = toHex identityId in
      if \<not> jm_has (ch_identityRoots st) identityHex \<or> \<not> isDeviceCertificateShapeValid now cert identityId
      then (st, Inl InvalidDeviceCertificate)
      else if length (livePasskeys st identityHex) = 0 then (st, Inl NoPasskeyRegistered)
      else if isRevokedKey st identityHex KDevice (toHex (dc_deviceId cert)) then (st, Inl DeviceIsRevoked)
      else let pkey = pendingKey identityHex (dc_deviceId cert);
               (st1, pendingCount) = prunePendingPasskeys now identityHex st in
        if pendingCount \<ge> MAX_PENDING_PASSKEYS_PER_IDENTITY \<and> \<not> jm_has (ch_pending st1) pkey
        then (st1, Inl TooManyPendingPasskeys)
        else let authorization = \<lparr>pp_challenge = toBase64Url random,
                   pp_certificate = persistedDeviceCertificate cert, pp_expiresAt = now + 5 * 60000\<rparr>
             in (st1\<lparr>ch_pending := jm_set pkey authorization (ch_pending st1)\<rparr>,
                 Inr (pp_challenge authorization, pp_expiresAt authorization)))"

text \<open>
  \<open>verifyAuthenticationResponse\<close> of \<open>@simplewebauthn/server\<close> is a parameter: given
  the assertion, the expected challenge, origin and relying party and the stored
  credential it throws, rejects, or accepts with a new signature counter. It is awaited,
  so the operation has two synchronous parts: everything before the call and everything
  after it, between which other operations may run.
\<close>

datatype webauthn_result = WThrows | WRejected | WVerified int

type_synonym webauthn = "passkey_assertion \<Rightarrow> string \<Rightarrow> string \<Rightarrow> string \<Rightarrow> passkey_credential \<Rightarrow> webauthn_result"

definition passkeyAuthorizationCheck ::
  "int \<Rightarrow> bytes \<Rightarrow> device_certificate \<Rightarrow> passkey_assertion \<Rightarrow> string option \<Rightarrow> chain
    \<Rightarrow> chain_error + passkey_credential \<times> string" where
  "passkeyAuthorizationCheck now identityId cert assertion expectedChallenge st =
     (let identityHex = toHex identityId;
          pending = jm_get (ch_pending st) (pendingKey identityHex (dc_deviceId cert));
          refused = (case expectedChallenge of
              None \<Rightarrow> (case pending of
                 None \<Rightarrow> True
               | Some p \<Rightarrow> pp_expiresAt p < now \<or> \<not> isDeviceCertificateShapeValid now cert identityId
                    \<or> \<not> sameDeviceCertificate (deviceCertificate (pp_certificate p)) cert)
            | Some ch \<Rightarrow> length ch = 0 \<or> \<not> isDeviceCertificateShapeValid now cert identityId)
      in if refused then Inl PasskeyAuthorizationMissing
         else case List.find (\<lambda>item. pk_credentialId item = pa_id assertion)
                     (jm_get_or (ch_passkeys st) identityHex []) of
           None \<Rightarrow> Inl PasskeyNotAuthorized
         | Some credential \<Rightarrow>
             if isRevokedKey st identityHex KPasskey (pk_credentialId credential)
             then Inl PasskeyNotAuthorized
             else Inr (credential, (case expectedChallenge of
                    Some ch \<Rightarrow> ch
                  | None \<Rightarrow> (case pending of Some p \<Rightarrow> pp_challenge p | None \<Rightarrow> []))))"

text \<open>\<open>credential.counter = newCounter\<close> writes into the stored object.\<close>

fun set_counter :: "string \<Rightarrow> int \<Rightarrow> passkey_credential list \<Rightarrow> passkey_credential list" where
  "set_counter cid n [] = []"
| "set_counter cid n (p # ps) =
     (if pk_credentialId p = cid then p\<lparr>pk_counter := n\<rparr> # ps else p # set_counter cid n ps)"

definition passkeyAuthorizationCommit ::
  "int \<Rightarrow> bytes \<Rightarrow> device_certificate \<Rightarrow> string \<Rightarrow> int \<Rightarrow> chain \<Rightarrow> chain \<times> (chain_error + device_certificate)" where
  "passkeyAuthorizationCommit now identityId cert credentialId newCounter st =
     (let identityHex = toHex identityId;
          st1 = st\<lparr>ch_passkeys := jm_set identityHex
                    (set_counter credentialId newCounter (jm_get_or (ch_passkeys st) identityHex []))
                    (ch_passkeys st)\<rparr>;
          authorization = \<lparr>da_kind = APasskey, da_credentialId = Some credentialId\<rparr>
      in if \<not> assertNoConflictingDevice now st1 cert authorization then (st1, Inl DeviceConflict)
         else let st2 = storeDevice cert authorization st1 in
           (st2\<lparr>ch_pending := jm_del (pendingKey identityHex (dc_deviceId cert)) (ch_pending st2)\<rparr>, Inr cert))"

definition authorizeDeviceCertificateWithPasskey ::
  "webauthn \<Rightarrow> int \<Rightarrow> bytes \<Rightarrow> device_certificate \<Rightarrow> passkey_assertion \<Rightarrow> string option \<Rightarrow> chain
    \<Rightarrow> chain \<times> (chain_error + device_certificate)" where
  "authorizeDeviceCertificateWithPasskey wa now identityId cert assertion expectedChallenge st =
     (case passkeyAuthorizationCheck now identityId cert assertion expectedChallenge st of
        Inl e \<Rightarrow> (st, Inl e)
      | Inr (credential, challenge) \<Rightarrow>
          (case wa assertion challenge (pk_origin credential) (pk_rpId credential) credential of
             WThrows \<Rightarrow> (st, Inl CryptoThrows)
           | WRejected \<Rightarrow> (st, Inl InvalidPasskeyAssertion)
           | WVerified n \<Rightarrow> passkeyAuthorizationCommit now identityId cert (pk_credentialId credential) n st))"

section \<open>SSH keys\<close>

definition liveSshKeys :: "chain \<Rightarrow> string \<Rightarrow> ssh_commitment list" where
  "liveSshKeys st identityHex =
     filter (\<lambda>item. \<not> isRevokedKey st identityHex KSsh (sk_fingerprint item))
       (jm_get_or (ch_sshKeys st) identityHex [])"

definition registerSshKey ::
  "crypto \<Rightarrow> bytes \<Rightarrow> bytes \<Rightarrow> ssh_commitment \<Rightarrow> bytes \<Rightarrow> chain \<Rightarrow> chain \<times> (chain_error + ssh_commitment)" where
  "registerSshKey c wallet identityId commitment rootSignature st =
     (let identityHex = toHex identityId in
      if jm_get (ch_identityRoots st) identityHex \<noteq> Some wallet then (st, Inl NotIdentityRoot)
      else if sk_algorithm commitment \<noteq> ''ssh-ed25519'' \<or> length (sk_publicKey commitment) \<noteq> 32
         \<or> length rootSignature \<noteq> 64
         \<or> sk_fingerprint commitment \<noteq> sshFingerprint c (sk_publicKey commitment)
      then (st, Inl InvalidSshAuthorization)
      else case verifySshCommitment c wallet identityId commitment rootSignature of
        None \<Rightarrow> (st, Inl CryptoThrows)
      | Some False \<Rightarrow> (st, Inl InvalidSshAuthorization)
      | Some True \<Rightarrow>
          let keys = jm_get_or (ch_sshKeys st) identityHex [] in
          if list_ex (\<lambda>item. sk_fingerprint item = sk_fingerprint commitment) keys
          then (st, Inl SshKeyAlreadyRegistered)
          else if isRevokedKey st identityHex KSsh (sk_fingerprint commitment) then (st, Inl SshKeyRevoked)
          else if length (liveSshKeys st identityHex) \<ge> MAX_SSH_KEYS_PER_IDENTITY then (st, Inl TooManySshKeys)
          else (st\<lparr>ch_sshKeys := jm_set identityHex (keys @ [commitment]) (ch_sshKeys st)\<rparr>, Inr commitment))"

definition resolveSshKey :: "bytes \<Rightarrow> string \<Rightarrow> chain \<Rightarrow> ssh_commitment option" where
  "resolveSshKey identityId fingerprint st =
     (let identityHex = toHex identityId in
      if isRevokedKey st identityHex KSsh fingerprint then None
      else List.find (\<lambda>item. sk_fingerprint item = fingerprint) (jm_get_or (ch_sshKeys st) identityHex []))"

definition authorizeDeviceCertificateWithSshKey ::
  "int \<Rightarrow> bytes \<Rightarrow> device_certificate \<Rightarrow> string \<Rightarrow> chain \<Rightarrow> chain \<times> (chain_error + device_certificate)" where
  "authorizeDeviceCertificateWithSshKey now identityId cert fingerprint st =
     (let identityHex = toHex identityId in
      if \<not> jm_has (ch_identityRoots st) identityHex \<or> \<not> isDeviceCertificateShapeValid now cert identityId
      then (st, Inl InvalidDeviceCertificate)
      else if resolveSshKey identityId fingerprint st = None then (st, Inl SshKeyNotAuthorized)
      else if isRevokedKey st identityHex KDevice (toHex (dc_deviceId cert)) then (st, Inl DeviceIsRevoked)
      else let authorization = \<lparr>da_kind = ASsh, da_credentialId = Some fingerprint\<rparr> in
        if \<not> assertNoConflictingDevice now st cert authorization then (st, Inl DeviceConflict)
        else (storeDevice cert authorization st, Inr cert))"

section \<open>Revocation\<close>

definition revokeCredential ::
  "crypto \<Rightarrow> int \<Rightarrow> bytes \<Rightarrow> revocation \<Rightarrow> chain \<Rightarrow> chain \<times> (chain_error + unit)" where
  "revokeCredential c now wallet r st =
     (let identityHex = toHex (rv_accountId r) in
      if jm_get (ch_identityRoots st) identityHex \<noteq> Some wallet then (st, Inl NotIdentityRoot)
      else if \<not> isCredentialIdWellFormed (rv_kind r) (rv_credentialId r)
         \<or> \<not> safe_int (rv_sequence r) \<or> rv_sequence r < 1
         \<or> rv_sequence r > now + MAX_REVOCATION_SEQUENCE_AHEAD_MS
         \<or> length (rv_rootSignature r) \<noteq> 64
      then (st, Inl InvalidRevocation)
      else case verifyRevocation c wallet r of
        None \<Rightarrow> (st, Inl CryptoThrows)
      | Some False \<Rightarrow> (st, Inl InvalidRevocation)
      | Some True \<Rightarrow>
          if rv_sequence r \<le> jm_get_or (ch_revocationSequences st) identityHex 0
          then (st, Inl RevocationStale)
          else (st\<lparr>ch_revocationSequences := jm_set identityHex (rv_sequence r) (ch_revocationSequences st),
                   ch_revocations := jm_set (revocationKey identityHex (rv_kind r) (rv_credentialId r))
                     (rv_sequence r) (ch_revocations st)\<rparr>, Inr ()))"

definition isRevoked :: "bytes \<Rightarrow> credential_kind \<Rightarrow> string \<Rightarrow> chain \<Rightarrow> bool" where
  "isRevoked identityId kind credentialId st = isRevokedKey st (toHex identityId) kind credentialId"

section \<open>Validators\<close>

definition joinValidatorSet ::
  "int \<Rightarrow> bytes \<Rightarrow> int \<Rightarrow> chain \<Rightarrow> chain \<times> (chain_error + validator_record)" where
  "joinValidatorSet now wallet bondedStake st =
     (let hex = toHex wallet in
      if jm_has (ch_validators st) hex then (st, Inl AlreadyValidator)
      else if bondedStake < MIN_BOND then (st, Inl InsufficientStake)
      else if jm_size (ch_validators st) + 1 > MAX_VALIDATORS then (st, Inl ValidatorSetFull)
      else let rec = \<lparr>va_wallet = wallet, va_bondedStake = bondedStake,
                 va_effectivePower = min bondedStake VALIDATOR_POWER_CAP, va_joinedAt = now\<rparr>
           in (st\<lparr>ch_validators := jm_set hex rec (ch_validators st)\<rparr>, Inr rec))"

definition leaveValidatorSet :: "bytes \<Rightarrow> chain \<Rightarrow> chain \<times> (chain_error + unit)" where
  "leaveValidatorSet wallet st =
     (let hex = toHex wallet in
      if \<not> jm_has (ch_validators st) hex then (st, Inl NotAValidator)
      else let after = jm_size (ch_validators st) - 1;
               bootstrapping = jm_size (ch_validators st) < MIN_VALIDATORS in
        if \<not> bootstrapping \<and> after < MIN_VALIDATORS then (st, Inl BelowMinValidators)
        else (st\<lparr>ch_validators := jm_del hex (ch_validators st)\<rparr>, Inr ()))"

definition listValidators :: "chain \<Rightarrow> validator_record list" where
  "listValidators st = sort_key (\<lambda>v. - va_effectivePower v) (map snd (ch_validators st))"

end
