(* ===== verification/Gateway.thy ===== *)
theory Gateway
  imports Gateway_Wire Dev_Chain_Inv
begin

unbundle bit_operations_syntax

text \<open>
  The HTTP and WebSocket gateway, \<open>packages/gateway/src/gateway.ts\<close>: its state and every
  handler, from request to response. A handler is a function of the state that returns the
  new state and either the failure it throws or its result; state changes made before a
  throw stay, as in the code. Parameters: the primitives \<open>c\<close>, the WebAuthn verifier, the
  configuration, the Unicode tables, the clock value of the call, and the random bytes drawn.
  Chain operations are those of \<open>Dev_Chain\<close>, which \<open>main.ts\<close> passes to the gateway.
\<close>

section \<open>State\<close>

definition CHALLENGE_TTL_MS :: int where "CHALLENGE_TTL_MS = 120000"
definition EVENT_SKEW_MS :: int where "EVENT_SKEW_MS = 5 * 60000"
definition CERT_SKEW_MS :: int where "CERT_SKEW_MS = 5 * 60000"
definition MAX_BODY_JSON_BYTES :: nat where "MAX_BODY_JSON_BYTES = 64 * 1024"
definition MAX_PENDING_CHALLENGES :: nat where "MAX_PENDING_CHALLENGES = 10000"
definition CAPABILITY_POST :: "32 word" where "CAPABILITY_POST = 1"
definition HISTORY_LIMIT_MAX :: int where "HISTORY_LIMIT_MAX = 200"

record gateway_config =
  cf_audience :: string
  cf_ownerIdentity :: "string option"
  cf_rpId :: "string option"
  cf_origins :: "string list"
  cf_publicRetentionMs :: int
  cf_sessionMaxMs :: int
  cf_trustProxy :: bool

record pending_challenge =
  pch_id :: string
  pch_method :: signin_method
  pch_nonce :: string
  pch_expiresAt :: int
  pch_certificate :: device_certificate
  pch_passkeyChallenge :: "string option"

record public_message =
  pm_id :: string
  pm_channel :: string
  pm_author :: string
  pm_username :: "string option"
  pm_body :: string
  pm_at :: int
  pm_seq :: int

text \<open>A connected socket: its \<open>SocketData\<close>, and whether the server has closed it.\<close>

record socket =
  ws_id :: nat
  ws_tokenHash :: "string option"
  ws_channels :: "channel_id list"
  ws_ready :: bool
  ws_closed :: bool

datatype frame = FMessage channel_id public_message | FReady bool | FError string | FRevoked

text \<open>The four request limiters, by field name, with their parameters.\<close>

datatype limiter = identityCreateLimit | identityCreateGlobal | challengeLimit | mutationLimit

fun limiter_params :: "limiter \<Rightarrow> nat \<times> int" where
  "limiter_params identityCreateLimit = (5, 60 * 60000)"
| "limiter_params identityCreateGlobal = (120, 60 * 60000)"
| "limiter_params challengeLimit = (30, 60000)"
| "limiter_params mutationLimit = (30, 60000)"

record gateway =
  gw_chain :: chain
  gw_store :: store
  gw_challenges :: "(string, pending_challenge) jmap"
  gw_sockets :: "socket list"
  gw_postLimits :: "channel_id \<Rightarrow> sliding_window"
  gw_duplicateGuards :: "channel_id \<Rightarrow> duplicate_guard"
  gw_limits :: "limiter \<Rightarrow> sliding_window"
  gw_sent :: "(nat \<times> frame) list"

definition new_gateway :: "chain \<Rightarrow> store \<Rightarrow> gateway" where
  "new_gateway ch db = \<lparr>gw_chain = ch, gw_store = db, gw_challenges = [], gw_sockets = [],
     gw_postLimits = (\<lambda>_. []), gw_duplicateGuards = (\<lambda>_. []), gw_limits = (\<lambda>_. []), gw_sent = []\<rparr>"

section \<open>Handlers as state transformers\<close>

type_synonym 'a handler = "gateway \<Rightarrow> gateway \<times> (failure + 'a)"

definition gret :: "'a \<Rightarrow> 'a handler" where "gret x g = (g, Inr x)"
definition glift :: "failure + 'a \<Rightarrow> 'a handler" where "glift r g = (g, r)"
definition gget :: "(gateway \<Rightarrow> 'a) \<Rightarrow> 'a handler" where "gget f g = (g, Inr (f g))"
definition gupd :: "(gateway \<Rightarrow> gateway) \<Rightarrow> unit handler" where "gupd f g = (f g, Inr ())"

definition gbind :: "'a handler \<Rightarrow> ('a \<Rightarrow> 'b handler) \<Rightarrow> 'b handler" where
  "gbind m f g = (case m g of (g', Inl e) \<Rightarrow> (g', Inl e) | (g', Inr x) \<Rightarrow> f x g')"

definition gensure :: "bool \<Rightarrow> failure \<Rightarrow> unit handler" where
  "gensure b e = glift (ensure b e)"

text \<open>A boolean check that may throw inside a library.\<close>

definition gverify :: "bool option \<Rightarrow> failure \<Rightarrow> unit handler" where
  "gverify r e = glift (case r of None \<Rightarrow> Inl Internal | Some b \<Rightarrow> ensure b e)"

definition gsome :: "'a option \<Rightarrow> failure \<Rightarrow> 'a handler" where
  "gsome x e = glift (case x of None \<Rightarrow> Inl e | Some v \<Rightarrow> Inr v)"

text \<open>A chain operation; whatever it throws becomes the given \<open>HttpError\<close>.\<close>

definition gchain :: "(chain \<Rightarrow> chain \<times> (chain_error + 'a)) \<Rightarrow> failure \<Rightarrow> 'a handler" where
  "gchain op e g = (let (ch, r) = op (gw_chain g) in
     (g\<lparr>gw_chain := ch\<rparr>, case r of Inl _ \<Rightarrow> Inl e | Inr x \<Rightarrow> Inr x))"

fun gforeach :: "('a \<Rightarrow> unit handler) \<Rightarrow> 'a list \<Rightarrow> unit handler" where
  "gforeach f [] = gret ()"
| "gforeach f (x # xs) = gbind (f x) (\<lambda>_. gforeach f xs)"

section \<open>Requests\<close>

text \<open>
  What a handler reads of a request. \<open>rq_json\<close> is the result of \<open>JSON.parse\<close> on the
  body, \<open>None\<close> if it throws; \<open>rq_limit\<close> and \<open>rq_before\<close> are
  \<open>Number\<close> of the query parameters, if present.
\<close>

record request =
  rq_method :: string
  rq_path :: string
  rq_origin :: "string option"
  rq_upgrade :: "string option"
  rq_authorization :: "string option"
  rq_forwardedFor :: "string option"
  rq_address :: "string option"
  rq_contentLength :: int
  rq_textLength :: nat
  rq_json :: "jval option"
  rq_limit :: "jval option"
  rq_before :: "jval option"

definition request_body :: "request \<Rightarrow> failure + (string \<times> jval) list" where
  "request_body req =
     rbind (ensure (rq_contentLength req \<le> int MAX_BODY_JSON_BYTES) (HttpError 413 ''too_large'')) (\<lambda>_.
     rbind (ensure (rq_textLength req \<le> MAX_BODY_JSON_BYTES) (HttpError 413 ''too_large'')) (\<lambda>_.
       case rq_json req of
         None \<Rightarrow> Inl (HttpError 400 ''invalid'')
       | Some parsed \<Rightarrow> record_of (Some parsed)))"

definition limit_requests :: "limiter \<Rightarrow> string \<Rightarrow> int \<Rightarrow> unit handler" where
  "limit_requests l key now g =
     (let (n, ms) = limiter_params l; (hits, ok) = sw_allow n ms key now (gw_limits g l) in
      (g\<lparr>gw_limits := (gw_limits g)(l := hits)\<rparr>, ensure ok (HttpError 429 ''rate_limited'')))"

definition hashToken :: "crypto \<Rightarrow> string \<Rightarrow> string" where
  "hashToken c token = toHex (sha256 c (utf8 token))"

definition jopt :: "string option \<Rightarrow> jval" where
  "jopt x = (case x of None \<Rightarrow> JNull | Some s \<Rightarrow> JStr s)"

section \<open>Identities and credentials\<close>

definition createIdentity :: "crypto \<Rightarrow> int \<Rightarrow> request \<Rightarrow> string \<Rightarrow> (nat \<times> jval) handler" where
  "createIdentity c now req ip =
     gbind (glift (request_body req)) (\<lambda>input.
     gbind (glift (hexBytes (jfield input ''wallet'') 32)) (\<lambda>wallet.
     gbind (glift (base64UrlBytes (jfield input ''proof'') 64)) (\<lambda>proof.
     gbind (gverify (verifyIdentityProof c wallet proof) (HttpError 401 ''unauthenticated'')) (\<lambda>_.
     let identityId = identityIdFromWallet c wallet in
     gbind (gget (\<lambda>g. getIdentity identityId (gw_chain g))) (\<lambda>existing.
     gbind (if existing = None
            then gbind (limit_requests identityCreateLimit ip now) (\<lambda>_. limit_requests identityCreateGlobal ''global'' now)
            else gret ()) (\<lambda>_.
     gbind (gchain (registerIdentity c now wallet identityId proof) (HttpError 409 ''conflict'')) (\<lambda>created.
     gret (if existing = None then 201 else 200,
       JObj [(''identityId'', JStr (toHex (ir_identityId created))), (''createdAt'', JNum (ir_createdAt created)),
         (''existed'', JBool (existing \<noteq> None))]))))))))"

definition ownedIdentity :: "(string \<times> jval) list \<Rightarrow> (bytes \<times> bytes) handler" where
  "ownedIdentity input =
     gbind (glift (hexBytes (jfield input ''identityId'') 32)) (\<lambda>identityId.
     gbind (gget (\<lambda>g. getIdentity identityId (gw_chain g))) (\<lambda>identity.
     gbind (gsome identity (HttpError 404 ''not_found'')) (\<lambda>r.
     gret (identityId, ir_wallet r))))"

definition parse_ssh_key :: "string \<Rightarrow> failure \<Rightarrow> bytes handler" where
  "parse_ssh_key line e = glift (case parseSshPublicKey line of Inl _ \<Rightarrow> Inl e | Inr pk \<Rightarrow> Inr pk)"

text \<open>
  The signature argument of \<open>registerSshKey\<close> and \<open>registerPasskeyCredential\<close> is parsed
  inside the \<open>try\<close>, so a malformed one is reported as 403 too.
\<close>

definition root_signature :: "(string \<times> jval) list \<Rightarrow> bytes handler" where
  "root_signature input = glift (case base64UrlBytes (jfield input ''rootSignature'') 64 of
     Inl _ \<Rightarrow> Inl (HttpError 403 ''forbidden'') | Inr s \<Rightarrow> Inr s)"

definition registerSsh :: "crypto \<Rightarrow> int \<Rightarrow> request \<Rightarrow> string \<Rightarrow> (nat \<times> jval) handler" where
  "registerSsh c now req ip =
     gbind (limit_requests mutationLimit ip now) (\<lambda>_.
     gbind (glift (request_body req)) (\<lambda>input.
     gbind (ownedIdentity input) (\<lambda>(identityId, wallet).
     gbind (glift (stringField (jfield input ''publicKey''))) (\<lambda>line.
     gbind (gensure (length line \<le> 1024) WireError) (\<lambda>_.
     gbind (parse_ssh_key line (HttpError 400 ''invalid'')) (\<lambda>publicKey.
     let commitment = \<lparr>sk_algorithm = ''ssh-ed25519'', sk_publicKey = publicKey,
           sk_fingerprint = sshFingerprint c publicKey\<rparr> in
     gbind (root_signature input) (\<lambda>signature.
     gbind (gchain (registerSshKey c wallet identityId commitment signature) (HttpError 403 ''forbidden'')) (\<lambda>_.
     gret (201, JObj [(''fingerprint'', JStr (sk_fingerprint commitment)),
       (''publicKey'', JStr (formatSshPublicKey publicKey))])))))))))"

definition stringOrEmpty :: "jval option \<Rightarrow> string" where
  "stringOrEmpty v = (case v of Some (JStr s) \<Rightarrow> s | _ \<Rightarrow> [])"

definition registerPasskey :: "crypto \<Rightarrow> gateway_config \<Rightarrow> int \<Rightarrow> request \<Rightarrow> string \<Rightarrow> (nat \<times> jval) handler" where
  "registerPasskey c cf now req ip =
     gbind (limit_requests mutationLimit ip now) (\<lambda>_.
     gbind (gensure (cf_rpId cf \<noteq> None \<and> cf_origins cf \<noteq> []) (HttpError 503 ''unavailable'')) (\<lambda>_.
     gbind (glift (request_body req)) (\<lambda>input.
     gbind (ownedIdentity input) (\<lambda>(identityId, wallet).
     gbind (glift (record_of (jfield input ''credential''))) (\<lambda>raw.
     gbind (glift (stringField (jfield raw ''credentialId''))) (\<lambda>cid.
     gbind (gensure (length cid \<noteq> 0 \<and> length cid \<le> 1024) WireError) (\<lambda>_.
     gbind (glift (base64UrlBytes (jfield raw ''publicKey'') 1024)) (\<lambda>publicKey.
     gbind (glift (safeInteger (jfield raw ''counter''))) (\<lambda>counter.
     let credential = \<lparr>pk_credentialId = cid, pk_publicKey = publicKey, pk_counter = counter,
           pk_rpId = stringOrEmpty (jfield raw ''rpId''), pk_origin = stringOrEmpty (jfield raw ''origin'')\<rparr> in
     gbind (gensure (Some (pk_rpId credential) = cf_rpId cf \<and> pk_origin credential \<in> set (cf_origins cf))
              (HttpError 400 ''invalid'')) (\<lambda>_.
     gbind (root_signature input) (\<lambda>signature.
     gbind (gchain (registerPasskeyCredential c wallet identityId credential signature) (HttpError 403 ''forbidden'')) (\<lambda>_.
     gret (201, JObj [(''credentialId'', JStr cid)])))))))))))))"

section \<open>Sessions\<close>

definition socket_ended :: "string \<Rightarrow> socket \<Rightarrow> socket" where
  "socket_ended tokenHash ws =
     (if ws_tokenHash ws = Some tokenHash then ws\<lparr>ws_tokenHash := None, ws_closed := True\<rparr> else ws)"

text \<open>\<open>sendSocket\<close>: a frame on a closed socket goes nowhere, and never raises.\<close>

definition sendSocket :: "socket \<Rightarrow> frame \<Rightarrow> (nat \<times> frame) list" where
  "sendSocket ws payload = (if ws_closed ws then [] else [(ws_id ws, payload)])"

definition endSession :: "string \<Rightarrow> gateway \<Rightarrow> gateway" where
  "endSession tokenHash g =
     g\<lparr>gw_store := deleteSession tokenHash (gw_store g),
       gw_sockets := map (socket_ended tokenHash) (gw_sockets g),
       gw_sent := gw_sent g @ concat (map (\<lambda>ws. sendSocket ws FRevoked)
         (filter (\<lambda>ws. ws_tokenHash ws = Some tokenHash) (gw_sockets g)))\<rparr>"

definition sweepSessions :: "int \<Rightarrow> string \<Rightarrow> unit handler" where
  "sweepSessions now identityHex =
     gbind (glift (hexBytes (Some (JStr identityHex)) 32)) (\<lambda>identityId.
     gbind (gget (\<lambda>g. sessionsForIdentity identityHex (gw_store g))) (\<lambda>sessions.
     gforeach (\<lambda>session.
       gbind (glift (hexBytes (Some (JStr (ss_device session))) 32)) (\<lambda>device.
       gbind (gget (\<lambda>g. resolveDeviceCertificate now identityId device (gw_chain g))) (\<lambda>certificate.
       if certificate = None then gupd (endSession (ss_tokenHash session)) else gret ()))) sessions))"

definition revoke :: "crypto \<Rightarrow> int \<Rightarrow> request \<Rightarrow> string \<Rightarrow> (nat \<times> jval) handler" where
  "revoke c now req ip =
     gbind (limit_requests mutationLimit ip now) (\<lambda>_.
     gbind (glift (request_body req)) (\<lambda>input.
     gbind (glift (revocationFromJson (jfield input ''revocation''))) (\<lambda>revocation.
     gbind (gget (\<lambda>g. getIdentity (rv_accountId revocation) (gw_chain g))) (\<lambda>identity.
     gbind (gsome identity (HttpError 404 ''not_found'')) (\<lambda>r.
     gbind (gchain (revokeCredential c now (ir_wallet r) revocation) (HttpError 403 ''forbidden'')) (\<lambda>_.
     gbind (sweepSessions now (toHex (rv_accountId revocation))) (\<lambda>_.
     gret (200, JObj [(''ok'', JBool True)]))))))))"

definition checkCertificateWindow :: "gateway_config \<Rightarrow> device_certificate \<Rightarrow> int \<Rightarrow> failure + unit" where
  "checkCertificateWindow cf certificate now =
     (let lifetime = dc_expiresAt certificate - dc_issuedAt certificate in
      if dc_expiresAt certificate \<le> now \<or> dc_issuedAt certificate > now + CERT_SKEW_MS
         \<or> lifetime \<le> 0 \<or> lifetime > cf_sessionMaxMs cf
         \<or> (word_of_int (dc_capabilities certificate) AND NOT CAPABILITY_POST) \<noteq> (0 :: 32 word)
      then Inl (HttpError 400 ''invalid'') else Inr ())"

definition pruneChallenges :: "int \<Rightarrow> gateway \<Rightarrow> gateway" where
  "pruneChallenges now g =
     g\<lparr>gw_challenges := filter (\<lambda>(cid, challenge). \<not> pch_expiresAt challenge \<le> now) (gw_challenges g)\<rparr>"

definition method_of :: "jval option \<Rightarrow> signin_method option" where
  "method_of v = (if v = Some (JStr ''wallet'') then Some MWallet else if v = Some (JStr ''ssh'') then Some MSsh
     else if v = Some (JStr ''passkey'') then Some MPasskey else None)"

text \<open>\<open>rnd\<close> holds the three values of \<open>randomBytes\<close>: id (16), nonce (32), passkey challenge (32).\<close>

definition issueChallenge ::
  "gateway_config \<Rightarrow> int \<Rightarrow> bytes \<times> bytes \<times> bytes \<Rightarrow> request \<Rightarrow> string \<Rightarrow> (nat \<times> jval) handler" where
  "issueChallenge cf now rnd req ip =
     gbind (limit_requests challengeLimit ip now) (\<lambda>_.
     gbind (glift (request_body req)) (\<lambda>input.
     gbind (gsome (method_of (jfield input ''method'')) (HttpError 400 ''invalid'')) (\<lambda>method.
     gbind (gensure (method \<noteq> MPasskey \<or> cf_rpId cf \<noteq> None) (HttpError 503 ''unavailable'')) (\<lambda>_.
     gbind (glift (certificateFromJson (jfield input ''certificate''))) (\<lambda>certificate.
     gbind (glift (checkCertificateWindow cf certificate now)) (\<lambda>_.
     gbind (gget (\<lambda>g. getIdentity (dc_accountId certificate) (gw_chain g))) (\<lambda>identity.
     gbind (gsome identity (HttpError 404 ''not_found'')) (\<lambda>_.
     gbind (gget (\<lambda>g. isRevoked (dc_accountId certificate) KDevice (toHex (dc_deviceId certificate)) (gw_chain g))) (\<lambda>revoked.
     gbind (gensure (\<not> revoked) (HttpError 403 ''revoked'')) (\<lambda>_.
     gbind (gupd (\<lambda>g. if jm_size (gw_challenges g) \<ge> MAX_PENDING_CHALLENGES then pruneChallenges now g else g)) (\<lambda>_.
     gbind (gget (\<lambda>g. jm_size (gw_challenges g) \<ge> MAX_PENDING_CHALLENGES)) (\<lambda>full.
     gbind (gensure (\<not> full) (HttpError 503 ''unavailable'')) (\<lambda>_.
     gbind (gget (\<lambda>g. hasLivePasskey (dc_accountId certificate) (gw_chain g))) (\<lambda>live.
     gbind (gensure (method \<noteq> MPasskey \<or> live) (HttpError 403 ''forbidden'')) (\<lambda>_.
     let challenge = \<lparr>pch_id = toHex (fst rnd), pch_method = method, pch_nonce = toHex (fst (snd rnd)),
           pch_expiresAt = now + CHALLENGE_TTL_MS, pch_certificate = certificate,
           pch_passkeyChallenge = (if method = MPasskey then Some (toBase64Url (snd (snd rnd))) else None)\<rparr> in
     gbind (gupd (\<lambda>g. g\<lparr>gw_challenges := jm_set (pch_id challenge) challenge (gw_challenges g)\<rparr>)) (\<lambda>_.
     gret (200, JObj [(''challengeId'', JStr (pch_id challenge)), (''method'', JStr (method_name method)),
       (''nonce'', JStr (pch_nonce challenge)), (''expiresAt'', JNum (pch_expiresAt challenge)),
       (''audience'', JStr (cf_audience cf)), (''passkeyChallenge'', jopt (pch_passkeyChallenge challenge)),
       (''rpId'', if method = MPasskey then jopt (cf_rpId cf) else JNull),
       (''certificate'', certificateToJson certificate)])))))))))))))))))"

section \<open>Signing in\<close>

definition textField :: "jval option \<Rightarrow> failure + string" where
  "textField v = rbind (stringField v) (\<lambda>s. rbind (ensure (length s \<noteq> 0 \<and> length s \<le> 8192) WireError) (\<lambda>_. Inr s))"

definition passkeyAssertionFromJson :: "(string \<times> jval) list \<Rightarrow> failure + passkey_assertion" where
  "passkeyAssertionFromJson input =
     rbind (record_of (jfield input ''response'')) (\<lambda>response.
     rbind (ensure (jfield input ''type'' = Some (JStr ''public-key'')) WireError) (\<lambda>_.
     rbind (textField (jfield input ''id'')) (\<lambda>pid.
     rbind (textField (jfield input ''rawId'')) (\<lambda>rawId.
     rbind (textField (jfield response ''clientDataJSON'')) (\<lambda>clientDataJSON.
     rbind (textField (jfield response ''authenticatorData'')) (\<lambda>authenticatorData.
     rbind (textField (jfield response ''signature'')) (\<lambda>signature.
       Inr \<lparr>pa_id = pid, pa_rawId = rawId, pa_clientDataJSON = clientDataJSON,
         pa_authenticatorData = authenticatorData, pa_signature = signature,
         pa_userHandle = (case jfield response ''userHandle'' of Some (JStr u) \<Rightarrow> Some u | _ \<Rightarrow> None)\<rparr>)))))))"

text \<open>The sign-in preimage a challenge asks the device (and the SSH key) to sign.\<close>

definition challenge_fields :: "gateway_config \<Rightarrow> pending_challenge \<Rightarrow> signin_fields" where
  "challenge_fields cf challenge = \<lparr>si_audience = cf_audience cf, si_method = pch_method challenge,
     si_challengeId = pch_id challenge, si_nonce = pch_nonce challenge,
     si_expiresAt = pch_expiresAt challenge, si_certificate = pch_certificate challenge\<rparr>"

text \<open>The three branches of \<open>verifyChallenge\<close> that enrol the device on the chain.\<close>

definition enrolWallet :: "crypto \<Rightarrow> int \<Rightarrow> bytes \<Rightarrow> device_certificate \<Rightarrow> unit handler" where
  "enrolWallet c now wallet certificate =
     gbind (gchain (registerDeviceCertificate c now wallet certificate) (HttpError 401 ''unauthenticated'')) (\<lambda>_. gret ())"

definition enrolSsh ::
  "crypto \<Rightarrow> int \<Rightarrow> (string \<times> jval) list \<Rightarrow> bytes \<Rightarrow> device_certificate \<Rightarrow> unit handler" where
  "enrolSsh c now input preimage certificate =
     gbind (glift (record_of (jfield input ''ssh''))) (\<lambda>ssh.
     gbind (glift (stringField (jfield ssh ''publicKey''))) (\<lambda>line.
     gbind (glift (stringField (jfield ssh ''signature''))) (\<lambda>signature.
     gbind (gensure (length line \<le> 1024 \<and> length signature \<le> 4096) WireError) (\<lambda>_.
     gbind (parse_ssh_key line (HttpError 401 ''unauthenticated'')) (\<lambda>publicKey.
     let fingerprint = sshFingerprint c publicKey in
     gbind (gget (\<lambda>g. isRevoked (dc_accountId certificate) KSsh fingerprint (gw_chain g))) (\<lambda>revoked.
     gbind (gensure (\<not> revoked) (HttpError 403 ''revoked'')) (\<lambda>_.
     gbind (gget (\<lambda>g. resolveSshKey (dc_accountId certificate) fingerprint (gw_chain g))) (\<lambda>known.
     gbind (gensure (known \<noteq> None) (HttpError 401 ''unauthenticated'')) (\<lambda>_.
     gbind (gensure (verifySshSignature c signature preimage publicKey SSH_SIGNATURE_NAMESPACE)
              (HttpError 401 ''unauthenticated'')) (\<lambda>_.
     gbind (gchain (authorizeDeviceCertificateWithSshKey now (dc_accountId certificate) certificate fingerprint)
              (HttpError 401 ''unauthenticated'')) (\<lambda>_. gret ())))))))))))"

definition enrolPasskey ::
  "webauthn \<Rightarrow> int \<Rightarrow> (string \<times> jval) list \<Rightarrow> string option \<Rightarrow> device_certificate \<Rightarrow> unit handler" where
  "enrolPasskey wa now input passkeyChallenge certificate =
     gbind (glift (record_of (jfield input ''passkey''))) (\<lambda>fields.
     gbind (glift (passkeyAssertionFromJson fields)) (\<lambda>assertion.
     gbind (gchain (authorizeDeviceCertificateWithPasskey wa now (dc_accountId certificate) certificate assertion
              (Some (case passkeyChallenge of None \<Rightarrow> [] | Some ch \<Rightarrow> ch)))
              (HttpError 401 ''unauthenticated'')) (\<lambda>_. gret ())))"

definition describeSession :: "gateway_config \<Rightarrow> stored_session \<Rightarrow> gateway \<Rightarrow> (string \<times> jval) list" where
  "describeSession cf session g =
     [(''identityId'', JStr (ss_identity session)), (''deviceId'', JStr (ss_device session)),
      (''method'', JStr (ss_method session)), (''expiresAt'', JNum (ss_expiresAt session)),
      (''nextSequence'', JNum (lastSequence (sequenceKey (ss_identity session) (ss_device session)) (gw_store g) + 1)),
      (''owner'', JBool (cf_ownerIdentity cf = Some (ss_identity session)))]"

text \<open>\<open>/^[0-9a-f]{32}$/\<close>.\<close>

definition challengeIdField :: "jval option \<Rightarrow> failure + string" where
  "challengeIdField v = rbind (stringField v) (\<lambda>s.
     rbind (ensure (length s = 32 \<and> list_all is_hex s) WireError) (\<lambda>_. Inr s))"

definition take_challenge :: "int \<Rightarrow> string \<Rightarrow> pending_challenge handler" where
  "take_challenge now challengeId =
     gbind (gget (\<lambda>g. jm_get (gw_challenges g) challengeId)) (\<lambda>challenge.
     gbind (gupd (\<lambda>g. g\<lparr>gw_challenges := jm_del challengeId (gw_challenges g)\<rparr>)) (\<lambda>_.
     gsome (case challenge of None \<Rightarrow> None | Some ch \<Rightarrow> if pch_expiresAt ch \<le> now then None else Some ch)
       (HttpError 401 ''unauthenticated'')))"

definition open_session :: "stored_session \<Rightarrow> int \<Rightarrow> unit handler" where
  "open_session session now g =
     (case createSession session (deleteExpiredSessions now (gw_store g)) of
        None \<Rightarrow> (g\<lparr>gw_store := deleteExpiredSessions now (gw_store g)\<rparr>, Inl Internal)
      | Some db \<Rightarrow> (g\<lparr>gw_store := db\<rparr>, Inr ()))"

text \<open>The session \<open>verifyChallenge\<close> stores for a challenge and a token.\<close>

definition challenge_session :: "crypto \<Rightarrow> gateway_config \<Rightarrow> int \<Rightarrow> pending_challenge \<Rightarrow> string \<Rightarrow> stored_session" where
  "challenge_session c cf now challenge token = \<lparr>ss_tokenHash = hashToken c token,
     ss_identity = toHex (dc_accountId (pch_certificate challenge)),
     ss_device = toHex (dc_deviceId (pch_certificate challenge)), ss_method = method_name (pch_method challenge),
     ss_expiresAt = min (dc_expiresAt (pch_certificate challenge)) (now + cf_sessionMaxMs cf)\<rparr>"

text \<open>\<open>verifyChallenge\<close> from the point where the challenge has been taken.\<close>

definition completeSignIn ::
  "crypto \<Rightarrow> webauthn \<Rightarrow> gateway_config \<Rightarrow> int \<Rightarrow> bytes \<Rightarrow> (string \<times> jval) list \<Rightarrow> pending_challenge \<Rightarrow> (nat \<times> jval) handler" where
  "completeSignIn c wa cf now rnd input challenge =
     (let certificate = pch_certificate challenge in
     gbind (gget (\<lambda>g. getIdentity (dc_accountId certificate) (gw_chain g))) (\<lambda>identity.
     gbind (gsome identity (HttpError 401 ''unauthenticated'')) (\<lambda>r.
     let preimage = signInPreimage c (challenge_fields cf challenge) in
     gbind (glift (base64UrlBytes (jfield input ''deviceSignature'') 64)) (\<lambda>deviceSignature.
     gbind (gverify (ed_verify c (dc_signingKey certificate) preimage deviceSignature) (HttpError 401 ''unauthenticated'')) (\<lambda>_.
     gbind (glift (checkCertificateWindow cf certificate now)) (\<lambda>_.
     gbind (gget (\<lambda>g. isRevoked (dc_accountId certificate) KDevice (toHex (dc_deviceId certificate)) (gw_chain g))) (\<lambda>revoked.
     gbind (gensure (\<not> revoked) (HttpError 403 ''revoked'')) (\<lambda>_.
     gbind (case pch_method challenge of
              MWallet \<Rightarrow> enrolWallet c now (ir_wallet r) certificate
            | MSsh \<Rightarrow> enrolSsh c now input preimage certificate
            | MPasskey \<Rightarrow> enrolPasskey wa now input (pch_passkeyChallenge challenge) certificate) (\<lambda>_.
     let token = toBase64Url rnd; session = challenge_session c cf now challenge token in
     gbind (open_session session now) (\<lambda>_.
     gbind (gget (describeSession cf session)) (\<lambda>description.
     gret (201, JObj ((''token'', JStr token) # description)))))))))))))"

definition verifyChallenge ::
  "crypto \<Rightarrow> webauthn \<Rightarrow> gateway_config \<Rightarrow> int \<Rightarrow> bytes \<Rightarrow> request \<Rightarrow> string \<Rightarrow> (nat \<times> jval) handler" where
  "verifyChallenge c wa cf now rnd req ip =
     gbind (limit_requests challengeLimit ip now) (\<lambda>_.
     gbind (glift (request_body req)) (\<lambda>input.
     gbind (glift (challengeIdField (jfield input ''challengeId''))) (\<lambda>challengeId.
     gbind (take_challenge now challengeId) (\<lambda>challenge.
     completeSignIn c wa cf now rnd input challenge))))"

section \<open>Authenticated requests\<close>

definition bearer :: "request \<Rightarrow> failure + string" where
  "bearer req =
     (case rq_authorization req of
        None \<Rightarrow> Inl (HttpError 401 ''unauthenticated'')
      | Some header \<Rightarrow>
          let token = drop 7 header in
          if take 7 header = ''Bearer '' \<and> 20 \<le> length token \<and> length token \<le> 128 \<and> list_all is_b64url token
          then Inr token else Inl (HttpError 401 ''unauthenticated''))"

definition authenticate :: "crypto \<Rightarrow> int \<Rightarrow> string \<Rightarrow> (stored_session \<times> device_certificate) handler" where
  "authenticate c now token =
     (let tokenHash = hashToken c token in
     gbind (gget (\<lambda>g. getSession tokenHash (gw_store g))) (\<lambda>found.
     gbind (gsome found (HttpError 401 ''unauthenticated'')) (\<lambda>session.
     if ss_expiresAt session \<le> now
     then gbind (gupd (endSession tokenHash)) (\<lambda>_. glift (Inl (HttpError 401 ''unauthenticated'')))
     else gbind (glift (hexBytes (Some (JStr (ss_identity session))) 32)) (\<lambda>identityId.
       gbind (glift (hexBytes (Some (JStr (ss_device session))) 32)) (\<lambda>device.
       gbind (gget (\<lambda>g. resolveDeviceCertificate now identityId device (gw_chain g))) (\<lambda>resolved.
       case resolved of
         None \<Rightarrow> gbind (gupd (endSession tokenHash)) (\<lambda>_. glift (Inl (HttpError 403 ''revoked'')))
       | Some certificate \<Rightarrow> gret (session, certificate)))))))"

definition logout :: "crypto \<Rightarrow> request \<Rightarrow> (nat \<times> jval) handler" where
  "logout c req =
     gbind (glift (bearer req)) (\<lambda>token.
     gbind (gupd (endSession (hashToken c token))) (\<lambda>_.
     gret (200, JObj [(''ok'', JBool True)])))"

text \<open>The ellipsis of the source is one character; it is written with a code unit of its own here.\<close>

definition shortIdentity :: "string \<Rightarrow> string" where
  "shortIdentity identityHex = ''nx1'' @ take 4 identityHex @ [char_of (133 :: nat)] @ drop (length identityHex - 4) identityHex"

definition username_of :: "bytes \<Rightarrow> gateway \<Rightarrow> string option" where
  "username_of identityId g = (case getIdentity identityId (gw_chain g) of None \<Rightarrow> None | Some r \<Rightarrow> ir_username r)"

definition sessionInfo :: "crypto \<Rightarrow> gateway_config \<Rightarrow> int \<Rightarrow> request \<Rightarrow> (nat \<times> jval) handler" where
  "sessionInfo c cf now req =
     gbind (glift (bearer req)) (\<lambda>token.
     gbind (authenticate c now token) (\<lambda>(session, _).
     gbind (glift (hexBytes (Some (JStr (ss_identity session))) 32)) (\<lambda>identityId.
     gbind (gget (username_of identityId)) (\<lambda>username.
     gbind (gget (describeSession cf session)) (\<lambda>description.
     gret (200, JObj (description @ [(''short'', JStr (shortIdentity (ss_identity session))),
       (''username'', jopt username)])))))))"

section \<open>Messages\<close>

definition publicMessage :: "stored_message \<Rightarrow> gateway \<Rightarrow> failure + public_message" where
  "publicMessage row g =
     rbind (hexBytes (Some (JStr (sm_identity row))) 32) (\<lambda>identityId.
       Inr \<lparr>pm_id = sm_eventId row, pm_channel = sm_channel row, pm_author = sm_identity row,
         pm_username = username_of identityId g, pm_body = sm_body row, pm_at = sm_createdAt row,
         pm_seq = sm_seq row\<rparr>)"

definition message_json :: "public_message \<Rightarrow> jval" where
  "message_json m = JObj [(''id'', JStr (pm_id m)), (''channel'', JStr (pm_channel m)),
     (''author'', JObj [(''id'', JStr (pm_author m)), (''short'', JStr (shortIdentity (pm_author m))),
       (''username'', jopt (pm_username m))]),
     (''body'', JStr (pm_body m)), (''at'', JNum (pm_at m)), (''seq'', JNum (pm_seq m))]"

definition expireChannel :: "gateway_config \<Rightarrow> int \<Rightarrow> channel_id \<Rightarrow> gateway \<Rightarrow> gateway" where
  "expireChannel cf now channel g =
     (if cp_retains (CHANNELS channel) then g
      else case lastMessageAt (channel_name channel) (gw_store g) of
        None \<Rightarrow> g
      | Some lastAt \<Rightarrow>
          if now - lastAt \<ge> cf_publicRetentionMs cf
          then g\<lparr>gw_store := purgeChannel (channel_name channel) (gw_store g)\<rparr> else g)"

fun integerField :: "jval \<Rightarrow> int option" where
  "integerField (JNum n) = Some n"
| "integerField _ = None"

definition readLimit :: "jval option \<Rightarrow> failure + int" where
  "readLimit raw =
     (case raw of None \<Rightarrow> Inr 50
      | Some v \<Rightarrow> (case integerField v of None \<Rightarrow> Inl (HttpError 400 ''invalid'')
          | Some n \<Rightarrow> if n < 1 \<or> n > HISTORY_LIMIT_MAX then Inl (HttpError 400 ''invalid'') else Inr n))"

definition readBefore :: "jval option \<Rightarrow> failure + int option" where
  "readBefore raw =
     (case raw of None \<Rightarrow> Inr None
      | Some v \<Rightarrow> (case integerField v of None \<Rightarrow> Inl (HttpError 400 ''invalid'')
          | Some n \<Rightarrow> if n < 1 then Inl (HttpError 400 ''invalid'') else Inr (Some n)))"

fun rmap :: "('a \<Rightarrow> failure + 'b) \<Rightarrow> 'a list \<Rightarrow> failure + 'b list" where
  "rmap f [] = Inr []"
| "rmap f (x # xs) = rbind (f x) (\<lambda>y. rbind (rmap f xs) (\<lambda>ys. Inr (y # ys)))"

definition readMessages :: "gateway_config \<Rightarrow> int \<Rightarrow> channel_id \<Rightarrow> request \<Rightarrow> (nat \<times> jval) handler" where
  "readMessages cf now channel req =
     gbind (glift (readLimit (rq_limit req))) (\<lambda>limit.
     gbind (glift (readBefore (rq_before req))) (\<lambda>before.
     gbind (gupd (expireChannel cf now channel)) (\<lambda>_.
     gbind (gget (\<lambda>g. rmap (\<lambda>row. publicMessage row g)
       (messages (channel_name channel) (nat limit) before (gw_store g)))) (\<lambda>result.
     gbind (glift result) (\<lambda>rows.
     gret (200, JObj [(''channel'', JStr (channel_name channel)), (''messages'', JArr (map message_json rows))]))))))"

definition broadcast :: "channel_id \<Rightarrow> public_message \<Rightarrow> gateway \<Rightarrow> gateway" where
  "broadcast channel message g =
     g\<lparr>gw_sent := gw_sent g @ concat (map (\<lambda>ws. sendSocket ws (FMessage channel message))
       (filter (\<lambda>ws. ws_ready ws \<and> channel \<in> set (ws_channels ws)) (gw_sockets g)))\<rparr>"

definition code_units_of :: "string \<Rightarrow> code_units" where
  "code_units_of body = map of_char body"

definition allowPost :: "channel_id \<Rightarrow> string \<Rightarrow> int \<Rightarrow> unit handler" where
  "allowPost channel identity now g =
     (let (hits, ok) = sw_allow (cp_rateLimit (CHANNELS channel)) RATE_WINDOW_MS identity now (gw_postLimits g channel) in
      (g\<lparr>gw_postLimits := (gw_postLimits g)(channel := hits)\<rparr>, ensure ok (HttpError 429 ''rate_limited'')))"

definition allowText :: "channel_id \<Rightarrow> string \<Rightarrow> string \<Rightarrow> int \<Rightarrow> unit handler" where
  "allowText channel identity body now g =
     (let (texts, ok) = dg_allow SPAM_DUPLICATE_THRESHOLD RATE_WINDOW_MS identity (code_units_of body) now
            (gw_duplicateGuards g channel) in
      (g\<lparr>gw_duplicateGuards := (gw_duplicateGuards g)(channel := texts)\<rparr>, ensure ok (HttpError 429 ''rate_limited'')))"

definition storeMessage :: "stored_message \<Rightarrow> int \<Rightarrow> stored_message handler" where
  "storeMessage message sequence g =
     (let (db, r) = insertMessage message sequence (gw_store g) in
      (g\<lparr>gw_store := db\<rparr>,
       case r of Duplicate \<Rightarrow> Inl (HttpError 409 ''duplicate'')
       | StaleSequence \<Rightarrow> Inl (HttpError 409 ''stale_sequence'')
       | Inserted row \<Rightarrow> Inr row))"

text \<open>
  The event checks of \<open>post\<close>, up to the first use of the store. They depend on the
  session, the certificate, the request and the clock only.
\<close>

definition checkEvent ::
  "crypto \<Rightarrow> unicode \<Rightarrow> gateway_config \<Rightarrow> int \<Rightarrow> channel_id \<Rightarrow> stored_session \<Rightarrow> device_certificate \<Rightarrow> request
    \<Rightarrow> failure + nexnet_event \<times> string" where
  "checkEvent c uc cf now channel session certificate req =
     rbind (request_body req) (\<lambda>input.
     rbind (eventFromJson (jfield input ''event'')) (\<lambda>event.
     rbind (ensure (ev_protocolVersion event = PROTOCOL_VERSION \<and> ev_eventType event = ''channel.post'')
              (HttpError 400 ''invalid'')) (\<lambda>_.
     rbind (ensure (toHex (ev_authorIdentityId event) = ss_identity session
                \<and> toHex (ev_authorDeviceId event) = ss_device session) (HttpError 403 ''forbidden'')) (\<lambda>_.
     rbind (case validateEventLimits event of Inl _ \<Rightarrow> Inl (HttpError 400 ''invalid'') | Inr u \<Rightarrow> Inr u) (\<lambda>_.
     rbind (ensure (verifyEventId c event) (HttpError 401 ''unauthenticated'')) (\<lambda>_.
     rbind (case verifyEvent c event (dc_signingKey certificate) of
              None \<Rightarrow> Inl Internal | Some ok \<Rightarrow> ensure ok (HttpError 401 ''unauthenticated'')) (\<lambda>_.
     rbind (ensure (\<bar>ev_createdAt event - now\<bar> \<le> EVENT_SKEW_MS) (HttpError 400 ''invalid'')) (\<lambda>_.
     rbind (decodeChannelPayload c (ev_payload event)) (\<lambda>payload.
     rbind (ensure (py_channel payload = channel_name channel) (HttpError 400 ''invalid'')) (\<lambda>_.
     rbind (ensure (validateBody uc (code_units_of (py_body payload)) = None) (HttpError 400 ''invalid'')) (\<lambda>_.
     rbind (ensure (cp_writers (CHANNELS channel) = WOwner \<longrightarrow> cf_ownerIdentity cf = Some (ss_identity session))
              (HttpError 403 ''forbidden'')) (\<lambda>_.
       Inr (event, py_body payload)))))))))))))"

definition acceptEvent ::
  "gateway_config \<Rightarrow> int \<Rightarrow> channel_id \<Rightarrow> stored_session \<Rightarrow> nexnet_event \<Rightarrow> string \<Rightarrow> (nat \<times> jval) handler" where
  "acceptEvent cf now channel session event body =
     (let eventId = toHex (ev_eventId event) in
     gbind (gget (\<lambda>g. hasEvent eventId (gw_store g))) (\<lambda>seen.
     gbind (gensure (\<not> seen) (HttpError 409 ''duplicate'')) (\<lambda>_.
     gbind (gget (\<lambda>g. lastSequence (sequenceKey (ss_identity session) (ss_device session)) (gw_store g))) (\<lambda>lastSeq.
     gbind (gensure (\<not> ev_sequence event \<le> lastSeq) (HttpError 409 ''stale_sequence'')) (\<lambda>_.
     gbind (gupd (expireChannel cf now channel)) (\<lambda>_.
     gbind (allowPost channel (ss_identity session) now) (\<lambda>_.
     gbind (allowText channel (ss_identity session) body now) (\<lambda>_.
     gbind (storeMessage \<lparr>sm_seq = 0, sm_channel = channel_name channel, sm_eventId = eventId,
              sm_identity = ss_identity session, sm_device = ss_device session,
              sm_createdAt = ev_createdAt event, sm_receivedAt = now, sm_body = body\<rparr> (ev_sequence event)) (\<lambda>stored.
     gbind (gget (publicMessage stored)) (\<lambda>result.
     gbind (glift result) (\<lambda>message.
     gbind (gupd (broadcast channel message)) (\<lambda>_.
     gret (201, JObj [(''message'', message_json message)])))))))))))))"

definition post ::
  "crypto \<Rightarrow> unicode \<Rightarrow> gateway_config \<Rightarrow> int \<Rightarrow> channel_id \<Rightarrow> request \<Rightarrow> (nat \<times> jval) handler" where
  "post c uc cf now channel req =
     gbind (glift (bearer req)) (\<lambda>token.
     gbind (authenticate c now token) (\<lambda>(session, certificate).
     gbind (glift (checkEvent c uc cf now channel session certificate req)) (\<lambda>(event, body).
     acceptEvent cf now channel session event body)))"

section \<open>Sockets\<close>

definition onSocketOpen :: "nat \<Rightarrow> gateway \<Rightarrow> gateway" where
  "onSocketOpen wid g = g\<lparr>gw_sockets := gw_sockets g @ [\<lparr>ws_id = wid, ws_tokenHash = None, ws_channels = [],
     ws_ready = False, ws_closed = False\<rparr>]\<rparr>"

text \<open>The timer of \<open>onSocketOpen\<close>, when it fires.\<close>

definition onAuthTimeout :: "nat \<Rightarrow> gateway \<Rightarrow> gateway" where
  "onAuthTimeout wid g =
     g\<lparr>gw_sockets := map (\<lambda>ws. if ws_id ws = wid \<and> \<not> ws_ready ws then ws\<lparr>ws_closed := True\<rparr> else ws) (gw_sockets g)\<rparr>"

definition onSocketClose :: "nat \<Rightarrow> gateway \<Rightarrow> gateway" where
  "onSocketClose wid g = g\<lparr>gw_sockets := filter (\<lambda>ws. ws_id ws \<noteq> wid) (gw_sockets g)\<rparr>"

fun channelList :: "jval list \<Rightarrow> failure + channel_id list" where
  "channelList [] = Inr []"
| "channelList (v # vs) =
     rbind (stringField (Some v)) (\<lambda>s. case isChannelId s of None \<Rightarrow> Inl WireError
       | Some ch \<Rightarrow> rbind (channelList vs) (\<lambda>cs. Inr (ch # cs)))"

definition requestedChannels :: "jval option \<Rightarrow> failure + channel_id list" where
  "requestedChannels v =
     (case v of None \<Rightarrow> Inr [Updates, Public]
      | Some w \<Rightarrow> rbind (arrayField (Some w)) (\<lambda>vs. rbind (ensure (length vs \<le> 2) WireError) (\<lambda>_. channelList vs)))"

text \<open>The first frame of a socket: an optional token and the channels; \<open>frame\<close> is \<open>JSON.parse\<close> of it.\<close>

definition readFrame :: "crypto \<Rightarrow> int \<Rightarrow> jval option \<Rightarrow> (string option \<times> channel_id list) handler" where
  "readFrame c now frame =
     gbind (glift (case frame of None \<Rightarrow> Inl Internal | Some v \<Rightarrow> record_of (Some v))) (\<lambda>input.
     gbind (case jfield input ''token'' of
              None \<Rightarrow> gret None
            | Some v \<Rightarrow> gbind (glift (stringField (Some v))) (\<lambda>token.
                gbind (authenticate c now token) (\<lambda>(session, _). gret (Some (ss_tokenHash session))))) (\<lambda>tokenHash.
     gbind (glift (requestedChannels (jfield input ''channels''))) (\<lambda>channels.
     gret (tokenHash, channels))))"

definition update_socket :: "nat \<Rightarrow> (socket \<Rightarrow> socket) \<Rightarrow> gateway \<Rightarrow> gateway" where
  "update_socket wid f g = g\<lparr>gw_sockets := map (\<lambda>ws. if ws_id ws = wid then f ws else ws) (gw_sockets g)\<rparr>"

definition send_to :: "nat \<Rightarrow> frame \<Rightarrow> gateway \<Rightarrow> gateway" where
  "send_to wid payload g = g\<lparr>gw_sent := gw_sent g @ concat (map (\<lambda>ws. sendSocket ws payload)
     (filter (\<lambda>ws. ws_id ws = wid) (gw_sockets g)))\<rparr>"

fun failure_code :: "failure \<Rightarrow> string" where
  "failure_code (HttpError _ code) = code"
| "failure_code _ = ''invalid''"

definition onSocketMessage :: "crypto \<Rightarrow> int \<Rightarrow> nat \<Rightarrow> jval option \<Rightarrow> gateway \<Rightarrow> gateway" where
  "onSocketMessage c now wid frame g =
     (if list_ex (\<lambda>ws. ws_id ws = wid \<and> ws_ready ws) (gw_sockets g) then g
      else case readFrame c now frame g of
        (g', Inr (tokenHash, channels)) \<Rightarrow>
          send_to wid (FReady (tokenHash \<noteq> None))
            (update_socket wid (\<lambda>ws. ws\<lparr>ws_tokenHash := tokenHash, ws_channels := channels, ws_ready := True\<rparr>) g')
      | (g', Inl e) \<Rightarrow>
          update_socket wid (\<lambda>ws. ws\<lparr>ws_closed := True\<rparr>) (send_to wid (FError (failure_code e)) g'))"

section \<open>Routing\<close>

fun error_status :: "failure \<Rightarrow> nat \<times> string" where
  "error_status (HttpError status code) = (status, code)"
| "error_status WireError = (400, ''invalid'')"
| "error_status Internal = (500, ''internal'')"

definition errorResponse :: "failure \<Rightarrow> nat \<times> jval" where
  "errorResponse e = (fst (error_status e), JObj [(''error'', JObj [(''code'', JStr (snd (error_status e)))])])"

definition info :: "gateway_config \<Rightarrow> (nat \<times> jval) handler" where
  "info cf = gret (200, JObj [(''audience'', JStr (cf_audience cf)), (''mode'', JStr ''dev-chain''),
     (''chain'', JStr ''in-memory development chain; not a consensus chain''),
     (''methods'', JArr (map (\<lambda>m. JStr (method_name m))
        (filter (\<lambda>m. m \<noteq> MPasskey \<or> cf_rpId cf \<noteq> None) [MWallet, MSsh, MPasskey]))),
     (''rpId'', jopt (cf_rpId cf)), (''ownerConfigured'', JBool (cf_ownerIdentity cf \<noteq> None)),
     (''channels'', JArr (map (\<lambda>ch. JObj [(''id'', JStr (channel_name ch)),
        (''writers'', JStr (case cp_writers (CHANNELS ch) of WOwner \<Rightarrow> ''owner'' | WRegistered \<Rightarrow> ''registered''))])
        [Updates, Public]))])"

text \<open>\<open>/^\/v1\/channels\/([a-z]+)\/messages$/\<close>: the captured name.\<close>

definition channelPath :: "string \<Rightarrow> string option" where
  "channelPath path =
     (let rest = drop 13 path; name = takeWhile (\<lambda>ch. CHR ''a'' \<le> ch \<and> ch \<le> CHR ''z'') rest in
      if take 13 path = ''/v1/channels/'' \<and> name \<noteq> [] \<and> drop (length name) rest = ''/messages''
      then Some name else None)"

record randomness =
  rd_challenge :: "bytes \<times> bytes \<times> bytes"
  rd_token :: bytes

definition route ::
  "crypto \<Rightarrow> webauthn \<Rightarrow> unicode \<Rightarrow> gateway_config \<Rightarrow> int \<Rightarrow> randomness \<Rightarrow> request \<Rightarrow> string \<Rightarrow> (nat \<times> jval) handler" where
  "route c wa uc cf now rnd req ip =
     (let m = rq_method req; p = rq_path req in
      if m = ''GET'' \<and> p = ''/v1/info'' then info cf
      else if m = ''POST'' \<and> p = ''/v1/identity'' then createIdentity c now req ip
      else if m = ''POST'' \<and> p = ''/v1/credentials/ssh'' then registerSsh c now req ip
      else if m = ''POST'' \<and> p = ''/v1/credentials/passkey'' then registerPasskey c cf now req ip
      else if m = ''POST'' \<and> p = ''/v1/credentials/revoke'' then revoke c now req ip
      else if m = ''POST'' \<and> p = ''/v1/auth/challenge'' then issueChallenge cf now (rd_challenge rnd) req ip
      else if m = ''POST'' \<and> p = ''/v1/auth/verify'' then verifyChallenge c wa cf now (rd_token rnd) req ip
      else if m = ''POST'' \<and> p = ''/v1/auth/logout'' then logout c req
      else if m = ''GET'' \<and> p = ''/v1/session'' then sessionInfo c cf now req
      else case channelPath p of
        None \<Rightarrow> glift (Inl (HttpError 404 ''not_found''))
      | Some name \<Rightarrow>
          (case isChannelId name of
             None \<Rightarrow> glift (Inl (HttpError 404 ''not_found''))
           | Some channel \<Rightarrow>
               if m = ''GET'' then readMessages cf now channel req
               else if m = ''POST'' then post c uc cf now channel req
               else glift (Inl (HttpError 404 ''not_found''))))"

text \<open>\<open>split(",").at(-1)\<close>.\<close>

definition last_field :: "string \<Rightarrow> string" where
  "last_field s = rev (takeWhile (\<lambda>ch. ch \<noteq> CHR '','') (rev s))"

definition clientAddress :: "gateway_config \<Rightarrow> request \<Rightarrow> string" where
  "clientAddress cf req =
     (let direct = (case rq_address req of None \<Rightarrow> ''unknown'' | Some a \<Rightarrow> a) in
      if cf_trustProxy cf
      then (case rq_forwardedFor req of
              None \<Rightarrow> direct
            | Some f \<Rightarrow> let lastAddr = js_trim (last_field f) in if lastAddr \<noteq> [] then lastAddr else direct)
      else direct)"

record http_response =
  rs_status :: nat
  rs_body :: "jval option"
  rs_headers :: "(string \<times> string) list"

definition finish :: "nat \<Rightarrow> jval option \<Rightarrow> string option \<Rightarrow> bool \<Rightarrow> http_response" where
  "finish status body cors preflight = \<lparr>rs_status = status, rs_body = body,
     rs_headers = [(''cache-control'', ''no-store''), (''x-content-type-options'', ''nosniff''), (''vary'', ''Origin'')]
       @ (case cors of None \<Rightarrow> []
          | Some origin \<Rightarrow> (''access-control-allow-origin'', origin) #
              (if preflight then [(''access-control-allow-methods'', ''GET, POST, OPTIONS''),
                 (''access-control-allow-headers'', ''authorization, content-type''),
                 (''access-control-max-age'', ''600'')] else []))\<rparr>"

text \<open>
  The answer to a request: a response, or an upgrade to a socket. \<open>upgraded\<close> is whether
  the server accepts the upgrade.
\<close>

datatype answer = Respond http_response | Upgrade

definition handle ::
  "crypto \<Rightarrow> webauthn \<Rightarrow> unicode \<Rightarrow> gateway_config \<Rightarrow> int \<Rightarrow> randomness \<Rightarrow> bool \<Rightarrow> request \<Rightarrow> gateway \<Rightarrow> gateway \<times> answer" where
  "handle c wa uc cf now rnd upgraded req g =
     (let cors = (case rq_origin req of None \<Rightarrow> None
            | Some origin \<Rightarrow> if origin \<in> set (cf_origins cf) then Some origin else None);
          respond = (\<lambda>(g', r). (g', Respond (case r of
            Inr (status, body) \<Rightarrow> finish status (Some body) cors False
          | Inl e \<Rightarrow> finish (fst (errorResponse e)) (Some (snd (errorResponse e))) cors False)))
      in if rq_method req = ''OPTIONS'' then (g, Respond (finish 204 None cors True))
         else if rq_path req = ''/v1/stream'' then
           (if map_option js_lower (rq_upgrade req) \<noteq> Some ''websocket'' then respond (g, Inl (HttpError 426 ''invalid''))
            else if rq_origin req \<noteq> None \<and> cors = None then respond (g, Inl (HttpError 403 ''forbidden''))
            else if upgraded then (g, Upgrade)
            else respond (g, Inl (HttpError 400 ''invalid'')))
         else respond (route c wa uc cf now rnd req (clientAddress cf req) g))"

end
