(* ===== verification/Gateway_Inv.thy ===== *)
theory Gateway_Inv
  imports Gateway
begin

text \<open>
  Reasoning about handlers. A preorder on gateway states that the elementary state changes
  obey is obeyed by every handler: the locale \<open>handler_relation\<close> proves it for the
  handlers that leave the pending challenges alone, and its extension
  \<open>gateway_relation\<close> for all of them. Each invariant of the gateway is then an
  interpretation of one of the two.
\<close>

section \<open>Rules for handlers\<close>

definition obeys :: "(gateway \<Rightarrow> gateway \<Rightarrow> bool) \<Rightarrow> 'a handler \<Rightarrow> bool" where
  "obeys R m \<longleftrightarrow> (\<forall>g. R g (fst (m g)))"

locale handler_relation =
  fixes R :: "gateway \<Rightarrow> gateway \<Rightarrow> bool" and c :: crypto
  assumes refl: "R g g"
    and trans: "R g g' \<Longrightarrow> R g' g'' \<Longrightarrow> R g g''"
    and limits: "R g (g\<lparr>gw_limits := a\<rparr>)"
    and post_limits: "R g (g\<lparr>gw_postLimits := b\<rparr>)"
    and duplicate_guards: "R g (g\<lparr>gw_duplicateGuards := d\<rparr>)"
    and sockets: "R g (g\<lparr>gw_sockets := s\<rparr>)"
    and sent: "R g (g\<lparr>gw_sent := f\<rparr>)"
    and chain: "(chain_step c)\<^sup>*\<^sup>* (gw_chain g) ch \<Longrightarrow> R g (g\<lparr>gw_chain := ch\<rparr>)"
    and delete: "R g (g\<lparr>gw_store := deleteSession h (gw_store g)\<rparr>)"
    and purge: "R g (g\<lparr>gw_store := purgeChannel name (gw_store g)\<rparr>)"
begin

lemma obeys_basic [intro!]:
  "obeys R (gret x)" "obeys R (glift r)" "obeys R (gget h)" "obeys R (gensure p q)"
  "obeys R (gverify v q)" "obeys R (gsome y q)"
  by (simp_all add: obeys_def gret_def glift_def gget_def gensure_def gverify_def gsome_def refl)

lemma obeys_bind [intro!]:
  assumes "obeys R m" "\<And>x. obeys R (f x)"
  shows "obeys R (gbind m f)"
  unfolding obeys_def
proof
  fix g
  obtain g' r where m: "m g = (g', r)" by (cases "m g")
  have g': "R g g'" using assms(1) m by (metis obeys_def fst_conv)
  show "R g (fst (gbind m f g))"
  proof (cases r)
    case (Inl e)
    then show ?thesis using m g' by (simp add: gbind_def)
  next
    case (Inr x)
    have "R g' (fst (f x g'))" using assms(2) by (simp add: obeys_def)
    then show ?thesis using m Inr trans [OF g'] by (simp add: gbind_def)
  qed
qed

lemma obeys_if [intro!]: "obeys R m \<Longrightarrow> obeys R m' \<Longrightarrow> obeys R (if p then m else m')"
  by simp

lemma obeys_prod [intro!]: "(\<And>a b. obeys R (f a b)) \<Longrightarrow> obeys R (case x of (a, b) \<Rightarrow> f a b)"
  by (cases x) simp

lemma obeys_option [intro!]:
  "obeys R m \<Longrightarrow> (\<And>x. obeys R (f x)) \<Longrightarrow> obeys R (case y of None \<Rightarrow> m | Some x \<Rightarrow> f x)"
  by (cases y) auto

lemma obeys_upd: "(\<And>g. R g (f g)) \<Longrightarrow> obeys R (gupd f)"
  by (simp add: obeys_def gupd_def)

lemma obeys_foreach: "(\<And>x. obeys R (f x)) \<Longrightarrow> obeys R (gforeach f xs)"
  by (induction xs) auto

lemma obeys_limit [intro!]: "obeys R (limit_requests l key now)"
  by (auto simp: obeys_def limit_requests_def Let_def limits split: prod.split)

lemma obeys_chain:
  assumes "\<And>st. (chain_step c)\<^sup>*\<^sup>* st (fst (op st))"
  shows "obeys R (gchain op e)"
  unfolding obeys_def
proof
  fix g
  show "R g (fst (gchain op e g))"
    using chain [OF assms [of "gw_chain g"]] by (simp add: gchain_def split_beta)
qed

lemma end_session: "R g (endSession h g)"
proof -
  have "R g (g\<lparr>gw_store := deleteSession h (gw_store g)\<rparr>)" by (rule delete)
  then show ?thesis unfolding endSession_def by (blast intro: trans sockets sent)
qed

lemma expire_channel: "R g (expireChannel cf now ch g)"
  by (auto simp: expireChannel_def refl purge split: option.split)

lemma broadcast_sent: "R g (broadcast ch msg g)"
  by (simp add: broadcast_def sent)

lemma obeys_endSession [intro!]: "obeys R (gupd (endSession h))"
  by (intro obeys_upd end_session)

lemmas obeys_handler = obeys_basic obeys_bind obeys_if obeys_prod obeys_option obeys_limit obeys_endSession

lemma obeys_createIdentity: "obeys R (createIdentity c now req ip)"
  unfolding createIdentity_def Let_def
  by (intro obeys_handler obeys_chain r_into_rtranclp chain_step.identity)

lemma obeys_owned [intro!]: "obeys R (ownedIdentity input)"
  unfolding ownedIdentity_def by (intro obeys_handler)

lemma obeys_parse [intro!]: "obeys R (parse_ssh_key line q)" "obeys R (root_signature input)"
  unfolding parse_ssh_key_def root_signature_def by (intro obeys_handler)+

lemma obeys_registerSsh: "obeys R (registerSsh c now req ip)"
  unfolding registerSsh_def Let_def
  by (intro obeys_handler obeys_owned obeys_parse obeys_chain r_into_rtranclp chain_step.ssh)

lemma obeys_registerPasskey: "obeys R (registerPasskey c cf now req ip)"
  unfolding registerPasskey_def Let_def
  by (intro obeys_handler obeys_owned obeys_parse obeys_chain r_into_rtranclp chain_step.passkey)

lemma obeys_sweep [intro!]: "obeys R (sweepSessions now h)"
  unfolding sweepSessions_def by (intro obeys_handler obeys_foreach)

lemma obeys_revoke: "obeys R (revoke c now req ip)"
  unfolding revoke_def by (intro obeys_handler obeys_sweep obeys_chain r_into_rtranclp chain_step.revoke)

lemma passkey_chain:
  "(chain_step c)\<^sup>*\<^sup>* st (fst (authorizeDeviceCertificateWithPasskey wa now i cert assertion ch st))"
proof (cases "passkeyAuthorizationCheck now i cert assertion ch st")
  case (Inl e)
  then show ?thesis by (simp add: authorizeDeviceCertificateWithPasskey_def)
next
  case (Inr p)
  obtain credential challenge where p: "p = (credential, challenge)" by (cases p)
  let ?find = "List.find (\<lambda>item. pk_credentialId item = pa_id assertion) (jm_get_or (ch_passkeys st) (toHex i) [])"
  have "?find = Some credential" and shape: "isDeviceCertificateShapeValid now cert i"
    using Inr p by (auto simp: passkeyAuthorizationCheck_def Let_def split: option.splits if_splits)
  then have "credential \<in> set (jm_get_or (ch_passkeys st) (toHex i) [])"
    by (metis find_Some_iff nth_mem)
  then have "chain_step c st (fst (passkeyAuthorizationCommit now i cert (pk_credentialId credential) n st))" for n
    by (intro chain_step.commit_passkey [OF shape]) auto
  then show ?thesis
    unfolding authorizeDeviceCertificateWithPasskey_def Inr p
    by (auto split: webauthn_result.split)
qed

lemma obeys_enrol [intro!]:
  "obeys R (enrolWallet c now wallet cert)" "obeys R (enrolSsh c now input preimage cert)"
  "obeys R (enrolPasskey wa now input pch cert)"
  unfolding enrolWallet_def enrolSsh_def enrolPasskey_def Let_def
  by (intro obeys_handler obeys_parse obeys_chain passkey_chain r_into_rtranclp chain_step.device chain_step.device_ssh)+

lemma obeys_authenticate [intro!]: "obeys R (authenticate c now token)"
  unfolding authenticate_def Let_def by (intro obeys_handler)

lemma obeys_reads:
  "obeys R (logout c req)" "obeys R (sessionInfo c cf now req)" "obeys R (readMessages cf now ch req)"
  "obeys R (readFrame c now frame)" "obeys R (info cf)"
  unfolding logout_def sessionInfo_def readMessages_def readFrame_def info_def
  by (intro obeys_handler obeys_authenticate obeys_upd expire_channel)+

lemma obeys_allow [intro!]: "obeys R (allowPost ch i now)" "obeys R (allowText ch i body now)"
  by (auto simp: obeys_def allowPost_def allowText_def Let_def post_limits duplicate_guards split: prod.split)

lemma obeys_acceptEvent:
  assumes "\<And>m. sm_channel m = channel_name ch \<Longrightarrow> sm_identity m = ss_identity session \<Longrightarrow> sm_body m = body \<Longrightarrow>
    obeys R (storeMessage m (ev_sequence event))"
  shows "obeys R (acceptEvent cf now ch session event body)"
  unfolding acceptEvent_def Let_def
  by (intro obeys_handler obeys_allow obeys_upd expire_channel broadcast_sent assms) simp_all

lemma obeys_post:
  assumes "\<And>session cert event body m. checkEvent c uc cf now ch session cert req = Inr (event, body) \<Longrightarrow>
    sm_channel m = channel_name ch \<Longrightarrow> sm_identity m = ss_identity session \<Longrightarrow> sm_body m = body \<Longrightarrow>
    obeys R (storeMessage m (ev_sequence event))"
  shows "obeys R (post c uc cf now ch req)"
proof -
  have "obeys R (gbind (glift (checkEvent c uc cf now ch session cert req)) (\<lambda>(event, body).
      acceptEvent cf now ch session event body))" for session cert
  proof (cases "checkEvent c uc cf now ch session cert req")
    case (Inl e)
    then show ?thesis by (simp add: obeys_def gbind_def glift_def refl)
  next
    case (Inr x)
    then show ?thesis
      using obeys_acceptEvent [of ch session "snd x" "fst x"] assms [of session cert "fst x" "snd x"]
      by (cases x) (simp add: obeys_def gbind_def glift_def)
  qed
  note tail = this
  show ?thesis
    unfolding post_def
    by (rule obeys_bind, rule obeys_basic(2), rule obeys_bind, rule obeys_authenticate, rule obeys_prod, rule tail)
qed

lemma socket_events:
  "R g (onSocketOpen wid g)" "R g (onAuthTimeout wid g)" "R g (onSocketClose wid g)"
  "R g (onSocketMessage c now wid frame g)"
proof -
  have upd: "R g (update_socket wid f g)" "R g (send_to wid p g)" for f p g
    by (simp_all add: update_socket_def send_to_def sockets sent)
  have "R g (fst (readFrame c now frame g))"
    using obeys_reads(4) by (simp add: obeys_def)
  moreover have "R g' (update_socket wid f (send_to wid p g'))" "R g' (send_to wid p (update_socket wid f g'))" for f p g'
    by (rule trans [OF upd(2) upd(1)], rule trans [OF upd(1) upd(2)])
  ultimately show "R g (onSocketMessage c now wid frame g)"
    unfolding onSocketMessage_def
    by (cases "readFrame c now frame g") (auto simp: refl split: sum.split elim!: trans)
qed (simp_all add: onSocketOpen_def onAuthTimeout_def onSocketClose_def sockets)

lemma obeys_completeSignIn:
  assumes "\<And>s t. obeys R (open_session s t)"
  shows "obeys R (completeSignIn c wa cf now rnd input challenge)"
proof -
  have m: "obeys R (case m of MWallet \<Rightarrow> x | MSsh \<Rightarrow> y | MPasskey \<Rightarrow> z)"
    if "obeys R x" "obeys R y" "obeys R z" for m and x y z :: "unit handler"
    using that by (cases m) auto
  show ?thesis
    unfolding completeSignIn_def Let_def by (intro obeys_handler obeys_enrol m assms)
qed

end

locale gateway_relation = handler_relation +
  assumes challenges: "R g (g\<lparr>gw_challenges := e\<rparr>)"
begin

lemma obeys_issueChallenge: "obeys R (issueChallenge cf now rnd req ip)"
  unfolding issueChallenge_def Let_def
  by (intro obeys_handler obeys_upd) (auto simp: pruneChallenges_def challenges refl)

lemma obeys_take [intro!]: "obeys R (take_challenge now cid)"
  unfolding take_challenge_def by (intro obeys_handler obeys_upd challenges)

lemma obeys_verifyChallenge:
  assumes "\<And>s t. obeys R (open_session s t)"
  shows "obeys R (verifyChallenge c wa cf now rnd req ip)"
  unfolding verifyChallenge_def by (intro obeys_handler obeys_take obeys_completeSignIn assms)

lemma obeys_handle:
  assumes sess: "\<And>s t. obeys R (open_session s t)"
    and store: "\<And>ch session cert event body m. checkEvent c uc cf now ch session cert req = Inr (event, body) \<Longrightarrow>
    sm_channel m = channel_name ch \<Longrightarrow> sm_identity m = ss_identity session \<Longrightarrow> sm_body m = body \<Longrightarrow>
    obeys R (storeMessage m (ev_sequence event))"
  shows "R g (fst (handle c wa uc cf now rnd up req g))"
proof -
  have "obeys R (route c wa uc cf now rnd req ip)" for ip
    unfolding route_def Let_def
    by (intro obeys_if obeys_option obeys_basic obeys_reads obeys_createIdentity obeys_registerSsh
        obeys_registerPasskey obeys_revoke obeys_issueChallenge obeys_verifyChallenge [OF sess] obeys_post store)
  then show ?thesis
    by (auto simp: handle_def Let_def obeys_def refl split: prod.split option.split)
      (metis fst_conv)+
qed

end

end
