(* ===== verification/Dev_Chain_Devices.thy ===== *)
theory Dev_Chain_Devices
  imports Dev_Chain_Inv
begin

text \<open>
  What backs a device certificate the development chain resolves. The invariant ties every
  stored certificate to its key, its identity root and the credential that authorised it;
  it rests on the stability of roots and on the fact that passkeys and SSH keys are only
  ever added.
\<close>

definition passkey_ids :: "chain \<Rightarrow> string \<Rightarrow> string set" where
  "passkey_ids st h = pk_credentialId ` set (jm_get_or (ch_passkeys st) h [])"

definition ssh_ids :: "chain \<Rightarrow> string \<Rightarrow> string set" where
  "ssh_ids st h = sk_fingerprint ` set (jm_get_or (ch_sshKeys st) h [])"

definition creds_view where
  "creds_view st = (ch_passkeys st, ch_sshKeys st)"

lemma creds_frames [simp]:
  "creds_view (registerAccount now w st) = creds_view st"
  "creds_view (recordActivity now w st) = creds_view st"
  "creds_view (fst (registerUsername now u w i st)) = creds_view st"
  "creds_view (fst (registerIdentity c now w i p st)) = creds_view st"
  "creds_view (fst (registerDeviceCertificate c now w cert st)) = creds_view st"
  "creds_view (fst (beginPasskeyDeviceCertificateAuthorization now rnd i cert st)) = creds_view st"
  "creds_view (fst (authorizeDeviceCertificateWithSshKey now i cert fp st)) = creds_view st"
  "creds_view (fst (revokeCredential c now w r st)) = creds_view st"
  "creds_view (fst (joinValidatorSet now w stake st)) = creds_view st"
  "creds_view (fst (leaveValidatorSet w st)) = creds_view st"
  by (simp_all add: creds_view_def chain_op_defs Let_def split: option.split bool.split)

lemma creds_view_ids: "creds_view st' = creds_view st \<Longrightarrow> passkey_ids st' = passkey_ids st \<and> ssh_ids st' = ssh_ids st"
  by (auto simp: creds_view_def passkey_ids_def ssh_ids_def fun_eq_iff)

lemma set_counter_ids [simp]: "pk_credentialId ` set (set_counter cid n ps) = pk_credentialId ` set ps"
  by (induction ps) auto

lemma registerPasskey_cases:
  "fst (registerPasskeyCredential c w i cred sig st) = st \<or>
   jm_get (ch_identityRoots st) (toHex i) = Some w \<and>
   length sig = 64 \<and> verifyPasskeyCredentialAuthorization c w i cred sig = Some True \<and>
   fst (registerPasskeyCredential c w i cred sig st) =
     st\<lparr>ch_passkeys := jm_set (toHex i) (jm_get_or (ch_passkeys st) (toHex i) [] @ [cred]) (ch_passkeys st)\<rparr>"
  by (simp add: registerPasskeyCredential_def Let_def split: option.split bool.split)

lemma registerSshKey_cases:
  "fst (registerSshKey c w i k sig st) = st \<or>
   jm_get (ch_identityRoots st) (toHex i) = Some w \<and>
   sk_fingerprint k \<notin> ssh_ids st (toHex i) \<and> \<not> isRevokedKey st (toHex i) KSsh (sk_fingerprint k) \<and>
   length (liveSshKeys st (toHex i)) < MAX_SSH_KEYS_PER_IDENTITY \<and>
   sk_fingerprint k = sshFingerprint c (sk_publicKey k) \<and>
   length sig = 64 \<and> verifySshCommitment c w i k sig = Some True \<and>
   fst (registerSshKey c w i k sig st) =
     st\<lparr>ch_sshKeys := jm_set (toHex i) (jm_get_or (ch_sshKeys st) (toHex i) [] @ [k]) (ch_sshKeys st)\<rparr>"
  by (auto simp: registerSshKey_def ssh_ids_def list_ex_iff Let_def split: option.split bool.split)

lemma commit_creds [simp]:
  "passkey_ids (fst (passkeyAuthorizationCommit now i cert cid n st)) h = passkey_ids st h"
  "ch_sshKeys (fst (passkeyAuthorizationCommit now i cert cid n st)) = ch_sshKeys st"
  by (auto simp: passkeyAuthorizationCommit_def storeDevice_def passkey_ids_def Let_def jm_get_or_set)

lemma register_creds_mono:
  "passkey_ids st h \<subseteq> passkey_ids (fst (registerPasskeyCredential c w i cred sig st)) h"
  "ssh_ids (fst (registerPasskeyCredential c w i cred sig st)) h = ssh_ids st h"
  "ssh_ids st h \<subseteq> ssh_ids (fst (registerSshKey c w i k sig st)) h"
  "passkey_ids (fst (registerSshKey c w i k sig st)) h = passkey_ids st h"
  using registerPasskey_cases [of c w i cred sig st] registerSshKey_cases [of c w i k sig st]
  by (auto simp: passkey_ids_def ssh_ids_def jm_get_or_set)

lemma chain_step_creds:
  "chain_step c st st' \<Longrightarrow> passkey_ids st h \<subseteq> passkey_ids st' h \<and> ssh_ids st h \<subseteq> ssh_ids st' h"
proof (induction rule: chain_step.induct)
  case (commit_passkey t cert i cid st now n)
  then show ?case by (simp add: ssh_ids_def)
qed (use creds_view_ids [OF creds_frames(1)] creds_view_ids [OF creds_frames(2)]
      creds_view_ids [OF creds_frames(3)] creds_view_ids [OF creds_frames(4)]
      creds_view_ids [OF creds_frames(5)] creds_view_ids [OF creds_frames(6)]
      creds_view_ids [OF creds_frames(7)] creds_view_ids [OF creds_frames(8)]
      creds_view_ids [OF creds_frames(9)] creds_view_ids [OF creds_frames(10)]
      register_creds_mono in simp_all)

section \<open>The device invariant\<close>

text \<open>The root itself signed the certificate, or the credential the authorisation names is listed.\<close>

definition listed :: "crypto \<Rightarrow> chain \<Rightarrow> bytes \<Rightarrow> device_certificate \<Rightarrow> device_authorization \<Rightarrow> bool" where
  "listed c st root cert a =
     (case da_kind a of
        ARoot \<Rightarrow> da_credentialId a = None \<and> verifyDeviceCert c cert root = Some True
      | ASsh \<Rightarrow> (\<exists>cid. da_credentialId a = Some cid \<and> cid \<in> ssh_ids st (toHex (dc_accountId cert)))
      | APasskey \<Rightarrow> (\<exists>cid. da_credentialId a = Some cid \<and> cid \<in> passkey_ids st (toHex (dc_accountId cert))))"

definition cert_shape :: "device_certificate \<Rightarrow> bool" where
  "cert_shape cert \<longleftrightarrow> length (dc_accountId cert) = 32 \<and> length (dc_deviceId cert) = 32
     \<and> length (dc_signingKey cert) = 32 \<and> length (dc_encryptionKey cert) = 32
     \<and> length (dc_rootSignature cert) = 64 \<and> dc_issuedAt cert < dc_expiresAt cert"

definition device_ok :: "crypto \<Rightarrow> chain \<Rightarrow> string \<Rightarrow> device_certificate \<Rightarrow> bool" where
  "device_ok c st key cert \<longleftrightarrow>
     key = deviceCertificateKey (dc_accountId cert) (dc_deviceId cert) \<and> cert_shape cert
     \<and> (\<exists>a root. jm_get (ch_deviceAuthorizations st) key = Some a
          \<and> jm_get (ch_identityRoots st) (toHex (dc_accountId cert)) = Some root
          \<and> listed c st root cert a)"

definition devices_inv :: "crypto \<Rightarrow> chain \<Rightarrow> bool" where
  "devices_inv c st \<longleftrightarrow>
     (\<forall>key cert. jm_get (ch_deviceCertificates st) key = Some cert \<longrightarrow> device_ok c st key cert)
     \<and> (\<forall>h. passkey_ids st h \<noteq> {} \<or> ssh_ids st h \<noteq> {} \<longrightarrow> jm_get (ch_identityRoots st) h \<noteq> None)"

lemma listed_mono:
  assumes "listed c st root cert a" "passkey_ids st (toHex (dc_accountId cert)) \<subseteq> passkey_ids st' (toHex (dc_accountId cert))"
    "ssh_ids st (toHex (dc_accountId cert)) \<subseteq> ssh_ids st' (toHex (dc_accountId cert))"
  shows "listed c st' root cert a"
  using assms by (auto simp: listed_def split: auth_kind.splits)

lemma device_ok_mono:
  assumes "device_ok c st key cert" "chain_step c st st'"
    "jm_get (ch_deviceAuthorizations st') key = jm_get (ch_deviceAuthorizations st) key"
  shows "device_ok c st' key cert"
  using assms chain_step_creds [OF assms(2)] chain_step_roots [OF assms(2)] listed_mono
  unfolding device_ok_def by metis

text \<open>A step that leaves both device maps alone and registers credentials only under a root.\<close>

lemma devices_inv_frame:
  assumes inv: "devices_inv c st" and step: "chain_step c st st'"
    and view: "devices_view st' = devices_view st"
    and new: "\<And>h. passkey_ids st' h \<noteq> {} \<or> ssh_ids st' h \<noteq> {} \<Longrightarrow> jm_get (ch_identityRoots st') h \<noteq> None"
  shows "devices_inv c st'"
  unfolding devices_inv_def
proof (intro conjI allI impI)
  fix key cert assume "jm_get (ch_deviceCertificates st') key = Some cert"
  then show "device_ok c st' key cert"
    using inv view device_ok_mono [OF _ step] by (auto simp: devices_inv_def devices_view_def)
next
  fix h assume "passkey_ids st' h \<noteq> {} \<or> ssh_ids st' h \<noteq> {}"
  then show "jm_get (ch_identityRoots st') h \<noteq> None" by (rule new)
qed

lemma roots_kept: "chain_step c st st' \<Longrightarrow> jm_get (ch_identityRoots st) h \<noteq> None \<Longrightarrow> jm_get (ch_identityRoots st') h \<noteq> None"
  using chain_step_roots by fastforce

lemma devices_inv_quiet:
  assumes inv: "devices_inv c st" and step: "chain_step c st st'"
    and "devices_view st' = devices_view st" and creds: "creds_view st' = creds_view st"
  shows "devices_inv c st'"
proof (rule devices_inv_frame [OF inv step assms(3)])
  fix h assume "passkey_ids st' h \<noteq> {} \<or> ssh_ids st' h \<noteq> {}"
  then show "jm_get (ch_identityRoots st') h \<noteq> None"
    using inv creds_view_ids [OF creds] roots_kept [OF step] by (auto simp: devices_inv_def)
qed

text \<open>Storing such a certificate under its own key keeps the invariant.\<close>

lemma devices_inv_store:
  assumes inv: "devices_inv c st" and shape: "cert_shape cert"
    and root: "jm_get (ch_identityRoots st) (toHex (dc_accountId cert)) = Some root"
    and bk: "listed c st root cert a"
  shows "devices_inv c (storeDevice cert a st)"
proof -
  let ?st = "storeDevice cert a st"
  have same: "passkey_ids ?st = passkey_ids st" "ssh_ids ?st = ssh_ids st"
    "ch_identityRoots ?st = ch_identityRoots st"
    by (auto simp: storeDevice_def Let_def passkey_ids_def ssh_ids_def)
  have b: "listed c ?st = listed c st" by (intro ext) (simp only: listed_def same)
  show ?thesis
    unfolding devices_inv_def
  proof (intro conjI allI impI)
    fix key cert' assume k: "jm_get (ch_deviceCertificates ?st) key = Some cert'"
    show "device_ok c ?st key cert'"
    proof (cases "key = deviceCertificateKey (dc_accountId cert) (dc_deviceId cert)")
      case True
      then have "cert' = cert" using k by (simp add: storeDevice_def Let_def jm_get_set)
      then show ?thesis
        using True shape root bk
        by (simp add: device_ok_def b same) (simp add: storeDevice_def Let_def jm_get_set)
    next
      case False
      then have "jm_get (ch_deviceCertificates st) key = Some cert'"
        using k by (simp add: storeDevice_def Let_def jm_get_set)
      then have "device_ok c st key cert'" using inv by (simp add: devices_inv_def)
      moreover have "jm_get (ch_deviceAuthorizations ?st) key = jm_get (ch_deviceAuthorizations st) key"
        using False by (simp add: storeDevice_def Let_def jm_get_set)
      ultimately show ?thesis by (auto simp: device_ok_def b same)
    qed
  next
    fix h assume "passkey_ids ?st h \<noteq> {} \<or> ssh_ids ?st h \<noteq> {}"
    then show "jm_get (ch_identityRoots ?st) h \<noteq> None"
      using inv by (simp add: devices_inv_def same)
  qed
qed

lemma devices_inv_pending: "devices_inv c (st\<lparr>ch_pending := p\<rparr>) = devices_inv c st"
  by (simp add: devices_inv_def device_ok_def listed_def passkey_ids_def ssh_ids_def cong: auth_kind.case_cong)

lemma shape_valid: "isDeviceCertificateShapeValid now cert i \<Longrightarrow> cert_shape cert \<and> dc_accountId cert = i"
  by (auto simp: isDeviceCertificateShapeValid_def cert_shape_def)

lemma registerDevice_inv:
  assumes "devices_inv c st"
  shows "devices_inv c (fst (registerDeviceCertificate c now w cert st))"
proof (cases "snd (registerDeviceCertificate c now w cert st) = Inr cert")
  case True
  then have g: "cert_shape cert" "jm_get (ch_identityRoots st) (toHex (dc_accountId cert)) = Some w"
    "verifyDeviceCert c cert w = Some True"
    "fst (registerDeviceCertificate c now w cert st) = storeDevice cert \<lparr>da_kind = ARoot, da_credentialId = None\<rparr> st"
    by (auto simp: registerDeviceCertificate_def cert_shape_def Let_def split: if_splits option.splits bool.splits)
  show ?thesis
    unfolding g(4) using assms g(1,2,3) by (intro devices_inv_store) (auto simp: listed_def)
next
  case False
  then have "fst (registerDeviceCertificate c now w cert st) = st"
    by (auto simp: registerDeviceCertificate_def Let_def split: if_splits option.splits bool.splits)
  then show ?thesis using assms by simp
qed

lemma resolveSshKey_id: "resolveSshKey i fp st \<noteq> None \<Longrightarrow> fp \<in> ssh_ids st (toHex i)"
  by (auto simp: resolveSshKey_def ssh_ids_def Let_def find_Some_iff in_set_conv_nth split: if_splits)
     (metis image_eqI nth_mem)

lemma authorizeSsh_inv:
  assumes inv: "devices_inv c st"
  shows "devices_inv c (fst (authorizeDeviceCertificateWithSshKey now i cert fp st))"
proof (cases "snd (authorizeDeviceCertificateWithSshKey now i cert fp st) = Inr cert")
  case True
  then have g: "isDeviceCertificateShapeValid now cert i" "resolveSshKey i fp st \<noteq> None"
    "fst (authorizeDeviceCertificateWithSshKey now i cert fp st)
       = storeDevice cert \<lparr>da_kind = ASsh, da_credentialId = Some fp\<rparr> st"
    by (auto simp: authorizeDeviceCertificateWithSshKey_def Let_def split: if_splits)
  have ids: "fp \<in> ssh_ids st (toHex (dc_accountId cert))"
    using resolveSshKey_id [OF g(2)] shape_valid [OF g(1)] by simp
  then obtain root where "jm_get (ch_identityRoots st) (toHex (dc_accountId cert)) = Some root"
    using inv by (auto simp: devices_inv_def)
  then show ?thesis
    unfolding g(3) using inv shape_valid [OF g(1)] ids by (intro devices_inv_store) (auto simp: listed_def)
next
  case False
  then have "fst (authorizeDeviceCertificateWithSshKey now i cert fp st) = st"
    by (auto simp: authorizeDeviceCertificateWithSshKey_def Let_def split: if_splits)
  then show ?thesis using inv by simp
qed

lemma commit_inv:
  assumes inv: "devices_inv c st" and shape: "isDeviceCertificateShapeValid t cert i"
    and cid: "cid \<in> passkey_ids st (toHex i)"
  shows "devices_inv c (fst (passkeyAuthorizationCommit now i cert cid n st))"
proof -
  define st1 where "st1 = st\<lparr>ch_passkeys := jm_set (toHex i)
      (set_counter cid n (jm_get_or (ch_passkeys st) (toHex i) [])) (ch_passkeys st)\<rparr>"
  have ids: "passkey_ids st1 = passkey_ids st" "ssh_ids st1 = ssh_ids st"
    by (auto simp: st1_def passkey_ids_def ssh_ids_def jm_get_or_set fun_eq_iff)
  have inv1: "devices_inv c st1"
    using inv ids by (simp add: devices_inv_def device_ok_def listed_def st1_def cong: auth_kind.case_cong)
  have i: "dc_accountId cert = i" "cert_shape cert" using shape_valid [OF shape] by auto
  obtain root where root: "jm_get (ch_identityRoots st1) (toHex (dc_accountId cert)) = Some root"
    using inv1 cid ids i by (auto simp: devices_inv_def)
  have "devices_inv c (storeDevice cert \<lparr>da_kind = APasskey, da_credentialId = Some cid\<rparr> st1)"
    using inv1 root cid ids i by (intro devices_inv_store) (auto simp: listed_def)
  then show ?thesis
    using inv1 by (simp add: passkeyAuthorizationCommit_def Let_def devices_inv_pending flip: st1_def)
qed

lemma chain_step_devices_inv:
  assumes "chain_step c st st'" and inv: "devices_inv c st"
  shows "devices_inv c st'"
  using assms(1)
proof (cases rule: chain_step.cases)
  case (passkey w i cred sig)
  show ?thesis
  proof (rule devices_inv_frame [OF inv assms(1)])
    fix h assume h: "passkey_ids st' h \<noteq> {} \<or> ssh_ids st' h \<noteq> {}"
    show "jm_get (ch_identityRoots st') h \<noteq> None"
      using h inv registerPasskey_cases [of c w i cred sig st] unfolding passkey
      by (auto simp: devices_inv_def passkey_ids_def ssh_ids_def jm_get_or_set split: if_splits)
  qed (simp add: passkey)
next
  case (ssh w i k sig)
  show ?thesis
  proof (rule devices_inv_frame [OF inv assms(1)])
    fix h assume h: "passkey_ids st' h \<noteq> {} \<or> ssh_ids st' h \<noteq> {}"
    show "jm_get (ch_identityRoots st') h \<noteq> None"
      using h inv registerSshKey_cases [of c w i k sig st] unfolding ssh
      by (auto simp: devices_inv_def passkey_ids_def ssh_ids_def jm_get_or_set split: if_splits)
  qed (simp add: ssh)
next
  case (commit_passkey t cert i cid now n)
  then show ?thesis using commit_inv [OF inv] by (simp add: passkey_ids_def)
next
  case (device now w cert)
  then show ?thesis using registerDevice_inv [OF inv] by simp
next
  case (device_ssh now i cert fp)
  then show ?thesis using authorizeSsh_inv [OF inv] by simp
qed (rule devices_inv_quiet [OF inv assms(1)]; simp)+

lemma reach_devices_inv: "chain_reach c st \<Longrightarrow> devices_inv c st"
proof (induction rule: chain_reach.induct)
  case start
  show ?case by (simp add: devices_inv_def empty_chain_def passkey_ids_def ssh_ids_def jm_get_or_def)
next
  case (step st st')
  then show ?case by (blast intro: chain_step_devices_inv)
qed

section \<open>The root's signature on every credential\<close>

text \<open>
  A signature of the root over the credential: the commitment to an SSH key, whose fingerprint is the
  one of its key, or the authorisation of a passkey.
\<close>

definition ssh_signed :: "crypto \<Rightarrow> bytes \<Rightarrow> bytes \<Rightarrow> ssh_commitment \<Rightarrow> bool" where
  "ssh_signed c root i k \<longleftrightarrow> sk_fingerprint k = sshFingerprint c (sk_publicKey k)
     \<and> (\<exists>sig. length sig = 64 \<and> verifySshCommitment c root i k sig = Some True)"

definition passkey_signed :: "crypto \<Rightarrow> bytes \<Rightarrow> bytes \<Rightarrow> passkey_credential \<Rightarrow> bool" where
  "passkey_signed c root i p \<longleftrightarrow> (\<exists>sig. length sig = 64 \<and> verifyPasskeyCredentialAuthorization c root i p sig = Some True)"

definition creds_inv :: "crypto \<Rightarrow> chain \<Rightarrow> bool" where
  "creds_inv c st \<longleftrightarrow>
     (\<forall>i k. k \<in> set (jm_get_or (ch_sshKeys st) (toHex i) []) \<longrightarrow>
        (\<exists>root. jm_get (ch_identityRoots st) (toHex i) = Some root \<and> ssh_signed c root i k))
     \<and> (\<forall>i p. p \<in> set (jm_get_or (ch_passkeys st) (toHex i) []) \<longrightarrow>
        (\<exists>root. jm_get (ch_identityRoots st) (toHex i) = Some root \<and> passkey_signed c root i p))"

lemma creds_inv_grow:
  assumes "creds_inv c st" "\<And>h w. jm_get (ch_identityRoots st) h = Some w \<Longrightarrow> jm_get (ch_identityRoots st') h = Some w"
    and "\<And>i k. k \<in> set (jm_get_or (ch_sshKeys st') (toHex i) []) \<Longrightarrow> k \<in> set (jm_get_or (ch_sshKeys st) (toHex i) [])
      \<or> (\<exists>root. jm_get (ch_identityRoots st') (toHex i) = Some root \<and> ssh_signed c root i k)"
    and "\<And>i p. p \<in> set (jm_get_or (ch_passkeys st') (toHex i) []) \<Longrightarrow>
      (\<exists>q \<in> set (jm_get_or (ch_passkeys st) (toHex i) []). passkeyPreimage i p = passkeyPreimage i q)
      \<or> (\<exists>root. jm_get (ch_identityRoots st') (toHex i) = Some root \<and> passkey_signed c root i p)"
  shows "creds_inv c st'"
proof -
  have "\<exists>root. jm_get (ch_identityRoots st') (toHex i) = Some root \<and> ssh_signed c root i k"
    if "k \<in> set (jm_get_or (ch_sshKeys st') (toHex i) [])" for i k
    using assms(1,2) assms(3) [OF that] unfolding creds_inv_def by blast
  moreover have "\<exists>root. jm_get (ch_identityRoots st') (toHex i) = Some root \<and> passkey_signed c root i p"
    if "p \<in> set (jm_get_or (ch_passkeys st') (toHex i) [])" for i p
  proof -
    have "\<exists>root. jm_get (ch_identityRoots st') (toHex i) = Some root \<and> passkey_signed c root i p"
      if q: "q \<in> set (jm_get_or (ch_passkeys st) (toHex i) [])" "passkeyPreimage i p = passkeyPreimage i q" for q
    proof -
      obtain root where "jm_get (ch_identityRoots st) (toHex i) = Some root" "passkey_signed c root i q"
        using assms(1) q(1) unfolding creds_inv_def by blast
      then show ?thesis using assms(2) q(2) by (auto simp: passkey_signed_def verifyPasskeyCredentialAuthorization_def)
    qed
    then show ?thesis using assms(4) [OF that] by blast
  qed
  ultimately show ?thesis unfolding creds_inv_def by blast
qed

lemma set_counter_preimage: "p \<in> set (set_counter cid n ps) \<Longrightarrow> \<exists>q\<in>set ps. passkeyPreimage i p = passkeyPreimage i q"
  by (induction ps) (auto simp: passkeyPreimage_def split: if_splits)

lemma creds_inv_quiet: "creds_inv c st \<Longrightarrow> chain_step c st st' \<Longrightarrow> creds_view st' = creds_view st \<Longrightarrow> creds_inv c st'"
proof -
  assume "creds_inv c st" "chain_step c st st'" "creds_view st' = creds_view st"
  then show "creds_inv c st'" by (intro creds_inv_grow [of c st st'] chain_step_roots [of c st st']) (auto simp: creds_view_def)
qed

lemma chain_step_creds_inv:
  assumes "chain_step c st st'" and inv: "creds_inv c st"
  shows "creds_inv c st'"
  using assms(1)
proof (cases rule: chain_step.cases)
  case (passkey w i cred sig)
  then show ?thesis
    using registerPasskey_cases [of c w i cred sig st] inv
    by (intro creds_inv_grow [OF inv chain_step_roots [OF assms(1)]])
       (auto simp: jm_get_or_set passkey_signed_def split: if_splits)
next
  case (ssh w i k sig)
  then show ?thesis
    using registerSshKey_cases [of c w i k sig st] inv
    by (intro creds_inv_grow [OF inv chain_step_roots [OF assms(1)]])
       (auto simp: jm_get_or_set ssh_signed_def split: if_splits)
next
  case (commit_passkey t cert i cid now n)
  have keys: "ch_sshKeys st' = ch_sshKeys st" using commit_passkey(1) by simp
  have "ch_passkeys st' = jm_set (toHex i) (set_counter cid n (jm_get_or (ch_passkeys st) (toHex i) [])) (ch_passkeys st)"
    using commit_passkey(1) by (simp add: passkeyAuthorizationCommit_def storeDevice_def Let_def)
  then show ?thesis
    using keys by (intro creds_inv_grow [OF inv chain_step_roots [OF assms(1)]])
      (auto simp: jm_get_or_set set_counter_preimage split: if_splits)
qed (rule creds_inv_quiet [OF inv assms(1)]; simp)+

lemma reach_creds_inv: "chain_reach c st \<Longrightarrow> creds_inv c st"
proof (induction rule: chain_reach.induct)
  case start
  show ?case by (simp add: creds_inv_def empty_chain_def jm_get_or_def)
next
  case (step st st')
  then show ?case by (blast intro: chain_step_creds_inv)
qed

text \<open>
  What stands behind a certificate: the root's own signature on it, or a registered SSH key or passkey
  that the root signed for this identity.
\<close>

definition backed :: "crypto \<Rightarrow> chain \<Rightarrow> bytes \<Rightarrow> device_certificate \<Rightarrow> device_authorization \<Rightarrow> bool" where
  "backed c st root cert a =
     (case da_kind a of
        ARoot \<Rightarrow> da_credentialId a = None \<and> verifyDeviceCert c cert root = Some True
      | ASsh \<Rightarrow> (\<exists>k \<in> set (jm_get_or (ch_sshKeys st) (toHex (dc_accountId cert)) []).
          da_credentialId a = Some (sk_fingerprint k) \<and> ssh_signed c root (dc_accountId cert) k)
      | APasskey \<Rightarrow> (\<exists>p \<in> set (jm_get_or (ch_passkeys st) (toHex (dc_accountId cert)) []).
          da_credentialId a = Some (pk_credentialId p) \<and> passkey_signed c root (dc_accountId cert) p))"

lemma device_backed:
  assumes "chain_reach c st" "jm_get (ch_deviceCertificates st) key = Some cert"
  obtains root a where "jm_get (ch_deviceAuthorizations st) key = Some a"
    "jm_get (ch_identityRoots st) (toHex (dc_accountId cert)) = Some root" "backed c st root cert a"
proof -
  have "device_ok c st key cert" using reach_devices_inv [OF assms(1)] assms(2) by (simp add: devices_inv_def)
  then obtain root a where a: "jm_get (ch_deviceAuthorizations st) key = Some a"
    "jm_get (ch_identityRoots st) (toHex (dc_accountId cert)) = Some root" "listed c st root cert a"
    by (auto simp: device_ok_def)
  have "backed c st root cert a"
    using a(2,3) reach_creds_inv [OF assms(1)]
    by (cases "da_kind a") (auto simp: listed_def backed_def creds_inv_def ssh_ids_def passkey_ids_def; force)+
  then show ?thesis using a(1,2) that by blast
qed

end
