(* ===== verification/Dev_Chain_Limits.thy ===== *)
theory Dev_Chain_Limits
  imports Dev_Chain_Devices
begin

text \<open>
  The resource limits of the development chain: SSH keys per identity, pending passkey
  authorisations per identity, and the validator set of AD-14.
\<close>

section \<open>SSH keys\<close>

definition ssh_inv :: "chain \<Rightarrow> bool" where
  "ssh_inv st \<longleftrightarrow> (\<forall>h. distinct (map sk_fingerprint (jm_get_or (ch_sshKeys st) h []))
     \<and> length (liveSshKeys st h) \<le> MAX_SSH_KEYS_PER_IDENTITY)"

lemma length_filter_mono: "(\<And>x. P x \<Longrightarrow> Q x) \<Longrightarrow> length (filter P xs) \<le> length (filter Q xs)"
  by (induction xs) auto

lemma ssh_inv_mono:
  assumes "ssh_inv st" "ch_sshKeys st' = ch_sshKeys st" "\<And>h k x. isRevokedKey st h k x \<Longrightarrow> isRevokedKey st' h k x"
  shows "ssh_inv st'"
  unfolding ssh_inv_def
proof
  fix h
  have "length (liveSshKeys st' h) \<le> length (liveSshKeys st h)"
    unfolding liveSshKeys_def assms(2) by (rule length_filter_mono) (use assms(3) in blast)
  also have "\<dots> \<le> MAX_SSH_KEYS_PER_IDENTITY"
    using assms(1) by (simp add: ssh_inv_def)
  finally show "distinct (map sk_fingerprint (jm_get_or (ch_sshKeys st') h []))
     \<and> length (liveSshKeys st' h) \<le> MAX_SSH_KEYS_PER_IDENTITY"
    using assms(1) by (simp add: ssh_inv_def assms(2))
qed

lemma registerSshKey_inv:
  assumes inv: "ssh_inv st"
  shows "ssh_inv (fst (registerSshKey c w i k sig st))"
proof -
  consider "fst (registerSshKey c w i k sig st) = st"
    | "sk_fingerprint k \<notin> ssh_ids st (toHex i)" "length (liveSshKeys st (toHex i)) < MAX_SSH_KEYS_PER_IDENTITY"
      "fst (registerSshKey c w i k sig st) =
         st\<lparr>ch_sshKeys := jm_set (toHex i) (jm_get_or (ch_sshKeys st) (toHex i) [] @ [k]) (ch_sshKeys st)\<rparr>"
    using registerSshKey_cases [of c w i k sig st] by blast
  then show ?thesis
  proof cases
    case 2
    then show ?thesis
      using inv by (auto simp: ssh_inv_def ssh_ids_def liveSshKeys_def jm_get_or_set isRevokedKey_def)
  qed (simp add: inv)
qed

lemma ssh_keys_frames [simp]:
  "ch_sshKeys (registerAccount now w st) = ch_sshKeys st"
  "ch_sshKeys (recordActivity now w st) = ch_sshKeys st"
  "ch_sshKeys (fst (registerUsername now u w i st)) = ch_sshKeys st"
  "ch_sshKeys (fst (registerIdentity c now w i p st)) = ch_sshKeys st"
  "ch_sshKeys (fst (registerDeviceCertificate c now w cert st)) = ch_sshKeys st"
  "ch_sshKeys (fst (registerPasskeyCredential c w i cred sig st)) = ch_sshKeys st"
  "ch_sshKeys (fst (beginPasskeyDeviceCertificateAuthorization now rnd i cert st)) = ch_sshKeys st"
  "ch_sshKeys (fst (authorizeDeviceCertificateWithSshKey now i cert fp st)) = ch_sshKeys st"
  "ch_sshKeys (fst (revokeCredential c now w r st)) = ch_sshKeys st"
  "ch_sshKeys (fst (joinValidatorSet now w stake st)) = ch_sshKeys st"
  "ch_sshKeys (fst (leaveValidatorSet w st)) = ch_sshKeys st"
  by (simp_all add: chain_op_defs Let_def split: option.split bool.split)

lemma chain_step_ssh_inv:
  assumes step: "chain_step c st st'" and inv: "ssh_inv st"
  shows "ssh_inv st'"
  using step
proof (cases rule: chain_step.cases)
  case (ssh w i k sig)
  then show ?thesis using registerSshKey_inv [OF inv] by simp
qed (rule ssh_inv_mono [OF inv]; use chain_step_revocations [OF step] in simp)+

section \<open>Pending passkey authorisations\<close>

definition pending_count :: "chain \<Rightarrow> string \<Rightarrow> nat" where
  "pending_count st identityHex =
     length (filter (\<lambda>(key, pending). starts_with (identityHex @ '':'') key) (ch_pending st))"

definition pending_inv :: "chain \<Rightarrow> bool" where
  "pending_inv st \<longleftrightarrow> (\<forall>i. pending_count st (toHex i) \<le> MAX_PENDING_PASSKEYS_PER_IDENTITY)"

lemma starts_with_key: "starts_with (toHex i' @ '':'') (pendingKey (toHex i) d) \<longleftrightarrow> i' = i"
proof
  assume "starts_with (toHex i' @ '':'') (pendingKey (toHex i) d)"
  then obtain r where "pendingKey (toHex i) d = (toHex i' @ '':'') @ r"
    unfolding starts_with_def by (metis append_take_drop_id)
  then have "toHex i @ CHR '':'' # toHex d = toHex i' @ CHR '':'' # r"
    by (simp add: pendingKey_def)
  then have "toHex i = toHex i'" using split_at_separator by (metis toHex_no_colon)
  then show "i' = i" by simp
qed (simp add: starts_with_def pendingKey_def)

lemma count_jm_set:
  "length (filter (\<lambda>(k, v). P k) (jm_set key x m)) =
     length (filter (\<lambda>(k, v). P k) m) + (if jm_get m key = None \<and> P key then 1 else 0)"
  by (induction m) (auto simp: jm_set_def jm_get_def)

lemma filter_count_le:
  "length (filter P (filter Q xs)) \<le> length (filter P xs)"
  by (simp add: filter_filter) (induction xs; auto)

lemma begin_pending_inv:
  assumes inv: "pending_inv st"
  shows "pending_inv (fst (beginPasskeyDeviceCertificateAuthorization now rnd i cert st))"
proof -
  define st1 where "st1 = fst (prunePendingPasskeys now (toHex i) st)"
  have prune: "prunePendingPasskeys now (toHex i) st = (st1, pending_count st1 (toHex i))"
    by (simp add: st1_def prunePendingPasskeys_def pending_count_def Let_def)
  have inv1: "pending_inv st1"
    using inv filter_count_le le_trans
    unfolding pending_inv_def st1_def prunePendingPasskeys_def pending_count_def Let_def fst_conv
    by (metis (no_types, lifting) chain.select_convs(7) chain.update_convs(7) chain.surjective)
  show ?thesis
  proof (cases "fst (beginPasskeyDeviceCertificateAuthorization now rnd i cert st) \<in> {st, st1}")
    case True
    then show ?thesis using inv inv1 by auto
  next
    case False
    obtain a where new: "fst (beginPasskeyDeviceCertificateAuthorization now rnd i cert st) =
        st1\<lparr>ch_pending := jm_set (pendingKey (toHex i) (dc_deviceId cert)) a (ch_pending st1)\<rparr>"
      and room: "pending_count st1 (toHex i) < MAX_PENDING_PASSKEYS_PER_IDENTITY
        \<or> jm_has (ch_pending st1) (pendingKey (toHex i) (dc_deviceId cert))"
      using False
      by (auto simp: beginPasskeyDeviceCertificateAuthorization_def prune Let_def split: if_splits)
    have "pending_count (fst (beginPasskeyDeviceCertificateAuthorization now rnd i cert st)) (toHex i')
        \<le> MAX_PENDING_PASSKEYS_PER_IDENTITY" for i'
      using inv1 room unfolding new pending_inv_def
      by (auto simp: pending_count_def count_jm_set starts_with_key jm_has_get)
    then show ?thesis by (simp add: pending_inv_def)
  qed
qed

lemma pending_frames [simp]:
  "ch_pending (registerAccount now w st) = ch_pending st"
  "ch_pending (recordActivity now w st) = ch_pending st"
  "ch_pending (fst (registerUsername now u w i st)) = ch_pending st"
  "ch_pending (fst (registerIdentity c now w i p st)) = ch_pending st"
  "ch_pending (fst (registerDeviceCertificate c now w cert st)) = ch_pending st"
  "ch_pending (fst (registerPasskeyCredential c w i cred sig st)) = ch_pending st"
  "ch_pending (fst (registerSshKey c w i k sig st)) = ch_pending st"
  "ch_pending (fst (authorizeDeviceCertificateWithSshKey now i cert fp st)) = ch_pending st"
  "ch_pending (fst (revokeCredential c now w r st)) = ch_pending st"
  "ch_pending (fst (joinValidatorSet now w stake st)) = ch_pending st"
  "ch_pending (fst (leaveValidatorSet w st)) = ch_pending st"
  by (simp_all add: chain_op_defs Let_def split: option.split bool.split)

lemma commit_pending:
  "ch_pending (fst (passkeyAuthorizationCommit now i cert cid n st)) \<in>
     {ch_pending st, jm_del (pendingKey (toHex i) (dc_deviceId cert)) (ch_pending st)}"
  by (simp add: passkeyAuthorizationCommit_def storeDevice_def Let_def)

lemma pending_inv_mono:
  "pending_inv st \<Longrightarrow> ch_pending st' = ch_pending st \<Longrightarrow> pending_inv st'"
  by (simp add: pending_inv_def pending_count_def)

lemma chain_step_pending_inv:
  assumes step: "chain_step c st st'" and inv: "pending_inv st"
  shows "pending_inv st'"
  using step
proof (cases rule: chain_step.cases)
  case (begin_passkey now rnd i cert)
  then show ?thesis using begin_pending_inv [OF inv] by simp
next
  case (commit_passkey t cert i cid now n)
  have "pending_count st' h \<le> pending_count st h" for h
    using commit_pending [of now i cert cid n st] filter_count_le
    unfolding commit_passkey pending_count_def jm_del_def by auto
  then show ?thesis using inv le_trans unfolding pending_inv_def by blast
qed (rule pending_inv_mono [OF inv]; simp)+

section \<open>Validators\<close>

definition validator_ok :: "validator_record \<Rightarrow> bool" where
  "validator_ok v \<longleftrightarrow> MIN_BOND \<le> va_bondedStake v
     \<and> va_effectivePower v = min (va_bondedStake v) VALIDATOR_POWER_CAP"

definition validators_inv :: "chain \<Rightarrow> bool" where
  "validators_inv st \<longleftrightarrow> jm_ok (ch_validators st) \<and> jm_size (ch_validators st) \<le> MAX_VALIDATORS
     \<and> (\<forall>(k, v) \<in> set (ch_validators st). k = toHex (va_wallet v) \<and> validator_ok v)"

lemma validators_frames [simp]:
  "ch_validators (registerAccount now w st) = ch_validators st"
  "ch_validators (recordActivity now w st) = ch_validators st"
  "ch_validators (fst (registerUsername now u w i st)) = ch_validators st"
  "ch_validators (fst (registerIdentity c now w i p st)) = ch_validators st"
  "ch_validators (fst (registerDeviceCertificate c now w cert st)) = ch_validators st"
  "ch_validators (fst (registerPasskeyCredential c w i cred sig st)) = ch_validators st"
  "ch_validators (fst (beginPasskeyDeviceCertificateAuthorization now rnd i cert st)) = ch_validators st"
  "ch_validators (fst (passkeyAuthorizationCommit now i cert cid n st)) = ch_validators st"
  "ch_validators (fst (registerSshKey c w i k sig st)) = ch_validators st"
  "ch_validators (fst (authorizeDeviceCertificateWithSshKey now i cert fp st)) = ch_validators st"
  "ch_validators (fst (revokeCredential c now w r st)) = ch_validators st"
  by (simp_all add: chain_op_defs Let_def split: option.split bool.split)

lemma join_inv: "validators_inv st \<Longrightarrow> validators_inv (fst (joinValidatorSet now w stake st))"
  by (auto simp: validators_inv_def joinValidatorSet_def Let_def jm_size_set validator_ok_def
      dest!: jm_set_set)

lemma leave_inv: "validators_inv st \<Longrightarrow> validators_inv (fst (leaveValidatorSet w st))"
  by (auto simp: validators_inv_def leaveValidatorSet_def Let_def jm_has_get jm_size_del)
     (auto simp: jm_del_def)

lemma validators_inv_eq: "validators_inv st \<Longrightarrow> ch_validators st' = ch_validators st \<Longrightarrow> validators_inv st'"
  by (simp add: validators_inv_def)

lemma chain_step_validators_inv:
  assumes step: "chain_step c st st'" and inv: "validators_inv st"
  shows "validators_inv st'"
  using step
proof (cases rule: chain_step.cases)
  case (join_set now w stake)
  then show ?thesis using join_inv [OF inv] by simp
next
  case (leave_set w)
  then show ?thesis using leave_inv [OF inv] by simp
qed (rule validators_inv_eq [OF inv]; simp)+

lemma chain_step_min_validators:
  assumes step: "chain_step c st st'" and inv: "validators_inv st"
    and "MIN_VALIDATORS \<le> jm_size (ch_validators st)"
  shows "MIN_VALIDATORS \<le> jm_size (ch_validators st')"
  using step
proof (cases rule: chain_step.cases)
  case (leave_set w)
  then show ?thesis
    using assms(3) inv by (auto simp: leaveValidatorSet_def Let_def jm_has_get jm_size_del validators_inv_def)
next
  case (join_set now w stake)
  then show ?thesis using assms(3) by (auto simp: joinValidatorSet_def Let_def jm_size_set)
qed (use assms(3) in simp_all)

lemma reach_limits: "chain_reach c st \<Longrightarrow> ssh_inv st \<and> pending_inv st \<and> validators_inv st"
proof (induction rule: chain_reach.induct)
  case start
  show ?case
    by (simp add: empty_chain_def ssh_inv_def pending_inv_def validators_inv_def liveSshKeys_def
        pending_count_def jm_get_or_def jm_size_def)
next
  case (step st st')
  then show ?case
    using chain_step_ssh_inv chain_step_pending_inv chain_step_validators_inv by blast
qed

end
