(* ===== verification/Chain_Properties.thy ===== *)
theory Chain_Properties
  imports Dev_Chain_Persist
begin

text \<open>
  What the development chain promises to its clients, over every reachable state: names,
  identity roots, certificates, revocation, the resource limits, and restarts. The sample
  run at the start is the concrete input of the witnesses.
\<close>

section \<open>A sample run\<close>

definition demo_wallet :: bytes where "demo_wallet = replicate 32 1"
definition demo_identity :: bytes where "demo_identity = replicate 32 2"
definition demo_device :: bytes where "demo_device = replicate 32 3"

definition demo_named :: chain where
  "demo_named = fst (registerUsername (8 * DAY_MS) '' Alice'' demo_wallet demo_identity
     (registerAccount 0 demo_wallet empty_chain))"

definition demo_certificate :: device_certificate where
  "demo_certificate = issueDeviceCert sample_crypto demo_wallet (replicate 32 4) (replicate 32 5)
     demo_device demo_identity (8 * DAY_MS) (9 * DAY_MS) 0"

definition demo_enrolled :: chain where
  "demo_enrolled = fst (registerDeviceCertificate sample_crypto (8 * DAY_MS) demo_wallet demo_certificate demo_named)"

definition demo_revocation :: revocation where
  "demo_revocation = signRevocation sample_crypto demo_wallet \<lparr>rv_accountId = demo_identity,
     rv_kind = KDevice, rv_credentialId = toHex demo_device, rv_sequence = 7, rv_rootSignature = []\<rparr>"

definition demo_revoked :: chain where
  "demo_revoked = fst (revokeCredential sample_crypto (8 * DAY_MS) demo_wallet demo_revocation demo_enrolled)"

lemma demo_lengths [simp]: "length demo_wallet = 32" "length demo_identity = 32" "length demo_device = 32"
  by (simp_all add: demo_wallet_def demo_identity_def demo_device_def)

lemma demo_named_reach: "chain_reach c demo_named"
  unfolding demo_named_def
  by (rule chain_reach.step [OF chain_reach.step [OF chain_reach.start chain_step.account] chain_step.username])

lemma demo_enrolled_reach: "chain_reach sample_crypto demo_enrolled"
  unfolding demo_enrolled_def by (rule chain_reach.step [OF demo_named_reach chain_step.device])

lemma demo_register:
  "registerUsername (8 * DAY_MS) '' Alice'' demo_wallet demo_identity (registerAccount 0 demo_wallet empty_chain)
   = (demo_named, Inr \<lparr>un_username = ''alice'', un_ownerWallet = demo_wallet,
        un_identityId = demo_identity, un_registeredAt = 8 * DAY_MS\<rparr>)"
  unfolding demo_named_def by code_simp

lemma demo_root: "jm_get (ch_identityRoots demo_named) (toHex demo_identity) = Some demo_wallet"
  unfolding demo_named_def by code_simp

lemma demo_alice: "resolveUsername ''ALICE'' demo_named = Some \<lparr>un_username = ''alice'',
    un_ownerWallet = demo_wallet, un_identityId = demo_identity, un_registeredAt = 8 * DAY_MS\<rparr>"
  unfolding demo_named_def by code_simp

lemma demo_certificate_fields [simp]:
  "dc_accountId demo_certificate = demo_identity" "dc_deviceId demo_certificate = demo_device"
  "dc_signingKey demo_certificate = replicate 32 4" "dc_encryptionKey demo_certificate = replicate 32 5"
  "dc_issuedAt demo_certificate = 8 * DAY_MS" "dc_expiresAt demo_certificate = 9 * DAY_MS"
  "length (dc_rootSignature demo_certificate) = 64"
  "verifyDeviceCert sample_crypto demo_certificate demo_wallet = Some True"
  by (simp_all add: demo_certificate_def issueDeviceCert_def Let_def verifyDeviceCert_def sample_crypto_def
      deviceCertPreimage_def)

lemma demo_named_devices: "ch_deviceCertificates demo_named = []" "ch_revocations demo_named = []"
   "ch_deviceAuthorizations demo_named = []" "ch_revocationSequences demo_named = []"
  unfolding demo_named_def by (simp_all add: registerUsername_def registerAccount_def bindUsername_def
      appendHistory_def empty_chain_def Let_def split: option.split)

lemma demo_enroll: "registerDeviceCertificate sample_crypto (8 * DAY_MS) demo_wallet demo_certificate demo_named
   = (storeDevice demo_certificate \<lparr>da_kind = ARoot, da_credentialId = None\<rparr> demo_named, Inr demo_certificate)"
  using demo_root demo_named_devices
  by (simp add: registerDeviceCertificate_def Let_def isRevokedKey_def jm_has_get
      assertNoConflictingDevice_def DAY_MS_def)

lemma demo_enrolled_resolves:
  "resolveDeviceCertificate (8 * DAY_MS) demo_identity demo_device demo_enrolled = Some demo_certificate"
  unfolding demo_enrolled_def demo_enroll fst_conv
  using demo_named_devices
  by (simp add: resolveDeviceCertificate_def storeDevice_def Let_def jm_get_set
      isCertificateRevoked_def isRevokedKey_def jm_has_get DAY_MS_def)

lemma demo_revocation_ok:
  "snd (revokeCredential sample_crypto (8 * DAY_MS) demo_wallet demo_revocation demo_enrolled) = Inr ()"
proof -
  have "isCredentialIdWellFormed KDevice (toHex demo_device)" by code_simp
  then show ?thesis
    unfolding demo_enrolled_def demo_enroll fst_conv
    using demo_root demo_named_devices
    by (simp add: revokeCredential_ok_iff demo_revocation_def signRevocation_def storeDevice_def Let_def safe_int_def MAX_REVOCATION_SEQUENCE_AHEAD_MS_def DAY_MS_def jm_get_or_def
        verifyRevocation_def sample_crypto_def revocationPreimage_def)
qed

section \<open>Names\<close>

text \<open>
  C20. AD-10, one name per owner: in every reachable state two names that resolve to records
  of the same wallet, or of the same identity, are the same name with the same record, and
  the record carries the normalised name it was found under.
\<close>

theorem one_username_per_owner:
  assumes reach: "chain_reach c st"
    and r: "resolveUsername u st = Some r" and r': "resolveUsername u' st = Some r'"
    and same: "un_ownerWallet r = un_ownerWallet r' \<or> un_identityId r = un_identityId r'"
  shows "r = r' \<and> normalize_username u = normalize_username u' \<and> un_username r = normalize_username u"
proof -
  have inv: "names_inv st" and roots: "name_roots st"
    using reach_names_inv [OF reach] reach_restorable [OF reach] by auto
  have "jm_get (ch_identityRoots st) (toHex (un_identityId r)) = Some (un_ownerWallet r)"
    "jm_get (ch_identityRoots st) (toHex (un_identityId r')) = Some (un_ownerWallet r')"
    using roots r r' unfolding name_roots_def resolveUsername_def by blast+
  then have "un_ownerWallet r = un_ownerWallet r'" using same by auto
  then have "normalize_username u = normalize_username u'"
    using names_inv_unique [OF inv] r r' by (simp add: resolveUsername_def)
  then show ?thesis using inv r r' by (auto simp: resolveUsername_def names_inv_def)
qed

theorem one_username_per_owner_witness:
  "normalize_username ''ALICE'' = normalize_username ''ALICE''
   \<and> un_username \<lparr>un_username = ''alice'', un_ownerWallet = demo_wallet, un_identityId = demo_identity,
       un_registeredAt = 8 * DAY_MS\<rparr> = normalize_username ''ALICE''"
  using one_username_per_owner [OF demo_named_reach demo_alice demo_alice] by blast

text \<open>A name is available when nobody holds it or its holder has been inactive long enough.\<close>

definition name_available :: "int \<Rightarrow> string \<Rightarrow> chain \<Rightarrow> bool" where
  "name_available now n st \<longleftrightarrow>
     (case jm_get (ch_usernames st) n of
        None \<Rightarrow> True
      | Some r \<Rightarrow>
          (case jm_get (ch_accounts st) (toHex (un_ownerWallet r)) of
             None \<Rightarrow> False
           | Some m \<Rightarrow> INACTIVITY_RELEASE_MS \<le> now - am_lastActiveAt m))"

lemma name_available_freed: "name_available now n st \<longleftrightarrow> name_freed now n st \<noteq> None"
  by (auto simp: name_available_def name_freed_def split: option.split)

text \<open>
  C21. What \<open>registerUsername\<close> does, on every branch. It succeeds exactly for an account
  at least seven days old without a name, an identity that is unbound or bound to this
  wallet, and an available name. Then the name resolves to the caller's record, the history
  gains that record, and no other name changes. Otherwise the state is untouched.
\<close>

theorem registerUsername_spec:
  "case registerUsername now u w i st of
     (st', Inl e) \<Rightarrow> st' = st \<and> \<not> (may_register now w i st \<and> name_available now (normalize_username u) st)
   | (st', Inr r) \<Rightarrow>
       may_register now w i st \<and> name_available now (normalize_username u) st
       \<and> r = \<lparr>un_username = normalize_username u, un_ownerWallet = w, un_identityId = i, un_registeredAt = now\<rparr>
       \<and> resolveUsername u st' = Some r
       \<and> getUsernameHistory u st' = getUsernameHistory u st @ [r]
       \<and> getIdentityRoot i st' = Some w
       \<and> (\<forall>v. normalize_username v \<noteq> normalize_username u \<longrightarrow> resolveUsername v st' = resolveUsername v st)"
proof (cases "may_register now w i st \<and> name_freed now (normalize_username u) st \<noteq> None")
  case True
  then obtain st0 where ok: "may_register now w i st" "name_freed now (normalize_username u) st = Some st0"
    by auto
  show ?thesis
    using ok unfolding registerUsername_ok [OF ok]
    by (simp add: name_available_freed resolveUsername_def getUsernameHistory_def getIdentityRoot_def
        bind_fields jm_get_set jm_get_or_set freed_frames [OF ok(2)] jm_get_or_def)
next
  case False
  then obtain e where "registerUsername now u w i st = (st, Inl e)"
    using registerUsername_fails by blast
  then show ?thesis using False by (simp add: name_available_freed)
qed

theorem registerUsername_spec_witness:
  "may_register (8 * DAY_MS) demo_wallet demo_identity (registerAccount 0 demo_wallet empty_chain)
   \<and> getUsernameHistory ''alice'' demo_named = [\<lparr>un_username = ''alice'', un_ownerWallet = demo_wallet,
        un_identityId = demo_identity, un_registeredAt = 8 * DAY_MS\<rparr>]"
proof -
  have h: "getUsernameHistory '' Alice'' st = getUsernameHistory ''alice'' st" for st
  proof -
    have "normalize_username '' Alice'' = normalize_username ''alice''" by code_simp
    then show ?thesis by (simp add: getUsernameHistory_def)
  qed
  have e: "getUsernameHistory ''alice'' (registerAccount 0 demo_wallet empty_chain) = []" by code_simp
  show ?thesis
    using registerUsername_spec [where now = "8 * DAY_MS" and u = "'' Alice''" and w = demo_wallet
        and i = demo_identity and st = "registerAccount 0 demo_wallet empty_chain"]
    unfolding demo_register h e by (simp only: prod.case sum.case append_Nil)
qed

section \<open>Identity roots\<close>

text \<open>
  C22. Root authority is stable: once an identity resolves to a wallet, no sequence of
  operations, whoever calls them and in whatever order, makes it resolve to another wallet
  or to none.
\<close>

theorem identity_root_immutable:
  assumes "chain_steps c st st'" and "getIdentityRoot i st = Some w"
  shows "getIdentityRoot i st' = Some w"
  using chain_steps_roots [OF assms(1)] assms(2) by (simp add: getIdentityRoot_def)

theorem identity_root_immutable_witness: "getIdentityRoot demo_identity demo_enrolled = Some demo_wallet"
proof (rule identity_root_immutable)
  show "chain_steps sample_crypto demo_named demo_enrolled"
    unfolding demo_enrolled_def by (rule r_into_rtranclp) (rule chain_step.device)
  show "getIdentityRoot demo_identity demo_named = Some demo_wallet"
    using demo_root by (simp add: getIdentityRoot_def)
qed

text \<open>
  C26. The identity of a wallet can be taken by somebody else. \<open>registerUsername\<close> binds an
  unbound identity id to its caller without checking that the id is derived from the
  caller's wallet, so after any account registers a name with the id of another wallet, the
  rightful \<open>registerIdentity\<close> of that wallet fails with a valid proof.
\<close>

theorem username_binds_foreign_identity:
  assumes "may_register now attacker (identityIdFromWallet c victim) st"
    and "name_available now (normalize_username u) st" and "attacker \<noteq> victim"
    and "length victim = 32" "length (identityIdFromWallet c victim) = 32" "length proof = 64"
    and "verifyIdentityProof c victim proof = Some True"
  shows "snd (registerIdentity c now' victim (identityIdFromWallet c victim) proof
      (fst (registerUsername now u attacker (identityIdFromWallet c victim) st))) = Inl IdentityRootBound"
proof -
  obtain st0 where ok: "may_register now attacker (identityIdFromWallet c victim) st"
    "name_freed now (normalize_username u) st = Some st0"
    using assms(1,2) by (auto simp: name_available_freed)
  show ?thesis
    using assms(3-) unfolding registerUsername_ok [OF ok]
    by (simp add: registerIdentity_def bind_fields jm_get_set Let_def)
qed

theorem username_binds_foreign_identity_witness:
  "snd (registerIdentity sample_crypto (9 * DAY_MS) demo_device (identityIdFromWallet sample_crypto demo_device)
      (signIdentityProof sample_crypto demo_device demo_device)
      (fst (registerUsername (8 * DAY_MS) ''bob'' demo_wallet (identityIdFromWallet sample_crypto demo_device)
        (registerAccount 0 demo_wallet empty_chain)))) = Inl IdentityRootBound"
proof (rule username_binds_foreign_identity)
  show "may_register (8 * DAY_MS) demo_wallet (identityIdFromWallet sample_crypto demo_device)
      (registerAccount 0 demo_wallet empty_chain)"
    by (simp add: may_register_def registerAccount_def empty_chain_def Let_def jm_get_set jm_has_get
        MIN_ACCOUNT_AGE_MS_def DAY_MS_def)
  show "name_available (8 * DAY_MS) (normalize_username ''bob'') (registerAccount 0 demo_wallet empty_chain)"
    by (simp add: name_available_def registerAccount_def empty_chain_def Let_def jm_has_get)
  show "length (signIdentityProof sample_crypto demo_device demo_device) = 64"
    "verifyIdentityProof sample_crypto demo_device (signIdentityProof sample_crypto demo_device demo_device) = Some True"
    by (simp_all add: signIdentityProof_def verifyIdentityProof_def sample_crypto_def)
  show "length (identityIdFromWallet sample_crypto demo_device) = 32"
    by (simp add: identityIdFromWallet_def sample_crypto_def)
qed (simp_all add: demo_wallet_def demo_device_def)

section \<open>Devices\<close>

text \<open>
  C23. What resolving a device returns. In every reachable state a resolved certificate is
  for exactly the identity and device asked for, well formed, inside its validity window,
  signed by the identity's root or authorised by a registered SSH key or passkey for which a
  signature of that root verifies, and neither the device nor that credential is revoked.
\<close>

theorem resolved_certificate_authentic:
  assumes reach: "chain_reach c st" and res: "resolveDeviceCertificate now i d st = Some cert"
  shows "dc_accountId cert = i \<and> dc_deviceId cert = d \<and> cert_shape cert
    \<and> dc_issuedAt cert \<le> now \<and> now < dc_expiresAt cert
    \<and> \<not> isRevoked i KDevice (toHex d) st
    \<and> (\<exists>root a. getIdentityRoot i st = Some root \<and> getDeviceAuthorization i d st = Some a \<and> backed c st root cert a
         \<and> (\<forall>k cid. auth_credential_kind (da_kind a) = Some k \<longrightarrow> da_credentialId a = Some cid \<longrightarrow>
              \<not> isRevoked i k cid st))"
proof -
  have get: "jm_get (ch_deviceCertificates st) (deviceCertificateKey i d) = Some cert"
    and live: "dc_issuedAt cert \<le> now" "now < dc_expiresAt cert" "\<not> isCertificateRevoked st i d"
    using res by (auto simp: resolveDeviceCertificate_def split: option.splits if_splits)
  have ok: "device_ok c st (deviceCertificateKey i d) cert"
    using reach_devices_inv [OF reach] get by (simp add: devices_inv_def)
  then have id: "dc_accountId cert = i" "dc_deviceId cert = d" "cert_shape cert"
    by (auto simp: device_ok_def)
  obtain a root where a: "getDeviceAuthorization i d st = Some a" "getIdentityRoot i st = Some root"
    "backed c st root cert a"
    using device_backed [OF reach get] id unfolding getDeviceAuthorization_def getIdentityRoot_def by metis
  have "\<not> isRevoked i KDevice (toHex d) st"
    "\<And>k cid. auth_credential_kind (da_kind a) = Some k \<Longrightarrow> da_credentialId a = Some cid \<Longrightarrow> \<not> isRevoked i k cid st"
    using live(3) a(1) by (auto simp: isCertificateRevoked_def isRevoked_def getDeviceAuthorization_def Let_def
        split: if_splits)
  then show ?thesis using id live a by blast
qed

theorem resolved_certificate_authentic_witness:
  "dc_accountId demo_certificate = demo_identity \<and> \<not> isRevoked demo_identity KDevice (toHex demo_device) demo_enrolled"
  using resolved_certificate_authentic [OF demo_enrolled_reach demo_enrolled_resolves] by blast

text \<open>
  A live device cannot be rebound: while a device's stored certificate has not expired,
  none of the three enrolment routes (root signature, SSH key, passkey) replaces it by a
  certificate with another signing key.
\<close>

lemma live_device_not_rebound:
  assumes "jm_get (ch_deviceCertificates st) (deviceCertificateKey (dc_accountId cert) (dc_deviceId cert)) = Some old"
    and "now < dc_expiresAt old" and "dc_signingKey cert \<noteq> dc_signingKey old"
  shows "fst (registerDeviceCertificate c now w cert st) = st
    \<and> fst (authorizeDeviceCertificateWithSshKey now i cert fp st) = st
    \<and> ch_deviceCertificates (fst (authorizeDeviceCertificateWithPasskey wa now i cert x ch st)) = ch_deviceCertificates st"
proof -
  have conflict: "\<not> assertNoConflictingDevice now st' cert a"
    if "ch_deviceCertificates st' = ch_deviceCertificates st" for st' a
    using assms that by (simp add: assertNoConflictingDevice_def Let_def)
  have "fst (registerDeviceCertificate c now w cert st) = st"
    by (simp add: registerDeviceCertificate_def Let_def conflict split: option.split bool.split)
  moreover have "fst (authorizeDeviceCertificateWithSshKey now i cert fp st) = st"
    by (simp add: authorizeDeviceCertificateWithSshKey_def Let_def conflict)
  moreover have "ch_deviceCertificates (fst (passkeyAuthorizationCommit now i cert cid n st)) = ch_deviceCertificates st" for cid n
    by (simp add: passkeyAuthorizationCommit_def Let_def conflict)
  then have "ch_deviceCertificates (fst (authorizeDeviceCertificateWithPasskey wa now i cert x ch st)) = ch_deviceCertificates st"
    by (simp add: authorizeDeviceCertificateWithPasskey_def split: sum.split webauthn_result.split)
  ultimately show ?thesis by blast
qed

lemma live_device_not_rebound_witness:
  "fst (registerDeviceCertificate sample_crypto (8 * DAY_MS) demo_wallet
     (demo_certificate\<lparr>dc_signingKey := replicate 32 9\<rparr>) demo_enrolled) = demo_enrolled"
proof -
  have "jm_get (ch_deviceCertificates demo_enrolled) (deviceCertificateKey
      (dc_accountId (demo_certificate\<lparr>dc_signingKey := replicate 32 9\<rparr>))
      (dc_deviceId (demo_certificate\<lparr>dc_signingKey := replicate 32 9\<rparr>))) = Some demo_certificate"
    unfolding demo_enrolled_def demo_enroll by (simp add: storeDevice_def Let_def jm_get_set)
  moreover have "8 * DAY_MS < dc_expiresAt demo_certificate" by (simp add: DAY_MS_def)
  moreover have "dc_signingKey (demo_certificate\<lparr>dc_signingKey := replicate 32 9\<rparr>) \<noteq> dc_signingKey demo_certificate"
    by (simp add: replicate_eq_replicate)
  ultimately show ?thesis by (rule live_device_not_rebound [THEN conjunct1])
qed

section \<open>Revocation\<close>

text \<open>
  C24. Revocation is final. After an accepted revocation, in every later state the credential
  is revoked, a revoked SSH key does not resolve, and no device that is that device or was
  authorised by that credential resolves at any time.
\<close>

theorem revocation_is_final:
  assumes ok: "snd (revokeCredential c now w r st) = Inr ()"
    and later: "chain_steps c (fst (revokeCredential c now w r st)) st'"
  shows "isRevoked (rv_accountId r) (rv_kind r) (rv_credentialId r) st'
    \<and> (rv_kind r = KSsh \<longrightarrow> resolveSshKey (rv_accountId r) (rv_credentialId r) st' = None)
    \<and> (\<forall>d t. device_rests_on st' (rv_accountId r, d) (rv_accountId r, rv_kind r, rv_credentialId r) \<longrightarrow>
          resolveDeviceCertificate t (rv_accountId r) d st' = None)"
proof -
  have now: "isRevoked (rv_accountId r) (rv_kind r) (rv_credentialId r) (fst (revokeCredential c now w r st))"
    using ok by (simp add: revokeCredential_state isRevoked_def isRevokedKey_def jm_has_get jm_get_set)
  have rev: "isRevoked (rv_accountId r) (rv_kind r) (rv_credentialId r) st'"
    using devchain.revoked_forever [OF later, of "(rv_accountId r, rv_kind r, rv_credentialId r)"] now by simp
  moreover have "resolveDeviceCertificate t (rv_accountId r) d st' = None"
    if "device_rests_on st' (rv_accountId r, d) (rv_accountId r, rv_kind r, rv_credentialId r)" for d t
    using devchain.never_resolves_again [OF later, of "(rv_accountId r, rv_kind r, rv_credentialId r)"
        "(rv_accountId r, d)" t] now that by simp
  moreover have "rv_kind r = KSsh \<Longrightarrow> resolveSshKey (rv_accountId r) (rv_credentialId r) st' = None"
    using rev by (simp add: resolveSshKey_def isRevoked_def)
  ultimately show ?thesis by blast
qed

theorem revocation_is_final_witness:
  "isRevoked demo_identity KDevice (toHex demo_device) demo_revoked
   \<and> resolveDeviceCertificate (8 * DAY_MS) demo_identity demo_device demo_revoked = None"
proof -
  have f: "rv_accountId demo_revocation = demo_identity" "rv_kind demo_revocation = KDevice"
    "rv_credentialId demo_revocation = toHex demo_device"
    by (simp_all add: demo_revocation_def signRevocation_def)
  have "device_rests_on demo_revoked (demo_identity, demo_device) (demo_identity, KDevice, toHex demo_device)"
    by (simp add: device_rests_on_def)
  then show ?thesis
    using revocation_is_final [OF demo_revocation_ok, of demo_revoked] unfolding f demo_revoked_def by blast
qed

text \<open>
  Revocations cannot be replayed or reordered: after a revocation with sequence n is
  accepted, every revocation of that identity with a sequence of at most n, presented at any
  later state by anyone, is refused and changes nothing.
\<close>

lemma stale_revocation_refused:
  assumes ok: "snd (revokeCredential c now w r st) = Inr ()"
    and later: "chain_steps c (fst (revokeCredential c now w r st)) st'"
    and "rv_accountId r' = rv_accountId r" and "rv_sequence r' \<le> rv_sequence r"
  shows "\<exists>e. revokeCredential c now' w' r' st' = (st', Inl e)"
proof -
  have "rv_sequence r = last_sequence (fst (revokeCredential c now w r st)) (toHex (rv_accountId r))"
    using ok by (simp add: revokeCredential_state last_sequence_def jm_get_or_def jm_get_set)
  also have "\<dots> \<le> last_sequence st' (toHex (rv_accountId r))"
    using later
  proof (induction rule: rtranclp_induct)
    case (step y z)
    then show ?case using chain_step_revocations [OF step(2)] order_trans by blast
  qed simp
  finally have "snd (revokeCredential c now' w' r' st') \<noteq> Inr ()"
    using assms(3,4) by (simp add: revokeCredential_ok_iff last_sequence_def)
  moreover from this have "fst (revokeCredential c now' w' r' st') = st'"
    by (subst revokeCredential_state) simp
  ultimately show ?thesis
    by (cases "revokeCredential c now' w' r' st'"; cases "snd (revokeCredential c now' w' r' st')") auto
qed

lemma stale_revocation_refused_witness:
  "\<exists>e. revokeCredential sample_crypto (9 * DAY_MS) demo_wallet demo_revocation demo_revoked = (demo_revoked, Inl e)"
  by (rule stale_revocation_refused [OF demo_revocation_ok]) (simp_all add: demo_revoked_def)

section \<open>Limits\<close>

text \<open>
  Resource limits hold in every reachable state: an identity has at most 8 live SSH
  keys, no fingerprint is listed twice, and at most 16 passkey authorisations of an identity
  are pending.
\<close>

lemma identity_limits:
  assumes "chain_reach c st"
  shows "length (liveSshKeys st (toHex i)) \<le> 8
    \<and> distinct (map sk_fingerprint (jm_get_or (ch_sshKeys st) (toHex i) []))
    \<and> pending_count st (toHex i) \<le> 16"
  using reach_limits [OF assms]
  by (simp add: ssh_inv_def pending_inv_def MAX_SSH_KEYS_PER_IDENTITY_def MAX_PENDING_PASSKEYS_PER_IDENTITY_def)

lemma identity_limits_witness: "length (liveSshKeys demo_enrolled (toHex demo_identity)) \<le> 8"
  using identity_limits [OF demo_enrolled_reach] by blast

text \<open>
  The validator set (AD-14) in every reachable state: \<open>listValidators\<close> returns at
  most 21 validators, each once, in order of decreasing power; each has bonded at least the
  minimum and its power is its stake up to the cap of 1000000. Once the set has reached four
  members it never falls below four again.
\<close>

lemma validator_set_sound:
  assumes reach: "chain_reach c st" and later: "chain_steps c st st'"
  shows "length (listValidators st) \<le> 21 \<and> distinct (map va_wallet (listValidators st))
    \<and> sorted_wrt (\<lambda>v v'. va_effectivePower v \<ge> va_effectivePower v') (listValidators st)
    \<and> (\<forall>v \<in> set (listValidators st). 1 \<le> va_bondedStake v \<and> va_effectivePower v = min (va_bondedStake v) 1000000)
    \<and> (4 \<le> length (listValidators st) \<longrightarrow> 4 \<le> length (listValidators st'))"
proof -
  have inv: "validators_inv st" using reach_limits [OF reach] by blast
  have keys: "map fst (ch_validators st) = map (\<lambda>v. toHex (va_wallet v)) (map snd (ch_validators st))"
    using inv by (auto simp: validators_inv_def)
  have "distinct (map (\<lambda>v. toHex (va_wallet v)) (map snd (ch_validators st)))"
    using inv unfolding validators_inv_def jm_ok_def keys [symmetric] by blast
  then have "distinct (map va_wallet (map snd (ch_validators st)))"
    unfolding distinct_map by (auto simp: inj_on_def)
  then have d: "distinct (map va_wallet (listValidators st))"
    by (simp only: listValidators_def distinct_map set_sort distinct_sort)
  have srt: "sorted_wrt (\<lambda>v v'. va_effectivePower v \<ge> va_effectivePower v') (listValidators st)"
    using sorted_sort_key [of "\<lambda>v. - va_effectivePower v" "map snd (ch_validators st)"]
    by (simp add: listValidators_def sorted_map)
  have members: "\<forall>v \<in> set (listValidators st). 1 \<le> va_bondedStake v \<and> va_effectivePower v = min (va_bondedStake v) 1000000"
    using inv by (auto simp: listValidators_def validators_inv_def validator_ok_def MIN_BOND_def VALIDATOR_POWER_CAP_def)
  have min: "validators_inv st' \<and> (MIN_VALIDATORS \<le> jm_size (ch_validators st) \<longrightarrow> MIN_VALIDATORS \<le> jm_size (ch_validators st'))"
    using later
  proof (induction rule: rtranclp_induct)
    case (step y z)
    then show ?case using chain_step_validators_inv [OF step(2)] chain_step_min_validators [OF step(2)] by blast
  qed (simp add: inv)
  show ?thesis
    using inv d srt members min
    by (simp add: listValidators_def validators_inv_def jm_size_def MAX_VALIDATORS_def MIN_VALIDATORS_def)
qed

definition demo_validators :: chain where
  "demo_validators = fst (joinValidatorSet 1 demo_wallet 5 empty_chain)"

lemma validator_set_sound_witness: "length (listValidators demo_validators) \<le> 21"
proof -
  have "chain_reach sample_crypto demo_validators"
    unfolding demo_validators_def by (rule chain_reach.step [OF chain_reach.start chain_step.join_set])
  then show ?thesis using validator_set_sound [of sample_crypto demo_validators demo_validators] by blast
qed

section \<open>Restarts\<close>

text \<open>
  C25. A node that restarts from the file it saved continues from the same state: in every
  reachable state, restoring what \<open>persist\<close> wrote gives back every map, except that the
  reverse index of names is rebuilt, and the rebuilt index answers every lookup as before.
\<close>

theorem restart_preserves_state:
  assumes reach: "chain_reach c st"
  shows "restore (persist st) = st\<lparr>ch_walletToUsername := ch_walletToUsername (restore (persist st))\<rparr>
    \<and> (\<forall>w. jm_get (ch_walletToUsername (restore (persist st))) w = jm_get (ch_walletToUsername st) w)"
proof -
  have inv: "names_inv st" "devices_inv c st" "validators_inv st" and ok: "maps_ok st"
    and ssh: "ssh_algorithms st" and roots: "name_roots st"
    using reach_names_inv [OF reach] reach_devices_inv [OF reach] reach_limits [OF reach] reach_restorable [OF reach]
    by auto
  note oks = ok [unfolded maps_ok_def]
  have none: "jm_size (ch_identityRoots st) = 0 \<Longrightarrow> rootsFromHistory (ch_history st) = ch_identityRoots st"
    using roots by (auto simp: jm_size_def name_roots_def rootsFromHistory_def)
  have e: "restore (persist st) = st\<lparr>ch_walletToUsername :=
      jm_of_list (map (\<lambda>(_, r). (toHex (un_ownerWallet r), un_username r)) (ch_usernames st))\<rparr>"
    unfolding restore_def persist_def persisted_state.select_convs or_empty_def option.case Let_def [of "jm_of_list _"]
      restore_names [OF inv(1) ok] restore_devices [OF inv(2) ok] restore_validators [OF inv(3) ok]
      restore_values restore_ssh [OF ssh ok]
    using oks none by (cases st) (simp add: jm_of_list_ok)
  show ?thesis unfolding e using restore_owner [OF inv(1) ok] by simp
qed

theorem restart_preserves_state_witness:
  "jm_get (ch_walletToUsername (restore (persist demo_named))) (toHex demo_wallet) =
   jm_get (ch_walletToUsername demo_named) (toHex demo_wallet)"
  using restart_preserves_state [OF demo_named_reach] by blast

end
