(* ===== verification/Gateway_Samples.thy ===== *)
theory Gateway_Samples
  imports Gateway_Inv Chain_Properties
begin

text \<open>
  Concrete runs of the gateway over the sample chain, the inputs on which the properties of
  \<open>Gateway_Properties\<close> are exercised: an authenticated session, a post to the updates
  channel, a sign-in with the wallet, and a revocation.
\<close>

definition demo_now :: int where "demo_now = 8 * DAY_MS"

definition demo_config :: gateway_config where
  "demo_config = \<lparr>cf_audience = ''nexnet'', cf_ownerIdentity = Some (toHex demo_identity), cf_rpId = None,
     cf_origins = [], cf_publicRetentionMs = DAY_MS, cf_sessionMaxMs = 2 * DAY_MS, cf_trustProxy = False\<rparr>"

definition demo_unicode :: unicode where
  "demo_unicode = \<lparr>uc_format = (\<lambda>_. False), uc_mark = (\<lambda>_. False)\<rparr>"

definition demo_token :: string where "demo_token = toBase64Url (replicate 32 9)"

definition demo_session :: stored_session where
  "demo_session = \<lparr>ss_tokenHash = hashToken sample_crypto demo_token, ss_identity = toHex demo_identity,
     ss_device = toHex demo_device, ss_method = ''wallet'', ss_expiresAt = 9 * DAY_MS\<rparr>"

definition demo_gateway :: gateway where
  "demo_gateway = new_gateway demo_enrolled (empty_store\<lparr>db_sessions := [demo_session]\<rparr>)"

definition demo_request :: "(string \<times> jval) list \<Rightarrow> request" where
  "demo_request fs = \<lparr>rq_method = ''POST'', rq_path = [], rq_origin = None, rq_upgrade = None,
     rq_authorization = Some (''Bearer '' @ demo_token), rq_forwardedFor = None, rq_address = None,
     rq_contentLength = 100, rq_textLength = 100, rq_json = Some (JObj fs), rq_limit = None, rq_before = None\<rparr>"

lemma demo_body [simp]: "request_body (demo_request fs) = Inr fs"
  by (simp add: request_body_def demo_request_def MAX_BODY_JSON_BYTES_def ensure_def)

lemma demo_bearer [simp]: "bearer (demo_request fs) = Inr demo_token"
  using toBase64Url_alphabet [of "replicate 32 9"]
  by (simp add: bearer_def demo_request_def demo_token_def length_toBase64Url)

lemma limit_fresh:
  "gw_limits g l = [] \<Longrightarrow> limit_requests l ip now g = (g\<lparr>gw_limits := (gw_limits g)(l := [(ip, [now])])\<rparr>, Inr ())"
  by (cases l) (simp_all add: limit_requests_def sw_allow_def Let_def ensure_def jm_get_or_def jm_get_def jm_set_def jm_size_def)

lemma demo_authenticates:
  assumes "gw_chain g = demo_enrolled" "db_sessions (gw_store g) = [demo_session]"
  shows "authenticate sample_crypto demo_now demo_token g = (g, Inr (demo_session, demo_certificate))"
  using assms demo_enrolled_resolves
  by (simp add: authenticate_def Let_def gbind_def gget_def gsome_def glift_def gret_def getSession_def
      demo_session_def demo_now_def DAY_MS_def)

section \<open>Posting\<close>

definition demo_payload :: "string \<Rightarrow> bytes" where
  "demo_payload body = put_value (JObj [(''channel'', JStr ''updates''), (''body'', JStr body)])"

definition demo_event :: "int \<Rightarrow> string \<Rightarrow> nexnet_event" where
  "demo_event n body = signEvent sample_crypto \<lparr>ev_protocolVersion = 1, ev_eventType = ''channel.post'',
     ev_eventId = [], ev_authorIdentityId = demo_identity, ev_authorDeviceId = demo_device,
     ev_createdAt = demo_now, ev_sequence = n, ev_parentIds = [], ev_payload = demo_payload body,
     ev_signature = []\<rparr> (replicate 32 4)"

definition demo_post :: "int \<Rightarrow> string \<Rightarrow> request" where
  "demo_post n body = demo_request [(''event'', eventToJson (demo_event n body))]"

lemma demo_event_fields [simp]:
  "ev_protocolVersion (demo_event n body) = 1" "ev_eventType (demo_event n body) = ''channel.post''"
  "ev_authorIdentityId (demo_event n body) = demo_identity" "ev_authorDeviceId (demo_event n body) = demo_device"
  "ev_createdAt (demo_event n body) = demo_now" "ev_sequence (demo_event n body) = n"
  "ev_parentIds (demo_event n body) = []" "ev_payload (demo_event n body) = demo_payload body"
  "length (ev_signature (demo_event n body)) = 64" "length (ev_eventId (demo_event n body)) = 32"
  by (simp_all add: demo_event_def signEvent_def Let_def sample_crypto_def)

lemma demo_event_verifies [simp]:
  "verifyEvent sample_crypto (demo_event n body) (replicate 32 4) = Some True"
  "verifyEventId sample_crypto (demo_event n body)"
  using signEvent_valid [OF sample_signatures] unfolding demo_event_def by (simp_all add: sample_crypto_def)

lemma demo_payload_length: "length (demo_payload body) \<le> 30 + length (put_nat (length body)) + length body"
proof -
  have "length (demo_payload body) = length (demo_payload []) - 1 + length (put_nat (length body)) + length body"
    by (simp add: demo_payload_def put_bytes_def put_nat.simps [of 0])
  moreover have "length (demo_payload []) \<le> 31" by code_simp
  ultimately show ?thesis by simp
qed

lemma demo_event_parsed:
  assumes "1 \<le> n" "n \<le> 1000" "length body < 128"
  shows "eventFromJson (Some (eventToJson (demo_event n body))) = Inr (demo_event n body)"
proof (rule event_json)
  have "length (put_nat (length body)) = 1" using assms by (simp add: put_nat.simps [of "length body"])
  then have "length (demo_payload body) \<le> 16384" using demo_payload_length [of body] assms by simp
  then show "wire_event (demo_event n body)"
    using assms by (simp add: wire_event_def stamp_ok_def safe_int_def demo_now_def DAY_MS_def)
  show "ev_payload (demo_event n body) \<noteq> []" by (simp add: demo_payload_def)
  show "ev_signature (demo_event n body) \<noteq> []" by (metis demo_event_fields(9) list.size(3) zero_neq_numeral)
qed

definition plain :: "string \<Rightarrow> bool" where
  "plain body \<longleftrightarrow> body \<noteq> [] \<and> length body < 100 \<and> list_all (\<lambda>ch. 33 \<le> (of_char ch :: nat) \<and> (of_char ch :: nat) < 127) body"

lemma plain_points:
  "list_all (\<lambda>u. 33 \<le> u \<and> u < 127) us \<Longrightarrow> code_points us = us"
  by (induction us rule: code_points.induct) (auto simp: high_surrogate_def)

lemma plain_valid: "plain body \<Longrightarrow> validateBody demo_unicode (code_units_of body) = None"
proof -
  assume p: "plain body"
  have us: "list_all (\<lambda>u. 33 \<le> u \<and> u < 127) (code_units_of body)" "code_units_of body \<noteq> []" "length (code_units_of body) < 100"
    using p by (simp_all add: plain_def code_units_of_def list_all_iff)
  have "byteLength us = length us" if "list_all (\<lambda>u. 33 \<le> u \<and> u < 127) us" for us
    using that unfolding byteLength_def plain_points [OF that] by (induction us) (auto simp: utf8_length_def)
  then have "byteLength (code_units_of body) \<le> MAX_BODY_BYTES" using us by (simp add: MAX_BODY_BYTES_def)
  moreover have "\<not> blank (code_units_of body)"
    using us by (cases "code_units_of body") (auto simp: blank_def js_space_def)
  moreover have "\<not> combining_run demo_unicode us" for us
    by (induction us) (auto simp: demo_unicode_def)
  moreover have no: "\<not> list_ex P us" if "list_all (\<lambda>u. 33 \<le> u \<and> u < 127) us" "\<And>u. 33 \<le> u \<Longrightarrow> u < 127 \<Longrightarrow> \<not> P u" for P us
    using that by (auto simp: list_ex_iff list_all_iff)
  have "\<not> list_ex CONTROL_OR_SURROGATE (code_units_of body)"
    by (rule no [OF us(1)]) (simp add: CONTROL_OR_SURROGATE_def)
  moreover have "\<not> list_ex (\<lambda>p. Bidi_Control p) (code_units_of body)"
    by (rule no [OF us(1)]) (simp add: Bidi_Control_def)
  moreover have "\<not> list_ex (INVISIBLE_FORMAT demo_unicode) (code_units_of body)"
    by (rule no [OF us(1)]) (simp add: INVISIBLE_FORMAT_def demo_unicode_def)
  ultimately show ?thesis unfolding validateBody_def plain_points [OF us(1)] by simp
qed

lemma demo_payload_decoded:
  "decodeChannelPayload sample_crypto (demo_payload body) = Inr \<lparr>py_channel = ''updates'', py_body = body\<rparr>"
proof -
  have "cdeDecode sample_crypto (demo_payload body) = Some (JObj [(''channel'', JStr ''updates''), (''body'', JStr body)])"
    unfolding demo_payload_def by (simp add: sample_crypto_def del: put_value.simps)
  then show ?thesis by (simp add: decodeChannelPayload_def ensure_def)
qed

lemma demo_event_checked:
  assumes "1 \<le> n" "n \<le> 1000" "plain body"
  shows "checkEvent sample_crypto demo_unicode demo_config demo_now Updates demo_session demo_certificate (demo_post n body)
    = Inr (demo_event n body, body)"
proof -
  have "length body < 128" using assms(3) by (simp add: plain_def)
  then have p: "eventFromJson (Some (eventToJson (demo_event n body))) = Inr (demo_event n body)"
    using demo_event_parsed assms by simp
  have "length (demo_payload body) \<le> MAX_PAYLOAD_BYTES"
    using demo_payload_length [of body] \<open>length body < 128\<close>
    by (simp add: put_nat.simps [of "length body"] MAX_PAYLOAD_BYTES_def)
  then have "validateEventLimits (demo_event n body) = Inr ()"
    by (simp add: validateEventLimits_def MAX_PARENT_IDS_def MAX_EVENT_TYPE_LEN_def)
  then show ?thesis
    using p plain_valid [OF assms(3)]
    by (simp add: checkEvent_def demo_post_def ensure_def PROTOCOL_VERSION_def demo_session_def EVENT_SKEW_MS_def
        demo_payload_decoded demo_config_def)
qed

lemma demo_accepts:
  assumes "gw_postLimits g Updates = []" "gw_duplicateGuards g Updates = []"
    and "\<not> hasEvent (toHex (ev_eventId (demo_event n body))) (gw_store g)"
    and "lastSequence (sequenceKey (toHex demo_identity) (toHex demo_device)) (gw_store g) < n"
  shows "\<exists>g' resp. acceptEvent demo_config demo_now Updates demo_session (demo_event n body) body g = (g', Inr resp)"
  using assms
  by (simp add: acceptEvent_def gbind_def gget_def gensure_def glift_def ensure_def gupd_def gret_def allowPost_def
      allowText_def Let_def sw_allow_def dg_allow_def jm_get_or_def jm_size_def jm_set_def SPAM_DUPLICATE_THRESHOLD_def
      expireChannel_def storeMessage_def insertMessage_def demo_session_def publicMessage_def split_beta)

lemma demo_posts:
  assumes "gw_chain g = demo_enrolled" "db_sessions (gw_store g) = [demo_session]"
    and "1 \<le> n" "n \<le> 1000" "plain body" "gw_postLimits g Updates = []" "gw_duplicateGuards g Updates = []"
    and "\<not> hasEvent (toHex (ev_eventId (demo_event n body))) (gw_store g)"
    and "lastSequence (sequenceKey (toHex demo_identity) (toHex demo_device)) (gw_store g) < n"
  shows "\<exists>g' resp. post sample_crypto demo_unicode demo_config demo_now Updates (demo_post n body) g = (g', Inr resp)"
  using demo_accepts [OF assms(6-9)] demo_event_checked [OF assms(3-5)] demo_authenticates [OF assms(1,2)]
  by (simp add: post_def gbind_def glift_def demo_post_def [of n body])

section \<open>A revocation\<close>

definition demo_unused :: string where
  "demo_unused = ''SHA256:'' @ replicate 43 (CHR ''A'')"

definition demo_ssh_revocation :: revocation where
  "demo_ssh_revocation = signRevocation sample_crypto demo_wallet \<lparr>rv_accountId = demo_identity,
     rv_kind = KSsh, rv_credentialId = demo_unused, rv_sequence = 7, rv_rootSignature = []\<rparr>"

definition demo_revoke :: request where
  "demo_revoke = demo_request [(''revocation'', revocationToJson demo_ssh_revocation)]"

definition demo_after_revoke :: gateway where
  "demo_after_revoke = fst (revoke sample_crypto demo_now demo_revoke ''ip'' demo_gateway)"

lemma demo_ssh_revocation_fields [simp]:
  "rv_accountId demo_ssh_revocation = demo_identity" "rv_kind demo_ssh_revocation = KSsh"
  "rv_credentialId demo_ssh_revocation = demo_unused" "rv_sequence demo_ssh_revocation = 7"
  "length (rv_rootSignature demo_ssh_revocation) = 64"
  by (simp_all add: demo_ssh_revocation_def signRevocation_def sample_crypto_def)

lemma demo_revoke_parsed:
  "revocationFromJson (Some (revocationToJson demo_ssh_revocation)) = Inr demo_ssh_revocation"
proof (rule revocation_json)
  show "wire_revocation demo_ssh_revocation"
    by (simp add: wire_revocation_def demo_unused_def stamp_ok_def safe_int_def)
  show "rv_rootSignature demo_ssh_revocation \<noteq> []"
    by (metis demo_ssh_revocation_fields(5) list.size(3) zero_neq_numeral)
qed

lemma demo_enrolled_fields:
  "ch_revocations demo_enrolled = []" "ch_revocationSequences demo_enrolled = []"
  "jm_get (ch_identityRoots demo_enrolled) (toHex demo_identity) = Some demo_wallet"
  unfolding demo_enrolled_def demo_enroll fst_conv
  using demo_root demo_named_devices by (simp_all add: storeDevice_def Let_def)

lemma demo_ssh_revocation_ok:
  "snd (revokeCredential sample_crypto demo_now demo_wallet demo_ssh_revocation demo_enrolled) = Inr ()"
proof -
  have "isCredentialIdWellFormed KSsh demo_unused" by code_simp
  moreover have "verifyRevocation sample_crypto demo_wallet demo_ssh_revocation = Some True"
    by (simp add: verifyRevocation_def sample_crypto_def revocationPreimage_def demo_ssh_revocation_def signRevocation_def)
  ultimately show ?thesis
    using demo_enrolled_fields
    by (simp add: revokeCredential_ok_iff safe_int_def MAX_REVOCATION_SEQUENCE_AHEAD_MS_def DAY_MS_def
        jm_get_or_def demo_now_def)
qed

lemma demo_still_resolves:
  "resolveDeviceCertificate demo_now demo_identity demo_device
     (fst (revokeCredential sample_crypto demo_now demo_wallet demo_ssh_revocation demo_enrolled)) = Some demo_certificate"
proof -
  have "getDeviceAuthorization demo_identity demo_device demo_enrolled = Some \<lparr>da_kind = ARoot, da_credentialId = None\<rparr>"
    unfolding demo_enrolled_def demo_enroll fst_conv
    by (simp add: getDeviceAuthorization_def storeDevice_def Let_def jm_get_set)
  then show ?thesis
    using demo_enrolled_resolves demo_enrolled_fields(1)
    unfolding revokeCredential_state demo_ssh_revocation_ok
    by (auto simp: resolveDeviceCertificate_def isCertificateRevoked_def isRevokedKey_def jm_has_get jm_get_set
      revocationKey_def demo_now_def getDeviceAuthorization_def Let_def split: option.splits if_splits)
qed

lemma demo_revokes:
  "revoke sample_crypto demo_now demo_revoke ''ip'' demo_gateway = (demo_after_revoke, Inr (200, JObj [(''ok'', JBool True)]))"
  "gw_chain demo_after_revoke = fst (revokeCredential sample_crypto demo_now demo_wallet demo_ssh_revocation demo_enrolled)"
  "gw_store demo_after_revoke = gw_store demo_gateway"
proof -
  let ?s = "revoke sample_crypto demo_now demo_revoke ''ip'' demo_gateway"
  obtain ch where ch: "revokeCredential sample_crypto demo_now demo_wallet demo_ssh_revocation demo_enrolled = (ch, Inr ())"
    using demo_ssh_revocation_ok by (metis prod.collapse)
  have res: "resolveDeviceCertificate demo_now demo_identity demo_device ch = Some demo_certificate"
    using demo_still_resolves ch by simp
  have "snd ?s = Inr (200, JObj [(''ok'', JBool True)]) \<and> gw_chain (fst ?s) = ch \<and> gw_store (fst ?s) = gw_store demo_gateway"
    using demo_revoke_parsed demo_enrolled_fields(3) ch res
    by (simp add: revoke_def gbind_def glift_def limit_fresh demo_gateway_def new_gateway_def demo_revoke_def
        gget_def gsome_def getIdentity_def Let_def gchain_def sweepSessions_def sessionsForIdentity_def
        demo_session_def empty_store_def gret_def)
  then show "?s = (demo_after_revoke, Inr (200, JObj [(''ok'', JBool True)]))"
    "gw_chain demo_after_revoke = fst (revokeCredential sample_crypto demo_now demo_wallet demo_ssh_revocation demo_enrolled)"
    "gw_store demo_after_revoke = gw_store demo_gateway"
    using ch by (simp_all add: demo_after_revoke_def prod_eq_iff)
qed

definition demo_webauthn :: webauthn where
  "demo_webauthn = (\<lambda>_ _ _ _ _. WRejected)"

section \<open>Signing in\<close>

definition demo_challenge :: pending_challenge where
  "demo_challenge = \<lparr>pch_id = replicate 32 (CHR ''a''), pch_method = MWallet, pch_nonce = ''n'',
     pch_expiresAt = demo_now + 60000, pch_certificate = demo_certificate, pch_passkeyChallenge = None\<rparr>"

definition demo_pending :: gateway where
  "demo_pending = (new_gateway demo_named empty_store)\<lparr>gw_challenges := [(pch_id demo_challenge, demo_challenge)]\<rparr>"

definition demo_sign_in :: request where
  "demo_sign_in = demo_request [(''challengeId'', JStr (pch_id demo_challenge)),
     (''deviceSignature'', JStr (toBase64Url (sample_sign (replicate 32 4)
        (signInPreimage sample_crypto (challenge_fields demo_config demo_challenge)))))]"

lemma demo_challenge_fields [simp]:
  "pch_method demo_challenge = MWallet" "pch_certificate demo_challenge = demo_certificate"
  "pch_expiresAt demo_challenge = demo_now + 60000"
  by (simp_all add: demo_challenge_def)

lemma demo_challenge_id: "challengeIdField (Some (JStr (pch_id demo_challenge))) = Inr (pch_id demo_challenge)"
proof -
  have "list_all is_hex (replicate 32 (CHR ''a''))" by code_simp
  then show ?thesis by (simp add: challengeIdField_def demo_challenge_def ensure_def)
qed

lemma demo_capabilities: "dc_capabilities demo_certificate = 0"
  by (simp add: demo_certificate_def issueDeviceCert_def Let_def)

lemma demo_signs_in:
  "\<exists>g' resp. verifyChallenge sample_crypto demo_webauthn demo_config demo_now (replicate 32 9) demo_sign_in ''ip'' demo_pending
     = (g', Inr resp)"
proof -
  have v: "ed_verify sample_crypto k m (sample_sign k m) = Some True" for k m by (simp add: sample_crypto_def)
  have w: "checkCertificateWindow demo_config demo_certificate demo_now = Inr ()"
    by (simp add: checkCertificateWindow_def demo_capabilities demo_now_def demo_config_def DAY_MS_def CERT_SKEW_MS_def)
  have e: "registerDeviceCertificate sample_crypto demo_now demo_wallet demo_certificate demo_named
      = (storeDevice demo_certificate \<lparr>da_kind = ARoot, da_credentialId = None\<rparr> demo_named, Inr demo_certificate)"
    using demo_enroll by (simp add: demo_now_def)
  show ?thesis
    using v w e demo_challenge_id demo_root demo_named_devices
    by (simp add: verifyChallenge_def gbind_def glift_def limit_fresh demo_pending_def new_gateway_def demo_sign_in_def
        take_challenge_def gget_def gupd_def gsome_def jm_get_def completeSignIn_def Let_def getIdentity_def
        gverify_def gensure_def ensure_def isRevoked_def isRevokedKey_def jm_has_def
        enrolWallet_def gchain_def gret_def open_session_def createSession_def deleteExpiredSessions_def empty_store_def)
qed

definition demo_posted :: gateway where
  "demo_posted = fst (post sample_crypto demo_unicode demo_config demo_now Updates (demo_post 1 ''hi'') demo_gateway)"

lemma demo_plain: "plain ''hi''" "plain ''ho''" by code_simp+

lemma demo_gateway_fields [simp]: "gw_chain demo_gateway = demo_enrolled" "db_sessions (gw_store demo_gateway) = [demo_session]"
  "gw_postLimits demo_gateway ch = []" "gw_duplicateGuards demo_gateway ch = []"
  "hasEvent e (gw_store demo_gateway) = False" "lastSequence k (gw_store demo_gateway) = 0"
  by (simp_all add: demo_gateway_def new_gateway_def hasEvent_def empty_store_def lastSequence_def jm_get_or_def)

lemma demo_first_post: "\<exists>resp. post sample_crypto demo_unicode demo_config demo_now Updates (demo_post 1 ''hi'') demo_gateway = (demo_posted, Inr resp)"
  using demo_posts [of demo_gateway 1 "''hi''"] demo_plain by (auto simp: demo_posted_def)

lemma put_object_tail:
  "\<exists>pre. put_value (JObj (fs @ [(k, JBytes b)])) = pre @ b"
  "\<exists>pre. put_value (JObj (fs @ [(k, JStr s)])) = pre @ map char_byte s"
  by (simp_all add: put_bytes_def)

lemma demo_id_head:
  assumes "body \<noteq> []"
  shows "hd (ev_eventId (demo_event n body)) = char_byte (last body)"
proof -
  let ?e = "demo_event n body"
  have "ev_eventId ?e = deriveId sample_crypto DOMAIN_EVENT_ID (cdeEncode sample_crypto (toIdPreimage ?e))"
    using demo_event_verifies(2) [of n body] by (simp add: verifyEventId_def sameBytes_def)
  then have i: "ev_eventId ?e = take 32 (rev (put_value (toIdPreimage ?e)) @ replicate 32 0)"
    by (simp add: sample_crypto_def)
  obtain pre where a: "put_value (toIdPreimage ?e) = pre @ demo_payload body"
    using put_object_tail(1) [of "case toIdPreimage ?e of JObj fs \<Rightarrow> butlast fs" "''payload''" "demo_payload body"]
    unfolding toIdPreimage_def by (simp del: put_value.simps) blast
  obtain pre' where b: "demo_payload body = pre' @ map char_byte body"
    using put_object_tail(2) [of "[(''channel'', JStr ''updates'')]" "''body''" body]
    unfolding demo_payload_def by (simp del: put_value.simps) blast
  show ?thesis using assms unfolding i a b
    by (cases body rule: rev_cases) auto
qed

lemma demo_ids_differ: "ev_eventId (demo_event 1 ''hi'') \<noteq> ev_eventId (demo_event 2 ''ho'')"
proof
  assume "ev_eventId (demo_event 1 ''hi'') = ev_eventId (demo_event 2 ''ho'')"
  then have "char_byte (CHR ''i'') = char_byte (CHR ''o'')"
    using demo_id_head [of "''hi''" 1] demo_id_head [of "''ho''" 2] by simp
  then show False by code_simp
qed

end
