(* ===== verification/Gateway_Properties.thy ===== *)
theory Gateway_Properties
  imports Gateway_Samples
begin

text \<open>
  The gateway as a state machine over the chain and the database, and what it guarantees:
  who can post where, what a session stands for, how revocation and sign-in behave, and
  that no message is accepted twice. A request is one step. \<open>post\<close> waits for the request
  body between authenticating and checking the event, so its second half is also a step of
  its own, for a session and certificate obtained at any earlier time.
\<close>

section \<open>Steps\<close>

inductive gateway_step :: "crypto \<Rightarrow> webauthn \<Rightarrow> unicode \<Rightarrow> gateway_config \<Rightarrow> gateway \<Rightarrow> gateway \<Rightarrow> bool"
  for c wa uc cf where
  request: "gateway_step c wa uc cf g (fst (handle c wa uc cf now rnd up req g))"
| post_tail: "checkEvent c uc cf now ch session cert req = Inr (event, body) \<Longrightarrow>
    gateway_step c wa uc cf g (fst (acceptEvent cf now ch session event body g))"
| socket_open: "gateway_step c wa uc cf g (onSocketOpen wid g)"
| socket_timeout: "gateway_step c wa uc cf g (onAuthTimeout wid g)"
| socket_close: "gateway_step c wa uc cf g (onSocketClose wid g)"
| socket_message: "gateway_step c wa uc cf g (onSocketMessage c now wid frame g)"
| chain_op: "chain_step c (gw_chain g) ch \<Longrightarrow> gateway_step c wa uc cf g (g\<lparr>gw_chain := ch\<rparr>)"
| restart: "gateway_step c wa uc cf g (new_gateway (gw_chain g) (gw_store g))"

abbreviation gateway_steps :: "crypto \<Rightarrow> webauthn \<Rightarrow> unicode \<Rightarrow> gateway_config \<Rightarrow> gateway \<Rightarrow> gateway \<Rightarrow> bool" where
  "gateway_steps c wa uc cf \<equiv> (gateway_step c wa uc cf)\<^sup>*\<^sup>*"

abbreviation gateway_start :: gateway where "gateway_start \<equiv> new_gateway empty_chain empty_store"

context gateway_relation
begin

lemma relation_restart: "R g (new_gateway (gw_chain g) (gw_store g))"
proof -
  have "R g (g\<lparr>gw_challenges := [], gw_sockets := [], gw_postLimits := \<lambda>_. [], gw_duplicateGuards := \<lambda>_. [],
      gw_limits := \<lambda>_. [], gw_sent := []\<rparr>)"
    by (rule trans [OF trans [OF trans [OF trans [OF trans [OF challenges sockets] post_limits] duplicate_guards] limits] sent])
  moreover have "new_gateway (gw_chain g) (gw_store g) = g\<lparr>gw_challenges := [], gw_sockets := [],
      gw_postLimits := \<lambda>_. [], gw_duplicateGuards := \<lambda>_. [], gw_limits := \<lambda>_. [], gw_sent := []\<rparr>"
    by (cases g) (simp add: new_gateway_def)
  ultimately show ?thesis by simp
qed

lemma relation_step:
  assumes "gateway_step c wa uc cf g g'"
    and sess: "\<And>s t. obeys R (open_session s t)"
    and store: "\<And>now ch session cert req event body m. checkEvent c uc cf now ch session cert req = Inr (event, body) \<Longrightarrow>
      sm_channel m = channel_name ch \<Longrightarrow> sm_identity m = ss_identity session \<Longrightarrow> sm_body m = body \<Longrightarrow>
      obeys R (storeMessage m (ev_sequence event))"
  shows "R g g'"
  using assms(1)
proof (cases rule: gateway_step.cases)
  case (request now rnd up req)
  then show ?thesis using obeys_handle [OF sess store] by simp
next
  case (post_tail now ch session cert req event body)
  then show ?thesis
    using obeys_acceptEvent [of ch session body event cf now] store [OF post_tail(2)] by (simp add: obeys_def)
next
  case (chain_op ch)
  then show ?thesis using chain [OF r_into_rtranclp] by simp
qed (simp_all add: socket_events relation_restart)

end

section \<open>The chain and the database only move by their own steps\<close>

definition evolves :: "crypto \<Rightarrow> gateway \<Rightarrow> gateway \<Rightarrow> bool" where
  "evolves c g g' \<longleftrightarrow> chain_steps c (gw_chain g) (gw_chain g') \<and> store_step\<^sup>*\<^sup>* (gw_store g) (gw_store g')"

interpretation evo: gateway_relation "evolves c" c for c
  by unfold_locales
    (auto simp: evolves_def intro: rtranclp_trans store_step.delete store_step.purge)

lemma evolves_open: "obeys (evolves c) (open_session s t)"
  unfolding obeys_def
proof
  fix g :: gateway
  have "store_step (gw_store g) (deleteExpiredSessions t (gw_store g))" by (rule store_step.expire)
  then show "evolves c g (fst (open_session s t g))"
    by (auto simp: open_session_def evolves_def split: option.split
        intro: rtranclp.rtrancl_into_rtrancl store_step.create)
qed

lemma evolves_store: "obeys (evolves c) (storeMessage m n)"
  unfolding obeys_def
proof
  fix g :: gateway
  show "evolves c g (fst (storeMessage m n g))"
    using store_step.insert [of "gw_store g" m n] by (simp add: storeMessage_def evolves_def split_beta r_into_rtranclp)
qed

lemma gateway_step_evolves: "gateway_step c wa uc cf g g' \<Longrightarrow> evolves c g g'"
  by (rule evo.relation_step [OF _ evolves_open evolves_store])

lemma gateway_steps_evolve: "gateway_steps c wa uc cf g g' \<Longrightarrow> evolves c g g'"
proof (induction rule: rtranclp_induct)
  case base
  then show ?case by (rule evo.refl)
next
  case (step y z)
  then show ?case using gateway_step_evolves evo.trans by blast
qed

lemma gateway_start_chain:
  "gateway_steps c wa uc cf gateway_start g \<Longrightarrow> chain_reach c (gw_chain g) \<and> store_ok (gw_store g)"
proof -
  assume "gateway_steps c wa uc cf gateway_start g"
  then have e: "evolves c gateway_start g" by (rule gateway_steps_evolve)
  have "store_step\<^sup>*\<^sup>* empty_store db \<Longrightarrow> store_ok db" for db
    by (induction rule: rtranclp_induct) (auto intro: store_step_ok)
  moreover have "chain_reach c (gw_chain g)"
    using reach_steps [OF _ chain_reach.start] e by (simp add: evolves_def new_gateway_def)
  ultimately show ?thesis using e by (simp add: evolves_def new_gateway_def)
qed

section \<open>Who posts what\<close>

definition rows_ok :: "unicode \<Rightarrow> gateway_config \<Rightarrow> store \<Rightarrow> bool" where
  "rows_ok uc cf db \<longleftrightarrow> (\<forall>(m, n) \<in> set (db_messages db).
     validateBody uc (code_units_of (sm_body m)) = None
     \<and> (sm_channel m = ''updates'' \<longrightarrow> cf_ownerIdentity cf = Some (sm_identity m)))"

lemma rows_ok_frames:
  "rows_ok uc cf (deleteSession h db) = rows_ok uc cf db"
  "rows_ok uc cf db \<Longrightarrow> rows_ok uc cf (purgeChannel name db)"
  by (auto simp: rows_ok_def deleteSession_def purgeChannel_def)

interpretation rows: gateway_relation "\<lambda>g g'. rows_ok uc cf (gw_store g) \<longrightarrow> rows_ok uc cf (gw_store g')" c
  for c uc cf
  by unfold_locales (simp_all add: rows_ok_frames)

lemma rows_open: "obeys (\<lambda>g g'. rows_ok uc cf (gw_store g) \<longrightarrow> rows_ok uc cf (gw_store g')) (open_session s t)"
  by (auto simp: obeys_def open_session_def rows_ok_def createSession_def deleteExpiredSessions_def
      split: option.splits if_splits)

lemma checkEvent_row:
  "checkEvent c uc cf now ch session cert req = Inr (event, body) \<Longrightarrow>
     validateBody uc (code_units_of body) = None
     \<and> (ch = Updates \<longrightarrow> cf_ownerIdentity cf = Some (ss_identity session))"
  by (cases ch) (auto simp: checkEvent_def rbind_Inr_iff simp del: jfield.simps)

lemma rows_store:
  assumes "checkEvent c uc cf now ch session cert req = Inr (event, body)"
    "sm_channel m = channel_name ch" "sm_identity m = ss_identity session" "sm_body m = body"
  shows "obeys (\<lambda>g g'. rows_ok uc cf (gw_store g) \<longrightarrow> rows_ok uc cf (gw_store g')) (storeMessage m n)"
  using checkEvent_row [OF assms(1)] assms(2-)
  by (cases ch) (auto simp: obeys_def storeMessage_def insertMessage_def Let_def rows_ok_def split_beta)

lemma steps_rows_ok:
  "gateway_steps c wa uc cf g g' \<Longrightarrow> rows_ok uc cf (gw_store g) \<Longrightarrow> rows_ok uc cf (gw_store g')"
proof (induction rule: rtranclp_induct)
  case (step y z)
  have "rows_ok uc cf (gw_store y) \<longrightarrow> rows_ok uc cf (gw_store z)"
    by (rule rows.relation_step [OF step(2) rows_open]) (rule rows_store)
  then show ?case using step by blast
qed

section \<open>Successful handlers\<close>

lemma gbind_Inr: "gbind m f g = (g', Inr y) \<longleftrightarrow> (\<exists>g1 x. m g = (g1, Inr x) \<and> f x g1 = (g', Inr y))"
  by (auto simp: gbind_def split: prod.splits sum.splits)

lemma basic_Inr:
  "gret x g = (g', Inr y) \<longleftrightarrow> g' = g \<and> y = x"
  "glift r g = (g', Inr y) \<longleftrightarrow> g' = g \<and> r = Inr y"
  "gget h g = (g', Inr y) \<longleftrightarrow> g' = g \<and> y = h g"
  "gupd k g = (g', Inr u) \<longleftrightarrow> g' = k g"
  "gensure b e g = (g', Inr u) \<longleftrightarrow> g' = g \<and> b"
  "gverify v e g = (g', Inr u) \<longleftrightarrow> g' = g \<and> v = Some True"
  "gsome w e g = (g', Inr y) \<longleftrightarrow> g' = g \<and> w = Some y"
  by (auto simp: gret_def glift_def gget_def gupd_def gensure_def gverify_def gsome_def ensure_def split: option.splits)

lemma gchain_Inr:
  "gchain op e g = (g', Inr y) \<longleftrightarrow> snd (op (gw_chain g)) = Inr y \<and> g' = g\<lparr>gw_chain := fst (op (gw_chain g))\<rparr>"
  by (auto simp: gchain_def split_beta split: sum.splits)

lemma limit_Inr:
  "limit_requests l key now g = (g', Inr u) \<Longrightarrow> \<exists>hits. g' = g\<lparr>gw_limits := (gw_limits g)(l := hits)\<rparr>"
  by (auto simp: limit_requests_def Let_def split: prod.splits)

lemmas handler_Inr = gbind_Inr basic_Inr gchain_Inr

lemma authenticate_Inr:
  "authenticate c now token g = (g', Inr (session, cert)) \<Longrightarrow>
     g' = g \<and> session \<in> set (db_sessions (gw_store g)) \<and> ss_tokenHash session = hashToken c token
     \<and> now < ss_expiresAt session
     \<and> (\<exists>i d. length i = 32 \<and> length d = 32 \<and> ss_identity session = toHex i \<and> ss_device session = toHex d
          \<and> resolveDeviceCertificate now i d (gw_chain g) = Some cert)"
  by (auto simp: authenticate_def Let_def handler_Inr getSession_def split: if_splits option.splits
      dest!: hexBytes_Inr find_SomeD)

section \<open>Sessions and revocation\<close>

text \<open>
  C28. What an authenticated request proves. With a reachable chain behind it, a token is
  accepted only for a stored session under the hash of that token that has not expired, and
  only while the chain resolves the session's device: the certificate it returns is for the
  session's identity and device, is inside its validity window, and is signed by the
  identity's root or authorised by a registered SSH key or passkey for which a signature of
  that root verifies.
\<close>

theorem authenticate_sound:
  assumes reach: "chain_reach c (gw_chain g)"
    and auth: "authenticate c now token g = (g', Inr (session, cert))"
  shows "g' = g \<and> session \<in> set (db_sessions (gw_store g)) \<and> ss_tokenHash session = hashToken c token
    \<and> now < ss_expiresAt session
    \<and> ss_identity session = toHex (dc_accountId cert) \<and> ss_device session = toHex (dc_deviceId cert)
    \<and> dc_issuedAt cert \<le> now \<and> now < dc_expiresAt cert
    \<and> (\<exists>root a. getIdentityRoot (dc_accountId cert) (gw_chain g) = Some root
         \<and> getDeviceAuthorization (dc_accountId cert) (dc_deviceId cert) (gw_chain g) = Some a
         \<and> backed c (gw_chain g) root cert a)"
proof -
  obtain i d where a: "g' = g" "session \<in> set (db_sessions (gw_store g))" "ss_tokenHash session = hashToken c token"
    "now < ss_expiresAt session" "ss_identity session = toHex i" "ss_device session = toHex d"
    "resolveDeviceCertificate now i d (gw_chain g) = Some cert"
    using authenticate_Inr [OF auth] by blast
  have get: "jm_get (ch_deviceCertificates (gw_chain g)) (deviceCertificateKey i d) = Some cert"
    "dc_issuedAt cert \<le> now" "now < dc_expiresAt cert"
    using a(7) by (auto simp: resolveDeviceCertificate_def split: option.splits if_splits)
  have ok: "device_ok c (gw_chain g) (deviceCertificateKey i d) cert"
    using reach_devices_inv [OF reach] get(1) by (simp add: devices_inv_def)
  then have id: "dc_accountId cert = i" "dc_deviceId cert = d" by (auto simp: device_ok_def)
  obtain root au where "jm_get (ch_deviceAuthorizations (gw_chain g)) (deviceCertificateKey i d) = Some au"
    "jm_get (ch_identityRoots (gw_chain g)) (toHex i) = Some root" "backed c (gw_chain g) root cert au"
    using device_backed [OF reach get(1)] id by blast
  then show ?thesis
    using a get id by (auto simp: getDeviceAuthorization_def getIdentityRoot_def)
qed

theorem authenticate_sound_witness:
  "authenticate sample_crypto demo_now demo_token demo_gateway = (demo_gateway, Inr (demo_session, demo_certificate))
   \<and> (\<exists>a. getDeviceAuthorization demo_identity demo_device demo_enrolled = Some a)"
proof -
  have g: "gw_chain demo_gateway = demo_enrolled" "db_sessions (gw_store demo_gateway) = [demo_session]"
    by (simp_all add: demo_gateway_def new_gateway_def)
  show ?thesis
    using authenticate_sound [of sample_crypto demo_gateway, OF _ demo_authenticates [OF g]] demo_enrolled_reach
      demo_authenticates [OF g] g(1) by auto
qed

lemma sweep_loop:
  fixes now i
  defines "body \<equiv> \<lambda>session. gbind (glift (hexBytes (Some (JStr (ss_device session))) 32)) (\<lambda>device.
       gbind (gget (\<lambda>g. resolveDeviceCertificate now i device (gw_chain g))) (\<lambda>certificate.
       if certificate = None then gupd (endSession (ss_tokenHash session)) else gret ()))"
  assumes "gforeach body sessions g = (g', Inr u)"
  shows "gw_chain g' = gw_chain g \<and> set (db_sessions (gw_store g')) \<subseteq> set (db_sessions (gw_store g))
    \<and> (\<forall>s \<in> set sessions. \<exists>d. ss_device s = toHex d \<and> (resolveDeviceCertificate now i d (gw_chain g) = None \<longrightarrow>
         (\<forall>s' \<in> set (db_sessions (gw_store g')). ss_tokenHash s' \<noteq> ss_tokenHash s)))"
  using assms(2)
proof (induction sessions arbitrary: g)
  case Nil
  then show ?case by (simp add: basic_Inr)
next
  case (Cons s sessions)
  then obtain g1 where one: "body s g = (g1, Inr ())" and rest: "gforeach body sessions g1 = (g', Inr u)"
    by (auto simp: gbind_Inr)
  obtain d where d: "ss_device s = toHex d"
    "g1 = (if resolveDeviceCertificate now i d (gw_chain g) = None then endSession (ss_tokenHash s) g else g)"
    using one unfolding body_def by (auto simp: handler_Inr dest!: hexBytes_Inr split: if_splits)
  have g1: "gw_chain g1 = gw_chain g" "set (db_sessions (gw_store g1)) \<subseteq> set (db_sessions (gw_store g))"
    "resolveDeviceCertificate now i d (gw_chain g) = None \<longrightarrow>
       (\<forall>s' \<in> set (db_sessions (gw_store g1)). ss_tokenHash s' \<noteq> ss_tokenHash s)"
    using d(2) by (auto simp: endSession_def deleteSession_def)
  show ?case using Cons.IH [OF rest] g1 d(1) by auto
qed

lemma sweep_Inr:
  assumes "sweepSessions now (toHex i) g = (g', Inr u)"
  shows "gw_chain g' = gw_chain g
    \<and> (\<forall>s \<in> set (sessionsForIdentity (toHex i) (gw_store g')). \<exists>d. ss_device s = toHex d
         \<and> resolveDeviceCertificate now i d (gw_chain g') \<noteq> None)"
proof -
  obtain i' where i': "hexBytes (Some (JStr (toHex i))) 32 = Inr i'"
    "gforeach (\<lambda>session. gbind (glift (hexBytes (Some (JStr (ss_device session))) 32)) (\<lambda>device.
       gbind (gget (\<lambda>g. resolveDeviceCertificate now i' device (gw_chain g))) (\<lambda>certificate.
       if certificate = None then gupd (endSession (ss_tokenHash session)) else gret ())))
       (sessionsForIdentity (toHex i) (gw_store g)) g = (g', Inr u)"
    using assms unfolding sweepSessions_def by (auto simp: gbind_Inr basic_Inr)
  have "i' = i" using hexBytes_Inr [OF i'(1)] by simp
  then have L: "gw_chain g' = gw_chain g" "set (db_sessions (gw_store g')) \<subseteq> set (db_sessions (gw_store g))"
    "\<forall>s \<in> set (sessionsForIdentity (toHex i) (gw_store g)). \<exists>d. ss_device s = toHex d \<and>
       (resolveDeviceCertificate now i d (gw_chain g) = None \<longrightarrow>
         (\<forall>s' \<in> set (db_sessions (gw_store g')). ss_tokenHash s' \<noteq> ss_tokenHash s))"
    using sweep_loop [OF i'(2)] by simp_all
  show ?thesis
  proof (intro conjI ballI)
    fix s assume s: "s \<in> set (sessionsForIdentity (toHex i) (gw_store g'))"
    then have "s \<in> set (sessionsForIdentity (toHex i) (gw_store g))" "s \<in> set (db_sessions (gw_store g'))"
      using L(2) by (auto simp: sessionsForIdentity_def)
    then show "\<exists>d. ss_device s = toHex d \<and> resolveDeviceCertificate now i d (gw_chain g') \<noteq> None"
      using L(1,3) by metis
  qed (rule L(1))
qed

lemma revoke_Inr:
  assumes "revoke c now req ip g = (g', Inr resp)" "request_body req = Inr input"
    "revocationFromJson (jfield input ''revocation'') = Inr r"
  shows "\<exists>w. snd (revokeCredential c now w r (gw_chain g)) = Inr ()
    \<and> gw_chain g' = fst (revokeCredential c now w r (gw_chain g))
    \<and> (\<exists>g1. sweepSessions now (toHex (rv_accountId r)) g1 = (g', Inr ()))"
proof -
  obtain x :: identity_record and hits where x: "snd (revokeCredential c now (ir_wallet x) r (gw_chain g)) = Inr ()"
    "sweepSessions now (toHex (rv_accountId r)) (g\<lparr>gw_limits := (gw_limits g)(mutationLimit := hits),
       gw_chain := fst (revokeCredential c now (ir_wallet x) r (gw_chain g))\<rparr>) = (g', Inr ())"
    using assms unfolding revoke_def
    by (auto simp: handler_Inr simp del: jfield.simps dest!: limit_Inr)
  have "gw_chain g' = fst (revokeCredential c now (ir_wallet x) r (gw_chain g))"
    using sweep_Inr [OF x(2)] by simp
  then show ?thesis using x by blast
qed

text \<open>
  Revoking ends the sessions that rest on the revoked credential. When the revoke
  request succeeds, the credential is revoked on the chain, and every session of that
  identity still stored is for a device the chain still resolves.
\<close>

lemma revoke_ends_sessions:
  assumes "revoke c now req ip g = (g', Inr resp)" and "request_body req = Inr input"
    and "revocationFromJson (jfield input ''revocation'') = Inr r"
  shows "isRevoked (rv_accountId r) (rv_kind r) (rv_credentialId r) (gw_chain g')
    \<and> (\<forall>s \<in> set (db_sessions (gw_store g')). ss_identity s = toHex (rv_accountId r) \<longrightarrow>
        (\<exists>d. ss_device s = toHex d \<and> resolveDeviceCertificate now (rv_accountId r) d (gw_chain g') \<noteq> None
           \<and> \<not> device_rests_on (gw_chain g') (rv_accountId r, d) (rv_accountId r, rv_kind r, rv_credentialId r)))"
proof -
  obtain w g1 where w: "snd (revokeCredential c now w r (gw_chain g)) = Inr ()"
    "gw_chain g' = fst (revokeCredential c now w r (gw_chain g))"
    "sweepSessions now (toHex (rv_accountId r)) g1 = (g', Inr ())"
    using revoke_Inr [OF assms] by blast
  have rev: "isRevoked (rv_accountId r) (rv_kind r) (rv_credentialId r) (gw_chain g')"
    using w(1) unfolding w(2) by (simp add: revokeCredential_state isRevoked_def isRevokedKey_def jm_has_get jm_get_set)
  moreover have "\<exists>d. ss_device s = toHex d \<and> resolveDeviceCertificate now (rv_accountId r) d (gw_chain g') \<noteq> None
      \<and> \<not> device_rests_on (gw_chain g') (rv_accountId r, d) (rv_accountId r, rv_kind r, rv_credentialId r)"
    if s: "s \<in> set (db_sessions (gw_store g'))" "ss_identity s = toHex (rv_accountId r)" for s
  proof -
    obtain d where "ss_device s = toHex d" "resolveDeviceCertificate now (rv_accountId r) d (gw_chain g') \<noteq> None"
      using sweep_Inr [OF w(3)] s by (auto simp: sessionsForIdentity_def)
    then show ?thesis using revoked_device_unresolved [OF rev, of d now] by (intro exI [of _ d] conjI) auto
  qed
  ultimately show ?thesis by blast
qed

lemma revoke_ends_sessions_witness:
  "isRevoked demo_identity KSsh demo_unused (gw_chain demo_after_revoke)
   \<and> db_sessions (gw_store demo_after_revoke) = [demo_session]"
proof -
  have "revocationFromJson (jfield [(''revocation'', revocationToJson demo_ssh_revocation)] ''revocation'')
      = Inr demo_ssh_revocation" using demo_revoke_parsed by simp
  then have "isRevoked demo_identity KSsh demo_unused (gw_chain demo_after_revoke)"
    using revoke_ends_sessions [OF demo_revokes(1), unfolded demo_revoke_def, OF demo_body] by simp
  then show ?thesis using demo_revokes(3) by (simp add: demo_gateway_def new_gateway_def)
qed

text \<open>
  C31. A revoked credential never authenticates again. After a successful revoke request,
  in every later state of the gateway (through restarts and any requests), a token is
  accepted for that identity only for devices that neither are the revoked device nor were
  authorised by the revoked credential.
\<close>

theorem revoked_never_authenticates:
  assumes rev: "revoke c now req ip g = (g1, Inr resp)" and body: "request_body req = Inr input"
    and r: "revocationFromJson (jfield input ''revocation'') = Inr r"
    and later: "gateway_steps c wa uc cf g1 g2"
    and auth: "authenticate c t token g2 = (g3, Inr (session, cert))"
    and same: "ss_identity session = toHex (rv_accountId r)"
  shows "\<exists>d. ss_device session = toHex d
    \<and> \<not> device_rests_on (gw_chain g2) (rv_accountId r, d) (rv_accountId r, rv_kind r, rv_credentialId r)"
proof -
  obtain w where w: "snd (revokeCredential c now w r (gw_chain g)) = Inr ()"
    "gw_chain g1 = fst (revokeCredential c now w r (gw_chain g))"
    using revoke_Inr [OF rev body r] by blast
  have "isRevoked (rv_accountId r) (rv_kind r) (rv_credentialId r) (gw_chain g1)"
    using w(1) unfolding w(2) by (simp add: revokeCredential_state isRevoked_def isRevokedKey_def jm_has_get jm_get_set)
  moreover have "chain_steps c (gw_chain g1) (gw_chain g2)"
    using gateway_steps_evolve [OF later] by (simp add: evolves_def)
  ultimately have still: "isRevoked (rv_accountId r) (rv_kind r) (rv_credentialId r) (gw_chain g2)"
    using devchain.revoked_forever [of c "gw_chain g1" "gw_chain g2" "(rv_accountId r, rv_kind r, rv_credentialId r)"] by simp
  obtain d where "ss_device session = toHex d" "resolveDeviceCertificate t (rv_accountId r) d (gw_chain g2) = Some cert"
    using authenticate_Inr [OF auth] same by auto
  then show ?thesis using revoked_device_unresolved [OF still] by (metis option.distinct(1))
qed

theorem revoked_never_authenticates_witness:
  "\<exists>d. ss_device demo_session = toHex d
    \<and> \<not> device_rests_on (gw_chain demo_after_revoke) (demo_identity, d) (demo_identity, KSsh, demo_unused)"
proof -
  have r: "revocationFromJson (jfield [(''revocation'', revocationToJson demo_ssh_revocation)] ''revocation'')
      = Inr demo_ssh_revocation" using demo_revoke_parsed by simp
  have "authenticate sample_crypto demo_now demo_token demo_after_revoke
      = (demo_after_revoke, Inr (demo_session, demo_certificate))"
    using demo_still_resolves demo_revokes(2,3)
    by (simp add: authenticate_def Let_def gbind_def gget_def gsome_def glift_def gret_def getSession_def
      demo_session_def demo_now_def DAY_MS_def demo_gateway_def new_gateway_def)
  from revoked_never_authenticates [OF demo_revokes(1), unfolded demo_revoke_def, OF demo_body r rtranclp.rtrancl_refl this]
  show ?thesis by (simp add: demo_session_def)
qed

section \<open>Signing in\<close>

lemma registered_stored:
  "snd (registerDeviceCertificate c now w cert st) = Inr x \<Longrightarrow>
   jm_get (ch_deviceCertificates (fst (registerDeviceCertificate c now w cert st)))
     (deviceCertificateKey (dc_accountId cert) (dc_deviceId cert)) = Some cert"
  by (auto simp: registerDeviceCertificate_def Let_def storeDevice_def jm_get_set split: if_splits option.splits bool.splits)

lemma ssh_authorized_stored:
  "snd (authorizeDeviceCertificateWithSshKey now i cert fp st) = Inr x \<Longrightarrow>
   jm_get (ch_deviceCertificates (fst (authorizeDeviceCertificateWithSshKey now i cert fp st)))
     (deviceCertificateKey (dc_accountId cert) (dc_deviceId cert)) = Some cert"
  by (auto simp: authorizeDeviceCertificateWithSshKey_def Let_def storeDevice_def jm_get_set split: if_splits)

lemma passkey_authorized_stored:
  assumes "snd (authorizeDeviceCertificateWithPasskey wa now i cert a ch st) = Inr x"
  shows "jm_get (ch_deviceCertificates (fst (authorizeDeviceCertificateWithPasskey wa now i cert a ch st)))
     (deviceCertificateKey (dc_accountId cert) (dc_deviceId cert)) = Some cert"
proof -
  obtain cid n where "authorizeDeviceCertificateWithPasskey wa now i cert a ch st = passkeyAuthorizationCommit now i cert cid n st"
    using assms by (auto simp: authorizeDeviceCertificateWithPasskey_def split: sum.splits prod.splits webauthn_result.splits)
  then show ?thesis
    using assms by (auto simp: passkeyAuthorizationCommit_def Let_def storeDevice_def jm_get_set split: if_splits)
qed

lemma enrol_Inr:
  assumes "(case m of MWallet \<Rightarrow> enrolWallet c now w cert | MSsh \<Rightarrow> enrolSsh c now input preimage cert
     | MPasskey \<Rightarrow> enrolPasskey wa now input pch cert) g = (g', Inr u)"
  shows "\<exists>ch. g' = g\<lparr>gw_chain := ch\<rparr>
    \<and> jm_get (ch_deviceCertificates ch) (deviceCertificateKey (dc_accountId cert) (dc_deviceId cert)) = Some cert"
proof (cases m)
  case MWallet
  then obtain x where "snd (registerDeviceCertificate c now w cert (gw_chain g)) = Inr x"
    "g' = g\<lparr>gw_chain := fst (registerDeviceCertificate c now w cert (gw_chain g))\<rparr>"
    using assms by (auto simp: enrolWallet_def handler_Inr)
  then show ?thesis using registered_stored by blast
next
  case MSsh
  then obtain fp x where "snd (authorizeDeviceCertificateWithSshKey now (dc_accountId cert) cert fp (gw_chain g)) = Inr x"
    "g' = g\<lparr>gw_chain := fst (authorizeDeviceCertificateWithSshKey now (dc_accountId cert) cert fp (gw_chain g))\<rparr>"
    using assms by (auto simp: enrolSsh_def Let_def handler_Inr parse_ssh_key_def simp del: jfield.simps)
  then show ?thesis using ssh_authorized_stored by blast
next
  case MPasskey
  then obtain a ch x where "snd (authorizeDeviceCertificateWithPasskey wa now (dc_accountId cert) cert a ch (gw_chain g)) = Inr x"
    "g' = g\<lparr>gw_chain := fst (authorizeDeviceCertificateWithPasskey wa now (dc_accountId cert) cert a ch (gw_chain g))\<rparr>"
    using assms by (auto simp: enrolPasskey_def handler_Inr simp del: jfield.simps)
  then show ?thesis using passkey_authorized_stored by blast
qed

lemma take_Inr:
  "take_challenge now cid g = (g', Inr ch) \<longleftrightarrow>
     jm_get (gw_challenges g) cid = Some ch \<and> now < pch_expiresAt ch
     \<and> g' = g\<lparr>gw_challenges := jm_del cid (gw_challenges g)\<rparr>"
  by (auto simp: take_challenge_def handler_Inr split: option.splits)

lemma open_Inr:
  "open_session s now g = (g', Inr u) \<Longrightarrow> \<exists>db. g' = g\<lparr>gw_store := db\<rparr> \<and> s \<in> set (db_sessions db)"
  by (auto simp: open_session_def createSession_def split: option.splits if_splits)

text \<open>
  C32. What a successful sign-in proves. A session is created only against a pending,
  unexpired challenge, which is consumed; the device key of the challenge's certificate
  signed exactly this challenge for this audience, method, nonce and certificate; the
  certificate's window is acceptable and the chain now holds it; and the session of that
  challenge (its identity and device, the hash of the returned token, ending with the
  certificate or the configured maximum) is stored.
\<close>

theorem sign_in_sound:
  assumes "verifyChallenge c wa cf now rnd req ip g = (g', Inr resp)"
  shows "\<exists>input cid challenge sig. request_body req = Inr input \<and> jfield input ''challengeId'' = Some (JStr cid)
    \<and> jm_get (gw_challenges g) cid = Some challenge \<and> now < pch_expiresAt challenge
    \<and> jm_get (gw_challenges g') cid = None
    \<and> base64UrlBytes (jfield input ''deviceSignature'') 64 = Inr sig
    \<and> ed_verify c (dc_signingKey (pch_certificate challenge)) (signInPreimage c (challenge_fields cf challenge)) sig = Some True
    \<and> checkCertificateWindow cf (pch_certificate challenge) now = Inr ()
    \<and> jm_get (ch_deviceCertificates (gw_chain g')) (deviceCertificateKey (dc_accountId (pch_certificate challenge))
          (dc_deviceId (pch_certificate challenge))) = Some (pch_certificate challenge)
    \<and> challenge_session c cf now challenge (toBase64Url rnd) \<in> set (db_sessions (gw_store g'))"
proof -
  let ?cert = "\<lambda>challenge. pch_certificate challenge"
  obtain hits input cid sig g3 and challenge :: pending_challenge and r :: identity_record where
    body: "request_body req = Inr input" "challengeIdField (jfield input ''challengeId'') = Inr cid"
    and ch: "jm_get (gw_challenges g) cid = Some challenge" "now < pch_expiresAt challenge"
    and sig: "base64UrlBytes (jfield input ''deviceSignature'') 64 = Inr sig"
      "ed_verify c (dc_signingKey (?cert challenge)) (signInPreimage c (challenge_fields cf challenge)) sig = Some True"
      "checkCertificateWindow cf (?cert challenge) now = Inr ()"
    and enrol: "(case pch_method challenge of
              MWallet \<Rightarrow> enrolWallet c now (ir_wallet r) (?cert challenge)
            | MSsh \<Rightarrow> enrolSsh c now input (signInPreimage c (challenge_fields cf challenge)) (?cert challenge)
            | MPasskey \<Rightarrow> enrolPasskey wa now input (pch_passkeyChallenge challenge) (?cert challenge))
         (g\<lparr>gw_limits := hits, gw_challenges := jm_del cid (gw_challenges g)\<rparr>) = (g3, Inr ())"
    and sess: "open_session (challenge_session c cf now challenge (toBase64Url rnd)) now g3 = (g', Inr ())"
    using assms unfolding verifyChallenge_def completeSignIn_def Let_def
    by (auto simp: gbind_Inr basic_Inr take_Inr simp del: jfield.simps dest!: limit_Inr)
  have cid: "jfield input ''challengeId'' = Some (JStr cid)"
    using body(2) by (auto simp: challengeIdField_def rbind_Inr_iff stringField_Inr simp del: jfield.simps)
  obtain st where g3: "g3 = g\<lparr>gw_limits := hits, gw_challenges := jm_del cid (gw_challenges g), gw_chain := st\<rparr>"
    "jm_get (ch_deviceCertificates st) (deviceCertificateKey (dc_accountId (?cert challenge))
       (dc_deviceId (?cert challenge))) = Some (?cert challenge)"
    using enrol_Inr [OF enrol] by auto
  obtain db where db: "g' = g3\<lparr>gw_store := db\<rparr>"
    "challenge_session c cf now challenge (toBase64Url rnd) \<in> set (db_sessions db)"
    using open_Inr [OF sess] by auto
  have "jm_get (gw_challenges g') cid = None" "jm_get (ch_deviceCertificates (gw_chain g'))
      (deviceCertificateKey (dc_accountId (?cert challenge)) (dc_deviceId (?cert challenge))) = Some (?cert challenge)"
    "challenge_session c cf now challenge (toBase64Url rnd) \<in> set (db_sessions (gw_store g'))"
    using g3 db by (simp_all add: jm_get_del)
  then show ?thesis using body(1) cid ch sig by blast
qed

theorem sign_in_sound_witness:
  "\<exists>g' resp. verifyChallenge sample_crypto demo_webauthn demo_config demo_now (replicate 32 9) demo_sign_in ''ip'' demo_pending
     = (g', Inr resp) \<and> (\<exists>s. s \<in> set (db_sessions (gw_store g')))"
  using demo_signs_in sign_in_sound by meson

text \<open>Once absent, a challenge stays absent for every handler that does not issue one.\<close>

interpretation kept: handler_relation "\<lambda>g g'. gw_challenges g' = gw_challenges g" c for c
  by unfold_locales simp_all

lemma kept_open: "obeys (\<lambda>g g'. gw_challenges g' = gw_challenges g) (open_session s t)"
  by (simp add: obeys_def open_session_def split: option.split)

lemma verifyChallenge_consumes:
  assumes "limit_requests challengeLimit ip now g = (g1, Inr ())" "request_body req = Inr input"
    "challengeIdField (jfield input ''challengeId'') = Inr cid"
  shows "gw_challenges (fst (verifyChallenge c wa cf now rnd req ip g)) = jm_del cid (gw_challenges g)"
proof -
  have g1: "gw_challenges g1 = gw_challenges g" using limit_Inr [OF assms(1)] by auto
  have rest: "gw_challenges (fst (completeSignIn c wa cf now rnd input ch g2)) = gw_challenges g2" for ch g2
    using kept.obeys_completeSignIn [OF kept_open] by (simp add: obeys_def)
  have "fst (take_challenge now cid g1) = g1\<lparr>gw_challenges := jm_del cid (gw_challenges g1)\<rparr>"
    by (simp add: take_challenge_def gbind_def gget_def gupd_def gsome_def glift_def)
  then show ?thesis
    using assms(1) rest g1
    by (cases "take_challenge now cid g1")
      (auto simp: verifyChallenge_def gbind_def assms glift_def simp del: jfield.simps split: sum.split)
qed

lemma verifyChallenge_needs:
  assumes "verifyChallenge c wa cf now rnd req ip g = (g', Inr resp)" "request_body req = Inr input"
    "challengeIdField (jfield input ''challengeId'') = Inr cid"
  shows "jm_get (gw_challenges g) cid \<noteq> None"
  using assms unfolding verifyChallenge_def
  by (auto simp: gbind_Inr basic_Inr take_Inr simp del: jfield.simps dest!: limit_Inr)

text \<open>
  A sign-in challenge is good for one attempt. Whatever the outcome of a verify request
  that names a challenge and passes the rate limit, the challenge is gone afterwards, no
  other challenge is touched, and a second verify request for the same challenge fails.
\<close>

lemma challenge_single_use:
  assumes lim: "limit_requests challengeLimit ip now g = (g1, Inr ())" and body: "request_body req = Inr input"
    and cid: "challengeIdField (jfield input ''challengeId'') = Inr cid"
    and body': "request_body req' = Inr input'" and cid': "challengeIdField (jfield input' ''challengeId'') = Inr cid"
  shows "jm_get (gw_challenges (fst (verifyChallenge c wa cf now rnd req ip g))) cid = None
    \<and> (\<forall>k. k \<noteq> cid \<longrightarrow> jm_get (gw_challenges (fst (verifyChallenge c wa cf now rnd req ip g))) k = jm_get (gw_challenges g) k)
    \<and> (\<nexists>resp. snd (verifyChallenge c wa cf now' rnd' req' ip' (fst (verifyChallenge c wa cf now rnd req ip g))) = Inr resp)"
proof -
  let ?g = "fst (verifyChallenge c wa cf now rnd req ip g)"
  have gone: "gw_challenges ?g = jm_del cid (gw_challenges g)" by (rule verifyChallenge_consumes [OF lim body cid])
  have "False" if "verifyChallenge c wa cf now' rnd' req' ip' ?g = (g3, Inr resp)" for g3 resp
    using verifyChallenge_needs [OF that body' cid'] gone by (simp add: jm_get_del)
  then have "\<nexists>resp. snd (verifyChallenge c wa cf now' rnd' req' ip' ?g) = Inr resp"
    by (metis prod.collapse)
  then show ?thesis using gone by (simp add: jm_get_del)
qed

lemma challenge_single_use_witness:
  "snd (verifyChallenge sample_crypto demo_webauthn demo_config demo_now [] demo_sign_in ''ip''
     (fst (verifyChallenge sample_crypto demo_webauthn demo_config demo_now (replicate 32 9) demo_sign_in ''ip'' demo_pending)))
   \<noteq> Inr (201, JNull)"
proof -
  have "limit_requests challengeLimit ''ip'' demo_now demo_pending
      = (demo_pending\<lparr>gw_limits := (gw_limits demo_pending)(challengeLimit := [(''ip'', [demo_now])])\<rparr>, Inr ())"
    by (rule limit_fresh) (simp add: demo_pending_def new_gateway_def)
  from challenge_single_use [OF this, of demo_sign_in] show ?thesis
    using demo_challenge_id by (simp add: demo_sign_in_def)
qed

section \<open>Posting\<close>

text \<open>The event a post request carries.\<close>

definition posted_event :: "request \<Rightarrow> failure + nexnet_event" where
  "posted_event req = rbind (request_body req) (\<lambda>input. eventFromJson (jfield input ''event''))"

definition event_ok ::
  "crypto \<Rightarrow> unicode \<Rightarrow> gateway_config \<Rightarrow> int \<Rightarrow> channel_id \<Rightarrow> stored_session \<Rightarrow> device_certificate \<Rightarrow> nexnet_event \<Rightarrow> string \<Rightarrow> bool" where
  "event_ok c uc cf now ch session cert event body \<longleftrightarrow>
     ev_protocolVersion event = 1 \<and> ev_eventType event = ''channel.post''
     \<and> toHex (ev_authorIdentityId event) = ss_identity session \<and> toHex (ev_authorDeviceId event) = ss_device session
     \<and> verifyEventId c event \<and> verifyEvent c event (dc_signingKey cert) = Some True
     \<and> \<bar>ev_createdAt event - now\<bar> \<le> 300000
     \<and> decodeChannelPayload c (ev_payload event) = Inr \<lparr>py_channel = channel_name ch, py_body = body\<rparr>
     \<and> validateBody uc (code_units_of body) = None
     \<and> (ch = Updates \<longrightarrow> cf_ownerIdentity cf = Some (ss_identity session))"

lemma checkEvent_Inr:
  assumes "checkEvent c uc cf now ch session cert req = Inr (event, body)"
  shows "posted_event req = Inr event \<and> event_ok c uc cf now ch session cert event body"
proof -
  have writers: "cp_writers (CHANNELS ch) = WOwner \<longleftrightarrow> ch = Updates" by (cases ch) auto
  have payload: "p = \<lparr>py_channel = py_channel p, py_body = py_body p\<rparr>" for p :: channel_payload by simp
  show ?thesis
    using assms payload unfolding checkEvent_def posted_event_def event_ok_def
    by (auto simp: rbind_Inr_iff writers PROTOCOL_VERSION_def EVENT_SKEW_MS_def simp del: jfield.simps
        split: option.splits sum.splits)
qed

lemma allow_Inr:
  "allowPost ch i now g = (g', Inr u) \<Longrightarrow> \<exists>x. g' = g\<lparr>gw_postLimits := x\<rparr>"
  "allowText ch i body now g = (g', Inr u) \<Longrightarrow> \<exists>x. g' = g\<lparr>gw_duplicateGuards := x\<rparr>"
  by (auto simp: allowPost_def allowText_def Let_def split: prod.splits)

lemma store_Inr:
  "storeMessage m n g = (g', Inr row) \<longleftrightarrow>
     snd (insertMessage m n (gw_store g)) = Inserted row \<and> g' = g\<lparr>gw_store := fst (insertMessage m n (gw_store g))\<rparr>"
  by (auto simp: storeMessage_def Let_def split_beta split: insert_result.splits)

lemma expire_fields:
  "gw_sockets (expireChannel cf now ch g) = gw_sockets g" "gw_sent (expireChannel cf now ch g) = gw_sent g"
  "gw_chain (expireChannel cf now ch g) = gw_chain g"
  by (auto simp: expireChannel_def split: option.split)

definition event_row :: "channel_id \<Rightarrow> stored_session \<Rightarrow> nexnet_event \<Rightarrow> string \<Rightarrow> int \<Rightarrow> stored_message" where
  "event_row ch session event body now = \<lparr>sm_seq = 0, sm_channel = channel_name ch, sm_eventId = toHex (ev_eventId event),
     sm_identity = ss_identity session, sm_device = ss_device session, sm_createdAt = ev_createdAt event,
     sm_receivedAt = now, sm_body = body\<rparr>"

lemma acceptEvent_Inr:
  assumes "acceptEvent cf now ch session event body g = (g', Inr resp)"
  shows "\<exists>row message. snd (insertMessage (event_row ch session event body now) (ev_sequence event)
        (gw_store (expireChannel cf now ch g))) = Inserted row
    \<and> gw_store g' = fst (insertMessage (event_row ch session event body now) (ev_sequence event)
        (gw_store (expireChannel cf now ch g)))
    \<and> pm_id message = toHex (ev_eventId event) \<and> pm_body message = body \<and> pm_seq message = sm_seq row
    \<and> gw_sent g' = gw_sent g @ concat (map (\<lambda>ws. sendSocket ws (FMessage ch message))
        (filter (\<lambda>ws. ws_ready ws \<and> ch \<in> set (ws_channels ws)) (gw_sockets g)))"
proof -
  have row: "snd (insertMessage (event_row ch session event body now) n db) = Inserted row \<Longrightarrow>
      sm_eventId row = toHex (ev_eventId event) \<and> sm_body row = body" for n db row
    by (auto simp: insertMessage_def Let_def event_row_def split: if_splits)
  obtain x y row message where
    r: "snd (insertMessage (event_row ch session event body now) (ev_sequence event)
        (gw_store (expireChannel cf now ch g))) = Inserted row"
    and m: "publicMessage row (expireChannel cf now ch g\<lparr>gw_postLimits := x, gw_duplicateGuards := y,
        gw_store := fst (insertMessage (event_row ch session event body now) (ev_sequence event)
          (gw_store (expireChannel cf now ch g)))\<rparr>) = Inr message"
    and g': "g' = broadcast ch message (expireChannel cf now ch g\<lparr>gw_postLimits := x, gw_duplicateGuards := y,
        gw_store := fst (insertMessage (event_row ch session event body now) (ev_sequence event)
          (gw_store (expireChannel cf now ch g)))\<rparr>)"
    using assms unfolding acceptEvent_def Let_def event_row_def
    by (auto simp: gbind_Inr basic_Inr store_Inr dest!: allow_Inr)
  have "pm_id message = toHex (ev_eventId event)" "pm_body message = body" "pm_seq message = sm_seq row"
    using m row [OF r] by (auto simp: publicMessage_def rbind_Inr_iff)
  then show ?thesis using r g' by (auto simp: broadcast_def expire_fields)
qed

lemma post_Inr:
  assumes "post c uc cf now ch req g = (g', Inr resp)"
  shows "\<exists>token session cert event body. bearer req = Inr token
    \<and> authenticate c now token g = (g, Inr (session, cert))
    \<and> checkEvent c uc cf now ch session cert req = Inr (event, body)
    \<and> acceptEvent cf now ch session event body g = (g', Inr resp)"
  using assms unfolding post_def
  by (auto simp: gbind_Inr basic_Inr split: prod.splits dest: authenticate_Inr)

text \<open>
  C29. What an accepted post proves. A post succeeds only with a token that authenticates
  and an event whose author is the session's identity and device, whose id is the hash of
  its content, whose signature verifies under the device key the chain resolved, whose time
  is within five minutes of the clock, whose signed channel is the one posted to, whose text
  passes the text rules, and, in the updates channel, whose author is the owner. Then exactly
  that message is appended to the database and sent to the ready sockets of the channel.
\<close>

theorem accepted_post_sound:
  assumes "post c uc cf now ch req g = (g', Inr resp)"
  shows "\<exists>token session cert event body row message.
    bearer req = Inr token \<and> authenticate c now token g = (g, Inr (session, cert))
    \<and> posted_event req = Inr event \<and> event_ok c uc cf now ch session cert event body
    \<and> snd (insertMessage (event_row ch session event body now) (ev_sequence event)
        (gw_store (expireChannel cf now ch g))) = Inserted row
    \<and> db_messages (gw_store g') = db_messages (gw_store (expireChannel cf now ch g)) @ [(row, ev_sequence event)]
    \<and> pm_id message = toHex (ev_eventId event) \<and> pm_body message = body \<and> pm_seq message = sm_seq row
    \<and> gw_sent g' = gw_sent g @ concat (map (\<lambda>ws. sendSocket ws (FMessage ch message))
        (filter (\<lambda>ws. ws_ready ws \<and> ch \<in> set (ws_channels ws)) (gw_sockets g)))"
proof -
  obtain token session cert event body where p: "bearer req = Inr token"
    "authenticate c now token g = (g, Inr (session, cert))"
    "checkEvent c uc cf now ch session cert req = Inr (event, body)"
    "acceptEvent cf now ch session event body g = (g', Inr resp)"
    using post_Inr [OF assms] by blast
  obtain row message where r: "snd (insertMessage (event_row ch session event body now) (ev_sequence event)
        (gw_store (expireChannel cf now ch g))) = Inserted row"
    "gw_store g' = fst (insertMessage (event_row ch session event body now) (ev_sequence event)
        (gw_store (expireChannel cf now ch g)))"
    "pm_id message = toHex (ev_eventId event)" "pm_body message = body" "pm_seq message = sm_seq row"
    "gw_sent g' = gw_sent g @ concat (map (\<lambda>ws. sendSocket ws (FMessage ch message))
        (filter (\<lambda>ws. ws_ready ws \<and> ch \<in> set (ws_channels ws)) (gw_sockets g)))"
    using acceptEvent_Inr [OF p(4)] by blast
  have "db_messages (gw_store g') = db_messages (gw_store (expireChannel cf now ch g)) @ [(row, ev_sequence event)]"
    using r(1) unfolding r(2) by (auto simp: insertMessage_def Let_def split: if_splits)
  then show ?thesis using p r checkEvent_Inr [OF p(3)] by blast
qed

theorem accepted_post_sound_witness:
  "\<exists>row (message :: public_message). db_messages (gw_store demo_posted) = db_messages (gw_store (expireChannel demo_config demo_now Updates demo_gateway)) @ [(row, 1)]
     \<and> pm_body message = ''hi'' \<and> pm_seq message = sm_seq row"
proof -
  have p: "posted_event (demo_post 1 ''hi'') = Inr (demo_event 1 ''hi'')"
    using demo_event_parsed [of 1 "''hi''"] by (simp add: posted_event_def demo_post_def)
  obtain resp where "post sample_crypto demo_unicode demo_config demo_now Updates (demo_post 1 ''hi'') demo_gateway = (demo_posted, Inr resp)"
    using demo_first_post by blast
  from accepted_post_sound [OF this] show ?thesis
    unfolding p by (auto simp: event_ok_def demo_payload_decoded)
qed

lemma demo_stored:
  assumes "gw_postLimits g Updates = []" "gw_duplicateGuards g Updates = []"
    and "\<not> hasEvent (toHex (ev_eventId (demo_event n body))) (gw_store g)"
    and "lastSequence (sequenceKey (toHex demo_identity) (toHex demo_device)) (gw_store g) < n"
  shows "gw_store (fst (acceptEvent demo_config demo_now Updates demo_session (demo_event n body) body g)) =
    fst (insertMessage (event_row Updates demo_session (demo_event n body) body demo_now) n (gw_store g))"
    "gw_chain (fst (acceptEvent demo_config demo_now Updates demo_session (demo_event n body) body g)) = gw_chain g"
  using assms
  by (simp_all add: acceptEvent_def gbind_def gget_def gensure_def glift_def ensure_def gupd_def gret_def allowPost_def
      allowText_def Let_def sw_allow_def dg_allow_def jm_get_or_def jm_size_def jm_set_def SPAM_DUPLICATE_THRESHOLD_def
      expireChannel_def storeMessage_def insertMessage_def demo_session_def publicMessage_def split_beta broadcast_def
      event_row_def)

lemma demo_posted_is: "demo_posted = fst (acceptEvent demo_config demo_now Updates demo_session (demo_event 1 ''hi'') ''hi'' demo_gateway)"
  using demo_event_checked [of 1 "''hi''"] demo_authenticates [of demo_gateway] demo_plain
  by (simp add: demo_posted_def post_def gbind_def glift_def demo_post_def [of 1 "''hi''"])

lemma demo_posted_fields:
  "gw_chain demo_posted = demo_enrolled" "db_sessions (gw_store demo_posted) = [demo_session]"
  "\<not> hasEvent (toHex (ev_eventId (demo_event 2 ''ho''))) (gw_store demo_posted)"
  "lastSequence (sequenceKey (toHex demo_identity) (toHex demo_device)) (gw_store demo_posted) = 1"
proof -
  have st: "gw_store demo_posted = fst (insertMessage (event_row Updates demo_session (demo_event 1 ''hi'') ''hi'' demo_now) 1 (gw_store demo_gateway))"
    and ch: "gw_chain demo_posted = gw_chain demo_gateway"
    using demo_stored [of demo_gateway 1 "''hi''"] by (simp_all add: demo_posted_is)
  show "gw_chain demo_posted = demo_enrolled" using ch by simp
  show "db_sessions (gw_store demo_posted) = [demo_session]"
    "\<not> hasEvent (toHex (ev_eventId (demo_event 2 ''ho''))) (gw_store demo_posted)"
    "lastSequence (sequenceKey (toHex demo_identity) (toHex demo_device)) (gw_store demo_posted) = 1"
    by (simp_all add: st insertMessage_def Let_def hasEvent_def event_row_def lastSequence_def jm_get_or_def
      demo_session_def demo_gateway_def new_gateway_def empty_store_def jm_get_set demo_ids_differ)
qed

text \<open>
  Accepted events of a device have strictly increasing sequence numbers, over the whole
  life of the gateway: if a post succeeds, then after any number of further steps, restarts
  and channel purges included, a post of the same device succeeds only with a larger
  sequence number. In particular no event is ever accepted twice.
\<close>

lemma accepted_sequences_increase:
  assumes first: "post c uc cf now ch req g = (g1, Inr resp)" and later: "gateway_steps c wa uc cf g1 g2"
    and second: "post c uc cf now' ch' req' g2 = (g3, Inr resp')"
    and events: "posted_event req = Inr event" "posted_event req' = Inr event'"
    and same: "ev_authorIdentityId event' = ev_authorIdentityId event" "ev_authorDeviceId event' = ev_authorDeviceId event"
  shows "ev_sequence event < ev_sequence event'"
proof -
  obtain session cert body row where a: "posted_event req = Inr event" "event_ok c uc cf now ch session cert event body"
    "snd (insertMessage (event_row ch session event body now) (ev_sequence event) (gw_store (expireChannel cf now ch g))) = Inserted row"
    "gw_store g1 = fst (insertMessage (event_row ch session event body now) (ev_sequence event)
        (gw_store (expireChannel cf now ch g)))"
    using post_Inr [OF first] checkEvent_Inr acceptEvent_Inr events(1) by (metis Inr_inject)
  obtain session' cert' body' row' where b: "event_ok c uc cf now' ch' session' cert' event' body'"
    "snd (insertMessage (event_row ch' session' event' body' now') (ev_sequence event')
        (gw_store (expireChannel cf now' ch' g2))) = Inserted row'"
    using post_Inr [OF second] checkEvent_Inr acceptEvent_Inr events(2) by (metis Inr_inject)
  let ?key = "sequenceKey (toHex (ev_authorIdentityId event)) (toHex (ev_authorDeviceId event))"
  have key: "sequenceKey (sm_identity (event_row ch session event body now)) (sm_device (event_row ch session event body now)) = ?key"
    "sequenceKey (sm_identity (event_row ch' session' event' body' now')) (sm_device (event_row ch' session' event' body' now')) = ?key"
    using a(2) b(1) same by (simp_all add: event_row_def event_ok_def)
  have "ev_sequence event = lastSequence ?key (gw_store g1)"
    unfolding a(4) using a(3) key(1) by (simp add: lastSequence_insert)
  also have "\<dots> \<le> lastSequence ?key (gw_store g2)"
    using gateway_steps_evolve [OF later] store_steps_sequences by (simp add: evolves_def)
  also have "\<dots> = lastSequence ?key (gw_store (expireChannel cf now' ch' g2))"
    by (simp add: expireChannel_def purgeChannel_def lastSequence_def split: option.split)
  also have "\<dots> < ev_sequence event'"
    using insert_ok_iff [of "event_row ch' session' event' body' now'" "ev_sequence event'"
        "gw_store (expireChannel cf now' ch' g2)"] b(2) key(2) by metis
  finally show ?thesis .
qed

lemma accepted_sequences_increase_witness:
  "ev_sequence (demo_event 1 ''hi'') < ev_sequence (demo_event 2 ''ho'')
   \<and> (\<exists>g' resp. post sample_crypto demo_unicode demo_config demo_now Updates (demo_post 2 ''ho'')
        (new_gateway (gw_chain demo_posted) (gw_store demo_posted)) = (g', Inr resp))"
proof -
  let ?g = "new_gateway (gw_chain demo_posted) (gw_store demo_posted)"
  have "gateway_steps sample_crypto demo_webauthn demo_unicode demo_config demo_posted ?g"
    by (rule r_into_rtranclp) (rule gateway_step.restart)
  moreover have "posted_event (demo_post n body) = Inr (demo_event n body)" if "1 \<le> n" "n \<le> 1000" "length body < 128" for n body
    using demo_event_parsed [OF that] by (simp add: posted_event_def demo_post_def)
  moreover obtain g3 resp where "post sample_crypto demo_unicode demo_config demo_now Updates (demo_post 2 ''ho'') ?g = (g3, Inr resp)"
    using demo_posts [of ?g 2 "''ho''"] demo_posted_fields demo_plain by (auto simp: new_gateway_def)
  ultimately show ?thesis
    using demo_first_post accepted_sequences_increase [of sample_crypto demo_unicode demo_config demo_now Updates
      "demo_post 1 ''hi''" demo_gateway demo_posted _ demo_webauthn ?g demo_now Updates "demo_post 2 ''ho''"]
    by (auto simp del: demo_event_fields(6))
qed

text \<open>
  C30. Only the owner writes to the updates channel, and only acceptable text is ever stored:
  in every state reachable from the start, each stored message satisfies the text rules, and
  each message of the updates channel is by the configured owner (so there are none when no
  owner is configured).
\<close>

theorem updates_only_by_owner:
  assumes "gateway_steps c wa uc cf gateway_start g" and "(m, n) \<in> set (db_messages (gw_store g))"
  shows "validateBody uc (code_units_of (sm_body m)) = None
    \<and> (sm_channel m = channel_name Updates \<longrightarrow> cf_ownerIdentity cf = Some (sm_identity m))"
proof -
  have "rows_ok uc cf (gw_store gateway_start)"
    by (simp add: rows_ok_def new_gateway_def empty_store_def)
  then show ?thesis
    using steps_rows_ok [OF assms(1)] assms(2) by (auto simp: rows_ok_def)
qed

theorem updates_only_by_owner_witness:
  "\<exists>m. (m, 1) \<in> set (db_messages (gw_store (fst (acceptEvent demo_config demo_now Updates demo_session (demo_event 1 ''hi'') ''hi'' gateway_start))))
     \<and> cf_ownerIdentity demo_config = Some (sm_identity m)"
proof -
  let ?g = "fst (acceptEvent demo_config demo_now Updates demo_session (demo_event 1 ''hi'') ''hi'' gateway_start)"
  have "gateway_step sample_crypto demo_webauthn demo_unicode demo_config gateway_start ?g"
    by (rule gateway_step.post_tail) (rule demo_event_checked, simp_all add: demo_plain)
  then have s: "gateway_steps sample_crypto demo_webauthn demo_unicode demo_config gateway_start ?g" by (rule r_into_rtranclp)
  have "\<exists>m. (m, 1) \<in> set (db_messages (gw_store ?g)) \<and> sm_channel m = channel_name Updates"
    by (simp add: acceptEvent_def gbind_def gget_def gensure_def glift_def ensure_def gupd_def gret_def allowPost_def
      allowText_def Let_def sw_allow_def dg_allow_def jm_get_or_def jm_size_def jm_set_def SPAM_DUPLICATE_THRESHOLD_def
      expireChannel_def storeMessage_def insertMessage_def demo_session_def publicMessage_def split_beta
      new_gateway_def empty_store_def hasEvent_def lastSequence_def broadcast_def)
  then show ?thesis using updates_only_by_owner [OF s] by blast
qed

section \<open>Sockets\<close>

text \<open>
  Ending a session closes its sockets: after \<open>endSession\<close> no stored session has that
  token, no socket is bound to it, every socket that was bound to it is closed, and neither
  a broadcast nor any other frame reaches a closed socket.
\<close>

lemma ended_session_is_cut_off:
  "(\<forall>s \<in> set (db_sessions (gw_store (endSession h g))). ss_tokenHash s \<noteq> h)
   \<and> (\<forall>ws \<in> set (gw_sockets (endSession h g)). ws_tokenHash ws \<noteq> Some h)
   \<and> (\<forall>ws \<in> set (gw_sockets g). ws_tokenHash ws = Some h \<longrightarrow>
        (\<exists>ws' \<in> set (gw_sockets (endSession h g)). ws_id ws' = ws_id ws \<and> ws_closed ws' \<and> sendSocket ws' payload = []))
   \<and> (\<forall>(wid, f) \<in> set (gw_sent (broadcast ch message g)) - set (gw_sent g).
        \<exists>ws \<in> set (gw_sockets g). ws_id ws = wid \<and> \<not> ws_closed ws \<and> ws_ready ws \<and> ch \<in> set (ws_channels ws))"
proof -
  have "socket_ended h ws \<in> set (gw_sockets (endSession h g))" if "ws \<in> set (gw_sockets g)" for ws
    using that by (simp add: endSession_def)
  moreover have "ws_tokenHash ws = Some h \<Longrightarrow> ws_id (socket_ended h ws) = ws_id ws \<and> ws_closed (socket_ended h ws)" for ws
    by (simp add: socket_ended_def)
  moreover have "\<forall>ws \<in> set (gw_sockets (endSession h g)). ws_tokenHash ws \<noteq> Some h"
    by (auto simp: endSession_def socket_ended_def)
  moreover have "\<forall>s \<in> set (db_sessions (gw_store (endSession h g))). ss_tokenHash s \<noteq> h"
    by (auto simp: endSession_def deleteSession_def)
  moreover have "\<forall>(wid, f) \<in> set (gw_sent (broadcast ch message g)) - set (gw_sent g).
        \<exists>ws \<in> set (gw_sockets g). ws_id ws = wid \<and> \<not> ws_closed ws \<and> ws_ready ws \<and> ch \<in> set (ws_channels ws)"
    by (auto simp: broadcast_def sendSocket_def split: if_splits)
  ultimately show ?thesis unfolding sendSocket_def by (metis (no_types, lifting))
qed

lemma ended_session_is_cut_off_witness:
  "db_sessions (gw_store (endSession (hashToken sample_crypto demo_token) demo_gateway)) = []"
proof -
  have "\<forall>s \<in> set (db_sessions (gw_store (endSession (hashToken sample_crypto demo_token) demo_gateway))).
      ss_tokenHash s \<noteq> hashToken sample_crypto demo_token"
    using ended_session_is_cut_off [where g = demo_gateway and h = "hashToken sample_crypto demo_token"] by blast
  moreover have "set (db_sessions (gw_store (endSession h demo_gateway))) \<subseteq> {demo_session}" for h
    by (simp add: endSession_def deleteSession_def)
  moreover have "ss_tokenHash demo_session = hashToken sample_crypto demo_token" by (simp add: demo_session_def)
  ultimately show ?thesis by (metis last_in_set singletonD subsetD)
qed

section \<open>Clock skew at sign-in\<close>

text \<open>
  The skew the gateway allows at sign-in does not survive the first request. A certificate
  issued up to five minutes in the future passes \<open>checkCertificateWindow\<close>, but the chain
  resolves it only from its issue time on, so an earlier request with the new session's token
  is refused as revoked and the session is deleted.
\<close>

lemma future_certificate_session_dies:
  assumes "checkCertificateWindow cf cert now = Inr ()" and "now < dc_issuedAt cert"
    and "jm_get (ch_deviceCertificates (gw_chain g)) (deviceCertificateKey (dc_accountId cert) (dc_deviceId cert)) = Some cert"
    and "getSession (hashToken c token) (gw_store g) = Some s" and "now < ss_expiresAt s"
    and "ss_identity s = toHex (dc_accountId cert)" "ss_device s = toHex (dc_deviceId cert)"
    and "length (dc_accountId cert) = 32" "length (dc_deviceId cert) = 32"
  shows "authenticate c now token g = (endSession (hashToken c token) g, Inl (HttpError 403 ''revoked''))
    \<and> getSession (hashToken c token) (gw_store (endSession (hashToken c token) g)) = None"
proof -
  have "resolveDeviceCertificate now (dc_accountId cert) (dc_deviceId cert) (gw_chain g) = None"
    using assms(2,3) by (simp add: resolveDeviceCertificate_def)
  then have "authenticate c now token g = (endSession (hashToken c token) g, Inl (HttpError 403 ''revoked''))"
    using assms(4-) by (simp add: authenticate_def Let_def gbind_def gget_def gsome_def glift_def gupd_def)
  moreover have "getSession (hashToken c token) (gw_store (endSession (hashToken c token) g)) = None"
    by (simp add: getSession_def endSession_def deleteSession_def find_None_iff)
  ultimately show ?thesis by blast
qed

lemma future_certificate_session_dies_witness:
  "authenticate sample_crypto (8 * DAY_MS - 60000) demo_token demo_gateway
     = (endSession (hashToken sample_crypto demo_token) demo_gateway, Inl (HttpError 403 ''revoked''))"
proof -
  have "jm_get (ch_deviceCertificates demo_enrolled) (deviceCertificateKey demo_identity demo_device) = Some demo_certificate"
    unfolding demo_enrolled_def demo_enroll by (simp add: storeDevice_def Let_def jm_get_set)
  then have "authenticate sample_crypto (8 * DAY_MS - 60000) demo_token demo_gateway
     = (endSession (hashToken sample_crypto demo_token) demo_gateway, Inl (HttpError 403 ''revoked'')) \<and>
     getSession (hashToken sample_crypto demo_token) (gw_store (endSession (hashToken sample_crypto demo_token) demo_gateway)) = None"
    by (intro future_certificate_session_dies [where cf = demo_config and cert = demo_certificate and s = demo_session])
      (simp_all add: checkCertificateWindow_def demo_capabilities demo_config_def DAY_MS_def CERT_SKEW_MS_def
        getSession_def demo_session_def)
  then show ?thesis by simp
qed

end
