(* ===== verification/Rooms.thy ===== *)
theory Rooms
  imports Protocol
begin

text \<open>
  Public chat rooms and their client-side moderation (\<open>packages/client/src/rooms.ts\<close>): room
  ids, the cooldown, the automatic spam filter, vote-kicks and bans, sending and receiving. The
  module's \<open>modState\<close> is the state; an operation reads the clock once. Reasons are values
  instead of texts. \<open>joinRoom\<close> and \<open>leaveRoom\<close> only (un)subscribe the client and are
  not modelled.
\<close>

section \<open>State\<close>

definition DEFAULT_RATE_LIMIT :: nat where "DEFAULT_RATE_LIMIT = 5"
definition ROOM_WINDOW_MS :: int where "ROOM_WINDOW_MS = 60000"
definition VOTEKICK_WINDOW_MS :: int where "VOTEKICK_WINDOW_MS = 5 * 60000"
definition SPAM_BAN_MS :: int where "SPAM_BAN_MS = 30 * 601000"
definition ROOM_DUPLICATE_THRESHOLD :: nat where "ROOM_DUPLICATE_THRESHOLD = 3"

definition deriveRoomId :: "crypto \<Rightarrow> string \<Rightarrow> bytes" where
  "deriveRoomId c roomName = deriveId c DOMAIN_ROOM_ID (utf8 (js_lower (js_trim roomName)))"

record user_rate_state =
  ur_timestamps :: "int list"
  ur_recentTexts :: "string list"

text \<open>A \<open>Set\<close> of voters, in insertion order.\<close>

record votekick =
  vk_target :: string
  vk_votes :: "string list"
  vk_startedAt :: int
  vk_startedBy :: string

record room_moderation =
  rm_rateLimit :: nat
  rm_userStates :: "(string, user_rate_state) jmap"
  rm_bans :: "(string, int) jmap"
  rm_votekicks :: "(string, votekick) jmap"

type_synonym mod_state = "(string, room_moderation) jmap"

definition new_mod :: "nat \<Rightarrow> room_moderation" where
  "new_mod rateLimit = \<lparr>rm_rateLimit = rateLimit, rm_userStates = [], rm_bans = [], rm_votekicks = []\<rparr>"

definition getMod :: "string \<Rightarrow> mod_state \<Rightarrow> mod_state \<times> room_moderation" where
  "getMod roomIdHex ms =
     (case jm_get ms roomIdHex of
        None \<Rightarrow> (jm_set roomIdHex (new_mod DEFAULT_RATE_LIMIT) ms, new_mod DEFAULT_RATE_LIMIT)
      | Some md \<Rightarrow> (ms, md))"

datatype room_reason = Banned int | Cooldown int | DuplicateSpam | ExcessiveCaps | MessageTooLong | TemporarilyBanned

section \<open>Cooldown and spam filter\<close>

text \<open>\<open>Math.ceil(ms / 1000)\<close>.\<close>

definition ceil_secs :: "int \<Rightarrow> int" where
  "ceil_secs ms = - ((- ms) div 1000)"

definition user_state :: "room_moderation \<Rightarrow> string \<Rightarrow> user_rate_state" where
  "user_state md userHex = (case jm_get (rm_userStates md) userHex of
     None \<Rightarrow> \<lparr>ur_timestamps = [], ur_recentTexts = []\<rparr> | Some s \<Rightarrow> s)"

text \<open>
  A ban time of 0 counts as absent. The pruned list of timestamps is written into the user's state
  object; for a user without one it is dropped with the fresh object.
\<close>

definition checkCooldown :: "int \<Rightarrow> string \<Rightarrow> room_moderation \<Rightarrow> room_moderation \<times> room_reason option" where
  "checkCooldown now userHex md =
     (let banUntil = (case jm_get (rm_bans md) userHex of None \<Rightarrow> 0 | Some b \<Rightarrow> b) in
      if banUntil \<noteq> 0 \<and> now < banUntil then (md, Some (Banned (ceil_secs (banUntil - now))))
      else
        let md1 = (if banUntil \<noteq> 0 \<and> now \<ge> banUntil then md\<lparr>rm_bans := jm_del userHex (rm_bans md)\<rparr> else md);
            state = user_state md1 userHex;
            timestamps = filter (\<lambda>t. t > now - ROOM_WINDOW_MS) (ur_timestamps state);
            md2 = (if jm_has (rm_userStates md1) userHex
                   then md1\<lparr>rm_userStates := jm_set userHex (state\<lparr>ur_timestamps := timestamps\<rparr>) (rm_userStates md1)\<rparr>
                   else md1) in
        if length timestamps \<ge> rm_rateLimit md2
        then (md2, Some (Cooldown (ceil_secs ((if timestamps = [] then 0 else hd timestamps) + ROOM_WINDOW_MS - now))))
        else (md2, None))"

text \<open>\<open>slice(-10)\<close>.\<close>

definition last_ten :: "'a list \<Rightarrow> 'a list" where
  "last_ten xs = drop (length xs - 10) xs"

definition recordMessage :: "int \<Rightarrow> string \<Rightarrow> string \<Rightarrow> room_moderation \<Rightarrow> room_moderation" where
  "recordMessage now userHex text md =
     (let state = user_state md userHex;
          texts = ur_recentTexts state @ [text];
          state1 = state\<lparr>ur_timestamps := ur_timestamps state @ [now],
            ur_recentTexts := (if length texts > 10 then last_ten texts else texts)\<rparr> in
      md\<lparr>rm_userStates := jm_set userHex state1 (rm_userStates md)\<rparr>)"

text \<open>
  \<open>capsCount / text.length > 0.8\<close>, as an exact comparison: the quotient of two integers of
  at most 53 bits is on the same side of 0.8 as its rounding.
\<close>

definition is_upper :: "char \<Rightarrow> bool" where
  "is_upper ch = (65 \<le> (of_char ch :: nat) \<and> (of_char ch :: nat) \<le> 90)"

definition automodCheck :: "int \<Rightarrow> string \<Rightarrow> string \<Rightarrow> room_moderation \<Rightarrow> room_moderation \<times> room_reason option" where
  "automodCheck now userHex text md =
     (case jm_get (rm_userStates md) userHex of
        None \<Rightarrow> (md, None)
      | Some state \<Rightarrow>
          if length (filter (\<lambda>t. t = text) (ur_recentTexts state)) \<ge> ROOM_DUPLICATE_THRESHOLD
          then (md\<lparr>rm_bans := jm_set userHex (now + SPAM_BAN_MS) (rm_bans md)\<rparr>, Some DuplicateSpam)
          else if length text > 20 \<and> 5 * length (filter is_upper text) > 4 * length text then (md, Some ExcessiveCaps)
          else if length text > 4000 then (md, Some MessageTooLong)
          else (md, None))"

section \<open>Vote-kicks\<close>

datatype vote_result = VoteStarted | SelfVote | AlreadyInProgress | NoActiveVotekick | Kicked nat | VoteRecorded nat

definition startVotekick :: "int \<Rightarrow> string \<Rightarrow> string \<Rightarrow> string \<Rightarrow> mod_state \<Rightarrow> mod_state \<times> vote_result" where
  "startVotekick now roomIdHex targetHex initiatorHex ms =
     (let (ms1, md) = getMod roomIdHex ms in
      if targetHex = initiatorHex then (ms1, SelfVote)
      else if (case jm_get (rm_votekicks md) targetHex of
                 None \<Rightarrow> False | Some existing \<Rightarrow> now - vk_startedAt existing < VOTEKICK_WINDOW_MS)
      then (ms1, AlreadyInProgress)
      else
        let vk = \<lparr>vk_target = targetHex, vk_votes = [initiatorHex], vk_startedAt = now, vk_startedBy = initiatorHex\<rparr> in
        (jm_set roomIdHex (md\<lparr>rm_votekicks := jm_set targetHex vk (rm_votekicks md)\<rparr>) ms1, VoteStarted))"

definition voteKick :: "int \<Rightarrow> string \<Rightarrow> string \<Rightarrow> string \<Rightarrow> mod_state \<Rightarrow> mod_state \<times> vote_result" where
  "voteKick now roomIdHex targetHex voterHex ms =
     (let (ms1, md) = getMod roomIdHex ms in
      case jm_get (rm_votekicks md) targetHex of
        None \<Rightarrow> (ms1, NoActiveVotekick)
      | Some vk \<Rightarrow>
          if now - vk_startedAt vk \<ge> VOTEKICK_WINDOW_MS then (ms1, NoActiveVotekick)
          else
            let votes = (if voterHex \<in> set (vk_votes vk) then vk_votes vk else vk_votes vk @ [voterHex]);
                voteCount = length votes in
            if voteCount \<ge> 3 then
              (jm_set roomIdHex (md\<lparr>rm_bans := jm_set targetHex (now + SPAM_BAN_MS) (rm_bans md),
                 rm_votekicks := jm_del targetHex (rm_votekicks md)\<rparr>) ms1, Kicked voteCount)
            else
              (jm_set roomIdHex (md\<lparr>rm_votekicks := jm_set targetHex (vk\<lparr>vk_votes := votes\<rparr>) (rm_votekicks md)\<rparr>) ms1,
               VoteRecorded voteCount))"

definition isBanned :: "int \<Rightarrow> string \<Rightarrow> string \<Rightarrow> mod_state \<Rightarrow> bool" where
  "isBanned now roomIdHex userHex ms =
     (case jm_get ms roomIdHex of
        None \<Rightarrow> False
      | Some md \<Rightarrow> (case jm_get (rm_bans md) userHex of None \<Rightarrow> False | Some banUntil \<Rightarrow> now < banUntil))"

section \<open>Messages\<close>

record room_client =
  rc_identityId :: bytes
  rc_deviceId :: bytes
  rc_signingSecretKey :: bytes

definition roomEvent :: "crypto \<Rightarrow> room_client \<Rightarrow> int \<Rightarrow> string \<Rightarrow> nexnet_event" where
  "roomEvent c client now text = \<lparr>ev_protocolVersion = PROTOCOL_VERSION, ev_eventType = ''room.message'', ev_eventId = [],
     ev_authorIdentityId = rc_identityId client, ev_authorDeviceId = rc_deviceId client, ev_createdAt = now,
     ev_sequence = now, ev_parentIds = [], ev_payload = cdeEncode c (JObj [(''text'', JStr text)]), ev_signature = []\<rparr>"

text \<open>A frame of the relay, as the code casts it.\<close>

record room_frame =
  rf_room_id :: "string option"
  rf_event :: "int list option"
  rf_signature :: "int list option"

definition sendRoomMessage ::
  "crypto \<Rightarrow> int \<Rightarrow> room_client \<Rightarrow> bytes \<Rightarrow> string \<Rightarrow> mod_state \<Rightarrow> mod_state \<times> (room_reason + room_frame)" where
  "sendRoomMessage c now client roomId text ms =
     (let roomIdHex = toHex roomId; userHex = toHex (rc_identityId client) in
      if isBanned now roomIdHex userHex ms then (ms, Inl TemporarilyBanned)
      else
        let (ms1, md) = getMod roomIdHex ms in
        case checkCooldown now userHex md of
          (md1, Some reason) \<Rightarrow> (jm_set roomIdHex md1 ms1, Inl reason)
        | (md1, None) \<Rightarrow>
            (case automodCheck now userHex text md1 of
               (md2, Some reason) \<Rightarrow> (jm_set roomIdHex md2 ms1, Inl reason)
             | (md2, None) \<Rightarrow>
                 let md3 = recordMessage now userHex text md2;
                     eventCde = cdeEncode c (toIdPreimage (roomEvent c client now text));
                     signature = ed_sign c (rc_signingSecretKey client) eventCde in
                 (jm_set roomIdHex md3 ms1, Inr \<lparr>rf_room_id = Some roomIdHex, rf_event = Some (map uint eventCde),
                    rf_signature = Some (map uint signature)\<rparr>)))"

text \<open>The handler of \<open>onRoomMessage\<close>: the decoded event handed to the callback, if it is.\<close>

definition onRoomMessage ::
  "crypto \<Rightarrow> bytes \<Rightarrow> (bytes \<Rightarrow> bytes option) option \<Rightarrow> room_frame \<Rightarrow> jval option" where
  "onRoomMessage c roomId getSenderPublicKey msg =
     (if rf_room_id msg \<noteq> Some (toHex roomId) then None
      else
        (case (rf_event msg, rf_signature msg) of
           (Some evs, Some sig) \<Rightarrow>
             (let bytes = map word_of_int evs in
              case cdeDecode c bytes of
                Some (JObj fs) \<Rightarrow>
                  (case (jfield fs ''authorIdentityId'', getSenderPublicKey) of
                     (Some (JBytes author), Some lookup) \<Rightarrow>
                       (if jfield fs ''eventType'' \<noteq> Some (JStr ''room.message'') then None
                        else
                          (case lookup author of
                             None \<Rightarrow> None
                           | Some pk \<Rightarrow>
                               (if ed_verify c pk bytes (map word_of_int sig) = Some True then Some (JObj fs) else None)))
                   | _ \<Rightarrow> None)
              | _ \<Rightarrow> None)
         | _ \<Rightarrow> None))"

end
