(* ===== verification/Room_Properties.thy ===== *)
theory Room_Properties
  imports Rooms
begin

text \<open>
  What the moderation of rooms guarantees over any sequence of operations with a clock that does not
  go back: the rate limit holds in every window, and a ban silences the user until it expires.
\<close>

section \<open>Sequences of operations\<close>

datatype room_op =
    OpSend room_client bytes string
  | OpStart string string string
  | OpVote string string string

text \<open>A message that was sent: the room, the user and the time.\<close>

fun room_step :: "crypto \<Rightarrow> int \<Rightarrow> room_op \<Rightarrow> mod_state \<Rightarrow> mod_state \<times> (string \<times> string \<times> int) list" where
  "room_step c now (OpSend client roomId text) ms =
     (case sendRoomMessage c now client roomId text ms of
        (ms1, Inl _) \<Rightarrow> (ms1, []) | (ms1, Inr _) \<Rightarrow> (ms1, [(toHex roomId, toHex (rc_identityId client), now)]))"
| "room_step c now (OpStart room target initiator) ms = (fst (startVotekick now room target initiator ms), [])"
| "room_step c now (OpVote room target voter) ms = (fst (voteKick now room target voter ms), [])"

fun room_run :: "crypto \<Rightarrow> (int \<times> room_op) list \<Rightarrow> mod_state \<Rightarrow> mod_state \<times> (string \<times> string \<times> int) list" where
  "room_run c [] ms = (ms, [])"
| "room_run c ((now, op) # ops) ms =
     (case room_step c now op ms of (ms1, out) \<Rightarrow> (case room_run c ops ms1 of (ms2, outs) \<Rightarrow> (ms2, out @ outs)))"

definition sent_times :: "(string \<times> string \<times> int) list \<Rightarrow> string \<Rightarrow> string \<Rightarrow> int list" where
  "sent_times log room user = map (\<lambda>(r, u, t). t) (filter (\<lambda>(r, u, t). r = room \<and> u = user) log)"

definition room_timestamps :: "mod_state \<Rightarrow> string \<Rightarrow> string \<Rightarrow> int list" where
  "room_timestamps ms room user = (case jm_get ms room of None \<Rightarrow> [] | Some md \<Rightarrow> ur_timestamps (user_state md user))"

definition limits_ok :: "mod_state \<Rightarrow> bool" where
  "limits_ok ms = (\<forall>room md. jm_get ms room = Some md \<longrightarrow> rm_rateLimit md = DEFAULT_RATE_LIMIT)"

abbreviation recent :: "int \<Rightarrow> int list \<Rightarrow> int list" where
  "recent now ts \<equiv> filter (\<lambda>t. t > now - ROOM_WINDOW_MS) ts"

lemma user_state_set: "user_state (md\<lparr>rm_userStates := jm_set u s (rm_userStates md)\<rparr>) u' = (if u' = u then s else user_state md u')"
  by (simp add: user_state_def jm_get_set)

lemma user_state_frame [simp]: "user_state (md\<lparr>rm_bans := b\<rparr>) u = user_state md u" "user_state (md\<lparr>rm_votekicks := v\<rparr>) u = user_state md u"
  by (simp_all add: user_state_def)

lemma getMod_frame:
  assumes "getMod room ms = (ms1, md)" "limits_ok ms"
  shows "jm_get ms1 room = Some md" "rm_rateLimit md = DEFAULT_RATE_LIMIT" "limits_ok ms1"
    "\<And>r u. room_timestamps ms1 r u = room_timestamps ms r u"
    "\<And>r. r \<noteq> room \<Longrightarrow> jm_get ms1 r = jm_get ms r"
  using assms
  by (auto simp: getMod_def limits_ok_def room_timestamps_def new_mod_def user_state_def jm_get_set split: option.splits if_splits)

lemma timestamps_set:
  "room_timestamps (jm_set room md ms) r u = (if r = room then ur_timestamps (user_state md u) else room_timestamps ms r u)"
  by (simp add: room_timestamps_def jm_get_set)

lemma limits_ok_set: "limits_ok ms \<Longrightarrow> rm_rateLimit md = DEFAULT_RATE_LIMIT \<Longrightarrow> limits_ok (jm_set room md ms)"
  by (simp add: limits_ok_def jm_get_set)

lemma checkCooldown_frame:
  assumes "checkCooldown now u md = (md1, r)"
  shows "rm_rateLimit md1 = rm_rateLimit md"
    "recent now (ur_timestamps (user_state md1 u')) = recent now (ur_timestamps (user_state md u'))"
    "r = None \<Longrightarrow> length (recent now (ur_timestamps (user_state md u))) < rm_rateLimit md"
    "r = None \<Longrightarrow> ur_timestamps (user_state md1 u) = recent now (ur_timestamps (user_state md u))"
  using assms
  by (auto simp: checkCooldown_def Let_def user_state_set user_state_def jm_get_set jm_has_get split: if_splits option.splits)

lemma automod_frame:
  assumes "automodCheck now u text md = (md1, r)"
  shows "rm_rateLimit md1 = rm_rateLimit md" "user_state md1 u' = user_state md u'"
  using assms by (auto simp: automodCheck_def split: if_splits option.splits)

lemma record_frame:
  "rm_rateLimit (recordMessage now u text md) = rm_rateLimit md"
  "ur_timestamps (user_state (recordMessage now u text md) u')
     = (if u' = u then ur_timestamps (user_state md u) @ [now] else ur_timestamps (user_state md u'))"
  by (simp_all add: recordMessage_def Let_def user_state_set)

text \<open>The effect of a send on the recorded times, on every branch.\<close>

lemma send_timestamps:
  assumes "sendRoomMessage c now client roomId text ms = (ms', r)" "limits_ok ms"
  shows "limits_ok ms'" "recent now (room_timestamps ms' rm u) = recent now (room_timestamps ms rm u)
      @ (if \<not> isl r \<and> rm = toHex roomId \<and> u = toHex (rc_identityId client) then [now] else [])"
    "\<not> isl r \<Longrightarrow> length (recent now (room_timestamps ms (toHex roomId) (toHex (rc_identityId client)))) < DEFAULT_RATE_LIMIT"
proof -
  let ?room = "toHex roomId" and ?user = "toHex (rc_identityId client)"
  obtain ms1 md where g: "getMod ?room ms = (ms1, md)" by (cases "getMod ?room ms")
  note gm = getMod_frame [OF g assms(2)]
  obtain md1 r1 where c1: "checkCooldown now ?user md = (md1, r1)" by (cases "checkCooldown now ?user md")
  obtain md2 r2 where c2: "automodCheck now ?user text md1 = (md2, r2)" by (cases "automodCheck now ?user text md1")
  note cd = checkCooldown_frame [OF c1] and am = automod_frame [OF c2]
  have ts: "room_timestamps ms ?room u = ur_timestamps (user_state md u)" for u
    using gm(1,4) by (metis option.simps(5) room_timestamps_def)
  consider (banned) "isBanned now ?room ?user ms" "ms' = ms" "isl r"
    | (cooldown) "ms' = jm_set ?room md1 ms1" "isl r"
    | (blocked) "ms' = jm_set ?room md2 ms1" "isl r"
    | (sent) "r1 = None" "r2 = None" "ms' = jm_set ?room (recordMessage now ?user text md2) ms1" "\<not> isl r"
    using assms(1) g c1 c2 by (auto simp: sendRoomMessage_def Let_def split: if_splits option.splits)
  then have "limits_ok ms' \<and> recent now (room_timestamps ms' rm u) = recent now (room_timestamps ms rm u)
      @ (if \<not> isl r \<and> rm = ?room \<and> u = ?user then [now] else [])
    \<and> (\<not> isl r \<longrightarrow> length (recent now (room_timestamps ms ?room ?user)) < DEFAULT_RATE_LIMIT)"
  proof cases
    case banned
    then show ?thesis using assms(2) by simp
  next
    case cooldown
    then show ?thesis using gm cd(1) cd(2) [of u] ts by (auto simp: timestamps_set limits_ok_set)
  next
    case blocked
    then show ?thesis using gm cd(1) cd(2) [of u] am ts by (auto simp: timestamps_set limits_ok_set)
  next
    case sent
    have "0 < ROOM_WINDOW_MS" by (simp add: ROOM_WINDOW_MS_def)
    then show ?thesis
      using sent gm cd(1) cd(2) [of u] cd(3) am ts by (auto simp: timestamps_set limits_ok_set record_frame)
  qed
  then show "limits_ok ms'" "recent now (room_timestamps ms' rm u) = recent now (room_timestamps ms rm u)
      @ (if \<not> isl r \<and> rm = toHex roomId \<and> u = toHex (rc_identityId client) then [now] else [])"
    "\<not> isl r \<Longrightarrow> length (recent now (room_timestamps ms (toHex roomId) (toHex (rc_identityId client)))) < DEFAULT_RATE_LIMIT"
    by blast+
qed

lemma vote_timestamps:
  assumes "limits_ok ms"
  shows "limits_ok (fst (startVotekick now room t i ms))" "room_timestamps (fst (startVotekick now room t i ms)) r u = room_timestamps ms r u"
    "limits_ok (fst (voteKick now room t i ms))" "room_timestamps (fst (voteKick now room t i ms)) r u = room_timestamps ms r u"
proof -
  obtain ms1 md where g: "getMod room ms = (ms1, md)" by (cases "getMod room ms")
  note gm = getMod_frame [OF g assms]
  have ts: "room_timestamps ms room u = ur_timestamps (user_state md u)" for u
    using gm(1,4) by (metis option.simps(5) room_timestamps_def)
  show "limits_ok (fst (startVotekick now room t i ms))" "room_timestamps (fst (startVotekick now room t i ms)) r u = room_timestamps ms r u"
    using gm ts by (auto simp: startVotekick_def g Let_def limits_ok_set timestamps_set)
  show "limits_ok (fst (voteKick now room t i ms))" "room_timestamps (fst (voteKick now room t i ms)) r u = room_timestamps ms r u"
    using gm ts by (auto simp: voteKick_def g Let_def limits_ok_set timestamps_set user_state_def split: option.split)
qed

section \<open>The rate limit\<close>

definition in_window :: "int \<Rightarrow> int list \<Rightarrow> int list" where
  "in_window t ts = filter (\<lambda>s. t - ROOM_WINDOW_MS < s \<and> s \<le> t) ts"

definition rate_inv :: "int \<Rightarrow> mod_state \<Rightarrow> (string \<times> string \<times> int) list \<Rightarrow> bool" where
  "rate_inv now ms log \<longleftrightarrow> limits_ok ms \<and> (\<forall>room user.
     recent now (sent_times log room user) = recent now (room_timestamps ms room user)
     \<and> (\<forall>t. length (in_window t (sent_times log room user)) \<le> DEFAULT_RATE_LIMIT)
     \<and> (\<forall>t \<in> set (sent_times log room user). t \<le> now))"

lemma recent_later: "now \<le> now' \<Longrightarrow> recent now' ts = recent now' (recent now ts)"
  by (induction ts) auto

lemma rate_inv_later: "rate_inv now ms log \<Longrightarrow> now \<le> now' \<Longrightarrow> rate_inv now' ms log"
  unfolding rate_inv_def by (metis order_trans recent_later)

lemma sent_times_append: "sent_times (log @ log') room user = sent_times log room user @ sent_times log' room user"
  by (simp add: sent_times_def)

lemma window_append:
  assumes "length (in_window t ts) \<le> n" "length (recent now ts) < n" "\<forall>s \<in> set ts. s \<le> now"
  shows "length (in_window t (ts @ [now])) \<le> n"
proof (cases "now \<le> t")
  case True
  have "length (in_window t ts) \<le> length (recent now ts)"
    unfolding in_window_def using True by (induction ts) auto
  then show ?thesis using assms(2) by (simp add: in_window_def)
qed (use assms(1) in \<open>simp add: in_window_def\<close>)

lemma room_step_inv:
  assumes "rate_inv now ms log" "room_step c now op ms = (ms', out)"
  shows "rate_inv now ms' (log @ out)"
proof (cases op)
  case (OpSend client roomId msg)
  obtain r where s: "sendRoomMessage c now client roomId msg ms = (ms', r)"
    and out: "out = (if isl r then [] else [(toHex roomId, toHex (rc_identityId client), now)])"
    using assms(2) OpSend by (auto split: prod.splits sum.splits)
  have lim: "limits_ok ms" using assms(1) by (simp add: rate_inv_def)
  note st = send_timestamps [OF s lim]
  have w: "0 < ROOM_WINDOW_MS" by (simp add: ROOM_WINDOW_MS_def)
  have x: "sent_times (log @ out) room user = sent_times log room user
      @ (if \<not> isl r \<and> room = toHex roomId \<and> user = toHex (rc_identityId client) then [now] else [])" for room user
    unfolding sent_times_append out by (auto simp: sent_times_def)
  have len: "\<not> isl r \<Longrightarrow> length (recent now (sent_times log (toHex roomId) (toHex (rc_identityId client)))) < DEFAULT_RATE_LIMIT"
    using st(3) assms(1) by (simp add: rate_inv_def)
  show ?thesis
    unfolding rate_inv_def
  proof (intro conjI allI)
    show "limits_ok ms'" by (rule st(1))
    fix room user
    show "recent now (sent_times (log @ out) room user) = recent now (room_timestamps ms' room user)"
      using st(2) [of room user] assms(1) w by (auto simp: x rate_inv_def)
    show "length (in_window t (sent_times (log @ out) room user)) \<le> DEFAULT_RATE_LIMIT" for t
      using assms(1) len window_append [of t _ DEFAULT_RATE_LIMIT now] by (auto simp: x rate_inv_def)
    show "\<forall>t \<in> set (sent_times (log @ out) room user). t \<le> now" using assms(1) by (auto simp: x rate_inv_def)
  qed
next
  case (OpStart room t i)
  then show ?thesis using assms vote_timestamps by (auto simp: rate_inv_def)
next
  case (OpVote room t i)
  then show ?thesis using assms vote_timestamps by (auto simp: rate_inv_def)
qed

lemma room_run_inv:
  assumes "rate_inv now ms log" "sorted (now # map fst ops)"
  shows "\<exists>now'. rate_inv now' (fst (room_run c ops ms)) (log @ snd (room_run c ops ms))"
  using assms
proof (induction ops arbitrary: now ms log)
  case (Cons p ops)
  obtain t op where p: "p = (t, op)" by (cases p)
  obtain ms1 out where s: "room_step c t op ms = (ms1, out)" by (cases "room_step c t op ms")
  have "rate_inv t ms1 (log @ out)" using room_step_inv [OF rate_inv_later [OF Cons.prems(1)] s] Cons.prems(2) p by simp
  from Cons.IH [OF this] show ?case using Cons.prems(2) p s by (simp add: split_beta)
qed auto

text \<open>
  C39. The room rate limit: from an empty moderation state, whatever users send, start vote-kicks
  and vote in whatever rooms, no user gets more than five messages into a room in any window of one
  minute, wherever the window lies.
\<close>

theorem room_rate_limited:
  assumes "sorted (map fst ops)"
  shows "length (in_window t (sent_times (snd (room_run c ops [])) room user)) \<le> DEFAULT_RATE_LIMIT"
proof (cases ops)
  case Nil
  then show ?thesis by (simp add: sent_times_def in_window_def)
next
  case (Cons p rest)
  have "rate_inv (fst p) [] []" by (simp add: rate_inv_def limits_ok_def room_timestamps_def sent_times_def in_window_def)
  then have "\<exists>now'. rate_inv now' (fst (room_run c ops [])) ([] @ snd (room_run c ops []))"
    using room_run_inv [of "fst p" "[]" "[]" ops c] assms Cons by simp
  then show ?thesis by (auto simp: rate_inv_def)
qed

definition demo_room_client :: room_client where
  "demo_room_client = \<lparr>rc_identityId = [1], rc_deviceId = [2], rc_signingSecretKey = [3]\<rparr>"

theorem room_rate_limited_witness:
  "length (in_window 9 (sent_times (snd (room_run sample_crypto
     [(5, OpSend demo_room_client [7] ''a''), (6, OpSend demo_room_client [7] ''b'')] [])) (toHex [7]) (toHex [1]))) \<le> DEFAULT_RATE_LIMIT"
  by (rule room_rate_limited) simp

section \<open>Bans\<close>

definition banned_until :: "mod_state \<Rightarrow> string \<Rightarrow> string \<Rightarrow> int \<Rightarrow> bool" where
  "banned_until ms room user b \<longleftrightarrow> (\<exists>md x. jm_get ms room = Some md \<and> jm_get (rm_bans md) user = Some x \<and> b \<le> x)"

lemma banned_isBanned: "banned_until ms room user b \<Longrightarrow> now < b \<Longrightarrow> isBanned now room user ms"
  by (auto simp: banned_until_def isBanned_def)

lemma banned_getMod: "getMod r ms = (ms1, md) \<Longrightarrow> banned_until ms room user b \<Longrightarrow> banned_until ms1 room user b"
  by (auto simp: banned_until_def getMod_def jm_get_set split: option.splits)

lemma banned_set:
  assumes "banned_until ms room user b" "r = room \<Longrightarrow> \<exists>x. jm_get (rm_bans md) user = Some x \<and> b \<le> x"
  shows "banned_until (jm_set r md ms) room user b"
  using assms by (auto simp: banned_until_def jm_get_set)

lemma banned_md: "banned_until ms room user b \<Longrightarrow> jm_get ms room = Some md \<Longrightarrow> \<exists>x. jm_get (rm_bans md) user = Some x \<and> b \<le> x"
  by (auto simp: banned_until_def)

lemma checkCooldown_bans:
  assumes "checkCooldown now u md = (md1, r)" "jm_get (rm_bans md) user = Some x" "now < x"
  shows "jm_get (rm_bans md1) user = Some x"
  using assms by (auto simp: checkCooldown_def Let_def jm_get_del split: if_splits option.splits)

lemma automod_bans:
  assumes "automodCheck now u text md = (md1, r)" "jm_get (rm_bans md) user = Some x" "b \<le> x" "b \<le> now + SPAM_BAN_MS"
  shows "\<exists>y. jm_get (rm_bans md1) user = Some y \<and> b \<le> y"
  using assms by (auto simp: automodCheck_def jm_get_set split: if_splits option.splits)

lemma recordMessage_bans [simp]: "rm_bans (recordMessage now u text md) = rm_bans md"
  by (simp add: recordMessage_def Let_def)

text \<open>While a ban runs, no operation lifts or shortens it.\<close>

lemma send_keeps_ban:
  assumes "banned_until ms room user b" "now < b" "b \<le> now + SPAM_BAN_MS" "sendRoomMessage c now client roomId msg ms = (ms', r)"
  shows "banned_until ms' room user b"
proof -
  let ?room = "toHex roomId" and ?user = "toHex (rc_identityId client)"
  obtain ms1 md where g: "getMod ?room ms = (ms1, md)" by (cases "getMod ?room ms")
  obtain md1 r1 where c1: "checkCooldown now ?user md = (md1, r1)" by (cases "checkCooldown now ?user md")
  obtain md2 r2 where c2: "automodCheck now ?user msg md1 = (md2, r2)" by (cases "automodCheck now ?user msg md1")
  note b1 = banned_getMod [OF g assms(1)]
  have md: "jm_get ms1 ?room = Some md" using g by (auto simp: getMod_def jm_get_set split: option.splits)
  have keep1: "\<exists>x. jm_get (rm_bans md1) user = Some x \<and> b \<le> x" if "?room = room"
    using banned_md [OF b1] md that checkCooldown_bans [OF c1] assms(2) by fastforce
  then have keep2: "\<exists>x. jm_get (rm_bans md2) user = Some x \<and> b \<le> x" if "?room = room"
    using that automod_bans [OF c2 _ _ assms(3)] by blast
  have "ms' = ms \<or> ms' = jm_set ?room md1 ms1 \<or> ms' = jm_set ?room md2 ms1 \<or> ms' = jm_set ?room (recordMessage now ?user msg md2) ms1"
    using assms(4) g c1 c2 by (auto simp: sendRoomMessage_def Let_def split: if_splits option.splits)
  then show ?thesis using assms(1) banned_set [OF b1] keep1 keep2 by auto
qed

lemma vote_keeps_ban:
  assumes "banned_until ms room user b" "b \<le> now + SPAM_BAN_MS"
  shows "banned_until (fst (startVotekick now r t i ms)) room user b" "banned_until (fst (voteKick now r t i ms)) room user b"
proof -
  obtain ms1 md where g: "getMod r ms = (ms1, md)" by (cases "getMod r ms")
  note b1 = banned_getMod [OF g assms(1)]
  have "jm_get ms1 r = Some md" using g by (auto simp: getMod_def jm_get_set split: option.splits)
  then have keep: "r = room \<Longrightarrow> \<exists>x. jm_get (rm_bans md) user = Some x \<and> b \<le> x" using banned_md [OF b1] by simp
  then have keep': "r = room \<Longrightarrow> \<exists>x. jm_get (jm_set t (now + SPAM_BAN_MS) (rm_bans md)) user = Some x \<and> b \<le> x"
    using assms(2) by (simp add: jm_get_set)
  show "banned_until (fst (startVotekick now r t i ms)) room user b"
    using b1 banned_set [OF b1] keep by (auto simp: startVotekick_def g Let_def)
  show "banned_until (fst (voteKick now r t i ms)) room user b"
    using b1 banned_set [OF b1] keep keep' by (auto simp: voteKick_def g Let_def split: option.split)
qed

lemma ban_silences:
  assumes "banned_until ms room user b" "\<forall>(now, op) \<in> set ops. now < b \<and> b \<le> now + SPAM_BAN_MS"
  shows "sent_times (snd (room_run c ops ms)) room user = [] \<and> banned_until (fst (room_run c ops ms)) room user b"
  using assms
proof (induction ops arbitrary: ms)
  case (Cons p ops)
  obtain now op where p: "p = (now, op)" by (cases p)
  obtain ms1 out where s: "room_step c now op ms = (ms1, out)" by (cases "room_step c now op ms")
  have t: "now < b" "b \<le> now + SPAM_BAN_MS" using Cons.prems(2) p by auto
  have "banned_until ms1 room user b \<and> sent_times out room user = []"
  proof (cases op)
    case (OpSend client roomId msg)
    obtain r where r: "sendRoomMessage c now client roomId msg ms = (ms1, r)"
      "out = (if isl r then [] else [(toHex roomId, toHex (rc_identityId client), now)])"
      using s OpSend by (auto split: prod.splits sum.splits)
    have "isl r" if "toHex roomId = room" "toHex (rc_identityId client) = user"
      using r(1) banned_isBanned [OF Cons.prems(1) t(1)] that by (auto simp: sendRoomMessage_def Let_def)
    then show ?thesis using send_keeps_ban [OF Cons.prems(1) t r(1)] r(2) by (auto simp: sent_times_def)
  qed (use s Cons.prems(1) vote_keeps_ban [OF _ t(2)] in \<open>auto simp: sent_times_def\<close>)
  then show ?case using Cons.IH [of ms1] Cons.prems(2) p s by (simp add: sent_times_append split_beta)
qed (simp add: sent_times_def)

text \<open>
  The votes of a running vote-kick come from distinct voters, each of whom started it or voted in it
  in the history \<open>H\<close> (all before \<open>T\<close>), and are fewer than three.
\<close>

definition vote_ok :: "(int \<times> room_op) set \<Rightarrow> int \<Rightarrow> string \<Rightarrow> string \<Rightarrow> votekick \<Rightarrow> bool" where
  "vote_ok H T room target vk \<longleftrightarrow> distinct (vk_votes vk) \<and> vk_startedAt vk \<le> T
     \<and> (\<forall>v \<in> set (vk_votes vk). \<exists>\<tau> \<ge> vk_startedAt vk. (\<tau>, OpStart room target v) \<in> H \<or> (\<tau>, OpVote room target v) \<in> H)"

definition votes_ok :: "(int \<times> room_op) set \<Rightarrow> int \<Rightarrow> mod_state \<Rightarrow> bool" where
  "votes_ok H T ms = (\<forall>room md t vk. jm_get ms room = Some md \<longrightarrow> jm_get (rm_votekicks md) t = Some vk \<longrightarrow> vote_ok H T room t vk)"

lemma vote_ok_mono: "vote_ok H T room t vk \<Longrightarrow> H \<subseteq> H' \<Longrightarrow> T \<le> T' \<Longrightarrow> vote_ok H' T' room t vk"
  unfolding vote_ok_def by (meson order_trans subset_iff)

lemma votes_ok_mono: "votes_ok H T ms \<Longrightarrow> H \<subseteq> H' \<Longrightarrow> T \<le> T' \<Longrightarrow> votes_ok H' T' ms"
  unfolding votes_ok_def using vote_ok_mono by blast

lemma votes_ok_getMod: "votes_ok H T ms \<Longrightarrow> getMod room ms = (ms1, md) \<Longrightarrow> votes_ok H T ms1 \<and>
    (\<forall>t vk. jm_get (rm_votekicks md) t = Some vk \<longrightarrow> vote_ok H T room t vk)"
  by (auto simp: votes_ok_def getMod_def new_mod_def jm_get_set split: option.splits if_splits)

lemma votes_ok_set: "votes_ok H T ms \<Longrightarrow> (\<And>t vk. jm_get (rm_votekicks md) t = Some vk \<Longrightarrow> vote_ok H T room t vk)
    \<Longrightarrow> votes_ok H T (jm_set room md ms)"
  by (auto simp: votes_ok_def jm_get_set)

lemma frames_votekicks:
  "checkCooldown now u md = (md1, r) \<Longrightarrow> rm_votekicks md1 = rm_votekicks md"
  "automodCheck now u text md = (md1, r) \<Longrightarrow> rm_votekicks md1 = rm_votekicks md"
  "rm_votekicks (recordMessage now u text md) = rm_votekicks md"
  by (auto simp: checkCooldown_def automodCheck_def recordMessage_def Let_def split: if_splits option.splits)

lemma vote_added:
  assumes "vote_ok H T room t vk" "(T, OpVote room t v) \<in> H"
  shows "vote_ok H T room t (vk\<lparr>vk_votes := (if v \<in> set (vk_votes vk) then vk_votes vk else vk_votes vk @ [v])\<rparr>)"
  using assms by (auto simp: vote_ok_def)

lemma room_step_votes:
  assumes "votes_ok H T ms" "T \<le> now"
  shows "votes_ok (insert (now, op) H) now (fst (room_step c now op ms))"
proof -
  let ?H = "insert (now, op) H"
  have a: "votes_ok ?H now ms" by (rule votes_ok_mono [OF assms(1)]) (use assms(2) in auto)
  show ?thesis
  proof (cases op)
    case (OpSend client roomId msg)
    let ?room = "toHex roomId" and ?user = "toHex (rc_identityId client)"
    obtain ms1 md where g: "getMod ?room ms = (ms1, md)" by (cases "getMod ?room ms")
    obtain md1 r1 where c1: "checkCooldown now ?user md = (md1, r1)" by (cases "checkCooldown now ?user md")
    obtain md2 r2 where c2: "automodCheck now ?user msg md1 = (md2, r2)" by (cases "automodCheck now ?user msg md1")
    note v = votes_ok_getMod [OF a g]
    have "\<forall>x \<in> {md1, md2, recordMessage now ?user msg md2}. votes_ok ?H now (jm_set ?room x ms1)"
      using v frames_votekicks(1) [OF c1] frames_votekicks(2) [OF c2] frames_votekicks(3) by (auto intro!: votes_ok_set)
    then show ?thesis
      using OpSend a g c1 c2 by (auto simp: sendRoomMessage_def Let_def split: option.split)
  next
    case (OpStart r t i)
    obtain ms1 md where g: "getMod r ms = (ms1, md)" by (cases "getMod r ms")
    have "vote_ok ?H now r t \<lparr>vk_target = t, vk_votes = [i], vk_startedAt = now, vk_startedBy = i\<rparr>"
      using OpStart by (auto simp: vote_ok_def)
    then show ?thesis
      using OpStart votes_ok_getMod [OF a g] by (auto simp: startVotekick_def g Let_def jm_get_set intro!: votes_ok_set split: if_splits)
  next
    case (OpVote r t i)
    obtain ms1 md where g: "getMod r ms = (ms1, md)" by (cases "getMod r ms")
    have "vote_ok ?H now r t (vk\<lparr>vk_votes := (if i \<in> set (vk_votes vk) then vk_votes vk else vk_votes vk @ [i])\<rparr>)"
      if "jm_get (rm_votekicks md) t = Some vk" for vk
      using vote_added [of ?H now r t vk i] votes_ok_getMod [OF a g] that OpVote by auto
    then show ?thesis
      using OpVote votes_ok_getMod [OF a g]
      by (auto simp: voteKick_def g Let_def jm_get_set jm_get_del intro!: votes_ok_set split: if_splits option.split)
  qed
qed

lemma room_run_votes:
  assumes "votes_ok H T ms" "sorted (T # map fst ops)"
  shows "\<exists>T' \<ge> T. (\<forall>t \<in> set (map fst ops). t \<le> T') \<and> (T' = T \<or> T' \<in> set (map fst ops)) \<and> votes_ok (H \<union> set ops) T' (fst (room_run c ops ms))"
  using assms
proof (induction ops arbitrary: ms H T)
  case (Cons p ops)
  obtain now op where p: "p = (now, op)" by (cases p)
  have "votes_ok (insert p H) now (fst (room_step c now op ms))" using room_step_votes [OF Cons.prems(1)] Cons.prems(2) p by simp
  from Cons.IH [OF this] obtain T' where "now \<le> T'" "\<forall>t \<in> set (map fst ops). t \<le> T'" "T' = now \<or> T' \<in> set (map fst ops)"
    "votes_ok (insert p H \<union> set ops) T' (fst (room_run c ops (fst (room_step c now op ms))))"
    using Cons.prems(2) p by auto
  then show ?case using Cons.prems(2) p by (intro exI [of _ T']) (auto simp: split_beta insert_commute)
qed auto

text \<open>
  Vote-kicks and bans. A user is kicked from a room only when at least three different
  participants started or joined the vote within five minutes, and from then on, whatever anyone
  does, nothing the user sends to the room gets out before the ban has run its course.
\<close>

lemma room_kick_sound:
  assumes "sorted (map fst ops)" "\<forall>t \<in> set (map fst ops). t \<le> now"
    and "voteKick now room target voter (fst (room_run c ops [])) = (ms', Kicked n)"
    and "\<forall>(t, op) \<in> set later. now \<le> t \<and> t < now + SPAM_BAN_MS"
  shows "(\<exists>V. finite V \<and> 3 \<le> card V \<and> (\<forall>v \<in> V. v = voter \<or> (\<exists>t > now - VOTEKICK_WINDOW_MS.
        (t, OpStart room target v) \<in> set ops \<or> (t, OpVote room target v) \<in> set ops)))
    \<and> sent_times (snd (room_run c later ms')) room target = []"
proof -
  obtain T where v: "votes_ok (set ops) T (fst (room_run c ops []))"
  proof (cases ops)
    case Nil
    then show ?thesis using that by (auto simp: votes_ok_def)
  next
    case (Cons p rest)
    have "votes_ok {} (fst p) []" by (simp add: votes_ok_def)
    from room_run_votes [OF this, of ops c] that show ?thesis using assms(1) Cons by auto
  qed
  obtain ms1 md where g: "getMod room (fst (room_run c ops [])) = (ms1, md)" by (cases "getMod room (fst (room_run c ops []))")
  obtain vk where vk: "jm_get (rm_votekicks md) target = Some vk" "now - vk_startedAt vk < VOTEKICK_WINDOW_MS"
    "n = length (if voter \<in> set (vk_votes vk) then vk_votes vk else vk_votes vk @ [voter])" "3 \<le> n"
    "ms' = jm_set room (md\<lparr>rm_bans := jm_set target (now + SPAM_BAN_MS) (rm_bans md), rm_votekicks := jm_del target (rm_votekicks md)\<rparr>) ms1"
    using assms(3) by (auto simp: voteKick_def g Let_def split: option.splits if_splits)
  have ok: "vote_ok (set ops) T room target vk" using votes_ok_getMod [OF v g] vk(1) by blast
  have card: "3 \<le> card (insert voter (set (vk_votes vk)))"
    using vk(3,4) ok by (auto simp: vote_ok_def distinct_card insert_absorb split: if_splits)
  have "\<exists>t > now - VOTEKICK_WINDOW_MS. (t, OpStart room target v) \<in> set ops \<or> (t, OpVote room target v) \<in> set ops"
    if member: "v \<in> set (vk_votes vk)" for v
  proof -
    obtain \<tau> where \<tau>: "vk_startedAt vk \<le> \<tau>" "(\<tau>, OpStart room target v) \<in> set ops \<or> (\<tau>, OpVote room target v) \<in> set ops"
      using ok member by (auto simp: vote_ok_def)
    then show ?thesis using vk(2) by (intro exI [of _ \<tau>]) auto
  qed
  then have "\<exists>V. finite V \<and> 3 \<le> card V \<and> (\<forall>v \<in> V. v = voter \<or> (\<exists>t > now - VOTEKICK_WINDOW_MS.
      (t, OpStart room target v) \<in> set ops \<or> (t, OpVote room target v) \<in> set ops))"
    using card by (intro exI [of _ "insert voter (set (vk_votes vk))"]) auto
  moreover have "banned_until ms' room target (now + SPAM_BAN_MS)" unfolding vk(5) by (simp add: banned_until_def jm_get_set)
  then have "sent_times (snd (room_run c later ms')) room target = []"
    using ban_silences [of ms' room target "now + SPAM_BAN_MS" later c] assms(4) by fastforce
  ultimately show ?thesis by blast
qed

definition demo_kick :: "(int \<times> room_op) list" where
  "demo_kick = [(1, OpStart (toHex [7]) (toHex [1]) ''a''), (2, OpVote (toHex [7]) (toHex [1]) ''b'')]"

lemma room_kick_sound_witness:
  "\<exists>ms'. voteKick 3 (toHex [7]) (toHex [1]) ''c'' (fst (room_run sample_crypto demo_kick [])) = (ms', Kicked 3)
     \<and> sent_times (snd (room_run sample_crypto [(4, OpSend demo_room_client [7] ''hello'')] ms')) (toHex [7]) (toHex [1]) = []"
proof -
  have "length (toHex [1]) \<noteq> length ''a''" by simp
  then have ne: "toHex [1] \<noteq> ''a''" by auto
  have "snd (voteKick 3 (toHex [7]) (toHex [1]) ''c'' (fst (room_run sample_crypto demo_kick []))) = Kicked 3"
    using ne by (simp add: demo_kick_def startVotekick_def voteKick_def getMod_def new_mod_def jm_get_set VOTEKICK_WINDOW_MS_def del: toHex_simps)
  then obtain ms' where k: "voteKick 3 (toHex [7]) (toHex [1]) ''c'' (fst (room_run sample_crypto demo_kick [])) = (ms', Kicked 3)"
    by (metis prod.collapse)
  from room_kick_sound [OF _ _ this, of "[(4, OpSend demo_room_client [7] ''hello'')]"] k show ?thesis
    by (simp add: demo_kick_def SPAM_BAN_MS_def del: room_run.simps toHex_simps)
qed

end
