(* ===== verification/Identity_Auth.thy ===== *)
theory Identity_Auth
  imports Protocol
begin

text \<open>
  Proofs of possession of an identity (\<open>packages/protocol/src/identity-auth.ts\<close>) and the
  delivery receipts built on them (\<open>delivery-receipt.ts\<close>). A thrown \<open>Error\<close> is
  \<open>Inl\<close> where the caller can see it; the verifiers catch everything and return
  \<open>None\<close> for \<open>null\<close>. The theorems show that what is signed is accepted, and what an
  accepted receipt proves.
\<close>

section \<open>Identity proofs\<close>

record identity_proof =
  ip_rootPublicKey :: bytes
  ip_certificate :: "device_certificate option"
  ip_signature :: bytes

record identity_signer =
  is_rootPublicKey :: bytes
  is_secretKey :: bytes
  is_certificate :: "device_certificate option"

record verified_identity =
  vi_deviceId :: "bytes option"

datatype auth_error = InvalidField string | InvalidHex | InvalidBase64 | CertificateRequired

definition IDENTITY_AUTH_DOMAIN :: string where "IDENTITY_AUTH_DOMAIN = ''nexnet identity auth v1''"
definition IDENTITY_AUTH_MAX_SKEW_MS :: int where "IDENTITY_AUTH_MAX_SKEW_MS = 5 * 60000"

definition identityAuthPreimage :: "string \<Rightarrow> bytes \<Rightarrow> jval \<Rightarrow> jval" where
  "identityAuthPreimage operation identityId fs = JObj [
     (''domain'', JStr IDENTITY_AUTH_DOMAIN), (''operation'', JStr operation),
     (''identityId'', JBytes identityId), (''fields'', fs)]"

definition signIdentityAuth :: "crypto \<Rightarrow> identity_signer \<Rightarrow> string \<Rightarrow> bytes \<Rightarrow> jval \<Rightarrow> identity_proof" where
  "signIdentityAuth c signer operation identityId fs =
     \<lparr>ip_rootPublicKey = is_rootPublicKey signer, ip_certificate = is_certificate signer,
      ip_signature = ed_sign c (is_secretKey signer) (cdeEncode c (identityAuthPreimage operation identityId fs))\<rparr>"

definition verifyIdentityAuth ::
  "crypto \<Rightarrow> identity_proof \<Rightarrow> string \<Rightarrow> bytes \<Rightarrow> jval \<Rightarrow> int \<Rightarrow> verified_identity option" where
  "verifyIdentityAuth c proof operation identityId fs now =
     (if length identityId \<noteq> 32 \<or> \<not> sameBytes (identityIdFromWallet c (ip_rootPublicKey proof)) identityId then None
      else
        let preimage = cdeEncode c (identityAuthPreimage operation identityId fs) in
        case ip_certificate proof of
          None \<Rightarrow>
            (if ed_verify c (ip_rootPublicKey proof) preimage (ip_signature proof) \<noteq> Some True then None
             else Some \<lparr>vi_deviceId = None\<rparr>)
        | Some cert \<Rightarrow>
            (if \<not> sameBytes (dc_accountId cert) identityId \<or> dc_issuedAt cert > now \<or> dc_expiresAt cert \<le> now then None
             else if verifyDeviceCert c cert (ip_rootPublicKey proof) \<noteq> Some True then None
             else if ed_verify c (dc_signingKey cert) preimage (ip_signature proof) \<noteq> Some True then None
             else Some \<lparr>vi_deviceId = Some (dc_deviceId cert)\<rparr>))"

definition isFreshIssuedAt :: "jval option \<Rightarrow> int \<Rightarrow> bool" where
  "isFreshIssuedAt issuedAt now =
     (case issuedAt of Some (JNum n) \<Rightarrow> safe_int n \<and> \<bar>now - n\<bar> \<le> IDENTITY_AUTH_MAX_SKEW_MS | _ \<Rightarrow> False)"

section \<open>Their JSON form\<close>

definition identityProofToJson :: "identity_proof \<Rightarrow> jval" where
  "identityProofToJson proof = JObj (
     [(''rootPublicKey'', JStr (toHex (ip_rootPublicKey proof)))]
     @ (case ip_certificate proof of None \<Rightarrow> [] | Some cert \<Rightarrow> [(''certificate'', certificateToJson cert)])
     @ [(''signature'', JStr (toBase64Url (ip_signature proof)))])"

definition hexField :: "jval option \<Rightarrow> nat \<Rightarrow> string \<Rightarrow> auth_error + bytes" where
  "hexField value len field =
     (case value of
        Some (JStr s) \<Rightarrow>
          (if length s \<noteq> len * 2 then Inl (InvalidField field)
           else (case fromHex s of None \<Rightarrow> Inl InvalidHex | Some b \<Rightarrow> Inr b))
      | _ \<Rightarrow> Inl (InvalidField field))"

definition intField :: "jval option \<Rightarrow> string \<Rightarrow> auth_error + int" where
  "intField value field =
     (case value of Some (JNum n) \<Rightarrow> (if \<not> safe_int n \<or> n < 0 then Inl (InvalidField field) else Inr n)
      | _ \<Rightarrow> Inl (InvalidField field))"

definition signatureField :: "jval option \<Rightarrow> string \<Rightarrow> auth_error + bytes" where
  "signatureField value field =
     (case value of
        Some (JStr s) \<Rightarrow>
          (if length s \<noteq> 86 \<or> \<not> list_all is_b64url s then Inl (InvalidField field)
           else (case fromBase64Url s of None \<Rightarrow> Inl InvalidBase64 | Some b \<Rightarrow> Inr b))
      | _ \<Rightarrow> Inl (InvalidField field))"

text \<open>
  The properties of a value whose \<open>typeof\<close> is \<open>object\<close> and that is not \<open>null\<close>; an
  array or a byte array has none of the names that are read.
\<close>

definition object_fields :: "jval \<Rightarrow> (string \<times> jval) list option" where
  "object_fields v = (case v of JObj fs \<Rightarrow> Some fs | JArr _ \<Rightarrow> Some [] | JBytes _ \<Rightarrow> Some [] | _ \<Rightarrow> None)"

definition certificateField :: "(string \<times> jval) list \<Rightarrow> auth_error + device_certificate" where
  "certificateField cert =
     sbind (hexField (jfield cert ''accountId'') 32 ''certificate.accountId'') (\<lambda>accountId.
     sbind (hexField (jfield cert ''deviceId'') 32 ''certificate.deviceId'') (\<lambda>deviceId.
     sbind (hexField (jfield cert ''deviceSigningPublicKey'') 32 ''certificate.deviceSigningPublicKey'') (\<lambda>signing.
     sbind (hexField (jfield cert ''deviceEncryptionPublicKey'') 32 ''certificate.deviceEncryptionPublicKey'') (\<lambda>encryption.
     sbind (intField (jfield cert ''issuedAt'') ''certificate.issuedAt'') (\<lambda>issuedAt.
     sbind (intField (jfield cert ''expiresAt'') ''certificate.expiresAt'') (\<lambda>expiresAt.
     sbind (intField (jfield cert ''capabilities'') ''certificate.capabilities'') (\<lambda>capabilities.
     sbind (signatureField (jfield cert ''rootSignature'') ''certificate.rootSignature'') (\<lambda>rootSignature.
       Inr \<lparr>dc_accountId = accountId, dc_deviceId = deviceId, dc_signingKey = signing, dc_encryptionKey = encryption,
         dc_issuedAt = issuedAt, dc_expiresAt = expiresAt, dc_capabilities = capabilities,
         dc_rootSignature = rootSignature\<rparr>))))))))"

definition identityProofFromJson :: "jval option \<Rightarrow> auth_error + identity_proof" where
  "identityProofFromJson value =
     (case value of
        Some (JArr _) \<Rightarrow> Inl (InvalidField ''auth'')
      | None \<Rightarrow> Inl (InvalidField ''auth'')
      | Some v \<Rightarrow>
          (case object_fields v of
             None \<Rightarrow> Inl (InvalidField ''auth'')
           | Some input \<Rightarrow>
               sbind (hexField (jfield input ''rootPublicKey'') 32 ''auth.rootPublicKey'') (\<lambda>root.
               sbind (signatureField (jfield input ''signature'') ''auth.signature'') (\<lambda>signature.
               case jfield input ''certificate'' of
                 None \<Rightarrow> Inr \<lparr>ip_rootPublicKey = root, ip_certificate = None, ip_signature = signature\<rparr>
               | Some cv \<Rightarrow>
                   (case object_fields cv of
                      None \<Rightarrow> Inl (InvalidField ''certificate'')
                    | Some cert \<Rightarrow> sbind (certificateField cert) (\<lambda>certificate.
                        Inr \<lparr>ip_rootPublicKey = root, ip_certificate = Some certificate, ip_signature = signature\<rparr>))))))"

text \<open>\<open>const { auth, ...fields } = body\<close>: the properties other than \<open>auth\<close>.\<close>

definition without_auth :: "(string \<times> jval) list \<Rightarrow> (string \<times> jval) list" where
  "without_auth body = jm_del ''auth'' body"

definition verifyIdentityAuthJson ::
  "crypto \<Rightarrow> (string \<times> jval) list \<Rightarrow> string \<Rightarrow> jval option \<Rightarrow> int \<Rightarrow> verified_identity option" where
  "verifyIdentityAuthJson c body operation identityHex now =
     (case identityHex of
        Some (JStr s) \<Rightarrow>
          (if length s \<noteq> 64 then None
           else (case (identityProofFromJson (jfield body ''auth''), fromHex s) of
                   (Inr proof, Some identityId) \<Rightarrow>
                     verifyIdentityAuth c proof operation identityId (JObj (without_auth body)) now
                 | _ \<Rightarrow> None))
      | _ \<Rightarrow> None)"

text \<open>\<open>JSON.parse(JSON.stringify(v))\<close>: a byte array turns into an object indexed by position.\<close>

fun json_normal :: "jval \<Rightarrow> jval" where
  "json_normal (JBytes b) = JObj (map (\<lambda>(i, x). (decimal i, JNum (uint x))) (zip [0..<length b] b))"
| "json_normal (JArr vs) = JArr (map json_normal vs)"
| "json_normal (JObj fs) = JObj (map (\<lambda>(k, v). (k, json_normal v)) fs)"
| "json_normal v = v"

definition signIdentityAuthJson ::
  "crypto \<Rightarrow> identity_signer \<Rightarrow> string \<Rightarrow> bytes \<Rightarrow> (string \<times> jval) list \<Rightarrow> (string \<times> jval) list" where
  "signIdentityAuthJson c signer operation identityId fs =
     (let normalized = map (\<lambda>(k, v). (k, json_normal v)) fs in
      jm_set ''auth'' (identityProofToJson (signIdentityAuth c signer operation identityId (JObj normalized))) normalized)"

section \<open>Delivery receipts\<close>

record delivery_receipt =
  dr_version :: int
  dr_senderIdentityId :: bytes
  dr_recipientIdentityId :: bytes
  dr_messageId :: bytes
  dr_recipientDeviceId :: bytes
  dr_storedAt :: int

definition number_array :: "bytes \<Rightarrow> jval" where
  "number_array b = JArr (map (\<lambda>x. JNum (uint x)) b)"

definition receipt_fields :: "delivery_receipt \<Rightarrow> (string \<times> jval) list" where
  "receipt_fields r = [
     (''version'', JNum (dr_version r)),
     (''senderIdentityId'', JStr (toHex (dr_senderIdentityId r))),
     (''recipientIdentityId'', JStr (toHex (dr_recipientIdentityId r))),
     (''messageId'', number_array (dr_messageId r)),
     (''recipientDeviceId'', number_array (dr_recipientDeviceId r)),
     (''storedAt'', JNum (dr_storedAt r))]"

definition signDeliveryReceipt :: "crypto \<Rightarrow> identity_signer \<Rightarrow> delivery_receipt \<Rightarrow> auth_error + (string \<times> jval) list" where
  "signDeliveryReceipt c signer receipt =
     (if is_certificate signer = None then Inl CertificateRequired
      else Inr (signIdentityAuthJson c signer ''dm.delivery_receipt'' (dr_recipientIdentityId receipt) (receipt_fields receipt)))"

text \<open>\<open>isId\<close>, with the array it recognises.\<close>

fun byte_number :: "jval \<Rightarrow> byte option" where
  "byte_number (JNum n) = (if 0 \<le> n \<and> n \<le> 255 then Some (word_of_int n) else None)"
| "byte_number _ = None"

definition isId :: "jval option \<Rightarrow> bytes option" where
  "isId value =
     (case value of
        Some (JArr vs) \<Rightarrow>
          (if length vs = 32 \<and> list_all (\<lambda>v. byte_number v \<noteq> None) vs then Some (map (\<lambda>v. the (byte_number v)) vs) else None)
      | _ \<Rightarrow> None)"

text \<open>\<open>certificate.deviceId.every((byte, i) => byte === recipientDeviceId[i])\<close>.\<close>

definition every_byte :: "bytes \<Rightarrow> bytes \<Rightarrow> bool" where
  "every_byte a b = (\<forall>i < length a. i < length b \<and> a ! i = b ! i)"

definition verifyDeliveryReceipt :: "crypto \<Rightarrow> jval \<Rightarrow> bytes \<Rightarrow> int \<Rightarrow> delivery_receipt option" where
  "verifyDeliveryReceipt c value senderIdentityId now =
     (case value of
        JObj body \<Rightarrow>
          (let fs = without_auth body in
           case (jfield fs ''recipientIdentityId'', isId (jfield fs ''recipientDeviceId''), isId (jfield fs ''messageId''),
                 jfield fs ''storedAt'') of
             (Some (JStr recipientHex), Some deviceId, Some messageId, Some (JNum storedAt)) \<Rightarrow>
               (if jfield fs ''version'' \<noteq> Some (JNum 2)
                   \<or> jfield fs ''senderIdentityId'' \<noteq> Some (JStr (toHex senderIdentityId))
                   \<or> length recipientHex \<noteq> 64 \<or> \<not> list_all is_hex recipientHex
                   \<or> \<not> safe_int storedAt \<or> storedAt < 0 \<or> storedAt > now + IDENTITY_AUTH_MAX_SKEW_MS then None
                else
                  (case identityProofFromJson (jfield body ''auth'') of
                     Inl _ \<Rightarrow> None
                   | Inr proof \<Rightarrow>
                       (case ip_certificate proof of
                          None \<Rightarrow> None
                        | Some certificate \<Rightarrow>
                            (if storedAt < dc_issuedAt certificate \<or> storedAt \<ge> dc_expiresAt certificate
                                \<or> \<not> every_byte (dc_deviceId certificate) deviceId then None
                             else
                               (case fromHex recipientHex of
                                  None \<Rightarrow> None
                                | Some recipient \<Rightarrow>
                                    (if verifyIdentityAuth c proof ''dm.delivery_receipt'' recipient (JObj fs) now = None then None
                                     else Some \<lparr>dr_version = 2, dr_senderIdentityId = senderIdentityId,
                                       dr_recipientIdentityId = recipient, dr_messageId = messageId,
                                       dr_recipientDeviceId = deviceId, dr_storedAt = storedAt\<rparr>))))))
           | _ \<Rightarrow> None)
      | _ \<Rightarrow> None)"

section \<open>Parsing what was written\<close>

definition wire_proof :: "identity_proof \<Rightarrow> bool" where
  "wire_proof p = (length (ip_rootPublicKey p) = 32 \<and> length (ip_signature p) = 64 \<and>
     (case ip_certificate p of None \<Rightarrow> True
      | Some d \<Rightarrow> length (dc_accountId d) = 32 \<and> length (dc_deviceId d) = 32 \<and> length (dc_signingKey d) = 32
          \<and> length (dc_encryptionKey d) = 32 \<and> length (dc_rootSignature d) = 64
          \<and> (\<forall>n \<in> {dc_issuedAt d, dc_expiresAt d, dc_capabilities d}. 0 \<le> n \<and> safe_int n)))"

lemma hexField_toHex [simp]: "length b = n \<Longrightarrow> hexField (Some (JStr (toHex b))) n f = Inr b"
  by (simp add: hexField_def)

lemma intField_JNum [simp]: "0 \<le> n \<Longrightarrow> safe_int n \<Longrightarrow> intField (Some (JNum n)) f = Inr n"
  by (simp add: intField_def)

lemma signatureField_toBase64Url [simp]: "length b = 64 \<Longrightarrow> signatureField (Some (JStr (toBase64Url b))) f = Inr b"
  using toBase64Url_alphabet [of b] by (simp add: signatureField_def length_toBase64Url)

lemma certificateField_json:
  "wire_proof p \<Longrightarrow> ip_certificate p = Some d \<Longrightarrow>
     (case certificateToJson d of JObj fs \<Rightarrow> certificateField fs | _ \<Rightarrow> Inl InvalidHex) = Inr d"
  by (simp add: wire_proof_def certificateField_def certificateToJson_def)

lemma identityProof_json:
  assumes "wire_proof p"
  shows "identityProofFromJson (Some (identityProofToJson p)) = Inr p"
proof (cases "ip_certificate p")
  case None
  then show ?thesis
    using assms by (cases p) (simp add: wire_proof_def identityProofFromJson_def identityProofToJson_def object_fields_def)
next
  case (Some d)
  obtain fs where fs: "certificateToJson d = JObj fs" by (simp add: certificateToJson_def)
  then have "certificateField fs = Inr d" using certificateField_json [OF assms Some] by simp
  then show ?thesis
    using assms Some fs
    by (cases p) (simp add: wire_proof_def identityProofFromJson_def identityProofToJson_def object_fields_def)
qed

lemma byte_number_uint [simp]: "byte_number (JNum (uint (b :: byte))) = Some b"
  using uint_lt2p [of b] by (simp add: uint_sint [symmetric])

lemma isId_number_array [simp]: "length b = 32 \<Longrightarrow> isId (Some (number_array b)) = Some b"
  by (simp add: isId_def number_array_def list_all_iff comp_def del: byte_number.simps)

lemma byte_numberD: "byte_number v = Some b \<Longrightarrow> v = JNum (uint b)"
  by (cases v) (auto simp: unsigned_of_int take_bit_int_eq_self split: if_splits)

lemma isIdD: "isId v = Some b \<Longrightarrow> v = Some (number_array b) \<and> length b = 32"
proof (cases v)
  case (Some w)
  assume "isId v = Some b"
  then obtain vs where vs: "w = JArr vs" "length vs = 32" "list_all (\<lambda>v. byte_number v \<noteq> None) vs"
    "b = map (\<lambda>v. the (byte_number v)) vs"
    using Some by (auto simp: isId_def split: jval.splits if_splits)
  have "map (\<lambda>x. JNum (uint x)) b = vs"
    unfolding vs(4) map_map comp_def using vs(3)
    by (intro map_idI) (fastforce simp: list_all_iff simp del: byte_number.simps dest: byte_numberD)
  then show ?thesis using Some vs by (simp add: number_array_def)
qed (simp add: isId_def)

lemma json_normal_number_array [simp]: "json_normal (number_array b) = number_array b"
  by (simp add: number_array_def)

lemma json_normal_receipt [simp]: "map (\<lambda>(k, v). (k, json_normal v)) (receipt_fields r) = receipt_fields r"
  by (simp add: receipt_fields_def)

lemma receipt_fields_read [simp]:
  "jfield (receipt_fields r) ''version'' = Some (JNum (dr_version r))"
  "jfield (receipt_fields r) ''senderIdentityId'' = Some (JStr (toHex (dr_senderIdentityId r)))"
  "jfield (receipt_fields r) ''recipientIdentityId'' = Some (JStr (toHex (dr_recipientIdentityId r)))"
  "jfield (receipt_fields r) ''messageId'' = Some (number_array (dr_messageId r))"
  "jfield (receipt_fields r) ''recipientDeviceId'' = Some (number_array (dr_recipientDeviceId r))"
  "jfield (receipt_fields r) ''storedAt'' = Some (JNum (dr_storedAt r))"
  by (simp_all add: receipt_fields_def)

lemma every_byte_eq: "length a = length b \<Longrightarrow> every_byte a b \<longleftrightarrow> a = b"
  by (auto simp: every_byte_def list_eq_iff_nth_eq)

lemma hexFieldD: "hexField v n f = Inr b \<Longrightarrow> length b = n"
  by (auto simp: hexField_def split: option.splits jval.splits if_splits dest: fromHex_Some_toHex)

section \<open>What an accepted receipt proves\<close>

text \<open>The signer holds the device key a root-signed certificate names, and the certificate is in force.\<close>

definition device_signer :: "crypto \<Rightarrow> identity_signer \<Rightarrow> device_certificate \<Rightarrow> bytes \<Rightarrow> int \<Rightarrow> bool" where
  "device_signer c s cert identityId now = (is_certificate s = Some cert \<and> length identityId = 32
     \<and> identityIdFromWallet c (is_rootPublicKey s) = identityId \<and> dc_accountId cert = identityId
     \<and> verifyDeviceCert c cert (is_rootPublicKey s) = Some True \<and> dc_issuedAt cert \<le> now \<and> now < dc_expiresAt cert
     \<and> ed_public c (is_secretKey s) = dc_signingKey cert)"

lemma signIdentityAuth_accepted:
  assumes "signatures_correct c" "device_signer c s cert i now"
  shows "verifyIdentityAuth c (signIdentityAuth c s operation i fs) operation i fs now = Some \<lparr>vi_deviceId = Some (dc_deviceId cert)\<rparr>"
proof -
  have "ed_verify c (ed_public c (is_secretKey s)) m (ed_sign c (is_secretKey s) m) = Some True" for m
    using assms(1) by (simp add: signatures_correct_def)
  then show ?thesis using assms(2) by (simp add: verifyIdentityAuth_def signIdentityAuth_def device_signer_def)
qed

lemma verifyIdentityAuthD:
  assumes "verifyIdentityAuth c p operation i fs now = Some v" "ip_certificate p = Some cert"
  shows "length i = 32" "identityIdFromWallet c (ip_rootPublicKey p) = i" "dc_accountId cert = i"
    "verifyDeviceCert c cert (ip_rootPublicKey p) = Some True" "dc_issuedAt cert \<le> now" "now < dc_expiresAt cert"
    "ed_verify c (dc_signingKey cert) (cdeEncode c (identityAuthPreimage operation i fs)) (ip_signature p) = Some True"
  using assms by (auto simp: verifyIdentityAuth_def Let_def split: if_splits)

lemma signed_receipt_body:
  fixes c s r
  defines "p \<equiv> signIdentityAuth c s ''dm.delivery_receipt'' (dr_recipientIdentityId r) (JObj (receipt_fields r))"
  assumes "signDeliveryReceipt c s r = Inr body"
  shows "without_auth body = receipt_fields r" "jfield body ''auth'' = Some (identityProofToJson p)"
  using assms(2)
  by (auto simp: signDeliveryReceipt_def signIdentityAuthJson_def p_def without_auth_def receipt_fields_def jm_set_def jm_del_def
      split: if_splits)

lemma receipt_roundtrip:
  assumes "signatures_correct c" "device_signer c s cert (dr_recipientIdentityId r) now"
    and "wire_proof (signIdentityAuth c s ''dm.delivery_receipt'' (dr_recipientIdentityId r) (JObj (receipt_fields r)))"
    and "dr_version r = 2" "length (dr_messageId r) = 32" "dr_recipientDeviceId r = dc_deviceId cert"
    and "safe_int (dr_storedAt r)" "dc_issuedAt cert \<le> dr_storedAt r" "dr_storedAt r < dc_expiresAt cert"
    and "dr_storedAt r \<le> now + IDENTITY_AUTH_MAX_SKEW_MS"
    and "signDeliveryReceipt c s r = Inr body"
  shows "verifyDeliveryReceipt c (JObj body) (dr_senderIdentityId r) now = Some r"
proof -
  let ?i = "dr_recipientIdentityId r"
  let ?p = "signIdentityAuth c s ''dm.delivery_receipt'' ?i (JObj (receipt_fields r))"
  have p: "identityProofFromJson (jfield body ''auth'') = Inr ?p"
    using identityProof_json [OF assms(3)] signed_receipt_body [OF assms(11)] by simp
  have cert: "ip_certificate ?p = Some cert" using assms(2) by (simp add: signIdentityAuth_def device_signer_def)
  then have d: "length (dc_deviceId cert) = 32" "0 \<le> dc_issuedAt cert" using assms(3) by (auto simp: wire_proof_def)
  have v: "verifyIdentityAuth c ?p ''dm.delivery_receipt'' ?i (JObj (receipt_fields r)) now \<noteq> None"
    using signIdentityAuth_accepted [OF assms(1,2)] by simp
  have i: "length ?i = 32" using assms(2) by (simp add: device_signer_def)
  note f = signed_receipt_body(1) [OF assms(11)]
  show ?thesis
    unfolding verifyDeliveryReceipt_def
    using p cert v i d f assms(4-10)
    by (cases r) (simp add: every_byte_eq Let_def del: jfield.simps)
qed

text \<open>What the recipient device has signed, as far as the sender can tell.\<close>

definition receipt_proved :: "crypto \<Rightarrow> jval \<Rightarrow> delivery_receipt \<Rightarrow> int \<Rightarrow> bool" where
  "receipt_proved c v r now \<longleftrightarrow> (\<exists>body root cert sig. v = JObj body
     \<and> identityIdFromWallet c root = dr_recipientIdentityId r \<and> verifyDeviceCert c cert root = Some True
     \<and> dc_accountId cert = dr_recipientIdentityId r \<and> dc_deviceId cert = dr_recipientDeviceId r
     \<and> dc_issuedAt cert \<le> now \<and> now < dc_expiresAt cert
     \<and> dc_issuedAt cert \<le> dr_storedAt r \<and> dr_storedAt r < dc_expiresAt cert
     \<and> ed_verify c (dc_signingKey cert) (cdeEncode c (identityAuthPreimage ''dm.delivery_receipt'' (dr_recipientIdentityId r)
          (JObj (without_auth body)))) sig = Some True
     \<and> (\<forall>(k, w) \<in> set (receipt_fields r). jfield (without_auth body) k = Some w))"

lemma certificateFieldD: "certificateField fs = Inr d \<Longrightarrow> length (dc_deviceId d) = 32"
  unfolding certificateField_def sbind_Inr_iff by (elim exE conjE) (auto dest: hexFieldD simp del: jfield.simps)

lemma identityProof_certificate:
  assumes "identityProofFromJson v = Inr p" "ip_certificate p = Some d"
  shows "length (dc_deviceId d) = 32"
proof -
  obtain w input where w: "v = Some w" "object_fields w = Some input"
    using assms(1) by (auto simp: identityProofFromJson_def split: option.splits jval.splits)
  obtain cv where "jfield input ''certificate'' = Some cv"
    using assms w by (cases w; cases "jfield input ''certificate''")
      (auto simp: identityProofFromJson_def sbind_Inr_iff simp del: jfield.simps)
  then obtain fs where "certificateField fs = Inr d"
    using assms w by (cases w; cases "object_fields cv")
      (auto simp: identityProofFromJson_def sbind_Inr_iff simp del: jfield.simps)
  then show ?thesis by (rule certificateFieldD)
qed

lemma verifyDeliveryReceiptD:
  assumes "verifyDeliveryReceipt c v sender now = Some r"
  shows "dr_version r = 2" "dr_senderIdentityId r = sender" "length (dr_messageId r) = 32"
    "length (dr_recipientIdentityId r) = 32" "0 \<le> dr_storedAt r" "dr_storedAt r \<le> now + IDENTITY_AUTH_MAX_SKEW_MS"
    "receipt_proved c v r now"
proof -
  obtain body where v: "v = JObj body" using assms by (cases v) (auto simp: verifyDeliveryReceipt_def)
  let ?fs = "without_auth body"
  obtain h d m n where f: "jfield ?fs ''recipientIdentityId'' = Some (JStr h)" "isId (jfield ?fs ''recipientDeviceId'') = Some d"
    "isId (jfield ?fs ''messageId'') = Some m" "jfield ?fs ''storedAt'' = Some (JNum n)"
    using assms unfolding v verifyDeliveryReceipt_def
    by (auto simp: Let_def split: option.splits jval.splits prod.splits)
  note step = assms [unfolded v verifyDeliveryReceipt_def, simplified Let_def f jval.case option.case prod.case]
  obtain p cert i vi where p: "identityProofFromJson (jfield body ''auth'') = Inr p" "ip_certificate p = Some cert"
    "fromHex h = Some i" "verifyIdentityAuth c p ''dm.delivery_receipt'' i (JObj ?fs) now = Some vi"
    "dc_issuedAt cert \<le> n" "n < dc_expiresAt cert" "every_byte (dc_deviceId cert) d"
    "r = \<lparr>dr_version = 2, dr_senderIdentityId = sender, dr_recipientIdentityId = i, dr_messageId = m,
       dr_recipientDeviceId = d, dr_storedAt = n\<rparr>"
    "jfield ?fs ''version'' = Some (JNum 2)" "jfield ?fs ''senderIdentityId'' = Some (JStr (toHex sender))"
    "0 \<le> n" "n \<le> now + IDENTITY_AUTH_MAX_SKEW_MS"
    using step by (auto split: if_splits sum.splits option.splits)
  note auth = verifyIdentityAuthD [OF p(4,2)]
  note ids = isIdD [OF f(2)] isIdD [OF f(3)]
  have "dc_deviceId cert = d" using p(7) identityProof_certificate [OF p(1,2)] ids by (simp add: every_byte_eq)
  moreover have "h = toHex i" using fromHex_Some_toHex [OF p(3)] by simp
  ultimately show "receipt_proved c v r now"
    unfolding receipt_proved_def using v auth p(5,6,8-10) f ids
    by (intro exI [of _ body] exI [of _ "ip_rootPublicKey p"] exI [of _ cert] exI [of _ "ip_signature p"])
       (auto simp: receipt_fields_def)
  show "dr_version r = 2" "dr_senderIdentityId r = sender" "length (dr_messageId r) = 32"
    "length (dr_recipientIdentityId r) = 32" "0 \<le> dr_storedAt r" "dr_storedAt r \<le> now + IDENTITY_AUTH_MAX_SKEW_MS"
    using p(8,11,12) ids auth(1) by simp_all
qed

text \<open>
  C35. A delivery receipt is accepted for the sender exactly on the recipient's word: what
  \<open>verifyDeliveryReceipt\<close> returns names this sender, a time within the accepted skew, and is
  covered, field by field, by a signature of a device whose root-signed certificate belongs to the
  recipient's identity and was in force both now and when the message was stored. Conversely a
  receipt that a certified device of the recipient signs with \<open>signDeliveryReceipt\<close> is accepted
  and read back unchanged.
\<close>

theorem delivery_receipt_sound_and_complete:
  assumes "signatures_correct c"
  shows "(verifyDeliveryReceipt c v sender now = Some q \<longrightarrow>
      dr_version q = 2 \<and> dr_senderIdentityId q = sender \<and> length (dr_messageId q) = 32
      \<and> 0 \<le> dr_storedAt q \<and> dr_storedAt q \<le> now + IDENTITY_AUTH_MAX_SKEW_MS \<and> receipt_proved c v q now)
    \<and> (device_signer c s cert (dr_recipientIdentityId r) now
      \<and> wire_proof (signIdentityAuth c s ''dm.delivery_receipt'' (dr_recipientIdentityId r) (JObj (receipt_fields r)))
      \<and> dr_version r = 2 \<and> length (dr_messageId r) = 32 \<and> dr_recipientDeviceId r = dc_deviceId cert
      \<and> safe_int (dr_storedAt r) \<and> dc_issuedAt cert \<le> dr_storedAt r \<and> dr_storedAt r < dc_expiresAt cert
      \<and> dr_storedAt r \<le> now + IDENTITY_AUTH_MAX_SKEW_MS \<longrightarrow>
      (\<exists>body. signDeliveryReceipt c s r = Inr body
        \<and> verifyDeliveryReceipt c (JObj body) (dr_senderIdentityId r) now = Some r))"
proof (intro conjI impI, goal_cases)
  case 7
  then have "is_certificate s = Some cert" by (simp add: device_signer_def)
  then obtain body where "signDeliveryReceipt c s r = Inr body" by (simp add: signDeliveryReceipt_def)
  then show ?case using receipt_roundtrip [OF assms] 7 by blast
qed (auto dest: verifyDeliveryReceiptD)

definition demo_root :: bytes where "demo_root = replicate 32 9"

definition demo_signer :: identity_signer where
  "demo_signer = \<lparr>is_rootPublicKey = demo_root, is_secretKey = replicate 32 4,
     is_certificate = Some (issueDeviceCert sample_crypto demo_root (replicate 32 4) (replicate 32 5) (replicate 32 6)
       (identityIdFromWallet sample_crypto demo_root) 10 1000 1)\<rparr>"

definition demo_receipt :: delivery_receipt where
  "demo_receipt = \<lparr>dr_version = 2, dr_senderIdentityId = replicate 32 7,
     dr_recipientIdentityId = identityIdFromWallet sample_crypto demo_root, dr_messageId = replicate 32 8,
     dr_recipientDeviceId = replicate 32 6, dr_storedAt = 50\<rparr>"

lemma demo_identity: "identityIdFromWallet sample_crypto demo_root = replicate 32 9"
  by (simp add: identityIdFromWallet_def sample_crypto_def demo_root_def)

lemma sample_signing: "ed_sign sample_crypto = sample_sign" "ed_public sample_crypto sk = sk"
  "ed_verify sample_crypto pk m s = Some (s = sample_sign pk m)"
  by (simp_all add: sample_crypto_def)

lemma demo_device_signer:
  "device_signer sample_crypto demo_signer (the (is_certificate demo_signer)) (dr_recipientIdentityId demo_receipt) 60"
  unfolding device_signer_def demo_signer_def demo_receipt_def
  by (simp add: demo_identity issueDeviceCert_def verifyDeviceCert_def deviceCertPreimage_def sample_signing)

lemma demo_wire_proof:
  "wire_proof (signIdentityAuth sample_crypto demo_signer ''dm.delivery_receipt'' (dr_recipientIdentityId demo_receipt)
     (JObj (receipt_fields demo_receipt)))"
  by (simp add: wire_proof_def signIdentityAuth_def demo_signer_def issueDeviceCert_def demo_identity
      sample_signing safe_int_def) (simp add: demo_root_def)

lemma demo_receipt_fields: "dr_version demo_receipt = 2" "length (dr_messageId demo_receipt) = 32"
  "dr_recipientDeviceId demo_receipt = dc_deviceId (the (is_certificate demo_signer))" "safe_int (dr_storedAt demo_receipt)"
  "dc_issuedAt (the (is_certificate demo_signer)) \<le> dr_storedAt demo_receipt"
  "dr_storedAt demo_receipt < dc_expiresAt (the (is_certificate demo_signer))"
  "dr_storedAt demo_receipt \<le> 60 + IDENTITY_AUTH_MAX_SKEW_MS" "dr_senderIdentityId demo_receipt = replicate 32 7"
  by (simp_all add: demo_receipt_def demo_signer_def issueDeviceCert_def safe_int_def IDENTITY_AUTH_MAX_SKEW_MS_def)

theorem delivery_receipt_sound_and_complete_witness:
  "\<exists>body. signDeliveryReceipt sample_crypto demo_signer demo_receipt = Inr body
     \<and> verifyDeliveryReceipt sample_crypto (JObj body) (replicate 32 7) 60 = Some demo_receipt
     \<and> receipt_proved sample_crypto (JObj body) demo_receipt 60"
proof -
  note both = delivery_receipt_sound_and_complete [OF sample_signatures]
  have "\<exists>body. signDeliveryReceipt sample_crypto demo_signer demo_receipt = Inr body
      \<and> verifyDeliveryReceipt sample_crypto (JObj body) (dr_senderIdentityId demo_receipt) 60 = Some demo_receipt"
    by (rule both [where cert = "the (is_certificate demo_signer)", THEN conjunct2, THEN mp])
       (intro conjI demo_device_signer demo_wire_proof demo_receipt_fields)
  then obtain body where "signDeliveryReceipt sample_crypto demo_signer demo_receipt = Inr body"
    "verifyDeliveryReceipt sample_crypto (JObj body) (replicate 32 7) 60 = Some demo_receipt"
    unfolding demo_receipt_fields by blast
  then show ?thesis using both [of "JObj body" "replicate 32 7" 60 demo_receipt] by blast
qed

end
