(* ===== verification/Relay_Wire.thy ===== *)
theory Relay_Wire
  imports Identity_Auth
begin

text \<open>
  What the two relays (\<open>packages/relay-standalone/src/index.ts\<close> and
  \<open>workers/relay/src/index.ts\<close>) share: the sockets and the events that reach a relay, what it
  sends, the JavaScript values its untyped messages carry, and traces of a service that answers
  events. A frame that arrives is the result of \<open>JSON.parse\<close>, \<open>None\<close> where that
  throws; the text of an error frame is a value of \<open>relay_error\<close>.
\<close>

section \<open>Untyped values\<close>

text \<open>Truthiness of a property; a fractional number is not zero.\<close>

fun truthy :: "jval option \<Rightarrow> bool" where
  "truthy None = False"
| "truthy (Some JNull) = False"
| "truthy (Some (JBool b)) = b"
| "truthy (Some (JNum n)) = (n \<noteq> 0)"
| "truthy (Some (JStr s)) = (s \<noteq> [])"
| "truthy (Some _) = True"

text \<open>
  A key of a \<open>Map\<close> or \<open>Set\<close> is compared by value when it is a primitive and by reference when
  it is an object: \<open>ref\<close> identifies the object that was parsed from the frame at hand.
\<close>

datatype js_key = KUndefined | KValue jval | KRef nat

fun key_of :: "nat \<Rightarrow> jval option \<Rightarrow> js_key" where
  "key_of ref None = KUndefined"
| "key_of ref (Some v) = (if object_fields v = None then KValue v else KRef ref)"

text \<open>Strings and arrays have a method \<open>slice\<close>; calling it on any other defined value throws.\<close>

fun has_slice :: "jval option \<Rightarrow> bool" where
  "has_slice (Some (JStr _)) = True"
| "has_slice (Some (JArr _)) = True"
| "has_slice (Some (JBytes _)) = True"
| "has_slice _ = False"

text \<open>A property of an object literal whose value may be \<open>undefined\<close>: \<open>JSON.stringify\<close> drops it then.\<close>

definition opt_field :: "string \<Rightarrow> jval option \<Rightarrow> (string \<times> jval) list" where
  "opt_field k v = (case v of None \<Rightarrow> [] | Some w \<Rightarrow> [(k, w)])"

text \<open>\<open>map.get(key)\<close> on a map whose keys are strings.\<close>

definition string_key :: "jval option \<Rightarrow> (string, 'v) jmap \<Rightarrow> 'v option" where
  "string_key key m = (case key of Some (JStr s) \<Rightarrow> jm_get m s | _ \<Rightarrow> None)"

text \<open>A \<open>Set\<close> in insertion order.\<close>

definition set_add :: "'a \<Rightarrow> 'a list \<Rightarrow> 'a list" where
  "set_add x xs = (if x \<in> set xs then xs else xs @ [x])"

definition set_delete :: "'a \<Rightarrow> 'a list \<Rightarrow> 'a list" where
  "set_delete x xs = filter (\<lambda>y. y \<noteq> x) xs"

lemma set_add_simps [simp]: "set (set_add x xs) = insert x (set xs)" "distinct (set_add x xs) = distinct xs" "set_add x xs \<noteq> []"
  by (auto simp: set_add_def)

lemma set_delete_simps [simp]: "set (set_delete x xs) = set xs - {x}" "distinct xs \<Longrightarrow> distinct (set_delete x xs)"
  by (auto simp: set_delete_def)

lemma set_delete_Nil: "set_delete x xs = [] \<longleftrightarrow> set xs \<subseteq> {x}"
  by (auto simp: set_delete_def filter_empty_conv)

section \<open>Sockets, events and frames\<close>

record relay_socket =
  ws_raw :: nat
  ws_identity :: string
  ws_device :: string
  ws_host :: "string option"

datatype relay_error =
    BadRequest | AuthenticationFailed | AuthenticationTimeout | NotAuthenticated
  | InvalidJson | UnknownType | PeerNotOnline | RecipientNotOnline | ReplacedByNewConnection

datatype relay_out =
    Send nat "(string \<times> jval) list"
  | SendError nat relay_error
  | CloseSocket nat
  | Throws

text \<open>
  \<open>Open ws nonce\<close> carries the random nonce of the challenge, \<open>Message ws frame ref now\<close> the parsed
  frame, the reference of its room id when that is an object, and the clock; \<open>Timeout\<close> is the
  timer of the challenge.
\<close>

datatype relay_event =
    Open relay_socket string
  | Message relay_socket "jval option" nat int
  | Closed relay_socket
  | Timeout relay_socket

fun event_socket :: "relay_event \<Rightarrow> relay_socket" where
  "event_socket (Open ws _) = ws"
| "event_socket (Message ws _ _ _) = ws"
| "event_socket (Closed ws) = ws"
| "event_socket (Timeout ws) = ws"

definition id_hex :: "string \<Rightarrow> bool" where
  "id_hex s = (length s = 64 \<and> list_all is_hex s)"

text \<open>\<open>Object.fromEntries([...keys].map((id) => [id, { status: "online" }]))\<close>.\<close>

definition online_leases :: "string list \<Rightarrow> jval" where
  "online_leases ids = JObj (map (\<lambda>i. (i, JObj [(''status'', JStr ''online'')])) ids)"

definition presence_notice :: "string \<Rightarrow> bool \<Rightarrow> (string \<times> jval) list" where
  "presence_notice identityId online = [(''type'', JStr ''presence_update''), (''identityId'', JStr identityId),
     (''status'', JStr (if online then ''online'' else ''offline''))]"

definition snapshot_frame :: "string list \<Rightarrow> (string \<times> jval) list" where
  "snapshot_frame ids = [(''type'', JStr ''presence_snapshot''), (''leases'', online_leases ids)]"

text \<open>The \<open>from\<close> a frame carries.\<close>

definition frame_from :: "(string \<times> jval) list \<Rightarrow> jval option" where
  "frame_from f = jfield f ''from''"

definition frame_type :: "(string \<times> jval) list \<Rightarrow> jval option" where
  "frame_type f = jfield f ''type''"

section \<open>The challenge\<close>

record challenge =
  ch_identity :: string
  ch_device :: string
  ch_audience :: string
  ch_nonce :: string

text \<open>The proof of a frame \<open>{ type: "auth", auth }\<close> with an object as \<open>auth\<close>.\<close>

definition auth_of :: "jval option \<Rightarrow> jval option" where
  "auth_of frame =
     (case frame of
        Some (JObj msg) \<Rightarrow>
          (if jfield msg ''type'' = Some (JStr ''auth'') then
             (case jfield msg ''auth'' of
                Some v \<Rightarrow> (if object_fields v \<noteq> None then Some v else None)
              | None \<Rightarrow> None)
           else None)
      | _ \<Rightarrow> None)"

definition challenge_body :: "challenge \<Rightarrow> jval \<Rightarrow> (string \<times> jval) list" where
  "challenge_body ch auth = [(''audience'', JStr (ch_audience ch)), (''nonce'', JStr (ch_nonce ch)),
     (''deviceId'', JStr (ch_device ch)), (''auth'', auth)]"

text \<open>Whether the reply passes: \<open>verified\<close>, and the device of the certificate is the one announced.\<close>

definition challenge_met :: "crypto \<Rightarrow> challenge \<Rightarrow> jval option \<Rightarrow> int \<Rightarrow> bool" where
  "challenge_met c ch frame now =
     (case auth_of frame of
        None \<Rightarrow> False
      | Some auth \<Rightarrow>
          (case verifyIdentityAuthJson c (challenge_body ch auth) ''relay.connect'' (Some (JStr (ch_identity ch))) now of
             None \<Rightarrow> False
           | Some verified \<Rightarrow>
               (case vi_deviceId verified of None \<Rightarrow> True | Some d \<Rightarrow> toHex d = ch_device ch)))"

text \<open>
  What the reply to a challenge proves: the root key of the identity, or a device key that the
  root has certified for the announced device, has signed the relay's host, the nonce and the device.
\<close>

definition challenge_proved :: "crypto \<Rightarrow> challenge \<Rightarrow> int \<Rightarrow> bool" where
  "challenge_proved c ch now \<longleftrightarrow> (\<exists>i root sig.
     let signed = cdeEncode c (identityAuthPreimage ''relay.connect'' i (JObj
       [(''audience'', JStr (ch_audience ch)), (''nonce'', JStr (ch_nonce ch)), (''deviceId'', JStr (ch_device ch))])) in
     fromHex (ch_identity ch) = Some i \<and> length i = 32 \<and> identityIdFromWallet c root = i
     \<and> (ed_verify c root signed sig = Some True
        \<or> (\<exists>cert. verifyDeviceCert c cert root = Some True \<and> dc_accountId cert = i \<and> toHex (dc_deviceId cert) = ch_device ch
             \<and> dc_issuedAt cert \<le> now \<and> now < dc_expiresAt cert \<and> ed_verify c (dc_signingKey cert) signed sig = Some True)))"

lemma without_auth_body: "without_auth (challenge_body ch a) =
    [(''audience'', JStr (ch_audience ch)), (''nonce'', JStr (ch_nonce ch)), (''deviceId'', JStr (ch_device ch))]"
  by (simp add: without_auth_def challenge_body_def jm_del_def)

lemma challenge_met_proved:
  assumes "challenge_met c ch frame now"
  shows "challenge_proved c ch now"
proof -
  obtain a v where v: "verifyIdentityAuthJson c (challenge_body ch a) ''relay.connect'' (Some (JStr (ch_identity ch))) now = Some v"
    "case vi_deviceId v of None \<Rightarrow> True | Some d \<Rightarrow> toHex d = ch_device ch"
    using assms by (auto simp: challenge_met_def split: option.splits)
  then obtain p i where p: "fromHex (ch_identity ch) = Some i"
    "verifyIdentityAuth c p ''relay.connect'' i (JObj (without_auth (challenge_body ch a))) now = Some v"
    by (auto simp: verifyIdentityAuthJson_def split: if_splits sum.splits option.splits simp del: jfield.simps)
  show ?thesis
  proof (cases "ip_certificate p")
    case None
    then show ?thesis
      using p unfolding challenge_proved_def without_auth_body
      by (intro exI [of _ i] exI [of _ "ip_rootPublicKey p"] exI [of _ "ip_signature p"])
         (auto simp: verifyIdentityAuth_def Let_def split: if_splits)
  next
    case (Some cert)
    note d = verifyIdentityAuthD [OF p(2) Some]
    have "vi_deviceId v = Some (dc_deviceId cert)"
      using p(2) Some by (auto simp: verifyIdentityAuth_def Let_def split: if_splits)
    then have "toHex (dc_deviceId cert) = ch_device ch" using v(2) by simp
    then show ?thesis
      using p(1) d unfolding challenge_proved_def without_auth_body Let_def
      by (intro exI [of _ i] exI [of _ "ip_rootPublicKey p"] exI [of _ "ip_signature p"] conjI disjI2 exI [of _ cert])
         (simp_all del: toHex_simps)
  qed
qed

section \<open>Traces of a relay\<close>

text \<open>
  Every socket is one object, \<open>sk\<close> of its number, and is opened at most once.
\<close>

definition opened :: "relay_event list \<Rightarrow> nat set" where
  "opened evs = {ws_raw ws | ws nonce. Open ws nonce \<in> set evs}"

definition socket_event :: "(nat \<Rightarrow> relay_socket) \<Rightarrow> relay_event list \<Rightarrow> relay_event \<Rightarrow> bool" where
  "socket_event sk evs e \<longleftrightarrow> event_socket e = sk (ws_raw (event_socket e))
     \<and> (\<forall>ws nonce. e = Open ws nonce \<longrightarrow> ws_raw ws \<notin> opened evs)"

text \<open>
  \<open>trace step sk s0 evs s outs\<close>: from \<open>s0\<close> the events \<open>evs\<close> lead to \<open>s\<close> and make the relay
  emit \<open>outs\<close>.
\<close>

inductive trace :: "(relay_event \<Rightarrow> 's \<Rightarrow> 's \<times> relay_out list) \<Rightarrow> (nat \<Rightarrow> relay_socket) \<Rightarrow> 's
    \<Rightarrow> relay_event list \<Rightarrow> 's \<Rightarrow> relay_out list \<Rightarrow> bool"
  for step sk s0 where
  trace_nil: "trace step sk s0 [] s0 []"
| trace_snoc: "trace step sk s0 evs s outs \<Longrightarrow> socket_event sk evs e \<Longrightarrow> step e s = (s', os)
    \<Longrightarrow> trace step sk s0 (evs @ [e]) s' (outs @ os)"

lemma opened_simps [simp]:
  "opened [] = {}"
  "opened (evs @ [e]) = opened evs \<union> (case e of Open ws _ \<Rightarrow> {ws_raw ws} | _ \<Rightarrow> {})"
  by (auto simp: opened_def split: relay_event.splits)

definition challenge_for :: "relay_socket \<Rightarrow> string \<Rightarrow> challenge" where
  "challenge_for ws nonce = \<lparr>ch_identity = ws_identity ws, ch_device = ws_device ws,
     ch_audience = (case ws_host ws of None \<Rightarrow> [] | Some h \<Rightarrow> h), ch_nonce = nonce\<rparr>"

text \<open>
  The socket \<open>r\<close> has proved the identity \<open>i\<close> in the trace: the relay challenged it when
  it opened, for this identity, and a later frame of the socket met the challenge.
\<close>

definition socket_proved :: "crypto \<Rightarrow> relay_event list \<Rightarrow> nat \<Rightarrow> string \<Rightarrow> bool" where
  "socket_proved c evs r i \<longleftrightarrow> (\<exists>pre ws nonce mid ws' frame ref now post.
     evs = pre @ [Open ws nonce] @ mid @ [Message ws' frame ref now] @ post
     \<and> ws_raw ws = r \<and> ws_raw ws' = r \<and> ws_identity ws = i \<and> challenge_proved c (challenge_for ws nonce) now)"

end
