(* ===== verification/Presence.thy ===== *)
theory Presence
  imports Relay_Wire
begin

text \<open>
  What a client learns of other identities' presence (\<open>packages/client/src/presence.ts\<close>). The
  events emitted on \<open>presence\<close> are returned as a list. \<open>floor_of\<close> gives the integral part
  of a fractional number from its text; such a number is at most an integral \<open>now\<close> exactly when
  its integral part is below it.
\<close>

record presence_update =
  pu_identityId :: string
  pu_online :: bool
  pu_expiresAt :: "jval option"

fun is_number :: "jval \<Rightarrow> bool" where
  "is_number (JNum _) = True"
| "is_number (JFrac _) = True"
| "is_number _ = False"

fun number_le :: "(string \<Rightarrow> int) \<Rightarrow> jval \<Rightarrow> int \<Rightarrow> bool" where
  "number_le floor_of (JNum n) now = (n \<le> now)"
| "number_le floor_of (JFrac s) now = (floor_of s < now)"
| "number_le floor_of _ now = False"

definition emitUpdate ::
  "(string \<Rightarrow> int) \<Rightarrow> int \<Rightarrow> jval option \<Rightarrow> jval option \<Rightarrow> jval option \<Rightarrow> presence_update list" where
  "emitUpdate floor_of now identityId status expiresAt =
     (case identityId of
        Some (JStr i) \<Rightarrow>
          (if status \<noteq> Some (JStr ''online'') \<and> status \<noteq> Some (JStr ''offline'') then []
           else if (case expiresAt of None \<Rightarrow> False | Some v \<Rightarrow> \<not> is_number v) then []
           else if status = Some (JStr ''online'') \<and> (case expiresAt of None \<Rightarrow> False | Some v \<Rightarrow> number_le floor_of v now) then []
           else [\<lparr>pu_identityId = i, pu_online = (status = Some (JStr ''online'')), pu_expiresAt = expiresAt\<rparr>])
      | _ \<Rightarrow> [])"

text \<open>\<open>Object.entries\<close> of an object, array or byte array.\<close>

fun object_entries :: "jval \<Rightarrow> (string \<times> jval) list" where
  "object_entries (JObj fs) = fs"
| "object_entries (JArr vs) = zip (map decimal [0..<length vs]) vs"
| "object_entries (JBytes b) = zip (map decimal [0..<length b]) (map (\<lambda>x. JNum (uint x)) b)"
| "object_entries _ = []"

text \<open>A property read with \<open>?.\<close>: of \<open>null\<close> and of a primitive it is \<open>undefined\<close>.\<close>

definition optional_field :: "jval \<Rightarrow> string \<Rightarrow> jval option" where
  "optional_field v k = (case object_fields v of None \<Rightarrow> None | Some fs \<Rightarrow> jfield fs k)"

definition consumePresenceMessage :: "(string \<Rightarrow> int) \<Rightarrow> int \<Rightarrow> jval option \<Rightarrow> presence_update list" where
  "consumePresenceMessage floor_of now data =
     (case Option.bind data object_fields of
        None \<Rightarrow> []
      | Some message \<Rightarrow>
          (let t = jfield message ''type''; leases = jfield message ''leases'' in
           if t = Some (JStr ''presence_snapshot'') \<and> Option.bind leases object_fields \<noteq> None
           then concat (map (\<lambda>(identityId, lease). emitUpdate floor_of now (Some (JStr identityId))
                  (optional_field lease ''status'') (optional_field lease ''expiresAt'')) (object_entries (the leases)))
           else if t = Some (JStr ''presence'') \<or> t = Some (JStr ''presence_update'')
           then emitUpdate floor_of now (jfield message ''identityId'') (jfield message ''status'') (jfield message ''expiresAt'')
           else []))"

section \<open>The view of a socket\<close>

text \<open>The identities a listener of \<open>presence\<close> holds online after an event.\<close>

definition apply_update :: "presence_update \<Rightarrow> string set \<Rightarrow> string set" where
  "apply_update u V = (if pu_online u then insert (pu_identityId u) V else V - {pu_identityId u})"

definition see_frame :: "(string \<Rightarrow> int) \<Rightarrow> int \<Rightarrow> (string \<times> jval) list \<Rightarrow> string set \<Rightarrow> string set" where
  "see_frame fl now f = fold apply_update (consumePresenceMessage fl now (Some (JObj f)))"

fun see :: "(string \<Rightarrow> int) \<Rightarrow> int \<Rightarrow> nat \<Rightarrow> relay_out \<Rightarrow> string set \<Rightarrow> string set" where
  "see fl now r (Send r' f) V = (if r' = r then see_frame fl now f V else V)"
| "see fl now r _ V = V"

definition presence_view :: "(string \<Rightarrow> int) \<Rightarrow> int \<Rightarrow> nat \<Rightarrow> relay_out list \<Rightarrow> string set \<Rightarrow> string set" where
  "presence_view fl now r outs = fold (see fl now r) outs"

lemma presence_view_simps [simp]:
  "presence_view fl now r [] V = V"
  "presence_view fl now r (out # outs) V = presence_view fl now r outs (see fl now r out V)"
  "presence_view fl now r (outs @ outs') V = presence_view fl now r outs' (presence_view fl now r outs V)"
  by (simp_all add: presence_view_def)

lemma see_frame_presence [simp]:
  "see_frame fl now (presence_notice i on) V = (if on then insert i V else V - {i})"
  by (simp add: see_frame_def presence_notice_def consumePresenceMessage_def emitUpdate_def object_fields_def apply_update_def)

lemma see_frame_snapshot [simp]: "see_frame fl now (snapshot_frame ids) V = V \<union> set ids"
proof -
  have "concat (map (\<lambda>(i, l). emitUpdate fl now (Some (JStr i)) (optional_field l ''status'') (optional_field l ''expiresAt''))
      (map (\<lambda>i. (i, JObj [(''status'', JStr ''online'')])) ids))
      = map (\<lambda>i. \<lparr>pu_identityId = i, pu_online = True, pu_expiresAt = None\<rparr>) ids"
    by (induction ids) (auto simp: emitUpdate_def optional_field_def object_fields_def)
  moreover have "fold apply_update (map (\<lambda>i. \<lparr>pu_identityId = i, pu_online = True, pu_expiresAt = None\<rparr>) ids) V = V \<union> set ids"
    by (induction ids arbitrary: V) (auto simp: apply_update_def)
  ultimately show ?thesis
    by (simp add: see_frame_def snapshot_frame_def online_leases_def consumePresenceMessage_def object_fields_def)
qed

lemma see_frame_other:
  "frame_type f \<notin> {Some (JStr ''presence_snapshot''), Some (JStr ''presence''), Some (JStr ''presence_update'')}
    \<Longrightarrow> see_frame fl now f V = V"
  by (auto simp: see_frame_def consumePresenceMessage_def object_fields_def frame_type_def simp del: jfield.simps)

lemma plain_frames_view:
  assumes "\<And>f. Send r f \<in> set outs \<Longrightarrow>
    frame_type f \<notin> {Some (JStr ''presence_snapshot''), Some (JStr ''presence''), Some (JStr ''presence_update'')}"
  shows "presence_view fl now r outs V = V"
  using assms
proof (induction outs arbitrary: V)
  case (Cons out outs)
  have "see fl now r out V = V" using Cons.prems by (cases out) (auto simp: see_frame_other)
  then show ?case using Cons by simp
qed simp

text \<open>A notification sent to a list of sockets.\<close>

lemma presence_view_notify:
  "presence_view fl now r (map (\<lambda>x. Send (g x) (presence_notice i on)) xs) V
     = (if r \<in> g ` set xs then (if on then insert i V else V - {i}) else V)"
  by (induction xs arbitrary: V) auto

text \<open>
  What the sockets see when a socket \<open>w\<close> takes over the identity \<open>i\<close>: the old connection is
  announced offline (where there was one), \<open>w\<close> gets a snapshot, and everyone the news.
\<close>

lemma join_view:
  assumes outs: "outs = old @ [Send w hello, Send w (snapshot_frame ids)] @ new"
    and old: "\<And>r V. presence_view fl now r old V = (if b \<and> (\<exists>j. (c(i := None)) j = Some r) then V - {i} else V)"
    and new: "\<And>r V. presence_view fl now r new V = (if \<exists>j. (c(i \<mapsto> w)) j = Some r then insert i V else V)"
    and hello: "frame_type hello \<notin> {Some (JStr ''presence_snapshot''), Some (JStr ''presence''), Some (JStr ''presence_update'')}"
    and ids: "set ids = dom (c(i \<mapsto> w))"
  shows "V \<subseteq> dom (c(i \<mapsto> w)) \<Longrightarrow> presence_view fl now w outs V = dom (c(i \<mapsto> w))"
    and "r \<noteq> w \<Longrightarrow> presence_view fl now r outs V = (if \<exists>j. (c(i \<mapsto> w)) j = Some r then insert i V else V)"
proof -
  have "\<exists>j. (c(i \<mapsto> w)) j = Some w" by (intro exI [of _ i]) simp
  then show "presence_view fl now w outs V = dom (c(i \<mapsto> w))" if "V \<subseteq> dom (c(i \<mapsto> w))"
    using that unfolding outs by (auto simp: old new see_frame_other [OF hello] ids)
  show "presence_view fl now r outs V = (if \<exists>j. (c(i \<mapsto> w)) j = Some r then insert i V else V)" if r: "r \<noteq> w"
  proof -
    have "(\<exists>j. (c(i \<mapsto> w)) j = Some r) \<longleftrightarrow> (\<exists>j. (c(i := None)) j = Some r)" using r by auto
    then show ?thesis using r unfolding outs by (auto simp: old new)
  qed
qed

end
