(* ===== verification/Relay.thy ===== *)
theory Relay
  imports Presence
begin

text \<open>
  The self-hosted relay (\<open>packages/relay-standalone/src/index.ts\<close>): its state, every
  message handler and the socket callbacks, each returning the new state and what is sent. The
  object \<open>sender\<close> of a handler is the one stored in \<open>clients\<close>, so that a change of its
  rooms is a change of that entry. Logging and the status page are left out.
\<close>

section \<open>State\<close>

record client_info =
  ci_identityId :: string
  ci_deviceId :: string
  ci_ws :: relay_socket
  ci_subscribedRooms :: "js_key list"
  ci_connectedAt :: int

record relay_state =
  rs_clients :: "(string, client_info) jmap"
  rs_roomSubscriptions :: "(js_key, string list) jmap"
  rs_pending :: "(nat, challenge) jmap"

definition new_relay :: relay_state where
  "new_relay = \<lparr>rs_clients = [], rs_roomSubscriptions = [], rs_pending = []\<rparr>"

definition send_client :: "client_info \<Rightarrow> (string \<times> jval) list \<Rightarrow> relay_out" where
  "send_client cl f = Send (ws_raw (ci_ws cl)) f"

section \<open>Presence and removal\<close>

definition notifyPresence :: "relay_state \<Rightarrow> string \<Rightarrow> bool \<Rightarrow> relay_out list" where
  "notifyPresence st identityId online = map (\<lambda>(_, cl). send_client cl (presence_notice identityId online)) (rs_clients st)"

text \<open>Leaving a room: the set of subscribers, dropped when it gets empty.\<close>

definition drop_subscriber :: "string \<Rightarrow> 'r \<Rightarrow> ('r, string list) jmap \<Rightarrow> ('r, string list) jmap" where
  "drop_subscriber identityId roomId subs =
     (case jm_get subs roomId of
        None \<Rightarrow> subs
      | Some xs \<Rightarrow>
          (let ys = set_delete identityId xs in
           if ys = [] then jm_del roomId subs else jm_set roomId ys subs))"

definition removeClient :: "client_info \<Rightarrow> relay_state \<Rightarrow> relay_state \<times> relay_out list" where
  "removeClient cl st =
     (let st1 = st\<lparr>rs_roomSubscriptions :=
            fold (drop_subscriber (ci_identityId cl)) (ci_subscribedRooms cl) (rs_roomSubscriptions st)\<rparr> in
      if jm_get (rs_clients st1) (ci_identityId cl) = Some cl then
        let st2 = st1\<lparr>rs_clients := jm_del (ci_identityId cl) (rs_clients st1)\<rparr> in
        (st2, notifyPresence st2 (ci_identityId cl) False)
      else (st1, []))"

section \<open>Authentication\<close>

definition handleAuth ::
  "crypto \<Rightarrow> int \<Rightarrow> relay_socket \<Rightarrow> challenge \<Rightarrow> jval option \<Rightarrow> relay_state \<Rightarrow> relay_state \<times> relay_out list" where
  "handleAuth c now ws pending frame st =
     (if \<not> challenge_met c pending frame now
      then (st, [SendError (ws_raw ws) AuthenticationFailed, CloseSocket (ws_raw ws)])
      else
        let st1 = st\<lparr>rs_pending := jm_del (ws_raw ws) (rs_pending st)\<rparr>;
            client = \<lparr>ci_identityId = ch_identity pending, ci_deviceId = ch_device pending, ci_ws = ws,
              ci_subscribedRooms = [], ci_connectedAt = now\<rparr>;
            (st2, out2) =
              (case jm_get (rs_clients st1) (ci_identityId client) of
                 None \<Rightarrow> (st1, [])
               | Some existing \<Rightarrow>
                   (let (st', out) = removeClient existing st1 in
                    (st', SendError (ws_raw (ci_ws existing)) ReplacedByNewConnection # out
                       @ [CloseSocket (ws_raw (ci_ws existing))])));
            st3 = st2\<lparr>rs_clients := jm_set (ci_identityId client) client (rs_clients st2)\<rparr> in
        (st3, out2 @ [send_client client [(''type'', JStr ''authenticated''), (''identity'', JStr (ci_identityId client)),
             (''relay_time'', JNum now)],
           send_client client (snapshot_frame (map fst (rs_clients st3)))]
           @ notifyPresence st3 (ci_identityId client) True))"

section \<open>Messages of an authenticated client\<close>

definition handleSignalling :: "client_info \<Rightarrow> (string \<times> jval) list \<Rightarrow> relay_state \<Rightarrow> relay_out list" where
  "handleSignalling sender msg st =
     (let targetId = jfield msg ''to'' in
      if \<not> truthy targetId then []
      else case string_key targetId (rs_clients st) of
        None \<Rightarrow> (if has_slice targetId then [SendError (ws_raw (ci_ws sender)) PeerNotOnline] else [Throws])
      | Some target \<Rightarrow> [send_client target (opt_field ''type'' (jfield msg ''type'')
          @ [(''from'', JStr (ci_identityId sender))] @ opt_field ''session_id'' (jfield msg ''session_id'')
          @ opt_field ''sdp'' (jfield msg ''sdp'') @ opt_field ''candidate'' (jfield msg ''candidate''))])"

text \<open>
  The last statement of \<open>handleRoomSubscribe\<close>, a log line, slices the room id; it throws, after
  the reply, when the id is not a string or an array.
\<close>

definition handleRoomSubscribe ::
  "client_info \<Rightarrow> (string \<times> jval) list \<Rightarrow> nat \<Rightarrow> relay_state \<Rightarrow> relay_state \<times> relay_out list" where
  "handleRoomSubscribe sender msg ref st =
     (let roomId = jfield msg ''room_id''; key = key_of ref roomId in
      if \<not> truthy roomId then (st, [])
      else
        let sender' = sender\<lparr>ci_subscribedRooms := set_add key (ci_subscribedRooms sender)\<rparr>;
            subscribers = jm_get_or (rs_roomSubscriptions st) key [] in
        (st\<lparr>rs_clients := jm_set (ci_identityId sender) sender' (rs_clients st),
            rs_roomSubscriptions := jm_set key (set_add (ci_identityId sender) subscribers) (rs_roomSubscriptions st)\<rparr>,
         send_client sender ([(''type'', JStr ''room_subscribed'')] @ opt_field ''room_id'' roomId)
           # (if has_slice roomId then [] else [Throws])))"

definition handleRoomUnsubscribe ::
  "client_info \<Rightarrow> (string \<times> jval) list \<Rightarrow> nat \<Rightarrow> relay_state \<Rightarrow> relay_state \<times> relay_out list" where
  "handleRoomUnsubscribe sender msg ref st =
     (let roomId = jfield msg ''room_id''; key = key_of ref roomId in
      if \<not> truthy roomId then (st, [])
      else
        let sender' = sender\<lparr>ci_subscribedRooms := set_delete key (ci_subscribedRooms sender)\<rparr> in
        (st\<lparr>rs_clients := jm_set (ci_identityId sender) sender' (rs_clients st),
            rs_roomSubscriptions := drop_subscriber (ci_identityId sender) key (rs_roomSubscriptions st)\<rparr>,
         [send_client sender ([(''type'', JStr ''room_unsubscribed'')] @ opt_field ''room_id'' roomId)]))"

definition handleRoomEvent :: "client_info \<Rightarrow> (string \<times> jval) list \<Rightarrow> nat \<Rightarrow> relay_state \<Rightarrow> relay_out list" where
  "handleRoomEvent sender msg ref st =
     (let roomId = jfield msg ''room_id'' in
      if \<not> truthy roomId then []
      else case jm_get (rs_roomSubscriptions st) (key_of ref roomId) of
        None \<Rightarrow> []
      | Some subscribers \<Rightarrow>
          (let payload = [(''type'', JStr ''room_event'')] @ opt_field ''room_id'' roomId
                 @ [(''from'', JStr (ci_identityId sender))] @ opt_field ''event'' (jfield msg ''event'') in
           concat (map (\<lambda>identityHex.
             if identityHex = ci_identityId sender then []
             else (case jm_get (rs_clients st) identityHex of None \<Rightarrow> [] | Some cl \<Rightarrow> [send_client cl payload])) subscribers)))"

definition handleDm :: "client_info \<Rightarrow> (string \<times> jval) list \<Rightarrow> relay_state \<Rightarrow> relay_out list" where
  "handleDm sender msg st =
     (let targetId = jfield msg ''to'' in
      if \<not> truthy targetId then []
      else case string_key targetId (rs_clients st) of
        None \<Rightarrow> (if has_slice targetId then [SendError (ws_raw (ci_ws sender)) RecipientNotOnline] else [Throws])
      | Some target \<Rightarrow> [send_client target ([(''type'', JStr ''dm''), (''from'', JStr (ci_identityId sender))]
          @ opt_field ''envelope'' (jfield msg ''envelope''))])"

definition handleDeliveryReceipt :: "client_info \<Rightarrow> (string \<times> jval) list \<Rightarrow> relay_state \<Rightarrow> relay_out list" where
  "handleDeliveryReceipt sender msg st =
     (let targetId = jfield msg ''to'' in
      case jfield msg ''receipt'' of
        None \<Rightarrow> []
      | Some receipt \<Rightarrow>
          (if \<not> truthy targetId \<or> object_fields receipt = None then []
           else case string_key targetId (rs_clients st) of
             None \<Rightarrow> []
           | Some target \<Rightarrow> [send_client target
               [(''type'', JStr ''delivery_receipt''), (''from'', JStr (ci_identityId sender)), (''receipt'', receipt)]]))"

definition handleMessage ::
  "client_info \<Rightarrow> jval option \<Rightarrow> nat \<Rightarrow> relay_state \<Rightarrow> relay_state \<times> relay_out list" where
  "handleMessage sender frame ref st =
     (case Option.bind frame object_fields of
        None \<Rightarrow> (st, [SendError (ws_raw (ci_ws sender)) InvalidJson])
      | Some msg \<Rightarrow>
          (let t = jfield msg ''type'' in
           if t = Some (JStr ''session_offer'') \<or> t = Some (JStr ''session_answer'') \<or> t = Some (JStr ''candidate'')
             then (st, handleSignalling sender msg st)
           else if t = Some (JStr ''room_subscribe'') then handleRoomSubscribe sender msg ref st
           else if t = Some (JStr ''room_unsubscribe'') then handleRoomUnsubscribe sender msg ref st
           else if t = Some (JStr ''room_event'') then (st, handleRoomEvent sender msg ref st)
           else if t = Some (JStr ''dm'') then (st, handleDm sender msg st)
           else if t = Some (JStr ''delivery_receipt'') then (st, handleDeliveryReceipt sender msg st)
           else if t = Some (JStr ''ping'') then (st, [send_client sender [(''type'', JStr ''pong'')]])
           else (st, [SendError (ws_raw (ci_ws sender)) UnknownType])))"

section \<open>Sockets\<close>

definition relay_open :: "relay_socket \<Rightarrow> string \<Rightarrow> relay_state \<Rightarrow> relay_state \<times> relay_out list" where
  "relay_open ws nonce st =
     (case ws_host ws of
        Some audience \<Rightarrow>
          (if \<not> id_hex (ws_identity ws) \<or> \<not> id_hex (ws_device ws) \<or> audience = []
           then (st, [SendError (ws_raw ws) BadRequest, CloseSocket (ws_raw ws)])
           else (st\<lparr>rs_pending := jm_set (ws_raw ws) \<lparr>ch_identity = ws_identity ws, ch_device = ws_device ws,
                   ch_audience = audience, ch_nonce = nonce\<rparr> (rs_pending st)\<rparr>,
                 [Send (ws_raw ws) [(''type'', JStr ''auth_challenge''), (''nonce'', JStr nonce)]]))
      | None \<Rightarrow> (st, [SendError (ws_raw ws) BadRequest, CloseSocket (ws_raw ws)]))"

definition own_client :: "relay_socket \<Rightarrow> relay_state \<Rightarrow> client_info option" where
  "own_client ws st =
     (case jm_get (rs_clients st) (ws_identity ws) of
        None \<Rightarrow> None
      | Some cl \<Rightarrow> (if ws_raw (ci_ws cl) = ws_raw ws then Some cl else None))"

definition relay_message ::
  "crypto \<Rightarrow> int \<Rightarrow> relay_socket \<Rightarrow> jval option \<Rightarrow> nat \<Rightarrow> relay_state \<Rightarrow> relay_state \<times> relay_out list" where
  "relay_message c now ws frame ref st =
     (case jm_get (rs_pending st) (ws_raw ws) of
        Some pending \<Rightarrow> handleAuth c now ws pending frame st
      | None \<Rightarrow> (case own_client ws st of None \<Rightarrow> (st, []) | Some cl \<Rightarrow> handleMessage cl frame ref st))"

definition relay_close :: "relay_socket \<Rightarrow> relay_state \<Rightarrow> relay_state \<times> relay_out list" where
  "relay_close ws st =
     (case jm_get (rs_pending st) (ws_raw ws) of
        Some _ \<Rightarrow> (st\<lparr>rs_pending := jm_del (ws_raw ws) (rs_pending st)\<rparr>, [])
      | None \<Rightarrow> (case own_client ws st of None \<Rightarrow> (st, []) | Some cl \<Rightarrow> removeClient cl st))"

text \<open>
  The timer runs from the challenge until it is cleared, which happens exactly where the pending
  entry goes; it only closes the socket.
\<close>

definition relay_timeout :: "relay_socket \<Rightarrow> relay_state \<Rightarrow> relay_state \<times> relay_out list" where
  "relay_timeout ws st = (st, if jm_has (rs_pending st) (ws_raw ws) then [CloseSocket (ws_raw ws)] else [])"

fun relay_step :: "crypto \<Rightarrow> relay_event \<Rightarrow> relay_state \<Rightarrow> relay_state \<times> relay_out list" where
  "relay_step c (Open ws nonce) st = relay_open ws nonce st"
| "relay_step c (Message ws frame ref now) st = relay_message c now ws frame ref st"
| "relay_step c (Closed ws) st = relay_close ws st"
| "relay_step c (Timeout ws) st = relay_timeout ws st"

text \<open>\<open>GET /online/:identityId\<close> (\<open>None\<close> is status 400) and the counts of \<open>GET /health\<close>.\<close>

definition relay_online :: "string \<Rightarrow> relay_state \<Rightarrow> bool option" where
  "relay_online identityId st = (if \<not> id_hex identityId then None else Some (jm_has (rs_clients st) identityId))"

definition relay_health :: "relay_state \<Rightarrow> nat \<times> nat" where
  "relay_health st = (jm_size (rs_clients st), jm_size (rs_roomSubscriptions st))"

end
