(* ===== verification/Worker_Relay.thy ===== *)
theory Worker_Relay
  imports Relay
begin

text \<open>
  The Durable Object of the hosted relay (\<open>workers/relay/src/index.ts\<close>), class
  \<open>RelaySession\<close>. An operation takes the object's state last; the names carry the class
  where the self-hosted relay has the same one. \<open>sendWs\<close> swallows the error of a dead
  socket, so that what is sent is only put on the wire. A message that is not a string is ignored
  and is no event. The routes of the fetch handler other than \<open>/ws\<close>, \<open>/online\<close> and
  \<open>/health\<close> are constants. The hibernation of the object, which loses the state and keeps the sockets,
  is no event: a run is the life of the object in memory. A frame on a socket the object does not know,
  as one is left after hibernation, is refused and the socket closed.
\<close>

section \<open>State\<close>

record connection_entry =
  ce_ws :: nat
  ce_identity :: string
  ce_device :: string
  ce_rooms :: "js_key list"

record relay_session =
  se_connections :: "(string, connection_entry) jmap"
  se_roomSubscriptions :: "(js_key, string list) jmap"
  se_pending :: "(nat, challenge) jmap"
  se_socketIdentity :: "(nat, string) jmap"

definition new_session :: relay_session where
  "new_session = \<lparr>se_connections = [], se_roomSubscriptions = [], se_pending = [], se_socketIdentity = []\<rparr>"

section \<open>Presence and removal\<close>

definition session_notifyPresence :: "relay_session \<Rightarrow> string \<Rightarrow> bool \<Rightarrow> relay_out list" where
  "session_notifyPresence s identityId online =
     map (\<lambda>(_, e). Send (ce_ws e) (presence_notice identityId online)) (se_connections s)"

definition removeConnection :: "string \<Rightarrow> relay_session \<Rightarrow> relay_session \<times> relay_out list" where
  "removeConnection identity s =
     (case jm_get (se_connections s) identity of
        None \<Rightarrow> (s, [])
      | Some entry \<Rightarrow>
          (let s1 = s\<lparr>se_roomSubscriptions := fold (drop_subscriber identity) (ce_rooms entry) (se_roomSubscriptions s),
                 se_connections := jm_del identity (se_connections s)\<rparr> in
           (s1, session_notifyPresence s1 identity False)))"

definition rejectAuth :: "nat \<Rightarrow> relay_error \<Rightarrow> relay_session \<Rightarrow> relay_session \<times> relay_out list" where
  "rejectAuth ws message s = (s\<lparr>se_pending := jm_del ws (se_pending s)\<rparr>, [SendError ws message, CloseSocket ws])"

definition dropSocket :: "nat \<Rightarrow> relay_session \<Rightarrow> relay_session \<times> relay_out list" where
  "dropSocket ws s =
     (let s1 = s\<lparr>se_pending := jm_del ws (se_pending s)\<rparr>;
          identity = jm_get (se_socketIdentity s1) ws;
          s2 = s1\<lparr>se_socketIdentity := jm_del ws (se_socketIdentity s1)\<rparr> in
      case identity of
        None \<Rightarrow> (s2, [])
      | Some i \<Rightarrow>
          (if i \<noteq> [] \<and> map_option ce_ws (jm_get (se_connections s2) i) = Some ws then removeConnection i s2 else (s2, [])))"

section \<open>Authentication\<close>

definition session_handleAuth ::
  "crypto \<Rightarrow> int \<Rightarrow> nat \<Rightarrow> challenge \<Rightarrow> jval option \<Rightarrow> relay_session \<Rightarrow> relay_session \<times> relay_out list" where
  "session_handleAuth c now ws pending frame s =
     (if \<not> challenge_met c pending frame now then rejectAuth ws AuthenticationFailed s
      else
        let s1 = s\<lparr>se_pending := jm_del ws (se_pending s)\<rparr>;
            identity = ch_identity pending;
            (s2, out2) =
              (case jm_get (se_connections s1) identity of
                 None \<Rightarrow> (s1, [])
               | Some existing \<Rightarrow>
                   (let (s', out) = removeConnection identity s1 in
                    (s'\<lparr>se_socketIdentity := jm_del (ce_ws existing) (se_socketIdentity s')\<rparr>,
                     SendError (ce_ws existing) ReplacedByNewConnection # out @ [CloseSocket (ce_ws existing)])));
            s3 = s2\<lparr>se_connections := jm_set identity
                     \<lparr>ce_ws = ws, ce_identity = identity, ce_device = ch_device pending, ce_rooms = []\<rparr> (se_connections s2),
                   se_socketIdentity := jm_set ws identity (se_socketIdentity s2)\<rparr> in
        (s3, out2 @ [Send ws [(''type'', JStr ''authenticated''), (''identity'', JStr identity)],
           Send ws (snapshot_frame (map fst (se_connections s3)))] @ session_notifyPresence s3 identity True))"

section \<open>Forwarding and rooms\<close>

definition forwardDm :: "string \<Rightarrow> (string \<times> jval) list \<Rightarrow> relay_session \<Rightarrow> relay_out list" where
  "forwardDm senderIdentity msg s =
     (case string_key (jfield msg ''to'') (se_connections s) of
        None \<Rightarrow> []
      | Some target \<Rightarrow> [Send (ce_ws target) ([(''type'', JStr ''dm''), (''from'', JStr senderIdentity)]
          @ opt_field ''envelope'' (jfield msg ''envelope''))])"

definition forwardReceipt :: "string \<Rightarrow> (string \<times> jval) list \<Rightarrow> relay_session \<Rightarrow> relay_out list" where
  "forwardReceipt senderIdentity msg s =
     (case string_key (jfield msg ''to'') (se_connections s) of
        None \<Rightarrow> []
      | Some target \<Rightarrow> [Send (ce_ws target) ([(''type'', JStr ''delivery_receipt''), (''from'', JStr senderIdentity)]
          @ opt_field ''receipt'' (jfield msg ''receipt''))])"

definition forwardSignaling :: "string \<Rightarrow> (string \<times> jval) list \<Rightarrow> relay_session \<Rightarrow> relay_out list" where
  "forwardSignaling senderIdentity msg s =
     (case string_key (jfield msg ''to'') (se_connections s) of
        None \<Rightarrow> []
      | Some target \<Rightarrow> [Send (ce_ws target) (jm_set ''from'' (JStr senderIdentity) msg)])"

definition subscribeRoom :: "string \<Rightarrow> js_key \<Rightarrow> relay_session \<Rightarrow> relay_session" where
  "subscribeRoom identity roomId s =
     (case jm_get (se_connections s) identity of
        None \<Rightarrow> s
      | Some entry \<Rightarrow> s\<lparr>
          se_connections := jm_set identity (entry\<lparr>ce_rooms := set_add roomId (ce_rooms entry)\<rparr>) (se_connections s),
          se_roomSubscriptions := jm_set roomId (set_add identity (jm_get_or (se_roomSubscriptions s) roomId []))
            (se_roomSubscriptions s)\<rparr>)"

definition unsubscribeRoom :: "string \<Rightarrow> js_key \<Rightarrow> relay_session \<Rightarrow> relay_session" where
  "unsubscribeRoom identity roomId s =
     (let s1 = (case jm_get (se_connections s) identity of
            None \<Rightarrow> s
          | Some entry \<Rightarrow> s\<lparr>se_connections :=
              jm_set identity (entry\<lparr>ce_rooms := set_delete roomId (ce_rooms entry)\<rparr>) (se_connections s)\<rparr>) in
      s1\<lparr>se_roomSubscriptions := drop_subscriber identity roomId (se_roomSubscriptions s1)\<rparr>)"

definition broadcastRoomEvent :: "string \<Rightarrow> (string \<times> jval) list \<Rightarrow> nat \<Rightarrow> relay_session \<Rightarrow> relay_out list" where
  "broadcastRoomEvent senderIdentity msg ref s =
     (case jm_get (se_roomSubscriptions s) (key_of ref (jfield msg ''room_id'')) of
        None \<Rightarrow> []
      | Some subs \<Rightarrow>
          concat (map (\<lambda>identity.
            if identity = senderIdentity then []
            else (case jm_get (se_connections s) identity of None \<Rightarrow> [] | Some entry \<Rightarrow> [Send (ce_ws entry) msg])) subs))"

section \<open>Sockets\<close>

text \<open>
  The upgrade request: \<open>ws_identity\<close> and \<open>ws_device\<close> are the query parameters (a missing one
  is the empty string), \<open>ws_host\<close> the host of the URL. \<open>None\<close> is status 400, without a
  socket.
\<close>

definition handleWebSocketUpgrade :: "relay_socket \<Rightarrow> string \<Rightarrow> relay_session \<Rightarrow> (relay_session \<times> relay_out list) option" where
  "handleWebSocketUpgrade ws nonce s =
     (if ws_identity ws = [] \<or> ws_device ws = [] \<or> \<not> id_hex (ws_identity ws) \<or> \<not> id_hex (ws_device ws) then None
      else Some (s\<lparr>se_pending := jm_set (ws_raw ws) \<lparr>ch_identity = ws_identity ws, ch_device = ws_device ws,
               ch_audience = (case ws_host ws of None \<Rightarrow> [] | Some h \<Rightarrow> h), ch_nonce = nonce\<rparr> (se_pending s)\<rparr>,
             [Send (ws_raw ws) [(''type'', JStr ''auth_challenge''), (''nonce'', JStr nonce)]]))"

text \<open>The dispatch on \<open>msg.type\<close>; other types, and arrays, are ignored.\<close>

definition session_dispatch ::
  "string \<Rightarrow> (string \<times> jval) list \<Rightarrow> nat \<Rightarrow> relay_session \<Rightarrow> relay_session \<times> relay_out list" where
  "session_dispatch senderIdentity msg ref s =
     (let t = jfield msg ''type'' in
      if t = Some (JStr ''session_offer'') \<or> t = Some (JStr ''session_answer'') \<or> t = Some (JStr ''candidate'')
        then (s, forwardSignaling senderIdentity msg s)
      else if t = Some (JStr ''dm'') then (s, forwardDm senderIdentity msg s)
      else if t = Some (JStr ''delivery_receipt'') then (s, forwardReceipt senderIdentity msg s)
      else if t = Some (JStr ''room_subscribe'') then (subscribeRoom senderIdentity (key_of ref (jfield msg ''room_id'')) s, [])
      else if t = Some (JStr ''room_unsubscribe'') then (unsubscribeRoom senderIdentity (key_of ref (jfield msg ''room_id'')) s, [])
      else if t = Some (JStr ''room_event'') then (s, broadcastRoomEvent senderIdentity msg ref s)
      else (s, []))"

text \<open>A frame that does not parse, or is no object, is replaced by \<open>{ type: "invalid" }\<close>.\<close>

definition parsed_message :: "jval option \<Rightarrow> (string \<times> jval) list" where
  "parsed_message frame =
     (case Option.bind frame object_fields of None \<Rightarrow> [(''type'', JStr ''invalid'')] | Some msg \<Rightarrow> msg)"

definition webSocketMessage ::
  "crypto \<Rightarrow> int \<Rightarrow> nat \<Rightarrow> jval option \<Rightarrow> nat \<Rightarrow> relay_session \<Rightarrow> relay_session \<times> relay_out list" where
  "webSocketMessage c now ws frame ref s =
     (case jm_get (se_pending s) ws of
        Some pending \<Rightarrow> session_handleAuth c now ws pending frame s
      | None \<Rightarrow>
          (case jm_get (se_socketIdentity s) ws of
             None \<Rightarrow> rejectAuth ws NotAuthenticated s
           | Some senderIdentity \<Rightarrow>
               (if senderIdentity = [] \<or> map_option ce_ws (jm_get (se_connections s) senderIdentity) \<noteq> Some ws
                then rejectAuth ws NotAuthenticated s
                else let msg = parsed_message frame in
                  if jfield msg ''type'' = Some (JStr ''invalid'') then (s, [SendError ws InvalidJson])
                  else session_dispatch senderIdentity msg ref s)))"

fun session_step :: "crypto \<Rightarrow> relay_event \<Rightarrow> relay_session \<Rightarrow> relay_session \<times> relay_out list" where
  "session_step c (Open ws nonce) s = (case handleWebSocketUpgrade ws nonce s of None \<Rightarrow> (s, []) | Some r \<Rightarrow> r)"
| "session_step c (Message ws frame ref now) s = webSocketMessage c now (ws_raw ws) frame ref s"
| "session_step c (Closed ws) s = dropSocket (ws_raw ws) s"
| "session_step c (Timeout ws) s =
     (if jm_has (se_pending s) (ws_raw ws) then rejectAuth (ws_raw ws) AuthenticationTimeout s else (s, []))"

text \<open>\<open>/online/<identity>\<close> (\<open>None\<close> is status 400) and \<open>/status\<close> of the object.\<close>

definition session_online :: "string \<Rightarrow> relay_session \<Rightarrow> bool option" where
  "session_online identityId s = (if \<not> id_hex identityId then None else Some (jm_has (se_connections s) identityId))"

definition session_status :: "relay_session \<Rightarrow> nat \<times> nat" where
  "session_status s = (jm_size (se_connections s), jm_size (se_roomSubscriptions s))"

end
