(* ===== verification/Relay_Contract.thy ===== *)
theory Relay_Contract
  imports Presence
begin

text \<open>
  The contract of a relay, as far as its clients depend on it, stated over what can be observed of
  its state: the socket an identity is routed to, the challenge a socket has still to answer. The
  theorems on the origin of forwarded messages, on presence and on closed sockets are proved here
  once; both relays interpret the locale.
\<close>

locale relay_service =
  fixes c :: crypto
    and step :: "relay_event \<Rightarrow> 's \<Rightarrow> 's \<times> relay_out list"
    and init :: 's
    and ok :: "(nat \<Rightarrow> relay_socket) \<Rightarrow> 's \<Rightarrow> bool"
    and conn :: "'s \<Rightarrow> string \<Rightarrow> nat option"
    and waiting :: "'s \<Rightarrow> nat \<Rightarrow> challenge option"
    and trusted :: "(string \<times> jval) list \<Rightarrow> bool"
  assumes ok_init: "ok sk init"
    and conn_init: "conn init i = None"
    and waiting_init: "waiting init r = None"
    and ok_step: "ok sk s \<Longrightarrow> event_socket e = sk (ws_raw (event_socket e))
      \<Longrightarrow> (\<And>ws nonce. e = Open ws nonce \<Longrightarrow> waiting s (ws_raw ws) = None \<and> (\<forall>i. conn s i \<noteq> Some (ws_raw ws)))
      \<Longrightarrow> ok sk (fst (step e s))"
    and exclusive: "ok sk s \<Longrightarrow> waiting s r \<noteq> None \<Longrightarrow> conn s i \<noteq> Some r"
    and conn_step: "ok sk s \<Longrightarrow> conn (fst (step e s)) i = Some r \<Longrightarrow> conn s i = Some r
      \<or> (\<exists>ws frame ref now ch. e = Message ws frame ref now \<and> ws_raw ws = r \<and> waiting s r = Some ch
           \<and> ch_identity ch = i \<and> challenge_met c ch frame now)"
    and waiting_step: "ok sk s \<Longrightarrow> waiting (fst (step e s)) r = Some ch \<Longrightarrow> waiting s r = Some ch
      \<or> (\<exists>ws nonce. e = Open ws nonce \<and> ws_raw ws = r \<and> ch = challenge_for ws nonce)"
    and closed: "ok sk s \<Longrightarrow> ws = sk (ws_raw ws) \<Longrightarrow> conn (fst (step (Closed ws) s)) i \<noteq> Some (ws_raw ws)
      \<and> waiting (fst (step (Closed ws) s)) (ws_raw ws) = None"
    and forwarded: "ok sk s \<Longrightarrow> Send r f \<in> set (snd (step e s)) \<Longrightarrow> frame_from f = Some v \<Longrightarrow> trusted f
      \<Longrightarrow> \<exists>ws frame ref now i. e = Message ws frame ref now \<and> conn s i = Some (ws_raw ws) \<and> v = JStr i"
    and presence_kept: "ok sk s \<Longrightarrow> conn s i = Some r \<Longrightarrow> conn (fst (step e s)) i = Some r
      \<Longrightarrow> presence_view fl now r (snd (step e s)) (dom (conn s)) = dom (conn (fst (step e s)))"
    and presence_new: "ok sk s \<Longrightarrow> waiting s r \<noteq> None \<Longrightarrow> conn (fst (step e s)) i = Some r
      \<Longrightarrow> presence_view fl now r (snd (step e s)) {} = dom (conn (fst (step e s)))"
    and presence_silent: "ok sk s \<Longrightarrow> (\<And>i. conn (fst (step e s)) i \<noteq> Some r)
      \<Longrightarrow> presence_view fl now r (snd (step e s)) V = V"
    and sent_to: "ok sk s \<Longrightarrow> Send r f \<in> set (snd (step e s)) \<Longrightarrow> (\<exists>i. conn (fst (step e s)) i = Some r)
      \<or> (\<exists>ws nonce. e = Open ws nonce \<and> ws_raw ws = r)"
begin

lemma trace_facts:
  assumes "trace step sk init evs s outs"
  shows "ok sk s \<and> (\<forall>r. waiting s r \<noteq> None \<or> (\<exists>i. conn s i = Some r) \<longrightarrow> r \<in> opened evs)"
  using assms
proof induction
  case trace_nil
  show ?case by (simp add: ok_init conn_init waiting_init)
next
  case (trace_snoc evs s outs e s' os)
  note s' = arg_cong [OF trace_snoc(3), of fst, simplified]
  have ok: "ok sk s" using trace_snoc.IH by simp
  have fresh: "waiting s (ws_raw ws) = None \<and> (\<forall>i. conn s i \<noteq> Some (ws_raw ws))" if "e = Open ws nonce" for ws nonce
    using trace_snoc.hyps(2) trace_snoc.IH that unfolding socket_event_def by blast
  have sock: "event_socket e = sk (ws_raw (event_socket e))" using trace_snoc.hyps(2) by (simp add: socket_event_def)
  have "ok sk s'" using ok_step [OF ok sock fresh] s' by simp
  moreover have "r \<in> opened (evs @ [e])" if "waiting s' r \<noteq> None \<or> (\<exists>i. conn s' i = Some r)" for r
  proof -
    consider ch where "waiting s' r = Some ch" | i where "conn s' i = Some r" using \<open>waiting s' r \<noteq> None \<or> _\<close> by blast
    then show ?thesis
    proof cases
      case 1
      then show ?thesis using waiting_step [OF ok 1 [folded s']] trace_snoc.IH by auto
    next
      case 2
      then show ?thesis using conn_step [OF ok 2 [folded s']] trace_snoc.IH by auto
    qed
  qed
  ultimately show ?case by blast
qed

lemma socket_proved_snoc: "socket_proved c evs r i \<Longrightarrow> socket_proved c (evs @ [e]) r i"
  unfolding socket_proved_def by (metis append.assoc)

lemma waiting_opened:
  assumes "trace step sk init evs s outs" "waiting s r = Some ch"
  shows "\<exists>pre ws nonce mid. evs = pre @ [Open ws nonce] @ mid \<and> ws_raw ws = r \<and> ch = challenge_for ws nonce"
  using assms
proof (induction arbitrary: ch)
  case trace_nil
  then show ?case by (simp add: waiting_init)
next
  case (trace_snoc evs s outs e s' os)
  have ok: "ok sk s" using trace_facts [OF trace_snoc.hyps(1)] by simp
  have "waiting (fst (step e s)) r = Some ch" using trace_snoc.prems trace_snoc.hyps(3) by simp
  from waiting_step [OF ok this] show ?case
  proof
    assume "waiting s r = Some ch"
    then obtain pre ws nonce mid where
      "evs = pre @ [Open ws nonce] @ mid" "ws_raw ws = r" "ch = challenge_for ws nonce"
      using trace_snoc.IH by blast
    then show ?thesis by (intro exI [of _ pre] exI [of _ ws] exI [of _ nonce] exI [of _ "mid @ [e]"]) simp
  next
    assume "\<exists>ws nonce. e = Open ws nonce \<and> ws_raw ws = r \<and> ch = challenge_for ws nonce"
    then show ?thesis by auto
  qed
qed

lemma routed_proved:
  assumes "trace step sk init evs s outs" "conn s i = Some r"
  shows "socket_proved c evs r i"
  using assms
proof (induction arbitrary: i)
  case trace_nil
  then show ?case by (simp add: conn_init)
next
  case (trace_snoc evs s outs e s' os)
  have ok: "ok sk s" using trace_facts [OF trace_snoc.hyps(1)] by simp
  have "conn (fst (step e s)) i = Some r" using trace_snoc.prems trace_snoc.hyps(3) by simp
  from conn_step [OF ok this] show ?case
  proof
    assume "conn s i = Some r"
    then show ?thesis using trace_snoc.IH socket_proved_snoc by blast
  next
    assume "\<exists>ws frame ref now ch. e = Message ws frame ref now \<and> ws_raw ws = r \<and> waiting s r = Some ch
      \<and> ch_identity ch = i \<and> challenge_met c ch frame now"
    then obtain ws frame ref now ch where m: "e = Message ws frame ref now" "ws_raw ws = r" "waiting s r = Some ch"
      "ch_identity ch = i" "challenge_met c ch frame now" by blast
    obtain pre w nonce mid where o: "evs = pre @ [Open w nonce] @ mid" "ws_raw w = r" "ch = challenge_for w nonce"
      using waiting_opened [OF trace_snoc.hyps(1) m(3)] by blast
    have "ws_identity w = i" using m(4) o(3) by (simp add: challenge_for_def)
    then show ?thesis
      unfolding socket_proved_def using m o challenge_met_proved [OF m(5)]
      by (intro exI [of _ pre] exI [of _ w] exI [of _ nonce] exI [of _ mid] exI [of _ ws] exI [of _ frame] exI [of _ ref]
          exI [of _ now] exI [of _ "[]"]) simp
  qed
qed

lemma forwarded_proved:
  assumes "trace step sk init evs s outs" "Send r f \<in> set (snd (step e s))" "frame_from f = Some v" "trusted f"
  shows "\<exists>ws frame ref now i. e = Message ws frame ref now \<and> v = JStr i \<and> conn s i = Some (ws_raw ws)
    \<and> socket_proved c evs (ws_raw ws) i"
proof -
  obtain ws frame ref now i where "e = Message ws frame ref now" "conn s i = Some (ws_raw ws)" "v = JStr i"
    using forwarded [OF conjunct1 [OF trace_facts [OF assms(1)]] assms(2-4)] by blast
  then show ?thesis using routed_proved [OF assms(1)] by blast
qed

lemma view_facts:
  assumes "trace step sk init evs s outs"
  shows "(\<forall>r. waiting s r \<noteq> None \<or> r \<notin> opened evs \<longrightarrow> presence_view fl now r outs {} = {})
    \<and> (\<forall>i r. conn s i = Some r \<longrightarrow> presence_view fl now r outs {} = dom (conn s))"
  using assms
proof induction
  case trace_nil
  show ?case by (simp add: conn_init)
next
  case (trace_snoc evs s outs e s' os)
  have ok: "ok sk s" and op: "\<And>r i. waiting s r \<noteq> None \<or> conn s i = Some r \<Longrightarrow> r \<in> opened evs"
    using trace_facts [OF trace_snoc.hyps(1)] by blast+
  have tr': "trace step sk init (evs @ [e]) s' (outs @ os)" by (rule trace.trace_snoc) (fact trace_snoc)+
  have ok': "ok sk s'" and op': "\<And>r i. conn s' i = Some r \<Longrightarrow> r \<in> opened (evs @ [e])"
    using trace_facts [OF tr'] by blast+
  have s': "s' = fst (step e s)" and os: "os = snd (step e s)" using trace_snoc.hyps(3) by simp_all
  have "presence_view fl now r (outs @ os) {} = {}" if r: "waiting s' r \<noteq> None \<or> r \<notin> opened (evs @ [e])" for r
  proof -
    have "conn s' i \<noteq> Some r" for i using r exclusive [OF ok'] op' by blast
    then have silent: "presence_view fl now r os V = V" for V unfolding s' os by (intro presence_silent [OF ok])
    have "waiting s r \<noteq> None \<or> r \<notin> opened evs"
    proof (cases "waiting s' r")
      case None
      then show ?thesis using r by auto
    next
      case (Some ch)
      then show ?thesis
        using waiting_step [OF ok Some [unfolded s']] trace_snoc.hyps(2) by (auto simp: socket_event_def)
    qed
    then have "presence_view fl now r outs {} = {}" using trace_snoc.IH by blast
    then show ?thesis using silent by simp
  qed
  moreover have "presence_view fl now r (outs @ os) {} = dom (conn s')" if i: "conn s' i = Some r" for i r
  proof (cases "conn s i = Some r")
    case True
    then show ?thesis
      using presence_kept [OF ok True i [unfolded s']] trace_snoc.IH s' os by simp
  next
    case False
    then have w: "waiting s r \<noteq> None" using conn_step [OF ok i [unfolded s']] by auto
    then have "presence_view fl now r outs {} = {}" using trace_snoc.IH by blast
    then show ?thesis using presence_new [OF ok w i [unfolded s']] s' os by simp
  qed
  ultimately show ?case by blast
qed

text \<open>A socket that was opened and has closed gets nothing any more.\<close>

lemma closed_dead:
  assumes "trace step sk init evs s outs" "evs = pre @ [Closed ws] @ post" "ws_raw ws \<in> opened pre"
  shows "conn s i \<noteq> Some (ws_raw ws) \<and> waiting s (ws_raw ws) = None"
  using assms
proof (induction arbitrary: post i)
  case (trace_snoc evs s outs e s' os)
  have ok: "ok sk s" using trace_facts [OF trace_snoc.hyps(1)] by simp
  have s': "s' = fst (step e s)" using trace_snoc.hyps(3) by simp
  show ?case
  proof (cases post rule: rev_cases)
    case Nil
    then have "e = Closed ws" using trace_snoc.prems(1) by simp
    then show ?thesis using closed [OF ok] trace_snoc.hyps(2) unfolding s' by (auto simp: socket_event_def)
  next
    case (snoc post' e')
    then have evs: "evs = pre @ [Closed ws] @ post'" "e = e'" using trace_snoc.prems(1) by auto
    have "ws_raw ws \<in> opened evs" using trace_snoc.prems(2) evs(1) by (auto simp: opened_def)
    then have new: "e = Open w n \<Longrightarrow> ws_raw w \<noteq> ws_raw ws" for w n
      using trace_snoc.hyps(2) by (auto simp: socket_event_def)
    have dead: "conn s i \<noteq> Some (ws_raw ws)" "waiting s (ws_raw ws) = None" for i
      using trace_snoc.IH [OF evs(1) trace_snoc.prems(2)] by auto
    have "conn s' i \<noteq> Some (ws_raw ws)" using conn_step [OF ok, of e i "ws_raw ws"] dead unfolding s' by auto
    moreover have "waiting s' (ws_raw ws) = None"
    proof (cases "waiting s' (ws_raw ws)")
      case (Some ch)
      from waiting_step [OF ok Some [unfolded s']] dead(2) new show ?thesis by auto
    qed simp
    ultimately show ?thesis by simp
  qed
qed simp

lemma closed_silent:
  assumes "trace step sk init evs s outs" "evs = pre @ [Closed ws] @ post" "ws_raw ws \<in> opened pre" "socket_event sk evs e"
  shows "Send (ws_raw ws) f \<notin> set (snd (step e s))"
proof
  assume sent: "Send (ws_raw ws) f \<in> set (snd (step e s))"
  have ok: "ok sk s" using trace_facts [OF assms(1)] by simp
  obtain s' os where step: "step e s = (s', os)" by (cases "step e s")
  have tr: "trace step sk init (evs @ [e]) s' (outs @ os)" by (rule trace.trace_snoc [OF assms(1,4) step])
  have evs: "evs @ [e] = pre @ [Closed ws] @ (post @ [e])" using assms(2) by simp
  have "ws_raw ws \<in> opened evs" using assms(2,3) by (auto simp: opened_def)
  then show False
    using sent_to [OF ok sent] closed_dead [OF tr evs assms(3)] assms(4) step by (auto simp: socket_event_def)
qed

end

end
