(* ===== verification/Relay_Inv.thy ===== *)
theory Relay_Inv
  imports Relay Relay_Contract
begin

text \<open>
  The invariant of the self-hosted relay, what its handlers send, and the proof that it keeps the
  contract of \<open>Relay_Contract\<close>. The lemmas on room subscriptions serve the hosted relay too.
\<close>

section \<open>Subscriptions\<close>

text \<open>
  \<open>rooms_ok members subs\<close>: the table of subscribers holds exactly the rooms each connected
  identity has on its own list, without repetition, and no empty set is kept.
\<close>

definition rooms_ok :: "(string \<Rightarrow> 'r list option) \<Rightarrow> ('r, string list) jmap \<Rightarrow> bool" where
  "rooms_ok members subs \<longleftrightarrow> jm_ok subs
     \<and> (\<forall>r xs. jm_get subs r = Some xs \<longrightarrow> xs \<noteq> [] \<and> distinct xs)
     \<and> (\<forall>r i. i \<in> set (jm_get_or subs r []) \<longleftrightarrow> (\<exists>rs. members i = Some rs \<and> r \<in> set rs))"

lemma get_drop_subscriber:
  "jm_get_or (drop_subscriber i r subs) r' [] = (if r' = r then set_delete i (jm_get_or subs r []) else jm_get_or subs r' [])"
  by (auto simp: drop_subscriber_def jm_get_or_def jm_simps Let_def set_delete_def split: option.splits)

lemma drop_subscriber_ok:
  assumes "jm_ok subs" "\<forall>r xs. jm_get subs r = Some xs \<longrightarrow> xs \<noteq> [] \<and> distinct xs"
  shows "jm_ok (drop_subscriber i r subs)"
    "\<forall>r' xs. jm_get (drop_subscriber i r subs) r' = Some xs \<longrightarrow> xs \<noteq> [] \<and> distinct xs"
  using assms by (auto simp: drop_subscriber_def jm_simps Let_def split: option.splits if_splits)

lemma rooms_ok_subscribe:
  assumes "rooms_ok members subs" "members i = Some rs"
  shows "rooms_ok (members(i \<mapsto> set_add r rs)) (jm_set r (set_add i (jm_get_or subs r [])) subs)"
proof -
  have d: "distinct (jm_get_or subs r [])"
    using assms(1) by (auto simp: rooms_ok_def jm_get_or_def split: option.split)
  show ?thesis
    using assms d unfolding rooms_ok_def
    by (auto simp: jm_simps jm_get_or_set split: if_splits)
qed

lemma rooms_ok_unsubscribe:
  assumes "rooms_ok members subs" "members i = Some rs"
  shows "rooms_ok (members(i \<mapsto> set_delete r rs)) (drop_subscriber i r subs)"
  using assms drop_subscriber_ok [of subs i r] unfolding rooms_ok_def
  by (auto simp: get_drop_subscriber)

lemma rooms_ok_connect: "rooms_ok members subs \<Longrightarrow> members i = None \<Longrightarrow> rooms_ok (members(i \<mapsto> [])) subs"
  unfolding rooms_ok_def by auto

lemma fold_drop_subscriber:
  assumes "jm_ok subs" "\<forall>r xs. jm_get subs r = Some xs \<longrightarrow> xs \<noteq> [] \<and> distinct xs"
  shows "jm_ok (fold (drop_subscriber i) rs subs)
    \<and> (\<forall>r xs. jm_get (fold (drop_subscriber i) rs subs) r = Some xs \<longrightarrow> xs \<noteq> [] \<and> distinct xs)
    \<and> (\<forall>r. set (jm_get_or (fold (drop_subscriber i) rs subs) r [])
         = (if r \<in> set rs then set (jm_get_or subs r []) - {i} else set (jm_get_or subs r [])))"
  using assms
proof (induction rs arbitrary: subs)
  case (Cons r rs)
  from Cons.IH [OF drop_subscriber_ok [OF Cons.prems, of i r]] show ?case
    by (auto simp: get_drop_subscriber)
qed simp

lemma rooms_ok_remove:
  assumes "rooms_ok members subs" "members i = Some rs"
  shows "rooms_ok (members(i := None)) (fold (drop_subscriber i) rs subs)"
proof -
  have "jm_ok subs" "\<forall>r xs. jm_get subs r = Some xs \<longrightarrow> xs \<noteq> [] \<and> distinct xs" using assms(1) by (auto simp: rooms_ok_def)
  note f = fold_drop_subscriber [OF this, of i rs]
  have "j \<in> set (jm_get_or (fold (drop_subscriber i) rs subs) r []) \<longleftrightarrow> (\<exists>rs'. (members(i := None)) j = Some rs' \<and> r \<in> set rs')"
    for r j
  proof -
    have "j \<in> set (jm_get_or subs r []) \<longleftrightarrow> (\<exists>rs'. members j = Some rs' \<and> r \<in> set rs')"
      using assms(1) unfolding rooms_ok_def by blast
    then show ?thesis using f assms(2) by (cases "j = i"; cases "r \<in> set rs") auto
  qed
  then show ?thesis using f unfolding rooms_ok_def by blast
qed

section \<open>Invariant\<close>

text \<open>The socket an identity is routed to, and the rooms it has joined.\<close>

definition relay_conn :: "relay_state \<Rightarrow> string \<Rightarrow> nat option" where
  "relay_conn st i = map_option (\<lambda>cl. ws_raw (ci_ws cl)) (jm_get (rs_clients st) i)"

definition relay_members :: "relay_state \<Rightarrow> string \<Rightarrow> js_key list option" where
  "relay_members st i = map_option ci_subscribedRooms (jm_get (rs_clients st) i)"

definition relay_inv :: "(nat \<Rightarrow> relay_socket) \<Rightarrow> relay_state \<Rightarrow> bool" where
  "relay_inv sk st \<longleftrightarrow> jm_ok (rs_clients st)
     \<and> (\<forall>i cl. jm_get (rs_clients st) i = Some cl \<longrightarrow> ci_identityId cl = i \<and> ws_identity (ci_ws cl) = i
          \<and> ci_ws cl = sk (ws_raw (ci_ws cl)) \<and> jm_get (rs_pending st) (ws_raw (ci_ws cl)) = None)
     \<and> (\<forall>r ch. jm_get (rs_pending st) r = Some ch \<longrightarrow> ch_identity ch = ws_identity (sk r))
     \<and> rooms_ok (relay_members st) (rs_roomSubscriptions st)"

lemma relay_invD:
  assumes "relay_inv sk st" "jm_get (rs_clients st) i = Some cl"
  shows "ci_identityId cl = i" "ws_identity (ci_ws cl) = i" "ci_ws cl = sk (ws_raw (ci_ws cl))"
    "jm_get (rs_pending st) (ws_raw (ci_ws cl)) = None"
  using assms by (auto simp: relay_inv_def)

lemma own_client_iff: "own_client ws st = Some cl \<longleftrightarrow> jm_get (rs_clients st) (ws_identity ws) = Some cl \<and> ws_raw (ci_ws cl) = ws_raw ws"
  by (auto simp: own_client_def split: option.splits)

text \<open>A change of a stored client's rooms, with the matching change of the table.\<close>

lemma relay_inv_rooms:
  assumes "relay_inv sk st" "jm_get (rs_clients st) i = Some cl"
    and "rooms_ok ((relay_members st)(i \<mapsto> rs)) subs"
  shows "relay_inv sk (st\<lparr>rs_clients := jm_set i (cl\<lparr>ci_subscribedRooms := rs\<rparr>) (rs_clients st), rs_roomSubscriptions := subs\<rparr>)"
proof -
  let ?st = "st\<lparr>rs_clients := jm_set i (cl\<lparr>ci_subscribedRooms := rs\<rparr>) (rs_clients st), rs_roomSubscriptions := subs\<rparr>"
  have "relay_members ?st = (relay_members st)(i \<mapsto> rs)" by (auto simp: relay_members_def jm_simps)
  then show ?thesis
    using assms relay_invD [OF assms(1,2)] by (auto simp: relay_inv_def jm_simps)
qed

lemma relay_conn_rooms:
  "jm_get (rs_clients st) i = Some cl
    \<Longrightarrow> relay_conn (st\<lparr>rs_clients := jm_set i (cl\<lparr>ci_subscribedRooms := rs\<rparr>) (rs_clients st), rs_roomSubscriptions := subs\<rparr>) = relay_conn st"
  by (auto simp: relay_conn_def jm_simps)

lemma handleMessage_state:
  fixes frame ref
  assumes "relay_inv sk st" "jm_get (rs_clients st) i = Some cl"
  defines "st' \<equiv> fst (handleMessage cl frame ref st)"
  shows "relay_inv sk st'" "relay_conn st' = relay_conn st" "rs_pending st' = rs_pending st"
proof -
  have id: "ci_identityId cl = i" using relay_invD [OF assms(1,2)] by simp
  have m: "relay_members st i = Some (ci_subscribedRooms cl)" using assms(2) by (simp add: relay_members_def)
  have ok: "rooms_ok (relay_members st) (rs_roomSubscriptions st)" using assms(1) by (simp add: relay_inv_def)
  have sub: "relay_inv sk (fst (handleRoomSubscribe cl msg ref st)) \<and> relay_conn (fst (handleRoomSubscribe cl msg ref st)) = relay_conn st
      \<and> rs_pending (fst (handleRoomSubscribe cl msg ref st)) = rs_pending st" for msg
    using relay_inv_rooms [OF assms(1,2) rooms_ok_subscribe [OF ok m]] relay_conn_rooms [OF assms(2)] assms(1)
    by (simp add: handleRoomSubscribe_def Let_def id)
  have unsub: "relay_inv sk (fst (handleRoomUnsubscribe cl msg ref st)) \<and> relay_conn (fst (handleRoomUnsubscribe cl msg ref st)) = relay_conn st
      \<and> rs_pending (fst (handleRoomUnsubscribe cl msg ref st)) = rs_pending st" for msg
    using relay_inv_rooms [OF assms(1,2) rooms_ok_unsubscribe [OF ok m]] relay_conn_rooms [OF assms(2)] assms(1)
    by (simp add: handleRoomUnsubscribe_def Let_def id)
  have "relay_inv sk st' \<and> relay_conn st' = relay_conn st \<and> rs_pending st' = rs_pending st"
    unfolding st'_def handleMessage_def Let_def using sub unsub assms(1)
    by (auto split: option.split simp del: jfield.simps)
  then show "relay_inv sk st'" "relay_conn st' = relay_conn st" "rs_pending st' = rs_pending st" by simp_all
qed

section \<open>What is sent\<close>

text \<open>
  The frames an authenticated client can cause: they go to routed sockets, are no presence frames,
  and carry no \<open>from\<close> but the client's own identity.
\<close>

definition client_frame :: "relay_state \<Rightarrow> string \<Rightarrow> nat \<Rightarrow> (string \<times> jval) list \<Rightarrow> bool" where
  "client_frame st i r f \<longleftrightarrow> (\<exists>j. relay_conn st j = Some r)
     \<and> frame_type f \<notin> {Some (JStr ''presence_snapshot''), Some (JStr ''presence''), Some (JStr ''presence_update'')}
     \<and> frame_from f \<in> {None, Some (JStr i)}"

lemma opt_field_simps [simp]: "opt_field k None = []" "opt_field k (Some v) = [(k, v)]"
  by (simp_all add: opt_field_def)

lemma jfield_opt_field [simp]: "jfield (opt_field k v @ fs) k' = (if k' = k \<and> v \<noteq> None then v else jfield fs k')"
  "jfield (opt_field k v) k' = (if k' = k then v else None)"
  by (cases v; simp)+

lemma relay_conn_Some: "jm_get (rs_clients st) j = Some cl \<Longrightarrow> relay_conn st j = Some (ws_raw (ci_ws cl))"
  by (simp add: relay_conn_def)

lemma string_key_Some: "string_key k m = Some v \<Longrightarrow> \<exists>s. k = Some (JStr s) \<and> jm_get m s = Some v"
  by (auto simp: string_key_def split: option.splits jval.splits)

lemma jfield_Cons: "jfield ((k, v) # fs) k' = (if k' = k then Some v else jfield fs k')" "jfield [] k' = None"
  by simp_all

lemmas frame_simps = client_frame_def frame_type_def frame_from_def send_client_def jfield_Cons

lemma handleSignalling_frame:
  assumes "Send r f \<in> set (handleSignalling cl msg st)"
  shows "frame_type f = jfield msg ''type'' \<and> frame_from f = Some (JStr (ci_identityId cl)) \<and> (\<exists>j. relay_conn st j = Some r)"
proof -
  obtain t where t: "string_key (jfield msg ''to'') (rs_clients st) = Some t"
    using assms by (auto simp: handleSignalling_def Let_def split: option.splits if_splits simp del: jfield.simps)
  then have "\<exists>j. relay_conn st j = Some (ws_raw (ci_ws t))" using string_key_Some relay_conn_Some by metis
  then show ?thesis
    using assms t
    by (cases "jfield msg ''type''") (auto simp: handleSignalling_def Let_def frame_simps split: if_splits simp del: jfield.simps)
qed

lemma handleDm_frame:
  assumes "Send r f \<in> set (handleDm cl msg st)"
  shows "client_frame st (ci_identityId cl) r f"
proof -
  obtain t where t: "string_key (jfield msg ''to'') (rs_clients st) = Some t"
    using assms by (auto simp: handleDm_def Let_def split: option.splits if_splits simp del: jfield.simps)
  then have "\<exists>j. relay_conn st j = Some (ws_raw (ci_ws t))" using string_key_Some relay_conn_Some by metis
  then show ?thesis
    using assms t by (auto simp: handleDm_def Let_def frame_simps split: if_splits simp del: jfield.simps)
qed

lemma handleDeliveryReceipt_frame:
  assumes "Send r f \<in> set (handleDeliveryReceipt cl msg st)"
  shows "client_frame st (ci_identityId cl) r f"
proof -
  obtain x where x: "jfield msg ''receipt'' = Some x"
    using assms by (cases "jfield msg ''receipt''") (simp_all add: handleDeliveryReceipt_def Let_def del: jfield.simps)
  obtain t where t: "string_key (jfield msg ''to'') (rs_clients st) = Some t"
    using assms x by (auto simp: handleDeliveryReceipt_def Let_def split: option.splits if_splits simp del: jfield.simps)
  then have "\<exists>j. relay_conn st j = Some (ws_raw (ci_ws t))" using string_key_Some relay_conn_Some by metis
  then show ?thesis
    using assms t x by (auto simp: handleDeliveryReceipt_def Let_def frame_simps split: if_splits simp del: jfield.simps)
qed

lemma handleRoomEvent_frame:
  assumes "Send r f \<in> set (handleRoomEvent cl msg ref st)"
  shows "client_frame st (ci_identityId cl) r f"
proof -
  obtain xs where xs: "jm_get (rs_roomSubscriptions st) (key_of ref (jfield msg ''room_id'')) = Some xs"
    using assms by (auto simp: handleRoomEvent_def Let_def split: option.splits if_splits simp del: jfield.simps)
  obtain x t where x: "x \<in> set xs" "jm_get (rs_clients st) x = Some t"
    "r = ws_raw (ci_ws t)" "f = [(''type'', JStr ''room_event'')] @ opt_field ''room_id'' (jfield msg ''room_id'')
       @ [(''from'', JStr (ci_identityId cl))] @ opt_field ''event'' (jfield msg ''event'')"
    using assms xs
    by (fastforce simp: handleRoomEvent_def Let_def send_client_def split: option.splits if_splits simp del: jfield.simps dest: sym)
  then show ?thesis using relay_conn_Some [OF x(2)] by (auto simp: frame_simps simp del: jfield.simps)
qed

lemma handleRoomSubscription_frame:
  assumes "jm_get (rs_clients st) i = Some cl" "ci_identityId cl = i"
    and "Send r f \<in> set (snd (handleRoomSubscribe cl msg ref st)) \<union> set (snd (handleRoomUnsubscribe cl msg ref st))"
  shows "client_frame st i r f"
  using assms(3) relay_conn_Some [OF assms(1)]
  by (auto simp: handleRoomSubscribe_def handleRoomUnsubscribe_def Let_def frame_simps split: if_splits simp del: jfield.simps)

lemma handleMessage_frame:
  assumes "jm_get (rs_clients st) i = Some cl" "ci_identityId cl = i" "Send r f \<in> set (snd (handleMessage cl frame ref st))"
  shows "client_frame st i r f"
proof (cases "Option.bind frame object_fields")
  case None
  then show ?thesis using assms(3) by (simp add: handleMessage_def)
next
  case (Some msg)
  let ?t = "jfield msg ''type''"
  consider "?t = Some (JStr ''session_offer'') \<or> ?t = Some (JStr ''session_answer'') \<or> ?t = Some (JStr ''candidate'')"
      "Send r f \<in> set (handleSignalling cl msg st)"
    | "Send r f \<in> set (snd (handleRoomSubscribe cl msg ref st)) \<union> set (snd (handleRoomUnsubscribe cl msg ref st))"
    | "Send r f \<in> set (handleRoomEvent cl msg ref st)" | "Send r f \<in> set (handleDm cl msg st)"
    | "Send r f \<in> set (handleDeliveryReceipt cl msg st)" | "Send r f = send_client cl [(''type'', JStr ''pong'')]"
    using assms(3) Some unfolding handleMessage_def Let_def
    by (simp split: if_splits del: jfield.simps)
  then show ?thesis
  proof cases
    case 1
    then show ?thesis using handleSignalling_frame [OF 1(2)] assms(2) by (auto simp: client_frame_def)
  next
    case 2
    then show ?thesis by (rule handleRoomSubscription_frame [OF assms(1,2)])
  next
    case 6
    then show ?thesis using relay_conn_Some [OF assms(1)] by (auto simp: frame_simps simp del: jfield.simps)
  qed (use assms(2) handleRoomEvent_frame handleDm_frame handleDeliveryReceipt_frame in blast)+
qed

lemma client_frames_view:
  assumes "\<And>f. Send r f \<in> set outs \<Longrightarrow> client_frame st i r f"
  shows "presence_view fl now r outs V = V"
  using assms by (intro plain_frames_view) (auto simp: client_frame_def)

section \<open>Leaving and joining the relay\<close>

lemma jm_del_absent: "jm_get m k = None \<Longrightarrow> jm_del k m = m"
  by (induction m) (auto simp: jm_get_def jm_del_def split: if_splits)

text \<open>The state without the client of an identity.\<close>

definition evicted :: "string \<Rightarrow> relay_state \<Rightarrow> relay_state" where
  "evicted i st = st\<lparr>rs_clients := jm_del i (rs_clients st), rs_roomSubscriptions :=
     (case jm_get (rs_clients st) i of None \<Rightarrow> rs_roomSubscriptions st
      | Some cl \<Rightarrow> fold (drop_subscriber i) (ci_subscribedRooms cl) (rs_roomSubscriptions st))\<rparr>"

lemma removeClient_stored:
  "jm_get (rs_clients st) i = Some cl \<Longrightarrow> ci_identityId cl = i
    \<Longrightarrow> removeClient cl st = (evicted i st, notifyPresence (evicted i st) i False)"
  by (auto simp: removeClient_def evicted_def notifyPresence_def Let_def)

lemma evicted_conn: "relay_conn (evicted i st) = (relay_conn st)(i := None)"
  by (auto simp: relay_conn_def evicted_def jm_simps)

lemma evicted_members: "relay_members (evicted i st) = (relay_members st)(i := None)"
  by (auto simp: relay_members_def evicted_def jm_simps)

lemma evicted_pending [simp]: "rs_pending (evicted i st) = rs_pending st"
  by (simp add: evicted_def)

lemma relay_inv_evicted:
  assumes "relay_inv sk st"
  shows "relay_inv sk (evicted i st)"
proof -
  have ok: "rooms_ok (relay_members st) (rs_roomSubscriptions st)" using assms by (simp add: relay_inv_def)
  have "rooms_ok ((relay_members st)(i := None)) (rs_roomSubscriptions (evicted i st))"
  proof (cases "jm_get (rs_clients st) i")
    case None
    then have "(relay_members st)(i := None) = relay_members st" by (auto simp: relay_members_def)
    then show ?thesis using ok None by (simp add: evicted_def)
  next
    case (Some cl)
    then show ?thesis using rooms_ok_remove [OF ok, of i "ci_subscribedRooms cl"] by (simp add: relay_members_def evicted_def)
  qed
  then show ?thesis
    using assms unfolding relay_inv_def evicted_members by (auto simp: evicted_def jm_simps split: if_splits)
qed

text \<open>A met challenge: the new client takes the place of the identity's old one.\<close>

definition joined :: "int \<Rightarrow> relay_socket \<Rightarrow> challenge \<Rightarrow> relay_state \<Rightarrow> relay_state" where
  "joined now ws ch st = (let st1 = evicted (ch_identity ch) (st\<lparr>rs_pending := jm_del (ws_raw ws) (rs_pending st)\<rparr>) in
     st1\<lparr>rs_clients := jm_set (ch_identity ch) \<lparr>ci_identityId = ch_identity ch, ci_deviceId = ch_device ch, ci_ws = ws,
       ci_subscribedRooms = [], ci_connectedAt = now\<rparr> (rs_clients st1)\<rparr>)"

lemma joined_conn: "relay_conn (joined now ws ch st) = (relay_conn st)(ch_identity ch \<mapsto> ws_raw ws)"
  by (auto simp: relay_conn_def joined_def evicted_def jm_simps Let_def)

lemma joined_pending: "rs_pending (joined now ws ch st) = jm_del (ws_raw ws) (rs_pending st)"
  by (simp add: joined_def Let_def)

lemma relay_inv_joined:
  assumes "relay_inv sk st" "jm_get (rs_pending st) (ws_raw ws) = Some ch" "ws = sk (ws_raw ws)"
  shows "relay_inv sk (joined now ws ch st)"
proof -
  define i where "i = ch_identity ch"
  define st0 where "st0 = st\<lparr>rs_pending := jm_del (ws_raw ws) (rs_pending st)\<rparr>"
  have "relay_members st0 = relay_members st" by (auto simp: relay_members_def st0_def)
  then have "relay_inv sk st0" using assms(1) by (auto simp: relay_inv_def st0_def jm_simps)
  then have inv: "relay_inv sk (evicted i st0)" by (rule relay_inv_evicted)
  have p: "rs_pending st0 = jm_del (ws_raw ws) (rs_pending st)" by (simp add: st0_def)
  have i: "ws_identity ws = i" using assms unfolding relay_inv_def i_def by metis
  have none: "relay_members (evicted i st0) i = None" by (simp add: evicted_members)
  have ok: "rooms_ok ((relay_members (evicted i st0))(i \<mapsto> [])) (rs_roomSubscriptions (evicted i st0))"
    using inv none by (intro rooms_ok_connect) (auto simp: relay_inv_def)
  have st: "joined now ws ch st = (evicted i st0)\<lparr>rs_clients := jm_set i \<lparr>ci_identityId = i, ci_deviceId = ch_device ch, ci_ws = ws,
      ci_subscribedRooms = [], ci_connectedAt = now\<rparr> (rs_clients (evicted i st0))\<rparr>"
    by (simp add: joined_def Let_def i_def st0_def)
  have m: "relay_members (joined now ws ch st) = (relay_members (evicted i st0))(i \<mapsto> [])"
    unfolding st by (auto simp: relay_members_def jm_simps)
  show ?thesis
    using inv ok i assms(3) unfolding relay_inv_def m unfolding st by (auto simp: jm_simps p split: if_splits)
qed

lemma handleAuth_met:
  fixes ws
  assumes "relay_inv sk st" "challenge_met c ch frame now"
  defines "st' \<equiv> joined now ws ch st" and "r \<equiv> ws_raw ws" and "i \<equiv> ch_identity ch"
  shows "handleAuth c now ws ch frame st = (st',
    (case jm_get (rs_clients st) i of None \<Rightarrow> []
     | Some e \<Rightarrow> SendError (ws_raw (ci_ws e)) ReplacedByNewConnection # notifyPresence (evicted i st) i False
         @ [CloseSocket (ws_raw (ci_ws e))])
    @ [Send r [(''type'', JStr ''authenticated''), (''identity'', JStr i), (''relay_time'', JNum now)],
       Send r (snapshot_frame (map fst (rs_clients st')))] @ notifyPresence st' i True)"
proof -
  define st0 where "st0 = st\<lparr>rs_pending := jm_del (ws_raw ws) (rs_pending st)\<rparr>"
  have n: "notifyPresence (evicted i st0) i False = notifyPresence (evicted i st) i False"
    by (simp add: notifyPresence_def evicted_def st0_def)
  show ?thesis
  proof (cases "jm_get (rs_clients st) i")
    case None
    then have "evicted i st0 = st0" by (simp add: evicted_def st0_def jm_del_absent)
    then show ?thesis
      using assms(2) None unfolding handleAuth_def st'_def joined_def
      by (simp add: Let_def send_client_def r_def i_def [symmetric] st0_def [symmetric]) (simp add: st0_def)
  next
    case (Some e)
    have e: "ci_identityId e = i" using relay_invD [OF assms(1) Some] by simp
    have "removeClient e st0 = (evicted i st0, notifyPresence (evicted i st0) i False)"
      using Some e by (intro removeClient_stored) (simp_all add: st0_def)
    moreover have "jm_get (rs_clients st0) i = Some e" using Some by (simp add: st0_def)
    ultimately show ?thesis
      using assms(2) Some unfolding handleAuth_def st'_def joined_def
      by (simp add: Let_def send_client_def r_def i_def [symmetric] st0_def [symmetric] n)
  qed
qed

section \<open>The relay keeps the contract\<close>

lemma relay_step_cases:
  fixes st
  assumes "relay_inv sk st"
  obtains (pending) "relay_conn (fst (relay_step c e st)) = relay_conn st" "rs_clients (fst (relay_step c e st)) = rs_clients st"
      "rs_roomSubscriptions (fst (relay_step c e st)) = rs_roomSubscriptions st"
      "\<forall>r ch. jm_get (rs_pending (fst (relay_step c e st))) r = Some ch \<longrightarrow> jm_get (rs_pending st) r = Some ch
         \<or> (\<exists>ws nonce. e = Open ws nonce \<and> ws_raw ws = r \<and> ch = challenge_for ws nonce)"
      "\<forall>r f. Send r f \<in> set (snd (relay_step c e st)) \<longrightarrow> frame_type f = Some (JStr ''auth_challenge'')
         \<and> frame_from f = None \<and> (\<exists>ws nonce. e = Open ws nonce \<and> ws_raw ws = r)"
      "\<forall>ws. e = Closed ws \<longrightarrow> jm_get (rs_pending (fst (relay_step c e st))) (ws_raw ws) = None
         \<and> (jm_get (rs_pending st) (ws_raw ws) = None \<longrightarrow> own_client ws st = None)"
    | (auth) ws frame ref now ch where "e = Message ws frame ref now" "jm_get (rs_pending st) (ws_raw ws) = Some ch"
      "challenge_met c ch frame now" "relay_step c e st = handleAuth c now ws ch frame st"
    | (msg) ws frame ref now cl where "e = Message ws frame ref now" "jm_get (rs_pending st) (ws_raw ws) = None"
      "own_client ws st = Some cl" "relay_step c e st = handleMessage cl frame ref st"
    | (leave) ws cl where "e = Closed ws" "jm_get (rs_pending st) (ws_raw ws) = None" "own_client ws st = Some cl"
      "relay_step c e st = removeClient cl st"
proof (cases e)
  case (Open ws nonce)
  have "frame_type [(''type'', JStr ''auth_challenge''), (''nonce'', JStr nonce)] = Some (JStr ''auth_challenge'')"
    "frame_from [(''type'', JStr ''auth_challenge''), (''nonce'', JStr nonce)] = None"
    by (simp_all add: frame_type_def frame_from_def)
  then show ?thesis
    using Open by (intro pending) (auto simp: relay_open_def relay_conn_def challenge_for_def jm_simps split: option.splits)
next
  case (Message ws frame ref now)
  show ?thesis
  proof (cases "jm_get (rs_pending st) (ws_raw ws)")
    case None
    show ?thesis
    proof (cases "own_client ws st")
      case None' : None
      then show ?thesis using Message None by (intro pending) (simp_all add: relay_message_def)
    next
      case (Some cl)
      then show ?thesis using Message None by (intro msg) (simp_all add: relay_message_def)
    qed
  next
    case (Some ch)
    show ?thesis
    proof (cases "challenge_met c ch frame now")
      case True
      then show ?thesis using Message Some by (intro auth) (simp_all add: relay_message_def)
    next
      case False
      then show ?thesis using Message Some by (intro pending) (simp_all add: relay_message_def handleAuth_def)
    qed
  qed
next
  case (Closed ws)
  show ?thesis
  proof (cases "jm_get (rs_pending st) (ws_raw ws)")
    case None
    show ?thesis
    proof (cases "own_client ws st")
      case None' : None
      then show ?thesis using Closed None by (intro pending) (simp_all add: relay_close_def)
    next
      case (Some cl)
      then show ?thesis using Closed None by (intro leave) (simp_all add: relay_close_def)
    qed
  next
    case (Some ch)
    then show ?thesis using Closed by (intro pending) (auto simp: relay_close_def relay_conn_def jm_simps)
  qed
next
  case (Timeout ws)
  then show ?thesis by (intro pending) (simp_all add: relay_timeout_def)
qed

lemma notifyPresence_map:
  "notifyPresence st i on = map (\<lambda>x. Send (ws_raw (ci_ws (snd x))) (presence_notice i on)) (rs_clients st)"
  by (auto simp: notifyPresence_def send_client_def)

lemma relay_routed: "jm_ok (rs_clients st) \<Longrightarrow> r \<in> (\<lambda>x. ws_raw (ci_ws (snd x))) ` set (rs_clients st) \<longleftrightarrow> (\<exists>i. relay_conn st i = Some r)"
  by (auto simp: relay_conn_def image_iff Bex_def jm_in_set_get)

lemma notifyPresence_view:
  "jm_ok (rs_clients st) \<Longrightarrow> presence_view fl now r (notifyPresence st i on) V
     = (if \<exists>j. relay_conn st j = Some r then (if on then insert i V else V - {i}) else V)"
  unfolding notifyPresence_map presence_view_notify by (simp only: relay_routed)

lemma notifyPresence_frames:
  "jm_ok (rs_clients st) \<Longrightarrow> Send r f \<in> set (notifyPresence st i on) \<Longrightarrow> f = presence_notice i on \<and> (\<exists>j. relay_conn st j = Some r)"
  unfolding notifyPresence_map relay_routed [symmetric] by auto

lemma relay_keys: "set (map fst (rs_clients st)) = dom (relay_conn st)"
  using jm_keys_get [of "rs_clients st"] by (auto simp: relay_conn_def dom_def)

lemma relay_inv_step:
  assumes "relay_inv sk st" "event_socket e = sk (ws_raw (event_socket e))"
    and fresh: "\<And>ws nonce. e = Open ws nonce \<Longrightarrow> jm_get (rs_pending st) (ws_raw ws) = None \<and> (\<forall>i. relay_conn st i \<noteq> Some (ws_raw ws))"
  shows "relay_inv sk (fst (relay_step c e st))"
  using assms(1)
proof (cases rule: relay_step_cases [of sk st c e])
  case pending
  let ?st = "fst (relay_step c e st)"
  have "relay_members ?st = relay_members st" using pending(2) by (auto simp: relay_members_def)
  moreover have "jm_get (rs_pending ?st) (ws_raw (ci_ws cl)) = None" if cl: "jm_get (rs_clients st) i = Some cl" for i cl
  proof (cases "jm_get (rs_pending ?st) (ws_raw (ci_ws cl))")
    case (Some ch)
    then show ?thesis
      using pending(4) relay_invD(4) [OF assms(1) cl] fresh relay_conn_Some [OF cl] by fastforce
  qed
  moreover have "ch_identity ch = ws_identity (sk r)" if ch: "jm_get (rs_pending ?st) r = Some ch" for r ch
    using pending(4) ch assms(1,2) by (fastforce simp: relay_inv_def challenge_for_def)
  ultimately show ?thesis using assms(1) unfolding relay_inv_def pending(2,3) by simp
next
  case (auth ws frame ref now ch)
  then have "ws = sk (ws_raw ws)" using assms(2) by simp
  then show ?thesis using relay_inv_joined [OF assms(1) auth(2)] handleAuth_met [OF assms(1) auth(3)] auth(4) by simp
next
  case (msg ws frame ref now cl)
  then show ?thesis using handleMessage_state(1) [OF assms(1)] by (auto simp: own_client_iff)
next
  case (leave ws cl)
  then show ?thesis
    using relay_inv_evicted [OF assms(1)] relay_invD(1) [OF assms(1)] removeClient_stored by (auto simp: own_client_iff)
qed

lemma handleAuth_view:
  fixes ws
  assumes "relay_inv sk st" "challenge_met c ch frame t"
  defines "st' \<equiv> joined t ws ch st" and "outs \<equiv> snd (handleAuth c t ws ch frame st)"
  shows "V \<subseteq> dom (relay_conn st') \<Longrightarrow> presence_view fl now (ws_raw ws) outs V = dom (relay_conn st')"
    and "r \<noteq> ws_raw ws \<Longrightarrow> presence_view fl now r outs V
      = (if \<exists>j. relay_conn st' j = Some r then insert (ch_identity ch) V else V)"
proof -
  let ?i = "ch_identity ch"
  have ok: "jm_ok (rs_clients (evicted ?i st))" "jm_ok (rs_clients st')"
    using assms(1) by (simp_all add: relay_inv_def st'_def joined_def evicted_def Let_def)
  have conn: "relay_conn st' = (relay_conn st)(?i \<mapsto> ws_raw ws)" by (simp add: st'_def joined_conn)
  have keys: "set (map fst (rs_clients st')) = dom ((relay_conn st)(?i \<mapsto> ws_raw ws))" by (simp only: relay_keys conn)
  note view = join_view [OF arg_cong [OF handleAuth_met [OF assms(1,2), of ws], of snd, unfolded snd_conv, folded outs_def st'_def],
    where fl = fl and now = now and b = "jm_get (rs_clients st) ?i \<noteq> None", OF _ _ _ keys]
  show "V \<subseteq> dom (relay_conn st') \<Longrightarrow> presence_view fl now (ws_raw ws) outs V = dom (relay_conn st')"
    unfolding conn by (rule view(1)) (auto simp: notifyPresence_view ok evicted_conn conn frame_type_def split: option.split)
  show "r \<noteq> ws_raw ws \<Longrightarrow> presence_view fl now r outs V = (if \<exists>j. relay_conn st' j = Some r then insert ?i V else V)"
    unfolding conn by (rule view(2)) (auto simp: notifyPresence_view ok evicted_conn conn frame_type_def split: option.split)
qed

lemma relay_view_cases:
  fixes e c
  assumes "relay_inv sk st"
  defines "st' \<equiv> fst (relay_step c e st)" and "outs \<equiv> snd (relay_step c e st)"
  shows "V = dom (relay_conn st) \<or> (jm_get (rs_pending st) r \<noteq> None \<and> V = {}) \<Longrightarrow> relay_conn st' i = Some r
      \<Longrightarrow> presence_view fl now r outs V = dom (relay_conn st')"
    and "(\<And>i. relay_conn st' i \<noteq> Some r) \<Longrightarrow> presence_view fl now r outs W = W"
proof -
  let ?V = "V = dom (relay_conn st) \<or> (jm_get (rs_pending st) r \<noteq> None \<and> V = {})"
  let ?i = "relay_conn st' i = Some r" and ?none = "\<forall>i. relay_conn st' i \<noteq> Some r"
  have ok: "jm_ok (rs_clients st)" using assms(1) by (simp add: relay_inv_def)
  have excl: "relay_conn st j \<noteq> Some r" if "jm_get (rs_pending st) r \<noteq> None" for j
    using relay_invD(4) [OF assms(1)] that by (auto simp: relay_conn_def)
  have quiet: "(?V \<longrightarrow> ?i \<longrightarrow> presence_view fl now r outs V = dom (relay_conn st')) \<and> (?none \<longrightarrow> presence_view fl now r outs W = W)"
    if "relay_conn st' = relay_conn st" "\<And>U. presence_view fl now r outs U = U"
    using that excl by auto
  have "(?V \<longrightarrow> ?i \<longrightarrow> presence_view fl now r outs V = dom (relay_conn st')) \<and> (?none \<longrightarrow> presence_view fl now r outs W = W)"
    using assms(1)
  proof (cases rule: relay_step_cases [of sk st c e])
    case pending
    then show ?thesis by (intro quiet plain_frames_view) (auto simp: st'_def outs_def)
  next
    case (auth ws frame ref t ch)
    have st': "st' = joined t ws ch st" using auth(4) handleAuth_met [OF assms(1) auth(3)] by (simp add: st'_def)
    have o: "outs = snd (handleAuth c t ws ch frame st)" using auth(4) by (simp add: outs_def)
    note view = handleAuth_view [OF assms(1) auth(3), of _ ws, folded st' o] 
    have conn: "relay_conn st' = (relay_conn st)(ch_identity ch \<mapsto> ws_raw ws)" unfolding st' by (rule joined_conn)
    show ?thesis
    proof (cases "r = ws_raw ws")
      case True
      then show ?thesis using view(1) [of V] conn by auto
    next
      case False
      then show ?thesis using view(2) [of r] conn excl by auto
    qed
  next
    case (msg ws frame ref now' cl)
    have cl: "jm_get (rs_clients st) (ws_identity ws) = Some cl" using msg(3) by (simp add: own_client_iff)
    show ?thesis
      using handleMessage_state(2) [OF assms(1) cl] handleMessage_frame [OF cl relay_invD(1) [OF assms(1) cl]] msg(4)
      by (intro quiet client_frames_view) (auto simp: st'_def outs_def)
  next
    case (leave ws cl)
    let ?j = "ws_identity ws"
    have cl: "jm_get (rs_clients st) ?j = Some cl" using leave(3) by (simp add: own_client_iff)
    have "removeClient cl st = (evicted ?j st, notifyPresence (evicted ?j st) ?j False)"
      by (rule removeClient_stored [OF cl relay_invD(1) [OF assms(1) cl]])
    moreover have "jm_ok (rs_clients (evicted ?j st))" using ok by (simp add: evicted_def)
    ultimately show ?thesis
      using leave(4) excl by (auto simp: st'_def outs_def notifyPresence_view evicted_conn split: if_splits)
  qed
  then show "?V \<Longrightarrow> ?i \<Longrightarrow> presence_view fl now r outs V = dom (relay_conn st')"
    "(\<And>i. relay_conn st' i \<noteq> Some r) \<Longrightarrow> presence_view fl now r outs W = W"
    by blast+
qed

lemma relay_conn_step:
  assumes "relay_inv sk st" "relay_conn (fst (relay_step c e st)) i = Some r"
  shows "relay_conn st i = Some r
    \<or> (\<exists>ws frame ref now ch. e = Message ws frame ref now \<and> ws_raw ws = r \<and> jm_get (rs_pending st) r = Some ch
         \<and> ch_identity ch = i \<and> challenge_met c ch frame now)"
  using assms(1)
proof (cases rule: relay_step_cases [of sk st c e])
  case pending
  then show ?thesis using assms(2) by simp
next
  case (auth ws frame ref now ch)
  then show ?thesis
    using assms(2) handleAuth_met [OF assms(1) auth(3)] by (auto simp: joined_conn split: if_splits)
next
  case (msg ws frame ref now cl)
  then show ?thesis using assms(2) handleMessage_state(2) [OF assms(1)] by (auto simp: own_client_iff)
next
  case (leave ws cl)
  then have cl: "jm_get (rs_clients st) (ws_identity ws) = Some cl" by (simp add: own_client_iff)
  then show ?thesis
    using assms(2) leave(4) removeClient_stored [OF cl relay_invD(1) [OF assms(1) cl]] by (auto simp: evicted_conn split: if_splits)
qed

lemma relay_waiting_step:
  assumes "relay_inv sk st" "jm_get (rs_pending (fst (relay_step c e st))) r = Some ch"
  shows "jm_get (rs_pending st) r = Some ch \<or> (\<exists>ws nonce. e = Open ws nonce \<and> ws_raw ws = r \<and> ch = challenge_for ws nonce)"
  using assms(1)
proof (cases rule: relay_step_cases [of sk st c e])
  case pending
  then show ?thesis using assms(2) by blast
next
  case (auth ws frame ref now ch)
  then show ?thesis
    using assms(2) handleAuth_met [OF assms(1) auth(3)] by (auto simp: joined_pending jm_simps split: if_splits)
next
  case (msg ws frame ref now cl)
  then show ?thesis using assms(2) handleMessage_state(3) [OF assms(1)] by (auto simp: own_client_iff)
next
  case (leave ws cl)
  then have cl: "jm_get (rs_clients st) (ws_identity ws) = Some cl" by (simp add: own_client_iff)
  then show ?thesis
    using assms(2) leave(4) removeClient_stored [OF cl relay_invD(1) [OF assms(1) cl]] by simp
qed

lemma relay_closed:
  assumes "relay_inv sk st" "ws = sk (ws_raw ws)"
  shows "relay_conn (fst (relay_step c (Closed ws) st)) i \<noteq> Some (ws_raw ws)
    \<and> jm_get (rs_pending (fst (relay_step c (Closed ws) st))) (ws_raw ws) = None"
proof -
  have mine: "i = ws_identity ws" if routed: "relay_conn st i = Some (ws_raw ws)" for i
  proof -
    obtain cl where cl: "jm_get (rs_clients st) i = Some cl" "ws_raw (ci_ws cl) = ws_raw ws"
      using routed by (auto simp: relay_conn_def)
    then have "ci_ws cl = ws" using relay_invD(3) [OF assms(1) cl(1)] assms(2) by simp
    then show ?thesis using relay_invD(2) [OF assms(1) cl(1)] by simp
  qed
  show ?thesis
  proof (cases "jm_get (rs_pending st) (ws_raw ws)")
    case (Some ch)
    then have "relay_conn st i \<noteq> Some (ws_raw ws)"
      using relay_invD(4) [OF assms(1), of i] by (auto simp: relay_conn_def)
    then show ?thesis using Some by (simp add: relay_close_def relay_conn_def jm_simps)
  next
    case None
    show ?thesis
    proof (cases "own_client ws st")
      case None' : None
      then have "relay_conn st (ws_identity ws) \<noteq> Some (ws_raw ws)"
        by (auto simp: own_client_def relay_conn_def split: option.splits if_splits)
      then show ?thesis using None None' mine by (auto simp: relay_close_def)
    next
      case (Some cl)
      then have cl: "jm_get (rs_clients st) (ws_identity ws) = Some cl" by (simp add: own_client_iff)
      show ?thesis
        using Some None mine removeClient_stored [OF cl relay_invD(1) [OF assms(1) cl]]
        by (auto simp: relay_close_def evicted_conn)
    qed
  qed
qed

lemma relay_sends:
  assumes "relay_inv sk st" "Send r f \<in> set (snd (relay_step c e st))"
  shows "(\<exists>i. relay_conn (fst (relay_step c e st)) i = Some r) \<or> (\<exists>ws nonce. e = Open ws nonce \<and> ws_raw ws = r)"
    and "frame_from f = Some v \<Longrightarrow> \<exists>ws frame ref now i. e = Message ws frame ref now \<and> relay_conn st i = Some (ws_raw ws) \<and> v = JStr i"
proof -
  have pf: "frame_from (presence_notice i on) = None" "frame_from (snapshot_frame ids) = None"
    "frame_from [(''type'', JStr ''authenticated''), (''identity'', JStr i), (''relay_time'', JNum now)] = None" for i on ids now
    by (simp_all add: frame_from_def presence_notice_def snapshot_frame_def)
  have "((\<exists>i. relay_conn (fst (relay_step c e st)) i = Some r) \<or> (\<exists>ws nonce. e = Open ws nonce \<and> ws_raw ws = r))
    \<and> (frame_from f = Some v \<longrightarrow> (\<exists>ws frame ref now i. e = Message ws frame ref now \<and> relay_conn st i = Some (ws_raw ws) \<and> v = JStr i))"
    using assms(1)
  proof (cases rule: relay_step_cases [of sk st c e])
    case pending
    then show ?thesis using assms(2) by fastforce
  next
    case (auth ws frame ref now ch)
    let ?i = "ch_identity ch" and ?st = "joined now ws ch st"
    have ok: "jm_ok (rs_clients (evicted ?i st))" "jm_ok (rs_clients ?st)"
      using assms(1) by (auto simp: relay_inv_def joined_def evicted_def Let_def)
    have new: "relay_conn ?st ?i = Some (ws_raw ws)" by (simp add: joined_conn)
    have kept: "\<exists>j. relay_conn ?st j = Some r" if "relay_conn (evicted ?i st) j = Some r" for j
      using that by (auto simp: joined_conn evicted_conn split: if_splits)
    have "Send r f \<in> set (notifyPresence (evicted ?i st) ?i False) \<or> Send r f \<in> set (notifyPresence ?st ?i True)
        \<or> (r = ws_raw ws \<and> frame_from f = None)"
      using assms(2) auth(4) handleAuth_met [OF assms(1) auth(3)] by (auto simp: pf split: option.splits)
    then have "frame_from f = None \<and> (\<exists>j. relay_conn ?st j = Some r)"
      using notifyPresence_frames [OF ok(1)] notifyPresence_frames [OF ok(2)] kept new pf(1) by metis
    moreover have "fst (relay_step c e st) = ?st" using auth(4) handleAuth_met [OF assms(1) auth(3)] by simp
    ultimately show ?thesis by simp
  next
    case (msg ws frame ref now cl)
    then have cl: "jm_get (rs_clients st) (ws_identity ws) = Some cl" "ws_raw (ci_ws cl) = ws_raw ws" by (simp_all add: own_client_iff)
    have "client_frame st (ws_identity ws) r f"
      using handleMessage_frame [OF cl(1) relay_invD(1) [OF assms(1) cl(1)]] assms(2) msg(4) by simp
    moreover have "relay_conn st (ws_identity ws) = Some (ws_raw ws)" using relay_conn_Some [OF cl(1)] cl(2) by simp
    ultimately show ?thesis
      using handleMessage_state(2) [OF assms(1) cl(1)] msg(1,4) by (auto simp: client_frame_def)
  next
    case (leave ws cl)
    then have cl: "jm_get (rs_clients st) (ws_identity ws) = Some cl" by (simp add: own_client_iff)
    let ?st = "evicted (ws_identity ws) st"
    have ok: "jm_ok (rs_clients ?st)" using assms(1) by (simp add: relay_inv_def evicted_def)
    have step: "relay_step c e st = (?st, notifyPresence ?st (ws_identity ws) False)"
      using leave(4) removeClient_stored [OF cl relay_invD(1) [OF assms(1) cl]] by simp
    then have "f = presence_notice (ws_identity ws) False \<and> (\<exists>j. relay_conn ?st j = Some r)"
      using assms(2) notifyPresence_frames [OF ok] by simp
    then show ?thesis using step pf(1) by simp
  qed
  then show "(\<exists>i. relay_conn (fst (relay_step c e st)) i = Some r) \<or> (\<exists>ws nonce. e = Open ws nonce \<and> ws_raw ws = r)"
    "frame_from f = Some v \<Longrightarrow> \<exists>ws frame ref now i. e = Message ws frame ref now \<and> relay_conn st i = Some (ws_raw ws) \<and> v = JStr i"
    by blast+
qed

lemma relay_inv_init: "relay_inv sk new_relay"
  by (simp add: relay_inv_def new_relay_def rooms_ok_def relay_members_def jm_get_or_def)

interpretation standalone: relay_service c "relay_step c" new_relay relay_inv relay_conn "\<lambda>st. jm_get (rs_pending st)" "\<lambda>_. True"
  for c
proof (unfold_locales, goal_cases)
  case (1 sk)
  show ?case by (rule relay_inv_init)
next
  case (2 i)
  show ?case by (simp add: relay_conn_def new_relay_def)
next
  case (3 r)
  show ?case by (simp add: new_relay_def)
next
  case (4 sk s e)
  then show ?case by (rule relay_inv_step)
next
  case (5 sk s r i)
  then show ?case using relay_invD(4) [of sk s i] by (auto simp: relay_conn_def)
next
  case (6 sk s e i r)
  then show ?case by (rule relay_conn_step)
next
  case (7 sk s e r ch)
  then show ?case by (rule relay_waiting_step)
next
  case (8 sk s ws i)
  then show ?case by (rule relay_closed)
next
  case (9 sk s r f e v)
  then show ?case using relay_sends(2) by blast
next
  case (10 sk s i r e fl now)
  then show ?case using relay_view_cases(1) by blast
next
  case (11 sk s r e i fl now)
  then show ?case using relay_view_cases(1) by blast
next
  case (12 sk s e r fl now V)
  then show ?case using relay_view_cases(2) by blast
next
  case (13 sk s r f e)
  then show ?case using relay_sends(1) by blast
qed

end
