(* ===== verification/Worker_Relay_Inv.thy ===== *)
theory Worker_Relay_Inv
  imports Worker_Relay Relay_Inv
begin

text \<open>
  The invariant of the hosted relay and the proof that it keeps the contract of
  \<open>Relay_Contract\<close>; the \<open>from\<close> of a room event is the one exception.
\<close>

section \<open>Invariant\<close>

definition session_conn :: "relay_session \<Rightarrow> string \<Rightarrow> nat option" where
  "session_conn s i = map_option ce_ws (jm_get (se_connections s) i)"

definition session_members :: "relay_session \<Rightarrow> string \<Rightarrow> js_key list option" where
  "session_members s i = map_option ce_rooms (jm_get (se_connections s) i)"

definition session_inv :: "relay_session \<Rightarrow> bool" where
  "session_inv s \<longleftrightarrow> jm_ok (se_connections s)
     \<and> (\<forall>i r. session_conn s i = Some r \<longleftrightarrow> jm_get (se_socketIdentity s) r = Some i)
     \<and> (\<forall>i r. session_conn s i = Some r \<longrightarrow> i \<noteq> [] \<and> jm_get (se_pending s) r = None)
     \<and> (\<forall>r ch. jm_get (se_pending s) r = Some ch \<longrightarrow> ch_identity ch \<noteq> [])
     \<and> rooms_ok (session_members s) (se_roomSubscriptions s)"

lemma session_invI:
  assumes "jm_ok (se_connections s)" "\<And>i r. session_conn s i = Some r \<longleftrightarrow> jm_get (se_socketIdentity s) r = Some i"
    "\<And>i r. session_conn s i = Some r \<Longrightarrow> i \<noteq> [] \<and> jm_get (se_pending s) r = None"
    "\<And>r ch. jm_get (se_pending s) r = Some ch \<Longrightarrow> ch_identity ch \<noteq> []"
    "rooms_ok (session_members s) (se_roomSubscriptions s)"
  shows "session_inv s"
  unfolding session_inv_def using assms by blast

lemma session_invD:
  assumes "session_inv s"
  shows "jm_ok (se_connections s)" "session_conn s i = Some r \<longleftrightarrow> jm_get (se_socketIdentity s) r = Some i"
    "session_conn s i = Some r \<Longrightarrow> i \<noteq> []" "session_conn s i = Some r \<Longrightarrow> jm_get (se_pending s) r = None"
    "jm_get (se_pending s) r = Some ch \<Longrightarrow> ch_identity ch \<noteq> []"
    "rooms_ok (session_members s) (se_roomSubscriptions s)"
  using assms unfolding session_inv_def by blast+

lemma session_conn_Some: "jm_get (se_connections s) i = Some e \<Longrightarrow> session_conn s i = Some (ce_ws e)"
  by (simp add: session_conn_def)

lemma session_inv_rooms:
  assumes "session_inv s" "jm_get (se_connections s) i = Some e" "rooms_ok ((session_members s)(i \<mapsto> rs)) subs"
  defines "s' \<equiv> s\<lparr>se_connections := jm_set i (e\<lparr>ce_rooms := rs\<rparr>) (se_connections s), se_roomSubscriptions := subs\<rparr>"
  shows "session_inv s'" "session_conn s' = session_conn s" "se_pending s' = se_pending s"
proof -
  show c: "session_conn s' = session_conn s" using assms(2) by (auto simp: s'_def session_conn_def jm_simps)
  have "session_members s' = (session_members s)(i \<mapsto> rs)" by (auto simp: s'_def session_members_def jm_simps)
  then show "session_inv s'" using assms(1,3) unfolding session_inv_def c by (simp add: s'_def)
  show "se_pending s' = se_pending s" by (simp add: s'_def)
qed

lemma session_dispatch_state:
  fixes msg ref
  assumes "session_inv s" "jm_get (se_connections s) i = Some e"
  defines "s' \<equiv> fst (session_dispatch i msg ref s)"
  shows "session_inv s'" "session_conn s' = session_conn s" "se_pending s' = se_pending s"
proof -
  have ok: "rooms_ok (session_members s) (se_roomSubscriptions s)" using assms(1) by (simp add: session_inv_def)
  have m: "session_members s i = Some (ce_rooms e)" using assms(2) by (simp add: session_members_def)
  let ?good = "\<lambda>s'. session_inv s' \<and> session_conn s' = session_conn s \<and> se_pending s' = se_pending s"
  have sub: "?good (subscribeRoom i r s)" for r
    using session_inv_rooms [OF assms(1,2) rooms_ok_subscribe [OF ok m, of r]] assms(2) by (simp add: subscribeRoom_def)
  have unsub: "?good (unsubscribeRoom i r s)" for r
    using session_inv_rooms [OF assms(1,2) rooms_ok_unsubscribe [OF ok m, of r]] assms(2) by (simp add: unsubscribeRoom_def)
  have "?good s'" using sub unsub assms(1) unfolding s'_def session_dispatch_def Let_def by (simp del: jfield.simps)
  then show "session_inv s'" "session_conn s' = session_conn s" "se_pending s' = se_pending s" by simp_all
qed

section \<open>What is sent\<close>

text \<open>
  The frames an authenticated client can cause; the \<open>from\<close> of a room event is the client's own
  choice, every other one is its identity.
\<close>

definition session_frame :: "relay_session \<Rightarrow> string \<Rightarrow> nat \<Rightarrow> (string \<times> jval) list \<Rightarrow> bool" where
  "session_frame s i r f \<longleftrightarrow> (\<exists>j. session_conn s j = Some r)
     \<and> frame_type f \<notin> {Some (JStr ''presence_snapshot''), Some (JStr ''presence''), Some (JStr ''presence_update'')}
     \<and> (frame_type f = Some (JStr ''room_event'') \<or> frame_from f \<in> {None, Some (JStr i)})"

lemma jfield_jm_set: "jfield (jm_set k v fs) k' = (if k' = k then Some v else jfield fs k')"
  using jm_get_set [of k v fs k'] by (simp add: jm_get_def)

lemma forward_target:
  assumes "string_key k (se_connections s) = Some t"
  shows "\<exists>j. session_conn s j = Some (ce_ws t)"
  using string_key_Some [OF assms] session_conn_Some by blast

lemma forward_frames:
  assumes "Send r f \<in> set (forwardDm i msg s) \<union> set (forwardReceipt i msg s)"
  shows "session_frame s i r f"
proof -
  obtain t where t: "string_key (jfield msg ''to'') (se_connections s) = Some t"
    using assms by (cases "string_key (jfield msg ''to'') (se_connections s)") (auto simp: forwardDm_def forwardReceipt_def simp del: jfield.simps)
  then show ?thesis
    using assms forward_target [OF t]
    by (auto simp: forwardDm_def forwardReceipt_def session_frame_def frame_type_def frame_from_def jfield_Cons simp del: jfield.simps)
qed

lemma forwardSignaling_frame:
  assumes "Send r f \<in> set (forwardSignaling i msg s)"
  shows "(\<exists>j. session_conn s j = Some r) \<and> frame_type f = jfield msg ''type'' \<and> frame_from f = Some (JStr i)"
proof -
  obtain t where t: "string_key (jfield msg ''to'') (se_connections s) = Some t"
    using assms by (cases "string_key (jfield msg ''to'') (se_connections s)") (auto simp: forwardSignaling_def simp del: jfield.simps)
  then show ?thesis
    using assms forward_target [OF t]
    by (auto simp: forwardSignaling_def frame_type_def frame_from_def jfield_jm_set simp del: jfield.simps)
qed

lemma broadcastRoomEvent_frame:
  assumes "Send r f \<in> set (broadcastRoomEvent i msg ref s)"
  shows "(\<exists>j. session_conn s j = Some r) \<and> f = msg"
proof -
  obtain xs where xs: "jm_get (se_roomSubscriptions s) (key_of ref (jfield msg ''room_id'')) = Some xs"
    using assms by (cases "jm_get (se_roomSubscriptions s) (key_of ref (jfield msg ''room_id''))")
      (auto simp: broadcastRoomEvent_def simp del: jfield.simps)
  obtain x where x: "x \<in> set xs" "Send r f \<in> set (case jm_get (se_connections s) x of None \<Rightarrow> [] | Some entry \<Rightarrow> [Send (ce_ws entry) msg])"
    using assms xs by (auto simp: broadcastRoomEvent_def simp del: jfield.simps split: if_splits)
  then show ?thesis using session_conn_Some [of s x] by (cases "jm_get (se_connections s) x") auto
qed

lemma session_dispatch_frame:
  assumes "Send r f \<in> set (snd (session_dispatch i msg ref s))"
  shows "session_frame s i r f"
proof -
  let ?t = "jfield msg ''type''"
  consider "?t = Some (JStr ''session_offer'') \<or> ?t = Some (JStr ''session_answer'') \<or> ?t = Some (JStr ''candidate'')"
      "Send r f \<in> set (forwardSignaling i msg s)"
    | "Send r f \<in> set (forwardDm i msg s) \<union> set (forwardReceipt i msg s)"
    | "?t = Some (JStr ''room_event'')" "Send r f \<in> set (broadcastRoomEvent i msg ref s)"
    using assms unfolding session_dispatch_def Let_def by (simp split: if_splits del: jfield.simps)
  then show ?thesis
  proof cases
    case 1
    then show ?thesis using forwardSignaling_frame [OF 1(2)] by (auto simp: session_frame_def)
  next
    case 2
    then show ?thesis by (rule forward_frames)
  next
    case 3
    then show ?thesis using broadcastRoomEvent_frame [OF 3(2)] by (auto simp: session_frame_def frame_type_def simp del: jfield.simps)
  qed
qed

lemma session_frames_view:
  assumes "\<And>f. Send r f \<in> set outs \<Longrightarrow> session_frame s i r f"
  shows "presence_view fl now r outs V = V"
  using assms by (intro plain_frames_view) (auto simp: session_frame_def)

section \<open>Leaving and joining\<close>

definition dropped :: "string \<Rightarrow> relay_session \<Rightarrow> relay_session" where
  "dropped i s = s\<lparr>se_connections := jm_del i (se_connections s), se_roomSubscriptions :=
     (case jm_get (se_connections s) i of None \<Rightarrow> se_roomSubscriptions s
      | Some e \<Rightarrow> fold (drop_subscriber i) (ce_rooms e) (se_roomSubscriptions s)),
     se_socketIdentity := (case jm_get (se_connections s) i of None \<Rightarrow> se_socketIdentity s
      | Some e \<Rightarrow> jm_del (ce_ws e) (se_socketIdentity s))\<rparr>"

lemma dropped_conn: "session_conn (dropped i s) = (session_conn s)(i := None)"
  by (auto simp: session_conn_def dropped_def jm_simps)

lemma dropped_pending [simp]: "se_pending (dropped i s) = se_pending s"
  by (simp add: dropped_def)

lemma session_inv_dropped:
  assumes "session_inv s"
  shows "session_inv (dropped i s)"
proof -
  have ok: "rooms_ok (session_members s) (se_roomSubscriptions s)" using assms by (simp add: session_inv_def)
  have m: "session_members (dropped i s) = (session_members s)(i := None)"
    by (auto simp: session_members_def dropped_def jm_simps)
  have rooms: "rooms_ok ((session_members s)(i := None)) (se_roomSubscriptions (dropped i s))"
  proof (cases "jm_get (se_connections s) i")
    case None
    then have "(session_members s)(i := None) = session_members s" by (auto simp: session_members_def)
    then show ?thesis using ok None by (simp add: dropped_def)
  next
    case (Some e)
    then show ?thesis using rooms_ok_remove [OF ok, of i "ce_rooms e"] by (simp add: session_members_def dropped_def)
  qed
  have ids: "(session_conn (dropped i s) j = Some r) = (jm_get (se_socketIdentity (dropped i s)) r = Some j)" for j r
  proof (cases "jm_get (se_connections s) i")
    case None
    then have "session_conn s i = None" by (simp add: session_conn_def)
    then have "session_conn (dropped i s) = session_conn s" by (auto simp: dropped_conn)
    then show ?thesis using assms None by (simp add: session_inv_def dropped_def)
  next
    case (Some e)
    have iff: "session_conn s k = Some q \<longleftrightarrow> jm_get (se_socketIdentity s) q = Some k" for k q
      using assms unfolding session_inv_def by blast
    have "se_socketIdentity (dropped i s) = jm_del (ce_ws e) (se_socketIdentity s)" using Some by (simp add: dropped_def)
    then show ?thesis using session_conn_Some [OF Some] iff [of i "ce_ws e"] iff [of j r] by (auto simp: dropped_conn jm_simps)
  qed
  have sub: "session_conn s j = Some r" if "session_conn (dropped i s) j = Some r" for j r
    using that by (auto simp: dropped_conn split: if_splits)
  have "jm_ok (se_connections (dropped i s))" using session_invD(1) [OF assms] by (simp add: dropped_def)
  then show ?thesis
    using rooms ids session_invD(5) [OF assms] session_invD(3,4) [OF assms sub]
    by (intro session_invI) (simp_all add: m)
qed

lemma removeConnection_state:
  assumes "jm_get (se_connections s) i = Some e"
  shows "removeConnection i s = ((dropped i s)\<lparr>se_socketIdentity := se_socketIdentity s\<rparr>, session_notifyPresence (dropped i s) i False)"
  using assms by (simp add: removeConnection_def dropped_def session_notifyPresence_def Let_def)

definition session_joined :: "nat \<Rightarrow> challenge \<Rightarrow> relay_session \<Rightarrow> relay_session" where
  "session_joined ws ch s = (let s1 = dropped (ch_identity ch) (s\<lparr>se_pending := jm_del ws (se_pending s)\<rparr>) in
     s1\<lparr>se_connections := jm_set (ch_identity ch)
          \<lparr>ce_ws = ws, ce_identity = ch_identity ch, ce_device = ch_device ch, ce_rooms = []\<rparr> (se_connections s1),
        se_socketIdentity := jm_set ws (ch_identity ch) (se_socketIdentity s1)\<rparr>)"

lemma session_joined_conn: "session_conn (session_joined ws ch s) = (session_conn s)(ch_identity ch \<mapsto> ws)"
  by (auto simp: session_conn_def session_joined_def dropped_def jm_simps Let_def)

lemma session_joined_pending: "se_pending (session_joined ws ch s) = jm_del ws (se_pending s)"
  by (simp add: session_joined_def Let_def)

lemma session_inv_pending:
  assumes "session_inv s" "\<And>i r. session_conn s i = Some r \<Longrightarrow> jm_get p r = None"
    "\<And>r ch. jm_get p r = Some ch \<Longrightarrow> ch_identity ch \<noteq> []"
  shows "session_inv (s\<lparr>se_pending := p\<rparr>)"
proof -
  have [simp]: "session_conn (s\<lparr>se_pending := p\<rparr>) = session_conn s" "session_members (s\<lparr>se_pending := p\<rparr>) = session_members s"
    by (auto simp: session_conn_def session_members_def)
  show ?thesis using session_invD [OF assms(1)] assms(2,3) by (intro session_invI) simp_all
qed

lemma session_inv_joined:
  assumes "session_inv s" "jm_get (se_pending s) ws = Some ch"
  shows "session_inv (session_joined ws ch s)"
proof -
  define i where "i = ch_identity ch"
  define s1 where "s1 = dropped i (s\<lparr>se_pending := jm_del ws (se_pending s)\<rparr>)"
  have "session_inv (s\<lparr>se_pending := jm_del ws (se_pending s)\<rparr>)"
    using session_invD [OF assms(1)] by (intro session_inv_pending assms(1)) (auto simp: jm_simps split: if_splits)
  then have inv: "session_inv s1" unfolding s1_def by (rule session_inv_dropped)
  have p: "se_pending s1 = jm_del ws (se_pending s)" by (simp add: s1_def)
  have c0: "session_conn (s\<lparr>se_pending := q\<rparr>) = session_conn s" for q by (auto simp: session_conn_def)
  have c1: "session_conn s1 i = None" "\<And>j. session_conn s1 j \<noteq> Some ws"
    using session_invD(4) [OF assms(1), of _ ws] assms(2) by (auto simp: s1_def dropped_conn c0 split: if_splits)
  have j: "session_joined ws ch s = s1\<lparr>se_connections := jm_set i
      \<lparr>ce_ws = ws, ce_identity = i, ce_device = ch_device ch, ce_rooms = []\<rparr> (se_connections s1),
      se_socketIdentity := jm_set ws i (se_socketIdentity s1)\<rparr>"
    by (simp add: session_joined_def Let_def i_def s1_def)
  have c: "session_conn (session_joined ws ch s) = (session_conn s1)(i \<mapsto> ws)"
    unfolding j by (auto simp: session_conn_def jm_simps)
  have "session_members s1 i = None" using c1(1) by (simp add: session_members_def session_conn_def)
  then have "rooms_ok ((session_members s1)(i \<mapsto> [])) (se_roomSubscriptions s1)"
    by (rule rooms_ok_connect [OF session_invD(6) [OF inv]])
  moreover have "session_members (session_joined ws ch s) = (session_members s1)(i \<mapsto> [])"
    unfolding j by (auto simp: session_members_def jm_simps)
  ultimately have rooms: "rooms_ok (session_members (session_joined ws ch s)) (se_roomSubscriptions (session_joined ws ch s))"
    by (simp add: j)
  have ids: "(session_conn (session_joined ws ch s) k = Some r) = (jm_get (se_socketIdentity (session_joined ws ch s)) r = Some k)" for k r
    using session_invD(2) [OF inv, of k r] session_invD(2) [OF inv, of i r] c1 unfolding c by (auto simp: j jm_simps)
  have "i \<noteq> []" using session_invD(5) [OF assms] by (simp add: i_def)
  then have "k \<noteq> [] \<and> jm_get (jm_del ws (se_pending s)) r = None" if "session_conn (session_joined ws ch s) k = Some r" for k r
    using that session_invD(3,4) [OF inv, of k r] unfolding c p by (auto simp: jm_simps split: if_splits)
  then show ?thesis
    using rooms ids session_invD(1,5) [OF inv]
    by (intro session_invI) (simp_all add: j p)
qed

lemma session_handleAuth_met:
  assumes "challenge_met c ch frame now"
  shows "session_handleAuth c now ws ch frame s = (session_joined ws ch s,
    (case jm_get (se_connections s) (ch_identity ch) of None \<Rightarrow> []
     | Some e \<Rightarrow> SendError (ce_ws e) ReplacedByNewConnection
         # session_notifyPresence (dropped (ch_identity ch) s) (ch_identity ch) False @ [CloseSocket (ce_ws e)])
    @ [Send ws [(''type'', JStr ''authenticated''), (''identity'', JStr (ch_identity ch))],
       Send ws (snapshot_frame (map fst (se_connections (session_joined ws ch s))))]
    @ session_notifyPresence (session_joined ws ch s) (ch_identity ch) True)"
proof -
  define i where "i = ch_identity ch"
  define s0 where "s0 = s\<lparr>se_pending := jm_del ws (se_pending s)\<rparr>"
  have n: "session_notifyPresence (dropped i s0) i False = session_notifyPresence (dropped i s) i False"
    by (simp add: session_notifyPresence_def dropped_def s0_def)
  show ?thesis
  proof (cases "jm_get (se_connections s) i")
    case None
    then have "dropped i s0 = s0" by (simp add: dropped_def s0_def jm_del_absent)
    then show ?thesis
      using assms None unfolding session_handleAuth_def session_joined_def
      by (simp add: Let_def i_def [symmetric] s0_def [symmetric]) (simp add: s0_def)
  next
    case (Some e)
    have e: "jm_get (se_connections s0) i = Some e" using Some by (simp add: s0_def)
    have "(dropped i s0)\<lparr>se_socketIdentity := jm_del (ce_ws e) (se_socketIdentity s0)\<rparr> = dropped i s0"
      using e by (simp add: dropped_def)
    then show ?thesis
      using assms Some e removeConnection_state [OF e] unfolding session_handleAuth_def session_joined_def
      by (simp add: Let_def i_def [symmetric] s0_def [symmetric] n)
  qed
qed

section \<open>The relay keeps the contract\<close>

lemma session_step_cases:
  fixes s
  assumes "session_inv s"
  obtains (quiet) p where "fst (session_step c e s) = s\<lparr>se_pending := p\<rparr>"
      "\<forall>r ch. jm_get p r = Some ch \<longrightarrow> jm_get (se_pending s) r = Some ch
         \<or> (\<exists>ws nonce. e = Open ws nonce \<and> ws_raw ws = r \<and> ch = challenge_for ws nonce \<and> ch_identity ch \<noteq> [])"
      "\<forall>r f. Send r f \<in> set (snd (session_step c e s)) \<longrightarrow> frame_type f = Some (JStr ''auth_challenge'')
         \<and> frame_from f = None \<and> (\<exists>ws nonce. e = Open ws nonce \<and> ws_raw ws = r)"
      "\<forall>ws. e = Closed ws \<longrightarrow> jm_get p (ws_raw ws) = None \<and> (\<forall>i. session_conn s i \<noteq> Some (ws_raw ws))"
    | (auth) ws frame ref now ch where "e = Message ws frame ref now" "jm_get (se_pending s) (ws_raw ws) = Some ch"
      "challenge_met c ch frame now" "session_step c e s = session_handleAuth c now (ws_raw ws) ch frame s"
    | (msg) ws frame ref now i en m where "e = Message ws frame ref now" "jm_get (se_connections s) i = Some en"
      "ce_ws en = ws_raw ws" "session_step c e s = session_dispatch i m ref s"
    | (leave) ws i en where "e = Closed ws" "jm_get (se_connections s) i = Some en" "ce_ws en = ws_raw ws"
      "session_step c e s = (dropped i s, session_notifyPresence (dropped i s) i False)"
proof (cases e)
  case (Open ws nonce)
  show ?thesis
  proof (cases "handleWebSocketUpgrade ws nonce s")
    case None
    then show ?thesis using Open by (intro quiet [of "se_pending s"]) simp_all
  next
    case (Some r)
    have "frame_type [(''type'', JStr ''auth_challenge''), (''nonce'', JStr nonce)] = Some (JStr ''auth_challenge'')"
      "frame_from [(''type'', JStr ''auth_challenge''), (''nonce'', JStr nonce)] = None"
      by (simp_all add: frame_type_def frame_from_def)
    then show ?thesis
      using Open Some by (intro quiet [of "jm_set (ws_raw ws) (challenge_for ws nonce) (se_pending s)"])
        (auto simp: handleWebSocketUpgrade_def challenge_for_def jm_simps split: if_splits)
  qed
next
  case (Message ws frame ref now)
  let ?r = "ws_raw ws"
  have reject: thesis if "session_step c e s = rejectAuth ?r x s" for x
    using Message that by (intro quiet [of "jm_del ?r (se_pending s)"]) (auto simp: rejectAuth_def jm_simps)
  show ?thesis
  proof (cases "jm_get (se_pending s) ?r")
    case (Some ch)
    show ?thesis
    proof (cases "challenge_met c ch frame now")
      case True
      then show ?thesis using Message Some by (intro auth) (simp_all add: webSocketMessage_def)
    next
      case False
      then show ?thesis using Message Some by (intro reject) (simp add: webSocketMessage_def session_handleAuth_def)
    qed
  next
    case None
    show ?thesis
    proof (cases "jm_get (se_socketIdentity s) ?r")
      case None' : None
      then show ?thesis using Message None by (intro reject) (simp add: webSocketMessage_def)
    next
      case (Some i)
      then have conn: "session_conn s i = Some ?r" using session_invD(2) [OF assms] by simp
      then obtain en where en: "jm_get (se_connections s) i = Some en" "ce_ws en = ?r" by (auto simp: session_conn_def)
      have step: "session_step c e s = (if jfield (parsed_message frame) ''type'' = Some (JStr ''invalid'')
          then (s, [SendError ?r InvalidJson]) else session_dispatch i (parsed_message frame) ref s)"
        using Message None Some en session_invD(3) [OF assms conn]
        by (simp add: webSocketMessage_def Let_def del: jfield.simps)
      show ?thesis
      proof (cases "jfield (parsed_message frame) ''type'' = Some (JStr ''invalid'')")
        case True
        then show ?thesis using Message step by (intro quiet [of "se_pending s"]) (simp_all del: jfield.simps session_step.simps)
      next
        case False
        then show ?thesis using Message step en by (intro msg) (simp_all del: jfield.simps session_step.simps)
      qed
    qed
  qed
next
  case (Closed ws)
  let ?r = "ws_raw ws"
  show ?thesis
  proof (cases "jm_get (se_socketIdentity s) ?r")
    case None
    then have "session_conn s i \<noteq> Some ?r" for i using session_invD(2) [OF assms] by simp
    then show ?thesis
      using Closed None by (intro quiet [of "jm_del ?r (se_pending s)"]) (auto simp: dropSocket_def jm_del_absent jm_simps Let_def)
  next
    case (Some i)
    then have conn: "session_conn s i = Some ?r" using session_invD(2) [OF assms] by simp
    then obtain en where en: "jm_get (se_connections s) i = Some en" "ce_ws en = ?r" by (auto simp: session_conn_def)
    have p: "jm_del ?r (se_pending s) = se_pending s" by (rule jm_del_absent [OF session_invD(4) [OF assms conn]])
    let ?s = "s\<lparr>se_socketIdentity := jm_del ?r (se_socketIdentity s)\<rparr>"
    have "jm_get (se_connections ?s) i = Some en" using en by simp
    from removeConnection_state [OF this]
    have "removeConnection i ?s = (dropped i s, session_notifyPresence (dropped i s) i False)"
      using en by (simp add: dropped_def session_notifyPresence_def)
    then show ?thesis
      using Closed Some en session_invD(3) [OF assms conn] by (intro leave) (simp_all add: dropSocket_def p Let_def)
  qed
next
  case (Timeout ws)
  then show ?thesis
    by (intro quiet [of "jm_del (ws_raw ws) (se_pending s)"]) (auto simp: rejectAuth_def jm_has_get jm_del_absent jm_simps)
qed

lemma session_notifyPresence_map:
  "session_notifyPresence s i on = map (\<lambda>x. Send (ce_ws (snd x)) (presence_notice i on)) (se_connections s)"
  by (auto simp: session_notifyPresence_def)

lemma session_routed: "jm_ok (se_connections s) \<Longrightarrow> r \<in> (\<lambda>x. ce_ws (snd x)) ` set (se_connections s) \<longleftrightarrow> (\<exists>i. session_conn s i = Some r)"
  by (auto simp: session_conn_def image_iff Bex_def jm_in_set_get)

lemma session_notify_view:
  "jm_ok (se_connections s) \<Longrightarrow> presence_view fl now r (session_notifyPresence s i on) V
     = (if \<exists>j. session_conn s j = Some r then (if on then insert i V else V - {i}) else V)"
  unfolding session_notifyPresence_map presence_view_notify by (simp only: session_routed)

lemma session_notify_frames:
  "jm_ok (se_connections s) \<Longrightarrow> Send r f \<in> set (session_notifyPresence s i on) \<Longrightarrow> f = presence_notice i on \<and> (\<exists>j. session_conn s j = Some r)"
  unfolding session_notifyPresence_map session_routed [symmetric] by auto

lemma session_keys: "set (map fst (se_connections s)) = dom (session_conn s)"
  using jm_keys_get [of "se_connections s"] by (auto simp: session_conn_def dom_def)

lemma session_conn_pending [simp]: "session_conn (s\<lparr>se_pending := p\<rparr>) = session_conn s"
  by (auto simp: session_conn_def)

lemma session_handleAuth_view:
  fixes ws
  assumes "session_inv s" "challenge_met c ch frame t"
  defines "s' \<equiv> session_joined ws ch s" and "outs \<equiv> snd (session_handleAuth c t ws ch frame s)"
  shows "V \<subseteq> dom (session_conn s') \<Longrightarrow> presence_view fl now ws outs V = dom (session_conn s')"
    and "r \<noteq> ws \<Longrightarrow> presence_view fl now r outs V = (if \<exists>j. session_conn s' j = Some r then insert (ch_identity ch) V else V)"
proof -
  let ?i = "ch_identity ch"
  have ok: "jm_ok (se_connections (dropped ?i s))" "jm_ok (se_connections s')"
    using session_invD(1) [OF assms(1)] by (simp_all add: s'_def session_joined_def dropped_def Let_def)
  have conn: "session_conn s' = (session_conn s)(?i \<mapsto> ws)" by (simp add: s'_def session_joined_conn)
  have keys: "set (map fst (se_connections s')) = dom ((session_conn s)(?i \<mapsto> ws))" by (simp only: session_keys conn)
  note view = join_view [OF arg_cong [OF session_handleAuth_met [OF assms(2), of ws s], of snd, unfolded snd_conv, folded outs_def s'_def],
    where fl = fl and now = now and b = "jm_get (se_connections s) ?i \<noteq> None", OF _ _ _ keys]
  show "V \<subseteq> dom (session_conn s') \<Longrightarrow> presence_view fl now ws outs V = dom (session_conn s')"
    unfolding conn by (rule view(1)) (auto simp: session_notify_view ok dropped_conn conn frame_type_def split: option.split)
  show "r \<noteq> ws \<Longrightarrow> presence_view fl now r outs V = (if \<exists>j. session_conn s' j = Some r then insert ?i V else V)"
    unfolding conn by (rule view(2)) (auto simp: session_notify_view ok dropped_conn conn frame_type_def split: option.split)
qed

lemma session_inv_step:
  assumes "session_inv s"
    and fresh: "\<And>ws nonce. e = Open ws nonce \<Longrightarrow> jm_get (se_pending s) (ws_raw ws) = None \<and> (\<forall>i. session_conn s i \<noteq> Some (ws_raw ws))"
  shows "session_inv (fst (session_step c e s))"
  using assms(1)
proof (cases rule: session_step_cases [of s c e])
  case (quiet p)
  have "jm_get p r = None" if conn: "session_conn s i = Some r" for i r
  proof (cases "jm_get p r")
    case (Some ch)
    then show ?thesis using quiet(2) session_invD(4) [OF assms(1) conn] fresh conn by fastforce
  qed
  moreover have "ch_identity ch \<noteq> []" if "jm_get p r = Some ch" for r ch
    using that quiet(2) session_invD(5) [OF assms(1)] by fastforce
  ultimately show ?thesis unfolding quiet(1) by (rule session_inv_pending [OF assms(1)])
next
  case (auth ws frame ref now ch)
  then show ?thesis using session_inv_joined [OF assms(1) auth(2)] session_handleAuth_met [OF auth(3)] by simp
next
  case (msg ws frame ref now i en m)
  then show ?thesis using session_dispatch_state(1) [OF assms(1) msg(2)] by simp
next
  case (leave ws i en)
  then show ?thesis using session_inv_dropped [OF assms(1)] by simp
qed

lemma session_view_cases:
  fixes e c
  assumes "session_inv s"
  defines "s' \<equiv> fst (session_step c e s)" and "outs \<equiv> snd (session_step c e s)"
  shows "V = dom (session_conn s) \<or> (jm_get (se_pending s) r \<noteq> None \<and> V = {}) \<Longrightarrow> session_conn s' i = Some r
      \<Longrightarrow> presence_view fl now r outs V = dom (session_conn s')"
    and "(\<And>i. session_conn s' i \<noteq> Some r) \<Longrightarrow> presence_view fl now r outs W = W"
proof -
  let ?V = "V = dom (session_conn s) \<or> (jm_get (se_pending s) r \<noteq> None \<and> V = {})"
  let ?i = "session_conn s' i = Some r" and ?none = "\<forall>i. session_conn s' i \<noteq> Some r"
  have excl: "session_conn s j \<noteq> Some r" if "jm_get (se_pending s) r \<noteq> None" for j
    using session_invD(4) [OF assms(1), of j r] that by auto
  have still: "(?V \<longrightarrow> ?i \<longrightarrow> presence_view fl now r outs V = dom (session_conn s')) \<and> (?none \<longrightarrow> presence_view fl now r outs W = W)"
    if "session_conn s' = session_conn s" "\<And>U. presence_view fl now r outs U = U"
    using that excl by auto
  have "(?V \<longrightarrow> ?i \<longrightarrow> presence_view fl now r outs V = dom (session_conn s')) \<and> (?none \<longrightarrow> presence_view fl now r outs W = W)"
    using assms(1)
  proof (cases rule: session_step_cases [of s c e])
    case (quiet p)
    then show ?thesis by (intro still plain_frames_view) (auto simp: s'_def outs_def)
  next
    case (auth ws frame ref t ch)
    have s': "s' = session_joined (ws_raw ws) ch s" using auth(4) session_handleAuth_met [OF auth(3)] by (simp add: s'_def)
    have o: "outs = snd (session_handleAuth c t (ws_raw ws) ch frame s)" using auth(4) by (simp add: outs_def)
    note view = session_handleAuth_view [OF assms(1) auth(3), of _ "ws_raw ws", folded s' o]
    have conn: "session_conn s' = (session_conn s)(ch_identity ch \<mapsto> ws_raw ws)" unfolding s' by (rule session_joined_conn)
    show ?thesis
    proof (cases "r = ws_raw ws")
      case True
      then show ?thesis using view(1) [of V] conn by auto
    next
      case False
      then show ?thesis using view(2) [of r] conn excl by auto
    qed
  next
    case (msg ws frame ref now' j en m)
    show ?thesis
      using session_dispatch_state(2) [OF assms(1) msg(2)] session_dispatch_frame msg(4)
      by (intro still session_frames_view) (auto simp: s'_def outs_def)
  next
    case (leave ws j en)
    have "jm_ok (se_connections (dropped j s))" using session_invD(1) [OF session_inv_dropped [OF assms(1)]] .
    then show ?thesis
      using leave(4) excl by (auto simp: s'_def outs_def session_notify_view dropped_conn split: if_splits)
  qed
  then show "?V \<Longrightarrow> ?i \<Longrightarrow> presence_view fl now r outs V = dom (session_conn s')"
    "(\<And>i. session_conn s' i \<noteq> Some r) \<Longrightarrow> presence_view fl now r outs W = W"
    by blast+
qed

lemma session_conn_step:
  assumes "session_inv s" "session_conn (fst (session_step c e s)) i = Some r"
  shows "session_conn s i = Some r
    \<or> (\<exists>ws frame ref now ch. e = Message ws frame ref now \<and> ws_raw ws = r \<and> jm_get (se_pending s) r = Some ch
         \<and> ch_identity ch = i \<and> challenge_met c ch frame now)"
  using assms(1)
proof (cases rule: session_step_cases [of s c e])
  case (quiet p)
  then show ?thesis using assms(2) by simp
next
  case (auth ws frame ref now ch)
  then show ?thesis
    using assms(2) session_handleAuth_met [OF auth(3)] by (auto simp: session_joined_conn split: if_splits)
next
  case (msg ws frame ref now j en m)
  then show ?thesis using assms(2) session_dispatch_state(2) [OF assms(1) msg(2)] by simp
next
  case (leave ws j en)
  then show ?thesis using assms(2) by (auto simp: dropped_conn split: if_splits)
qed

lemma session_waiting_step:
  assumes "session_inv s" "jm_get (se_pending (fst (session_step c e s))) r = Some ch"
  shows "jm_get (se_pending s) r = Some ch \<or> (\<exists>ws nonce. e = Open ws nonce \<and> ws_raw ws = r \<and> ch = challenge_for ws nonce)"
  using assms(1)
proof (cases rule: session_step_cases [of s c e])
  case (quiet p)
  then show ?thesis using assms(2) by fastforce
next
  case (auth ws frame ref now ch)
  then show ?thesis
    using assms(2) session_handleAuth_met [OF auth(3)] by (auto simp: session_joined_pending jm_simps split: if_splits)
next
  case (msg ws frame ref now j en m)
  then show ?thesis using assms(2) session_dispatch_state(3) [OF assms(1) msg(2)] by simp
next
  case (leave ws j en)
  then show ?thesis using assms(2) by simp
qed

lemma session_closed:
  assumes "session_inv s"
  shows "session_conn (fst (session_step c (Closed ws) s)) i \<noteq> Some (ws_raw ws)
    \<and> jm_get (se_pending (fst (session_step c (Closed ws) s))) (ws_raw ws) = None"
  using assms
proof (cases rule: session_step_cases [of s c "Closed ws"])
  case (leave ws' j en)
  then have j: "session_conn s j = Some (ws_raw ws)" using session_conn_Some by auto
  have "k = j" if "session_conn s k = Some (ws_raw ws)" for k
    using that j session_invD(2) [OF assms] by auto
  then show ?thesis using leave(4) session_invD(4) [OF assms j] by (auto simp: dropped_conn simp del: session_step.simps)
qed (simp_all del: session_step.simps)

lemma session_sends:
  assumes "session_inv s" "Send r f \<in> set (snd (session_step c e s))"
  shows "(\<exists>i. session_conn (fst (session_step c e s)) i = Some r) \<or> (\<exists>ws nonce. e = Open ws nonce \<and> ws_raw ws = r)"
    and "frame_from f = Some v \<Longrightarrow> frame_type f \<noteq> Some (JStr ''room_event'')
      \<Longrightarrow> \<exists>ws frame ref now i. e = Message ws frame ref now \<and> session_conn s i = Some (ws_raw ws) \<and> v = JStr i"
proof -
  have pf: "frame_from (presence_notice i on) = None" "frame_from (snapshot_frame ids) = None"
    "frame_from [(''type'', JStr ''authenticated''), (''identity'', JStr i)] = None" for i on ids
    by (simp_all add: frame_from_def presence_notice_def snapshot_frame_def)
  have "((\<exists>i. session_conn (fst (session_step c e s)) i = Some r) \<or> (\<exists>ws nonce. e = Open ws nonce \<and> ws_raw ws = r))
    \<and> (frame_from f = Some v \<longrightarrow> frame_type f \<noteq> Some (JStr ''room_event'') \<longrightarrow>
        (\<exists>ws frame ref now i. e = Message ws frame ref now \<and> session_conn s i = Some (ws_raw ws) \<and> v = JStr i))"
    using assms(1)
  proof (cases rule: session_step_cases [of s c e])
    case (quiet p)
    then show ?thesis using assms(2) by fastforce
  next
    case (auth ws frame ref now ch)
    let ?i = "ch_identity ch" and ?s = "session_joined (ws_raw ws) ch s"
    have ok: "jm_ok (se_connections (dropped ?i s))" "jm_ok (se_connections ?s)"
      using session_invD(1) [OF assms(1)] by (auto simp: session_joined_def dropped_def Let_def)
    have new: "session_conn ?s ?i = Some (ws_raw ws)" by (simp add: session_joined_conn)
    have kept: "\<exists>j. session_conn ?s j = Some r" if "session_conn (dropped ?i s) j = Some r" for j
      using that by (auto simp: session_joined_conn dropped_conn split: if_splits)
    have "Send r f \<in> set (session_notifyPresence (dropped ?i s) ?i False) \<or> Send r f \<in> set (session_notifyPresence ?s ?i True)
        \<or> (r = ws_raw ws \<and> frame_from f = None)"
      using assms(2) auth(4) session_handleAuth_met [OF auth(3)] by (auto simp: pf split: option.splits)
    then have "frame_from f = None \<and> (\<exists>j. session_conn ?s j = Some r)"
      using session_notify_frames [OF ok(1)] session_notify_frames [OF ok(2)] kept new pf(1) by metis
    moreover have "fst (session_step c e s) = ?s" using auth(4) session_handleAuth_met [OF auth(3)] by simp
    ultimately show ?thesis by simp
  next
    case (msg ws frame ref now i en m)
    have "session_frame s i r f" using session_dispatch_frame assms(2) msg(4) by simp
    then show ?thesis
      using session_dispatch_state(2) [OF assms(1) msg(2)] session_conn_Some [OF msg(2)] msg(1,3,4) by (auto simp: session_frame_def)
  next
    case (leave ws j en)
    have ok: "jm_ok (se_connections (dropped j s))" using session_invD(1) [OF session_inv_dropped [OF assms(1)]] .
    have "f = presence_notice j False \<and> (\<exists>k. session_conn (dropped j s) k = Some r)"
      using assms(2) leave(4) session_notify_frames [OF ok] by simp
    then show ?thesis using leave(4) pf(1) by simp
  qed
  then show "(\<exists>i. session_conn (fst (session_step c e s)) i = Some r) \<or> (\<exists>ws nonce. e = Open ws nonce \<and> ws_raw ws = r)"
    "frame_from f = Some v \<Longrightarrow> frame_type f \<noteq> Some (JStr ''room_event'')
      \<Longrightarrow> \<exists>ws frame ref now i. e = Message ws frame ref now \<and> session_conn s i = Some (ws_raw ws) \<and> v = JStr i"
    by blast+
qed

lemma session_inv_init: "session_inv new_session"
  by (intro session_invI) (simp_all add: new_session_def session_conn_def rooms_ok_def session_members_def jm_get_or_def)

interpretation hosted: relay_service c "session_step c" new_session "\<lambda>_. session_inv" session_conn "\<lambda>s. jm_get (se_pending s)"
  "\<lambda>f. frame_type f \<noteq> Some (JStr ''room_event'')"
  for c
proof (unfold_locales, goal_cases)
  case 1
  show ?case by (rule session_inv_init)
next
  case (2 i)
  show ?case by (simp add: session_conn_def new_session_def)
next
  case (3 r)
  show ?case by (simp add: new_session_def)
next
  case (4 sk s e)
  then show ?case by (intro session_inv_step)
next
  case (5 sk s r i)
  then show ?case using session_invD(4) [of s i r] by auto
next
  case (6 sk s e i r)
  then show ?case by (intro session_conn_step)
next
  case (7 sk s e r ch)
  then show ?case by (intro session_waiting_step)
next
  case (8 sk s ws i)
  then show ?case by (intro session_closed)
next
  case (9 sk s r f e v)
  then show ?case by (intro session_sends(2))
next
  case (10 sk s i r e fl now)
  then show ?case using session_view_cases(1) by blast
next
  case (11 sk s r e i fl now)
  then show ?case using session_view_cases(1) by blast
next
  case (12 sk s e r fl now V)
  then show ?case using session_view_cases(2) by blast
next
  case (13 sk s r f e)
  then show ?case by (intro session_sends(1))
qed

end
