(* ===== verification/Relay_Properties.thy ===== *)
theory Relay_Properties
  imports Worker_Relay_Inv
begin

text \<open>
  The theorems on the two relays: who is admitted and whose messages are forwarded, what rooms and
  presence listeners see, and what happens to closed sockets. The client's side of the handshake
  (\<open>packages/client/src/client.ts\<close>) is included.
\<close>

section \<open>The client's answer\<close>

definition relayAuth :: "crypto \<Rightarrow> identity_signer \<Rightarrow> bytes \<Rightarrow> string \<Rightarrow> string \<Rightarrow> string \<Rightarrow> (string \<times> jval) list" where
  "relayAuth c signer identityId host deviceHex nonce =
     signIdentityAuthJson c signer ''relay.connect'' identityId
       [(''audience'', JStr host), (''nonce'', JStr nonce), (''deviceId'', JStr deviceHex)]"

text \<open>The reply to a frame of the relay, when it is a challenge.\<close>

definition challenge_reply ::
  "crypto \<Rightarrow> identity_signer \<Rightarrow> bytes \<Rightarrow> string \<Rightarrow> string \<Rightarrow> (string \<times> jval) list \<Rightarrow> jval option" where
  "challenge_reply c signer identityId host deviceHex msg =
     (case (jfield msg ''type'', jfield msg ''nonce'') of
        (Some (JStr t), Some (JStr nonce)) \<Rightarrow>
          (if t = ''auth_challenge''
           then Some (JObj ((''type'', JStr ''auth'') # opt_field ''auth'' (jfield (relayAuth c signer identityId host deviceHex nonce) ''auth'')))
           else None)
      | _ \<Rightarrow> None)"

definition relay_fields :: "challenge \<Rightarrow> jval" where
  "relay_fields ch = JObj [(''audience'', JStr (ch_audience ch)), (''nonce'', JStr (ch_nonce ch)), (''deviceId'', JStr (ch_device ch))]"

lemma relayAuth_auth:
  "jfield (relayAuth c s i host dev nonce) ''auth'' = Some (identityProofToJson (signIdentityAuth c s ''relay.connect'' i
     (JObj [(''audience'', JStr host), (''nonce'', JStr nonce), (''deviceId'', JStr dev)])))"
  unfolding relayAuth_def signIdentityAuthJson_def Let_def jfield_jm_set by simp

lemma challenge_met_signed:
  fixes ws nonce
  defines "ch \<equiv> challenge_for ws nonce"
  assumes "signatures_correct c" "device_signer c s cert i now"
    and "wire_proof (signIdentityAuth c s ''relay.connect'' i (relay_fields ch))"
    and "ws_identity ws = toHex i" "ws_device ws = toHex (dc_deviceId cert)" "ws_host ws = Some host"
  shows "challenge_met c ch (challenge_reply c s i host (ws_device ws) [(''type'', JStr ''auth_challenge''), (''nonce'', JStr nonce)]) now"
proof -
  let ?p = "signIdentityAuth c s ''relay.connect'' i (relay_fields ch)"
  have fs: "relay_fields ch = JObj [(''audience'', JStr host), (''nonce'', JStr nonce), (''deviceId'', JStr (ws_device ws))]"
    using assms(7) by (simp add: relay_fields_def ch_def challenge_for_def)
  obtain o1 where o1: "object_fields (identityProofToJson ?p) = Some o1" by (simp add: identityProofToJson_def object_fields_def)
  have reply: "auth_of (challenge_reply c s i host (ws_device ws) [(''type'', JStr ''auth_challenge''), (''nonce'', JStr nonce)])
      = Some (identityProofToJson ?p)"
    by (simp add: challenge_reply_def relayAuth_auth auth_of_def fs [symmetric] jfield_Cons o1 del: jfield.simps)
  have body: "JObj (without_auth (challenge_body ch a)) = relay_fields ch" for a
    by (simp add: without_auth_body relay_fields_def)
  have id: "ch_identity ch = toHex i" "ch_device ch = toHex (dc_deviceId cert)"
    using assms(5,6) by (simp_all add: ch_def challenge_for_def)
  have "verifyIdentityAuthJson c (challenge_body ch (identityProofToJson ?p)) ''relay.connect'' (Some (JStr (ch_identity ch))) now
      = Some \<lparr>vi_deviceId = Some (dc_deviceId cert)\<rparr>"
  proof -
    have a: "jfield (challenge_body ch (identityProofToJson ?p)) ''auth'' = Some (identityProofToJson ?p)"
      by (simp add: challenge_body_def)
    have "length i = 32" using assms(3) by (simp add: device_signer_def)
    then show ?thesis
      unfolding verifyIdentityAuthJson_def a identityProof_json [OF assms(4)] id body
      using signIdentityAuth_accepted [OF assms(2,3)] by simp
  qed
  then show ?thesis unfolding challenge_met_def reply by (simp add: id)
qed

section \<open>Admission\<close>

lemma id_hex_toHex: "length b = 32 \<Longrightarrow> id_hex (toHex b)"
  by (simp add: id_hex_def)

lemma relay_admits:
  fixes ws nonce
  defines "ch \<equiv> challenge_for ws nonce"
  assumes "relay_inv sk st" "challenge_met c ch frame now" "id_hex (ws_identity ws)" "id_hex (ws_device ws)"
    "ws_host ws = Some host" "host \<noteq> []" "jm_get (rs_pending st) (ws_raw ws) = None" "\<And>i. relay_conn st i \<noteq> Some (ws_raw ws)" "ws = sk (ws_raw ws)"
  shows "snd (relay_step c (Open ws nonce) st) = [Send (ws_raw ws) [(''type'', JStr ''auth_challenge''), (''nonce'', JStr nonce)]]"
    and "relay_conn (fst (relay_step c (Message ws frame ref now) (fst (relay_step c (Open ws nonce) st)))) (ws_identity ws) = Some (ws_raw ws)"
proof -
  have open': "relay_step c (Open ws nonce) st = (st\<lparr>rs_pending := jm_set (ws_raw ws) ch (rs_pending st)\<rparr>,
      [Send (ws_raw ws) [(''type'', JStr ''auth_challenge''), (''nonce'', JStr nonce)]])"
    using assms(4-7) by (simp add: relay_open_def ch_def challenge_for_def)
  then show "snd (relay_step c (Open ws nonce) st) = [Send (ws_raw ws) [(''type'', JStr ''auth_challenge''), (''nonce'', JStr nonce)]]" by simp
  have inv: "relay_inv sk (fst (relay_step c (Open ws nonce) st))"
    by (rule relay_inv_step [OF assms(2)]) (use assms(8-10) in auto)
  have "relay_step c (Message ws frame ref now) (fst (relay_step c (Open ws nonce) st)) = handleAuth c now ws ch frame (fst (relay_step c (Open ws nonce) st))"
    using open' by (simp add: relay_message_def jm_simps)
  then show "relay_conn (fst (relay_step c (Message ws frame ref now) (fst (relay_step c (Open ws nonce) st)))) (ws_identity ws) = Some (ws_raw ws)"
    using handleAuth_met [OF inv assms(3)] by (simp add: joined_conn ch_def challenge_for_def)
qed

lemma session_admits:
  fixes ws nonce
  defines "ch \<equiv> challenge_for ws nonce"
  assumes "challenge_met c ch frame now" "id_hex (ws_identity ws)" "id_hex (ws_device ws)"
  shows "snd (session_step c (Open ws nonce) s) = [Send (ws_raw ws) [(''type'', JStr ''auth_challenge''), (''nonce'', JStr nonce)]]"
    and "session_conn (fst (session_step c (Message ws frame ref now) (fst (session_step c (Open ws nonce) s)))) (ws_identity ws) = Some (ws_raw ws)"
proof -
  have "ws_identity ws \<noteq> []" "ws_device ws \<noteq> []" using assms(3,4) by (auto simp: id_hex_def)
  then have open': "session_step c (Open ws nonce) s = (s\<lparr>se_pending := jm_set (ws_raw ws) ch (se_pending s)\<rparr>,
      [Send (ws_raw ws) [(''type'', JStr ''auth_challenge''), (''nonce'', JStr nonce)]])"
    using assms(3,4) by (simp add: handleWebSocketUpgrade_def ch_def challenge_for_def)
  then show "snd (session_step c (Open ws nonce) s) = [Send (ws_raw ws) [(''type'', JStr ''auth_challenge''), (''nonce'', JStr nonce)]]" by simp
  have "session_step c (Message ws frame ref now) (fst (session_step c (Open ws nonce) s))
      = session_handleAuth c now (ws_raw ws) ch frame (fst (session_step c (Open ws nonce) s))"
    using open' by (simp add: webSocketMessage_def jm_simps)
  then show "session_conn (fst (session_step c (Message ws frame ref now) (fst (session_step c (Open ws nonce) s)))) (ws_identity ws) = Some (ws_raw ws)"
    using session_handleAuth_met [OF assms(2)] by (simp add: session_joined_conn ch_def challenge_for_def)
qed

section \<open>Rooms\<close>

lemma concat_map_filter: "concat (map (\<lambda>x. if x = a then [] else [h x]) xs) = map h (filter (\<lambda>x. x \<noteq> a) xs)"
  by (induction xs) auto

text \<open>The members of a room: the identities online that have joined and not left it.\<close>

definition room_members :: "(string \<Rightarrow> js_key list option) \<Rightarrow> js_key \<Rightarrow> string set" where
  "room_members members r = {i. \<exists>rs. members i = Some rs \<and> r \<in> set rs}"

lemma rooms_ok_list:
  assumes "rooms_ok members subs"
  shows "distinct (jm_get_or subs r [])" "set (jm_get_or subs r []) = room_members members r"
  using assms unfolding rooms_ok_def room_members_def
  by (auto simp: jm_get_or_def split: option.split)

lemma handleRoomEvent_exact:
  fixes ref msg i
  assumes "relay_inv sk st" "ci_identityId cl = i" "truthy (jfield msg ''room_id'')"
  defines "xs \<equiv> filter (\<lambda>j. j \<noteq> i) (jm_get_or (rs_roomSubscriptions st) (key_of ref (jfield msg ''room_id'')) [])"
  shows "handleRoomEvent cl msg ref st = map (\<lambda>j. Send (the (relay_conn st j)) ([(''type'', JStr ''room_event'')]
      @ opt_field ''room_id'' (jfield msg ''room_id'') @ [(''from'', JStr i)] @ opt_field ''event'' (jfield msg ''event''))) xs"
proof -
  let ?key = "key_of ref (jfield msg ''room_id'')"
  have rooms: "rooms_ok (relay_members st) (rs_roomSubscriptions st)" using assms(1) by (simp add: relay_inv_def)
  show ?thesis
  proof (cases "jm_get (rs_roomSubscriptions st) ?key")
    case None
    then show ?thesis using assms(3) by (simp add: handleRoomEvent_def xs_def jm_get_or_def Let_def del: jfield.simps)
  next
    case (Some subs)
    let ?payload = "[(''type'', JStr ''room_event'')] @ opt_field ''room_id'' (jfield msg ''room_id'') @ [(''from'', JStr i)]
      @ opt_field ''event'' (jfield msg ''event'')"
    have online: "(case jm_get (rs_clients st) j of None \<Rightarrow> [] | Some cl \<Rightarrow> [send_client cl ?payload]) = [Send (the (relay_conn st j)) ?payload]"
      if "j \<in> set subs" for j
    proof -
      have "j \<in> room_members (relay_members st) ?key"
        using rooms_ok_list(2) [OF rooms, of ?key] that Some by (simp add: jm_get_or_def)
      then obtain t where "jm_get (rs_clients st) j = Some t" by (auto simp: room_members_def relay_members_def)
      then show ?thesis by (simp add: relay_conn_def send_client_def)
    qed
    have "handleRoomEvent cl msg ref st = concat (map (\<lambda>j. if j = i then []
        else (case jm_get (rs_clients st) j of None \<Rightarrow> [] | Some cl \<Rightarrow> [send_client cl ?payload])) subs)"
      using Some assms(2,3) by (simp add: handleRoomEvent_def Let_def del: jfield.simps append_Cons append_Nil)
    also have "\<dots> = concat (map (\<lambda>j. if j = i then [] else [Send (the (relay_conn st j)) ?payload]) subs)"
      by (intro arg_cong [of _ _ concat] map_cong refl) (simp add: online del: append_Cons append_Nil)
    finally show ?thesis using Some unfolding concat_map_filter by (simp add: xs_def jm_get_or_def)
  qed
qed

lemma broadcastRoomEvent_exact:
  fixes ref msg i
  assumes "session_inv s"
  defines "xs \<equiv> filter (\<lambda>j. j \<noteq> i) (jm_get_or (se_roomSubscriptions s) (key_of ref (jfield msg ''room_id'')) [])"
  shows "broadcastRoomEvent i msg ref s = map (\<lambda>j. Send (the (session_conn s j)) msg) xs"
proof -
  let ?key = "key_of ref (jfield msg ''room_id'')"
  note rooms = session_invD(6) [OF assms(1)]
  show ?thesis
  proof (cases "jm_get (se_roomSubscriptions s) ?key")
    case None
    then show ?thesis by (simp add: broadcastRoomEvent_def xs_def jm_get_or_def del: jfield.simps)
  next
    case (Some subs)
    have online: "(case jm_get (se_connections s) j of None \<Rightarrow> [] | Some en \<Rightarrow> [Send (ce_ws en) msg]) = [Send (the (session_conn s j)) msg]"
      if "j \<in> set subs" for j
    proof -
      have "j \<in> room_members (session_members s) ?key"
        using rooms_ok_list(2) [OF rooms, of ?key] that Some by (simp add: jm_get_or_def)
      then obtain t where "jm_get (se_connections s) j = Some t" by (auto simp: room_members_def session_members_def)
      then show ?thesis by (simp add: session_conn_def)
    qed
    have "broadcastRoomEvent i msg ref s = concat (map (\<lambda>j. if j = i then []
        else (case jm_get (se_connections s) j of None \<Rightarrow> [] | Some en \<Rightarrow> [Send (ce_ws en) msg])) subs)"
      using Some by (simp add: broadcastRoomEvent_def del: jfield.simps)
    also have "\<dots> = concat (map (\<lambda>j. if j = i then [] else [Send (the (session_conn s j)) msg]) subs)"
      by (intro arg_cong [of _ _ concat] map_cong refl) (simp add: online)
    finally show ?thesis using Some unfolding concat_map_filter by (simp add: xs_def jm_get_or_def)
  qed
qed

section \<open>A run of both relays\<close>

text \<open>Runs of a list of events, for concrete states.\<close>

fun run :: "(relay_event \<Rightarrow> 's \<Rightarrow> 's \<times> relay_out list) \<Rightarrow> relay_event list \<Rightarrow> 's \<Rightarrow> 's \<times> relay_out list" where
  "run step [] s = (s, [])"
| "run step (e # es) s = (let (s1, o1) = step e s; (s2, o2) = run step es s1 in (s2, o1 @ o2))"

fun events_match :: "(nat \<Rightarrow> relay_socket) \<Rightarrow> relay_event list \<Rightarrow> relay_event list \<Rightarrow> bool" where
  "events_match sk pre [] = True"
| "events_match sk pre (e # es) = (socket_event sk pre e \<and> events_match sk (pre @ [e]) es)"

lemma trace_run:
  assumes "trace step sk s0 pre s outs" "events_match sk pre es"
  shows "trace step sk s0 (pre @ es) (fst (run step es s)) (outs @ snd (run step es s))"
  using assms
proof (induction es arbitrary: pre s outs)
  case (Cons e es)
  obtain s1 o1 where st: "step e s = (s1, o1)" by (cases "step e s")
  have "trace step sk s0 (pre @ [e]) s1 (outs @ o1)" using Cons.prems st by (intro trace_snoc) simp_all
  then show ?case using Cons.IH [of "pre @ [e]" s1 "outs @ o1"] Cons.prems(2) st by (simp add: case_prod_unfold Let_def)
qed simp

definition device_hex :: string where "device_hex = toHex (replicate 32 6)"
definition sample_hex :: "byte \<Rightarrow> string" where "sample_hex n = toHex (replicate 32 n)"

definition sample_device :: "byte \<Rightarrow> identity_signer" where
  "sample_device n = \<lparr>is_rootPublicKey = replicate 32 n, is_secretKey = replicate 32 4,
     is_certificate = Some (issueDeviceCert sample_crypto (replicate 32 n) (replicate 32 4) (replicate 32 5) (replicate 32 6)
       (identityIdFromWallet sample_crypto (replicate 32 n)) 10 1000 1)\<rparr>"

definition sample_socket :: "byte \<Rightarrow> relay_socket" where
  "sample_socket n = \<lparr>ws_raw = unat n, ws_identity = sample_hex n, ws_device = device_hex, ws_host = Some ''relay''\<rparr>"

definition sample_sockets :: "nat \<Rightarrow> relay_socket" where
  "sample_sockets r = sample_socket (of_nat r)"

definition sample_reply :: "byte \<Rightarrow> jval option" where
  "sample_reply n = challenge_reply sample_crypto (sample_device n) (replicate 32 n) ''relay'' device_hex
     [(''type'', JStr ''auth_challenge''), (''nonce'', JStr ''nonce'')]"

lemma sample_identity: "identityIdFromWallet sample_crypto (replicate 32 n) = replicate 32 n"
  by (simp add: identityIdFromWallet_def sample_crypto_def)

lemma sample_device_signer:
  "device_signer sample_crypto (sample_device n) (the (is_certificate (sample_device n))) (replicate 32 n) 60"
  unfolding device_signer_def sample_device_def
  by (simp add: sample_identity issueDeviceCert_def verifyDeviceCert_def deviceCertPreimage_def sample_signing)

lemma sample_device_wire: "wire_proof (signIdentityAuth sample_crypto (sample_device n) op i fs)"
  by (simp add: wire_proof_def signIdentityAuth_def sample_device_def issueDeviceCert_def sample_identity sample_signing safe_int_def)

lemma sample_met: "challenge_met sample_crypto (challenge_for (sample_socket n) ''nonce'') (sample_reply n) 60"
proof -
  have "ws_identity (sample_socket n) = toHex (replicate 32 n)" "ws_host (sample_socket n) = Some ''relay''"
    "ws_device (sample_socket n) = toHex (dc_deviceId (the (is_certificate (sample_device n))))"
    by (simp_all add: sample_socket_def sample_hex_def device_hex_def sample_device_def issueDeviceCert_def)
  from challenge_met_signed [OF sample_signatures sample_device_signer sample_device_wire this(1,3,2)] show ?thesis
    by (simp add: sample_reply_def sample_socket_def)
qed

lemma sample_hex_simps: "sample_hex m = sample_hex n \<longleftrightarrow> m = n" "id_hex (sample_hex n)" "id_hex device_hex" "sample_hex n \<noteq> []"
  "device_hex \<noteq> []"
proof -
  show "sample_hex m = sample_hex n \<longleftrightarrow> m = n" by (simp add: sample_hex_def)
  show id: "id_hex (sample_hex n)" "id_hex device_hex" unfolding sample_hex_def device_hex_def by (simp_all add: id_hex_toHex)
  show "sample_hex n \<noteq> []" "device_hex \<noteq> []" using id by (auto simp: id_hex_def)
qed

text \<open>Two clients connect and join a room.\<close>

definition say :: "byte \<Rightarrow> (string \<times> jval) list \<Rightarrow> relay_event" where
  "say n f = Message (sample_socket n) (Some (JObj f)) 0 60"

definition sample_run :: "relay_event list" where
  "sample_run = [Open (sample_socket 7) ''nonce'', Message (sample_socket 7) (sample_reply 7) 0 60,
     Open (sample_socket 9) ''nonce'', Message (sample_socket 9) (sample_reply 9) 0 60,
     say 7 [(''type'', JStr ''room_subscribe''), (''room_id'', JStr ''lobby'')],
     say 9 [(''type'', JStr ''room_subscribe''), (''room_id'', JStr ''lobby'')]]"

lemma sample_run_events: "events_match sample_sockets [] sample_run"
  by (simp add: sample_run_def say_def socket_event_def opened_def sample_sockets_def sample_socket_def)

definition relay_demo :: relay_state where
  "relay_demo = fst (run (relay_step sample_crypto) sample_run new_relay)"

definition session_demo :: relay_session where
  "session_demo = fst (run (session_step sample_crypto) sample_run new_session)"

lemma relay_demo_trace: "\<exists>outs. trace (relay_step sample_crypto) sample_sockets new_relay sample_run relay_demo outs"
  using trace_run [OF trace_nil sample_run_events, of "relay_step sample_crypto" new_relay] unfolding relay_demo_def by auto

lemma session_demo_trace: "\<exists>outs. trace (session_step sample_crypto) sample_sockets new_session sample_run session_demo outs"
  using trace_run [OF trace_nil sample_run_events, of "session_step sample_crypto" new_session] unfolding session_demo_def by auto

lemma sample_challenge: "challenge_met sample_crypto \<lparr>ch_identity = sample_hex n, ch_device = device_hex, ch_audience = ''relay'', ch_nonce = ''nonce''\<rparr>
    (sample_reply n) 60"
  using sample_met [of n] by (simp add: challenge_for_def sample_socket_def)

lemma relay_demo_state: "jm_get (rs_clients relay_demo) (sample_hex 7) = Some \<lparr>ci_identityId = sample_hex 7, ci_deviceId = device_hex,
      ci_ws = sample_socket 7, ci_subscribedRooms = [KValue (JStr ''lobby'')], ci_connectedAt = 60\<rparr>"
    "jm_get (rs_clients relay_demo) (sample_hex 9) = Some \<lparr>ci_identityId = sample_hex 9, ci_deviceId = device_hex,
      ci_ws = sample_socket 9, ci_subscribedRooms = [KValue (JStr ''lobby'')], ci_connectedAt = 60\<rparr>"
    "rs_roomSubscriptions relay_demo = [(KValue (JStr ''lobby''), [sample_hex 7, sample_hex 9])]"
  unfolding relay_demo_def sample_run_def say_def
  by (simp_all add: relay_open_def relay_message_def handleAuth_def sample_challenge sample_hex_simps sample_socket_def new_relay_def
      jm_get_def jm_set_def jm_del_def own_client_def handleMessage_def handleRoomSubscribe_def object_fields_def set_add_def
      jm_get_or_def Let_def)

lemma session_demo_state: "jm_get (se_connections session_demo) (sample_hex 7) = Some \<lparr>ce_ws = 7, ce_identity = sample_hex 7,
      ce_device = device_hex, ce_rooms = [KValue (JStr ''lobby'')]\<rparr>"
    "jm_get (se_connections session_demo) (sample_hex 9) = Some \<lparr>ce_ws = 9, ce_identity = sample_hex 9,
      ce_device = device_hex, ce_rooms = [KValue (JStr ''lobby'')]\<rparr>"
    "se_roomSubscriptions session_demo = [(KValue (JStr ''lobby''), [sample_hex 7, sample_hex 9])]"
    "jm_get (se_pending session_demo) r = None" "jm_get (se_socketIdentity session_demo) 7 = Some (sample_hex 7)"
  unfolding session_demo_def sample_run_def say_def
  by (simp_all add: handleWebSocketUpgrade_def webSocketMessage_def session_handleAuth_def sample_challenge sample_hex_simps sample_socket_def
      new_session_def jm_get_def jm_set_def jm_del_def parsed_message_def session_dispatch_def subscribeRoom_def object_fields_def set_add_def
      jm_get_or_def Let_def)

lemma relay_demo_pending: "jm_get (rs_pending relay_demo) r = None"
  unfolding relay_demo_def sample_run_def say_def
  by (simp_all add: relay_open_def relay_message_def handleAuth_def sample_challenge sample_hex_simps sample_socket_def new_relay_def
      jm_get_def jm_set_def jm_del_def own_client_def handleMessage_def handleRoomSubscribe_def object_fields_def set_add_def
      jm_get_or_def Let_def)

section \<open>Theorems\<close>

text \<open>
  C6. No relay speaks for an identity that has not proved itself on the sending socket. Whenever the
  self-hosted relay sends a frame with a \<open>from\<close>, the frame answers a message of a socket that
  is registered for exactly this identity, and earlier in the history the relay challenged this very
  socket with a nonce and the socket answered with a signature, over the relay's host, the nonce and
  the device, of the identity's root key or of a device key certified by it. The hosted relay
  guarantees the same for every frame but the room events.
\<close>

theorem relay_messages_authentic:
  "(trace (relay_step c) sk new_relay evs st outs \<and> Send r f \<in> set (snd (relay_step c e st)) \<and> frame_from f = Some v \<longrightarrow>
     (\<exists>ws frame ref now i. e = Message ws frame ref now \<and> v = JStr i \<and> relay_conn st i = Some (ws_raw ws)
        \<and> socket_proved c evs (ws_raw ws) i))
   \<and> (trace (session_step c) sk new_session evs s outs \<and> Send r f \<in> set (snd (session_step c e s)) \<and> frame_from f = Some v
      \<and> frame_type f \<noteq> Some (JStr ''room_event'') \<longrightarrow>
     (\<exists>ws frame ref now i. e = Message ws frame ref now \<and> v = JStr i \<and> session_conn s i = Some (ws_raw ws)
        \<and> socket_proved c evs (ws_raw ws) i))"
  by (intro conjI impI; elim conjE) (rule standalone.forwarded_proved hosted.forwarded_proved; simp)+

theorem relay_messages_authentic_witness:
  "\<exists>outs f. trace (relay_step sample_crypto) sample_sockets new_relay sample_run relay_demo outs
     \<and> Send 9 f \<in> set (snd (relay_step sample_crypto (say 7 [(''type'', JStr ''dm''), (''to'', JStr (sample_hex 9))]) relay_demo))
     \<and> frame_from f = Some (JStr (sample_hex 7)) \<and> socket_proved sample_crypto sample_run 7 (sample_hex 7)"
proof -
  let ?e = "say 7 [(''type'', JStr ''dm''), (''to'', JStr (sample_hex 9))]"
  let ?f = "[(''type'', JStr ''dm''), (''from'', JStr (sample_hex 7))]"
  obtain outs where tr: "trace (relay_step sample_crypto) sample_sockets new_relay sample_run relay_demo outs"
    using relay_demo_trace by blast
  have "own_client (sample_socket 7) relay_demo = jm_get (rs_clients relay_demo) (sample_hex 7)"
    by (simp add: own_client_def relay_demo_state sample_socket_def)
  then have out: "Send 9 ?f \<in> set (snd (relay_step sample_crypto ?e relay_demo))"
    by (simp add: say_def relay_message_def relay_demo_pending relay_demo_state handleMessage_def object_fields_def handleDm_def
        string_key_def sample_hex_simps send_client_def) (simp add: sample_socket_def)
  have sender: "frame_from ?f = Some (JStr (sample_hex 7))" by (simp add: frame_from_def)
  have "socket_proved sample_crypto sample_run 7 (sample_hex 7)"
    using relay_messages_authentic [THEN conjunct1, THEN mp, OF conjI [OF tr conjI [OF out sender]]]
    by (auto simp: say_def sample_socket_def)
  then show ?thesis using tr out sender by blast
qed

text \<open>
  C8. A room event reaches every member of the room but its sender exactly once. In every state
  either relay can get into, the event of a registered client goes to exactly the other identities
  that are online and have joined the room, each of them reachable, without repetition, and to no
  one else, and the state stays as it is. The self-hosted relay builds the frame and writes the
  sender's identity into it; the hosted one passes on the client's own frame, with whatever
  \<open>from\<close> it contains.
\<close>

theorem room_event_reaches_members:
  fixes msg ref
  defines "key \<equiv> key_of ref (jfield msg ''room_id'')"
  assumes "jfield msg ''type'' = Some (JStr ''room_event'')"
  shows "(trace (relay_step c) sk new_relay evs st outs \<and> jm_get (rs_pending st) (ws_raw ws) = None \<and> own_client ws st = Some cl
      \<and> truthy (jfield msg ''room_id'') \<longrightarrow>
     (\<exists>xs. distinct xs \<and> set xs = room_members (relay_members st) key - {ws_identity ws} \<and> (\<forall>j\<in>set xs. relay_conn st j \<noteq> None)
       \<and> relay_step c (Message ws (Some (JObj msg)) ref now) st = (st, map (\<lambda>j. Send (the (relay_conn st j))
           ([(''type'', JStr ''room_event'')] @ opt_field ''room_id'' (jfield msg ''room_id'')
             @ [(''from'', JStr (ws_identity ws))] @ opt_field ''event'' (jfield msg ''event''))) xs)))
   \<and> (trace (session_step c) sk new_session evs s outs \<and> session_conn s i = Some (ws_raw ws) \<longrightarrow>
     (\<exists>xs. distinct xs \<and> set xs = room_members (session_members s) key - {i} \<and> (\<forall>j\<in>set xs. session_conn s j \<noteq> None)
       \<and> session_step c (Message ws (Some (JObj msg)) ref now) s = (s, map (\<lambda>j. Send (the (session_conn s j)) msg) xs)))"
proof (intro conjI impI; elim conjE)
  assume tr: "trace (relay_step c) sk new_relay evs st outs" and idle: "jm_get (rs_pending st) (ws_raw ws) = None"
    and own: "own_client ws st = Some cl" and room: "truthy (jfield msg ''room_id'')"
  have inv: "relay_inv sk st" using standalone.trace_facts [OF tr] by blast
  have cl: "jm_get (rs_clients st) (ws_identity ws) = Some cl" using own by (simp add: own_client_iff)
  note id = relay_invD(1) [OF inv cl]
  have rooms: "rooms_ok (relay_members st) (rs_roomSubscriptions st)" using inv by (simp add: relay_inv_def)
  let ?xs = "filter (\<lambda>j. j \<noteq> ws_identity ws) (jm_get_or (rs_roomSubscriptions st) key [])"
  have "set ?xs = room_members (relay_members st) key - {ws_identity ws}" "distinct ?xs"
    using rooms_ok_list [OF rooms, of key] by auto
  moreover from this(1) have "\<forall>j\<in>set ?xs. relay_conn st j \<noteq> None" by (auto simp: room_members_def relay_members_def relay_conn_def)
  moreover have "relay_step c (Message ws (Some (JObj msg)) ref now) st = (st, handleRoomEvent cl msg ref st)"
    using assms(2) idle own by (simp add: relay_message_def handleMessage_def object_fields_def Let_def del: jfield.simps)
  ultimately show "\<exists>xs. distinct xs \<and> set xs = room_members (relay_members st) key - {ws_identity ws} \<and> (\<forall>j\<in>set xs. relay_conn st j \<noteq> None)
       \<and> relay_step c (Message ws (Some (JObj msg)) ref now) st = (st, map (\<lambda>j. Send (the (relay_conn st j))
           ([(''type'', JStr ''room_event'')] @ opt_field ''room_id'' (jfield msg ''room_id'')
             @ [(''from'', JStr (ws_identity ws))] @ opt_field ''event'' (jfield msg ''event''))) xs)"
    unfolding handleRoomEvent_exact [OF inv id room] key_def by blast
next
  assume tr: "trace (session_step c) sk new_session evs s outs" and conn: "session_conn s i = Some (ws_raw ws)"
  have inv: "session_inv s" using hosted.trace_facts [OF tr] by blast
  note facts = session_invD(2-4) [OF inv, of i "ws_raw ws"]
  let ?xs = "filter (\<lambda>j. j \<noteq> i) (jm_get_or (se_roomSubscriptions s) key [])"
  have "set ?xs = room_members (session_members s) key - {i}" "distinct ?xs"
    using rooms_ok_list [OF session_invD(6) [OF inv], of key] by auto
  moreover from this(1) have "\<forall>j\<in>set ?xs. session_conn s j \<noteq> None" by (auto simp: room_members_def session_members_def session_conn_def)
  moreover have "session_step c (Message ws (Some (JObj msg)) ref now) s = (s, broadcastRoomEvent i msg ref s)"
    using assms(2) conn facts
    by (simp add: webSocketMessage_def parsed_message_def session_dispatch_def object_fields_def session_conn_def Let_def del: jfield.simps)
  ultimately show "\<exists>xs. distinct xs \<and> set xs = room_members (session_members s) key - {i} \<and> (\<forall>j\<in>set xs. session_conn s j \<noteq> None)
       \<and> session_step c (Message ws (Some (JObj msg)) ref now) s = (s, map (\<lambda>j. Send (the (session_conn s j)) msg) xs)"
    unfolding broadcastRoomEvent_exact [OF inv] key_def by blast
qed

text \<open>The hosted relay lets a client speak in a room under another identity.\<close>

definition forged_event :: "(string \<times> jval) list" where
  "forged_event = [(''type'', JStr ''room_event''), (''room_id'', JStr ''lobby''), (''from'', JStr (sample_hex 5))]"

theorem room_event_reaches_members_witness:
  "session_step sample_crypto (say 7 forged_event) session_demo = (session_demo, [Send 9 forged_event])
   \<and> frame_from forged_event = Some (JStr (sample_hex 5))"
proof -
  obtain outs where tr: "trace (session_step sample_crypto) sample_sockets new_session sample_run session_demo outs"
    using session_demo_trace by blast
  have t: "jfield forged_event ''type'' = Some (JStr ''room_event'')" by (simp add: forged_event_def)
  have conn: "session_conn session_demo (sample_hex 7) = Some (ws_raw (sample_socket 7))"
    by (simp add: session_conn_def session_demo_state sample_socket_def)
  obtain xs where xs: "distinct xs"
      "set xs = room_members (session_members session_demo) (key_of 0 (jfield forged_event ''room_id'')) - {sample_hex 7}"
      "session_step sample_crypto (Message (sample_socket 7) (Some (JObj forged_event)) 0 60) session_demo
        = (session_demo, map (\<lambda>j. Send (the (session_conn session_demo j)) forged_event) xs)"
    using room_event_reaches_members [OF t, THEN conjunct2, THEN mp, OF conjI [OF tr conn]] by blast
  have inv: "session_inv session_demo" using hosted.trace_facts [OF tr] by blast
  have key: "key_of 0 (jfield forged_event ''room_id'') = KValue (JStr ''lobby'')" by (simp add: forged_event_def object_fields_def)
  have "set xs = {sample_hex 9}"
    unfolding xs(2) key rooms_ok_list(2) [OF session_invD(6) [OF inv], symmetric]
    by (auto simp: session_demo_state jm_get_or_def jm_get_def sample_hex_simps)
  then have "xs = [sample_hex 9]" using xs(1) by (cases xs rule: remdups_adj.cases) auto
  then show ?thesis
    using xs(3) by (simp add: say_def session_conn_def session_demo_state) (simp add: frame_from_def forged_event_def)
qed

text \<open>
  C7. A connected client always knows who is online. For both relays and any history of sockets
  that open, authenticate, talk, are replaced and close: feeding every frame a registered client's
  socket was sent since it opened to the client's \<open>consumePresenceMessage\<close> gives a listener
  exactly the set of identities the relay routes to at this moment, which is what
  \<open>/online/:identityId\<close> answers.
\<close>

theorem presence_view_exact:
  "(trace (relay_step c) sk new_relay evs st outs \<and> relay_conn st i = Some r \<longrightarrow>
     presence_view fl now r outs {} = {j. jm_has (rs_clients st) j} \<and> i \<in> presence_view fl now r outs {}
     \<and> (id_hex j \<longrightarrow> relay_online j st = Some (j \<in> presence_view fl now r outs {})))
   \<and> (trace (session_step c) sk new_session evs s outs \<and> session_conn s i = Some r \<longrightarrow>
     presence_view fl now r outs {} = {j. jm_has (se_connections s) j} \<and> i \<in> presence_view fl now r outs {}
     \<and> (id_hex j \<longrightarrow> session_online j s = Some (j \<in> presence_view fl now r outs {})))"
proof (intro conjI impI; elim conjE)
  assume tr: "trace (relay_step c) sk new_relay evs st outs" "relay_conn st i = Some r"
  have "dom (relay_conn st) = {j. jm_has (rs_clients st) j}" by (auto simp: relay_conn_def jm_has_get)
  with standalone.view_facts [OF tr(1)] tr(2)
  show v: "presence_view fl now r outs {} = {j. jm_has (rs_clients st) j}" by auto
  show "i \<in> presence_view fl now r outs {}" using tr(2) unfolding v by (auto simp: relay_conn_def jm_has_get)
  show "relay_online j st = Some (j \<in> presence_view fl now r outs {})" if "id_hex j" using that unfolding v by (simp add: relay_online_def)
next
  assume tr: "trace (session_step c) sk new_session evs s outs" "session_conn s i = Some r"
  have "dom (session_conn s) = {j. jm_has (se_connections s) j}" by (auto simp: session_conn_def jm_has_get)
  with hosted.view_facts [OF tr(1)] tr(2)
  show v: "presence_view fl now r outs {} = {j. jm_has (se_connections s) j}" by auto
  show "i \<in> presence_view fl now r outs {}" using tr(2) unfolding v by (auto simp: session_conn_def jm_has_get)
  show "session_online j s = Some (j \<in> presence_view fl now r outs {})" if "id_hex j" using that unfolding v by (simp add: session_online_def)
qed

theorem presence_view_exact_witness:
  "\<exists>outs. trace (relay_step sample_crypto) sample_sockets new_relay sample_run relay_demo outs
     \<and> sample_hex 9 \<in> presence_view (\<lambda>_. 0) 60 7 outs {} \<and> sample_hex 5 \<notin> presence_view (\<lambda>_. 0) 60 7 outs {}"
proof -
  obtain outs where tr: "trace (relay_step sample_crypto) sample_sockets new_relay sample_run relay_demo outs"
    using relay_demo_trace by blast
  have conn: "relay_conn relay_demo (sample_hex 7) = Some 7" by (simp add: relay_conn_def relay_demo_state sample_socket_def)
  have no: "jm_get (rs_clients relay_demo) (sample_hex 5) = None"
    unfolding relay_demo_def sample_run_def say_def
    by (simp add: relay_open_def relay_message_def handleAuth_def sample_challenge sample_hex_simps sample_socket_def new_relay_def
      jm_get_def jm_set_def jm_del_def own_client_def handleMessage_def handleRoomSubscribe_def object_fields_def set_add_def
      jm_get_or_def Let_def)
  have "presence_view (\<lambda>_. 0) 60 7 outs {} = {j. jm_has (rs_clients relay_demo) j}"
    using presence_view_exact [THEN conjunct1, THEN mp, OF conjI [OF tr conn]] by blast
  then show ?thesis using tr no by (auto simp: jm_has_get relay_demo_state)
qed

text \<open>
  A closed socket is dead for good. Once a socket that was opened has closed, whatever follows,
  neither relay routes any identity to it or waits for its proof, and none ever sends it another
  frame.
\<close>

lemma closed_socket_silent:
  assumes "evs = pre @ [Closed ws] @ post" "ws_raw ws \<in> opened pre"
  shows "(trace (relay_step c) sk new_relay evs st outs \<and> socket_event sk evs e \<longrightarrow>
      relay_conn st i \<noteq> Some (ws_raw ws) \<and> jm_get (rs_pending st) (ws_raw ws) = None
      \<and> Send (ws_raw ws) f \<notin> set (snd (relay_step c e st)))
    \<and> (trace (session_step c) sk new_session evs s outs \<and> socket_event sk evs e \<longrightarrow>
      session_conn s i \<noteq> Some (ws_raw ws) \<and> jm_get (se_pending s) (ws_raw ws) = None
      \<and> Send (ws_raw ws) f \<notin> set (snd (session_step c e s)))"
proof (intro conjI impI; elim conjE)
  assume tr: "trace (relay_step c) sk new_relay evs st outs" and ev: "socket_event sk evs e"
  show "relay_conn st i \<noteq> Some (ws_raw ws)" "jm_get (rs_pending st) (ws_raw ws) = None"
    using standalone.closed_dead [OF tr assms] by auto
  show "Send (ws_raw ws) f \<notin> set (snd (relay_step c e st))" by (rule standalone.closed_silent [OF tr assms ev])
next
  assume tr: "trace (session_step c) sk new_session evs s outs" and ev: "socket_event sk evs e"
  show "session_conn s i \<noteq> Some (ws_raw ws)" "jm_get (se_pending s) (ws_raw ws) = None"
    using hosted.closed_dead [OF tr assms] by auto
  show "Send (ws_raw ws) f \<notin> set (snd (session_step c e s))" by (rule hosted.closed_silent [OF tr assms ev])
qed

definition closing_run :: "relay_event list" where
  "closing_run = [Open (sample_socket 7) ''nonce'', Message (sample_socket 7) (sample_reply 7) 0 60] @ [Closed (sample_socket 7)] @ []"

lemma closed_socket_silent_witness:
  "\<exists>st outs. trace (relay_step sample_crypto) sample_sockets new_relay closing_run st outs \<and> relay_conn st (sample_hex 7) \<noteq> Some 7"
proof -
  have ev: "events_match sample_sockets [] closing_run" "socket_event sample_sockets closing_run (Timeout (sample_socket 7))"
    by (simp_all add: closing_run_def socket_event_def opened_def sample_sockets_def sample_socket_def)
  obtain st outs where tr: "trace (relay_step sample_crypto) sample_sockets new_relay closing_run st outs"
    using trace_run [OF trace_nil ev(1), of "relay_step sample_crypto" new_relay] by auto
  have "ws_raw (sample_socket 7) \<in> opened [Open (sample_socket 7) ''nonce'', Message (sample_socket 7) (sample_reply 7) 0 60]"
    by (auto simp: opened_def)
  from closed_socket_silent [OF closing_run_def this, THEN conjunct1, THEN mp, OF conjI [OF tr ev(2)]] tr
  show ?thesis by (auto simp: sample_socket_def)
qed

text \<open>
  C9. A certified device gets in. A socket of an identity that answers the relay's challenge the way
  the client does, signing with a device key certified for the identity, is admitted by either relay
  in any state it can get into: after the reply the relay routes the identity to this socket,
  whoever held it before.
\<close>

theorem relay_admits_device:
  assumes "signatures_correct c" "device_signer c signer cert i now" "length (dc_deviceId cert) = 32"
    and "ws_identity ws = toHex i" "ws_device ws = toHex (dc_deviceId cert)" "ws_host ws = Some host" "host \<noteq> []"
    and "wire_proof (signIdentityAuth c signer ''relay.connect'' i (relay_fields (challenge_for ws nonce)))"
    and "frame = challenge_reply c signer i host (ws_device ws) [(''type'', JStr ''auth_challenge''), (''nonce'', JStr nonce)]"
    and "socket_event sk evs (Open ws nonce)"
  shows "(trace (relay_step c) sk new_relay evs st outs \<longrightarrow>
      snd (relay_step c (Open ws nonce) st) = [Send (ws_raw ws) [(''type'', JStr ''auth_challenge''), (''nonce'', JStr nonce)]]
      \<and> relay_conn (fst (relay_step c (Message ws frame ref now) (fst (relay_step c (Open ws nonce) st)))) (toHex i) = Some (ws_raw ws))
    \<and> (trace (session_step c) sk new_session evs s outs \<longrightarrow>
      snd (session_step c (Open ws nonce) s) = [Send (ws_raw ws) [(''type'', JStr ''auth_challenge''), (''nonce'', JStr nonce)]]
      \<and> session_conn (fst (session_step c (Message ws frame ref now) (fst (session_step c (Open ws nonce) s)))) (toHex i) = Some (ws_raw ws))"
proof -
  have met: "challenge_met c (challenge_for ws nonce) frame now"
    unfolding assms(9) by (rule challenge_met_signed) (fact assms)+
  have hex: "id_hex (ws_identity ws)" "id_hex (ws_device ws)"
    using assms(2,3) unfolding assms(4,5) by (auto simp: device_signer_def id_hex_toHex)
  have sock: "ws = sk (ws_raw ws)" "ws_raw ws \<notin> opened evs" using assms(10) by (auto simp: socket_event_def)
  have "relay_inv sk st \<and> jm_get (rs_pending st) (ws_raw ws) = None \<and> (\<forall>i. relay_conn st i \<noteq> Some (ws_raw ws))"
    if "trace (relay_step c) sk new_relay evs st outs"
    using standalone.trace_facts [OF that] sock(2) by blast
  then have "trace (relay_step c) sk new_relay evs st outs \<Longrightarrow>
      snd (relay_step c (Open ws nonce) st) = [Send (ws_raw ws) [(''type'', JStr ''auth_challenge''), (''nonce'', JStr nonce)]]
      \<and> relay_conn (fst (relay_step c (Message ws frame ref now) (fst (relay_step c (Open ws nonce) st)))) (ws_identity ws) = Some (ws_raw ws)"
    using relay_admits(1) [OF _ met hex assms(6,7), where st = st and sk = sk]
      relay_admits(2) [OF _ met hex assms(6,7), where st = st and sk = sk and ref = ref] sock(1) by blast
  then show ?thesis
    using session_admits(1) [OF met hex, of s] session_admits(2) [OF met hex, where s = s and ref = ref] unfolding assms(4) by blast
qed

theorem relay_admits_device_witness:
  "snd (relay_step sample_crypto (Open (sample_socket 7) ''nonce'') new_relay)
     = [Send 7 [(''type'', JStr ''auth_challenge''), (''nonce'', JStr ''nonce'')]]
   \<and> relay_conn (fst (relay_step sample_crypto (Message (sample_socket 7) (sample_reply 7) 0 60)
       (fst (relay_step sample_crypto (Open (sample_socket 7) ''nonce'') new_relay)))) (toHex (replicate 32 7)) = Some 7"
proof -
  have ws: "ws_identity (sample_socket 7) = toHex (replicate 32 7)" "ws_host (sample_socket 7) = Some ''relay''" "ws_raw (sample_socket 7) = 7"
    "ws_device (sample_socket 7) = toHex (dc_deviceId (the (is_certificate (sample_device 7))))"
    "length (dc_deviceId (the (is_certificate (sample_device 7)))) = 32"
    by (simp_all add: sample_socket_def sample_hex_def device_hex_def sample_device_def issueDeviceCert_def)
  have reply: "sample_reply 7 = challenge_reply sample_crypto (sample_device 7) (replicate 32 7) ''relay'' (ws_device (sample_socket 7))
      [(''type'', JStr ''auth_challenge''), (''nonce'', JStr ''nonce'')]"
    by (simp add: sample_reply_def sample_socket_def)
  have ev: "socket_event sample_sockets [] (Open (sample_socket 7) ''nonce'')"
    by (simp add: socket_event_def sample_sockets_def sample_socket_def)
  from relay_admits_device [OF sample_signatures sample_device_signer ws(5,1,4,2) _ sample_device_wire reply ev, THEN conjunct1, THEN mp, OF _ trace_nil]
  show ?thesis by (simp only: ws(3)) simp
qed

end
