(* ===== verification/Storage.thy ===== *)
theory Storage
  imports Sample_Crypto
begin

text \<open>
  The SQLite stores of \<open>packages/storage/src\<close>: ratchet sessions (\<open>sessions.ts\<close>), the
  encrypted event log (\<open>log.ts\<close>) and the encrypted device store (\<open>device-store.ts\<close>).
  A table is the list of its rows in insertion order; \<open>INSERT OR REPLACE\<close> removes the row with
  the same key and appends the new one. Clock values and random nonces are arguments.
\<close>

section \<open>Ratchet sessions\<close>

type_synonym 'b session_store = "(string \<times> 'b \<times> int) list"

definition ss_get :: "'b session_store \<Rightarrow> string \<Rightarrow> 'b option" where
  "ss_get db sessionKey = map_option fst (map_of db sessionKey)"

definition ss_put :: "int \<Rightarrow> string \<Rightarrow> 'b \<Rightarrow> 'b session_store \<Rightarrow> 'b session_store" where
  "ss_put now sessionKey blob db = filter (\<lambda>(k, _). k \<noteq> sessionKey) db @ [(sessionKey, blob, now)]"

definition ss_delete :: "string \<Rightarrow> 'b session_store \<Rightarrow> 'b session_store" where
  "ss_delete sessionKey db = filter (\<lambda>(k, _). k \<noteq> sessionKey) db"

definition ss_clear :: "'b session_store \<Rightarrow> 'b session_store" where
  "ss_clear db = []"

definition ss_keys :: "'b session_store \<Rightarrow> string list" where
  "ss_keys db = map fst db"

lemma map_of_remove: "map_of (filter (\<lambda>(k', _). k' \<noteq> k) m) x = (if x = k then None else map_of m x)"
  by (induction m) auto

lemma map_of_replace: "map_of (filter (\<lambda>(k', _). k' \<noteq> k) m @ [(k, v)]) x = (if x = k then Some v else map_of m x)"
  by (simp add: map_add_def map_of_remove split: option.split)

interpretation session_table: keyed_store ss_get "ss_put now" ss_delete for now
  by unfold_locales (simp_all add: ss_get_def ss_put_def ss_delete_def map_of_replace map_of_remove del: map_of_append)

lemma ss_keys_distinct: "distinct (ss_keys db) \<Longrightarrow> distinct (ss_keys (ss_put now k b db)) \<and> distinct (ss_keys (ss_delete k db))"
  by (auto simp: ss_keys_def ss_put_def ss_delete_def distinct_map_filter)

section \<open>The event log\<close>

record log_row =
  lr_eventId :: bytes
  lr_nonce :: bytes
  lr_ciphertext :: bytes
  lr_createdAt :: int

type_synonym event_log = "log_row list"

definition deriveNonce :: "crypto \<Rightarrow> bytes \<Rightarrow> bytes \<Rightarrow> bytes" where
  "deriveNonce c key eventId = take 24 (deriveId c ''nexnet event nonce v1'' (key @ eventId))"

definition find_event :: "bytes \<Rightarrow> event_log \<Rightarrow> log_row option" where
  "find_event eventId db = List.find (\<lambda>r. lr_eventId r = eventId) db"

definition log_contains :: "bytes \<Rightarrow> event_log \<Rightarrow> bool" where
  "log_contains eventId db = (find_event eventId db \<noteq> None)"

definition log_append :: "crypto \<Rightarrow> bytes \<Rightarrow> int \<Rightarrow> bytes \<Rightarrow> bytes \<Rightarrow> event_log \<Rightarrow> event_log" where
  "log_append c key now eventId eventCde db =
     (let nonce = deriveNonce c key eventId;
          ciphertext = aead_enc c key nonce [] eventCde in
      if log_contains eventId db then db
      else db @ [\<lparr>lr_eventId = eventId, lr_nonce = nonce, lr_ciphertext = ciphertext, lr_createdAt = now\<rparr>])"

text \<open>\<open>get\<close>: no row, or the decrypted row; the inner option is \<open>None\<close> when decryption throws.\<close>

definition log_get :: "crypto \<Rightarrow> bytes \<Rightarrow> bytes \<Rightarrow> event_log \<Rightarrow> bytes option option" where
  "log_get c key eventId db =
     (case find_event eventId db of None \<Rightarrow> None
      | Some row \<Rightarrow> Some (aead_dec c key (lr_nonce row) [] (lr_ciphertext row)))"

definition log_count :: "event_log \<Rightarrow> nat" where "log_count db = length db"

fun prefix_of :: "'a list \<Rightarrow> 'a list \<Rightarrow> bool" where
  "prefix_of [] ys = True"
| "prefix_of (x # xs) [] = False"
| "prefix_of (x # xs) (y # ys) = (x = y \<and> prefix_of xs ys)"

fun infix_of :: "'a list \<Rightarrow> 'a list \<Rightarrow> bool" where
  "infix_of xs [] = (xs = [])"
| "infix_of xs (y # ys) = (prefix_of xs (y # ys) \<or> infix_of xs ys)"

text \<open>\<open>hex(event_id) LIKE '%...%'\<close>, a case-insensitive search in the hexadecimal text.\<close>

definition listByConversation :: "bytes \<Rightarrow> event_log \<Rightarrow> bytes list" where
  "listByConversation conversationId db =
     map lr_ciphertext (sort_key lr_createdAt (filter (\<lambda>r. infix_of (toHex conversationId) (toHex (lr_eventId r))) db))"

section \<open>The device store\<close>

record device_row =
  dv_name :: string
  dv_nonce :: bytes
  dv_ciphertext :: bytes

record limits =
  lm_bytes :: int
  lm_records :: int

record device_store =
  ds_limits :: "limits option"
  ds_rows :: "device_row list"
  ds_key :: bytes

datatype device_error = DeviceCapacity | InvalidLimits | BadUnlockKey | AlreadyOwned | AlreadyExists | MissingStore
  | InvalidFormat | DecryptFailed

definition CHECK :: bytes where "CHECK = utf8 ''nexnet encrypted device store v1''"

definition find_row :: "string \<Rightarrow> device_store \<Rightarrow> device_row option" where
  "find_row name st = List.find (\<lambda>r. dv_name r = name) (ds_rows st)"

definition device_get :: "crypto \<Rightarrow> string \<Rightarrow> device_store \<Rightarrow> device_error + bytes option" where
  "device_get c name st =
     (case find_row name st of
        None \<Rightarrow> Inr None
      | Some row \<Rightarrow>
          (case aead_dec c (ds_key st) (dv_nonce row) (utf8 name) (dv_ciphertext row) of
             None \<Rightarrow> Inl DecryptFailed | Some v \<Rightarrow> Inr (Some v)))"

lemma device_get_limits [simp]: "device_get c n (st\<lparr>ds_limits := lim\<rparr>) = device_get c n st"
  by (simp add: device_get_def find_row_def split: option.split)

definition row_bytes :: "device_row \<Rightarrow> int" where
  "row_bytes r = int (length (utf8 (dv_name r))) + int (length (dv_nonce r)) + int (length (dv_ciphertext r))"

definition device_usage :: "device_store \<Rightarrow> int \<times> int" where
  "device_usage st = (sum_list (map row_bytes (ds_rows st)), int (length (ds_rows st)))"

definition over_capacity :: "string \<Rightarrow> bytes \<Rightarrow> device_store \<Rightarrow> bool" where
  "over_capacity name v st =
     (case ds_limits st of
        None \<Rightarrow> False
      | Some lim \<Rightarrow>
          let previous = map_option row_bytes (find_row name st);
              prev = (case previous of None \<Rightarrow> 0 | Some b \<Rightarrow> b);
              nextBytes = int (length (utf8 name)) + 24 + int (length v) + 16;
              (bytes, records) = device_usage st in
          previous = None \<and> records \<ge> lm_records lim
          \<or> nextBytes > prev \<and> bytes - prev + nextBytes > lm_bytes lim)"

definition device_put :: "crypto \<Rightarrow> bytes \<Rightarrow> string \<Rightarrow> bytes \<Rightarrow> device_store \<Rightarrow> device_store \<times> (device_error + unit)" where
  "device_put c nonce name v st =
     (if over_capacity name v st then (st, Inl DeviceCapacity)
      else
        let ciphertext = aead_enc c (ds_key st) nonce (utf8 name) v in
        (st\<lparr>ds_rows := filter (\<lambda>r. dv_name r \<noteq> name) (ds_rows st)
             @ [\<lparr>dv_name = name, dv_nonce = nonce, dv_ciphertext = ciphertext\<rparr>]\<rparr>, Inr ()))"

definition setLimits :: "limits \<Rightarrow> device_store \<Rightarrow> device_store \<times> (device_error + unit)" where
  "setLimits lim st =
     (if \<not> safe_int (lm_bytes lim) \<or> lm_bytes lim < 1 \<or> \<not> safe_int (lm_records lim) \<or> lm_records lim < 1
      then (st, Inl InvalidLimits) else (st\<lparr>ds_limits := Some lim\<rparr>, Inr ()))"

text \<open>\<open>keys\<close>: the names with the prefix, in the order of the \<open>BINARY\<close> collation.\<close>

definition device_keys :: "string \<Rightarrow> device_store \<Rightarrow> string list" where
  "device_keys prefix st =
     sort_key id (filter (\<lambda>n. take (length prefix) n = prefix) (map dv_name (ds_rows st)))"

definition transaction :: "('s \<Rightarrow> 's \<times> ('e + 'a)) \<Rightarrow> 's \<Rightarrow> 's \<times> ('e + 'a)" where
  "transaction op st = (case op st of (st', Inr x) \<Rightarrow> (st', Inr x) | (st', Inl e) \<Rightarrow> (st, Inl e))"

fun authenticate_rows :: "crypto \<Rightarrow> device_store \<Rightarrow> string list \<Rightarrow> device_error + unit" where
  "authenticate_rows c st [] = Inr ()"
| "authenticate_rows c st (n # ns) = (case device_get c n st of Inl e \<Rightarrow> Inl e | Inr _ \<Rightarrow> authenticate_rows c st ns)"

text \<open>
  \<open>open\<close>: \<open>disk\<close> holds the rows of \<open>device.db\<close> if it exists, \<open>owned\<close> says
  whether another process holds the lock. The second result is the file afterwards.
\<close>

definition device_open ::
  "crypto \<Rightarrow> bytes \<Rightarrow> bool \<Rightarrow> bytes \<Rightarrow> bool \<Rightarrow> device_row list option \<Rightarrow> device_row list option \<times> (device_error + device_store)" where
  "device_open c nonce owned unlockKey create disk =
     (if length unlockKey \<noteq> 32 then (disk, Inl BadUnlockKey)
      else if owned then (disk, Inl AlreadyOwned)
      else if create = (disk \<noteq> None) then (disk, Inl (if create then AlreadyExists else MissingStore))
      else
        let st0 = \<lparr>ds_limits = None, ds_rows = (case disk of None \<Rightarrow> [] | Some rows \<Rightarrow> rows), ds_key = unlockKey\<rparr>;
            st = (if disk = None then fst (device_put c nonce ''format'' CHECK st0) else st0) in
        (Some (ds_rows st),
         case device_get c ''format'' st of
           Inl e \<Rightarrow> Inl e
         | Inr check \<Rightarrow>
             if check \<noteq> Some CHECK then Inl InvalidFormat
             else (case authenticate_rows c st (device_keys [] st) of Inl e \<Rightarrow> Inl e | Inr _ \<Rightarrow> Inr st)))"


lemma find_append: "List.find P (xs @ ys) = (case List.find P xs of None \<Rightarrow> List.find P ys | Some x \<Rightarrow> Some x)"
  by (induction xs) auto

section \<open>What the log keeps\<close>

definition id_length :: "crypto \<Rightarrow> bool" where
  "id_length c = (\<forall>ctx d. length (deriveId c ctx d) = 32)"

lemma find_event_append:
  "find_event i (log_append c key now e x db) =
     (if log_contains e db \<or> i \<noteq> e then find_event i db
      else Some \<lparr>lr_eventId = e, lr_nonce = deriveNonce c key e,
        lr_ciphertext = aead_enc c key (deriveNonce c key e) [] x, lr_createdAt = now\<rparr>)"
  by (auto simp: find_event_def log_append_def log_contains_def Let_def find_append split: option.split)

text \<open>
  The event log is append-only. Appending an event under a new id makes exactly that event
  readable under the id, appending under an id that is already there changes nothing whatever the
  new content, and no append changes what is read under any other id or removes a row.
\<close>

lemma event_log_append_only:
  assumes "aead_correct c" "id_length c" "length key = 32"
  shows "log_get c key i (log_append c key now e x db) =
      (if i = e \<and> \<not> log_contains e db then Some (Some x) else log_get c key i db)
    \<and> log_count (log_append c key now e x db) = log_count db + (if log_contains e db then 0 else 1)
    \<and> (\<exists>rows. log_append c key now e x db = db @ rows)"
proof -
  have "length (deriveNonce c key e) = 24" using assms(2) by (simp add: deriveNonce_def id_length_def)
  then have "aead_dec c key (deriveNonce c key e) [] (aead_enc c key (deriveNonce c key e) [] x) = Some x"
    using assms(1,3) by (simp add: aead_correct_def)
  then show ?thesis
    by (auto simp: log_get_def find_event_append log_count_def) (auto simp: log_append_def Let_def)
qed

lemma sample_id_length: "id_length sample_crypto"
  by (simp add: id_length_def sample_crypto_def del: take_append)

lemma event_log_append_only_witness:
  "log_get sample_crypto (replicate 32 1) [5] (log_append sample_crypto (replicate 32 1) 0 [5] [42] []) = Some (Some [42])"
  using event_log_append_only [OF sample_aead sample_id_length, of "replicate 32 1" "[5]" 0 "[5]" "[42]" "[]"]
  by (simp add: log_contains_def find_event_def)

section \<open>What the device store keeps\<close>

definition device_ok :: "crypto \<Rightarrow> device_store \<Rightarrow> bool" where
  "device_ok c st \<longleftrightarrow> length (ds_key st) = 32 \<and> distinct (map dv_name (ds_rows st))
     \<and> (\<forall>r \<in> set (ds_rows st). length (dv_nonce r) = 24 \<and> (\<exists>v. dv_ciphertext r = aead_enc c (ds_key st) (dv_nonce r) (utf8 (dv_name r)) v))"

definition within_limits :: "device_store \<Rightarrow> bool" where
  "within_limits st \<longleftrightarrow> (case ds_limits st of None \<Rightarrow> True
     | Some lim \<Rightarrow> fst (device_usage st) \<le> lm_bytes lim \<and> snd (device_usage st) \<le> lm_records lim)"

lemma find_filter: "List.find P (filter Q xs) = List.find (\<lambda>x. Q x \<and> P x) xs"
  by (induction xs) auto

lemma find_row_put:
  assumes "device_put c nonce name v st = (st', Inr ())"
  shows "find_row n st' = (if n = name then Some \<lparr>dv_name = name, dv_nonce = nonce,
      dv_ciphertext = aead_enc c (ds_key st) nonce (utf8 name) v\<rparr> else find_row n st)"
    and "ds_key st' = ds_key st" "ds_limits st' = ds_limits st"
proof -
  have st': "st' = st\<lparr>ds_rows := filter (\<lambda>r. dv_name r \<noteq> name) (ds_rows st)
      @ [\<lparr>dv_name = name, dv_nonce = nonce, dv_ciphertext = aead_enc c (ds_key st) nonce (utf8 name) v\<rparr>]\<rparr>"
    using assms by (auto simp: device_put_def Let_def split: if_splits)
  have a: "List.find (\<lambda>r. dv_name r \<noteq> name \<and> dv_name r = name) rows = None" for rows :: "device_row list"
    by (auto simp: find_None_iff)
  have b: "n \<noteq> name \<Longrightarrow> List.find (\<lambda>r. dv_name r \<noteq> name \<and> dv_name r = n) rows = List.find (\<lambda>r. dv_name r = n) rows"
    for rows :: "device_row list"
    by (rule arg_cong [where f = "\<lambda>P. List.find P rows"]) auto
  show "find_row n st' = (if n = name then Some \<lparr>dv_name = name, dv_nonce = nonce,
      dv_ciphertext = aead_enc c (ds_key st) nonce (utf8 name) v\<rparr> else find_row n st)"
    unfolding st' find_row_def using a b by (simp add: find_append find_filter split: option.split)
  show "ds_key st' = ds_key st" "ds_limits st' = ds_limits st" by (simp_all add: st')
qed

lemma remove_row:
  assumes "distinct (map dv_name rows)"
  shows "sum_list (map row_bytes (filter (\<lambda>r. dv_name r \<noteq> n) rows)) = sum_list (map row_bytes rows)
      - (case List.find (\<lambda>r. dv_name r = n) rows of None \<Rightarrow> 0 | Some r \<Rightarrow> row_bytes r)"
    and "int (length (filter (\<lambda>r. dv_name r \<noteq> n) rows)) = int (length rows)
      - (if List.find (\<lambda>r. dv_name r = n) rows = None then 0 else 1)"
proof -
  have "sum_list (map row_bytes (filter (\<lambda>r. dv_name r \<noteq> n) rows)) = sum_list (map row_bytes rows)
      - (case List.find (\<lambda>r. dv_name r = n) rows of None \<Rightarrow> 0 | Some r \<Rightarrow> row_bytes r)
    \<and> int (length (filter (\<lambda>r. dv_name r \<noteq> n) rows)) = int (length rows)
      - (if List.find (\<lambda>r. dv_name r = n) rows = None then 0 else 1)"
    using assms
  proof (induction rows)
    case (Cons r rows)
    have "filter (\<lambda>r'. dv_name r' \<noteq> dv_name r) rows = rows"
      using Cons.prems by (intro filter_True) (metis distinct.simps(2) imageI list.set_map list.simps(9))
    then show ?case using Cons by auto
  qed simp
  then show "sum_list (map row_bytes (filter (\<lambda>r. dv_name r \<noteq> n) rows)) = sum_list (map row_bytes rows)
      - (case List.find (\<lambda>r. dv_name r = n) rows of None \<Rightarrow> 0 | Some r \<Rightarrow> row_bytes r)"
    "int (length (filter (\<lambda>r. dv_name r \<noteq> n) rows)) = int (length rows)
      - (if List.find (\<lambda>r. dv_name r = n) rows = None then 0 else 1)" by blast+
qed

lemma put_usage:
  assumes "device_put c nonce name v st = (st', Inr ())" "device_ok c st" "aead_correct c" "length nonce = 24"
  shows "fst (device_usage st') = fst (device_usage st) - (case find_row name st of None \<Rightarrow> 0 | Some r \<Rightarrow> row_bytes r)
      + (int (length (utf8 name)) + 24 + int (length v) + 16)"
    and "snd (device_usage st') = snd (device_usage st) + (if find_row name st = None then 1 else 0)"
proof -
  have st': "ds_rows st' = filter (\<lambda>r. dv_name r \<noteq> name) (ds_rows st)
      @ [\<lparr>dv_name = name, dv_nonce = nonce, dv_ciphertext = aead_enc c (ds_key st) nonce (utf8 name) v\<rparr>]"
    using assms(1) by (auto simp: device_put_def Let_def split: if_splits)
  have l: "length (aead_enc c (ds_key st) nonce (utf8 name) v) = length v + 16"
    using assms(2-4) by (simp add: aead_correct_def device_ok_def)
  have d: "distinct (map dv_name (ds_rows st))" using assms(2) by (simp add: device_ok_def)
  show "fst (device_usage st') = fst (device_usage st) - (case find_row name st of None \<Rightarrow> 0 | Some r \<Rightarrow> row_bytes r)
      + (int (length (utf8 name)) + 24 + int (length v) + 16)"
    using remove_row(1) [OF d] assms(4) l by (simp add: device_usage_def st' find_row_def) (simp add: row_bytes_def)
  show "snd (device_usage st') = snd (device_usage st) + (if find_row name st = None then 1 else 0)"
    using remove_row(2) [OF d] by (simp add: device_usage_def st' find_row_def)
qed

lemma put_ok:
  assumes "device_put c nonce name v st = (st', Inr ())" "device_ok c st" "length nonce = 24"
  shows "device_ok c st'"
proof -
  have st': "st' = st\<lparr>ds_rows := filter (\<lambda>r. dv_name r \<noteq> name) (ds_rows st)
      @ [\<lparr>dv_name = name, dv_nonce = nonce, dv_ciphertext = aead_enc c (ds_key st) nonce (utf8 name) v\<rparr>]\<rparr>"
    using assms(1) by (auto simp: device_put_def Let_def split: if_splits)
  have "distinct (map dv_name (filter (\<lambda>r. dv_name r \<noteq> name) (ds_rows st)))"
    using assms(2) by (auto simp: device_ok_def intro: distinct_map_filter)
  then show ?thesis using assms(2,3) by (auto simp: device_ok_def st')
qed

lemma put_reads:
  assumes "device_put c nonce name v st = (st', Inr ())" "aead_correct c" "length (ds_key st) = 32" "length nonce = 24"
  shows "device_get c n st' = (if n = name then Inr (Some v) else device_get c n st)"
proof -
  have "aead_dec c (ds_key st) nonce (utf8 name) (aead_enc c (ds_key st) nonce (utf8 name) v) = Some v"
    using assms(2-4) by (simp add: aead_correct_def)
  then show ?thesis
    using find_row_put [OF assms(1)] by (simp add: device_get_def split: option.split)
qed

text \<open>
  Writing to the device store. A write that would exceed the limits fails with a capacity
  error and leaves the store as it was; every other write makes the value readable under its name,
  and under no other name is anything else read than before. Either way the stored ciphertext and
  the number of records stay within the limits, if they were.
\<close>

lemma device_put_sound:
  assumes "aead_correct c" "device_ok c st" "within_limits st" "length nonce = 24"
  shows "case device_put c nonce name v st of
      (st', Inl e) \<Rightarrow> st' = st \<and> e = DeviceCapacity \<and> over_capacity name v st
    | (st', Inr _) \<Rightarrow> device_ok c st' \<and> within_limits st' \<and>
        (\<forall>n. device_get c n st' = (if n = name then Inr (Some v) else device_get c n st))"
proof (cases "over_capacity name v st")
  case True
  then show ?thesis by (simp add: device_put_def)
next
  case False
  then obtain st' where st': "device_put c nonce name v st = (st', Inr ())" by (simp add: device_put_def Let_def)
  have "device_get c n st' = (if n = name then Inr (Some v) else device_get c n st)" for n
    using put_reads [OF st' assms(1)] assms(2,4) by (simp add: device_ok_def)
  moreover have "within_limits st'"
    using False assms(3) put_usage [OF st' assms(2,1,4)] find_row_put(3) [OF st']
    by (auto simp: within_limits_def over_capacity_def Let_def split_beta split: option.splits)
  ultimately show ?thesis using st' put_ok [OF st' assms(2,4)] by simp
qed

definition demo_device_store :: device_store where
  "demo_device_store = \<lparr>ds_limits = Some \<lparr>lm_bytes = 100, lm_records = 1\<rparr>, ds_rows = [], ds_key = replicate 32 1\<rparr>"

lemma device_put_sound_witness:
  "snd (device_put sample_crypto (replicate 24 0) ''a'' [1] demo_device_store) = Inr ()
   \<and> device_get sample_crypto ''a'' (fst (device_put sample_crypto (replicate 24 0) ''a'' [1] demo_device_store)) = Inr (Some [1])"
proof -
  have ok: "device_ok sample_crypto demo_device_store" "within_limits demo_device_store"
    by (simp_all add: device_ok_def within_limits_def device_usage_def demo_device_store_def)
  have s: "snd (device_put sample_crypto (replicate 24 0) ''a'' [1] demo_device_store) = Inr ()"
    by code_simp
  show ?thesis
    using device_put_sound [OF sample_aead ok, of "replicate 24 0" "''a''" "[1]"] s
    by (auto split: prod.splits)
qed

section \<open>Closing and opening again\<close>

inductive device_reach :: "crypto \<Rightarrow> bytes \<Rightarrow> device_store \<Rightarrow> bool" for c key where
  create: "length nonce = 24 \<Longrightarrow> snd (device_open c nonce False key True None) = Inr st \<Longrightarrow> device_reach c key st"
| put: "device_reach c key st \<Longrightarrow> length nonce = 24 \<Longrightarrow> name \<noteq> ''format'' \<Longrightarrow>
    device_reach c key (fst (device_put c nonce name v st))"
| limits: "device_reach c key st \<Longrightarrow> device_reach c key (fst (setLimits lim st))"

definition store_inv :: "crypto \<Rightarrow> bytes \<Rightarrow> device_store \<Rightarrow> bool" where
  "store_inv c key st \<longleftrightarrow> ds_key st = key \<and> device_ok c st \<and> device_get c ''format'' st = Inr (Some CHECK)"

lemma put_inv:
  assumes "aead_correct c" "store_inv c key st" "length nonce = 24" "name \<noteq> ''format''"
  shows "store_inv c key (fst (device_put c nonce name v st))"
proof (cases "device_put c nonce name v st")
  case (Pair st' r)
  show ?thesis
  proof (cases r)
    case (Inl e)
    then have "st' = st" using Pair by (auto simp: device_put_def Let_def split: if_splits)
    then show ?thesis using Pair assms(2) by simp
  next
    case (Inr u)
    then have p: "device_put c nonce name v st = (st', Inr ())" using Pair by simp
    have k: "length (ds_key st) = 32" using assms(2) by (auto simp: store_inv_def device_ok_def)
    have "device_get c ''format'' st' = device_get c ''format'' st"
      using put_reads [OF p assms(1) k assms(3), of "''format''"] assms(4) by simp
    then show ?thesis using p put_ok [OF p _ assms(3)] find_row_put(2) [OF p] assms(2) by (simp add: store_inv_def)
  qed
qed

lemma created_inv:
  assumes "aead_correct c" "length nonce = 24" "snd (device_open c nonce False key True None) = Inr st"
  shows "store_inv c key st"
proof -
  let ?st0 = "\<lparr>ds_limits = None, ds_rows = [], ds_key = key\<rparr>"
  have k: "length key = 32" and st: "st = fst (device_put c nonce ''format'' CHECK ?st0)"
    using assms(3) by (auto simp: device_open_def Let_def split: if_splits sum.splits)
  have ok: "device_ok c ?st0" using k by (simp add: device_ok_def)
  have p: "device_put c nonce ''format'' CHECK ?st0 = (st, Inr ())"
    unfolding st by (simp add: device_put_def over_capacity_def Let_def)
  show ?thesis
    using put_reads [OF p assms(1) _ assms(2), of "''format''"] put_ok [OF p ok assms(2)] find_row_put(2) [OF p] k
    by (simp add: store_inv_def)
qed

lemma reach_store_inv:
  assumes "aead_correct c" "device_reach c key st"
  shows "store_inv c key st"
  using assms(2)
proof (induction rule: device_reach.induct)
  case (create nonce st)
  then show ?case by (rule created_inv [OF assms(1)])
next
  case (put st nonce name v)
  then show ?case using put_inv [OF assms(1)] by blast
next
  case (limits st lim)
  then show ?case
    by (auto simp: setLimits_def store_inv_def device_ok_def)
qed

lemma rows_authentic:
  assumes "aead_correct c" "device_ok c st"
  shows "authenticate_rows c st ns = Inr ()"
proof (induction ns)
  case (Cons n ns)
  have "\<exists>x. device_get c n st = Inr x"
  proof (cases "find_row n st")
    case (Some r)
    then have "r \<in> set (ds_rows st)" "dv_name r = n" by (auto simp: find_row_def dest: find_SomeD)
    then show ?thesis using assms Some by (auto simp: device_ok_def aead_correct_def device_get_def)
  qed (simp add: device_get_def)
  then show ?case using Cons by auto
qed simp

lemma reopen_ok:
  assumes "aead_correct c" "store_inv c key st"
  shows "device_open c nonce False key False (Some (ds_rows st)) = (Some (ds_rows st), Inr (st\<lparr>ds_limits := None\<rparr>))"
proof -
  let ?st = "st\<lparr>ds_limits := None\<rparr>"
  have st: "\<lparr>ds_limits = None, ds_rows = ds_rows st, ds_key = key\<rparr> = ?st" using assms(2) by (simp add: store_inv_def)
  have "device_ok c ?st" using assms(2) by (auto simp: store_inv_def device_ok_def)
  then have auth: "authenticate_rows c ?st ns = Inr ()" for ns by (rule rows_authentic [OF assms(1)])
  have k: "length key = 32" "device_get c ''format'' ?st = Inr (Some CHECK)"
    using assms(2) by (auto simp: store_inv_def device_ok_def)
  then show ?thesis unfolding device_open_def using auth by (simp add: st Let_def)
qed

lemma create_ok:
  assumes "aead_correct c" "length nonce = 24" "length key = 32"
  obtains st where "device_open c nonce False key True None = (Some (ds_rows st), Inr st)" "store_inv c key st"
    "ds_limits st = None" "map dv_name (ds_rows st) = [''format'']"
proof -
  let ?st0 = "\<lparr>ds_limits = None, ds_rows = [], ds_key = key\<rparr>"
  obtain st where p: "device_put c nonce ''format'' CHECK ?st0 = (st, Inr ())" "ds_limits st = None"
    "map dv_name (ds_rows st) = [''format'']"
    by (simp add: device_put_def over_capacity_def Let_def)
  have ok: "device_ok c ?st0" using assms(3) by (simp add: device_ok_def)
  have get: "device_get c ''format'' st = Inr (Some CHECK)" using put_reads [OF p(1) assms(1) _ assms(2)] assms(3) by simp
  have o: "device_open c nonce False key True None = (Some (ds_rows st), Inr st)"
    using assms(3) get rows_authentic [OF assms(1) put_ok [OF p(1) ok assms(2)]]
    by (simp add: device_open_def p(1) Let_def)
  then show thesis using that created_inv [OF assms(1,2), of key st] p(2,3) by simp
qed

text \<open>
  A device store survives closing. Whatever was written (under names other than the format
  marker), opening the file again with the same key succeeds, leaves the file as it is and gives
  back every record; a key of another length, a missing file without the wish to create one, and an
  existing file with it are refused without touching the file.
\<close>

lemma device_store_reopens:
  assumes "aead_correct c" "device_reach c key st"
  shows "device_open c nonce False key False (Some (ds_rows st)) = (Some (ds_rows st), Inr (st\<lparr>ds_limits := None\<rparr>))
    \<and> (\<forall>n. device_get c n (st\<lparr>ds_limits := None\<rparr>) = device_get c n st)
    \<and> (\<exists>e. device_open c nonce False key True (Some (ds_rows st)) = (Some (ds_rows st), Inl e))
    \<and> (\<forall>k. length k \<noteq> 32 \<longrightarrow> (\<exists>e. device_open c nonce False k False (Some (ds_rows st)) = (Some (ds_rows st), Inl e)))"
proof -
  have inv: "store_inv c key st" by (rule reach_store_inv [OF assms])
  then have "length key = 32" by (auto simp: store_inv_def device_ok_def)
  then have "\<exists>e. device_open c nonce False key True (Some (ds_rows st)) = (Some (ds_rows st), Inl e)" by (simp add: device_open_def)
  then show ?thesis using reopen_ok [OF assms(1) inv] by (simp add: device_open_def)
qed

lemma device_store_reopens_witness:
  "\<exists>st. snd (device_open sample_crypto (replicate 24 0) False (replicate 32 1) True None) = Inr st
     \<and> snd (device_open sample_crypto [] False (replicate 32 1) False (Some (ds_rows st))) = Inr (st\<lparr>ds_limits := None\<rparr>)"
proof -
  let ?open = "device_open sample_crypto (replicate 24 0) False (replicate 32 1) True None"
  have "\<not> isl (snd ?open)" by code_simp
  then obtain st where st: "snd ?open = Inr st" by (cases "snd ?open") auto
  have "device_reach sample_crypto (replicate 32 1) st" by (rule device_reach.create [OF _ st]) simp
  from device_store_reopens [OF sample_aead this, of "[]"] st show ?thesis by auto
qed

end
