(* ===== verification/Double_Ratchet.thy ===== *)
theory Double_Ratchet
  imports Storage
begin

text \<open>
  The Double Ratchet, \<open>packages/client/src/double-ratchet.ts\<close>. The operations change the
  session state in place, also when they throw afterwards, so each returns the new state
  together with its result. The key pair that \<open>genDh\<close> would draw and the nonce are
  arguments. The \<open>dh\<close> and \<open>decrypt\<close> primitives throw on bad input; both show as
  \<open>CryptoFailed\<close>.
\<close>

section \<open>State\<close>

record dh_pair =
  kp_secret :: bytes
  kp_public :: bytes

record ratchet_header =
  hd_dh :: bytes
  hd_pn :: nat
  hd_n :: nat

record ratchet_state =
  rs_DHs :: dh_pair
  rs_DHr :: "bytes option"
  rs_RK :: bytes
  rs_CKs :: "bytes option"
  rs_CKr :: "bytes option"
  rs_Ns :: nat
  rs_Nr :: nat
  rs_PN :: nat
  rs_skipped :: "(string, bytes) jmap"

datatype ratchet_error = TooManySkipped | NoRemoteDh | NoSendingChain | BlobTooShort | VersionMismatch
  | NoReceivingChain | CryptoFailed | HeaderTooShort

definition INFO_RK :: bytes where "INFO_RK = utf8 ''nexnet dr root v1''"
definition INFO_CK :: bytes where "INFO_CK = utf8 ''nexnet dr chain v1''"
definition MAX_SKIP :: nat where "MAX_SKIP = 100"
definition HEADER_LEN :: nat where "HEADER_LEN = 32 + 4 + 4"
definition NONCE_LEN :: nat where "NONCE_LEN = 24"
definition RATCHET_WIRE_VERSION :: byte where "RATCHET_WIRE_VERSION = 1"

section \<open>Key derivation\<close>

definition kdfRk :: "crypto \<Rightarrow> bytes \<Rightarrow> bytes \<Rightarrow> bytes \<times> bytes" where
  "kdfRk c rk dhOut = (let out = hkdf c dhOut rk INFO_RK 64 in (take 32 out, take 32 (drop 32 out)))"

definition kdfCk :: "crypto \<Rightarrow> bytes \<Rightarrow> bytes \<times> bytes" where
  "kdfCk c ck = (let out = hkdf c ck [] INFO_CK 64 in (take 32 out, take 32 (drop 32 out)))"

definition initInitiator :: "crypto \<Rightarrow> dh_pair \<Rightarrow> bytes \<Rightarrow> ratchet_state" where
  "initInitiator c DHs sk = (let (rk, ck) = kdfRk c sk (kp_public DHs) in
     \<lparr>rs_DHs = DHs, rs_DHr = None, rs_RK = rk, rs_CKs = Some ck, rs_CKr = None,
      rs_Ns = 0, rs_Nr = 0, rs_PN = 0, rs_skipped = []\<rparr>)"

definition initResponder :: "dh_pair \<Rightarrow> bytes \<Rightarrow> ratchet_state" where
  "initResponder DHs sk = \<lparr>rs_DHs = DHs, rs_DHr = None, rs_RK = sk, rs_CKs = None, rs_CKr = None,
      rs_Ns = 0, rs_Nr = 0, rs_PN = 0, rs_skipped = []\<rparr>"

definition skipKeyId :: "bytes \<Rightarrow> nat \<Rightarrow> string" where
  "skipKeyId dhPub n = toHex dhPub @ '':'' @ decimal n"

section \<open>Ratchet steps\<close>

text \<open>The loop of \<open>skipMessageKeys\<close>, with the receiving chain key \<open>ck\<close>.\<close>

function skip_loop :: "crypto \<Rightarrow> nat \<Rightarrow> bytes \<Rightarrow> bytes \<Rightarrow> ratchet_state \<Rightarrow> ratchet_state" where
  "skip_loop c until dhPub ck st =
     (if rs_Nr st < until
      then let (ck', mk) = kdfCk c ck in
        skip_loop c until dhPub ck' (st\<lparr>rs_CKr := Some ck',
          rs_skipped := jm_set (skipKeyId dhPub (rs_Nr st)) mk (rs_skipped st), rs_Nr := rs_Nr st + 1\<rparr>)
      else st)"
  by pat_completeness auto
termination
  by (relation "measure (\<lambda>(c, until, dhPub, ck, st). until - rs_Nr st)") auto

declare skip_loop.simps [simp del]

definition skipMessageKeys :: "crypto \<Rightarrow> nat \<Rightarrow> bytes \<Rightarrow> ratchet_state \<Rightarrow> ratchet_state \<times> (ratchet_error + unit)" where
  "skipMessageKeys c until dhPub st =
     (case rs_CKr st of
        None \<Rightarrow> (st, Inr ())
      | Some ck \<Rightarrow>
          if int until - int (rs_Nr st) > int MAX_SKIP then (st, Inl TooManySkipped)
          else (skip_loop c until dhPub ck st, Inr ()))"

definition dhRatchet :: "crypto \<Rightarrow> dh_pair \<Rightarrow> bytes \<Rightarrow> ratchet_state \<Rightarrow> ratchet_state \<times> (ratchet_error + unit)" where
  "dhRatchet c fresh headerDh st =
     (let st1 = st\<lparr>rs_PN := rs_Ns st, rs_Ns := 0, rs_Nr := 0, rs_DHr := Some headerDh\<rparr> in
      case x_dh c (kp_secret (rs_DHs st1)) headerDh of
        None \<Rightarrow> (st1, Inl CryptoFailed)
      | Some dhOut1 \<Rightarrow>
          let (rk1, ck1) = kdfRk c (rs_RK st1) dhOut1;
              st2 = st1\<lparr>rs_RK := rk1, rs_CKr := Some ck1, rs_DHs := fresh\<rparr> in
          (case x_dh c (kp_secret fresh) headerDh of
             None \<Rightarrow> (st2, Inl CryptoFailed)
           | Some dhOut2 \<Rightarrow>
               let (rk2, ck2) = kdfRk c rk1 dhOut2 in
               (st2\<lparr>rs_RK := rk2, rs_CKs := Some ck2\<rparr>, Inr ())))"

definition bootstrapReceive :: "crypto \<Rightarrow> bytes \<Rightarrow> ratchet_state \<Rightarrow> ratchet_state" where
  "bootstrapReceive c headerDh st = (let (rk, ck) = kdfRk c (rs_RK st) headerDh in
     st\<lparr>rs_RK := rk, rs_CKr := Some ck, rs_DHr := Some headerDh\<rparr>)"

definition ensureSendingChain :: "crypto \<Rightarrow> ratchet_state \<Rightarrow> ratchet_state \<times> (ratchet_error + unit)" where
  "ensureSendingChain c st =
     (case rs_CKs st of
        Some _ \<Rightarrow> (st, Inr ())
      | None \<Rightarrow>
          (case rs_DHr st of
             None \<Rightarrow> (st, Inl NoRemoteDh)
           | Some DHr \<Rightarrow>
               (case x_dh c (kp_secret (rs_DHs st)) DHr of
                  None \<Rightarrow> (st, Inl CryptoFailed)
                | Some dhOut \<Rightarrow> let (rk, ck) = kdfRk c (rs_RK st) dhOut in
                    (st\<lparr>rs_RK := rk, rs_CKs := Some ck\<rparr>, Inr ()))))"

section \<open>Wire format\<close>

text \<open>
  \<open>encodeHeader\<close> copies the public key into a zeroed array of 40 bytes (a key longer than
  that would throw; X25519 keys have 32) and writes the two counters modulo \<open>2 ^ 32\<close>.
\<close>

definition encodeHeader :: "ratchet_header \<Rightarrow> bytes" where
  "encodeHeader h = take 32 (hd_dh h @ replicate 32 0) @ put32 (hd_pn h) @ put32 (hd_n h)"

text \<open>The three fields of a header of 40 bytes; \<open>decodeHeader\<close> refuses anything shorter.\<close>

definition header_fields :: "bytes \<Rightarrow> ratchet_header" where
  "header_fields buf = \<lparr>hd_dh = take 32 buf, hd_pn = be32 (take 4 (drop 32 buf)), hd_n = be32 (take 4 (drop 36 buf))\<rparr>"

definition decodeHeader :: "bytes \<Rightarrow> ratchet_error + ratchet_header" where
  "decodeHeader buf = (if length buf < HEADER_LEN then Inl HeaderTooShort else Inr (header_fields buf))"

definition seal :: "crypto \<Rightarrow> bytes \<Rightarrow> bytes \<Rightarrow> bytes \<Rightarrow> ratchet_state \<Rightarrow> ratchet_state \<times> (ratchet_error + bytes)" where
  "seal c nonce plaintext aad st =
     (case ensureSendingChain c st of
        (st1, Inl e) \<Rightarrow> (st1, Inl e)
      | (st1, Inr _) \<Rightarrow>
          (case rs_CKs st1 of
             None \<Rightarrow> (st1, Inl NoSendingChain)
           | Some cks \<Rightarrow>
               let (ck, mk) = kdfCk c cks;
                   header = \<lparr>hd_dh = kp_public (rs_DHs st1), hd_pn = rs_PN st1, hd_n = rs_Ns st1\<rparr>;
                   headerBytes = encodeHeader header;
                   ct = aead_enc c mk nonce (aad @ headerBytes) plaintext in
               (st1\<lparr>rs_CKs := Some ck, rs_Ns := rs_Ns st1 + 1\<rparr>,
                Inr (RATCHET_WIRE_VERSION # headerBytes @ nonce @ ct))))"

definition decrypted :: "bytes option \<Rightarrow> ratchet_error + bytes" where
  "decrypted r = (case r of None \<Rightarrow> Inl CryptoFailed | Some p \<Rightarrow> Inr p)"

text \<open>The change of receiving chain in \<open>open\<close>, when the header names another public key.\<close>

definition turn :: "crypto \<Rightarrow> dh_pair \<Rightarrow> ratchet_header \<Rightarrow> ratchet_state \<Rightarrow> ratchet_state \<times> (ratchet_error + unit)" where
  "turn c fresh header st =
     (if rs_DHr st = Some (hd_dh header) then (st, Inr ())
      else if rs_DHr st = None \<and> rs_CKr st = None \<and> rs_CKs st = None
      then (bootstrapReceive c (hd_dh header) st, Inr ())
      else
        (case (rs_CKr st, rs_DHr st) of
           (Some _, Some DHr) \<Rightarrow>
             (case skipMessageKeys c (hd_pn header) DHr st of
                (st1, Inl e) \<Rightarrow> (st1, Inl e)
              | (st1, Inr _) \<Rightarrow> dhRatchet c fresh (hd_dh header) st1)
         | _ \<Rightarrow> dhRatchet c fresh (hd_dh header) st))"

text \<open>The end of \<open>open\<close>: the receiving chain is advanced to the message and past it.\<close>

definition receive :: "crypto \<Rightarrow> ratchet_header \<Rightarrow> bytes \<Rightarrow> bytes \<Rightarrow> bytes \<Rightarrow> ratchet_state \<Rightarrow> ratchet_state \<times> (ratchet_error + bytes)" where
  "receive c header nonce fullAad ct st =
     (case rs_CKr st of
        None \<Rightarrow> (st, Inl NoReceivingChain)
      | Some _ \<Rightarrow>
          (case skipMessageKeys c (hd_n header) (hd_dh header) st of
             (st1, Inl e) \<Rightarrow> (st1, Inl e)
           | (st1, Inr _) \<Rightarrow>
               (case rs_CKr st1 of
                  None \<Rightarrow> (st1, Inl NoReceivingChain)
                | Some ckr \<Rightarrow> let (ck, mk) = kdfCk c ckr in
                    (st1\<lparr>rs_CKr := Some ck, rs_Nr := rs_Nr st1 + 1\<rparr>, decrypted (aead_dec c mk nonce fullAad ct)))))"

definition open_sealed :: "crypto \<Rightarrow> dh_pair \<Rightarrow> bytes \<Rightarrow> bytes \<Rightarrow> ratchet_state \<Rightarrow> ratchet_state \<times> (ratchet_error + bytes)" where
  "open_sealed c fresh blob aad st =
     (if length blob < 1 + HEADER_LEN + NONCE_LEN + 1 then (st, Inl BlobTooShort)
      else if blob ! 0 \<noteq> RATCHET_WIRE_VERSION then (st, Inl VersionMismatch)
      else
        (case decodeHeader (take HEADER_LEN (drop 1 blob)) of
           Inl e \<Rightarrow> (st, Inl e)
         | Inr header \<Rightarrow>
             let nonce = take NONCE_LEN (drop (1 + HEADER_LEN) blob);
                 ct = drop (1 + HEADER_LEN + NONCE_LEN) blob;
                 fullAad = aad @ encodeHeader header;
                 skipId = skipKeyId (hd_dh header) (hd_n header) in
             case jm_get (rs_skipped st) skipId of
               Some mk \<Rightarrow> (st\<lparr>rs_skipped := jm_del skipId (rs_skipped st)\<rparr>, decrypted (aead_dec c mk nonce fullAad ct))
             | None \<Rightarrow>
                 (case turn c fresh header st of
                    (st1, Inl e) \<Rightarrow> (st1, Inl e)
                  | (st1, Inr _) \<Rightarrow> receive c header nonce fullAad ct st1)))"

text \<open>The length check of \<open>open\<close> leaves no room for a short header.\<close>

lemma open_sealed_eq:
  "open_sealed c fresh blob aad st =
     (if length blob < 1 + HEADER_LEN + NONCE_LEN + 1 then (st, Inl BlobTooShort)
      else if blob ! 0 \<noteq> RATCHET_WIRE_VERSION then (st, Inl VersionMismatch)
      else
        let header = header_fields (take HEADER_LEN (drop 1 blob));
            nonce = take NONCE_LEN (drop (1 + HEADER_LEN) blob);
            ct = drop (1 + HEADER_LEN + NONCE_LEN) blob;
            fullAad = aad @ encodeHeader header;
            skipId = skipKeyId (hd_dh header) (hd_n header) in
        case jm_get (rs_skipped st) skipId of
          Some mk \<Rightarrow> (st\<lparr>rs_skipped := jm_del skipId (rs_skipped st)\<rparr>, decrypted (aead_dec c mk nonce fullAad ct))
        | None \<Rightarrow>
            (case turn c fresh header st of
               (st1, Inl e) \<Rightarrow> (st1, Inl e)
             | (st1, Inr _) \<Rightarrow> receive c header nonce fullAad ct st1))"
  by (simp add: open_sealed_def decodeHeader_def HEADER_LEN_def NONCE_LEN_def Let_def)

section \<open>Persistence\<close>

record serialized_ratchet =
  sr_secret :: "int list"
  sr_public :: "int list"
  sr_DHr :: "int list option"
  sr_RK :: "int list"
  sr_CKs :: "int list option"
  sr_CKr :: "int list option"
  sr_Ns :: nat
  sr_Nr :: nat
  sr_PN :: nat
  sr_skipped :: "(string \<times> int list) list"

definition array_from :: "bytes \<Rightarrow> int list" where "array_from b = map uint b"
definition new_uint8 :: "int list \<Rightarrow> bytes" where "new_uint8 ns = map word_of_int ns"

text \<open>The object that goes through \<open>JSON.stringify\<close> and back through \<open>JSON.parse\<close> unchanged.\<close>

definition serializeState :: "ratchet_state \<Rightarrow> serialized_ratchet" where
  "serializeState st = \<lparr>sr_secret = array_from (kp_secret (rs_DHs st)), sr_public = array_from (kp_public (rs_DHs st)),
     sr_DHr = map_option array_from (rs_DHr st), sr_RK = array_from (rs_RK st),
     sr_CKs = map_option array_from (rs_CKs st), sr_CKr = map_option array_from (rs_CKr st),
     sr_Ns = rs_Ns st, sr_Nr = rs_Nr st, sr_PN = rs_PN st,
     sr_skipped = map (\<lambda>(k, v). (k, array_from v)) (rs_skipped st)\<rparr>"

definition deserializeState :: "serialized_ratchet \<Rightarrow> ratchet_state" where
  "deserializeState obj = \<lparr>rs_DHs = \<lparr>kp_secret = new_uint8 (sr_secret obj), kp_public = new_uint8 (sr_public obj)\<rparr>,
     rs_DHr = map_option new_uint8 (sr_DHr obj), rs_RK = new_uint8 (sr_RK obj),
     rs_CKs = map_option new_uint8 (sr_CKs obj), rs_CKr = map_option new_uint8 (sr_CKr obj),
     rs_Ns = sr_Ns obj, rs_Nr = sr_Nr obj, rs_PN = sr_PN obj,
     rs_skipped = foldl (\<lambda>m (k, v). jm_set k (new_uint8 v) m) [] (sr_skipped obj)\<rparr>"

text \<open>The module's sessions and its optional backend, a \<open>SessionStore\<close>.\<close>

record ratchet_sessions =
  sn_sessions :: "(string, ratchet_state) jmap"
  sn_backend :: "serialized_ratchet session_store option"

definition sessionStoreKey :: "bytes \<Rightarrow> bytes \<Rightarrow> string" where
  "sessionStoreKey conversationId peerId = toHex conversationId @ '':'' @ toHex peerId"

definition x3dhSessionStoreKey :: "bytes \<Rightarrow> bytes \<Rightarrow> string" where
  "x3dhSessionStoreKey conversationId peerId = ''nexnet-dm-x3dh-v1:'' @ sessionStoreKey conversationId peerId"

definition persist_session :: "int \<Rightarrow> string \<Rightarrow> ratchet_state \<Rightarrow> ratchet_sessions \<Rightarrow> ratchet_sessions" where
  "persist_session now key st sn = sn\<lparr>sn_sessions := jm_set key st (sn_sessions sn),
     sn_backend := map_option (ss_put now key (serializeState st)) (sn_backend sn)\<rparr>"

definition load_session :: "string \<Rightarrow> ratchet_sessions \<Rightarrow> ratchet_sessions \<times> ratchet_state option" where
  "load_session key sn =
     (case jm_get (sn_sessions sn) key of
        Some st \<Rightarrow> (sn, Some st)
      | None \<Rightarrow>
          (case sn_backend sn of
             None \<Rightarrow> (sn, None)
           | Some b \<Rightarrow>
               (case ss_get b key of
                  None \<Rightarrow> (sn, None)
                | Some blob \<Rightarrow> let st = deserializeState blob in
                    (sn\<lparr>sn_sessions := jm_set key st (sn_sessions sn)\<rparr>, Some st))))"

definition setSessionBackend :: "serialized_ratchet session_store option \<Rightarrow> ratchet_sessions \<Rightarrow> ratchet_sessions" where
  "setSessionBackend b sn = sn\<lparr>sn_backend := b\<rparr>"

definition getSession_ratchet :: "string \<Rightarrow> ratchet_sessions \<Rightarrow> ratchet_sessions \<times> ratchet_state option" where
  "getSession_ratchet key sn = load_session key sn"

definition setSession :: "int \<Rightarrow> string \<Rightarrow> ratchet_state \<Rightarrow> ratchet_sessions \<Rightarrow> ratchet_sessions" where
  "setSession now key st sn = persist_session now key st sn"

definition saveSession :: "int \<Rightarrow> string \<Rightarrow> ratchet_state \<Rightarrow> ratchet_sessions \<Rightarrow> ratchet_sessions" where
  "saveSession now key st sn = persist_session now key st sn"

definition clearSessions :: "ratchet_sessions \<Rightarrow> ratchet_sessions" where
  "clearSessions sn = sn\<lparr>sn_sessions := [], sn_backend := map_option ss_clear (sn_backend sn)\<rparr>"

definition getOrCreateSendSession ::
  "crypto \<Rightarrow> int \<Rightarrow> dh_pair \<Rightarrow> string \<Rightarrow> bytes \<Rightarrow> ratchet_sessions \<Rightarrow> ratchet_sessions \<times> ratchet_state" where
  "getOrCreateSendSession c now fresh key sk sn =
     (case load_session key sn of
        (sn1, Some st) \<Rightarrow> (sn1, st)
      | (sn1, None) \<Rightarrow> let st = initInitiator c fresh sk in (persist_session now key st sn1, st))"

definition getOrCreateRecvSession ::
  "int \<Rightarrow> dh_pair \<Rightarrow> string \<Rightarrow> bytes \<Rightarrow> ratchet_sessions \<Rightarrow> ratchet_sessions \<times> ratchet_state" where
  "getOrCreateRecvSession now fresh key sk sn =
     (case load_session key sn of
        (sn1, Some st) \<Rightarrow> (sn1, st)
      | (sn1, None) \<Rightarrow> let st = initResponder fresh sk in (persist_session now key st sn1, st))"

section \<open>Sessions survive a restart\<close>

text \<open>
  The \<open>SessionBackend\<close> interface: a keyed table of blobs, and a serialisation that loses nothing
  on the states that are stored.
\<close>

locale session_backend = keyed_store bget bput bdel
  for bget :: "'s \<Rightarrow> string \<Rightarrow> 'b option" and bput :: "string \<Rightarrow> 'b \<Rightarrow> 's \<Rightarrow> 's" and bdel :: "string \<Rightarrow> 's \<Rightarrow> 's" +
  fixes ser :: "'a \<Rightarrow> 'b" and deser :: "'b \<Rightarrow> 'a" and valid :: "'a \<Rightarrow> bool"
  assumes deser_ser: "valid x \<Longrightarrow> deser (ser x) = x"
begin

lemma reload: "valid x \<Longrightarrow> map_option deser (bget (bput k (ser x) s) k') = (if k' = k then Some x else map_option deser (bget s k'))"
  by (simp add: get_put deser_ser)

end

lemma new_uint8_array_from [simp]: "new_uint8 (array_from b) = b"
  by (simp add: new_uint8_def array_from_def comp_def)

lemma skipped_restored:
  "jm_ok (acc @ m) \<Longrightarrow> foldl (\<lambda>m (k, v). jm_set k (new_uint8 v) m) acc (map (\<lambda>(k, v). (k, array_from v)) m) = acc @ m"
proof (induction m arbitrary: acc)
  case (Cons p m)
  obtain k v where p: "p = (k, v)" by (cases p)
  have "k \<notin> fst ` set acc" using Cons.prems p by (auto simp: jm_ok_def)
  then have "jm_set k v acc = acc @ [(k, v)]" by (induction acc) (auto simp: jm_set_def)
  then show ?case using Cons.IH [of "acc @ [(k, v)]"] Cons.prems p by simp
qed simp

lemma deserialize_serialize: "jm_ok (rs_skipped st) \<Longrightarrow> deserializeState (serializeState st) = st"
  using skipped_restored [of "[]" "rs_skipped st"]
  by (simp add: deserializeState_def serializeState_def option.map_comp comp_def option.map_ident)

interpretation ratchet_backend: session_backend ss_get "ss_put now" ss_delete serializeState deserializeState
    "\<lambda>st. jm_ok (rs_skipped st)" for now
  by unfold_locales (rule deserialize_serialize)

lemma skip_loop_jm_ok: "jm_ok (rs_skipped st) \<Longrightarrow> jm_ok (rs_skipped (skip_loop c until P ck st))"
proof (induction "until - rs_Nr st" arbitrary: st ck)
  case 0
  then show ?case by (subst skip_loop.simps) simp
next
  case (Suc k)
  let ?st = "st\<lparr>rs_CKr := Some (fst (kdfCk c ck)), rs_skipped := jm_set (skipKeyId P (rs_Nr st)) (snd (kdfCk c ck)) (rs_skipped st),
      rs_Nr := rs_Nr st + 1\<rparr>"
  have "skip_loop c until P ck st = skip_loop c until P (fst (kdfCk c ck)) ?st"
    using Suc.hyps(2) by (subst skip_loop.simps) (simp add: split_beta Let_def)
  moreover have "jm_ok (rs_skipped (skip_loop c until P (fst (kdfCk c ck)) ?st))"
    using Suc by (intro Suc.hyps(1)) auto
  ultimately show ?case by simp
qed

lemma skip_jm_ok: "jm_ok (rs_skipped st) \<Longrightarrow> jm_ok (rs_skipped (fst (skipMessageKeys c until P st)))"
  by (auto simp: skipMessageKeys_def skip_loop_jm_ok split: option.split)

lemma dhRatchet_skipped: "rs_skipped (fst (dhRatchet c fresh P st)) = rs_skipped st"
  by (auto simp: dhRatchet_def Let_def split_beta split: option.split)

lemma turn_jm_ok: "jm_ok (rs_skipped st) \<Longrightarrow> jm_ok (rs_skipped (fst (turn c fresh h st)))"
  by (auto simp: turn_def bootstrapReceive_def split_beta skip_jm_ok dhRatchet_skipped split: option.split sum.split)

lemma receive_jm_ok: "jm_ok (rs_skipped st) \<Longrightarrow> jm_ok (rs_skipped (fst (receive c h nonce a ct st)))"
  by (auto simp: receive_def split_beta skip_jm_ok split: option.split sum.split)

lemma open_jm_ok: "jm_ok (rs_skipped st) \<Longrightarrow> jm_ok (rs_skipped (fst (open_sealed c fresh blob aad st)))"
  by (auto simp: open_sealed_eq Let_def split_beta turn_jm_ok receive_jm_ok split: option.split sum.split)

lemma seal_skipped: "rs_skipped (fst (seal c nonce p aad st)) = rs_skipped st"
  by (auto simp: seal_def ensureSendingChain_def split_beta Let_def split: option.split sum.split)

text \<open>
  A stored ratchet session survives a restart. The map of skipped keys of a session is always
  proper, from creation through every seal and open, failed ones included; saving such a session and
  then loading it in a process that has only the store gives back the very same state, and saving
  one session changes no other. The keys of direct-message sessions never collide with those of
  the generic helpers.
\<close>

lemma session_survives_restart:
  assumes "jm_ok (rs_skipped st)" and "sn_backend sn = Some db"
  shows "snd (load_session key ((persist_session now key st sn)\<lparr>sn_sessions := []\<rparr>)) = Some st
    \<and> (key' \<noteq> key \<longrightarrow> snd (load_session key' (persist_session now key st sn)) = snd (load_session key' sn))
    \<and> jm_ok (rs_skipped (fst (seal c nonce p aad st))) \<and> jm_ok (rs_skipped (fst (open_sealed c fresh blob aad st)))
    \<and> jm_ok (rs_skipped (initInitiator c fresh sk)) \<and> jm_ok (rs_skipped (initResponder fresh sk))
    \<and> x3dhSessionStoreKey i j \<noteq> sessionStoreKey i' j'"
proof -
  have "x3dhSessionStoreKey i j \<noteq> sessionStoreKey i' j'"
  proof
    assume "x3dhSessionStoreKey i j = sessionStoreKey i' j'"
    then have "hd (toHex i' @ '':'') = CHR ''n''"
      by (cases "toHex i'") (simp_all add: x3dhSessionStoreKey_def sessionStoreKey_def)
    moreover have "list_all is_hex (toHex i')" by simp
    ultimately show False by (cases "toHex i'") (auto simp: is_hex_def hex_value_def)
  qed
  moreover have "snd (load_session key ((persist_session now key st sn)\<lparr>sn_sessions := []\<rparr>)) = Some st"
    using assms by (simp add: load_session_def persist_session_def session_table.get_put deserialize_serialize)
  moreover have "key' \<noteq> key \<longrightarrow> snd (load_session key' (persist_session now key st sn)) = snd (load_session key' sn)"
    by (auto simp: load_session_def persist_session_def jm_get_set session_table.get_put Let_def split: option.split)
  ultimately show ?thesis
    using assms open_jm_ok by (simp add: seal_skipped initInitiator_def initResponder_def split_beta)
qed

definition demo_pair :: "byte \<Rightarrow> dh_pair" where
  "demo_pair b = \<lparr>kp_secret = replicate 32 b, kp_public = replicate 32 b\<rparr>"

lemma session_survives_restart_witness:
  "snd (load_session ''s'' ((persist_session 0 ''s'' (initInitiator sample_crypto (demo_pair 1) (replicate 32 7))
      \<lparr>sn_sessions = [], sn_backend = Some []\<rparr>)\<lparr>sn_sessions := []\<rparr>))
   = Some (initInitiator sample_crypto (demo_pair 1) (replicate 32 7))"
  using session_survives_restart [of "initInitiator sample_crypto (demo_pair 1) (replicate 32 7)"
      "\<lparr>sn_sessions = [], sn_backend = Some []\<rparr>" "[]" "''s''" 0]
  by (simp add: initInitiator_def split_beta)

end
