(* ===== verification/Ratchet_Keys.thy ===== *)
theory Ratchet_Keys
  imports Double_Ratchet
begin

text \<open>
  Which message keys a ratchet state can still produce (\<open>avail\<close>), and how skipping, opening
  and changing the receiving chain change that set: skipping changes nothing, opening uses up one
  key, a new chain adds its keys and keeps those of the old chain that were sent.
\<close>

section \<open>Message keys\<close>

text \<open>The chain key after \<open>k\<close> steps and the message key of step \<open>k\<close>.\<close>

primrec CK :: "crypto \<Rightarrow> bytes \<Rightarrow> nat \<Rightarrow> bytes" where
  "CK c ck 0 = ck"
| "CK c ck (Suc k) = fst (kdfCk c (CK c ck k))"

declare CK.simps(2) [simp del]

definition MK :: "crypto \<Rightarrow> bytes \<Rightarrow> nat \<Rightarrow> bytes" where
  "MK c ck k = snd (kdfCk c (CK c ck k))"

lemma CK_step: "CK c (fst (kdfCk c ck)) k = CK c ck (Suc k)"
  by (induction k) (auto simp: CK.simps(2))

lemma MK_step: "MK c (fst (kdfCk c ck)) k = MK c ck (Suc k)"
  by (simp add: MK_def CK_step)

lemma CK_add: "CK c (CK c ck j) k = CK c ck (j + k)"
  by (induction k) (auto simp: CK.simps(2))

lemma MK_add: "MK c (CK c ck j) k = MK c ck (j + k)"
  by (simp add: MK_def CK_add)

lemma kdfCk_eq: "kdfCk c (CK c ck k) = (CK c ck (Suc k), MK c ck k)"
  by (simp add: MK_def CK.simps(2))

lemma kdfCk_first: "kdfCk c ck = (CK c ck 1, MK c ck 0)"
  using kdfCk_eq [of c ck 0] by simp

lemma length_MK [simp]: "hkdf_length c \<Longrightarrow> length (MK c ck k) = 32"
  by (simp add: MK_def kdfCk_def hkdf_length_def Let_def)

section \<open>Identifiers of skipped keys\<close>

lemma skipKeyId_inj [simp]: "skipKeyId P m = skipKeyId Q n \<longleftrightarrow> P = Q \<and> m = n"
proof
  assume "skipKeyId P m = skipKeyId Q n"
  then have "toHex P @ CHR '':'' # decimal m = toHex Q @ CHR '':'' # decimal n" by (simp add: skipKeyId_def)
  from split_at_separator [OF this] have "toHex P = toHex Q" "decimal m = decimal n"
    by (simp_all add: toHex_no_colon)
  then show "P = Q \<and> m = n" using decimal_inj by simp
qed simp

section \<open>Skipping\<close>

definition skipped_key :: "ratchet_state \<Rightarrow> bytes \<Rightarrow> nat \<Rightarrow> bytes option" where
  "skipped_key st P n = jm_get (rs_skipped st) (skipKeyId P n)"

lemma skip_loop_state:
  assumes "rs_CKr st = Some ck"
  shows "rs_CKr (skip_loop c until P ck st) = Some (CK c ck (until - rs_Nr st)) \<and>
    rs_Nr (skip_loop c until P ck st) = max (rs_Nr st) until \<and> rs_DHs (skip_loop c until P ck st) = rs_DHs st \<and>
    rs_DHr (skip_loop c until P ck st) = rs_DHr st \<and> rs_RK (skip_loop c until P ck st) = rs_RK st \<and>
    rs_CKs (skip_loop c until P ck st) = rs_CKs st \<and> rs_Ns (skip_loop c until P ck st) = rs_Ns st \<and>
    rs_PN (skip_loop c until P ck st) = rs_PN st"
  using assms
proof (induction "until - rs_Nr st" arbitrary: st ck)
  case 0
  then show ?case by (subst (1 2 3 4 5 6 7 8) skip_loop.simps) simp
next
  case (Suc k)
  let ?ck = "fst (kdfCk c ck)"
  let ?st = "st\<lparr>rs_CKr := Some ?ck, rs_skipped := jm_set (skipKeyId P (rs_Nr st)) (snd (kdfCk c ck)) (rs_skipped st),
      rs_Nr := rs_Nr st + 1\<rparr>"
  have loop: "skip_loop c until P ck st = skip_loop c until P ?ck ?st"
    using Suc.hyps(2) by (subst skip_loop.simps) (simp add: split_beta Let_def)
  have "until - rs_Nr st = Suc (until - rs_Nr ?st)" using Suc.hyps(2) by simp
  then show ?case
    using Suc.hyps(1) [of ?st ?ck] Suc.hyps(2) unfolding loop
    by (simp add: CK_step max_def)
qed

lemma skip_loop_keys:
  "rs_CKr st = Some ck \<Longrightarrow>
   skipped_key (skip_loop c until P ck st) Q n =
     (if Q = P \<and> rs_Nr st \<le> n \<and> n < until then Some (MK c ck (n - rs_Nr st)) else skipped_key st Q n)"
proof (induction "until - rs_Nr st" arbitrary: st ck)
  case 0
  then show ?case by (subst skip_loop.simps) auto
next
  case (Suc k)
  let ?ck = "fst (kdfCk c ck)"
  let ?st = "st\<lparr>rs_CKr := Some ?ck, rs_skipped := jm_set (skipKeyId P (rs_Nr st)) (snd (kdfCk c ck)) (rs_skipped st),
      rs_Nr := rs_Nr st + 1\<rparr>"
  have loop: "skip_loop c until P ck st = skip_loop c until P ?ck ?st"
    using Suc.hyps(2) by (subst skip_loop.simps) (simp add: split_beta Let_def)
  have "skipped_key (skip_loop c until P ?ck ?st) Q n =
     (if Q = P \<and> rs_Nr ?st \<le> n \<and> n < until then Some (MK c ?ck (n - rs_Nr ?st)) else skipped_key ?st Q n)"
    using Suc by simp
  moreover have "skipped_key ?st Q n = (if Q = P \<and> n = rs_Nr st then Some (MK c ck 0) else skipped_key st Q n)"
    by (simp add: skipped_key_def jm_get_set MK_def)
  moreover have "MK c ?ck (n - Suc (rs_Nr st)) = MK c ck (n - rs_Nr st)" if "rs_Nr st < n"
    using that by (simp add: MK_step Suc_diff_Suc)
  ultimately show ?case unfolding loop using Suc.hyps(2) by (auto simp: le_less_Suc_eq)
qed

section \<open>Keys a state can still produce\<close>

definition avail :: "crypto \<Rightarrow> ratchet_state \<Rightarrow> bytes \<Rightarrow> nat \<Rightarrow> bytes option" where
  "avail c st P n =
     (case skipped_key st P n of
        Some mk \<Rightarrow> Some mk
      | None \<Rightarrow> if rs_DHr st = Some P \<and> rs_Nr st \<le> n then map_option (\<lambda>ck. MK c ck (n - rs_Nr st)) (rs_CKr st) else None)"

definition tidy :: "ratchet_state \<Rightarrow> bool" where
  "tidy st \<longleftrightarrow> (\<forall>P n. rs_DHr st = Some P \<longrightarrow> rs_Nr st \<le> n \<longrightarrow> skipped_key st P n = None)"

lemma same_receiver:
  assumes "rs_DHr st' = rs_DHr st" "rs_CKr st' = rs_CKr st" "rs_Nr st' = rs_Nr st" "rs_skipped st' = rs_skipped st"
  shows "skipped_key st' = skipped_key st" "tidy st' = tidy st" "avail c st' = avail c st"
proof -
  show sk: "skipped_key st' = skipped_key st" using assms(4) by (simp add: skipped_key_def fun_eq_iff)
  show "tidy st' = tidy st" by (simp add: tidy_def sk assms)
  show "avail c st' = avail c st" unfolding avail_def sk assms by (rule refl)
qed

text \<open>Skipping on the current chain changes nothing that can be seen.\<close>

lemma skip_invisible:
  assumes "tidy st" "rs_CKr st = Some ck" "rs_DHr st = Some P"
  shows "tidy (skip_loop c until P ck st)" "avail c (skip_loop c until P ck st) Q n = avail c st Q n"
proof -
  let ?s = "skip_loop c until P ck st"
  have f: "rs_DHr ?s = Some P" "rs_Nr ?s = max (rs_Nr st) until" "rs_CKr ?s = Some (CK c ck (until - rs_Nr st))"
    using skip_loop_state [OF assms(2), of c until P] assms(3) by auto
  note keys = skip_loop_keys [OF assms(2), of c until P]
  show "tidy ?s"
    using assms(1,3) by (auto simp: tidy_def keys f)
  have "MK c (CK c ck (until - rs_Nr st)) (n - max (rs_Nr st) until) = MK c ck (n - rs_Nr st)" if "max (rs_Nr st) until \<le> n"
    using that by (simp add: MK_add max_def)
  then show "avail c ?s Q n = avail c st Q n"
    using assms by (cases "Q = P") (simp_all add: avail_def keys f tidy_def split: option.splits)
qed


lemma skip_ok:
  assumes "tidy st" "rs_CKr st = Some ck" "rs_DHr st = Some P" "until \<le> rs_Nr st + MAX_SKIP"
  obtains st1 where "skipMessageKeys c until P st = (st1, Inr ())" "tidy st1" "avail c st1 = avail c st"
    "rs_CKr st1 = Some (CK c ck (until - rs_Nr st))" "rs_Nr st1 = max (rs_Nr st) until"
    "rs_DHs st1 = rs_DHs st" "rs_DHr st1 = Some P" "rs_RK st1 = rs_RK st" "rs_CKs st1 = rs_CKs st"
    "rs_Ns st1 = rs_Ns st" "rs_PN st1 = rs_PN st"
    "\<And>Q n. skipped_key st1 Q n = (if Q = P \<and> rs_Nr st \<le> n \<and> n < until then Some (MK c ck (n - rs_Nr st)) else skipped_key st Q n)"
proof
  show "skipMessageKeys c until P st = (skip_loop c until P ck st, Inr ())"
    using assms(2,4) by (simp add: skipMessageKeys_def)
qed (use skip_invisible [OF assms(1-3), of c until] skip_loop_state [OF assms(2), of c until P]
    skip_loop_keys [OF assms(2), of c until P] assms(3) in \<open>simp_all add: fun_eq_iff\<close>)

section \<open>Opening a sealed message\<close>

definition sealed_with :: "crypto \<Rightarrow> bytes \<Rightarrow> ratchet_header \<Rightarrow> bytes \<Rightarrow> bytes \<Rightarrow> bytes \<Rightarrow> bool" where
  "sealed_with c aad h mk p blob \<longleftrightarrow> length (hd_dh h) = 32 \<and> hd_pn h < 2 ^ 32 \<and> hd_n h < 2 ^ 32 \<and> length mk = 32 \<and>
     (\<exists>nonce. length nonce = 24 \<and>
       blob = RATCHET_WIRE_VERSION # encodeHeader h @ nonce @ aead_enc c mk nonce (aad @ encodeHeader h) p)"

definition blob_header :: "bytes \<Rightarrow> ratchet_header" where
  "blob_header blob = header_fields (take HEADER_LEN (drop 1 blob))"

lemma length_encodeHeader [simp]: "length (encodeHeader h) = 40"
  by (simp add: encodeHeader_def min_def)

lemma decode_encode:
  "length (hd_dh h) = 32 \<Longrightarrow> hd_pn h < 2 ^ 32 \<Longrightarrow> hd_n h < 2 ^ 32 \<Longrightarrow> header_fields (encodeHeader h) = h"
  by (simp add: header_fields_def encodeHeader_def)

lemma sealed_header: "sealed_with c aad h mk p blob \<Longrightarrow> blob_header blob = h"
  by (auto simp: sealed_with_def blob_header_def HEADER_LEN_def decode_encode)

text \<open>
  What \<open>open\<close> does with such a blob: decrypt with a key that was set aside, or advance the
  receiving chain to the message.
\<close>

lemma open_sealed_with:
  assumes prim: "aead_correct c" and blob: "sealed_with c aad h mk p blob"
  obtains nonce ct where "aead_dec c mk nonce (aad @ encodeHeader h) ct = Some p"
    "open_sealed c fresh blob aad st =
       (case skipped_key st (hd_dh h) (hd_n h) of
          Some k \<Rightarrow> (st\<lparr>rs_skipped := jm_del (skipKeyId (hd_dh h) (hd_n h)) (rs_skipped st)\<rparr>,
             decrypted (aead_dec c k nonce (aad @ encodeHeader h) ct))
        | None \<Rightarrow> (case turn c fresh h st of (st1, Inl e) \<Rightarrow> (st1, Inl e)
             | (st1, Inr _) \<Rightarrow> receive c h nonce (aad @ encodeHeader h) ct st1))"
proof -
  obtain nonce where n: "length nonce = 24"
    "blob = RATCHET_WIRE_VERSION # encodeHeader h @ nonce @ aead_enc c mk nonce (aad @ encodeHeader h) p"
    and h: "length (hd_dh h) = 32" "hd_pn h < 2 ^ 32" "hd_n h < 2 ^ 32" "length mk = 32"
    using blob by (auto simp: sealed_with_def)
  let ?ct = "aead_enc c mk nonce (aad @ encodeHeader h) p"
  have ct: "length ?ct = length p + 16" "aead_dec c mk nonce (aad @ encodeHeader h) ?ct = Some p"
    using prim n h by (simp_all add: aead_correct_def)
  show ?thesis
  proof (rule that [OF ct(2)])
    show "open_sealed c fresh blob aad st =
       (case skipped_key st (hd_dh h) (hd_n h) of
          Some k \<Rightarrow> (st\<lparr>rs_skipped := jm_del (skipKeyId (hd_dh h) (hd_n h)) (rs_skipped st)\<rparr>,
             decrypted (aead_dec c k nonce (aad @ encodeHeader h) ?ct))
        | None \<Rightarrow> (case turn c fresh h st of (st1, Inl e) \<Rightarrow> (st1, Inl e)
             | (st1, Inr _) \<Rightarrow> receive c h nonce (aad @ encodeHeader h) ?ct st1))"
      using n ct(1) decode_encode [OF h(1-3)]
      by (simp add: open_sealed_eq HEADER_LEN_def NONCE_LEN_def Let_def skipped_key_def)
  qed
qed

text \<open>Opening on the current chain uses up exactly one key.\<close>

lemma receive_current:
  assumes "tidy st" "rs_DHr st = Some (hd_dh h)" "skipped_key st (hd_dh h) (hd_n h) = None"
    and "avail c st (hd_dh h) (hd_n h) = Some mk" "hd_n h \<le> rs_Nr st + MAX_SKIP"
    and dec: "aead_dec c mk nonce a ct = Some p"
  obtains st' where "receive c h nonce a ct st = (st', Inr p)" "tidy st'"
    "\<forall>Q n. avail c st' Q n = (if Q = hd_dh h \<and> n = hd_n h then None else avail c st Q n)"
    "rs_DHs st' = rs_DHs st" "rs_DHr st' = rs_DHr st" "rs_RK st' = rs_RK st" "rs_CKs st' = rs_CKs st"
    "rs_Ns st' = rs_Ns st" "rs_PN st' = rs_PN st" "rs_Nr st' = Suc (hd_n h)"
    "rs_Nr st \<le> hd_n h" "rs_CKr st' = Some (CK c (the (rs_CKr st)) (Suc (hd_n h) - rs_Nr st))"
    "\<forall>Q n. skipped_key st' Q n \<noteq> None \<longrightarrow> Q = hd_dh h \<or> skipped_key st Q n \<noteq> None"
proof -
  obtain ck where ck: "rs_CKr st = Some ck" "rs_Nr st \<le> hd_n h" "mk = MK c ck (hd_n h - rs_Nr st)"
    using assms(2-4) by (auto simp: avail_def split: if_splits)
  obtain st1 where st1: "skipMessageKeys c (hd_n h) (hd_dh h) st = (st1, Inr ())" "tidy st1" "avail c st1 = avail c st"
    "rs_CKr st1 = Some (CK c ck (hd_n h - rs_Nr st))" "rs_Nr st1 = max (rs_Nr st) (hd_n h)"
    "rs_DHs st1 = rs_DHs st" "rs_DHr st1 = Some (hd_dh h)" "rs_RK st1 = rs_RK st" "rs_CKs st1 = rs_CKs st"
    "rs_Ns st1 = rs_Ns st" "rs_PN st1 = rs_PN st"
    "\<And>Q n. skipped_key st1 Q n = (if Q = hd_dh h \<and> rs_Nr st \<le> n \<and> n < hd_n h then Some (MK c ck (n - rs_Nr st)) else skipped_key st Q n)"
    using skip_ok [OF assms(1) ck(1) assms(2,5)] by metis
  have nr: "rs_Nr st1 = hd_n h" using st1(5) ck(2) by simp
  let ?ck = "CK c ck (Suc (hd_n h - rs_Nr st))"
  let ?st = "st1\<lparr>rs_CKr := Some ?ck, rs_Nr := Suc (hd_n h)\<rparr>"
  have r: "receive c h nonce a ct st = (?st, Inr p)"
    using ck dec st1(1,4) nr by (simp add: receive_def kdfCk_eq decrypted_def)
  have sk: "skipped_key ?st Q n = skipped_key st1 Q n" for Q n by (simp add: skipped_key_def)
  have t: "tidy ?st" using st1(2) nr by (auto simp: tidy_def sk)
  have key: "MK c ?ck (n - Suc (hd_n h)) = MK c (CK c ck (hd_n h - rs_Nr st)) (n - hd_n h)" if "Suc (hd_n h) \<le> n" for n
    unfolding MK_add using that ck(2) by (intro arg_cong [where f = "MK c ck"]) simp
  have av: "avail c ?st Q n = (if Q = hd_dh h \<and> n = hd_n h then None else avail c st1 Q n)" for Q n
    using st1(4,7) nr assms(3) st1(12) key [of n]
    by (auto simp: avail_def sk le_Suc_eq not_less_eq_eq split: option.splits)
  show ?thesis
    by (rule that [OF r t]) (use av st1 ck nr sk assms(2) in \<open>auto simp: Suc_diff_le split: if_splits\<close>)
qed

lemma open_skipped:
  assumes "tidy st" "skipped_key st P n = Some mk"
  defines "st' \<equiv> st\<lparr>rs_skipped := jm_del (skipKeyId P n) (rs_skipped st)\<rparr>"
  shows "tidy st'" "avail c st' Q m = (if Q = P \<and> m = n then None else avail c st Q m)"
    "skipped_key st' Q m \<noteq> None \<Longrightarrow> skipped_key st Q m \<noteq> None"
proof -
  have sk: "skipped_key st' Q m = (if Q = P \<and> m = n then None else skipped_key st Q m)" for Q m
    by (simp add: st'_def skipped_key_def jm_get_del)
  have f: "rs_DHr st' = rs_DHr st" "rs_Nr st' = rs_Nr st" "rs_CKr st' = rs_CKr st" by (simp_all add: st'_def)
  show "tidy st'" using assms(1) by (auto simp: tidy_def sk f)
  show "avail c st' Q m = (if Q = P \<and> m = n then None else avail c st Q m)"
    using assms(1,2) by (cases "Q = P") (auto simp: avail_def sk f tidy_def split: option.splits)
  show "skipped_key st' Q m \<noteq> None \<Longrightarrow> skipped_key st Q m \<noteq> None" by (simp add: sk split: if_splits)
qed

section \<open>Changing the chain\<close>

definition pristine :: "ratchet_state \<Rightarrow> bool" where
  "pristine st \<longleftrightarrow> rs_DHr st = None \<and> rs_CKr st = None \<and> rs_CKs st = None"

text \<open>Root and chain key that \<open>st\<close> derives when it first sees the public key \<open>P\<close>.\<close>

definition next_keys :: "crypto \<Rightarrow> ratchet_state \<Rightarrow> bytes \<Rightarrow> (bytes \<times> bytes) option" where
  "next_keys c st P = (if pristine st then Some (kdfRk c (rs_RK st) P)
     else map_option (kdfRk c (rs_RK st)) (x_dh c (kp_secret (rs_DHs st)) P))"

definition turn_gap_ok :: "ratchet_header \<Rightarrow> ratchet_state \<Rightarrow> bool" where
  "turn_gap_ok h st \<longleftrightarrow> rs_DHr st = None \<or> rs_CKr st = None \<or> hd_pn h \<le> rs_Nr st + MAX_SKIP"

text \<open>The turn keeps every key of the old chain below \<open>pn\<close> and adds those of the new one.\<close>

lemma turn_old_chain:
  assumes "tidy st" "turn_gap_ok h st" "rs_DHr st \<noteq> Some (hd_dh h)" "\<not> pristine st"
  obtains st1 where "turn c fresh h st = dhRatchet c fresh (hd_dh h) st1" "rs_DHs st1 = rs_DHs st" "rs_RK st1 = rs_RK st"
    "rs_Ns st1 = rs_Ns st" "\<forall>n. skipped_key st1 (hd_dh h) n = skipped_key st (hd_dh h) n"
    "\<forall>Q n mk. avail c st Q n = Some mk \<and> (rs_DHr st = Some Q \<longrightarrow> n < hd_pn h) \<longrightarrow> skipped_key st1 Q n = Some mk"
    "\<forall>Q n. skipped_key st1 Q n \<noteq> None \<longrightarrow> rs_DHr st = Some Q \<or> skipped_key st Q n \<noteq> None"
proof (cases "\<exists>ck P. rs_CKr st = Some ck \<and> rs_DHr st = Some P")
  case True
  then obtain ck P where ck: "rs_CKr st = Some ck" "rs_DHr st = Some P" by blast
  then have g: "hd_pn h \<le> rs_Nr st + MAX_SKIP" using assms(2) by (auto simp: turn_gap_ok_def)
  obtain st1 where st1: "skipMessageKeys c (hd_pn h) P st = (st1, Inr ())"
    "rs_DHs st1 = rs_DHs st" "rs_DHr st1 = Some P" "rs_RK st1 = rs_RK st" "rs_Ns st1 = rs_Ns st"
    "\<And>Q n. skipped_key st1 Q n = (if Q = P \<and> rs_Nr st \<le> n \<and> n < hd_pn h then Some (MK c ck (n - rs_Nr st)) else skipped_key st Q n)"
    using skip_ok [OF assms(1) ck g] by metis
  show ?thesis
  proof (rule that [of st1])
    show "turn c fresh h st = dhRatchet c fresh (hd_dh h) st1"
      using assms(3) ck st1(1) by (simp add: turn_def)
    show "\<forall>Q n mk. avail c st Q n = Some mk \<and> (rs_DHr st = Some Q \<longrightarrow> n < hd_pn h) \<longrightarrow> skipped_key st1 Q n = Some mk"
      using ck st1(6) assms(1) by (auto simp: avail_def tidy_def split: option.splits if_splits)
  qed (use st1 ck assms(3) in \<open>auto split: if_splits\<close>)
next
  case False
  show ?thesis
  proof (rule that [of st])
    show "turn c fresh h st = dhRatchet c fresh (hd_dh h) st"
      using False assms(3,4) by (auto simp: turn_def pristine_def split: option.splits)
    show "\<forall>Q n mk. avail c st Q n = Some mk \<and> (rs_DHr st = Some Q \<longrightarrow> n < hd_pn h) \<longrightarrow> skipped_key st Q n = Some mk"
      using False by (auto simp: avail_def split: option.splits if_splits)
  qed simp_all
qed

lemma turn_dh:
  assumes "tidy st" "turn_gap_ok h st" "rs_DHr st \<noteq> Some (hd_dh h)" "\<not> pristine st"
    and none: "\<And>n. skipped_key st (hd_dh h) n = None"
    and keys: "next_keys c st (hd_dh h) = Some (rk, ck0)"
    and fresh: "x_dh c (kp_secret fresh) (hd_dh h) = Some d"
  obtains st' where "turn c fresh h st = (st', Inr ())" "tidy st'" "rs_DHs st' = fresh" "rs_DHr st' = Some (hd_dh h)"
    "rs_CKr st' = Some ck0" "rs_Nr st' = 0" "rs_Ns st' = 0" "rs_PN st' = rs_Ns st"
    "rs_RK st' = fst (kdfRk c rk d)" "rs_CKs st' = Some (snd (kdfRk c rk d))"
    "\<forall>n. avail c st' (hd_dh h) n = Some (MK c ck0 n)" "\<forall>n. skipped_key st' (hd_dh h) n = None"
    "\<forall>Q n mk. avail c st Q n = Some mk \<and> (rs_DHr st = Some Q \<longrightarrow> n < hd_pn h) \<longrightarrow> avail c st' Q n = Some mk"
    "\<forall>Q n. skipped_key st' Q n \<noteq> None \<longrightarrow> rs_DHr st = Some Q \<or> skipped_key st Q n \<noteq> None"
proof -
  obtain st1 where st1: "turn c fresh h st = dhRatchet c fresh (hd_dh h) st1" "rs_DHs st1 = rs_DHs st" "rs_RK st1 = rs_RK st"
    "rs_Ns st1 = rs_Ns st" "\<forall>n. skipped_key st1 (hd_dh h) n = skipped_key st (hd_dh h) n"
    "\<forall>Q n mk. avail c st Q n = Some mk \<and> (rs_DHr st = Some Q \<longrightarrow> n < hd_pn h) \<longrightarrow> skipped_key st1 Q n = Some mk"
    "\<forall>Q n. skipped_key st1 Q n \<noteq> None \<longrightarrow> rs_DHr st = Some Q \<or> skipped_key st Q n \<noteq> None"
    using turn_old_chain [OF assms(1-4), where fresh = fresh and c = c] .
  obtain d1 where d1: "x_dh c (kp_secret (rs_DHs st)) (hd_dh h) = Some d1" "kdfRk c (rs_RK st) d1 = (rk, ck0)"
    using keys assms(4) by (auto simp: next_keys_def)
  let ?st = "st1\<lparr>rs_PN := rs_Ns st, rs_Ns := 0, rs_Nr := 0, rs_DHr := Some (hd_dh h), rs_RK := fst (kdfRk c rk d),
    rs_CKr := Some ck0, rs_DHs := fresh, rs_CKs := Some (snd (kdfRk c rk d))\<rparr>"
  have t: "turn c fresh h st = (?st, Inr ())"
    using st1(1-4) d1 fresh by (simp add: dhRatchet_def split_beta Let_def)
  have sk: "skipped_key ?st Q n = skipped_key st1 Q n" for Q n by (simp add: skipped_key_def)
  have av: "avail c ?st (hd_dh h) n = Some (MK c ck0 n)" for n
    using none st1(5) by (simp add: avail_def sk)
  show ?thesis
  proof (rule that [OF t])
    show "\<forall>Q n mk. avail c st Q n = Some mk \<and> (rs_DHr st = Some Q \<longrightarrow> n < hd_pn h) \<longrightarrow> avail c ?st Q n = Some mk"
      using st1(6) by (simp add: avail_def sk)
    show "tidy ?st" using none st1(5) by (simp add: tidy_def sk)
    show "\<forall>n. skipped_key ?st (hd_dh h) n = None" using none st1(5) by (simp add: sk)
    show "\<forall>Q n. skipped_key ?st Q n \<noteq> None \<longrightarrow> rs_DHr st = Some Q \<or> skipped_key st Q n \<noteq> None"
      using st1(7) by (simp add: sk)
  qed (use av in simp_all)
qed

lemma turn_bootstrap:
  assumes "pristine st" "next_keys c st (hd_dh h) = Some (rk, ck0)" "\<And>P n. skipped_key st P n = None" "rs_Nr st = 0"
  defines "st' \<equiv> st\<lparr>rs_RK := rk, rs_CKr := Some ck0, rs_DHr := Some (hd_dh h)\<rparr>"
  shows "turn c fresh h st = (st', Inr ())" "tidy st'" "avail c st' (hd_dh h) n = Some (MK c ck0 n)"
    "skipped_key st' P n = None"
proof -
  have sk: "skipped_key st' P n = None" for P n using assms(3) by (simp add: st'_def skipped_key_def)
  show "turn c fresh h st = (st', Inr ())"
    using assms(1,2) by (simp add: turn_def pristine_def next_keys_def bootstrapReceive_def st'_def)
  show "tidy st'" "skipped_key st' P n = None" by (simp_all add: tidy_def sk)
  show "avail c st' (hd_dh h) n = Some (MK c ck0 n)" using assms(4) by (simp add: avail_def sk) (simp add: st'_def)
qed

end
