(* ===== verification/Ratchet_Conversation.thy ===== *)
theory Ratchet_Conversation
  imports Ratchet_Keys
begin

text \<open>
  Two parties that talk over the Double Ratchet, with messages delivered late, out of order or
  never: an invariant that ties the two states and the messages in flight together, and from it
  that every message opens to its plaintext.
\<close>

section \<open>Two parties\<close>

definition pair_ok :: "crypto \<Rightarrow> dh_pair \<Rightarrow> bool" where
  "pair_ok c k \<longleftrightarrow> length (kp_secret k) = 32 \<and> kp_public k = x_public c (kp_secret k)"

abbreviation pub :: "ratchet_state \<Rightarrow> bytes" where "pub st \<equiv> kp_public (rs_DHs st)"

text \<open>
  The sending chain of \<open>s\<close> as \<open>r\<close> sees it: \<open>r\<close> follows it, or will derive it
  on the first message.
\<close>

definition chain_ok :: "crypto \<Rightarrow> ratchet_state \<Rightarrow> ratchet_state \<Rightarrow> bytes \<Rightarrow> bool" where
  "chain_ok c s r cks \<longleftrightarrow>
     (if rs_DHr r = Some (pub s)
      then \<exists>ck0. cks = CK c ck0 (rs_Ns s) \<and> rs_CKr r = Some (CK c ck0 (rs_Nr r)) \<and> rs_Nr r \<le> rs_Ns s
      else \<exists>ck0. next_keys c r (pub s) = Some (rs_RK s, ck0) \<and> cks = CK c ck0 (rs_Ns s))"

definition half :: "crypto \<Rightarrow> bytes set \<Rightarrow> ratchet_state \<Rightarrow> ratchet_state \<Rightarrow> bool" where
  "half c used s r \<longleftrightarrow> tidy r \<and> (\<forall>P n. skipped_key r P n \<noteq> None \<longrightarrow> P \<in> used) \<and> pair_ok c (rs_DHs s) \<and> pub s \<in> used
     \<and> (\<forall>P. rs_DHr r = Some P \<longrightarrow> P \<in> used)
     \<and> (rs_DHr r \<noteq> Some (pub s) \<longrightarrow> (\<forall>n. skipped_key r (pub s) n = None))
     \<and> (pristine r \<longrightarrow> (\<forall>P n. skipped_key r P n = None) \<and> rs_Nr r = 0)
     \<and> (\<forall>cks. rs_CKs s = Some cks \<longrightarrow> chain_ok c s r cks)"

text \<open>A message in flight from \<open>s\<close> to \<open>r\<close> with header \<open>h\<close>, sealed with \<open>mk\<close>.\<close>

definition key_ok :: "crypto \<Rightarrow> ratchet_state \<Rightarrow> ratchet_state \<Rightarrow> ratchet_header \<Rightarrow> bytes \<Rightarrow> bool" where
  "key_ok c s r h mk \<longleftrightarrow>
     (if rs_DHr r = Some (pub s) then avail c r (hd_dh h) (hd_n h) = Some mk \<and> (hd_dh h = pub s \<longrightarrow> hd_n h < rs_Ns s)
      else if hd_dh h = pub s
      then (\<exists>rk ck0. next_keys c r (pub s) = Some (rk, ck0) \<and> mk = MK c ck0 (hd_n h)) \<and> hd_pn h = rs_PN s \<and> hd_n h < rs_Ns s
      else avail c r (hd_dh h) (hd_n h) = Some mk \<and> (rs_DHr r = Some (hd_dh h) \<longrightarrow> hd_n h < rs_PN s))"

subsection \<open>Sending\<close>

lemma advanced_sender:
  assumes "half c used s r" "rs_CKs s = Some cks"
  defines "s' \<equiv> s\<lparr>rs_CKs := Some (fst (kdfCk c cks)), rs_Ns := rs_Ns s + 1\<rparr>"
  shows "half c used s' r" "key_ok c s r h mk \<Longrightarrow> key_ok c s' r h mk"
    "key_ok c s' r \<lparr>hd_dh = pub s, hd_pn = rs_PN s, hd_n = rs_Ns s\<rparr> (snd (kdfCk c cks))"
proof -
  have f: "rs_DHs s' = rs_DHs s" "rs_RK s' = rs_RK s" "rs_CKs s' = Some (fst (kdfCk c cks))" "rs_Ns s' = Suc (rs_Ns s)"
    "rs_PN s' = rs_PN s" by (simp_all add: s'_def)
  have ch: "chain_ok c s r cks" using assms(1,2) by (simp add: half_def)
  then have "chain_ok c s' r (fst (kdfCk c cks))"
    by (auto simp: chain_ok_def f kdfCk_eq split: if_splits)
  then show "half c used s' r" using assms(1) by (simp add: half_def f)
  show "key_ok c s r h mk \<Longrightarrow> key_ok c s' r h mk" by (auto simp: key_ok_def f split: if_splits)
  show "key_ok c s' r \<lparr>hd_dh = pub s, hd_pn = rs_PN s, hd_n = rs_Ns s\<rparr> (snd (kdfCk c cks))"
  proof (cases "rs_DHr r = Some (pub s)")
    case True
    then obtain ck0 where "cks = CK c ck0 (rs_Ns s)" "rs_CKr r = Some (CK c ck0 (rs_Nr r))" "rs_Nr r \<le> rs_Ns s"
      using ch by (auto simp: chain_ok_def)
    then show ?thesis
      using True assms(1) by (simp add: key_ok_def f avail_def half_def tidy_def kdfCk_eq MK_add)
  next
    case False
    then show ?thesis using ch by (auto simp: key_ok_def f chain_ok_def kdfCk_eq)
  qed
qed

lemma advanced_receiver:
  fixes ck :: bytes and n :: nat
  assumes "rs_CKs s \<noteq> None"
  defines "s' \<equiv> s\<lparr>rs_CKs := Some ck, rs_Ns := n\<rparr>"
  shows "half c used r s \<Longrightarrow> half c used r s'" "key_ok c r s h mk \<Longrightarrow> key_ok c r s' h mk"
proof -
  have f: "rs_DHr s' = rs_DHr s" "rs_CKr s' = rs_CKr s" "rs_Nr s' = rs_Nr s" "rs_DHs s' = rs_DHs s" "rs_RK s' = rs_RK s"
    "rs_skipped s' = rs_skipped s" "pristine s' = False" "pristine s = False"
    using assms(1) by (auto simp: s'_def pristine_def)
  note g = same_receiver [OF f(1,2,3,6)]
  have "next_keys c s' = next_keys c s" by (simp add: next_keys_def f fun_eq_iff)
  note g = g this
  show "half c used r s \<Longrightarrow> half c used r s'" by (simp add: half_def f g chain_ok_def)
  show "key_ok c r s h mk \<Longrightarrow> key_ok c r s' h mk" by (simp add: key_ok_def f g)
qed

text \<open>The first message of the responder opens its sending chain.\<close>

lemma opened_sender:
  assumes prim: "dh_agrees c" and h: "half c used s r" "half c used r s"
    and st: "rs_DHr s = None" "rs_CKs s \<noteq> None" "rs_DHr r = Some (pub s)" "rs_RK r = rs_RK s" "rs_Ns r = 0" "rs_CKs r = None"
  obtains r1 where "ensureSendingChain c r = (r1, Inr ())" "half c used s r1" "half c used r1 s" "rs_CKs r1 \<noteq> None"
    "rs_DHr r1 = Some (pub s)" "pub r1 = pub r" "rs_Ns r1 = 0" "rs_PN r1 = rs_PN r"
    "\<forall>h mk. key_ok c s r h mk \<longrightarrow> key_ok c s r1 h mk"
proof -
  have p: "pair_ok c (rs_DHs s)" "pair_ok c (rs_DHs r)" using h by (auto simp: half_def)
  obtain d where d: "x_dh c (kp_secret (rs_DHs r)) (pub s) = Some d" "x_dh c (kp_secret (rs_DHs s)) (pub r) = Some d"
    using prim p unfolding dh_agrees_def pair_ok_def by metis
  define r1 where "r1 = r\<lparr>rs_RK := fst (kdfRk c (rs_RK r) d), rs_CKs := Some (snd (kdfRk c (rs_RK r) d))\<rparr>"
  have f: "rs_DHr r1 = Some (pub s)" "rs_CKr r1 = rs_CKr r" "rs_Nr r1 = rs_Nr r" "rs_skipped r1 = rs_skipped r" "rs_DHs r1 = rs_DHs r"
    "rs_Ns r1 = 0" "rs_PN r1 = rs_PN r" "rs_RK r1 = fst (kdfRk c (rs_RK s) d)" "rs_CKs r1 = Some (snd (kdfRk c (rs_RK s) d))"
    "pristine r1 = False" "pristine s = False"
    using st by (auto simp: r1_def pristine_def)
  note g = same_receiver [OF _ f(2-4), unfolded f(1) st(3), OF refl]
  show ?thesis
  proof (rule that [of r1])
    show "ensureSendingChain c r = (r1, Inr ())" using st d by (simp add: ensureSendingChain_def split_beta r1_def)
    show "half c used s r1" using h(1) st(3) by (simp add: half_def f g chain_ok_def)
    have "next_keys c s (pub r) = Some (kdfRk c (rs_RK s) d)" using d(2) by (simp add: next_keys_def f)
    then have "chain_ok c r1 s (snd (kdfRk c (rs_RK s) d))" using st(1) by (simp add: chain_ok_def f)
    then show "half c used r1 s" using h(2) by (simp add: half_def f)
    show "\<forall>h mk. key_ok c s r h mk \<longrightarrow> key_ok c s r1 h mk" using st(3) by (simp add: key_ok_def f g)
  qed (simp_all add: f)
qed

subsection \<open>Receiving\<close>

definition used_up :: "crypto \<Rightarrow> ratchet_state \<Rightarrow> ratchet_state \<Rightarrow> ratchet_state \<Rightarrow> bytes \<Rightarrow> nat \<Rightarrow> bool" where
  "used_up c s r r' P n \<longleftrightarrow> tidy r' \<and> (\<forall>Q m. avail c r' Q m = (if Q = P \<and> m = n then None else avail c r Q m))
     \<and> rs_DHs r' = rs_DHs r \<and> rs_DHr r' = rs_DHr r \<and> rs_RK r' = rs_RK r \<and> rs_CKs r' = rs_CKs r \<and> rs_Ns r' = rs_Ns r
     \<and> rs_PN r' = rs_PN r \<and> \<not> pristine r \<and> \<not> pristine r'
     \<and> (\<forall>Q m. skipped_key r' Q m \<noteq> None \<longrightarrow> rs_DHr r = Some Q \<or> skipped_key r Q m \<noteq> None)
     \<and> (\<forall>ck0. rs_DHr r = Some (pub s) \<and> rs_CKr r = Some (CK c ck0 (rs_Nr r)) \<and> rs_Nr r \<le> rs_Ns s \<longrightarrow>
          rs_CKr r' = Some (CK c ck0 (rs_Nr r')) \<and> rs_Nr r' \<le> rs_Ns s)"

lemma used_up_keeps:
  assumes u: "used_up c s r r' P n"
  shows "half c used s r \<Longrightarrow> half c used s r'" "half c used r s \<Longrightarrow> half c used r' s"
    "key_ok c s r h mk \<Longrightarrow> (hd_dh h, hd_n h) \<noteq> (P, n) \<Longrightarrow> key_ok c s r' h mk"
    "key_ok c r s h mk \<Longrightarrow> key_ok c r' s h mk"
proof -
  have f: "rs_DHs r' = rs_DHs r" "rs_DHr r' = rs_DHr r" "rs_RK r' = rs_RK r" "rs_CKs r' = rs_CKs r" "rs_Ns r' = rs_Ns r"
    "rs_PN r' = rs_PN r" "pristine r = False" "pristine r' = False" "tidy r'"
    using u by (simp_all add: used_up_def)
  have av: "avail c r' Q m = (if Q = P \<and> m = n then None else avail c r Q m)" for Q m
    using u by (simp add: used_up_def)
  have sk: "skipped_key r' Q m \<noteq> None \<Longrightarrow> rs_DHr r = Some Q \<or> skipped_key r Q m \<noteq> None" for Q m
    using u unfolding used_up_def by blast
  have nk: "next_keys c r' = next_keys c r" by (simp add: next_keys_def f fun_eq_iff)
  show "half c used s r'" if h: "half c used s r"
  proof -
    have "chain_ok c s r' cks" if "chain_ok c s r cks" for cks
      using that u by (auto simp: chain_ok_def f nk used_up_def split: if_splits)
    then show ?thesis using h sk unfolding half_def by (simp add: f) (metis not_Some_eq)
  qed
  show "half c used r s \<Longrightarrow> half c used r' s" by (simp add: half_def f chain_ok_def)
  show "key_ok c s r' h mk" if k: "key_ok c s r h mk" "(hd_dh h, hd_n h) \<noteq> (P, n)"
  proof -
    have "avail c r' (hd_dh h) (hd_n h) = avail c r (hd_dh h) (hd_n h)" using k(2) by (auto simp: av)
    then show ?thesis using k(1) by (simp add: key_ok_def f nk)
  qed
  show "key_ok c r s h mk \<Longrightarrow> key_ok c r' s h mk" by (simp add: key_ok_def f)
qed

text \<open>A message whose key is available opens to its plaintext and uses up that key only.\<close>

lemma open_ready:
  assumes prim: "aead_correct c" and blob: "sealed_with c aad h mk p blob" and r: "tidy r" "pristine r \<longrightarrow> (\<forall>P n. skipped_key r P n = None)"
    and key: "avail c r (hd_dh h) (hd_n h) = Some mk" "rs_DHr r = Some (pub s) \<Longrightarrow> hd_dh h = pub s \<Longrightarrow> hd_n h < rs_Ns s"
    and gap: "skipped_key r (hd_dh h) (hd_n h) \<noteq> None \<or> hd_n h \<le> rs_Nr r + MAX_SKIP"
  obtains r' where "open_sealed c fresh blob aad r = (r', Inr p)" "used_up c s r r' (hd_dh h) (hd_n h)"
proof -
  obtain nonce ct where o: "aead_dec c mk nonce (aad @ encodeHeader h) ct = Some p"
    "open_sealed c fresh blob aad r =
       (case skipped_key r (hd_dh h) (hd_n h) of
          Some k \<Rightarrow> (r\<lparr>rs_skipped := jm_del (skipKeyId (hd_dh h) (hd_n h)) (rs_skipped r)\<rparr>,
             decrypted (aead_dec c k nonce (aad @ encodeHeader h) ct))
        | None \<Rightarrow> (case turn c fresh h r of (st1, Inl e) \<Rightarrow> (st1, Inl e)
             | (st1, Inr _) \<Rightarrow> receive c h nonce (aad @ encodeHeader h) ct st1))"
    using open_sealed_with [OF prim blob] .
  show ?thesis
  proof (cases "skipped_key r (hd_dh h) (hd_n h)")
    case (Some k)
    then have k: "k = mk" using key by (simp add: avail_def)
    have np: "\<not> pristine r" using r(2) Some by auto
    show ?thesis
    proof (rule that)
      show "open_sealed c fresh blob aad r = (r\<lparr>rs_skipped := jm_del (skipKeyId (hd_dh h) (hd_n h)) (rs_skipped r)\<rparr>, Inr p)"
        using o Some k by (simp add: decrypted_def)
      show "used_up c s r (r\<lparr>rs_skipped := jm_del (skipKeyId (hd_dh h) (hd_n h)) (rs_skipped r)\<rparr>) (hd_dh h) (hd_n h)"
        using open_skipped [OF r(1) Some] np unfolding used_up_def by (simp add: pristine_def)
    qed
  next
    case None
    then have d: "rs_DHr r = Some (hd_dh h)" "hd_n h \<le> rs_Nr r + MAX_SKIP" using key gap by (auto simp: avail_def split: if_splits)
    obtain r' where r': "receive c h nonce (aad @ encodeHeader h) ct r = (r', Inr p)" "tidy r'"
      "\<forall>Q n. avail c r' Q n = (if Q = hd_dh h \<and> n = hd_n h then None else avail c r Q n)"
      "rs_DHs r' = rs_DHs r" "rs_DHr r' = rs_DHr r" "rs_RK r' = rs_RK r" "rs_CKs r' = rs_CKs r"
      "rs_Ns r' = rs_Ns r" "rs_PN r' = rs_PN r" "rs_Nr r' = Suc (hd_n h)"
      "rs_Nr r \<le> hd_n h" "rs_CKr r' = Some (CK c (the (rs_CKr r)) (Suc (hd_n h) - rs_Nr r))"
      "\<forall>Q n. skipped_key r' Q n \<noteq> None \<longrightarrow> Q = hd_dh h \<or> skipped_key r Q n \<noteq> None"
      using receive_current [OF r(1) d(1) None key(1) d(2) o(1)] .
    show ?thesis
    proof (rule that)
      show "open_sealed c fresh blob aad r = (r', Inr p)" using o(2) None d(1) r'(1) by (simp add: turn_def)
      have "rs_CKr r' = Some (CK c ck0 (rs_Nr r')) \<and> rs_Nr r' \<le> rs_Ns s"
        if "rs_DHr r = Some (pub s)" "rs_CKr r = Some (CK c ck0 (rs_Nr r))" for ck0
        using that r'(10-12) d(1) key(2) by (simp add: CK_add Suc_le_eq)
      moreover have "\<forall>Q m. skipped_key r' Q m \<noteq> None \<longrightarrow> rs_DHr r = Some Q \<or> skipped_key r Q m \<noteq> None"
        using r'(13) d(1) by auto
      ultimately show "used_up c s r r' (hd_dh h) (hd_n h)"
        unfolding used_up_def using r'(2-9) d(1) by (simp add: pristine_def)
    qed
  qed
qed

lemma half_mono: "half c used s r \<Longrightarrow> half c (insert P used) s r"
  by (auto simp: half_def)

text \<open>The receiver's turn when the first message of a new chain arrives.\<close>

lemma turned:
  assumes prim: "dh_agrees c" and h: "half c used s r" "half c used r s" and cks: "rs_CKs s \<noteq> None"
    and new: "rs_DHr r \<noteq> Some (pub s)" "hd_dh h = pub s" "hd_pn h = rs_PN s" and gap: "turn_gap_ok h r"
    and fresh: "pair_ok c fresh" "kp_public fresh \<notin> used"
    and mode: "\<not> pristine r \<Longrightarrow> rs_DHr s = Some (pub r)"
  obtains r1 where "turn c fresh h r = (r1, Inr ())"
    "half c (insert (kp_public fresh) used) s r1" "half c (insert (kp_public fresh) used) r1 s"
    "\<forall>h mk. key_ok c s r h mk \<longrightarrow> key_ok c s r1 h mk" "\<forall>h mk. key_ok c r s h mk \<longrightarrow> key_ok c r1 s h mk"
    "rs_DHr r1 = Some (pub s)" "\<forall>n. skipped_key r1 (pub s) n = None" "rs_Nr r1 = 0"
    "if pristine r then rs_CKs r1 = None \<and> rs_RK r1 = rs_RK s \<and> rs_Ns r1 = rs_Ns r \<and> rs_DHs r1 = rs_DHs r
     else rs_CKs r1 \<noteq> None \<and> rs_DHs r1 = fresh"
proof -
  obtain cks0 where k: "rs_CKs s = Some cks0" using cks by blast
  then obtain ck0 where ck0: "next_keys c r (pub s) = Some (rs_RK s, ck0)" "cks0 = CK c ck0 (rs_Ns s)"
    using h(1) new(1) by (auto simp: half_def chain_ok_def)
  have none: "skipped_key r (pub s) n = None" for n using h(1) new(1) by (simp add: half_def)
  show ?thesis
  proof (cases "pristine r")
    case True
    define r1 where "r1 = r\<lparr>rs_RK := rs_RK s, rs_CKr := Some ck0, rs_DHr := Some (pub s)\<rparr>"
    have sk: "\<And>P n. skipped_key r P n = None" "rs_Nr r = 0" using h(1) True by (simp_all add: half_def)
    note b = turn_bootstrap [OF True, of c h, unfolded new(2), OF ck0(1) sk, folded r1_def]
    have f: "rs_DHs r1 = rs_DHs r" "rs_CKr r1 = Some ck0" "rs_Nr r1 = 0" "rs_CKs r1 = None" "rs_RK r1 = rs_RK s" "rs_PN r1 = rs_PN r"
      "rs_Ns r1 = rs_Ns r" "rs_DHr r1 = Some (pub s)" "pristine r1 = False"
      using True sk(2) by (simp_all add: r1_def pristine_def)
    show ?thesis
    proof (rule that [OF b(1)])
      show "half c (insert (kp_public fresh) used) s r1"
        using h(1) k ck0 b(2,4) by (auto simp: half_def f chain_ok_def)
      show "half c (insert (kp_public fresh) used) r1 s" using h(2) by (auto simp: half_def f chain_ok_def)
      have "avail c r P n = None" for P n using sk(1) True by (simp add: avail_def pristine_def)
      then show "\<forall>h mk. key_ok c s r h mk \<longrightarrow> key_ok c s r1 h mk"
        using b(3) ck0(1) new(1) by (auto simp: key_ok_def f split: if_splits)
      show "\<forall>h mk. key_ok c r s h mk \<longrightarrow> key_ok c r1 s h mk" by (simp add: key_ok_def f)
    qed (use True b(4) in \<open>simp_all add: f\<close>)
  next
    case False
    obtain d where d: "x_dh c (kp_secret fresh) (pub s) = Some d" "x_dh c (kp_secret (rs_DHs s)) (kp_public fresh) = Some d"
      using prim fresh(1) h(1) unfolding dh_agrees_def pair_ok_def half_def by metis
    have tidy: "tidy r" using h(1) by (simp add: half_def)
    obtain r1 where r1: "turn c fresh h r = (r1, Inr ())" "tidy r1" "rs_DHs r1 = fresh" "rs_DHr r1 = Some (hd_dh h)"
      "rs_CKr r1 = Some ck0" "rs_Nr r1 = 0" "rs_Ns r1 = 0" "rs_PN r1 = rs_Ns r"
      "rs_RK r1 = fst (kdfRk c (rs_RK s) d)" "rs_CKs r1 = Some (snd (kdfRk c (rs_RK s) d))"
      "\<forall>n. avail c r1 (hd_dh h) n = Some (MK c ck0 n)" "\<forall>n. skipped_key r1 (hd_dh h) n = None"
      "\<forall>Q n mk. avail c r Q n = Some mk \<and> (rs_DHr r = Some Q \<longrightarrow> n < hd_pn h) \<longrightarrow> avail c r1 Q n = Some mk"
      "\<forall>Q n. skipped_key r1 Q n \<noteq> None \<longrightarrow> rs_DHr r = Some Q \<or> skipped_key r Q n \<noteq> None"
      using turn_dh [OF tidy gap new(1) [folded new(2)] False none [folded new(2)] ck0(1) [folded new(2)] d(1) [folded new(2)]] .
    note sf = mode [OF False]
    have np: "pristine r1 = False" "pristine s = False" using r1(4) k by (simp_all add: pristine_def)
    have used: "Q \<in> used" if "avail c s Q n = Some mk" for Q n mk
      using that h(2) unfolding half_def avail_def by (auto split: option.splits if_splits)
    have fr: "rs_DHr s \<noteq> Some (kp_public fresh)" using h(2) fresh(2) unfolding half_def by auto
    show ?thesis
    proof (rule that [OF r1(1)])
      have "chain_ok c s r1 cks0" using r1(4-6) ck0(2) by (simp add: chain_ok_def new(2))
      moreover have "skipped_key r1 P n \<noteq> None \<longrightarrow> P \<in> used" for P n
        using h(1) r1(14) unfolding half_def by blast
      ultimately show "half c (insert (kp_public fresh) used) s r1"
        using h(1) k r1(2,4) np(1) by (simp add: half_def new(2))
      have "next_keys c s (kp_public fresh) = Some (kdfRk c (rs_RK s) d)" using d(2) np by (simp add: next_keys_def)
      then have "chain_ok c r1 s (snd (kdfRk c (rs_RK s) d))" using r1(3,7,9) fr by (simp add: chain_ok_def)
      moreover have "skipped_key s (kp_public fresh) n = None" for n
        using h(2) fresh(2) unfolding half_def by (metis option.exhaust)
      ultimately show "half c (insert (kp_public fresh) used) r1 s"
        using h(2) fresh(1) np r1(3,10) unfolding half_def by auto
      show "\<forall>h mk. key_ok c s r h mk \<longrightarrow> key_ok c s r1 h mk"
        using r1(4,11,13) ck0(1) new by (auto simp: key_ok_def split: if_splits)
      show "\<forall>h mk. key_ok c r s h mk \<longrightarrow> key_ok c r1 s h mk"
        using sf fr fresh(2) used r1(3,8) by (auto simp: key_ok_def)
    qed (use False r1 new(2) in simp_all)
  qed
qed

definition gap_ok :: "ratchet_header \<Rightarrow> ratchet_state \<Rightarrow> bool" where
  "gap_ok h st \<longleftrightarrow> skipped_key st (hd_dh h) (hd_n h) \<noteq> None \<or>
     (if rs_DHr st = Some (hd_dh h) then hd_n h \<le> rs_Nr st + MAX_SKIP
      else turn_gap_ok h st \<and> hd_n h \<le> (if pristine st then rs_Nr st else 0) + MAX_SKIP)"

lemma open_after_turn:
  assumes "blob_header blob = h" "skipped_key r (hd_dh h) (hd_n h) = None" "turn c fresh h r = (r1, Inr ())"
    and "skipped_key r1 (hd_dh h) (hd_n h) = None" "rs_DHr r1 = Some (hd_dh h)"
    and "open_sealed c fresh blob aad r1 = (r', Inr p)"
  shows "open_sealed c fresh blob aad r = (r', Inr p)"
  using assms by (auto simp: open_sealed_eq blob_header_def skipped_key_def Let_def turn_def [of _ _ _ r1] split: if_splits)

lemma delivered:
  assumes prim: "aead_correct c" "dh_agrees c" and h: "half c used s r" "half c used r s"
    and blob: "sealed_with c aad h mk p blob" and key: "key_ok c s r h mk" and gap: "gap_ok h r"
    and fresh: "pair_ok c fresh" "kp_public fresh \<notin> used"
    and mode: "rs_DHr r \<noteq> Some (pub s) \<Longrightarrow> rs_CKs s \<noteq> None \<and> (pristine r \<or> rs_DHr s = Some (pub r))"
  obtains r' where "open_sealed c fresh blob aad r = (r', Inr p)"
    "half c (insert (kp_public fresh) used) s r'" "half c (insert (kp_public fresh) used) r' s"
    "\<forall>h' mk'. key_ok c s r h' mk' \<and> (hd_dh h', hd_n h') \<noteq> (hd_dh h, hd_n h) \<longrightarrow> key_ok c s r' h' mk'"
    "\<forall>h' mk'. key_ok c r s h' mk' \<longrightarrow> key_ok c r' s h' mk'" "avail c r' (hd_dh h) (hd_n h) = None"
    "if rs_DHr r = Some (pub s) \<or> hd_dh h \<noteq> pub s
     then rs_DHs r' = rs_DHs r \<and> rs_DHr r' = rs_DHr r \<and> rs_RK r' = rs_RK r \<and> rs_CKs r' = rs_CKs r \<and> rs_Ns r' = rs_Ns r \<and> \<not> pristine r
     else rs_DHr r' = Some (pub s) \<and> (if pristine r
       then rs_CKs r' = None \<and> rs_RK r' = rs_RK s \<and> rs_Ns r' = rs_Ns r \<and> rs_DHs r' = rs_DHs r
       else rs_CKs r' \<noteq> None \<and> rs_DHs r' = fresh)"
proof (cases "rs_DHr r = Some (pub s) \<or> hd_dh h \<noteq> pub s")
  case True
  have tidy: "tidy r" "pristine r \<longrightarrow> (\<forall>P n. skipped_key r P n = None)" using h(1) by (simp_all add: half_def)
  have av: "avail c r (hd_dh h) (hd_n h) = Some mk" "rs_DHr r = Some (pub s) \<Longrightarrow> hd_dh h = pub s \<Longrightarrow> hd_n h < rs_Ns s"
    using key True by (auto simp: key_ok_def split: if_splits)
  have g: "skipped_key r (hd_dh h) (hd_n h) \<noteq> None \<or> hd_n h \<le> rs_Nr r + MAX_SKIP"
    using gap av(1) by (auto simp: gap_ok_def avail_def split: if_splits)
  obtain r' where r': "open_sealed c fresh blob aad r = (r', Inr p)" "used_up c s r r' (hd_dh h) (hd_n h)"
    using open_ready [OF prim(1) blob tidy av g] by blast
  show ?thesis
    by (rule that [OF r'(1)])
      (use True r'(2) used_up_keeps [OF r'(2)] h half_mono in \<open>auto simp: used_up_def\<close>)
next
  case False
  then have new: "rs_DHr r \<noteq> Some (pub s)" "hd_dh h = pub s" by auto
  have k: "hd_pn h = rs_PN s" using key new by (simp add: key_ok_def)
  have none: "skipped_key r (hd_dh h) (hd_n h) = None" using h(1) new by (simp add: half_def)
  have g: "turn_gap_ok h r" "hd_n h \<le> MAX_SKIP"
    using gap none new h(1) by (auto simp: gap_ok_def half_def split: if_splits)
  have md: "rs_CKs s \<noteq> None" "\<not> pristine r \<Longrightarrow> rs_DHr s = Some (pub r)" using mode [OF new(1)] by auto
  obtain r1 where r1: "turn c fresh h r = (r1, Inr ())"
    "half c (insert (kp_public fresh) used) s r1" "half c (insert (kp_public fresh) used) r1 s"
    "\<forall>h mk. key_ok c s r h mk \<longrightarrow> key_ok c s r1 h mk" "\<forall>h mk. key_ok c r s h mk \<longrightarrow> key_ok c r1 s h mk"
    "rs_DHr r1 = Some (pub s)" "\<forall>n. skipped_key r1 (pub s) n = None" "rs_Nr r1 = 0"
    "if pristine r then rs_CKs r1 = None \<and> rs_RK r1 = rs_RK s \<and> rs_Ns r1 = rs_Ns r \<and> rs_DHs r1 = rs_DHs r
     else rs_CKs r1 \<noteq> None \<and> rs_DHs r1 = fresh"
    using turned [OF prim(2) h md(1) new k g(1) fresh md(2)] .
  have tidy: "tidy r1" "pristine r1 \<longrightarrow> (\<forall>P n. skipped_key r1 P n = None)" using r1(2) by (simp_all add: half_def)
  have "key_ok c s r1 h mk" using key r1(4) by blast
  then have av: "avail c r1 (hd_dh h) (hd_n h) = Some mk" "rs_DHr r1 = Some (pub s) \<Longrightarrow> hd_dh h = pub s \<Longrightarrow> hd_n h < rs_Ns s"
    using r1(6) by (auto simp: key_ok_def)
  have g1: "skipped_key r1 (hd_dh h) (hd_n h) \<noteq> None \<or> hd_n h \<le> rs_Nr r1 + MAX_SKIP" using g(2) r1(8) by simp
  obtain r' where r': "open_sealed c fresh blob aad r1 = (r', Inr p)" "used_up c s r1 r' (hd_dh h) (hd_n h)"
    using open_ready [OF prim(1) blob tidy av g1] by blast
  have o: "open_sealed c fresh blob aad r = (r', Inr p)"
    by (rule open_after_turn [OF sealed_header [OF blob] none r1(1) _ _ r'(1)]) (use r1(6,7) new(2) in simp_all)
  show ?thesis
    by (rule that [OF o])
      (use False r'(2) used_up_keeps [OF r'(2)] r1(2-6,9) in \<open>auto simp: used_up_def\<close>)
qed

section \<open>Conversations\<close>

text \<open>
  Two parties and the sealed messages in flight, with sender and plaintext; \<open>True\<close> is the
  initiator. A receiver works on a copy of its state and keeps it only when the message opens, as
  \<open>handleAuthorizedDirectMessage\<close> does; messages may be delivered in any order, or never.
  \<open>cv_used\<close> records the public keys generated so far, for stating that keys are fresh.
\<close>

record convo =
  cv_party :: "bool \<Rightarrow> ratchet_state"
  cv_fly :: "(bool \<times> bytes \<times> bytes) list"
  cv_used :: "bytes set"

definition conv_start :: "crypto \<Rightarrow> dh_pair \<Rightarrow> dh_pair \<Rightarrow> bytes \<Rightarrow> convo" where
  "conv_start c ka kb sk = \<lparr>cv_party = (\<lambda>d. if d then initInitiator c ka sk else initResponder kb sk), cv_fly = [],
     cv_used = {kp_public ka, kp_public kb}\<rparr>"

definition fresh_pair :: "crypto \<Rightarrow> convo \<Rightarrow> dh_pair \<Rightarrow> bool" where
  "fresh_pair c v k \<longleftrightarrow> pair_ok c k \<and> kp_public k \<notin> cv_used v"

inductive conv_step :: "crypto \<Rightarrow> (bool \<Rightarrow> bytes) \<Rightarrow> convo \<Rightarrow> convo \<Rightarrow> bool" for c aad where
  send: "seal c nonce p (aad d) (cv_party v d) = (st, Inr blob) \<Longrightarrow> length nonce = NONCE_LEN \<Longrightarrow>
    rs_Ns (cv_party v d) < 2 ^ 32 \<Longrightarrow> rs_PN (cv_party v d) < 2 ^ 32 \<Longrightarrow>
    conv_step c aad v (v\<lparr>cv_party := (cv_party v)(d := st), cv_fly := cv_fly v @ [(d, blob, p)]\<rparr>)"
| deliver: "(d, blob, p) \<in> set (cv_fly v) \<Longrightarrow> fresh_pair c v fresh \<Longrightarrow>
    open_sealed c fresh blob (aad d) (cv_party v (\<not> d)) = (st, Inr q) \<Longrightarrow>
    conv_step c aad v (v\<lparr>cv_party := (cv_party v)((\<not> d) := st), cv_fly := remove1 (d, blob, p) (cv_fly v),
      cv_used := insert (kp_public fresh) (cv_used v)\<rparr>)"

definition ratchet_primitives :: "crypto \<Rightarrow> bool" where
  "ratchet_primitives c \<longleftrightarrow> aead_correct c \<and> dh_agrees c \<and> hkdf_length c \<and> public_length c"

definition fly_id :: "bool \<times> bytes \<times> bytes \<Rightarrow> bool \<times> bytes \<times> nat" where
  "fly_id m = (case m of (d, blob, p) \<Rightarrow> (d, hd_dh (blob_header blob), hd_n (blob_header blob)))"

definition fly_ok :: "crypto \<Rightarrow> (bool \<Rightarrow> bytes) \<Rightarrow> (bool \<Rightarrow> ratchet_state) \<Rightarrow> bool \<times> bytes \<times> bytes \<Rightarrow> bool" where
  "fly_ok c aad party m \<longleftrightarrow> (case m of (d, blob, p) \<Rightarrow>
     \<exists>mk. sealed_with c (aad d) (blob_header blob) mk p blob \<and> key_ok c (party d) (party (\<not> d)) (blob_header blob) mk)"

definition begins :: "ratchet_state \<Rightarrow> ratchet_state \<Rightarrow> bool" where
  "begins a b \<longleftrightarrow> rs_DHr a = None \<and> rs_CKs a \<noteq> None \<and> rs_CKs b = None \<and> rs_Ns b = 0
     \<and> (pristine b \<or> rs_DHr b = Some (pub a) \<and> rs_RK b = rs_RK a)"

definition led :: "ratchet_state \<Rightarrow> ratchet_state \<Rightarrow> bool" where
  "led s r \<longleftrightarrow> rs_DHr r = Some (pub s) \<and> rs_DHr s \<noteq> Some (pub r) \<and> rs_CKs s \<noteq> None \<and> rs_CKs r \<noteq> None"

definition phase_ok :: "convo \<Rightarrow> bool" where
  "phase_ok v \<longleftrightarrow> begins (cv_party v True) (cv_party v False) \<and> (\<forall>m \<in> set (cv_fly v). fst m)
     \<or> (\<exists>d. led (cv_party v d) (cv_party v (\<not> d)))"

definition conv_inv :: "crypto \<Rightarrow> (bool \<Rightarrow> bytes) \<Rightarrow> convo \<Rightarrow> bool" where
  "conv_inv c aad v \<longleftrightarrow> (\<forall>d. half c (cv_used v) (cv_party v d) (cv_party v (\<not> d)))
     \<and> (\<forall>m \<in> set (cv_fly v). fly_ok c aad (cv_party v) m) \<and> distinct (map fly_id (cv_fly v)) \<and> phase_ok v"

lemma conv_inv_start:
  assumes "pair_ok c ka" "pair_ok c kb"
  shows "conv_inv c aad (conv_start c ka kb sk)"
proof -
  let ?a = "initInitiator c ka sk" and ?b = "initResponder kb sk"
  have f: "rs_DHs ?a = ka" "rs_DHr ?a = None" "rs_CKs ?a = Some (snd (kdfRk c sk (kp_public ka)))" "rs_skipped ?a = []"
    "rs_RK ?a = fst (kdfRk c sk (kp_public ka))" "rs_Ns ?a = 0"
    by (simp_all add: initInitiator_def split_beta)
  have g: "rs_DHs ?b = kb" "rs_DHr ?b = None" "rs_CKs ?b = None" "rs_CKr ?b = None" "rs_skipped ?b = []" "rs_RK ?b = sk"
    "rs_Nr ?b = 0" "rs_Ns ?b = 0"
    by (simp_all add: initResponder_def)
  have sk: "skipped_key ?a P n = None" "skipped_key ?b P n = None" for P n by (simp_all add: skipped_key_def f g)
  have pr: "pristine ?b" "\<not> pristine ?a" by (simp_all add: pristine_def f g)
  have "chain_ok c ?a ?b (snd (kdfRk c sk (kp_public ka)))"
    by (auto simp: chain_ok_def f g next_keys_def pr intro!: exI [of _ "snd (kdfRk c sk (kp_public ka))"])
  then have "half c {kp_public ka, kp_public kb} ?a ?b" "half c {kp_public ka, kp_public kb} ?b ?a"
    using assms by (simp_all add: half_def tidy_def f g sk pr)
  then show ?thesis
    by (auto simp: conv_inv_def conv_start_def phase_ok_def begins_def f g pr)
qed

lemma seal_chain:
  assumes "rs_CKs s = Some cks" "ratchet_primitives c" "pair_ok c (rs_DHs s)" "length nonce = 24" "rs_Ns s < 2 ^ 32" "rs_PN s < 2 ^ 32"
  obtains blob where
    "seal c nonce p a s = (s\<lparr>rs_CKs := Some (fst (kdfCk c cks)), rs_Ns := rs_Ns s + 1\<rparr>, Inr blob)"
    "sealed_with c a \<lparr>hd_dh = pub s, hd_pn = rs_PN s, hd_n = rs_Ns s\<rparr> (snd (kdfCk c cks)) p blob"
proof -
  have "length (pub s) = 32" "length (snd (kdfCk c cks)) = 32"
    using assms(2,3) by (auto simp: ratchet_primitives_def pair_ok_def public_length_def hkdf_length_def kdfCk_def Let_def)
  then show ?thesis
    using assms that by (auto simp: seal_def ensureSendingChain_def split_beta Let_def sealed_with_def)
qed

lemma seal_after_open:
  "ensureSendingChain c s = (s1, Inr ()) \<Longrightarrow> rs_CKs s1 \<noteq> None \<Longrightarrow> seal c nonce p a s = seal c nonce p a s1"
  by (auto simp: seal_def ensureSendingChain_def [of c s1])

lemma conv_halves:
  assumes "conv_inv c aad v"
  shows "half c (cv_used v) (cv_party v d) (cv_party v (\<not> d))" "half c (cv_used v) (cv_party v (\<not> d)) (cv_party v d)"
proof -
  have "half c (cv_used v) (cv_party v e) (cv_party v (\<not> e))" for e using assms by (simp add: conv_inv_def)
  from this [of d] this [of "\<not> d"] show "half c (cv_used v) (cv_party v d) (cv_party v (\<not> d))"
    "half c (cv_used v) (cv_party v (\<not> d)) (cv_party v d)" by simp_all
qed

lemma key_ok_bound: "key_ok c s r h mk \<Longrightarrow> hd_dh h = pub s \<Longrightarrow> hd_n h < rs_Ns s"
  by (auto simp: key_ok_def split: if_splits)

lemma sent_inv:
  assumes prim: "ratchet_primitives c" and inv: "conv_inv c aad v" and cks: "rs_CKs (cv_party v d) = Some cks"
    and seal: "seal c nonce p (aad d) (cv_party v d) = (st, Inr blob)" "length nonce = 24"
    "rs_Ns (cv_party v d) < 2 ^ 32" "rs_PN (cv_party v d) < 2 ^ 32"
  shows "conv_inv c aad (v\<lparr>cv_party := (cv_party v)(d := st), cv_fly := cv_fly v @ [(d, blob, p)]\<rparr>)"
proof -
  let ?s = "cv_party v d" and ?r = "cv_party v (\<not> d)"
  note h = conv_halves [OF inv, of d]
  have st: "st = ?s\<lparr>rs_CKs := Some (fst (kdfCk c cks)), rs_Ns := rs_Ns ?s + 1\<rparr>"
    and blob: "sealed_with c (aad d) \<lparr>hd_dh = pub ?s, hd_pn = rs_PN ?s, hd_n = rs_Ns ?s\<rparr> (snd (kdfCk c cks)) p blob"
    using seal_chain [OF cks prim _ seal(2-4), of p "aad d"] h(1) seal(1) by (auto simp: half_def)
  note hdr = sealed_header [OF blob]
  note new = advanced_sender [OF h(1) cks, folded st] 
    and old = advanced_receiver [where s = ?s and ck = "fst (kdfCk c cks)" and n = "rs_Ns ?s + 1", folded st]
  let ?party = "(cv_party v)(d := st)"
  have ds: "?party d = st" "?party (\<not> d) = ?r" by simp_all
  have keep: "fly_ok c aad ?party m" if m: "fly_ok c aad (cv_party v) m" for m
  proof -
    obtain e b q where e: "m = (e, b, q)" by (cases m)
    show ?thesis
      using m new(2) old(2) cks unfolding e fly_ok_def by (cases "e = d") auto
  qed
  have "fly_ok c aad ?party (d, blob, p)" using blob new(3) unfolding fly_ok_def by (auto simp: hdr)
  moreover have "fly_id (d, blob, p) \<notin> fly_id ` set (cv_fly v)"
  proof
    assume "fly_id (d, blob, p) \<in> fly_id ` set (cv_fly v)"
    then obtain b q where m: "(d, b, q) \<in> set (cv_fly v)" "hd_dh (blob_header b) = pub ?s" "hd_n (blob_header b) = rs_Ns ?s"
      by (auto simp: fly_id_def hdr)
    then obtain mk where "key_ok c ?s ?r (blob_header b) mk" using inv by (fastforce simp: conv_inv_def fly_ok_def)
    from key_ok_bound [OF this m(2)] m(3) show False by simp
  qed
  moreover have "phase_ok (v\<lparr>cv_party := ?party, cv_fly := cv_fly v @ [(d, blob, p)]\<rparr>)"
  proof -
    have f: "rs_DHs st = rs_DHs ?s" "rs_DHr st = rs_DHr ?s" "rs_RK st = rs_RK ?s" "rs_CKs st \<noteq> None" by (simp_all add: st)
    have l: "led (?party e) (?party (\<not> e))" if "led (cv_party v e) (cv_party v (\<not> e))" for e
    proof (cases "e = d")
      case True
      then show ?thesis using that f by (simp add: led_def)
    next
      case False
      then have "e = (\<not> d)" by simp
      then show ?thesis using that f by (simp add: led_def)
    qed
    have b: "d \<and> begins (?party True) (?party False)" if "begins (cv_party v True) (cv_party v False)"
      using that f cks by (cases d) (auto simp: begins_def)
    have "begins (cv_party v True) (cv_party v False) \<and> (\<forall>m \<in> set (cv_fly v). fst m)
        \<or> (\<exists>e. led (cv_party v e) (cv_party v (\<not> e)))"
      using inv by (simp add: conv_inv_def phase_ok_def)
    then show ?thesis
    proof
      assume "begins (cv_party v True) (cv_party v False) \<and> (\<forall>m \<in> set (cv_fly v). fst m)"
      then show ?thesis using b unfolding phase_ok_def by (intro disjI1) (cases d; simp)
    next
      assume "\<exists>e. led (cv_party v e) (cv_party v (\<not> e))"
      then obtain e where "led (?party e) (?party (\<not> e))" using l by blast
      then show ?thesis unfolding phase_ok_def by (intro disjI2 exI [of _ e]) simp
    qed
  qed
  moreover have "half c (cv_used v) (?party e) (?party (\<not> e))" for e
    using new(1) old(1) [OF _ h(2)] cks by (cases "e = d") auto
  ultimately show ?thesis using inv keep by (simp add: conv_inv_def)
qed

lemma opened_inv:
  assumes prim: "ratchet_primitives c" and inv: "conv_inv c aad v" and none: "rs_CKs (cv_party v d) = None"
    and ok: "ensureSendingChain c (cv_party v d) = (s1, Inr ())"
  shows "conv_inv c aad (v\<lparr>cv_party := (cv_party v)(d := s1)\<rparr>)" "rs_CKs s1 \<noteq> None"
    "rs_Ns s1 = rs_Ns (cv_party v d)" "rs_PN s1 = rs_PN (cv_party v d)"
proof -
  let ?a = "cv_party v True" and ?b = "cv_party v False"
  have h: "half c (cv_used v) ?a ?b" "half c (cv_used v) ?b ?a" using conv_halves [OF inv, of True] by simp_all
  have no_led: "\<not> led (cv_party v e) (cv_party v (\<not> e))" for e
    using none by (cases "e = d") (auto simp: led_def)
  then have beg: "begins ?a ?b" and fly: "\<forall>m \<in> set (cv_fly v). fst m" using inv by (auto simp: conv_inv_def phase_ok_def)
  have d: "d = False" using none beg by (cases d) (auto simp: begins_def)
  have ready: "rs_DHr ?a = None" "rs_CKs ?a \<noteq> None" "rs_DHr ?b = Some (pub ?a)" "rs_RK ?b = rs_RK ?a" "rs_Ns ?b = 0" "rs_CKs ?b = None"
    using beg ok none unfolding d by (auto simp: begins_def pristine_def ensureSendingChain_def)
  have agree: "dh_agrees c" using prim by (simp add: ratchet_primitives_def)
  obtain r1 where "ensureSendingChain c ?b = (r1, Inr ())" and r1: "half c (cv_used v) ?a r1" "half c (cv_used v) r1 ?a"
    "rs_CKs r1 \<noteq> None" "rs_DHr r1 = Some (pub ?a)" "pub r1 = pub ?b" "rs_Ns r1 = 0" "rs_PN r1 = rs_PN ?b"
    "\<forall>h mk. key_ok c ?a ?b h mk \<longrightarrow> key_ok c ?a r1 h mk"
    using opened_sender [OF agree h ready] .
  then have s1: "s1 = r1" using ok d by simp
  show "rs_CKs s1 \<noteq> None" "rs_Ns s1 = rs_Ns (cv_party v d)" "rs_PN s1 = rs_PN (cv_party v d)"
    using r1 ready d s1 by auto
  have "fly_ok c aad ((cv_party v)(False := r1)) m" if "fly_ok c aad (cv_party v) m" "fst m" for m
    using that r1(8) by (cases m) (auto simp: fly_ok_def)
  moreover have "half c (cv_used v) (((cv_party v)(False := r1)) e) (((cv_party v)(False := r1)) (\<not> e))" for e
    using r1(1,2) by (cases e) auto
  moreover have "led (((cv_party v)(False := r1)) True) (((cv_party v)(False := r1)) (\<not> True))"
    using r1 ready by (simp add: led_def)
  ultimately show "conv_inv c aad (v\<lparr>cv_party := (cv_party v)(d := s1)\<rparr>)"
    using inv fly unfolding d s1 conv_inv_def phase_ok_def by auto
qed

lemma remove1_ids:
  assumes "distinct (map f xs)" "x \<in> set xs"
  shows "distinct (map f (remove1 x xs))" "y \<in> set (remove1 x xs) \<Longrightarrow> y \<in> set xs \<and> f y \<noteq> f x"
proof -
  have d: "distinct xs" using assms(1) by (simp add: distinct_map)
  show "distinct (map f (remove1 x xs))"
    using assms(1) d by (auto simp: distinct_map set_remove1_eq inj_on_def)
  show "y \<in> set (remove1 x xs) \<Longrightarrow> y \<in> set xs \<and> f y \<noteq> f x"
    using assms d by (auto simp: distinct_map set_remove1_eq inj_on_def)
qed

lemma delivered_inv:
  assumes prim: "ratchet_primitives c" and inv: "conv_inv c aad v" and m: "(d, blob, p) \<in> set (cv_fly v)"
    and fresh: "fresh_pair c v fresh" and gap: "gap_ok (blob_header blob) (cv_party v (\<not> d))"
  obtains st where "open_sealed c fresh blob (aad d) (cv_party v (\<not> d)) = (st, Inr p)"
    "avail c st (hd_dh (blob_header blob)) (hd_n (blob_header blob)) = None"
    "conv_inv c aad (v\<lparr>cv_party := (cv_party v)((\<not> d) := st), cv_fly := remove1 (d, blob, p) (cv_fly v),
      cv_used := insert (kp_public fresh) (cv_used v)\<rparr>)"
proof -
  let ?s = "cv_party v d" and ?r = "cv_party v (\<not> d)" and ?h = "blob_header blob" and ?used = "insert (kp_public fresh) (cv_used v)"
  note h = conv_halves [OF inv, of d]
  obtain mk where mk: "sealed_with c (aad d) ?h mk p blob" "key_ok c ?s ?r ?h mk"
    using inv m by (fastforce simp: conv_inv_def fly_ok_def)
  have ph: "begins (cv_party v True) (cv_party v False) \<and> (\<forall>m \<in> set (cv_fly v). fst m) \<or> (\<exists>e. led (cv_party v e) (cv_party v (\<not> e)))"
    using inv by (simp add: conv_inv_def phase_ok_def)
  have cases: "d \<and> begins ?s ?r \<and> (\<forall>m \<in> set (cv_fly v). fst m) \<or> led ?s ?r \<or> led ?r ?s"
    using ph
  proof
    assume "begins (cv_party v True) (cv_party v False) \<and> (\<forall>m \<in> set (cv_fly v). fst m)"
    moreover from this have d using m by fastforce
    ultimately show ?thesis by simp
  next
    assume "\<exists>e. led (cv_party v e) (cv_party v (\<not> e))"
    then obtain e where "led (cv_party v e) (cv_party v (\<not> e))" ..
    moreover have "e = d \<or> e = (\<not> d)" by blast
    ultimately show ?thesis by auto
  qed
  then have mode: "rs_DHr ?r \<noteq> Some (pub ?s) \<Longrightarrow> rs_CKs ?s \<noteq> None \<and> (pristine ?r \<or> rs_DHr ?s = Some (pub ?r))"
    by (auto simp: begins_def led_def)
  have prims: "aead_correct c" "dh_agrees c" using prim by (simp_all add: ratchet_primitives_def)
  have fr: "pair_ok c fresh" "kp_public fresh \<notin> cv_used v" using fresh by (simp_all add: fresh_pair_def)
  obtain r' where o: "open_sealed c fresh blob (aad d) ?r = (r', Inr p)" and r': "half c ?used ?s r'" "half c ?used r' ?s"
    "\<forall>h' mk'. key_ok c ?s ?r h' mk' \<and> (hd_dh h', hd_n h') \<noteq> (hd_dh ?h, hd_n ?h) \<longrightarrow> key_ok c ?s r' h' mk'"
    "\<forall>h' mk'. key_ok c ?r ?s h' mk' \<longrightarrow> key_ok c r' ?s h' mk'" and gone: "avail c r' (hd_dh ?h) (hd_n ?h) = None"
    and phase: "if rs_DHr ?r = Some (pub ?s) \<or> hd_dh ?h \<noteq> pub ?s
     then rs_DHs r' = rs_DHs ?r \<and> rs_DHr r' = rs_DHr ?r \<and> rs_RK r' = rs_RK ?r \<and> rs_CKs r' = rs_CKs ?r \<and> rs_Ns r' = rs_Ns ?r \<and> \<not> pristine ?r
     else rs_DHr r' = Some (pub ?s) \<and> (if pristine ?r
       then rs_CKs r' = None \<and> rs_RK r' = rs_RK ?s \<and> rs_Ns r' = rs_Ns ?r \<and> rs_DHs r' = rs_DHs ?r
       else rs_CKs r' \<noteq> None \<and> rs_DHs r' = fresh)"
    using delivered [OF prims h mk gap fr mode] .
  let ?party = "(cv_party v)((\<not> d) := r')"
  let ?v = "v\<lparr>cv_party := ?party, cv_fly := remove1 (d, blob, p) (cv_fly v), cv_used := ?used\<rparr>"
  have "fly_ok c aad ?party x" if x: "x \<in> set (remove1 (d, blob, p) (cv_fly v))" for x
  proof -
    have x': "fly_ok c aad (cv_party v) x" "fly_id x \<noteq> fly_id (d, blob, p)"
      using remove1_ids(2) [OF _ m x] inv by (auto simp: conv_inv_def)
    obtain e b q where e: "x = (e, b, q)" by (cases x)
    show ?thesis
    proof (cases "e = d")
      case True
      then show ?thesis using x' r'(3) unfolding e fly_ok_def fly_id_def by auto
    next
      case False
      then have "e = (\<not> d)" by simp
      then show ?thesis using x' r'(4) unfolding e fly_ok_def by auto
    qed
  qed
  moreover have "distinct (map fly_id (remove1 (d, blob, p) (cv_fly v)))"
    using remove1_ids(1) [OF _ m, of fly_id] inv by (simp add: conv_inv_def)
  moreover have "half c ?used (?party e) (?party (\<not> e))" for e
    using r'(1,2) by (cases "e = d") auto
  moreover have "d \<and> begins ?s r' \<and> (\<forall>m \<in> set (cv_fly v). fst m) \<or> led ?s r' \<or> led r' ?s"
  proof -
    have fd: "rs_DHr ?s \<noteq> Some (kp_public fresh)" using h(2) fr(2) by (auto simp: half_def)
    show ?thesis using cases phase fd mode by (auto simp: begins_def led_def pristine_def split: if_splits)
  qed
  then have "phase_ok ?v"
    unfolding phase_ok_def
  proof (elim disjE conjE)
    assume "d" "begins ?s r'" "\<forall>m \<in> set (cv_fly v). fst m"
    then show "begins (cv_party ?v True) (cv_party ?v False) \<and> (\<forall>m \<in> set (cv_fly ?v). fst m)
        \<or> (\<exists>d. led (cv_party ?v d) (cv_party ?v (\<not> d)))"
      by (intro disjI1) (auto dest: notin_set_remove1)
  next
    assume "led ?s r'"
    then show "begins (cv_party ?v True) (cv_party ?v False) \<and> (\<forall>m \<in> set (cv_fly ?v). fst m)
        \<or> (\<exists>d. led (cv_party ?v d) (cv_party ?v (\<not> d)))"
      by (intro disjI2 exI [of _ d]) simp
  next
    assume "led r' ?s"
    then show "begins (cv_party ?v True) (cv_party ?v False) \<and> (\<forall>m \<in> set (cv_fly ?v). fst m)
        \<or> (\<exists>d. led (cv_party ?v d) (cv_party ?v (\<not> d)))"
      by (intro disjI2 exI [of _ "\<not> d"]) simp
  qed
  ultimately have "conv_inv c aad ?v"
    by (simp add: conv_inv_def)
  then show ?thesis by (rule that [OF o gone])
qed

lemma skip_Inr_gap: "skipMessageKeys c until P st = (st1, Inr u) \<Longrightarrow> rs_CKr st \<noteq> None \<Longrightarrow> until \<le> rs_Nr st + MAX_SKIP"
  by (auto simp: skipMessageKeys_def split: if_splits)

lemma dhRatchet_Inr: "dhRatchet c fresh P st = (st1, Inr u) \<Longrightarrow> rs_Nr st1 = 0"
  by (auto simp: dhRatchet_def Let_def split_beta split: option.splits)

lemma turn_Inr_gap:
  assumes "turn c fresh h st = (st1, Inr u)" "rs_DHr st \<noteq> Some (hd_dh h)"
  shows "turn_gap_ok h st \<and> rs_Nr st1 = (if pristine st then rs_Nr st else 0)"
proof (cases "pristine st")
  case True
  then show ?thesis using assms
    by (auto simp: turn_def pristine_def turn_gap_ok_def bootstrapReceive_def split_beta)
next
  case False
  then have "\<not> (rs_DHr st = None \<and> rs_CKr st = None \<and> rs_CKs st = None)" by (simp add: pristine_def)
  then show ?thesis using assms False
    by (auto simp: turn_def turn_gap_ok_def dest: skip_Inr_gap dhRatchet_Inr split: option.splits prod.splits sum.splits)
qed

lemma open_Inr_gap:
  assumes "open_sealed c fresh blob a st = (st', Inr q)"
  shows "gap_ok (blob_header blob) st"
proof -
  let ?h = "blob_header blob"
  have r: "hd_n ?h \<le> rs_Nr st1 + MAX_SKIP" if "receive c ?h nonce fa ct st1 = (st', Inr q)" for nonce fa ct st1
    using that by (auto simp: receive_def split: option.splits prod.splits sum.splits dest: skip_Inr_gap)
  show ?thesis
  proof (cases "skipped_key st (hd_dh ?h) (hd_n ?h)")
    case None
    then obtain st1 u nonce fa ct where t: "turn c fresh ?h st = (st1, Inr u)" "receive c ?h nonce fa ct st1 = (st', Inr q)"
      using assms
      by (auto simp: open_sealed_eq Let_def skipped_key_def blob_header_def split: if_splits option.splits prod.splits sum.splits)
    then show ?thesis
      using r [OF t(2)] turn_Inr_gap [OF t(1)] by (auto simp: gap_ok_def turn_def split: if_splits)
  qed (simp add: gap_ok_def)
qed

lemma conv_step_inv:
  assumes "ratchet_primitives c" "conv_inv c aad v" "conv_step c aad v v'"
  shows "conv_inv c aad v'"
  using assms(3)
proof (cases rule: conv_step.cases)
  case (send nonce p d st blob)
  show ?thesis
  proof (cases "rs_CKs (cv_party v d)")
    case None
    then obtain s1 where s1: "ensureSendingChain c (cv_party v d) = (s1, Inr ())"
      using send(2) by (auto simp: seal_def split: prod.splits sum.splits)
    note o = opened_inv [OF assms(1,2) None s1]
    let ?v = "v\<lparr>cv_party := (cv_party v)(d := s1)\<rparr>"
    obtain cks where "rs_CKs (cv_party ?v d) = Some cks" using o(2) by auto
    moreover have "seal c nonce p (aad d) (cv_party ?v d) = (st, Inr blob)"
      using seal_after_open [OF s1 o(2)] send(2) by simp
    ultimately show ?thesis
      using sent_inv [OF assms(1) o(1), of d cks nonce p st blob] send o(3,4) by (simp add: NONCE_LEN_def)
  next
    case (Some cks)
    then show ?thesis using sent_inv [OF assms(1,2) Some, of nonce p st blob] send by (simp add: NONCE_LEN_def)
  qed
next
  case (deliver d blob p fresh st q)
  have gap: "gap_ok (blob_header blob) (cv_party v (\<not> d))" by (rule open_Inr_gap [OF deliver(4)])
  show ?thesis
    by (rule delivered_inv [OF assms(1,2) deliver(2,3) gap]) (use deliver in simp)
qed

lemma conv_reach_inv:
  assumes "ratchet_primitives c" "pair_ok c ka" "pair_ok c kb" "(conv_step c aad)\<^sup>*\<^sup>* (conv_start c ka kb sk) v"
  shows "conv_inv c aad v"
  using assms(4) by (induction rule: rtranclp_induct) (use assms conv_inv_start conv_step_inv in blast)+

text \<open>
  C34. Every message of a Double Ratchet conversation can be read, in any order. From the shared
  root key of an initiator and a responder, let the two seal messages and let any of them be
  delivered, at any time and in any order, through any number of turns of the DH ratchet. Then for
  every message still in flight \<open>open\<close> returns exactly its plaintext if no more than
  \<open>MAX_SKIP\<close> message keys have to be skipped on the way (\<open>gap_ok\<close>), and the receiver
  then no longer has the key of that message; otherwise it fails.
\<close>

theorem ratchet_delivers:
  assumes "ratchet_primitives c" "pair_ok c ka" "pair_ok c kb"
    and "(conv_step c aad)\<^sup>*\<^sup>* (conv_start c ka kb sk) v"
    and "(d, blob, p) \<in> set (cv_fly v)" and "fresh_pair c v fresh"
  shows "case open_sealed c fresh blob (aad d) (cv_party v (\<not> d)) of
      (st, Inr q) \<Rightarrow> q = p \<and> gap_ok (blob_header blob) (cv_party v (\<not> d))
        \<and> avail c st (hd_dh (blob_header blob)) (hd_n (blob_header blob)) = None
    | (st, Inl e) \<Rightarrow> \<not> gap_ok (blob_header blob) (cv_party v (\<not> d))"
proof -
  note inv = conv_reach_inv [OF assms(1-4)]
  show ?thesis
  proof (cases "gap_ok (blob_header blob) (cv_party v (\<not> d))")
    case True
    obtain st where "open_sealed c fresh blob (aad d) (cv_party v (\<not> d)) = (st, Inr p)"
      "avail c st (hd_dh (blob_header blob)) (hd_n (blob_header blob)) = None"
      using delivered_inv [OF assms(1) inv assms(5,6) True] by blast
    then show ?thesis using True by simp
  next
    case False
    then show ?thesis using open_Inr_gap by (fastforce split: prod.split sum.split)
  qed
qed

theorem ratchet_delivers_witness:
  "\<exists>blob st. snd (seal sample_crypto (replicate 24 0) [1, 2, 3] [] (initInitiator sample_crypto (demo_pair 1) (replicate 32 7))) = Inr blob
    \<and> open_sealed sample_crypto (demo_pair 3) blob [] (initResponder (demo_pair 2) (replicate 32 7)) = (st, Inr [1, 2, 3])"
proof -
  let ?v = "conv_start sample_crypto (demo_pair 1) (demo_pair 2) (replicate 32 7)"
  let ?a = "initInitiator sample_crypto (demo_pair 1) (replicate 32 7)" and ?b = "initResponder (demo_pair 2) (replicate 32 7)"
  have prim: "ratchet_primitives sample_crypto"
    by (simp add: ratchet_primitives_def sample_aead sample_dh sample_hkdf sample_public)
  have pair: "pair_ok sample_crypto (demo_pair b)" for b by (simp add: pair_ok_def demo_pair_def sample_crypto_def)
  have a: "rs_DHs ?a = demo_pair 1" "rs_Ns ?a = 0" "rs_PN ?a = 0" "rs_CKs ?a \<noteq> None"
    by (simp_all add: initInitiator_def split_beta)
  then obtain cks where cks: "rs_CKs ?a = Some cks" by blast
  have nonce: "length (replicate 24 (0 :: byte)) = 24" by simp
  obtain blob0 where b0: "seal sample_crypto (replicate 24 0) [1, 2, 3] [] ?a
      = (?a\<lparr>rs_CKs := Some (fst (kdfCk sample_crypto cks)), rs_Ns := rs_Ns ?a + 1\<rparr>, Inr blob0)"
    "sealed_with sample_crypto [] \<lparr>hd_dh = pub ?a, hd_pn = rs_PN ?a, hd_n = rs_Ns ?a\<rparr> (snd (kdfCk sample_crypto cks)) [1, 2, 3] blob0"
    using seal_chain [OF cks prim _ nonce, of "[1, 2, 3]" "[]"] pair a by auto
  then obtain st blob where blob: "seal sample_crypto (replicate 24 0) [1, 2, 3] [] ?a = (st, Inr blob)"
    "sealed_with sample_crypto [] \<lparr>hd_dh = replicate 32 1, hd_pn = 0, hd_n = 0\<rparr> (snd (kdfCk sample_crypto cks)) [1, 2, 3] blob"
    using a by (simp add: demo_pair_def)
  let ?w = "?v\<lparr>cv_party := (cv_party ?v)(True := st), cv_fly := [(True, blob, [1, 2, 3])]\<rparr>"
  have "conv_step sample_crypto (\<lambda>_. []) ?v
      (?v\<lparr>cv_party := (cv_party ?v)(True := st), cv_fly := cv_fly ?v @ [(True, blob, [1, 2, 3])]\<rparr>)"
    by (rule conv_step.send [where nonce = "replicate 24 0"]) (use blob(1) a in \<open>simp_all add: conv_start_def NONCE_LEN_def\<close>)
  then have w: "(conv_step sample_crypto (\<lambda>_. []))\<^sup>*\<^sup>* ?v ?w" by (simp add: conv_start_def r_into_rtranclp)
  have fresh: "fresh_pair sample_crypto ?w (demo_pair 3)"
    using pair by (simp add: fresh_pair_def conv_start_def demo_pair_def)
  have gap: "gap_ok (blob_header blob) ?b"
    by (simp add: sealed_header [OF blob(2)] gap_ok_def turn_gap_ok_def initResponder_def)
  have "case open_sealed sample_crypto (demo_pair 3) blob [] (cv_party ?w (\<not> True)) of
      (st, Inr q) \<Rightarrow> q = [1, 2, 3] \<and> gap_ok (blob_header blob) (cv_party ?w (\<not> True))
        \<and> avail sample_crypto st (hd_dh (blob_header blob)) (hd_n (blob_header blob)) = None
    | (st, Inl e) \<Rightarrow> \<not> gap_ok (blob_header blob) (cv_party ?w (\<not> True))"
    by (rule ratchet_delivers [OF prim pair pair w _ fresh]) simp
  then have "\<exists>st. open_sealed sample_crypto (demo_pair 3) blob [] ?b = (st, Inr [1, 2, 3])"
    using gap by (auto simp: conv_start_def split: prod.splits sum.splits)
  then show ?thesis using blob(1) by (auto simp: prod_eq_iff)
qed

end
