(* ===== verification/X3dh.thy ===== *)
theory X3dh
  imports Ratchet_Conversation
begin

text \<open>
  X3DH key agreement (\<open>packages/client/src/x3dh.ts\<close>) and the in-process prekey directory
  (\<open>packages/client/src/prekeys.ts\<close>). Key pairs that \<open>generateKeyPair\<close> would draw are
  arguments.
\<close>

section \<open>Key agreement\<close>

definition X3DH_INFO :: bytes where "X3DH_INFO = utf8 ''nexnet x3dh v1''"

record prekey_bundle =
  pb_identityDhPublic :: bytes
  pb_signedPrekeyPublic :: bytes
  pb_signedPrekeySig :: bytes
  pb_identitySignPublic :: bytes
  pb_oneTimePrekeyPublic :: "bytes option"
  pb_oneTimePrekeyId :: "nat option"

record local_prekeys =
  lp_identityDh :: dh_pair
  lp_signedPrekey :: dh_pair
  lp_signedPrekeySig :: bytes
  lp_oneTime :: "(nat, dh_pair) jmap"
  lp_nextOtpId :: nat

record x3dh_init =
  xi_sk :: bytes
  xi_ekPublic :: bytes
  xi_usedOneTimePrekeyId :: "nat option"
  xi_remoteSpk :: bytes

record x3dh_recv =
  xr_sk :: bytes
  xr_remoteEk :: bytes
  xr_remoteSpkUsed :: bool

datatype x3dh_error = InvalidPrekeySignature | UnknownOneTimePrekey | X3dhCryptoFailed

definition createLocalPrekeys :: "crypto \<Rightarrow> dh_pair \<Rightarrow> dh_pair \<Rightarrow> dh_pair list \<Rightarrow> bytes \<Rightarrow> local_prekeys" where
  "createLocalPrekeys c identityDh signedPrekey fresh identitySignSecret =
     \<lparr>lp_identityDh = identityDh, lp_signedPrekey = signedPrekey,
      lp_signedPrekeySig = ed_sign c identitySignSecret (kp_public signedPrekey),
      lp_oneTime = zip [1..<length fresh + 1] fresh, lp_nextOtpId = length fresh + 1\<rparr>"

definition exportBundle :: "local_prekeys \<Rightarrow> bytes \<Rightarrow> prekey_bundle" where
  "exportBundle material identitySignPublic =
     (let otp = (case lp_oneTime material of [] \<Rightarrow> None | (i, kp) # _ \<Rightarrow> Some (i, kp_public kp)) in
      \<lparr>pb_identityDhPublic = kp_public (lp_identityDh material),
       pb_signedPrekeyPublic = kp_public (lp_signedPrekey material),
       pb_signedPrekeySig = lp_signedPrekeySig material, pb_identitySignPublic = identitySignPublic,
       pb_oneTimePrekeyPublic = map_option snd otp, pb_oneTimePrekeyId = map_option fst otp\<rparr>)"

definition verifyBundle :: "crypto \<Rightarrow> prekey_bundle \<Rightarrow> bool option" where
  "verifyBundle c bundle = ed_verify c (pb_identitySignPublic bundle) (pb_signedPrekeyPublic bundle) (pb_signedPrekeySig bundle)"

text \<open>The shared secrets in order, if none of the \<open>dh\<close> calls throws.\<close>

fun agree :: "crypto \<Rightarrow> (bytes \<times> bytes) list \<Rightarrow> bytes option" where
  "agree c [] = Some []"
| "agree c ((sk, pk) # rest) =
     (case x_dh c sk pk of None \<Rightarrow> None
      | Some s \<Rightarrow> (case agree c rest of None \<Rightarrow> None | Some ss \<Rightarrow> Some (s @ ss)))"

definition x3dhInitiate :: "crypto \<Rightarrow> dh_pair \<Rightarrow> bytes \<Rightarrow> prekey_bundle \<Rightarrow> x3dh_error + x3dh_init" where
  "x3dhInitiate c ek aliceIdentityDhSecret bob =
     (case verifyBundle c bob of
        None \<Rightarrow> Inl X3dhCryptoFailed
      | Some False \<Rightarrow> Inl InvalidPrekeySignature
      | Some True \<Rightarrow>
          (case agree c ([(aliceIdentityDhSecret, pb_signedPrekeyPublic bob), (kp_secret ek, pb_identityDhPublic bob),
                  (kp_secret ek, pb_signedPrekeyPublic bob)]
                @ (case pb_oneTimePrekeyPublic bob of None \<Rightarrow> [] | Some otp \<Rightarrow> [(kp_secret ek, otp)])) of
             None \<Rightarrow> Inl X3dhCryptoFailed
           | Some ikm \<Rightarrow>
               Inr \<lparr>xi_sk = hkdf c ikm [] X3DH_INFO 32, xi_ekPublic = kp_public ek,
                 xi_usedOneTimePrekeyId = (case pb_oneTimePrekeyPublic bob of None \<Rightarrow> None | Some _ \<Rightarrow> pb_oneTimePrekeyId bob),
                 xi_remoteSpk = pb_signedPrekeyPublic bob\<rparr>))"

text \<open>
  The first three agreements come before the one-time prekey is looked up; both failures leave the
  material as it was, the one-time prekey is removed once its own agreement has succeeded.
\<close>

definition x3dhRespond ::
  "crypto \<Rightarrow> local_prekeys \<Rightarrow> bytes \<Rightarrow> bytes \<Rightarrow> nat option \<Rightarrow> local_prekeys \<times> (x3dh_error + x3dh_recv)" where
  "x3dhRespond c bob aliceIdentityDhPublic aliceEkPublic usedOneTimePrekeyId =
     (case agree c [(kp_secret (lp_signedPrekey bob), aliceIdentityDhPublic),
             (kp_secret (lp_identityDh bob), aliceEkPublic), (kp_secret (lp_signedPrekey bob), aliceEkPublic)] of
        None \<Rightarrow> (bob, Inl X3dhCryptoFailed)
      | Some ikm3 \<Rightarrow>
          let done = (\<lambda>ikm. \<lparr>xr_sk = hkdf c ikm [] X3DH_INFO 32, xr_remoteEk = aliceEkPublic, xr_remoteSpkUsed = True\<rparr>) in
          (case usedOneTimePrekeyId of
             None \<Rightarrow> (bob, Inr (done ikm3))
           | Some i \<Rightarrow>
               (case jm_get (lp_oneTime bob) i of
                  None \<Rightarrow> (bob, Inl UnknownOneTimePrekey)
                | Some otp \<Rightarrow>
                    (case x_dh c (kp_secret otp) aliceEkPublic of
                       None \<Rightarrow> (bob, Inl X3dhCryptoFailed)
                     | Some s \<Rightarrow> (bob\<lparr>lp_oneTime := jm_del i (lp_oneTime bob)\<rparr>, Inr (done (ikm3 @ s)))))))"

section \<open>The prekey directory\<close>

record prekey_directory =
  pd_published :: "(string, prekey_bundle) jmap"
  pd_localByIdentity :: "(string, local_prekeys) jmap"

definition publishBundle :: "bytes \<Rightarrow> prekey_bundle \<Rightarrow> prekey_directory \<Rightarrow> prekey_directory" where
  "publishBundle identityId bundle d = d\<lparr>pd_published := jm_set (toHex identityId) bundle (pd_published d)\<rparr>"

definition fetchBundle :: "bytes \<Rightarrow> prekey_directory \<Rightarrow> prekey_bundle option" where
  "fetchBundle identityId d = jm_get (pd_published d) (toHex identityId)"

definition unpublishBundle :: "bytes \<Rightarrow> prekey_directory \<Rightarrow> prekey_directory" where
  "unpublishBundle identityId d = d\<lparr>pd_published := jm_del (toHex identityId) (pd_published d)\<rparr>"

definition clearPrekeyDirectory :: "prekey_directory \<Rightarrow> prekey_directory" where
  "clearPrekeyDirectory d = d\<lparr>pd_published := [], pd_localByIdentity := []\<rparr>"

definition installLocalPrekeys :: "bytes \<Rightarrow> local_prekeys \<Rightarrow> bytes \<Rightarrow> prekey_directory \<Rightarrow> prekey_directory" where
  "installLocalPrekeys identityId material identitySignPublic d =
     publishBundle identityId (exportBundle material identitySignPublic)
       (d\<lparr>pd_localByIdentity := jm_set (toHex identityId) material (pd_localByIdentity d)\<rparr>)"

definition setupLocalPrekeys ::
  "crypto \<Rightarrow> dh_pair \<Rightarrow> dh_pair \<Rightarrow> dh_pair list \<Rightarrow> bytes \<Rightarrow> bytes \<Rightarrow> bytes \<Rightarrow> prekey_directory \<Rightarrow> prekey_directory \<times> local_prekeys" where
  "setupLocalPrekeys c identityDh signedPrekey fresh identityId identitySignSecret identitySignPublic d =
     (let material = createLocalPrekeys c identityDh signedPrekey fresh identitySignSecret in
      (installLocalPrekeys identityId material identitySignPublic d, material))"

definition getLocalPrekeys :: "bytes \<Rightarrow> prekey_directory \<Rightarrow> local_prekeys option" where
  "getLocalPrekeys identityId d = jm_get (pd_localByIdentity d) (toHex identityId)"

definition refreshPublishedBundle :: "bytes \<Rightarrow> bytes \<Rightarrow> prekey_directory \<Rightarrow> prekey_directory" where
  "refreshPublishedBundle identityId identitySignPublic d =
     (case jm_get (pd_localByIdentity d) (toHex identityId) of
        None \<Rightarrow> d
      | Some material \<Rightarrow> publishBundle identityId (exportBundle material identitySignPublic) d)"

section \<open>Agreement\<close>

definition material_ok :: "crypto \<Rightarrow> local_prekeys \<Rightarrow> bool" where
  "material_ok c m \<longleftrightarrow> pair_ok c (lp_identityDh m) \<and> pair_ok c (lp_signedPrekey m) \<and> jm_ok (lp_oneTime m)
     \<and> (\<forall>(i, k) \<in> set (lp_oneTime m). pair_ok c k)"

lemma pair_agrees:
  "dh_agrees c \<Longrightarrow> pair_ok c k \<Longrightarrow> pair_ok c l \<Longrightarrow>
    \<exists>s. x_dh c (kp_secret k) (kp_public l) = Some s \<and> x_dh c (kp_secret l) (kp_public k) = Some s"
  by (auto simp: dh_agrees_def pair_ok_def)

lemma agree_append:
  "agree c (xs @ ys) = (case agree c xs of None \<Rightarrow> None | Some s \<Rightarrow> (case agree c ys of None \<Rightarrow> None | Some t \<Rightarrow> Some (s @ t)))"
  by (induction c xs rule: agree.induct) (auto split: option.split)

lemma x3dh_exchange:
  assumes prim: "dh_agrees c" and m: "material_ok c m" and ver: "verifyBundle c (exportBundle m signPk) = Some True"
    and alice: "pair_ok c ik" "pair_ok c ek"
  obtains res m' res' where "x3dhInitiate c ek (kp_secret ik) (exportBundle m signPk) = Inr res"
    "x3dhRespond c m (kp_public ik) (xi_ekPublic res) (xi_usedOneTimePrekeyId res) = (m', Inr res')"
    "xi_sk res = xr_sk res'" "xi_ekPublic res = kp_public ek" "lp_oneTime m' = tl (lp_oneTime m)"
    "xi_usedOneTimePrekeyId res = map_option fst (if lp_oneTime m = [] then None else Some (hd (lp_oneTime m)))"
    "m' = m\<lparr>lp_oneTime := tl (lp_oneTime m)\<rparr>"
proof -
  have ps: "pair_ok c (lp_identityDh m)" "pair_ok c (lp_signedPrekey m)" using m by (auto simp: material_ok_def)
  obtain s1 s2 s3 where s:
    "x_dh c (kp_secret ik) (kp_public (lp_signedPrekey m)) = Some s1" "x_dh c (kp_secret (lp_signedPrekey m)) (kp_public ik) = Some s1"
    "x_dh c (kp_secret ek) (kp_public (lp_identityDh m)) = Some s2" "x_dh c (kp_secret (lp_identityDh m)) (kp_public ek) = Some s2"
    "x_dh c (kp_secret ek) (kp_public (lp_signedPrekey m)) = Some s3" "x_dh c (kp_secret (lp_signedPrekey m)) (kp_public ek) = Some s3"
    using pair_agrees [OF prim alice(1) ps(2)] pair_agrees [OF prim alice(2) ps(1)] pair_agrees [OF prim alice(2) ps(2)] by blast
  show ?thesis
  proof (cases "lp_oneTime m")
    case Nil
    then show ?thesis
      using that ver s by (auto simp: x3dhInitiate_def x3dhRespond_def exportBundle_def Let_def)
  next
    case (Cons p rest)
    obtain i k where p: "p = (i, k)" by (cases p)
    have "pair_ok c k" using m Cons p by (auto simp: material_ok_def)
    then obtain s4 where s4: "x_dh c (kp_secret ek) (kp_public k) = Some s4" "x_dh c (kp_secret k) (kp_public ek) = Some s4"
      using pair_agrees [OF prim alice(2)] by blast
    have "jm_get (lp_oneTime m) i = Some k" using Cons p by (simp add: jm_get_def)
    moreover have "jm_del i (lp_oneTime m) = rest"
      using m Cons p by (force simp: material_ok_def jm_ok_def jm_del_def intro!: filter_True)
    ultimately show ?thesis
      using that ver s s4 Cons p by (auto simp: x3dhInitiate_def x3dhRespond_def exportBundle_def Let_def)
  qed
qed


lemma created_material:
  assumes "signatures_correct c" "pair_ok c idk" "pair_ok c spk" "list_all (pair_ok c) fresh"
  shows "material_ok c (createLocalPrekeys c idk spk fresh sec)"
    "verifyBundle c (exportBundle (createLocalPrekeys c idk spk fresh sec) (ed_public c sec)) = Some True"
proof -
  have "map fst (zip [1..<length fresh + 1] fresh) = [1..<length fresh + 1]" by (simp add: map_fst_zip)
  then show "material_ok c (createLocalPrekeys c idk spk fresh sec)"
    using assms by (auto simp: material_ok_def createLocalPrekeys_def jm_ok_def list_all_iff dest: set_zip_rightD)
  show "verifyBundle c (exportBundle (createLocalPrekeys c idk spk fresh sec) (ed_public c sec)) = Some True"
    using assms(1) by (simp add: verifyBundle_def exportBundle_def createLocalPrekeys_def Let_def signatures_correct_def)
qed

text \<open>
  X3DH. For a bundle that Bob exported from sound prekeys and whose signature verifies, Alice's
  side succeeds, Bob's side succeeds on what Alice sends him, and both derive the same root key. A
  one-time prekey that was used is gone: Bob offers it no more and refuses every later handshake
  that names it, and the rest of his material is untouched and still sound.
\<close>

lemma x3dh_agreement:
  assumes "dh_agrees c" and "material_ok c m" and "verifyBundle c (exportBundle m signPk) = Some True"
    and "pair_ok c ik" "pair_ok c ek"
  shows "\<exists>res m' res'. x3dhInitiate c ek (kp_secret ik) (exportBundle m signPk) = Inr res
    \<and> x3dhRespond c m (kp_public ik) (xi_ekPublic res) (xi_usedOneTimePrekeyId res) = (m', Inr res')
    \<and> xi_sk res = xr_sk res' \<and> material_ok c m' \<and> m'\<lparr>lp_oneTime := lp_oneTime m\<rparr> = m
    \<and> (\<forall>i. xi_usedOneTimePrekeyId res = Some i \<longrightarrow> pb_oneTimePrekeyId (exportBundle m' signPk') \<noteq> Some i
        \<and> (\<exists>e. x3dhRespond c m' ikPub ekPub (Some i) = (m', Inl e)))"
proof -
  obtain res m' res' where x: "x3dhInitiate c ek (kp_secret ik) (exportBundle m signPk) = Inr res"
    "x3dhRespond c m (kp_public ik) (xi_ekPublic res) (xi_usedOneTimePrekeyId res) = (m', Inr res')"
    "xi_sk res = xr_sk res'" "xi_ekPublic res = kp_public ek" "lp_oneTime m' = tl (lp_oneTime m)"
    "xi_usedOneTimePrekeyId res = map_option fst (if lp_oneTime m = [] then None else Some (hd (lp_oneTime m)))"
    "m' = m\<lparr>lp_oneTime := tl (lp_oneTime m)\<rparr>"
    using x3dh_exchange [OF assms] .
  have "material_ok c m'"
    using assms(2) unfolding x(7) by (cases "lp_oneTime m") (auto simp: material_ok_def jm_ok_def)
  moreover have "pb_oneTimePrekeyId (exportBundle m' signPk') \<noteq> Some i \<and> (\<exists>e. x3dhRespond c m' ikPub ekPub (Some i) = (m', Inl e))"
    if used: "xi_usedOneTimePrekeyId res = Some i" for i
  proof -
    obtain k rest where r: "lp_oneTime m = (i, k) # rest" using used x(6) by (cases "lp_oneTime m") auto
    then have i: "i \<notin> fst ` set rest" using assms(2) by (simp add: material_ok_def jm_ok_def)
    have none: "jm_get (lp_oneTime m') i = None" using x(5) r i by (simp add: jm_get_def map_of_eq_None_iff)
    have "pb_oneTimePrekeyId (exportBundle m' signPk') \<noteq> Some i"
      using x(5) r i by (cases rest) (auto simp: exportBundle_def Let_def)
    then show ?thesis using none by (auto simp: x3dhRespond_def Let_def split: option.split)
  qed
  ultimately show ?thesis using x(1-3,7) by (intro exI [of _ res] exI [of _ m'] exI [of _ res']) auto
qed

lemma x3dh_agreement_witness:
  "\<exists>res m' res'. x3dhInitiate sample_crypto (demo_pair 5) (replicate 32 4)
        (exportBundle (createLocalPrekeys sample_crypto (demo_pair 1) (demo_pair 2) [demo_pair 3] (replicate 32 6)) (replicate 32 6)) = Inr res
    \<and> x3dhRespond sample_crypto (createLocalPrekeys sample_crypto (demo_pair 1) (demo_pair 2) [demo_pair 3] (replicate 32 6))
        (replicate 32 4) (xi_ekPublic res) (xi_usedOneTimePrekeyId res) = (m', Inr res') \<and> xi_sk res = xr_sk res'"
proof -
  have pair: "pair_ok sample_crypto (demo_pair b)" for b by (simp add: pair_ok_def demo_pair_def sample_crypto_def)
  have "list_all (pair_ok sample_crypto) [demo_pair 3]" using pair by simp
  note m = created_material [OF sample_signatures pair [of 1] pair [of 2] this, of "replicate 32 6"]
  have k: "ed_public sample_crypto k = k" "kp_secret (demo_pair b) = replicate 32 b" "kp_public (demo_pair b) = replicate 32 b"
    for k b by (simp_all add: sample_crypto_def demo_pair_def)
  from x3dh_agreement [OF sample_dh m(1) m(2) pair [of 4] pair [of 5], unfolded k] show ?thesis by blast
qed

end
