(* ===== verification/Queue.thy ===== *)
theory Queue
  imports Identity_Auth Storage
begin

text \<open>
  The outbound message queue: \<open>packages/storage/src/queue.ts\<close> (the SQLite table
  \<open>outbound\<close>) and \<open>packages/client/src/queue-manager.ts\<close> (retries, presence and
  receipts). The manager is written against the interface \<open>OutboundQueueLike\<close>, here a record
  of operations; its contract is the locale \<open>outbound_queue\<close>, in which the lemmas about the
  manager are proved once. \<open>Date.now()\<close> is an argument, thrown errors are \<open>Inl\<close>. The client of a run of the manager is
  one value, so whether it is online and takes a frame is the same throughout the run; a client that
  goes offline ends the run, and the next begins with another client and the queue as it is.
\<close>

section \<open>Queue items\<close>

datatype delivery_state = Pending | Sent | Delivered | Failed

record queue_item =
  qi_encryptionFormat :: "string option"
  qi_messageId :: bytes
  qi_recipientIdentityId :: bytes
  qi_encryptedEnvelope :: bytes
  qi_createdAt :: int
  qi_lastAttemptAt :: "int option"
  qi_nextAttemptAt :: "int option"
  qi_attemptCount :: nat
  qi_deliveryState :: delivery_state

definition DM_X3DH_QUEUE_FORMAT :: string where "DM_X3DH_QUEUE_FORMAT = ''nexnet-dm-x3dh-v1''"

datatype queue_error = LacksProvenance | ReplacesLegacy | AlreadyQueued | QueueCapacity | ReceiptRequired
  | MissingState | StorageFailed | QueueThrow | InvalidResourceLimits | InvalidCredentials | CannotOpen device_error
  | CommitRefused string

definition x3dh_item :: "queue_item \<Rightarrow> bool" where
  "x3dh_item i = (qi_encryptionFormat i = Some DM_X3DH_QUEUE_FORMAT)"

definition backoffMs :: "nat \<Rightarrow> int" where
  "backoffMs attempts = min (30000 * 2 ^ attempts) (30 * 60 * 1000)"

text \<open>The interface \<open>OutboundQueueLike\<close>, as the object of its methods.\<close>

record 's queue_ops =
  qo_enqueue :: "queue_item \<Rightarrow> 's \<Rightarrow> 's \<times> (queue_error + unit)"
  qo_pending :: "int \<Rightarrow> 's \<Rightarrow> queue_error + queue_item list"
  qo_pendingForRecipient :: "bytes \<Rightarrow> 's \<Rightarrow> queue_error + queue_item list"
  qo_markDelivered :: "int \<Rightarrow> bytes \<Rightarrow> jval \<Rightarrow> 's \<Rightarrow> 's \<times> (queue_error + unit)"
  qo_markAttempt :: "int \<Rightarrow> bytes \<Rightarrow> 's \<Rightarrow> 's \<times> (queue_error + unit)"

section \<open>The SQLite queue\<close>

text \<open>
  The rows of \<open>outbound\<close> in insertion order, with the columns of a row as the fields of an
  item: \<open>rowsToItems\<close> only renames them and turns \<open>NULL\<close> into \<open>undefined\<close>.
  \<open>open\<close> adds the column \<open>encryption_format\<close> to a table that lacks it.
\<close>

type_synonym outbound = "queue_item list"

definition queue_open :: "bool \<Rightarrow> outbound \<Rightarrow> outbound" where
  "queue_open has_column rows = (if has_column then rows else map (\<lambda>r. r\<lparr>qi_encryptionFormat := None\<rparr>) rows)"

definition getById :: "bytes \<Rightarrow> outbound \<Rightarrow> queue_item option" where
  "getById messageId db = List.find (\<lambda>r. qi_messageId r = messageId) db"

definition enqueue :: "queue_item \<Rightarrow> outbound \<Rightarrow> outbound \<times> (queue_error + unit)" where
  "enqueue item db =
     (if qi_encryptionFormat item \<noteq> Some DM_X3DH_QUEUE_FORMAT then (db, Inl LacksProvenance)
      else if (case getById (qi_messageId item) db of
                 None \<Rightarrow> False | Some existing \<Rightarrow> qi_encryptionFormat existing \<noteq> Some DM_X3DH_QUEUE_FORMAT)
      then (db, Inl ReplacesLegacy)
      else (filter (\<lambda>r. qi_messageId r \<noteq> qi_messageId item) db @ [item], Inr ()))"

definition pending :: "int \<Rightarrow> outbound \<Rightarrow> queue_item list" where
  "pending now db = sort_key qi_createdAt (filter (\<lambda>r. qi_deliveryState r = Pending
     \<and> qi_encryptionFormat r = Some DM_X3DH_QUEUE_FORMAT
     \<and> (case qi_nextAttemptAt r of None \<Rightarrow> True | Some t \<Rightarrow> t \<le> now)) db)"

definition pendingForRecipient :: "bytes \<Rightarrow> outbound \<Rightarrow> queue_item list" where
  "pendingForRecipient identityId db = sort_key qi_createdAt (filter (\<lambda>r. qi_deliveryState r = Pending
     \<and> qi_encryptionFormat r = Some DM_X3DH_QUEUE_FORMAT \<and> qi_recipientIdentityId r = identityId) db)"

definition markDelivered :: "bytes \<Rightarrow> outbound \<Rightarrow> outbound" where
  "markDelivered messageId db = map (\<lambda>r. if qi_messageId r = messageId
     \<and> qi_encryptionFormat r = Some DM_X3DH_QUEUE_FORMAT then r\<lparr>qi_deliveryState := Delivered\<rparr> else r) db"

definition attempted :: "int \<Rightarrow> int \<Rightarrow> queue_item \<Rightarrow> queue_item" where
  "attempted now wait r = r\<lparr>qi_attemptCount := qi_attemptCount r + 1, qi_lastAttemptAt := Some now,
     qi_nextAttemptAt := Some (now + wait)\<rparr>"

definition markAttempt :: "int \<Rightarrow> bytes \<Rightarrow> outbound \<Rightarrow> outbound" where
  "markAttempt now messageId db =
     (case getById messageId db of
        None \<Rightarrow> db
      | Some row \<Rightarrow>
          (let wait = backoffMs (qi_attemptCount row) in
           map (\<lambda>r. if qi_messageId r = messageId \<and> qi_encryptionFormat r = Some DM_X3DH_QUEUE_FORMAT
                    then attempted now wait r else r) db))"

definition outbound_ops :: "outbound queue_ops" where
  "outbound_ops = \<lparr>qo_enqueue = enqueue, qo_pending = (\<lambda>now db. Inr (pending now db)),
     qo_pendingForRecipient = (\<lambda>i db. Inr (pendingForRecipient i db)),
     qo_markDelivered = (\<lambda>now i receipt db. (markDelivered i db, Inr ())),
     qo_markAttempt = (\<lambda>now i db. (markAttempt now i db, Inr ()))\<rparr>"

section \<open>The queue manager\<close>

text \<open>
  What the manager uses of \<open>NexnetClient\<close>: \<open>cl_ref\<close> tells two client objects apart, and
  \<open>cl_accepts\<close> is whether \<open>sendWs\<close> succeeds.
\<close>

record dm_client =
  cl_ref :: nat
  cl_identityId :: bytes
  cl_online :: bool
  cl_accepts :: "string \<Rightarrow> bytes \<Rightarrow> bool"

definition sendDm :: "dm_client \<Rightarrow> string \<Rightarrow> bytes \<Rightarrow> bool" where
  "sendDm client toIdentityHex envelope = (cl_online client \<and> cl_accepts client toIdentityHex envelope)"

datatype manager_output =
    DmOut string bytes
  | VerifiedReceipt delivery_receipt
  | ReceiptStoreFailed queue_error

record 's queue_manager =
  qm_queue :: 's
  qm_client :: "nat option"
  qm_timer :: bool

definition stop_manager :: "'s queue_manager \<Rightarrow> 's queue_manager" where
  "stop_manager m = m\<lparr>qm_client := None, qm_timer := False\<rparr>"

definition start_manager :: "dm_client \<Rightarrow> 's queue_manager \<Rightarrow> 's queue_manager" where
  "start_manager client m = (stop_manager m)\<lparr>qm_client := Some (cl_ref client), qm_timer := True\<rparr>"

definition manager_enqueue :: "'s queue_ops \<Rightarrow> queue_item \<Rightarrow> 's \<Rightarrow> 's \<times> (queue_error + unit)" where
  "manager_enqueue ops item s =
     (if qi_encryptionFormat item \<noteq> Some DM_X3DH_QUEUE_FORMAT then (s, Inl LacksProvenance) else qo_enqueue ops item s)"

fun attempt_all :: "'s queue_ops \<Rightarrow> int \<Rightarrow> dm_client \<Rightarrow> queue_item list \<Rightarrow> 's \<Rightarrow> 's \<times> manager_output list \<times> (queue_error + unit)" where
  "attempt_all ops now client [] s = (s, [], Inr ())"
| "attempt_all ops now client (item # rest) s =
     (if qi_encryptionFormat item \<noteq> Some DM_X3DH_QUEUE_FORMAT then attempt_all ops now client rest s
      else
        let recipientHex = toHex (qi_recipientIdentityId item) in
        if sendDm client recipientHex (qi_encryptedEnvelope item) then
          (case qo_markAttempt ops now (qi_messageId item) s of
             (s1, Inl e) \<Rightarrow> (s1, [DmOut recipientHex (qi_encryptedEnvelope item)], Inl e)
           | (s1, Inr _) \<Rightarrow>
               (case attempt_all ops now client rest s1 of
                  (s2, out, r) \<Rightarrow> (s2, DmOut recipientHex (qi_encryptedEnvelope item) # out, r)))
        else attempt_all ops now client rest s)"

text \<open>\<open>Buffer.from(hex, ''hex'')\<close>: either case, up to the first pair that is not hexadecimal.\<close>

fun buffer_hex :: "string \<Rightarrow> bytes" where
  "buffer_hex (a # b # r) =
     (case (hex_value (js_lower_char a), hex_value (js_lower_char b)) of
        (Some h, Some l) \<Rightarrow> word_of_nat (h * 16 + l) # buffer_hex r
      | _ \<Rightarrow> [])"
| "buffer_hex _ = []"

definition processQueue ::
  "'s queue_ops \<Rightarrow> int \<Rightarrow> dm_client \<Rightarrow> string option \<Rightarrow> 's \<Rightarrow> 's \<times> manager_output list \<times> (queue_error + unit)" where
  "processQueue ops now client recipientHex s =
     (if \<not> cl_online client then (s, [], Inr ())
      else
        (case (case recipientHex of
                 None \<Rightarrow> qo_pending ops now s
               | Some h \<Rightarrow> if h = [] then qo_pending ops now s else qo_pendingForRecipient ops (buffer_hex h) s) of
           Inl e \<Rightarrow> (s, [], Inl e)
         | Inr items \<Rightarrow> attempt_all ops now client items s))"

definition presenceHandler ::
  "'s queue_ops \<Rightarrow> int \<Rightarrow> dm_client \<Rightarrow> jval \<Rightarrow> 's \<Rightarrow> 's \<times> manager_output list \<times> (queue_error + unit)" where
  "presenceHandler ops now client data s =
     (case data of
        JNull \<Rightarrow> (s, [], Inl QueueThrow)
      | JObj fs \<Rightarrow>
          (case (jfield fs ''status'', jfield fs ''identityId'') of
             (Some (JStr status), Some (JStr h)) \<Rightarrow>
               (if status = ''online'' \<and> length h = 64 \<and> list_all (\<lambda>x. is_hex (js_lower_char x)) h
                then processQueue ops now client (Some h) s else (s, [], Inr ()))
           | _ \<Rightarrow> (s, [], Inr ()))
      | _ \<Rightarrow> (s, [], Inr ()))"

text \<open>The handler registered by \<open>start(client)\<close>; \<open>current\<close> is the manager's client when it runs.\<close>

definition receiptHandler ::
  "crypto \<Rightarrow> 's queue_ops \<Rightarrow> int \<Rightarrow> dm_client \<Rightarrow> nat option \<Rightarrow> jval \<Rightarrow> 's \<Rightarrow> 's \<times> manager_output list \<times> (queue_error + unit)" where
  "receiptHandler c ops now client current data s =
     (case data of
        JObj fs \<Rightarrow>
          (case jfield fs ''receipt'' of
             None \<Rightarrow> (s, [], Inr ())
           | Some proof \<Rightarrow>
               (case verifyDeliveryReceipt c proof (cl_identityId client) now of
                  None \<Rightarrow> (s, [], Inr ())
                | Some receipt \<Rightarrow>
                    (case qo_pendingForRecipient ops (dr_recipientIdentityId receipt) s of
                       Inl e \<Rightarrow> (s, [], Inl e)
                     | Inr items \<Rightarrow>
                         (case List.find (\<lambda>i. qi_messageId i = dr_messageId receipt) items of
                            None \<Rightarrow> (s, [], Inr ())
                          | Some item \<Rightarrow>
                              (if current \<noteq> Some (cl_ref client) \<or> qi_encryptionFormat item \<noteq> Some DM_X3DH_QUEUE_FORMAT
                               then (s, [], Inr ())
                               else
                                 (case qo_markDelivered ops now (dr_messageId receipt) proof s of
                                    (s1, Inl e) \<Rightarrow> (s1, [ReceiptStoreFailed e], Inr ())
                                  | (s1, Inr _) \<Rightarrow> (s1, [VerifiedReceipt receipt], Inr ())))))))
      | _ \<Rightarrow> (s, [], Inr ()))"

definition pendingCount :: "'s queue_ops \<Rightarrow> int \<Rightarrow> 's \<Rightarrow> queue_error + nat" where
  "pendingCount ops now s =
     (case qo_pending ops now s of Inl e \<Rightarrow> Inl e
      | Inr items \<Rightarrow> Inr (length (filter (\<lambda>i. qi_encryptionFormat i = Some DM_X3DH_QUEUE_FORMAT) items)))"

text \<open>What happens to a started manager: a message is queued, the poll timer fires, events arrive.\<close>

datatype manager_event =
    EvEnqueue queue_item
  | EvPoll int
  | EvPresence int jval
  | EvReceipt int jval

fun manager_step :: "crypto \<Rightarrow> 's queue_ops \<Rightarrow> dm_client \<Rightarrow> manager_event \<Rightarrow> 's \<Rightarrow> 's \<times> manager_output list" where
  "manager_step c ops client (EvEnqueue item) s = (fst (manager_enqueue ops item s), [])"
| "manager_step c ops client (EvPoll now) s = (case processQueue ops now client None s of (s1, out, r) \<Rightarrow> (s1, out))"
| "manager_step c ops client (EvPresence now data) s = (case presenceHandler ops now client data s of (s1, out, r) \<Rightarrow> (s1, out))"
| "manager_step c ops client (EvReceipt now data) s =
     (case receiptHandler c ops now client (Some (cl_ref client)) data s of (s1, out, r) \<Rightarrow> (s1, out))"

fun manager_run :: "crypto \<Rightarrow> 's queue_ops \<Rightarrow> dm_client \<Rightarrow> manager_event list \<Rightarrow> 's \<Rightarrow> 's \<times> manager_output list" where
  "manager_run c ops client [] s = (s, [])"
| "manager_run c ops client (e # es) s =
     (case manager_step c ops client e s of (s1, out) \<Rightarrow>
        (case manager_run c ops client es s1 of (s2, outs) \<Rightarrow> (s2, out @ outs)))"

end
