(* ===== verification/Prekey_Network.thy ===== *)
theory Prekey_Network
  imports X3dh Queue
begin

text \<open>
  Prekey bundles over the network (\<open>packages/client/src/prekey-network.ts\<close>): the JSON form
  of a bundle, publishing it under an identity proof, and fetching a peer's bundle, which is accepted
  only when the identity itself has signed it. The HTTP exchange is the response that comes back;
  the fields of a bundle have the types the interface \<open>NetworkPrekeyBundle\<close> gives them, and a
  response in which one has not is an error.
\<close>

record prekey_network =
  pn_directory :: prekey_directory
  pn_verifiedRootKeys :: "(string, bytes) jmap"
  pn_lastIssuedAt :: int

datatype network_error = PublishFailed | FetchFailed | NotSignedByIdentity

definition verifiedRootPublicKey :: "bytes \<Rightarrow> prekey_network \<Rightarrow> bytes option" where
  "verifiedRootPublicKey identityId pn = jm_get (pn_verifiedRootKeys pn) (toHex identityId)"

definition nextIssuedAt :: "int \<Rightarrow> prekey_network \<Rightarrow> prekey_network \<times> int" where
  "nextIssuedAt now pn =
     (let lastIssuedAt = (if pn_lastIssuedAt pn - now > 60000 then now - 1 else pn_lastIssuedAt pn);
          issuedAt = max now (lastIssuedAt + 1) in
      (pn\<lparr>pn_lastIssuedAt := issuedAt\<rparr>, issuedAt))"

section \<open>The JSON form\<close>

definition bundleToNetwork :: "bytes \<Rightarrow> prekey_bundle \<Rightarrow> (string \<times> jval) list" where
  "bundleToNetwork identityId bundle =
     [(''identityId'', JStr (toHex identityId)),
      (''identityDhPublic'', JStr (toHex (pb_identityDhPublic bundle))),
      (''signedPrekeyPublic'', JStr (toHex (pb_signedPrekeyPublic bundle))),
      (''signedPrekeySig'', JStr (toHex (pb_signedPrekeySig bundle))),
      (''identitySignPublic'', JStr (toHex (pb_identitySignPublic bundle)))]
     @ (case pb_oneTimePrekeyPublic bundle of None \<Rightarrow> [] | Some k \<Rightarrow> [(''oneTimePrekeyPublic'', JStr (toHex k))])
     @ (case pb_oneTimePrekeyId bundle of None \<Rightarrow> [] | Some i \<Rightarrow> [(''oneTimePrekeyId'', JNum (int i))])"

fun hex_text :: "jval option \<Rightarrow> bytes option" where
  "hex_text (Some (JStr s)) = Some (buffer_hex s)"
| "hex_text _ = None"

text \<open>The optional fields: \<open>None\<close> of the outer option is a value of another type.\<close>

fun hex_optional :: "jval option \<Rightarrow> bytes option option" where
  "hex_optional None = Some None"
| "hex_optional (Some (JStr s)) = Some (if s = [] then None else Some (buffer_hex s))"
| "hex_optional _ = None"

fun id_optional :: "jval option \<Rightarrow> nat option option" where
  "id_optional None = Some None"
| "id_optional (Some (JNum n)) = (if n < 0 then None else Some (Some (nat n)))"
| "id_optional _ = None"

definition bundleFromNetwork :: "(string \<times> jval) list \<Rightarrow> prekey_bundle option" where
  "bundleFromNetwork raw =
     (case (hex_text (jfield raw ''identityDhPublic''), hex_text (jfield raw ''signedPrekeyPublic''),
            hex_text (jfield raw ''signedPrekeySig''), hex_text (jfield raw ''identitySignPublic''),
            hex_optional (jfield raw ''oneTimePrekeyPublic''), id_optional (jfield raw ''oneTimePrekeyId'')) of
        (Some dh, Some spk, Some sig, Some sign, Some otp, Some otpId) \<Rightarrow>
          Some \<lparr>pb_identityDhPublic = dh, pb_signedPrekeyPublic = spk, pb_signedPrekeySig = sig, pb_identitySignPublic = sign,
            pb_oneTimePrekeyPublic = otp, pb_oneTimePrekeyId = otpId\<rparr>
      | _ \<Rightarrow> None)"

text \<open>\<open>url.replace(/\/+$/, "")\<close> and the address of an identity's bundle.\<close>

definition trimBase :: "string \<Rightarrow> string" where
  "trimBase url = rev (dropWhile (\<lambda>ch. ch = CHR ''/'') (rev url))"

definition prekey_url :: "string \<Rightarrow> bytes \<Rightarrow> string" where
  "prekey_url presenceBaseUrl identityId = trimBase presenceBaseUrl @ ''/prekeys/'' @ toHex identityId"

section \<open>Publishing and fetching\<close>

text \<open>The signed body, and the state after the response, \<open>ok\<close> or not.\<close>

definition publish_body :: "crypto \<Rightarrow> bytes \<Rightarrow> prekey_bundle \<Rightarrow> identity_signer \<Rightarrow> int \<Rightarrow> (string \<times> jval) list" where
  "publish_body c identityId bundle signer issuedAt =
     signIdentityAuthJson c signer ''prekeys.publish'' identityId
       (bundleToNetwork identityId bundle @ [(''issuedAt'', JNum issuedAt)])"

definition publishBundleRemote ::
  "crypto \<Rightarrow> int \<Rightarrow> bytes \<Rightarrow> prekey_bundle \<Rightarrow> identity_signer \<Rightarrow> bool \<Rightarrow> prekey_network
     \<Rightarrow> prekey_network \<times> (string \<times> jval) list \<times> (network_error + unit)" where
  "publishBundleRemote c now identityId bundle signer resp_ok pn =
     (let (pn1, issuedAt) = nextIssuedAt now pn;
          body = publish_body c identityId bundle signer issuedAt in
      if \<not> resp_ok then (pn1, body, Inl PublishFailed)
      else (pn1\<lparr>pn_directory := publishBundle identityId bundle (pn_directory pn1)\<rparr>, body, Inr ()))"

text \<open>The response to the request: its status, and its body when it is a JSON object.\<close>

record fetch_response =
  fr_status :: int
  fr_ok :: bool
  fr_json :: "(string \<times> jval) list option"

definition fetchBundleRemote ::
  "crypto \<Rightarrow> int \<Rightarrow> bytes \<Rightarrow> fetch_response \<Rightarrow> prekey_network \<Rightarrow> prekey_network \<times> (network_error + prekey_bundle option)" where
  "fetchBundleRemote c now peerIdentityId resp pn =
     (let idHex = toHex peerIdentityId in
      if fr_status resp = 404 then (pn, Inr None)
      else if \<not> fr_ok resp then (pn, Inl FetchFailed)
      else case fr_json resp of
        None \<Rightarrow> (pn, Inl FetchFailed)
      | Some json \<Rightarrow>
          (let signed = jm_del ''updatedAt'' json in
           if jfield signed ''identityId'' \<noteq> Some (JStr idHex)
              \<or> verifyIdentityAuthJson c signed ''prekeys.publish'' (Some (JStr idHex)) now = None
           then (pn, Inl NotSignedByIdentity)
           else case identityProofFromJson (jfield signed ''auth'') of
             Inl _ \<Rightarrow> (pn, Inl NotSignedByIdentity)
           | Inr proof \<Rightarrow>
               (let pn1 = pn\<lparr>pn_verifiedRootKeys := jm_set idHex (ip_rootPublicKey proof) (pn_verifiedRootKeys pn)\<rparr> in
                case bundleFromNetwork signed of
                  None \<Rightarrow> (pn1, Inl FetchFailed)
                | Some bundle \<Rightarrow> (pn1\<lparr>pn_directory := publishBundle peerIdentityId bundle (pn_directory pn1)\<rparr>, Inr (Some bundle)))))"

definition removeBundleRemote ::
  "crypto \<Rightarrow> int \<Rightarrow> bytes \<Rightarrow> identity_signer \<Rightarrow> fetch_response \<Rightarrow> prekey_network
     \<Rightarrow> prekey_network \<times> (string \<times> jval) list \<times> (network_error + unit)" where
  "removeBundleRemote c now identityId signer resp pn =
     (let (pn1, issuedAt) = nextIssuedAt now pn;
          body = signIdentityAuthJson c signer ''prekeys.remove'' identityId
            [(''identityId'', JStr (toHex identityId)), (''issuedAt'', JNum issuedAt)] in
      (pn1, body, if \<not> fr_ok resp \<and> fr_status resp \<noteq> 404 then Inl PublishFailed else Inr ()))"

text \<open>
  \<open>publishLocalPrekeys\<close>: \<open>stored\<close> is the material of a persistent client; otherwise fresh key
  pairs make a new one, installed once presence holds its bundle.
\<close>

definition publishLocalPrekeys ::
  "crypto \<Rightarrow> int \<Rightarrow> bytes \<Rightarrow> identity_signer \<Rightarrow> local_prekeys option \<Rightarrow> dh_pair \<Rightarrow> dh_pair \<Rightarrow> dh_pair list \<Rightarrow> bool \<Rightarrow> prekey_network
     \<Rightarrow> prekey_network \<times> (string \<times> jval) list \<times> (network_error + unit)" where
  "publishLocalPrekeys c now identityId signer stored identityDh signedPrekey fresh resp_ok pn =
     (let signPublic = (case is_certificate signer of None \<Rightarrow> is_rootPublicKey signer | Some cert \<Rightarrow> dc_signingKey cert);
          material = (case stored of Some m \<Rightarrow> m
            | None \<Rightarrow> createLocalPrekeys c identityDh signedPrekey fresh (is_secretKey signer)) in
      case publishBundleRemote c now identityId (exportBundle material signPublic) signer resp_ok pn of
        (pn1, body, Inl e) \<Rightarrow> (pn1, body, Inl e)
      | (pn1, body, Inr _) \<Rightarrow>
          (pn1\<lparr>pn_directory :=
             (case stored of
                Some _ \<Rightarrow> publishBundle identityId (exportBundle material signPublic) (pn_directory pn1)
              | None \<Rightarrow> installLocalPrekeys identityId material signPublic (pn_directory pn1))\<rparr>, body, Inr ()))"

section \<open>Time stamps\<close>

lemma nextIssuedAt_spec:
  assumes "nextIssuedAt now pn = (pn', t)"
  shows "pn_lastIssuedAt pn' = t" "now \<le> t" "t \<le> now + 60001" "pn_lastIssuedAt pn - now \<le> 60000 \<Longrightarrow> pn_lastIssuedAt pn < t"
    "pn_directory pn' = pn_directory pn" "pn_verifiedRootKeys pn' = pn_verifiedRootKeys pn"
  using assms by (auto simp: nextIssuedAt_def Let_def split: if_splits)

section \<open>Round trip\<close>

lemma js_lower_hex: "n < 16 \<Longrightarrow> js_lower_char (hex_digit n) = hex_digit n"
  by (auto simp: js_lower_char_def hex_digit_def Let_def)

lemma buffer_hex_toHex [simp]: "buffer_hex (toHex b) = b"
proof (induction b)
  case (Cons x xs)
  have "word_of_nat (unat x div 16 * 16 + unat x mod 16) = x" by simp
  then show ?case using Cons byte_nibbles [of x] by (simp add: js_lower_hex hex_value_digit)
qed simp

text \<open>Only a one-time key that is there and not empty travels; the id goes with it.\<close>

lemma bundleFromNetwork_bundle:
  assumes "\<And>k. pb_oneTimePrekeyPublic b = Some k \<Longrightarrow> k \<noteq> []"
    and "jfield rest ''oneTimePrekeyPublic'' = None" "jfield rest ''oneTimePrekeyId'' = None"
  shows "bundleFromNetwork (bundleToNetwork i b @ rest) = Some b"
proof -
  have "toHex k \<noteq> []" if "pb_oneTimePrekeyPublic b = Some k" for k using assms(1) [OF that] by (cases k) auto
  then show ?thesis
    using assms(2,3)
    by (cases b; cases "pb_oneTimePrekeyPublic b"; cases "pb_oneTimePrekeyId b")
       (auto simp: bundleFromNetwork_def bundleToNetwork_def simp del: toHex_simps)
qed

lemma publish_body_fields:
  fixes c i b s t
  defines "fs \<equiv> bundleToNetwork i b @ [(''issuedAt'', JNum t)]"
  shows "publish_body c i b s t = fs @ [(''auth'', identityProofToJson (signIdentityAuth c s ''prekeys.publish'' i (JObj fs)))]"
proof -
  have n: "map (\<lambda>(k, v). (k, json_normal v)) fs = fs"
    by (auto simp: fs_def bundleToNetwork_def split: option.split)
  have "jm_get fs ''auth'' = None" by (auto simp: fs_def bundleToNetwork_def jm_get_def split: option.splits)
  then have "jm_set ''auth'' v fs = fs @ [(''auth'', v)]" for v by (rule jm_set_new)
  then show ?thesis unfolding publish_body_def fs_def [symmetric] signIdentityAuthJson_def Let_def n by simp
qed

section \<open>What a fetched bundle proves\<close>

text \<open>
  The identity has signed the fields for this operation: with its root key, or with a device key the
  root has certified and that is in force.
\<close>

definition identity_signed :: "crypto \<Rightarrow> string \<Rightarrow> bytes \<Rightarrow> jval \<Rightarrow> int \<Rightarrow> bytes \<Rightarrow> bool" where
  "identity_signed c operation i fs now root \<longleftrightarrow> length i = 32 \<and> identityIdFromWallet c root = i
     \<and> (\<exists>sig. ed_verify c root (cdeEncode c (identityAuthPreimage operation i fs)) sig = Some True
        \<or> (\<exists>cert. verifyDeviceCert c cert root = Some True \<and> dc_accountId cert = i \<and> dc_issuedAt cert \<le> now \<and> now < dc_expiresAt cert
             \<and> ed_verify c (dc_signingKey cert) (cdeEncode c (identityAuthPreimage operation i fs)) sig = Some True))"

lemma verifyIdentityAuth_signed:
  assumes "verifyIdentityAuth c p operation i fs now = Some v"
  shows "identity_signed c operation i fs now (ip_rootPublicKey p)"
proof (cases "ip_certificate p")
  case None
  then show ?thesis
    using assms unfolding identity_signed_def
    by (auto simp: verifyIdentityAuth_def Let_def split: if_splits intro!: exI [of _ "ip_signature p"])
next
  case (Some cert)
  note d = verifyIdentityAuthD [OF assms Some]
  then show ?thesis unfolding identity_signed_def by blast
qed

lemma fetched_facts:
  assumes "fetchBundleRemote c now peer resp pn = (pn', Inr (Some b))"
  obtains json signed p where "fr_json resp = Some json" "signed = jm_del ''updatedAt'' json"
    "jfield signed ''identityId'' = Some (JStr (toHex peer))" "identityProofFromJson (jfield signed ''auth'') = Inr p"
    "identity_signed c ''prekeys.publish'' peer (JObj (without_auth signed)) now (ip_rootPublicKey p)"
    "bundleFromNetwork signed = Some b"
    "pn' = pn\<lparr>pn_verifiedRootKeys := jm_set (toHex peer) (ip_rootPublicKey p) (pn_verifiedRootKeys pn),
       pn_directory := publishBundle peer b (pn_directory pn)\<rparr>"
proof -
  obtain json where json: "fr_json resp = Some json" "fr_status resp \<noteq> 404" "fr_ok resp"
    using assms by (auto simp: fetchBundleRemote_def Let_def split: if_splits option.splits)
  let ?signed = "jm_del ''updatedAt'' json"
  note step = assms [unfolded fetchBundleRemote_def, simplified Let_def json if_False option.case]
  obtain v where v: "jfield ?signed ''identityId'' = Some (JStr (toHex peer))"
    "verifyIdentityAuthJson c ?signed ''prekeys.publish'' (Some (JStr (toHex peer))) now = Some v"
    using step by (auto split: if_splits)
  obtain p where p: "identityProofFromJson (jfield ?signed ''auth'') = Inr p" "bundleFromNetwork ?signed = Some b"
    "pn' = pn\<lparr>pn_verifiedRootKeys := jm_set (toHex peer) (ip_rootPublicKey p) (pn_verifiedRootKeys pn),
       pn_directory := publishBundle peer b (pn_directory pn)\<rparr>"
    using step v by (auto split: sum.splits option.splits simp del: jfield.simps)
  have "verifyIdentityAuth c p ''prekeys.publish'' peer (JObj (without_auth ?signed)) now = Some v"
    using v(2) p(1) by (auto simp: verifyIdentityAuthJson_def split: if_splits simp del: jfield.simps)
  from that [OF json(1) refl v(1) p(1) verifyIdentityAuth_signed [OF this] p(2,3)] show ?thesis .
qed

lemma published_served:
  assumes "signatures_correct c" "device_signer c s cert i now"
    and "wire_proof (signIdentityAuth c s ''prekeys.publish'' i (JObj (bundleToNetwork i b @ [(''issuedAt'', JNum t)])))"
    and "\<And>k. pb_oneTimePrekeyPublic b = Some k \<Longrightarrow> k \<noteq> []"
    and "fr_status resp = 200" "fr_ok resp" "fr_json resp = Some (jm_set ''updatedAt'' u (publish_body c i b s t))"
  shows "fetchBundleRemote c now i resp pn = (pn\<lparr>pn_verifiedRootKeys := jm_set (toHex i) (is_rootPublicKey s) (pn_verifiedRootKeys pn),
     pn_directory := publishBundle i b (pn_directory pn)\<rparr>, Inr (Some b))"
proof -
  define fs where "fs = bundleToNetwork i b @ [(''issuedAt'', JNum t)]"
  let ?p = "signIdentityAuth c s ''prekeys.publish'' i (JObj fs)"
  let ?body = "publish_body c i b s t"
  have body: "?body = fs @ [(''auth'', identityProofToJson ?p)]" unfolding fs_def by (rule publish_body_fields)
  have names: "''updatedAt'' \<notin> fst ` set ?body" "''auth'' \<notin> fst ` set fs"
    unfolding body fs_def by (auto simp: bundleToNetwork_def split: option.splits)
  then have "jm_get ?body ''updatedAt'' = None" by (simp add: jm_get_def map_of_eq_None_iff)
  then have "jm_set ''updatedAt'' u ?body = ?body @ [(''updatedAt'', u)]" by (rule jm_set_new)
  moreover have "jm_del ''updatedAt'' ?body = ?body" using names(1) by (force simp: jm_del_def intro!: filter_True)
  ultimately have signed: "jm_del ''updatedAt'' (jm_set ''updatedAt'' u ?body) = ?body" by (simp add: jm_del_def)
  have wa: "without_auth ?body = fs" using names(2) unfolding body without_auth_def by (force simp: jm_del_def intro!: filter_True)
  have auth: "jfield ?body ''auth'' = Some (identityProofToJson ?p)"
    using names(2) map_of_eq_None_iff [of fs "''auth''"] unfolding body by (simp add: map_add_def)
  have ident: "jfield ?body ''identityId'' = Some (JStr (toHex i))" unfolding body fs_def by (simp add: bundleToNetwork_def)
  have parsed: "identityProofFromJson (jfield ?body ''auth'') = Inr ?p"
    unfolding auth by (rule identityProof_json) (use assms(3) in \<open>simp add: fs_def\<close>)
  have len: "length i = 32" using assms(2) by (simp add: device_signer_def)
  have "verifyIdentityAuthJson c ?body ''prekeys.publish'' (Some (JStr (toHex i))) now \<noteq> None"
    using signIdentityAuth_accepted [OF assms(1,2), of "''prekeys.publish''" "JObj fs"] len
    by (simp add: verifyIdentityAuthJson_def parsed wa del: jfield.simps toHex_simps)
  moreover have "bundleFromNetwork ?body = Some b"
    unfolding body fs_def append_assoc by (rule bundleFromNetwork_bundle) (use assms(4) in auto)
  moreover have "ip_rootPublicKey ?p = is_rootPublicKey s" by (simp add: signIdentityAuth_def)
  ultimately show ?thesis
    using assms(5-7) ident parsed by (simp add: fetchBundleRemote_def signed Let_def del: jfield.simps)
qed

text \<open>
  C5. A presence server cannot swap prekeys. A bundle is taken from the network only when the
  requested identity has signed every field of it for publication, with its root key or a certified
  device key in force; that root key is the one remembered for the identity, and the bundle is the
  one offered for new sessions from then on. Conversely the bundle a certified device publishes, when
  it is served back with whatever time of storage, is accepted and is exactly the published one. An
  unsigned or foreign answer changes nothing.
\<close>

theorem fetched_bundle_authentic:
  "(fetchBundleRemote c now peer resp pn = (pn', Inr (Some b)) \<longrightarrow>
     (\<exists>signed root. bundleFromNetwork signed = Some b \<and> jfield signed ''identityId'' = Some (JStr (toHex peer))
        \<and> identity_signed c ''prekeys.publish'' peer (JObj (without_auth signed)) now root
        \<and> verifiedRootPublicKey peer pn' = Some root \<and> fetchBundle peer (pn_directory pn') = Some b
        \<and> (\<forall>i. i \<noteq> peer \<longrightarrow> fetchBundle i (pn_directory pn') = fetchBundle i (pn_directory pn)
             \<and> verifiedRootPublicKey i pn' = verifiedRootPublicKey i pn)))
   \<and> (fetchBundleRemote c now peer resp pn = (pn', Inl NotSignedByIdentity) \<longrightarrow> pn' = pn)
   \<and> (signatures_correct c \<and> device_signer c s cert peer now \<and> fr_status resp = 200 \<and> fr_ok resp
      \<and> wire_proof (signIdentityAuth c s ''prekeys.publish'' peer (JObj (bundleToNetwork peer b @ [(''issuedAt'', JNum t)])))
      \<and> pb_oneTimePrekeyPublic b \<noteq> Some [] \<and> fr_json resp = Some (jm_set ''updatedAt'' u (publish_body c peer b s t)) \<longrightarrow>
      snd (fetchBundleRemote c now peer resp pn) = Inr (Some b))"
proof (intro conjI impI)
  assume "fetchBundleRemote c now peer resp pn = (pn', Inr (Some b))"
  then show "\<exists>signed root. bundleFromNetwork signed = Some b \<and> jfield signed ''identityId'' = Some (JStr (toHex peer))
        \<and> identity_signed c ''prekeys.publish'' peer (JObj (without_auth signed)) now root
        \<and> verifiedRootPublicKey peer pn' = Some root \<and> fetchBundle peer (pn_directory pn') = Some b
        \<and> (\<forall>i. i \<noteq> peer \<longrightarrow> fetchBundle i (pn_directory pn') = fetchBundle i (pn_directory pn)
             \<and> verifiedRootPublicKey i pn' = verifiedRootPublicKey i pn)"
  proof (cases rule: fetched_facts)
    case (1 json signed p)
    then show ?thesis
      by (intro exI [of _ signed] exI [of _ "ip_rootPublicKey p"])
         (simp add: verifiedRootPublicKey_def fetchBundle_def publishBundle_def jm_simps del: jfield.simps)
  qed
next
  assume "fetchBundleRemote c now peer resp pn = (pn', Inl NotSignedByIdentity)"
  then show "pn' = pn"
    by (auto simp: fetchBundleRemote_def Let_def split: if_splits option.splits sum.splits simp del: jfield.simps)
next
  assume a: "signatures_correct c \<and> device_signer c s cert peer now \<and> fr_status resp = 200 \<and> fr_ok resp
      \<and> wire_proof (signIdentityAuth c s ''prekeys.publish'' peer (JObj (bundleToNetwork peer b @ [(''issuedAt'', JNum t)])))
      \<and> pb_oneTimePrekeyPublic b \<noteq> Some [] \<and> fr_json resp = Some (jm_set ''updatedAt'' u (publish_body c peer b s t))"
  then have "fetchBundleRemote c now peer resp pn = (pn\<lparr>pn_verifiedRootKeys := jm_set (toHex peer) (is_rootPublicKey s) (pn_verifiedRootKeys pn),
     pn_directory := publishBundle peer b (pn_directory pn)\<rparr>, Inr (Some b))"
    by (intro published_served [where s = s and cert = cert and t = t and u = u]) auto
  then show "snd (fetchBundleRemote c now peer resp pn) = Inr (Some b)" by simp
qed

definition demo_bundle :: prekey_bundle where
  "demo_bundle = exportBundle (createLocalPrekeys sample_crypto (demo_pair 1) (demo_pair 2) [demo_pair 3] (replicate 32 4)) (replicate 32 4)"

definition empty_network :: prekey_network where
  "empty_network = \<lparr>pn_directory = \<lparr>pd_published = [], pd_localByIdentity = []\<rparr>, pn_verifiedRootKeys = [], pn_lastIssuedAt = 0\<rparr>"

definition demo_response :: fetch_response where
  "demo_response = \<lparr>fr_status = 200, fr_ok = True,
     fr_json = Some (jm_set ''updatedAt'' (JNum 58) (publish_body sample_crypto (replicate 32 9) demo_bundle demo_signer 57))\<rparr>"

lemma demo_publish_wire:
  "wire_proof (signIdentityAuth sample_crypto demo_signer operation i fs)"
  by (simp add: wire_proof_def signIdentityAuth_def demo_signer_def issueDeviceCert_def demo_identity sample_signing safe_int_def)
     (simp add: demo_root_def)

theorem fetched_bundle_authentic_witness:
  "\<exists>pn'. fetchBundleRemote sample_crypto 60 (replicate 32 9) demo_response empty_network = (pn', Inr (Some demo_bundle))
     \<and> fetchBundle (replicate 32 9) (pn_directory pn') = Some demo_bundle"
proof -
  note all = fetched_bundle_authentic [where c = sample_crypto and now = 60 and peer = "replicate 32 9" and resp = demo_response
    and pn = empty_network and b = demo_bundle and s = demo_signer and cert = "the (is_certificate demo_signer)" and t = 57 and u = "JNum 58"]
  have d: "device_signer sample_crypto demo_signer (the (is_certificate demo_signer)) (replicate 32 9) 60"
    using demo_device_signer by (simp add: demo_receipt_def demo_identity)
  have b: "pb_oneTimePrekeyPublic demo_bundle \<noteq> Some []"
    by (simp add: demo_bundle_def exportBundle_def createLocalPrekeys_def demo_pair_def sample_crypto_def)
  have "snd (fetchBundleRemote sample_crypto 60 (replicate 32 9) demo_response empty_network) = Inr (Some demo_bundle)"
    by (rule all [THEN conjunct2, THEN conjunct2, THEN mp])
       (intro conjI sample_signatures d demo_publish_wire b; simp add: demo_response_def)
  then obtain pn' where pn': "fetchBundleRemote sample_crypto 60 (replicate 32 9) demo_response empty_network = (pn', Inr (Some demo_bundle))"
    by (cases "fetchBundleRemote sample_crypto 60 (replicate 32 9) demo_response empty_network") auto
  from all [of pn', THEN conjunct1, THEN mp, OF pn'] pn' show ?thesis by blast
qed

text \<open>
  The time stamps of a client's requests. Each is later than the one before it, unless the clock
  has gone back by more than a minute, and each is at most a minute and a millisecond ahead of the
  clock, so a service whose clock agrees takes it for fresh.
\<close>

lemma issued_at_increases:
  assumes "nextIssuedAt now pn = (pn', t)" "0 \<le> now" "now < 9007199254000000"
  shows "pn_lastIssuedAt pn' = t \<and> now \<le> t \<and> t \<le> now + 60001 \<and> isFreshIssuedAt (Some (JNum t)) now
    \<and> (pn_lastIssuedAt pn \<le> now + 60000 \<longrightarrow> pn_lastIssuedAt pn < t)
    \<and> (\<forall>later pn'' t'. nextIssuedAt later pn' = (pn'', t') \<and> t \<le> later + 60000 \<longrightarrow> t < t')"
proof -
  have "isFreshIssuedAt (Some (JNum t)) now"
    using nextIssuedAt_spec(2,3) [OF assms(1)] assms(2,3)
    by (simp add: isFreshIssuedAt_def IDENTITY_AUTH_MAX_SKEW_MS_def safe_int_def)
  moreover have "t < t'" if "nextIssuedAt later pn' = (pn'', t')" "t \<le> later + 60000" for later pn'' t'
    using nextIssuedAt_spec(4) [OF that(1)] nextIssuedAt_spec(1) [OF assms(1)] that(2) by simp
  ultimately show ?thesis using nextIssuedAt_spec [OF assms(1)] by auto
qed

lemma issued_at_increases_witness:
  "\<exists>pn' t. nextIssuedAt 1000 empty_network = (pn', t) \<and> t = 1000 \<and> isFreshIssuedAt (Some (JNum t)) 1000"
proof -
  obtain pn' t where n: "nextIssuedAt 1000 empty_network = (pn', t)" by (cases "nextIssuedAt 1000 empty_network")
  then have "t = 1000" by (auto simp: nextIssuedAt_def empty_network_def)
  then show ?thesis using issued_at_increases [OF n] n by auto
qed

end
