(* ===== verification/Queue_Contract.thy ===== *)
theory Queue_Contract
  imports Queue
begin

text \<open>
  The contract of \<open>OutboundQueueLike\<close> as a locale over an abstract queue (a finite map from
  message ids to items), what the queue manager guarantees on top of it, and the interpretation by
  the SQLite queue.
\<close>

section \<open>The abstract queue\<close>

definition due :: "int \<Rightarrow> queue_item \<Rightarrow> bool" where
  "due now i = (qi_deliveryState i = Pending \<and> x3dh_item i
     \<and> (case qi_nextAttemptAt i of None \<Rightarrow> True | Some t \<Rightarrow> t \<le> now))"

definition retried :: "int \<Rightarrow> queue_item \<Rightarrow> queue_item" where
  "retried now i = attempted now (backoffMs (qi_attemptCount i)) i"

definition bump :: "int \<Rightarrow> bytes set \<Rightarrow> (bytes \<Rightarrow> queue_item option) \<Rightarrow> bytes \<Rightarrow> queue_item option" where
  "bump now ks m k = (if k \<in> ks then map_option (retried now) (m k) else m k)"

definition dm_out :: "queue_item \<Rightarrow> manager_output" where
  "dm_out i = DmOut (toHex (qi_recipientIdentityId i)) (qi_encryptedEnvelope i)"

definition reaches :: "dm_client \<Rightarrow> queue_item \<Rightarrow> bool" where
  "reaches client i = sendDm client (toHex (qi_recipientIdentityId i)) (qi_encryptedEnvelope i)"

text \<open>The item is still waiting, and only its attempt counters have moved.\<close>

definition still_queued :: "queue_item \<Rightarrow> queue_item \<Rightarrow> bool" where
  "still_queued i i' = (i'\<lparr>qi_attemptCount := qi_attemptCount i, qi_lastAttemptAt := qi_lastAttemptAt i,
     qi_nextAttemptAt := qi_nextAttemptAt i\<rparr> = i \<and> qi_attemptCount i \<le> qi_attemptCount i' \<and> qi_deliveryState i' = Pending)"

definition MAX_BACKOFF_MS :: int where "MAX_BACKOFF_MS = 30 * 60 * 1000"

definition paced :: "int \<Rightarrow> queue_item \<Rightarrow> bool" where
  "paced T i = (case qi_nextAttemptAt i of None \<Rightarrow> True | Some t \<Rightarrow> t \<le> T + MAX_BACKOFF_MS)"

fun event_time :: "manager_event \<Rightarrow> int option" where
  "event_time (EvEnqueue i) = None"
| "event_time (EvPoll now) = Some now"
| "event_time (EvPresence now d) = Some now"
| "event_time (EvReceipt now d) = Some now"

definition timely :: "int \<Rightarrow> manager_event \<Rightarrow> bool" where
  "timely T e = (case event_time e of None \<Rightarrow> True | Some t \<Rightarrow> 0 \<le> t \<and> t \<le> T)"

definition requeues :: "bytes \<Rightarrow> manager_event \<Rightarrow> bool" where
  "requeues k e = (case e of EvEnqueue i \<Rightarrow> qi_messageId i = k | _ \<Rightarrow> False)"

text \<open>The event carries a receipt the sender can verify, for this message and from its recipient.\<close>

fun acknowledges :: "crypto \<Rightarrow> bytes \<Rightarrow> bytes \<Rightarrow> bytes \<Rightarrow> manager_event \<Rightarrow> bool" where
  "acknowledges c sender k recipient (EvReceipt now (JObj fs)) =
     (case jfield fs ''receipt'' of
        None \<Rightarrow> False
      | Some proof \<Rightarrow>
          (case verifyDeliveryReceipt c proof sender now of
             None \<Rightarrow> False | Some r \<Rightarrow> dr_messageId r = k \<and> dr_recipientIdentityId r = recipient))"
| "acknowledges c sender k recipient _ = False"

lemma backoff_bounds: "30000 \<le> backoffMs n" "backoffMs n \<le> MAX_BACKOFF_MS"
  by (simp_all add: backoffMs_def MAX_BACKOFF_MS_def)

lemma backoff_mono: "m \<le> n \<Longrightarrow> backoffMs m \<le> backoffMs n"
  unfolding backoffMs_def by (intro min.mono mult_left_mono power_increasing) auto

lemma retried_simps [simp]:
  "qi_messageId (retried now i) = qi_messageId i" "x3dh_item (retried now i) = x3dh_item i"
  "qi_deliveryState (retried now i) = qi_deliveryState i" "qi_recipientIdentityId (retried now i) = qi_recipientIdentityId i"
  "qi_encryptedEnvelope (retried now i) = qi_encryptedEnvelope i"
  by (simp_all add: retried_def attempted_def x3dh_item_def)

lemma still_queued_refl: "qi_deliveryState i = Pending \<Longrightarrow> still_queued i i"
  by (simp add: still_queued_def)

lemma still_queued_trans: "still_queued i j \<Longrightarrow> still_queued j k \<Longrightarrow> still_queued i k"
  by (cases i; cases j; cases k) (auto simp: still_queued_def)

lemma still_queued_retried: "qi_deliveryState i = Pending \<Longrightarrow> still_queued i (retried now i)"
  by (cases i) (simp add: still_queued_def retried_def attempted_def)

lemma still_queuedD:
  "still_queued i j \<Longrightarrow> qi_messageId j = qi_messageId i \<and> qi_recipientIdentityId j = qi_recipientIdentityId i
     \<and> qi_encryptedEnvelope j = qi_encryptedEnvelope i \<and> qi_deliveryState j = Pending"
  by (cases i; cases j) (auto simp: still_queued_def)

lemma paced_retried: "now \<le> T \<Longrightarrow> paced T (retried now i)"
  using backoff_bounds(2) [of "qi_attemptCount i"] by (simp add: paced_def retried_def attempted_def)

lemma bump_bump: "k \<notin> ks \<Longrightarrow> bump now ks (m(k := map_option (retried now) (m k))) = bump now (insert k ks) m"
  by (auto simp: bump_def fun_eq_iff)

lemma bump_empty [simp]: "bump now {} m = m"
  by (simp add: bump_def fun_eq_iff)

section \<open>The contract and its client\<close>

locale outbound_queue =
  fixes ops :: "'s queue_ops" and inv :: "'s \<Rightarrow> bool" and items :: "'s \<Rightarrow> bytes \<Rightarrow> queue_item option"
  assumes items_ok: "inv s \<Longrightarrow> items s k = Some i \<Longrightarrow> qi_messageId i = k \<and> x3dh_item i"
    and pending_law: "inv s \<Longrightarrow> 0 \<le> now \<Longrightarrow> \<exists>xs. qo_pending ops now s = Inr xs \<and> distinct (map qi_messageId xs)
      \<and> (\<forall>i. i \<in> set xs \<longleftrightarrow> items s (qi_messageId i) = Some i \<and> due now i)"
    and recipient_law: "inv s \<Longrightarrow> \<exists>xs. qo_pendingForRecipient ops r s = Inr xs \<and> distinct (map qi_messageId xs)
      \<and> (\<forall>i. i \<in> set xs \<longleftrightarrow> items s (qi_messageId i) = Some i \<and> qi_deliveryState i = Pending \<and> qi_recipientIdentityId i = r)"
    and enqueue_law: "inv s \<Longrightarrow> case qo_enqueue ops i s of
        (s', Inl e) \<Rightarrow> s' = s
      | (s', Inr _) \<Rightarrow> inv s' \<and> x3dh_item i \<and> items s' = (items s)(qi_messageId i \<mapsto> i)"
    and attempt_law: "inv s \<Longrightarrow> items s k = Some i \<Longrightarrow> qi_deliveryState i = Pending \<Longrightarrow> case qo_markAttempt ops now k s of
        (s', Inl e) \<Rightarrow> s' = s
      | (s', Inr _) \<Rightarrow> inv s' \<and> items s' = (items s)(k \<mapsto> retried now i)"
    and delivered_law: "inv s \<Longrightarrow> items s k = Some i \<Longrightarrow> qi_deliveryState i = Pending \<Longrightarrow>
      case qo_markDelivered ops now k pf s of
        (s', Inl e) \<Rightarrow> s' = s
      | (s', Inr _) \<Rightarrow> inv s' \<and> items s' = (items s)(k \<mapsto> i\<lparr>qi_deliveryState := Delivered\<rparr>)"
begin

lemma others_unchanged:
  assumes "distinct (map qi_messageId (i # xs))" "\<forall>j \<in> set (i # xs). items s (qi_messageId j) = Some j \<and> qi_deliveryState j = Pending"
    and "items s1 = (items s)(qi_messageId i \<mapsto> i1)"
  shows "\<forall>j \<in> set xs. items s1 (qi_messageId j) = Some j \<and> qi_deliveryState j = Pending"
proof
  fix j assume j: "j \<in> set xs"
  have "qi_messageId j \<noteq> qi_messageId i" using assms(1) j by (metis distinct.simps(2) image_eqI list.map(2) set_map)
  then show "items s1 (qi_messageId j) = Some j \<and> qi_deliveryState j = Pending" using assms(2,3) j by simp
qed

lemma attempt_all_spec:
  assumes "inv s" "distinct (map qi_messageId xs)"
    and "\<forall>i \<in> set xs. items s (qi_messageId i) = Some i \<and> qi_deliveryState i = Pending"
    and "attempt_all ops now client xs s = (s', out, r)"
  shows "\<exists>ys zs. filter (reaches client) xs = ys @ zs \<and> inv s' \<and> items s' = bump now (qi_messageId ` set ys) (items s)
    \<and> (case r of Inr _ \<Rightarrow> zs = [] \<and> out = map dm_out ys
       | Inl e \<Rightarrow> (\<exists>i zs'. zs = i # zs' \<and> out = map dm_out (ys @ [i])))"
  using assms
proof (induction xs arbitrary: s s' out r)
  case (Cons i xs)
  let ?k = "qi_messageId i"
  have i: "items s ?k = Some i" "qi_deliveryState i = Pending" using Cons.prems(3) by auto
  have x: "qi_encryptionFormat i = Some DM_X3DH_QUEUE_FORMAT"
    using items_ok [OF Cons.prems(1) i(1)] by (simp add: x3dh_item_def)
  show ?case
  proof (cases "reaches client i")
    case False
    then have "attempt_all ops now client xs s = (s', out, r)" using Cons.prems(4) x by (simp add: reaches_def Let_def)
    from Cons.IH [OF Cons.prems(1) _ _ this] show ?thesis using Cons.prems(2,3) False by simp
  next
    case True
    obtain s1 q where q: "qo_markAttempt ops now ?k s = (s1, q)" by (cases "qo_markAttempt ops now ?k s")
    note law = attempt_law [OF Cons.prems(1) i, of now, unfolded q]
    show ?thesis
    proof (cases q)
      case (Inl e)
      then have "s' = s" "out = [dm_out i]" "r = Inl e"
        using Cons.prems(4) x True q law by (simp_all add: reaches_def dm_out_def Let_def)
      then show ?thesis using Cons.prems(1) True by (intro exI [of _ "[]"] exI [of _ "i # filter (reaches client) xs"]) simp
    next
      case (Inr u)
      then have s1: "inv s1" "items s1 = (items s)(?k \<mapsto> retried now i)" using law by simp_all
      obtain s2 out1 r1 where o1: "attempt_all ops now client xs s1 = (s2, out1, r1)" by (rule prod_cases3)
      then have o: "attempt_all ops now client xs s1 = (s', out1, r)" "out = dm_out i # out1"
        using Cons.prems(4) x True q Inr by (simp_all add: reaches_def dm_out_def)
      note others_unchanged [OF Cons.prems(2,3) s1(2)]
      then obtain ys zs where y: "filter (reaches client) xs = ys @ zs" "inv s'"
        "items s' = bump now (qi_messageId ` set ys) (items s1)"
        "case r of Inr _ \<Rightarrow> zs = [] \<and> out1 = map dm_out ys | Inl e \<Rightarrow> (\<exists>i zs'. zs = i # zs' \<and> out1 = map dm_out (ys @ [i]))"
        using Cons.IH [OF s1(1) _ _ o(1)] Cons.prems(2) by auto
      have "set ys \<subseteq> set xs" using y(1) by (metis Un_upper1 filter_is_subset order_trans set_append)
      then have "?k \<notin> qi_messageId ` set ys" using Cons.prems(2) by auto
      then have "items s' = bump now (qi_messageId ` set (i # ys)) (items s)"
        using y(3) s1(2) i(1) bump_bump [of ?k "qi_messageId ` set ys" now "items s"] by simp
      then show ?thesis using True y(1,2,4) o(2) by (intro exI [of _ "i # ys"] exI [of _ zs]) (auto split: sum.splits)
    qed
  qed
qed simp

lemma processQueue_spec:
  assumes "inv s" "0 \<le> now" "processQueue ops now client h s = (s', out, r)"
  shows "\<exists>xs ys zs. distinct (map qi_messageId xs) \<and> filter (reaches client) xs = ys @ zs
    \<and> (\<forall>i \<in> set xs. items s (qi_messageId i) = Some i \<and> qi_deliveryState i = Pending)
    \<and> (cl_online client \<and> h = None \<longrightarrow> (\<forall>i. i \<in> set xs \<longleftrightarrow> items s (qi_messageId i) = Some i \<and> due now i))
    \<and> inv s' \<and> items s' = bump now (qi_messageId ` set ys) (items s)
    \<and> (case r of Inr _ \<Rightarrow> zs = [] \<and> out = map dm_out ys
       | Inl e \<Rightarrow> (\<exists>i zs'. zs = i # zs' \<and> out = map dm_out (ys @ [i])))"
proof (cases "cl_online client")
  case False
  then have "s' = s" "out = []" "r = Inr ()" using assms(3) by (simp_all add: processQueue_def)
  then show ?thesis using assms(1) False by (intro exI [of _ "[]"]) simp
next
  case True
  let ?list = "case h of None \<Rightarrow> qo_pending ops now s
    | Some h \<Rightarrow> if h = [] then qo_pending ops now s else qo_pendingForRecipient ops (buffer_hex h) s"
  obtain xs where xs: "?list = Inr xs" "distinct (map qi_messageId xs)"
    "\<forall>i \<in> set xs. items s (qi_messageId i) = Some i \<and> qi_deliveryState i = Pending"
    "h = None \<longrightarrow> (\<forall>i. i \<in> set xs \<longleftrightarrow> items s (qi_messageId i) = Some i \<and> due now i)"
    using pending_law [OF assms(1,2)] recipient_law [OF assms(1)]
    by (cases h) (fastforce simp: due_def split: if_splits)+
  have "attempt_all ops now client xs s = (s', out, r)" using assms(3) True xs(1) by (simp add: processQueue_def)
  from attempt_all_spec [OF assms(1) xs(2,3) this] show ?thesis using xs by blast
qed

text \<open>A run of the queue over the due items that all reach the transport, on a queue that records every attempt.\<close>

lemma process_keeps:
  assumes "inv s" "0 \<le> now" "now \<le> T" "processQueue ops now client h s = (s', out, r)"
    and "items s k = Some i" "qi_deliveryState i = Pending" "paced T i"
  shows "inv s' \<and> (\<exists>i'. items s' k = Some i' \<and> still_queued i i' \<and> paced T i')"
  using processQueue_spec [OF assms(1,2,4)] assms(3,5-7) still_queued_refl [OF assms(6)] still_queued_retried [OF assms(6)]
    paced_retried [OF assms(3)]
  by (auto simp: bump_def)

lemma receipt_keeps:
  assumes "inv s" "receiptHandler c ops now client cur data s = (s', out, r)"
    and "items s k = Some i" "qi_deliveryState i = Pending"
    and "\<not> acknowledges c (cl_identityId client) k (qi_recipientIdentityId i) (EvReceipt now data)"
  shows "inv s' \<and> items s' k = Some i"
proof (cases "s' = s")
  case False
  then obtain fs pf q xs j where q: "data = JObj fs" "jfield fs ''receipt'' = Some pf"
    "verifyDeliveryReceipt c pf (cl_identityId client) now = Some q"
    "qo_pendingForRecipient ops (dr_recipientIdentityId q) s = Inr xs"
    "List.find (\<lambda>i. qi_messageId i = dr_messageId q) xs = Some j"
    "s' = fst (qo_markDelivered ops now (dr_messageId q) pf s)"
    using assms(2)
    by (auto simp: receiptHandler_def simp del: jfield.simps split: jval.splits option.splits sum.splits prod.splits if_splits)
  have j: "items s (dr_messageId q) = Some j" "qi_deliveryState j = Pending" "qi_recipientIdentityId j = dr_recipientIdentityId q"
    using find_SomeD [OF q(5)] recipient_law [OF assms(1), of "dr_recipientIdentityId q"] q(4) by auto
  have k: "dr_messageId q \<noteq> k"
  proof
    assume "dr_messageId q = k"
    then show False using assms(3,5) j q(1-3) by (simp del: jfield.simps)
  qed
  from delivered_law [OF assms(1) j(1,2), of now pf] show ?thesis
    using False k q(6) assms(1,3) by (auto split: prod.splits sum.splits)
qed (use assms in simp)

lemma step_keeps:
  assumes "inv s" "timely T e" "\<not> requeues k e" "manager_step c ops client e s = (s', out)"
    and "items s k = Some i" "qi_deliveryState i = Pending" "paced T i"
    and "\<not> acknowledges c (cl_identityId client) k (qi_recipientIdentityId i) e"
  shows "inv s' \<and> (\<exists>i'. items s' k = Some i' \<and> still_queued i i' \<and> paced T i')"
proof (cases e)
  case (EvEnqueue j)
  then show ?thesis
    using assms enqueue_law [OF assms(1), of j] still_queued_refl [OF assms(6)]
    by (auto simp: manager_enqueue_def requeues_def split: if_splits prod.splits sum.splits)
next
  case (EvPoll now)
  obtain r where "processQueue ops now client None s = (s', out, r)"
    using assms(4) EvPoll by (auto split: prod.splits)
  then show ?thesis using process_keeps [OF assms(1) _ _ _ assms(5-7)] assms(2) EvPoll by (auto simp: timely_def)
next
  case (EvPresence now d)
  obtain r where r: "presenceHandler ops now client d s = (s', out, r)" using assms(4) EvPresence by (auto split: prod.splits)
  then have "s' = s \<or> (\<exists>h. processQueue ops now client (Some h) s = (s', out, r))"
    by (auto simp: presenceHandler_def simp del: jfield.simps split: jval.splits option.splits if_splits)
  then show ?thesis
    using process_keeps [OF assms(1) _ _ _ assms(5-7)] assms(1,2,5,7) EvPresence still_queued_refl [OF assms(6)]
    by (auto simp: timely_def)
next
  case (EvReceipt now d)
  obtain r where "receiptHandler c ops now client (Some (cl_ref client)) d s = (s', out, r)"
    using assms(4) EvReceipt by (auto split: prod.splits)
  then show ?thesis
    using receipt_keeps [OF assms(1) _ assms(5,6)] assms(7,8) EvReceipt still_queued_refl [OF assms(6)] by blast
qed

lemma run_keeps:
  assumes "inv s" "\<forall>e \<in> set es. timely T e \<and> \<not> requeues k e"
    and "items s k = Some i" "qi_deliveryState i = Pending" "paced T i"
    and "\<forall>e \<in> set es. \<not> acknowledges c (cl_identityId client) k (qi_recipientIdentityId i) e"
  shows "inv (fst (manager_run c ops client es s))
    \<and> (\<exists>i'. items (fst (manager_run c ops client es s)) k = Some i' \<and> still_queued i i' \<and> paced T i')"
  using assms
proof (induction es arbitrary: s i)
  case Nil
  then show ?case using still_queued_refl by simp
next
  case (Cons e es)
  obtain s1 out where s1: "manager_step c ops client e s = (s1, out)" by (cases "manager_step c ops client e s")
  obtain i1 where i1: "inv s1" "items s1 k = Some i1" "still_queued i i1" "paced T i1"
    using step_keeps [OF Cons.prems(1) _ _ s1 Cons.prems(3-5)] Cons.prems(2,6) by auto
  have "inv (fst (manager_run c ops client es s1))
    \<and> (\<exists>i'. items (fst (manager_run c ops client es s1)) k = Some i' \<and> still_queued i1 i' \<and> paced T i')"
    using Cons.IH [OF i1(1) _ i1(2) _ i1(4)] Cons.prems(2,6) still_queuedD [OF i1(3)] by auto
  then show ?case using s1 still_queued_trans [OF i1(3)] by (auto split: prod.splits)
qed

end

text \<open>A queue on which recording an attempt cannot fail.\<close>

locale reliable_queue = outbound_queue +
  assumes attempt_total: "inv s \<Longrightarrow> items s k = Some i \<Longrightarrow> snd (qo_markAttempt ops now k s) = Inr ()"
begin

lemma attempt_all_total:
  assumes "inv s" "distinct (map qi_messageId xs)"
    and "\<forall>i \<in> set xs. items s (qi_messageId i) = Some i \<and> qi_deliveryState i = Pending"
  shows "snd (snd (attempt_all ops now client xs s)) = Inr ()"
  using assms
proof (induction xs arbitrary: s)
  case (Cons i xs)
  have i: "items s (qi_messageId i) = Some i" "qi_deliveryState i = Pending" using Cons.prems by auto
  obtain s1 where s1: "qo_markAttempt ops now (qi_messageId i) s = (s1, Inr ())"
    using attempt_total [OF Cons.prems(1) i(1), of now] by (metis prod.collapse)
  have s: "inv s1" "items s1 = (items s)(qi_messageId i \<mapsto> retried now i)"
    using attempt_law [OF Cons.prems(1) i, of now] s1 by simp_all
  note others_unchanged [OF Cons.prems(2,3) s(2)]
  then have "snd (snd (attempt_all ops now client xs s1)) = Inr ()"
    using Cons.IH [OF s(1)] Cons.prems(2) by simp
  moreover have "snd (snd (attempt_all ops now client xs s)) = Inr ()" using Cons.IH [of s] Cons.prems by simp
  ultimately show ?case by (simp add: s1 Let_def split_beta)
qed simp

lemma poll_sends:
  assumes "inv s" "0 \<le> now" "cl_online client" "items s k = Some i" "due now i" "reaches client i"
  shows "dm_out i \<in> set (snd (manager_step c ops client (EvPoll now) s))"
proof -
  obtain xs where xs: "qo_pending ops now s = Inr xs" "distinct (map qi_messageId xs)"
    "\<forall>i. i \<in> set xs \<longleftrightarrow> items s (qi_messageId i) = Some i \<and> due now i"
    using pending_law [OF assms(1,2)] by blast
  then have p: "\<forall>i \<in> set xs. items s (qi_messageId i) = Some i \<and> qi_deliveryState i = Pending" by (simp add: due_def)
  obtain s' out where o: "attempt_all ops now client xs s = (s', out, Inr ())"
    using attempt_all_total [OF assms(1) xs(2) p, of now client] by (metis prod.collapse)
  have "out = map dm_out (filter (reaches client) xs)"
    using attempt_all_spec [OF assms(1) xs(2) p o] by auto
  moreover have "i \<in> set xs" using xs(3) assms(4,5) items_ok [OF assms(1,4)] by simp
  ultimately show ?thesis using o assms(3,6) xs(1) by (auto simp: processQueue_def)
qed

lemma unacknowledged_resent:
  assumes "inv s" "\<forall>e \<in> set es. timely T e \<and> \<not> requeues k e" "0 \<le> T" "T + MAX_BACKOFF_MS \<le> now"
    and "items s k = Some i" "qi_deliveryState i = Pending" "paced T i"
    and "\<forall>e \<in> set es. \<not> acknowledges c (cl_identityId client) k (qi_recipientIdentityId i) e"
    and "cl_online client" "reaches client i"
  shows "dm_out i \<in> set (snd (manager_step c ops client (EvPoll now) (fst (manager_run c ops client es s))))"
proof -
  obtain i' where i': "inv (fst (manager_run c ops client es s))" "items (fst (manager_run c ops client es s)) k = Some i'"
    "still_queued i i'" "paced T i'"
    using run_keeps [OF assms(1,2,5-8)] by blast
  have "due now i'"
    using i' items_ok [OF i'(1,2)] assms(4) still_queuedD [OF i'(3)] by (auto simp: due_def paced_def split: option.splits)
  moreover have "reaches client i'" "dm_out i' = dm_out i"
    using assms(10) still_queuedD [OF i'(3)] by (simp_all add: reaches_def dm_out_def)
  ultimately show ?thesis
    using poll_sends [OF i'(1) _ assms(9) i'(2)] assms(3,4) by (simp add: MAX_BACKOFF_MS_def)
qed

end

section \<open>What no operation of the manager touches\<close>

locale queue_frame =
  fixes ops :: "'s queue_ops" and inv :: "'s \<Rightarrow> bool" and view :: "'s \<Rightarrow> 'v"
  assumes enqueue_frame: "inv s \<Longrightarrow> inv (fst (qo_enqueue ops i s)) \<and> view (fst (qo_enqueue ops i s)) = view s"
    and attempt_frame: "inv s \<Longrightarrow> inv (fst (qo_markAttempt ops now k s)) \<and> view (fst (qo_markAttempt ops now k s)) = view s"
    and delivered_frame: "inv s \<Longrightarrow> inv (fst (qo_markDelivered ops now k pf s)) \<and> view (fst (qo_markDelivered ops now k pf s)) = view s"
begin

lemma attempt_all_frame:
  "inv s \<Longrightarrow> inv (fst (attempt_all ops now client xs s)) \<and> view (fst (attempt_all ops now client xs s)) = view s"
proof (induction xs arbitrary: s)
  case (Cons i xs)
  obtain s1 q where q: "qo_markAttempt ops now (qi_messageId i) s = (s1, q)" by (cases "qo_markAttempt ops now (qi_messageId i) s")
  then have "inv s1 \<and> view s1 = view s" using attempt_frame [OF Cons.prems, of now "qi_messageId i"] by simp
  then show ?case using Cons.IH [of s] Cons.IH [of s1] Cons.prems q by (simp add: Let_def split_beta split: sum.split)
qed simp

lemma process_frame:
  "inv s \<Longrightarrow> inv (fst (processQueue ops now client h s)) \<and> view (fst (processQueue ops now client h s)) = view s"
  using attempt_all_frame by (auto simp: processQueue_def split: sum.split)

lemma presence_frame:
  "inv s \<Longrightarrow> inv (fst (presenceHandler ops now client d s)) \<and> view (fst (presenceHandler ops now client d s)) = view s"
  using process_frame by (auto simp: presenceHandler_def simp del: jfield.simps split: jval.split option.split)

lemma receipt_frame:
  assumes "inv s"
  shows "inv (fst (receiptHandler c ops now client cur d s)) \<and> view (fst (receiptHandler c ops now client cur d s)) = view s"
proof -
  obtain s' out r where "receiptHandler c ops now client cur d s = (s', out, r)" by (rule prod_cases3)
  moreover from this have "s' = s \<or> (\<exists>k pf. s' = fst (qo_markDelivered ops now k pf s))"
    by (auto simp: receiptHandler_def simp del: jfield.simps split: jval.splits option.splits sum.splits prod.splits if_splits)
       (metis fst_conv)+
  ultimately show ?thesis using delivered_frame [OF assms] assms by auto
qed

lemma run_frame:
  "inv s \<Longrightarrow> inv (fst (manager_run c ops client es s)) \<and> view (fst (manager_run c ops client es s)) = view s"
proof (induction es arbitrary: s)
  case (Cons e es)
  have "inv (fst (manager_step c ops client e s)) \<and> view (fst (manager_step c ops client e s)) = view s"
    using Cons.prems process_frame presence_frame receipt_frame enqueue_frame
    by (cases e) (simp_all add: manager_enqueue_def split_beta)
  then show ?case using Cons.IH [of "fst (manager_step c ops client e s)"] by (simp add: split_beta)
qed simp

end

section \<open>The SQLite queue provides the contract\<close>

definition sql_inv :: "outbound \<Rightarrow> bool" where
  "sql_inv db = distinct (map qi_messageId db)"

definition sql_items :: "outbound \<Rightarrow> bytes \<Rightarrow> queue_item option" where
  "sql_items db k = (case getById k db of None \<Rightarrow> None | Some r \<Rightarrow> if x3dh_item r then Some r else None)"

lemma getById_iff: "sql_inv db \<Longrightarrow> getById k db = Some r \<longleftrightarrow> r \<in> set db \<and> qi_messageId r = k"
  by (induction db) (auto simp: getById_def sql_inv_def)

lemma sql_items_iff:
  assumes "sql_inv db"
  shows "sql_items db k = Some i \<longleftrightarrow> i \<in> set db \<and> qi_messageId i = k \<and> x3dh_item i"
  unfolding getById_iff [OF assms, symmetric] conj_assoc [symmetric]
  by (auto simp: sql_items_def split: option.split)

lemma getById_map: "(\<And>r. qi_messageId (f r) = qi_messageId r) \<Longrightarrow> getById k (map f db) = map_option f (getById k db)"
  by (induction db) (auto simp: getById_def)

lemma getById_enqueue:
  "getById k (filter (\<lambda>r. qi_messageId r \<noteq> qi_messageId i) db @ [i]) = (if k = qi_messageId i then Some i else getById k db)"
  by (induction db) (auto simp: getById_def)

lemma sql_inv_map: "(\<And>r. qi_messageId (f r) = qi_messageId r) \<Longrightarrow> sql_inv (map f db) = sql_inv db"
  by (simp add: sql_inv_def comp_def)

lemma sql_inv_enqueue: "sql_inv db \<Longrightarrow> sql_inv (filter (\<lambda>r. qi_messageId r \<noteq> qi_messageId i) db @ [i])"
  by (auto simp: sql_inv_def distinct_map_filter)

lemma distinct_sorted: "sql_inv db \<Longrightarrow> distinct (map qi_messageId (sort_key f (filter P db)))"
  by (simp add: sql_inv_def distinct_map inj_on_def distinct_filter)

lemma attempted_id [simp]: "qi_messageId (attempted now w r) = qi_messageId r"
  by (simp add: attempted_def)

lemma markAttempt_map:
  "getById k db = Some row \<Longrightarrow> markAttempt now k db = map (\<lambda>r. if qi_messageId r = k \<and> qi_encryptionFormat r = Some DM_X3DH_QUEUE_FORMAT
     then attempted now (backoffMs (qi_attemptCount row)) r else r) db"
  by (simp add: markAttempt_def)

lemma getById_id: "getById k db = Some r \<Longrightarrow> qi_messageId r = k"
  unfolding getById_def by (drule find_SomeD) simp

lemma sql_items_update:
  assumes "\<And>r. qi_messageId (f r) = qi_messageId r" "\<And>r. x3dh_item (f r) = x3dh_item r"
    and "getById k db = Some i" "x3dh_item i"
  shows "sql_items (map (\<lambda>r. if qi_messageId r = k \<and> qi_encryptionFormat r = Some DM_X3DH_QUEUE_FORMAT then f r else r) db)
    = (sql_items db)(k \<mapsto> f i)"
proof
  fix k'
  show "sql_items (map (\<lambda>r. if qi_messageId r = k \<and> qi_encryptionFormat r = Some DM_X3DH_QUEUE_FORMAT then f r else r) db) k'
    = ((sql_items db)(k \<mapsto> f i)) k'"
  proof (cases "getById k' db")
    case None
    then have "k' \<noteq> k" using assms(3) by auto
    then show ?thesis using None by (simp add: sql_items_def getById_map assms)
  next
    case (Some r)
    note getById_id [OF Some]
    then show ?thesis
      using Some assms by (cases "k' = k") (auto simp: sql_items_def getById_map x3dh_item_def)
  qed
qed

interpretation sql_queue: reliable_queue outbound_ops sql_inv sql_items
proof (unfold_locales, goal_cases)
  case (1 s k i)
  then show ?case by (simp add: sql_items_iff)
next
  case (2 s now)
  then show ?case
    by (auto simp: outbound_ops_def pending_def due_def x3dh_item_def sql_items_iff distinct_sorted)
next
  case (3 s r)
  then show ?case
    by (auto simp: outbound_ops_def pendingForRecipient_def x3dh_item_def sql_items_iff distinct_sorted)
next
  case (4 s i)
  then show ?case
    by (auto simp: outbound_ops_def enqueue_def x3dh_item_def sql_items_def fun_eq_iff sql_inv_enqueue getById_enqueue
        split: option.split)
next
  case (5 s k i now)
  then have i: "getById k s = Some i" "x3dh_item i" by (auto simp: sql_items_def split: option.splits if_splits)
  then show ?case
    using 5(1) sql_items_update [OF _ _ i, of "attempted now (backoffMs (qi_attemptCount i))"]
    by (simp add: outbound_ops_def markAttempt_map sql_inv_map retried_def x3dh_item_def attempted_def)
next
  case (6 s k i now pf)
  then have i: "getById k s = Some i" "x3dh_item i" by (auto simp: sql_items_def split: option.splits if_splits)
  then show ?case
    using 6(1) sql_items_update [OF _ _ i, of "\<lambda>r. r\<lparr>qi_deliveryState := Delivered\<rparr>"]
    by (simp add: outbound_ops_def markDelivered_def sql_inv_map x3dh_item_def)
next
  case (7 s k i now)
  then show ?case by (simp add: outbound_ops_def)
qed

definition legacy_rows :: "outbound \<Rightarrow> outbound" where
  "legacy_rows db = filter (\<lambda>r. \<not> x3dh_item r) db"

lemma legacy_rows_map:
  "(\<And>r. x3dh_item (f r) = x3dh_item r) \<Longrightarrow>
   legacy_rows (map (\<lambda>r. if qi_messageId r = k \<and> qi_encryptionFormat r = Some DM_X3DH_QUEUE_FORMAT then f r else r) db) = legacy_rows db"
  by (induction db) (auto simp: legacy_rows_def x3dh_item_def)

interpretation sql_frame: queue_frame outbound_ops sql_inv legacy_rows
proof (unfold_locales, goal_cases)
  case (1 s i)
  have "legacy_rows (filter (\<lambda>r. qi_messageId r \<noteq> qi_messageId i) s) = legacy_rows s"
    if "\<forall>r \<in> set s. qi_messageId r = qi_messageId i \<longrightarrow> x3dh_item r"
    using that unfolding legacy_rows_def filter_filter by (intro filter_cong) auto
  moreover have "\<forall>r \<in> set s. qi_messageId r = qi_messageId i \<longrightarrow> x3dh_item r"
    if "\<not> (case getById (qi_messageId i) s of None \<Rightarrow> False
       | Some r \<Rightarrow> qi_encryptionFormat r \<noteq> Some DM_X3DH_QUEUE_FORMAT)"
  proof (intro ballI impI)
    fix r assume "r \<in> set s" "qi_messageId r = qi_messageId i"
    then have "getById (qi_messageId i) s = Some r" using 1 by (simp add: getById_iff)
    then show "x3dh_item r" using that by (simp add: x3dh_item_def)
  qed
  ultimately show ?case
    using 1 sql_inv_enqueue [OF 1, of i] by (auto simp: outbound_ops_def enqueue_def) (simp_all add: legacy_rows_def x3dh_item_def)
next
  case (2 s now k)
  then show ?case
    by (auto simp: outbound_ops_def markAttempt_def sql_inv_map legacy_rows_map attempted_def x3dh_item_def split: option.split)
next
  case (3 s now k pf)
  then show ?case by (simp add: outbound_ops_def markDelivered_def sql_inv_map legacy_rows_map x3dh_item_def)
qed

section \<open>Messages are kept and retried until they are acknowledged\<close>

lemma paced_later:
  obtains T' where "T \<le> T'" "paced T' i"
proof (cases "qi_nextAttemptAt i")
  case None
  then show ?thesis using that [of T] by (simp add: paced_def)
next
  case (Some t)
  then show ?thesis using that [of "max T t"] by (simp add: paced_def MAX_BACKOFF_MS_def)
qed

lemma timely_mono: "T \<le> T' \<Longrightarrow> timely T e \<Longrightarrow> timely T' e"
  by (auto simp: timely_def split: option.splits)

text \<open>
  C36. Nothing is lost: whatever sequence of enqueue, poll, presence and receipt events the queue
  manager handles over the SQLite queue, a queued message stays queued with its recipient and
  ciphertext until an event brings a receipt that the sender can verify for that message from that
  recipient. Rows of unknown origin (a legacy database) are never changed or removed.
\<close>

theorem queued_until_acknowledged:
  assumes "sql_inv db" "getById k db = Some i" "x3dh_item i" "qi_deliveryState i = Pending"
    and "\<forall>e \<in> set es. timely T e \<and> \<not> requeues k e"
  shows "((\<exists>i'. getById k (fst (manager_run c outbound_ops client es db)) = Some i' \<and> still_queued i i')
      \<or> (\<exists>e \<in> set es. acknowledges c (cl_identityId client) k (qi_recipientIdentityId i) e))
    \<and> legacy_rows (fst (manager_run c outbound_ops client es db)) = legacy_rows db"
proof -
  obtain T' where T': "T \<le> T'" "paced T' i" by (rule paced_later)
  have i: "sql_items db k = Some i" using assms(2,3) by (simp add: sql_items_def)
  have "\<exists>i'. getById k (fst (manager_run c outbound_ops client es db)) = Some i' \<and> still_queued i i'"
    if no_ack: "\<forall>e \<in> set es. \<not> acknowledges c (cl_identityId client) k (qi_recipientIdentityId i) e"
    using sql_queue.run_keeps [OF assms(1) _ i assms(4) T'(2) no_ack] assms(5) timely_mono [OF T'(1)]
    by (auto simp: sql_items_def split: option.splits if_splits)
  then show ?thesis using sql_frame.run_frame [OF assms(1)] by blast
qed

text \<open>
  C37. Retries never stop: a queued message that was never acknowledged is sent again by the
  first poll that comes at least the maximal back-off (30 minutes) after the last event, whatever
  happened in between and however often it was tried; the wait after an attempt is at least 30
  seconds, at most 30 minutes and never shrinks.
\<close>

theorem unacknowledged_message_resent:
  assumes "sql_inv db" "getById k db = Some i" "x3dh_item i" "qi_deliveryState i = Pending" "qi_nextAttemptAt i = None"
    and "\<forall>e \<in> set es. timely T e \<and> \<not> requeues k e" "0 \<le> T" "T + MAX_BACKOFF_MS \<le> now"
    and "\<forall>e \<in> set es. \<not> acknowledges c (cl_identityId client) k (qi_recipientIdentityId i) e"
    and "cl_online client" "cl_accepts client (toHex (qi_recipientIdentityId i)) (qi_encryptedEnvelope i)"
  shows "DmOut (toHex (qi_recipientIdentityId i)) (qi_encryptedEnvelope i)
      \<in> set (snd (manager_step c outbound_ops client (EvPoll now) (fst (manager_run c outbound_ops client es db))))
    \<and> 30000 \<le> backoffMs n \<and> backoffMs n \<le> backoffMs (n + m) \<and> backoffMs (n + m) \<le> MAX_BACKOFF_MS"
proof -
  have i: "sql_items db k = Some i" using assms(2,3) by (simp add: sql_items_def)
  have "paced T i" using assms(5) by (simp add: paced_def)
  moreover have "reaches client i" using assms(10,11) by (simp add: reaches_def sendDm_def)
  ultimately have "dm_out i \<in> set (snd (manager_step c outbound_ops client (EvPoll now) (fst (manager_run c outbound_ops client es db))))"
    by (intro sql_queue.unacknowledged_resent [OF assms(1,6-8) i assms(4) _ assms(9,10)])
  then show ?thesis using backoff_bounds backoff_mono [of n "n + m"] by (simp add: dm_out_def)
qed

definition demo_item :: queue_item where
  "demo_item = \<lparr>qi_encryptionFormat = Some DM_X3DH_QUEUE_FORMAT, qi_messageId = [1], qi_recipientIdentityId = [2],
     qi_encryptedEnvelope = [3], qi_createdAt = 1, qi_lastAttemptAt = None, qi_nextAttemptAt = None, qi_attemptCount = 0,
     qi_deliveryState = Pending\<rparr>"

definition demo_client :: dm_client where
  "demo_client = \<lparr>cl_ref = 0, cl_identityId = [9], cl_online = True, cl_accepts = (\<lambda>h e. True)\<rparr>"

lemma demo_queue: "sql_inv [demo_item]" "getById [1] [demo_item] = Some demo_item" "x3dh_item demo_item"
  "qi_deliveryState demo_item = Pending" "qi_nextAttemptAt demo_item = None" "qi_recipientIdentityId demo_item = [2]"
  "qi_encryptedEnvelope demo_item = [3]" "cl_online demo_client" "cl_accepts demo_client h e"
  by (simp_all add: sql_inv_def getById_def demo_item_def x3dh_item_def demo_client_def)

theorem queued_until_acknowledged_witness:
  "\<exists>i'. getById [1] (fst (manager_run sample_crypto outbound_ops demo_client [EvPoll 5] [demo_item])) = Some i'
     \<and> still_queued demo_item i'"
  using queued_until_acknowledged [OF demo_queue(1-4), of "[EvPoll 5]" 5 sample_crypto demo_client]
  by (simp add: timely_def requeues_def del: manager_run.simps)

theorem unacknowledged_message_resent_witness:
  "DmOut (toHex [2]) [3] \<in> set (snd (manager_step sample_crypto outbound_ops demo_client (EvPoll 2000000)
     (fst (manager_run sample_crypto outbound_ops demo_client [EvPoll 5] [demo_item]))))"
  using unacknowledged_message_resent [OF demo_queue(1-5), of "[EvPoll 5]" 5 2000000 sample_crypto demo_client]
  by (simp add: timely_def requeues_def demo_queue MAX_BACKOFF_MS_def del: manager_run.simps manager_step.simps toHex_simps)

end
