(* ===== verification/Persistent_State.thy ===== *)
theory Persistent_State
  imports Queue_Contract X3dh
begin

text \<open>
  \<open>PersistentDmState\<close> of \<open>packages/client/src/persistent-client.ts\<close>: the queue, the
  inbox, the ratchet sessions and the prekeys of a device kept in its encrypted
  \<open>DeviceStore\<close>, the transactions that commit them together, retention, and the recovery of
  a client from the store. The codec of the configuration and the text form of a ratchet session
  are parameters. \<open>rnd name\<close> is the nonce drawn when the row \<open>name\<close> is written.
\<close>

section \<open>What is stored\<close>

record message_envelope =
  me_protocolVersion :: int
  me_messageId :: bytes
  me_conversationId :: bytes
  me_senderIdentityId :: bytes
  me_senderDeviceId :: bytes
  me_recipientIdentityId :: bytes
  me_senderCertificate :: device_certificate
  me_senderSequence :: int
  me_parentIds :: "bytes list"
  me_createdAt :: int
  me_ciphertext :: bytes
  me_signature :: bytes

text \<open>The optional parts of a payload are kept together in \<open>mp_rest\<close>.\<close>

record message_payload =
  mp_contentType :: string
  mp_text :: string
  mp_rest :: jval

record inbox_message =
  im_envelope :: message_envelope
  im_payload :: message_payload
  im_receivedAt :: "int option"
  im_contentExpired :: bool

record device_credentials =
  cr_identityId :: bytes
  cr_deviceId :: bytes
  cr_rootPublicKey :: bytes
  cr_deviceSigningSecretKey :: bytes
  cr_deviceSigningPublicKey :: bytes
  cr_deviceCertificate :: device_certificate

record resource_limits =
  rl_bytes :: int
  rl_records :: int
  rl_pending :: int
  rl_pendingPerPeer :: int
  rl_inbox :: int
  rl_inboxPerPeer :: int
  rl_retentionMs :: int

datatype stored_value =
    VItem queue_item
  | VInbox inbox_message
  | VReceipt jval int
  | VCredentials device_credentials
  | VPrekeys local_prekeys

record dm_codec =
  cd_encode :: "stored_value \<Rightarrow> bytes"
  cd_decode :: "bytes \<Rightarrow> stored_value option"
  js_encode :: "serialized_ratchet \<Rightarrow> bytes"
  js_decode :: "bytes \<Rightarrow> serialized_ratchet option"

definition codec_roundtrip :: "dm_codec \<Rightarrow> bool" where
  "codec_roundtrip cd = ((\<forall>v. cd_decode cd (cd_encode cd v) = Some v) \<and> (\<forall>r. js_decode cd (js_encode cd r) = Some r))"

record dm_state =
  ps_store :: device_store
  ps_limits :: "resource_limits option"

definition DEFAULT_DEVICE_LIMITS :: resource_limits where
  "DEFAULT_DEVICE_LIMITS = \<lparr>rl_bytes = 64 * 1024 * 1024, rl_records = 20000, rl_pending = 256, rl_pendingPerPeer = 64,
     rl_inbox = 1024, rl_inboxPerPeer = 256, rl_retentionMs = 24 * 3600000\<rparr>"

section \<open>Rows\<close>

definition storage_error :: "device_error \<Rightarrow> queue_error" where
  "storage_error e = (if e = DeviceCapacity then QueueCapacity else StorageFailed)"

definition dm_get :: "crypto \<Rightarrow> string \<Rightarrow> dm_state \<Rightarrow> queue_error + bytes option" where
  "dm_get c name st = (case device_get c name (ps_store st) of Inl e \<Rightarrow> Inl (storage_error e) | Inr v \<Rightarrow> Inr v)"

definition dm_put :: "crypto \<Rightarrow> (string \<Rightarrow> bytes) \<Rightarrow> string \<Rightarrow> bytes \<Rightarrow> dm_state \<Rightarrow> dm_state \<times> (queue_error + unit)" where
  "dm_put c rnd name v st =
     (case device_put c (rnd name) name v (ps_store st) of
        (s, Inl e) \<Rightarrow> (st\<lparr>ps_store := s\<rparr>, Inl (storage_error e))
      | (s, Inr _) \<Rightarrow> (st\<lparr>ps_store := s\<rparr>, Inr ()))"

definition dm_read :: "crypto \<Rightarrow> dm_codec \<Rightarrow> string \<Rightarrow> dm_state \<Rightarrow> queue_error + stored_value" where
  "dm_read c cd name st =
     sbind (dm_get c name st) (\<lambda>blob.
       case blob of
         None \<Rightarrow> Inl MissingState
       | Some b \<Rightarrow> (case cd_decode cd b of None \<Rightarrow> Inl StorageFailed | Some v \<Rightarrow> Inr v))"

definition dm_write :: "crypto \<Rightarrow> dm_codec \<Rightarrow> (string \<Rightarrow> bytes) \<Rightarrow> string \<Rightarrow> stored_value \<Rightarrow> dm_state \<Rightarrow> dm_state \<times> (queue_error + unit)" where
  "dm_write c cd rnd name v st = dm_put c rnd name (cd_encode cd v) st"

text \<open>\<open>read<T>\<close> at the types the code uses; a row of another type would fail at its first use.\<close>

fun as_item :: "stored_value \<Rightarrow> queue_error + queue_item" where
  "as_item (VItem i) = Inr i" | "as_item _ = Inl StorageFailed"

fun as_inbox :: "stored_value \<Rightarrow> queue_error + inbox_message" where
  "as_inbox (VInbox m) = Inr m" | "as_inbox _ = Inl StorageFailed"

fun as_credentials :: "stored_value \<Rightarrow> queue_error + device_credentials" where
  "as_credentials (VCredentials x) = Inr x" | "as_credentials _ = Inl StorageFailed"

fun as_prekeys :: "stored_value \<Rightarrow> queue_error + local_prekeys" where
  "as_prekeys (VPrekeys x) = Inr x" | "as_prekeys _ = Inl StorageFailed"

definition read_item :: "crypto \<Rightarrow> dm_codec \<Rightarrow> string \<Rightarrow> dm_state \<Rightarrow> queue_error + queue_item" where
  "read_item c cd name st = sbind (dm_read c cd name st) as_item"

definition read_inbox :: "crypto \<Rightarrow> dm_codec \<Rightarrow> string \<Rightarrow> dm_state \<Rightarrow> queue_error + inbox_message" where
  "read_inbox c cd name st = sbind (dm_read c cd name st) as_inbox"

definition dm_credentials :: "crypto \<Rightarrow> dm_codec \<Rightarrow> dm_state \<Rightarrow> queue_error + device_credentials" where
  "dm_credentials c cd st = sbind (dm_read c cd ''credentials:v1'' st) as_credentials"

definition dm_prekeys :: "crypto \<Rightarrow> dm_codec \<Rightarrow> dm_state \<Rightarrow> queue_error + local_prekeys" where
  "dm_prekeys c cd st = sbind (dm_read c cd ''prekeys:v1'' st) as_prekeys"

definition dm_session :: "crypto \<Rightarrow> dm_codec \<Rightarrow> string \<Rightarrow> dm_state \<Rightarrow> queue_error + ratchet_state option" where
  "dm_session c cd key st =
     sbind (dm_get c (''ratchet:'' @ key) st) (\<lambda>blob.
       case blob of
         None \<Rightarrow> Inr None
       | Some b \<Rightarrow> (case js_decode cd b of None \<Rightarrow> Inl StorageFailed | Some r \<Rightarrow> Inr (Some (deserializeState r))))"

definition dm_saveSession ::
  "crypto \<Rightarrow> dm_codec \<Rightarrow> (string \<Rightarrow> bytes) \<Rightarrow> string \<Rightarrow> ratchet_state \<Rightarrow> dm_state \<Rightarrow> dm_state \<times> (queue_error + unit)" where
  "dm_saveSession c cd rnd key state st = dm_put c rnd (''ratchet:'' @ key) (js_encode cd (serializeState state)) st"

text \<open>Sequencing of writes: the first failure ends the operation.\<close>

definition then_do :: "('s \<times> ('e + 'a)) \<Rightarrow> ('a \<Rightarrow> 's \<Rightarrow> 's \<times> ('e + 'b)) \<Rightarrow> 's \<times> ('e + 'b)" where
  "then_do m f = (case m of (s, Inl e) \<Rightarrow> (s, Inl e) | (s, Inr x) \<Rightarrow> f x s)"

fun traverse :: "('a \<Rightarrow> 'e + 'b) \<Rightarrow> 'a list \<Rightarrow> 'e + 'b list" where
  "traverse f [] = Inr []"
| "traverse f (x # xs) = sbind (f x) (\<lambda>y. sbind (traverse f xs) (\<lambda>ys. Inr (y # ys)))"

section \<open>The queue\<close>

definition queue_key :: "bytes \<Rightarrow> string" where "queue_key messageId = ''queue:'' @ toHex messageId"
definition receipt_key :: "bytes \<Rightarrow> string" where "receipt_key messageId = ''receipt:'' @ toHex messageId"
definition inbox_key :: "bytes \<Rightarrow> string" where "inbox_key messageId = ''inbox:'' @ toHex messageId"

definition dm_items :: "crypto \<Rightarrow> dm_codec \<Rightarrow> dm_state \<Rightarrow> queue_error + queue_item list" where
  "dm_items c cd st =
     sbind (traverse (\<lambda>key. read_item c cd key st) (device_keys ''queue:'' (ps_store st))) (\<lambda>is.
       Inr (filter (\<lambda>i. qi_deliveryState i = Pending) is))"

definition dm_pending :: "crypto \<Rightarrow> dm_codec \<Rightarrow> int \<Rightarrow> dm_state \<Rightarrow> queue_error + queue_item list" where
  "dm_pending c cd now st =
     sbind (dm_items c cd st) (\<lambda>is. Inr (filter (\<lambda>i. case qi_nextAttemptAt i of None \<Rightarrow> True | Some t \<Rightarrow> t = 0 \<or> t \<le> now) is))"

definition dm_pendingForRecipient :: "crypto \<Rightarrow> dm_codec \<Rightarrow> bytes \<Rightarrow> dm_state \<Rightarrow> queue_error + queue_item list" where
  "dm_pendingForRecipient c cd identity st =
     sbind (dm_items c cd st) (\<lambda>is. Inr (filter (\<lambda>i. toHex (qi_recipientIdentityId i) = toHex identity) is))"

definition queue_full :: "crypto \<Rightarrow> dm_codec \<Rightarrow> bytes \<Rightarrow> dm_state \<Rightarrow> queue_error + bool" where
  "queue_full c cd recipient st =
     (case ps_limits st of
        None \<Rightarrow> Inr False
      | Some lim \<Rightarrow>
          sbind (dm_items c cd st) (\<lambda>is.
          if int (length is) \<ge> rl_pending lim then Inr True
          else sbind (dm_pendingForRecipient c cd recipient st) (\<lambda>ps. Inr (int (length ps) \<ge> rl_pendingPerPeer lim))))"

definition dm_enqueue ::
  "crypto \<Rightarrow> dm_codec \<Rightarrow> (string \<Rightarrow> bytes) \<Rightarrow> queue_item \<Rightarrow> dm_state \<Rightarrow> dm_state \<times> (queue_error + unit)" where
  "dm_enqueue c cd rnd item st =
     (if qi_encryptionFormat item \<noteq> Some DM_X3DH_QUEUE_FORMAT then (st, Inl LacksProvenance)
      else
        (case dm_get c (queue_key (qi_messageId item)) st of
           Inl e \<Rightarrow> (st, Inl e)
         | Inr (Some _) \<Rightarrow> (st, Inl AlreadyQueued)
         | Inr None \<Rightarrow>
             (case queue_full c cd (qi_recipientIdentityId item) st of
                Inl e \<Rightarrow> (st, Inl e)
              | Inr full \<Rightarrow>
                  (if full then (st, Inl QueueCapacity)
                   else dm_write c cd rnd (queue_key (qi_messageId item)) (VItem item) st))))"

definition dm_markAttempt ::
  "crypto \<Rightarrow> dm_codec \<Rightarrow> (string \<Rightarrow> bytes) \<Rightarrow> int \<Rightarrow> bytes \<Rightarrow> dm_state \<Rightarrow> dm_state \<times> (queue_error + unit)" where
  "dm_markAttempt c cd rnd now i st =
     (case read_item c cd (queue_key i) st of
        Inl e \<Rightarrow> (st, Inl e)
      | Inr item \<Rightarrow>
          (if qi_deliveryState item \<noteq> Pending then (st, Inr ())
           else dm_write c cd rnd (queue_key i) (VItem (attempted now (backoffMs (qi_attemptCount item)) item)) st))"

definition dm_markDelivered ::
  "crypto \<Rightarrow> dm_codec \<Rightarrow> (string \<Rightarrow> bytes) \<Rightarrow> int \<Rightarrow> bytes \<Rightarrow> jval \<Rightarrow> dm_state \<Rightarrow> dm_state \<times> (queue_error + unit)" where
  "dm_markDelivered c cd rnd verifiedAt i pf st =
     (case dm_credentials c cd st of
        Inl e \<Rightarrow> (st, Inl e)
      | Inr cr \<Rightarrow>
          (case read_item c cd (queue_key i) st of
             Inl e \<Rightarrow> (st, Inl e)
           | Inr item \<Rightarrow>
               (case verifyDeliveryReceipt c pf (cr_identityId cr) verifiedAt of
                  None \<Rightarrow> (st, Inl ReceiptRequired)
                | Some receipt \<Rightarrow>
                    (if dr_messageId receipt \<noteq> i \<or> dr_recipientIdentityId receipt \<noteq> qi_recipientIdentityId item
                     then (st, Inl ReceiptRequired)
                     else transaction (\<lambda>s. then_do (dm_write c cd rnd (receipt_key i) (VReceipt pf verifiedAt) s)
                       (\<lambda>_. dm_write c cd rnd (queue_key i) (VItem (item\<lparr>qi_deliveryState := Delivered\<rparr>)))) st))))"

definition dm_ops :: "crypto \<Rightarrow> dm_codec \<Rightarrow> (string \<Rightarrow> bytes) \<Rightarrow> dm_state queue_ops" where
  "dm_ops c cd rnd = \<lparr>qo_enqueue = dm_enqueue c cd rnd, qo_pending = dm_pending c cd,
     qo_pendingForRecipient = dm_pendingForRecipient c cd, qo_markDelivered = dm_markDelivered c cd rnd,
     qo_markAttempt = dm_markAttempt c cd rnd\<rparr>"

section \<open>The inbox and the commits\<close>

definition hasIncoming :: "crypto \<Rightarrow> bytes \<Rightarrow> dm_state \<Rightarrow> queue_error + bool" where
  "hasIncoming c i st = sbind (dm_get c (inbox_key i) st) (\<lambda>v. Inr (v \<noteq> None))"

definition inbox :: "crypto \<Rightarrow> dm_codec \<Rightarrow> dm_state \<Rightarrow> queue_error + inbox_message list" where
  "inbox c cd st = traverse (\<lambda>key. read_inbox c cd key st) (device_keys ''inbox:'' (ps_store st))"

definition inbox_full :: "crypto \<Rightarrow> dm_codec \<Rightarrow> bytes \<Rightarrow> dm_state \<Rightarrow> queue_error + bool" where
  "inbox_full c cd sender st =
     (case ps_limits st of
        None \<Rightarrow> Inr False
      | Some lim \<Rightarrow>
          sbind (inbox c cd st) (\<lambda>ms.
            let live = filter (\<lambda>m. \<not> im_contentExpired m) ms in
            Inr (int (length live) \<ge> rl_inbox lim
              \<or> int (length (filter (\<lambda>m. toHex (me_senderIdentityId (im_envelope m)) = toHex sender) live)) \<ge> rl_inboxPerPeer lim)))"

definition receive_writes ::
  "crypto \<Rightarrow> dm_codec \<Rightarrow> (string \<Rightarrow> bytes) \<Rightarrow> int \<Rightarrow> string \<Rightarrow> ratchet_state \<Rightarrow> local_prekeys option \<Rightarrow> inbox_message
     \<Rightarrow> dm_state \<Rightarrow> dm_state \<times> (queue_error + bool)" where
  "receive_writes c cd rnd now sessionKey state prekeys message st =
     then_do (dm_saveSession c cd rnd sessionKey state st) (\<lambda>_ s1.
     then_do (case prekeys of None \<Rightarrow> (s1, Inr ()) | Some pk \<Rightarrow> dm_write c cd rnd ''prekeys:v1'' (VPrekeys pk) s1) (\<lambda>_ s2.
     then_do (dm_write c cd rnd (inbox_key (me_messageId (im_envelope message)))
         (VInbox (message\<lparr>im_receivedAt := Some now\<rparr>)) s2) (\<lambda>_ s3.
     (s3, Inr True))))"

definition commitReceive ::
  "crypto \<Rightarrow> dm_codec \<Rightarrow> (string \<Rightarrow> bytes) \<Rightarrow> int \<Rightarrow> string \<Rightarrow> ratchet_state \<Rightarrow> local_prekeys option \<Rightarrow> inbox_message
     \<Rightarrow> dm_state \<Rightarrow> dm_state \<times> (queue_error + bool)" where
  "commitReceive c cd rnd now sessionKey state prekeys message =
     transaction (\<lambda>st.
       case hasIncoming c (me_messageId (im_envelope message)) st of
         Inl e \<Rightarrow> (st, Inl e)
       | Inr True \<Rightarrow> (st, Inr False)
       | Inr False \<Rightarrow>
           (case inbox_full c cd (me_senderIdentityId (im_envelope message)) st of
              Inl e \<Rightarrow> (st, Inl e)
            | Inr True \<Rightarrow> (st, Inl QueueCapacity)
            | Inr False \<Rightarrow> receive_writes c cd rnd now sessionKey state prekeys message st))"

text \<open>\<open>commitMetadata\<close> is the caller's callback; without one it does nothing.\<close>

definition commitSend ::
  "crypto \<Rightarrow> dm_codec \<Rightarrow> (string \<Rightarrow> bytes) \<Rightarrow> string \<Rightarrow> ratchet_state \<Rightarrow> queue_item
     \<Rightarrow> (bytes \<Rightarrow> dm_state \<Rightarrow> dm_state \<times> (queue_error + unit)) option \<Rightarrow> dm_state \<Rightarrow> dm_state \<times> (queue_error + unit)" where
  "commitSend c cd rnd sessionKey state item commitMetadata =
     transaction (\<lambda>st.
       then_do (dm_saveSession c cd rnd sessionKey state st) (\<lambda>_ s1.
       then_do (dm_enqueue c cd rnd item s1) (\<lambda>_ s2.
       case commitMetadata of None \<Rightarrow> (s2, Inr ()) | Some f \<Rightarrow> f (qi_messageId item) s2)))"

section \<open>Limits and retention\<close>

definition configureLimits :: "resource_limits \<Rightarrow> dm_state \<Rightarrow> dm_state \<times> (queue_error + unit)" where
  "configureLimits lim st =
     (if list_ex (\<lambda>v. \<not> safe_int v \<or> v < 1) [rl_bytes lim, rl_records lim, rl_pending lim, rl_pendingPerPeer lim,
           rl_inbox lim, rl_inboxPerPeer lim, rl_retentionMs lim]
      then (st, Inl InvalidResourceLimits)
      else
        (case setLimits \<lparr>lm_bytes = rl_bytes lim, lm_records = rl_records lim\<rparr> (ps_store st) of
           (s, Inl e) \<Rightarrow> (\<lparr>ps_store = s, ps_limits = Some lim\<rparr>, Inl (storage_error e))
         | (s, Inr _) \<Rightarrow> (\<lparr>ps_store = s, ps_limits = Some lim\<rparr>, Inr ())))"

definition receipt_time :: "dm_codec \<Rightarrow> bytes \<Rightarrow> queue_error + int" where
  "receipt_time cd b = (case cd_decode cd b of Some (VReceipt _ t) \<Rightarrow> Inr t | _ \<Rightarrow> Inl StorageFailed)"

definition retain_item :: "crypto \<Rightarrow> dm_codec \<Rightarrow> (string \<Rightarrow> bytes) \<Rightarrow> int \<Rightarrow> string \<Rightarrow> dm_state \<Rightarrow> dm_state \<times> (queue_error + unit)" where
  "retain_item c cd rnd cutoff name st =
     (case read_item c cd name st of
        Inl e \<Rightarrow> (st, Inl e)
      | Inr item \<Rightarrow>
          (case dm_get c (receipt_key (qi_messageId item)) st of
             Inl e \<Rightarrow> (st, Inl e)
           | Inr receipt \<Rightarrow>
               (case receipt of
                  Some b \<Rightarrow>
                    (if qi_deliveryState item = Delivered \<and> qi_encryptedEnvelope item \<noteq> [] then
                       (case receipt_time cd b of
                          Inl e \<Rightarrow> (st, Inl e)
                        | Inr t \<Rightarrow>
                            (if t \<le> cutoff then dm_write c cd rnd name (VItem (item\<lparr>qi_encryptedEnvelope := []\<rparr>)) st
                             else (st, Inr ())))
                     else (st, Inr ()))
                | None \<Rightarrow> (st, Inr ()))))"

definition retain_message :: "crypto \<Rightarrow> dm_codec \<Rightarrow> (string \<Rightarrow> bytes) \<Rightarrow> int \<Rightarrow> string \<Rightarrow> dm_state \<Rightarrow> dm_state \<times> (queue_error + unit)" where
  "retain_message c cd rnd cutoff name st =
     (case read_inbox c cd name st of
        Inl e \<Rightarrow> (st, Inl e)
      | Inr m \<Rightarrow>
          (case im_receivedAt m of
             None \<Rightarrow> (st, Inr ())
           | Some t \<Rightarrow>
               (if im_contentExpired m \<or> t > cutoff then (st, Inr ())
                else
                  (case (if mp_contentType (im_payload m) = ''text'' then Inr True
                         else if mp_contentType (im_payload m) \<noteq> ''agent_capabilities'' then Inr False
                         else sbind (dm_get c (''capabilities:v1:seen:'' @ name) st) (\<lambda>v. Inr (v \<noteq> None))) of
                     Inl e \<Rightarrow> (st, Inl e)
                   | Inr disposable \<Rightarrow>
                       (if disposable then dm_write c cd rnd name
                          (VInbox \<lparr>im_envelope = (im_envelope m)\<lparr>me_ciphertext := []\<rparr>,
                             im_payload = \<lparr>mp_contentType = ''text'', mp_text = '''', mp_rest = JNull\<rparr>,
                             im_receivedAt = Some t, im_contentExpired = True\<rparr>) st
                        else (st, Inr ()))))))"

fun each_row :: "(string \<Rightarrow> 's \<Rightarrow> 's \<times> ('e + unit)) \<Rightarrow> string list \<Rightarrow> 's \<Rightarrow> 's \<times> ('e + unit)" where
  "each_row f [] st = (st, Inr ())"
| "each_row f (n # ns) st = then_do (f n st) (\<lambda>_. each_row f ns)"

definition retain :: "crypto \<Rightarrow> dm_codec \<Rightarrow> (string \<Rightarrow> bytes) \<Rightarrow> int \<Rightarrow> dm_state \<Rightarrow> dm_state \<times> (queue_error + unit)" where
  "retain c cd rnd now st =
     (case ps_limits st of
        None \<Rightarrow> (st, Inr ())
      | Some lim \<Rightarrow>
          (let cutoff = now - rl_retentionMs lim in
           transaction (\<lambda>s.
             then_do (each_row (retain_item c cd rnd cutoff) (device_keys ''queue:'' (ps_store s)) s) (\<lambda>_ s1.
             each_row (retain_message c cd rnd cutoff) (device_keys ''inbox:'' (ps_store s1)) s1)) st))"

section \<open>Recovery\<close>

definition validateCredentials :: "crypto \<Rightarrow> device_credentials \<Rightarrow> bool" where
  "validateCredentials c cr =
     (identityIdFromWallet c (cr_rootPublicKey cr) = cr_identityId cr
      \<and> dc_accountId (cr_deviceCertificate cr) = cr_identityId cr
      \<and> dc_deviceId (cr_deviceCertificate cr) = cr_deviceId cr
      \<and> dc_signingKey (cr_deviceCertificate cr) = cr_deviceSigningPublicKey cr
      \<and> ed_public c (cr_deviceSigningSecretKey cr) = cr_deviceSigningPublicKey cr
      \<and> verifyDeviceCert c (cr_deviceCertificate cr) (cr_rootPublicKey cr) = Some True)"

text \<open>
  \<open>recover\<close> on the files of the device directory: the rows of \<open>device.db\<close> afterwards, and
  the recovered state with the credentials and the bundle that is published, or the error.
\<close>

definition recover ::
  "crypto \<Rightarrow> dm_codec \<Rightarrow> (string \<Rightarrow> bytes) \<Rightarrow> dh_pair \<Rightarrow> dh_pair \<Rightarrow> dh_pair list \<Rightarrow> bool \<Rightarrow> bytes \<Rightarrow> device_credentials option
     \<Rightarrow> device_row list option \<Rightarrow> device_row list option \<times> (queue_error + dm_state \<times> device_credentials \<times> prekey_bundle)" where
  "recover c cd rnd identityDh signedPrekey oneTime owned unlockKey initial disk =
     (case device_open c (rnd ''format'') owned unlockKey (initial \<noteq> None) disk of
        (disk1, Inl e) \<Rightarrow> (disk1, Inl (CannotOpen e))
      | (disk1, Inr store) \<Rightarrow>
          (let st0 = \<lparr>ps_store = store, ps_limits = None\<rparr>;
               created = (case initial of
                 None \<Rightarrow> (st0, Inr ())
               | Some cr \<Rightarrow>
                   (if \<not> validateCredentials c cr then (st0, Inl InvalidCredentials)
                    else transaction (\<lambda>s. then_do (dm_write c cd rnd ''credentials:v1'' (VCredentials cr) s)
                      (\<lambda>_. dm_write c cd rnd ''prekeys:v1''
                         (VPrekeys (createLocalPrekeys c identityDh signedPrekey oneTime (cr_deviceSigningSecretKey cr))))) st0)) in
           case created of
             (s, Inl e) \<Rightarrow> (Some (ds_rows (ps_store s)), Inl e)
           | (s, Inr _) \<Rightarrow>
               (Some (ds_rows (ps_store s)),
                sbind (dm_credentials c cd s) (\<lambda>cr.
                if \<not> validateCredentials c cr then Inl InvalidCredentials
                else sbind (dm_prekeys c cd s) (\<lambda>pk. Inr (s, cr, exportBundle pk (cr_deviceSigningPublicKey cr)))))))"

end
