(* ===== verification/Dm.thy ===== *)
theory Dm
  imports Prekey_Network Persistent_State
begin

text \<open>
  Direct messages (\<open>packages/client/src/dm.ts\<close>): conversation ids, the X3DH prefix of a first
  message, sending and receiving, for clients with and without persistent state, together with the
  parts of \<open>client.ts\<close> they call. \<open>nexnet_client\<close> is what a client is configured with,
  \<open>dm_world\<close> what changes. The results of awaited calls (the resolver of certificates, the
  presence service) are arguments; from the last of them on, an operation runs without
  interruption. The codec of the configuration is the record \<open>message_codec\<close>; what decodes to
  something else than an envelope or a payload is \<open>None\<close>.
\<close>

section \<open>Clients\<close>

record nexnet_client =
  nc_identityId :: bytes
  nc_deviceId :: bytes
  nc_signingSecretKey :: bytes
  nc_rootPublicKey :: "bytes option"
  nc_deviceSigningSecretKey :: "bytes option"
  nc_deviceSigningPublicKey :: "bytes option"
  nc_deviceCertificate :: "device_certificate option"
  nc_online :: bool
  nc_presence :: bool
  nc_accepts :: "string \<Rightarrow> bool"
  nc_direct :: "string \<Rightarrow> bool"

record message_codec =
  mc_value :: "jval \<Rightarrow> bytes"
  mc_payload :: "message_payload \<Rightarrow> bytes"
  mc_payload_decode :: "bytes \<Rightarrow> message_payload option"
  mc_envelope :: "message_envelope \<Rightarrow> bytes"
  mc_envelope_decode :: "bytes \<Rightarrow> message_envelope option"

definition message_roundtrip :: "message_codec \<Rightarrow> bool" where
  "message_roundtrip mc = ((\<forall>p. mc_payload_decode mc (mc_payload mc p) = Some p)
     \<and> (\<forall>e. mc_envelope_decode mc (mc_envelope mc e) = Some e))"

record dm_world =
  dw_persistent :: "dm_state option"
  dw_sessions :: ratchet_sessions
  dw_network :: prekey_network
  dw_queue :: outbound
  dw_log :: event_log

datatype dm_error =
    RequiresTransactionalOutbox | MetadataRequiresPersistence | CertificateRequired_dm | CertificateExpired
  | InvalidCertificate | PrekeysRequired | DirectSessionRequired
  | StateError queue_error | RatchetError ratchet_error | AgreementError x3dh_error | FetchError network_error
  | CryptoFailed_dm | MalformedPayload

datatype client_out =
    OutDirect string bytes
  | OutDm string bytes
  | OutReceipt string "(string \<times> jval) list"
  | OutPublish prekey_bundle
  | OutDelivered message_envelope message_payload
  | OutReceiveFailed dm_error
  | OutReceiptFailed

definition identitySigner :: "crypto \<Rightarrow> nexnet_client \<Rightarrow> identity_signer" where
  "identitySigner c client =
     (case (nc_deviceCertificate client, nc_deviceSigningSecretKey client, nc_rootPublicKey client) of
        (Some cert, Some sk, Some root) \<Rightarrow> \<lparr>is_rootPublicKey = root, is_secretKey = sk, is_certificate = Some cert\<rparr>
      | _ \<Rightarrow> \<lparr>is_rootPublicKey = (case nc_rootPublicKey client of Some r \<Rightarrow> r | None \<Rightarrow> ed_public c (nc_signingSecretKey client)),
             is_secretKey = nc_signingSecretKey client, is_certificate = None\<rparr>)"

text \<open>\<open>sendDeliveryReceipt\<close>; \<open>nc_accepts\<close> is whether \<open>sendWs\<close> succeeds.\<close>

definition sendDeliveryReceipt :: "crypto \<Rightarrow> int \<Rightarrow> nexnet_client \<Rightarrow> string \<Rightarrow> bytes \<Rightarrow> client_out list" where
  "sendDeliveryReceipt c now client toIdentityHex messageId =
     (if \<not> nc_online client then []
      else if length toIdentityHex \<noteq> 64 \<or> \<not> list_all is_hex toIdentityHex then [OutReceiptFailed]
      else case signDeliveryReceipt c (identitySigner c client) \<lparr>dr_version = 2, dr_senderIdentityId = buffer_hex toIdentityHex,
              dr_recipientIdentityId = nc_identityId client, dr_messageId = messageId, dr_recipientDeviceId = nc_deviceId client,
              dr_storedAt = now\<rparr> of
        Inl _ \<Rightarrow> [OutReceiptFailed]
      | Inr receipt \<Rightarrow> (if nc_accepts client toIdentityHex then [OutReceipt toIdentityHex receipt] else [OutReceiptFailed]))"

text \<open>The key of the local event log, and the messages it holds.\<close>

definition incoming_key :: "crypto \<Rightarrow> nexnet_client \<Rightarrow> bytes" where
  "incoming_key c client = hkdf c (nc_signingSecretKey client) (nc_identityId client @ nc_deviceId client)
     (utf8 ''nexnet local event log key v1'') 32"

definition hasIncomingMessage :: "crypto \<Rightarrow> bytes \<Rightarrow> dm_world \<Rightarrow> queue_error + bool" where
  "hasIncomingMessage c messageId w =
     (case dw_persistent w of Some st \<Rightarrow> hasIncoming c messageId st | None \<Rightarrow> Inr (log_contains messageId (dw_log w)))"

text \<open>\<open>persistIncomingMessage\<close> of a client without persistent state.\<close>

definition persistIncomingMessage :: "crypto \<Rightarrow> int \<Rightarrow> nexnet_client \<Rightarrow> bytes \<Rightarrow> bytes \<Rightarrow> dm_world \<Rightarrow> dm_world \<times> bool" where
  "persistIncomingMessage c now client messageId envelope w =
     (if log_contains messageId (dw_log w) then (w, False)
      else (w\<lparr>dw_log := log_append c (incoming_key c client) now messageId envelope (dw_log w)\<rparr>, True))"

section \<open>Certificates\<close>

definition sameCertificate :: "device_certificate \<Rightarrow> device_certificate \<Rightarrow> bool" where
  "sameCertificate a b =
     (sameBytes (dc_accountId a) (dc_accountId b) \<and> sameBytes (dc_deviceId a) (dc_deviceId b)
      \<and> sameBytes (dc_signingKey a) (dc_signingKey b) \<and> sameBytes (dc_encryptionKey a) (dc_encryptionKey b)
      \<and> dc_issuedAt a = dc_issuedAt b \<and> dc_expiresAt a = dc_expiresAt b \<and> dc_capabilities a = dc_capabilities b
      \<and> sameBytes (dc_rootSignature a) (dc_rootSignature b))"

text \<open>
  \<open>senderCertificate\<close>; \<open>registered\<close> is what the resolver would answer (\<open>None\<close> without one).
\<close>

definition senderCertificate ::
  "crypto \<Rightarrow> int \<Rightarrow> nexnet_client \<Rightarrow> device_certificate option \<Rightarrow> dm_error + device_certificate" where
  "senderCertificate c now client registered =
     (case (nc_deviceCertificate client, nc_deviceSigningPublicKey client, nc_deviceSigningSecretKey client) of
        (Some cert, Some signingPublic, Some _) \<Rightarrow>
          (if dc_expiresAt cert \<le> now then Inl CertificateExpired
           else if \<not> sameBytes (dc_accountId cert) (nc_identityId client) \<or> \<not> sameBytes (dc_deviceId cert) (nc_deviceId client)
                \<or> \<not> sameBytes (dc_signingKey cert) signingPublic \<or> dc_issuedAt cert > now then Inl InvalidCertificate
           else case Option.bind (nc_rootPublicKey client) (\<lambda>root. Some (verifyDeviceCert c cert root)) of
             Some None \<Rightarrow> Inl CryptoFailed_dm
           | Some (Some True) \<Rightarrow> Inr cert
           | _ \<Rightarrow> (case registered of
               None \<Rightarrow> Inl InvalidCertificate
             | Some r \<Rightarrow> if sameCertificate cert r then Inr cert else Inl InvalidCertificate))
      | _ \<Rightarrow> Inl CertificateRequired_dm)"

section \<open>Conversations\<close>

definition DOMAIN_CONVERSATION_ID :: string where "DOMAIN_CONVERSATION_ID = ''nexnet conversation id v1''"

fun compareBytes :: "bytes \<Rightarrow> bytes \<Rightarrow> int" where
  "compareBytes (x # xs) (y # ys) = (if x \<noteq> y then uint x - uint y else compareBytes xs ys)"
| "compareBytes a b = int (length a) - int (length b)"

text \<open>A value of at most 32 bytes copied into a zeroed field of 32 bytes; ids and keys have 32.\<close>

definition field32 :: "bytes \<Rightarrow> bytes" where
  "field32 b = take 32 (b @ replicate 32 0)"

definition deriveConversationId :: "crypto \<Rightarrow> bytes \<Rightarrow> bytes \<Rightarrow> bytes" where
  "deriveConversationId c a b =
     (let (first, second) = (if compareBytes a b \<le> 0 then (a, b) else (b, a)) in
      deriveId c DOMAIN_CONVERSATION_ID (field32 first @ field32 second))"

section \<open>The X3DH prefix\<close>

definition DM_WIRE_X3DH :: byte where "DM_WIRE_X3DH = 2"
definition X3DH_PREFIX_LEN :: nat where "X3DH_PREFIX_LEN = 1 + 32 + 32 + 4"

record x3dh_prefix =
  xp_identityDhPublic :: bytes
  xp_ekPublic :: bytes
  xp_otpId :: "nat option"
  xp_ratchetBlob :: bytes

definition encodeX3dhPrefix :: "bytes \<Rightarrow> bytes \<Rightarrow> nat option \<Rightarrow> bytes" where
  "encodeX3dhPrefix identityDhPublic ekPublic otpId =
     DM_WIRE_X3DH # field32 identityDhPublic @ field32 ekPublic @ put32 (case otpId of None \<Rightarrow> 0 | Some i \<Rightarrow> i)"

definition decodeX3dhPrefix :: "bytes \<Rightarrow> x3dh_prefix option" where
  "decodeX3dhPrefix blob =
     (if length blob < X3DH_PREFIX_LEN + 2 \<or> hd blob \<noteq> DM_WIRE_X3DH then None
      else let otpRaw = be32 (take 4 (drop 65 blob)) in
        Some \<lparr>xp_identityDhPublic = take 32 (drop 1 blob), xp_ekPublic = take 32 (drop 33 blob),
          xp_otpId = (if otpRaw = 0 then None else Some otpRaw), xp_ratchetBlob = drop X3DH_PREFIX_LEN blob\<rparr>)"

section \<open>What is encoded\<close>

definition dm_aad :: "message_codec \<Rightarrow> bytes \<Rightarrow> bytes \<Rightarrow> bytes \<Rightarrow> bytes" where
  "dm_aad mc conversationId sender recipient = mc_value mc (JObj [
     (''conversationId'', JBytes conversationId), (''senderIdentityId'', JBytes sender), (''recipientIdentityId'', JBytes recipient)])"

definition certificate_value :: "device_certificate \<Rightarrow> jval" where
  "certificate_value d = JObj [(''accountId'', JBytes (dc_accountId d)), (''deviceId'', JBytes (dc_deviceId d)),
     (''deviceSigningPublicKey'', JBytes (dc_signingKey d)), (''deviceEncryptionPublicKey'', JBytes (dc_encryptionKey d)),
     (''issuedAt'', JNum (dc_issuedAt d)), (''expiresAt'', JNum (dc_expiresAt d)), (''capabilities'', JNum (dc_capabilities d)),
     (''rootSignature'', JBytes (dc_rootSignature d))]"

definition envelope_object :: "message_envelope \<Rightarrow> jval" where
  "envelope_object e = JObj [
     (''protocolVersion'', JNum (me_protocolVersion e)), (''messageId'', JBytes (me_messageId e)),
     (''conversationId'', JBytes (me_conversationId e)), (''senderIdentityId'', JBytes (me_senderIdentityId e)),
     (''senderDeviceId'', JBytes (me_senderDeviceId e)), (''recipientIdentityId'', JBytes (me_recipientIdentityId e)),
     (''senderCertificate'', certificate_value (me_senderCertificate e)), (''senderSequence'', JNum (me_senderSequence e)),
     (''parentIds'', JArr (map JBytes (me_parentIds e))), (''createdAt'', JNum (me_createdAt e)),
     (''ciphertext'', JBytes (me_ciphertext e))]"

definition envelope_preimage :: "message_codec \<Rightarrow> message_envelope \<Rightarrow> bytes" where
  "envelope_preimage mc e = mc_value mc (envelope_object e)"

definition message_id :: "crypto \<Rightarrow> message_codec \<Rightarrow> bytes \<Rightarrow> bytes \<Rightarrow> bytes \<Rightarrow> int \<Rightarrow> bytes \<Rightarrow> bytes \<Rightarrow> bytes" where
  "message_id c mc conversationId sender recipient now nonce payloadCde = deriveId c DOMAIN_EVENT_ID (mc_value mc (JObj [
     (''conversationId'', JBytes conversationId), (''senderIdentityId'', JBytes sender), (''recipientIdentityId'', JBytes recipient),
     (''createdAt'', JNum now), (''nonce'', JBytes nonce), (''payloadCde'', JBytes payloadCde)]))"

section \<open>Sessions and prekeys of a client\<close>

text \<open>\<open>client.persistentState ? client.persistentState.session(key) : getSession(key)\<close>.\<close>

definition current_session :: "crypto \<Rightarrow> dm_codec \<Rightarrow> string \<Rightarrow> dm_world \<Rightarrow> dm_world \<times> (dm_error + ratchet_state option)" where
  "current_session c cd key w =
     (case dw_persistent w of
        Some st \<Rightarrow> (w, case dm_session c cd key st of Inl e \<Rightarrow> Inl (StateError e) | Inr s \<Rightarrow> Inr s)
      | None \<Rightarrow> (case getSession_ratchet key (dw_sessions w) of (sn, s) \<Rightarrow> (w\<lparr>dw_sessions := sn\<rparr>, Inr s)))"

definition local_material :: "crypto \<Rightarrow> dm_codec \<Rightarrow> nexnet_client \<Rightarrow> dm_world \<Rightarrow> dm_error + local_prekeys option" where
  "local_material c cd client w =
     (case dw_persistent w of
        Some st \<Rightarrow> (case dm_prekeys c cd st of Inl e \<Rightarrow> Inl (StateError e) | Inr m \<Rightarrow> Inr (Some m))
      | None \<Rightarrow> Inr (getLocalPrekeys (nc_identityId client) (pn_directory (dw_network w))))"

section \<open>Receiving\<close>

text \<open>
  The ratchet that is to open an envelope, a copy of the stored one or a new one from the X3DH
  prefix, with the blob to open and the one-time prekey a success consumes. \<open>Inr None\<close> is an
  early return.
\<close>

definition incoming_ratchet ::
  "crypto \<Rightarrow> dm_codec \<Rightarrow> nexnet_client \<Rightarrow> dh_pair \<Rightarrow> string \<Rightarrow> bytes \<Rightarrow> dm_world
     \<Rightarrow> dm_world \<times> (dm_error + (ratchet_state \<times> bytes \<times> (local_prekeys \<times> nat) option) option)" where
  "incoming_ratchet c cd client fresh sessionKey ciphertext w =
     (case current_session c cd sessionKey w of
        (w1, Inl e) \<Rightarrow> (w1, Inl e)
      | (w1, Inr (Some stored)) \<Rightarrow>
          (let existing = deserializeState (serializeState stored) in
           if hd ciphertext = DM_WIRE_X3DH then
             (w1, Inr (map_option (\<lambda>x. (existing, xp_ratchetBlob x, None)) (decodeX3dhPrefix ciphertext)))
           else (w1, Inr (Some (existing, ciphertext, None))))
      | (w1, Inr None) \<Rightarrow>
          (w1, case local_material c cd client w1 of
             Inl e \<Rightarrow> Inl e
           | Inr None \<Rightarrow> Inr None
           | Inr (Some material) \<Rightarrow>
               (case decodeX3dhPrefix ciphertext of
                  None \<Rightarrow> Inr None
                | Some x \<Rightarrow>
                    (case x3dhRespond c material (xp_identityDhPublic x) (xp_ekPublic x) (xp_otpId x) of
                       (_, Inl e) \<Rightarrow> Inl (AgreementError e)
                     | (_, Inr resp) \<Rightarrow> Inr (Some (initResponder fresh (xr_sk resp), xp_ratchetBlob x,
                         map_option (\<lambda>i. (material, i)) (xp_otpId x)))))))"

definition without_otp :: "local_prekeys \<Rightarrow> nat \<Rightarrow> local_prekeys" where
  "without_otp material i = material\<lparr>lp_oneTime := jm_del i (lp_oneTime material)\<rparr>"

text \<open>
  After a one-time prekey was consumed, a published bundle is replaced by one that does not offer
  it, also at the presence service (\<open>publishBundleRemote\<close>, started here, is a later step). The key
  of a persistent client is always there.
\<close>

definition refresh_bundle ::
  "crypto \<Rightarrow> dm_codec \<Rightarrow> nexnet_client \<Rightarrow> dm_world \<Rightarrow> dm_world \<times> client_out list \<times> (dm_error + unit)" where
  "refresh_bundle c cd client w =
     (case fetchBundle (nc_identityId client) (pn_directory (dw_network w)) of
        None \<Rightarrow> (w, [], Inr ())
      | Some selfBundle \<Rightarrow>
          (let publish = (\<lambda>b. if nc_presence client then [OutPublish b] else []) in
           case dw_persistent w of
             Some st \<Rightarrow>
               (case dm_prekeys c cd st of
                  Inl e \<Rightarrow> (w, [], Inl (StateError e))
                | Inr material \<Rightarrow>
                    (let bundle = exportBundle material (case nc_deviceSigningPublicKey client of None \<Rightarrow> [] | Some k \<Rightarrow> k) in
                     (w\<lparr>dw_network := (dw_network w)\<lparr>pn_directory := publishBundle (nc_identityId client) bundle (pn_directory (dw_network w))\<rparr>\<rparr>,
                      publish bundle, Inr ())))
           | None \<Rightarrow>
               (let d = refreshPublishedBundle (nc_identityId client) (pb_identitySignPublic selfBundle) (pn_directory (dw_network w)) in
                (w\<lparr>dw_network := (dw_network w)\<lparr>pn_directory := d\<rparr>\<rparr>,
                 case fetchBundle (nc_identityId client) d of None \<Rightarrow> [] | Some b \<Rightarrow> publish b, Inr ()))))"

text \<open>
  Storing what was opened. A persistent client commits ratchet, prekeys and message in one
  transaction; another saves the session, drops the one-time key from its live material and appends
  the envelope to its log. \<open>Inr None\<close> is an early return: the message was there already.
\<close>

definition store_received ::
  "crypto \<Rightarrow> dm_codec \<Rightarrow> (string \<Rightarrow> bytes) \<Rightarrow> int \<Rightarrow> nexnet_client \<Rightarrow> string \<Rightarrow> ratchet_state \<Rightarrow> (local_prekeys \<times> nat) option
     \<Rightarrow> message_envelope \<Rightarrow> message_payload \<Rightarrow> bytes \<Rightarrow> dm_world \<Rightarrow> dm_world \<times> client_out list \<times> (dm_error + unit option)" where
  "store_received c cd rnd now client sessionKey state consumed envelope payload bytes w =
     (case dw_persistent w of
        Some st \<Rightarrow>
          (case commitReceive c cd rnd now sessionKey state (map_option (\<lambda>(m, i). without_otp m i) consumed)
              \<lparr>im_envelope = envelope, im_payload = payload, im_receivedAt = None, im_contentExpired = False\<rparr> st of
             (st', Inl e) \<Rightarrow> (w\<lparr>dw_persistent := Some st'\<rparr>, [], Inl (StateError e))
           | (st', Inr False) \<Rightarrow> (w\<lparr>dw_persistent := Some st'\<rparr>, [], Inr None)
           | (st', Inr True) \<Rightarrow>
               (let w1 = w\<lparr>dw_persistent := Some st'\<rparr> in
                case consumed of
                  None \<Rightarrow> (w1, [], Inr (Some ()))
                | Some _ \<Rightarrow>
                    (case refresh_bundle c cd client w1 of
                       (w2, out, Inl e) \<Rightarrow> (w2, out, Inl e)
                     | (w2, out, Inr _) \<Rightarrow> (w2, out, Inr (Some ())))))
      | None \<Rightarrow>
          (let w1 = w\<lparr>dw_sessions := saveSession now sessionKey state (dw_sessions w)\<rparr>;
               (w2, out) = (case consumed of
                 None \<Rightarrow> (w1, [])
               | Some (m, i) \<Rightarrow>
                   (let d = pn_directory (dw_network w1);
                        d' = d\<lparr>pd_localByIdentity := jm_set (toHex (nc_identityId client)) (without_otp m i) (pd_localByIdentity d)\<rparr>;
                        w' = w1\<lparr>dw_network := (dw_network w1)\<lparr>pn_directory := d'\<rparr>\<rparr> in
                    case refresh_bundle c cd client w' of (w'', out, _) \<Rightarrow> (w'', out)));
               (w3, new) = persistIncomingMessage c now client (me_messageId envelope) bytes w2 in
           (w3, out, Inr (if new then Some () else None))))"

definition handleAuthorizedDirectMessage ::
  "crypto \<Rightarrow> dm_codec \<Rightarrow> message_codec \<Rightarrow> (string \<Rightarrow> bytes) \<Rightarrow> int \<Rightarrow> dh_pair \<Rightarrow> dh_pair \<Rightarrow> nexnet_client
     \<Rightarrow> message_envelope \<Rightarrow> bytes \<Rightarrow> bytes \<Rightarrow> dm_world \<Rightarrow> dm_world \<times> client_out list" where
  "handleAuthorizedDirectMessage c cd mc rnd now fresh fresh' client envelope bytes preimage w =
     (let senderHex = toHex (me_senderIdentityId envelope);
          receipt = sendDeliveryReceipt c now client senderHex (me_messageId envelope) in
      case ed_verify c (dc_signingKey (me_senderCertificate envelope)) preimage (me_signature envelope) of
        None \<Rightarrow> (w, [OutReceiveFailed CryptoFailed_dm])
      | Some False \<Rightarrow> (w, [])
      | Some True \<Rightarrow>
          (case (case dw_persistent w of
                   None \<Rightarrow> (w, Inr ())
                 | Some st \<Rightarrow> (case retain c cd rnd now st of (st', r) \<Rightarrow> (w\<lparr>dw_persistent := Some st'\<rparr>, r))) of
             (w1, Inl e) \<Rightarrow> (w1, [OutReceiveFailed (StateError e)])
           | (w1, Inr _) \<Rightarrow>
               (case hasIncomingMessage c (me_messageId envelope) w1 of
                  Inl e \<Rightarrow> (w1, [OutReceiveFailed (StateError e)])
                | Inr True \<Rightarrow> (w1, receipt)
                | Inr False \<Rightarrow>
                    (if length (me_ciphertext envelope) < 2 then (w1, [])
                     else
                       let aad = dm_aad mc (me_conversationId envelope) (me_senderIdentityId envelope) (me_recipientIdentityId envelope);
                           sessionKey = x3dhSessionStoreKey (me_conversationId envelope) (me_senderIdentityId envelope) in
                       case incoming_ratchet c cd client fresh sessionKey (me_ciphertext envelope) w1 of
                         (w2, Inl e) \<Rightarrow> (w2, [OutReceiveFailed e])
                       | (w2, Inr None) \<Rightarrow> (w2, [])
                       | (w2, Inr (Some (existing, ratchetBlob, consumed))) \<Rightarrow>
                           (case open_sealed c fresh' ratchetBlob aad existing of
                              (_, Inl e) \<Rightarrow> (w2, [OutReceiveFailed (RatchetError e)])
                            | (state, Inr plaintext) \<Rightarrow>
                                (case mc_payload_decode mc plaintext of
                                   None \<Rightarrow> (w2, [OutReceiveFailed MalformedPayload])
                                 | Some payload \<Rightarrow>
                                     (case store_received c cd rnd now client sessionKey state consumed envelope payload bytes w2 of
                                        (w3, out, Inl e) \<Rightarrow> (w3, out @ [OutReceiveFailed e])
                                      | (w3, out, Inr None) \<Rightarrow> (w3, out)
                                      | (w3, out, Inr (Some _)) \<Rightarrow> (w3, out @ receipt @ [OutDelivered envelope payload]))))))))"

text \<open>
  \<open>onDirectMessage\<close>: \<open>allowed\<close> is the optional allow list, \<open>lookupRoot\<close> the caller's root keys,
  \<open>resp\<close> the answer of the presence service for an unknown sender, \<open>registered\<close> what the
  resolver knows of the sender's device.
\<close>

definition cert_fits :: "message_envelope \<Rightarrow> bool" where
  "cert_fits e = (sameBytes (dc_accountId (me_senderCertificate e)) (me_senderIdentityId e)
     \<and> sameBytes (dc_deviceId (me_senderCertificate e)) (me_senderDeviceId e)
     \<and> \<not> dc_issuedAt (me_senderCertificate e) > me_createdAt e \<and> \<not> dc_expiresAt (me_senderCertificate e) < me_createdAt e)"

definition onDirectMessage ::
  "crypto \<Rightarrow> dm_codec \<Rightarrow> message_codec \<Rightarrow> (string \<Rightarrow> bytes) \<Rightarrow> int \<Rightarrow> dh_pair \<Rightarrow> dh_pair \<Rightarrow> nexnet_client
     \<Rightarrow> string list option \<Rightarrow> (bytes \<Rightarrow> bytes option) \<Rightarrow> fetch_response \<Rightarrow> device_certificate option \<Rightarrow> bytes \<Rightarrow> dm_world \<Rightarrow> dm_world \<times> client_out list" where
  "onDirectMessage c cd mc rnd now fresh fresh' client allowed lookupRoot resp registered bytes w =
     (case mc_envelope_decode mc bytes of
        None \<Rightarrow> (w, [])
      | Some envelope \<Rightarrow>
          (let sender = me_senderIdentityId envelope;
               cert = me_senderCertificate envelope;
               rootPk = (case lookupRoot sender of Some r \<Rightarrow> Some r | None \<Rightarrow> verifiedRootPublicKey sender (dw_network w));
               handle = handleAuthorizedDirectMessage c cd mc rnd now fresh fresh' client envelope bytes (envelope_preimage mc envelope);
               resolve = (\<lambda>w'. case registered of
                 None \<Rightarrow> (w', []) | Some r \<Rightarrow> if sameCertificate cert r then handle w' else (w', [])) in
           if (case allowed of None \<Rightarrow> False | Some ids \<Rightarrow> toHex sender \<notin> set ids) then (w, [])
           else if \<not> cert_fits envelope then (w, [])
           else case rootPk of
             Some root \<Rightarrow>
               (case verifyDeviceCert c cert root of
                  None \<Rightarrow> (w, [])
                | Some True \<Rightarrow> handle w
                | Some False \<Rightarrow> resolve w)
           | None \<Rightarrow>
               (if \<not> nc_presence client then resolve w
                else
                  (case fetchBundleRemote c now sender resp (dw_network w) of
                     (pn, r) \<Rightarrow>
                       (let w1 = w\<lparr>dw_network := pn\<rparr>;
                            fetchedRoot = (case r of Inl _ \<Rightarrow> None | Inr _ \<Rightarrow> verifiedRootPublicKey sender pn) in
                        case fetchedRoot of
                          None \<Rightarrow> resolve w1
                        | Some root \<Rightarrow>
                            (case verifyDeviceCert c cert root of
                               None \<Rightarrow> (w1, [])
                             | Some True \<Rightarrow> handle w1
                             | Some False \<Rightarrow> resolve w1))))))"

section \<open>Sending\<close>

text \<open>What the environment supplies to a call of \<open>sendDirectMessage\<close>: clock, random bytes and key pairs, and the awaited answers.\<close>

record send_inputs =
  si_now :: int
  si_nonce :: bytes
  si_sealNonce :: bytes
  si_ephemeral :: dh_pair
  si_ratchet :: dh_pair
  si_registered :: "device_certificate option"
  si_response :: fetch_response

record send_options =
  so_queue :: bool
  so_directOnly :: bool
  so_commitMetadata :: "(bytes \<Rightarrow> dm_state \<Rightarrow> dm_state \<times> (queue_error + unit)) option"

text \<open>\<open>typeof message === "string" ? { contentType: "text", text: message } : message\<close>.\<close>

definition as_payload :: "string + message_payload \<Rightarrow> message_payload" where
  "as_payload message = (case message of Inl t \<Rightarrow> \<lparr>mp_contentType = ''text'', mp_text = t, mp_rest = JObj []\<rparr> | Inr p \<Rightarrow> p)"

text \<open>The peer's current bundle is fetched for a new session; a cached one is enough when that fails.\<close>

definition refresh_peer ::
  "crypto \<Rightarrow> dm_codec \<Rightarrow> send_inputs \<Rightarrow> nexnet_client \<Rightarrow> bytes \<Rightarrow> string \<Rightarrow> dm_world \<Rightarrow> dm_world \<times> (dm_error + unit)" where
  "refresh_peer c cd si client recipientId sessionKey w =
     (case current_session c cd sessionKey w of
        (w1, Inl e) \<Rightarrow> (w1, Inl e)
      | (w1, Inr (Some _)) \<Rightarrow> (w1, Inr ())
      | (w1, Inr None) \<Rightarrow>
          (if \<not> nc_presence client then (w1, Inr ())
           else case fetchBundleRemote c (si_now si) recipientId (si_response si) (dw_network w1) of
             (pn, Inr _) \<Rightarrow> (w1\<lparr>dw_network := pn\<rparr>, Inr ())
           | (pn, Inl e) \<Rightarrow>
               (w1\<lparr>dw_network := pn\<rparr>, if fetchBundle recipientId (pn_directory pn) = None then Inl (FetchError e) else Inr ())))"

text \<open>The ciphertext and the advanced ratchet, of an existing or a new session.\<close>

definition seal_message ::
  "crypto \<Rightarrow> dm_codec \<Rightarrow> send_inputs \<Rightarrow> nexnet_client \<Rightarrow> bytes \<Rightarrow> string \<Rightarrow> bytes \<Rightarrow> bytes \<Rightarrow> dm_world
     \<Rightarrow> dm_world \<times> (dm_error + ratchet_state \<times> bytes)" where
  "seal_message c cd si client recipientId sessionKey payloadCde aad w =
     (case current_session c cd sessionKey w of
        (w1, Inl e) \<Rightarrow> (w1, Inl e)
      | (w1, Inr (Some existing)) \<Rightarrow>
          (case seal c (si_sealNonce si) payloadCde aad existing of
             (_, Inl e) \<Rightarrow> (w1, Inl (RatchetError e))
           | (advanced, Inr ciphertext) \<Rightarrow>
               (if dw_persistent w1 = None
                then w1\<lparr>dw_sessions := saveSession (si_now si) sessionKey advanced (dw_sessions w1)\<rparr> else w1,
                Inr (advanced, ciphertext)))
      | (w1, Inr None) \<Rightarrow>
          (case local_material c cd client w1 of
             Inl e \<Rightarrow> (w1, Inl e)
           | Inr material \<Rightarrow>
               (case (material, fetchBundle recipientId (pn_directory (dw_network w1))) of
                  (Some m, Some remote) \<Rightarrow>
                    (case x3dhInitiate c (si_ephemeral si) (kp_secret (lp_identityDh m)) remote of
                       Inl e \<Rightarrow> (w1, Inl (AgreementError e))
                     | Inr init \<Rightarrow>
                         (case seal c (si_sealNonce si) payloadCde aad (initInitiator c (si_ratchet si) (xi_sk init)) of
                            (_, Inl e) \<Rightarrow> (w1, Inl (RatchetError e))
                          | (advanced, Inr sealed) \<Rightarrow>
                              (if dw_persistent w1 = None
                               then w1\<lparr>dw_sessions := setSession (si_now si) sessionKey advanced (dw_sessions w1)\<rparr> else w1,
                               Inr (advanced, encodeX3dhPrefix (kp_public (lp_identityDh m)) (xi_ekPublic init)
                                 (xi_usedOneTimePrekeyId init) @ sealed))))
                | _ \<Rightarrow> (w1, Inl PrekeysRequired))))"

definition signed_envelope ::
  "crypto \<Rightarrow> message_codec \<Rightarrow> nexnet_client \<Rightarrow> bytes \<Rightarrow> device_certificate \<Rightarrow> bytes \<Rightarrow> bytes \<Rightarrow> int \<Rightarrow> bytes \<Rightarrow> message_envelope" where
  "signed_envelope c mc client recipientId certificate messageId conversationId now ciphertext =
     (let e = \<lparr>me_protocolVersion = PROTOCOL_VERSION, me_messageId = messageId, me_conversationId = conversationId,
            me_senderIdentityId = nc_identityId client, me_senderDeviceId = nc_deviceId client,
            me_recipientIdentityId = recipientId, me_senderCertificate = certificate, me_senderSequence = now, me_parentIds = [],
            me_createdAt = now, me_ciphertext = ciphertext, me_signature = []\<rparr> in
      e\<lparr>me_signature := ed_sign c (case nc_deviceSigningSecretKey client of None \<Rightarrow> [] | Some k \<Rightarrow> k) (envelope_preimage mc e)\<rparr>)"

definition queued_envelope :: "bytes \<Rightarrow> bytes \<Rightarrow> bytes \<Rightarrow> int \<Rightarrow> queue_item" where
  "queued_envelope messageId recipientId encoded now = \<lparr>qi_encryptionFormat = Some DM_X3DH_QUEUE_FORMAT, qi_messageId = messageId,
     qi_recipientIdentityId = recipientId, qi_encryptedEnvelope = encoded, qi_createdAt = now, qi_lastAttemptAt = None,
     qi_nextAttemptAt = None, qi_attemptCount = 0, qi_deliveryState = Pending\<rparr>"

text \<open>Handing the envelope over: queue or commit first, then the open data channel, then the relay.\<close>

definition hand_over ::
  "crypto \<Rightarrow> dm_codec \<Rightarrow> (string \<Rightarrow> bytes) \<Rightarrow> nexnet_client \<Rightarrow> send_options \<Rightarrow> string \<Rightarrow> ratchet_state \<Rightarrow> queue_item \<Rightarrow> dm_world
     \<Rightarrow> dm_world \<times> client_out list \<times> (dm_error + bytes)" where
  "hand_over c cd rnd client so sessionKey advanced item w =
     (let recipientHex = toHex (qi_recipientIdentityId item);
          encoded = qi_encryptedEnvelope item;
          (w1, r) =
            (if so_directOnly so then (w, Inr ())
             else case dw_persistent w of
               Some st \<Rightarrow>
                 (case commitSend c cd rnd sessionKey advanced item (so_commitMetadata so) st of
                    (st', r) \<Rightarrow> (w\<lparr>dw_persistent := Some st'\<rparr>, r))
             | None \<Rightarrow> (case enqueue item (dw_queue w) of (q, r) \<Rightarrow> (w\<lparr>dw_queue := q\<rparr>, r))) in
      case r of
        Inl e \<Rightarrow> (w1, [], Inl (StateError e))
      | Inr _ \<Rightarrow>
          (if nc_direct client recipientHex then (w1, [OutDirect recipientHex encoded], Inr (qi_messageId item))
           else if so_directOnly so then (w1, [], Inl DirectSessionRequired)
           else if nc_online client \<and> nc_accepts client recipientHex
           then (w1, [OutDm recipientHex encoded], Inr (qi_messageId item))
           else (w1, [], Inr (qi_messageId item))))"

text \<open>
  \<open>sendDirectMessage\<close>, after \<open>ensureDeviceCertificate\<close> has renewed the client's certificate where
  that is due. A queue given by the caller (\<open>so_queue\<close>) takes the place of \<open>dw_queue\<close>.
\<close>

definition sendDirectMessage ::
  "crypto \<Rightarrow> dm_codec \<Rightarrow> message_codec \<Rightarrow> (string \<Rightarrow> bytes) \<Rightarrow> send_inputs \<Rightarrow> nexnet_client \<Rightarrow> bytes \<Rightarrow> string + message_payload
     \<Rightarrow> send_options \<Rightarrow> dm_world \<Rightarrow> dm_world \<times> client_out list \<times> (dm_error + bytes)" where
  "sendDirectMessage c cd mc rnd si client recipientId message so w =
     (if dw_persistent w \<noteq> None \<and> (so_queue so \<or> so_directOnly so) then (w, [], Inl RequiresTransactionalOutbox)
      else if so_commitMetadata so \<noteq> None \<and> dw_persistent w = None then (w, [], Inl MetadataRequiresPersistence)
      else case senderCertificate c (si_now si) client (si_registered si) of
        Inl e \<Rightarrow> (w, [], Inl e)
      | Inr certificate \<Rightarrow>
          (let conversationId = deriveConversationId c (nc_identityId client) recipientId;
               payloadCde = mc_payload mc (as_payload message);
               now = si_now si;
               messageId = message_id c mc conversationId (nc_identityId client) recipientId now (si_nonce si) payloadCde;
               aad = dm_aad mc conversationId (nc_identityId client) recipientId;
               sessionKey = x3dhSessionStoreKey conversationId recipientId in
           case refresh_peer c cd si client recipientId sessionKey w of
             (w1, Inl e) \<Rightarrow> (w1, [], Inl e)
           | (w1, Inr _) \<Rightarrow>
               (case seal_message c cd si client recipientId sessionKey payloadCde aad w1 of
                  (w2, Inl e) \<Rightarrow> (w2, [], Inl e)
                | (w2, Inr (advanced, ciphertext)) \<Rightarrow>
                    (let envelope = signed_envelope c mc client recipientId certificate messageId conversationId now ciphertext in
                     hand_over c cd rnd client so sessionKey advanced
                       (queued_envelope messageId recipientId (mc_envelope mc envelope) now) w2))))"

end
