(* ===== verification/Persistent_Queue.thy ===== *)
theory Persistent_Queue
  imports Persistent_State
begin

text \<open>
  The device state as a finite map from row names to values, the invariant of its rows, and the
  proof that the queue kept in it satisfies the contract of \<open>OutboundQueueLike\<close>.
\<close>

section \<open>Rows as a map\<close>

definition cell :: "crypto \<Rightarrow> dm_state \<Rightarrow> string \<Rightarrow> bytes option" where
  "cell c st name = (case device_get c name (ps_store st) of Inl _ \<Rightarrow> None | Inr v \<Rightarrow> v)"

definition stored :: "crypto \<Rightarrow> dm_codec \<Rightarrow> dm_state \<Rightarrow> string \<Rightarrow> stored_value option" where
  "stored c cd st name = (case cell c st name of None \<Rightarrow> None | Some b \<Rightarrow> cd_decode cd b)"

text \<open>What the primitives and the codec are relied on for.\<close>

definition dm_env :: "crypto \<Rightarrow> dm_codec \<Rightarrow> (string \<Rightarrow> bytes) \<Rightarrow> bool" where
  "dm_env c cd rnd = (aead_correct c \<and> codec_roundtrip cd \<and> (\<forall>n. length (rnd n) = 24))"

definition dm_ok :: "crypto \<Rightarrow> dm_state \<Rightarrow> bool" where
  "dm_ok c st = device_ok c (ps_store st)"

lemma device_get_ok:
  assumes "aead_correct c" "device_ok c s"
  shows "\<exists>v. device_get c n s = Inr v \<and> (v \<noteq> None \<longleftrightarrow> n \<in> dv_name ` set (ds_rows s))"
proof (cases "find_row n s")
  case None
  then have "n \<notin> dv_name ` set (ds_rows s)" unfolding find_row_def find_None_iff by blast
  then show ?thesis using None by (simp add: device_get_def)
next
  case (Some r)
  then have r: "r \<in> set (ds_rows s)" "dv_name r = n" unfolding find_row_def by (auto dest: find_SomeD)
  then obtain v where "aead_dec c (ds_key s) (dv_nonce r) (utf8 n) (dv_ciphertext r) = Some v"
    using assms by (fastforce simp: device_ok_def aead_correct_def)
  then show ?thesis using Some r by (auto simp: device_get_def)
qed

lemma dm_get_cell: "aead_correct c \<Longrightarrow> dm_ok c st \<Longrightarrow> dm_get c n st = Inr (cell c st n)"
  using device_get_ok [of c "ps_store st" n] by (auto simp: dm_get_def cell_def dm_ok_def)

lemma cell_keys: "aead_correct c \<Longrightarrow> dm_ok c st \<Longrightarrow> cell c st n \<noteq> None \<longleftrightarrow> n \<in> dv_name ` set (ds_rows (ps_store st))"
  using device_get_ok [of c "ps_store st" n] by (auto simp: cell_def dm_ok_def)

lemma set_device_keys:
  assumes "aead_correct c" "dm_ok c st"
  shows "set (device_keys p (ps_store st)) = {n. take (length p) n = p \<and> cell c st n \<noteq> None}"
    and "distinct (device_keys p (ps_store st))"
  using assms cell_keys [OF assms] by (auto simp: device_keys_def dm_ok_def device_ok_def)

lemma dm_put_cases:
  assumes "dm_env c cd rnd" "dm_ok c st" "dm_put c rnd n v st = (st', r)"
  obtains (failed) e where "r = Inl e" "st' = st"
  | (written) "r = Inr ()" "dm_ok c st'" "ps_limits st' = ps_limits st" "cell c st' = (cell c st)(n \<mapsto> v)"
proof -
  obtain s q where s: "device_put c (rnd n) n v (ps_store st) = (s, q)" by (cases "device_put c (rnd n) n v (ps_store st)")
  show ?thesis
  proof (cases q)
    case (Inl e)
    then have "s = ps_store st" using s by (auto simp: device_put_def Let_def split: if_splits)
    then show ?thesis using failed assms(3) s Inl by (auto simp: dm_put_def)
  next
    case (Inr u)
    then have d: "device_put c (rnd n) n v (ps_store st) = (s, Inr ())" using s by simp
    have st': "st' = st\<lparr>ps_store := s\<rparr>" "r = Inr ()" using assms(3) d by (auto simp: dm_put_def)
    have "dm_ok c st'" using put_ok [OF d] assms(1,2) st' by (simp add: dm_ok_def dm_env_def)
    moreover have "cell c st' = (cell c st)(n \<mapsto> v)"
      using put_reads [OF d] assms(1,2) st' by (simp add: fun_eq_iff cell_def dm_ok_def dm_env_def device_ok_def)
    ultimately show ?thesis using written st' by simp
  qed
qed

lemma dm_write_cases:
  assumes "dm_env c cd rnd" "dm_ok c st" "dm_write c cd rnd n v st = (st', r)"
  obtains (failed) e where "r = Inl e" "st' = st"
  | (written) "r = Inr ()" "dm_ok c st'" "ps_limits st' = ps_limits st" "cell c st' = (cell c st)(n \<mapsto> cd_encode cd v)"
      "stored c cd st' = (stored c cd st)(n \<mapsto> v)"
proof -
  have v: "cd_decode cd (cd_encode cd v) = Some v" using assms(1) by (simp add: dm_env_def codec_roundtrip_def)
  from assms(3) have "dm_put c rnd n (cd_encode cd v) st = (st', r)" by (simp add: dm_write_def)
  then show ?thesis
    using failed written v by (cases rule: dm_put_cases [OF assms(1,2), of n "cd_encode cd v" st' r]) (auto simp: stored_def fun_eq_iff)
qed

lemma dm_read_stored:
  "aead_correct c \<Longrightarrow> dm_ok c st \<Longrightarrow> stored c cd st n = Some v \<Longrightarrow> dm_read c cd n st = Inr v"
  by (auto simp: dm_read_def dm_get_cell stored_def split: option.splits)

lemma traverse_map: "(\<And>x. x \<in> set xs \<Longrightarrow> f x = Inr (g x)) \<Longrightarrow> traverse f xs = Inr (map g xs)"
  by (induction xs) auto

section \<open>The invariant of the rows\<close>

definition dm_inv :: "crypto \<Rightarrow> dm_codec \<Rightarrow> dm_state \<Rightarrow> bool" where
  "dm_inv c cd st \<longleftrightarrow> dm_ok c st
     \<and> (\<forall>n. take 6 n = ''queue:'' \<and> cell c st n \<noteq> None \<longrightarrow>
          (\<exists>i. stored c cd st n = Some (VItem i) \<and> n = queue_key (qi_messageId i) \<and> x3dh_item i))
     \<and> (\<forall>n. take 6 n = ''inbox:'' \<and> cell c st n \<noteq> None \<longrightarrow>
          (\<exists>m. stored c cd st n = Some (VInbox m) \<and> n = inbox_key (me_messageId (im_envelope m))))"

definition queued :: "crypto \<Rightarrow> dm_codec \<Rightarrow> dm_state \<Rightarrow> bytes \<Rightarrow> queue_item option" where
  "queued c cd st k = (case stored c cd st (queue_key k) of Some (VItem i) \<Rightarrow> Some i | _ \<Rightarrow> None)"

lemma key_prefixes [simp]: "take 6 (queue_key k) = ''queue:''" "take 6 (inbox_key k) = ''inbox:''"
  "take 6 (receipt_key k) = ''receip''" "take 6 (''ratchet:'' @ x) = ''ratche''"
  by (simp_all add: queue_key_def inbox_key_def receipt_key_def)

lemma key_inj [simp]: "queue_key a = queue_key b \<longleftrightarrow> a = b" "inbox_key a = inbox_key b \<longleftrightarrow> a = b"
  "receipt_key a = receipt_key b \<longleftrightarrow> a = b"
  by (simp_all add: queue_key_def inbox_key_def receipt_key_def)

lemma key_neq [simp]: "queue_key a \<noteq> inbox_key b" "queue_key a \<noteq> receipt_key b" "inbox_key a \<noteq> receipt_key b"
  "queue_key a \<noteq> ''ratchet:'' @ x" "inbox_key a \<noteq> ''ratchet:'' @ x" "queue_key a \<noteq> ''prekeys:v1''" "inbox_key a \<noteq> ''prekeys:v1''"
  "queue_key a \<noteq> ''credentials:v1''" "inbox_key a \<noteq> ''credentials:v1''"
  by (simp_all add: queue_key_def inbox_key_def receipt_key_def)

lemma queued_stored: "dm_inv c cd st \<Longrightarrow> queued c cd st k = Some i \<longleftrightarrow> stored c cd st (queue_key k) = Some (VItem i)"
  by (auto simp: queued_def split: option.splits stored_value.splits)

lemma stored_cell: "stored c cd st n \<noteq> None \<Longrightarrow> cell c st n \<noteq> None"
  by (cases "cell c st n") (simp_all add: stored_def)

lemma queued_ok: "dm_inv c cd st \<Longrightarrow> queued c cd st k = Some i \<Longrightarrow> qi_messageId i = k \<and> x3dh_item i"
proof -
  assume a: "dm_inv c cd st" "queued c cd st k = Some i"
  then have "stored c cd st (queue_key k) = Some (VItem i)" by (simp add: queued_stored)
  then show "qi_messageId i = k \<and> x3dh_item i"
    using a(1) stored_cell [of c cd st "queue_key k"] unfolding dm_inv_def
    by (metis key_inj(1) key_prefixes(1) option.inject option.simps(3) stored_value.inject(1))
qed

text \<open>A write under a name of neither group, or of the right value under its own key, keeps the invariant.\<close>

lemma dm_inv_upd:
  assumes "dm_inv c cd st" "dm_ok c st'" "cell c st' = (cell c st)(n \<mapsto> b)" "stored c cd st' = (stored c cd st)(n := w)"
    and "take 6 n = ''queue:'' \<longrightarrow> (\<exists>i. w = Some (VItem i) \<and> n = queue_key (qi_messageId i) \<and> x3dh_item i)"
    and "take 6 n = ''inbox:'' \<longrightarrow> (\<exists>m. w = Some (VInbox m) \<and> n = inbox_key (me_messageId (im_envelope m)))"
  shows "dm_inv c cd st'"
  using assms unfolding dm_inv_def by simp

lemma queued_upd: "stored c cd st' = (stored c cd st)(queue_key k \<mapsto> VItem i) \<Longrightarrow> queued c cd st' = (queued c cd st)(k \<mapsto> i)"
  by (auto simp: queued_def fun_eq_iff)

lemma items_list:
  assumes "dm_env c cd rnd" "dm_inv c cd st"
  shows "\<exists>xs. dm_items c cd st = Inr xs \<and> distinct (map qi_messageId xs)
    \<and> (\<forall>i. i \<in> set xs \<longleftrightarrow> queued c cd st (qi_messageId i) = Some i \<and> qi_deliveryState i = Pending)"
proof -
  have a: "aead_correct c" "dm_ok c st" using assms by (simp_all add: dm_env_def dm_inv_def)
  let ?ks = "device_keys ''queue:'' (ps_store st)"
  have ks: "n \<in> set ?ks \<longleftrightarrow> take 6 n = ''queue:'' \<and> cell c st n \<noteq> None" for n
    using set_device_keys(1) [OF a, of "''queue:''"] by (simp add: numeral_eq_Suc)
  have "\<forall>n. \<exists>i. n \<in> set ?ks \<longrightarrow> stored c cd st n = Some (VItem i) \<and> n = queue_key (qi_messageId i)"
    using assms(2) unfolding dm_inv_def ks by blast
  then obtain g where g: "\<And>n. n \<in> set ?ks \<Longrightarrow> stored c cd st n = Some (VItem (g n)) \<and> n = queue_key (qi_messageId (g n))"
    by metis
  have "traverse (\<lambda>key. read_item c cd key st) ?ks = Inr (map g ?ks)"
  proof (rule traverse_map)
    fix n assume "n \<in> set ?ks"
    then have "dm_read c cd n st = Inr (VItem (g n))" using g dm_read_stored [OF a] by blast
    then show "read_item c cd n st = Inr (g n)" by (simp add: read_item_def)
  qed
  moreover have "distinct (map qi_messageId (map g ?ks))"
  proof -
    have "inj_on (\<lambda>n. qi_messageId (g n)) (set ?ks)"
    proof (rule inj_onI)
      fix m n assume "m \<in> set ?ks" "n \<in> set ?ks" "qi_messageId (g m) = qi_messageId (g n)"
      then show "m = n" using g [of m] g [of n] by simp
    qed
    then show ?thesis using set_device_keys(2) [OF a] by (simp add: distinct_map comp_def)
  qed
  moreover have "i \<in> g ` set ?ks \<longleftrightarrow> queued c cd st (qi_messageId i) = Some i" for i
  proof
    assume "i \<in> g ` set ?ks"
    then obtain n where n: "n \<in> set ?ks" "i = g n" by blast
    then have "stored c cd st (queue_key (qi_messageId i)) = Some (VItem i)" using g [of n] by simp
    then show "queued c cd st (qi_messageId i) = Some i" using queued_stored [OF assms(2)] by simp
  next
    assume q: "queued c cd st (qi_messageId i) = Some i"
    then have s: "stored c cd st (queue_key (qi_messageId i)) = Some (VItem i)" using queued_stored [OF assms(2)] by simp
    then have "queue_key (qi_messageId i) \<in> set ?ks" unfolding ks by (auto simp: stored_def split: option.splits)
    moreover from this have "g (queue_key (qi_messageId i)) = i" using g [of "queue_key (qi_messageId i)"] s by simp
    ultimately show "i \<in> g ` set ?ks" by (rule rev_image_eqI [OF _ sym])
  qed
  ultimately show ?thesis by (auto simp: dm_items_def distinct_map_filter)
qed

section \<open>The contract\<close>

lemma write_item:
  assumes "dm_env c cd rnd" "dm_inv c cd st" "x3dh_item i" "dm_write c cd rnd (queue_key (qi_messageId i)) (VItem i) st = (st', r)"
  shows "case r of Inl e \<Rightarrow> st' = st
    | Inr _ \<Rightarrow> dm_inv c cd st' \<and> queued c cd st' = (queued c cd st)(qi_messageId i \<mapsto> i)"
proof -
  have "dm_ok c st" using assms(2) by (simp add: dm_inv_def)
  from dm_write_cases [OF assms(1) this assms(4)] show ?thesis
  proof cases
    case 2
    have "dm_inv c cd st'"
      by (rule dm_inv_upd [OF assms(2) 2(2,4,5)]) (use assms(3) in simp_all)
    then show ?thesis using 2(1) queued_upd [OF 2(5)] by simp
  qed simp
qed

lemma read_item_queued: "dm_env c cd rnd \<Longrightarrow> dm_inv c cd st \<Longrightarrow> queued c cd st k = Some i \<Longrightarrow> read_item c cd (queue_key k) st = Inr i"
  using dm_read_stored [of c st cd "queue_key k" "VItem i"]
  by (simp add: read_item_def queued_stored dm_env_def dm_inv_def)

lemma enqueue_contract:
  assumes "dm_env c cd rnd" "dm_inv c cd st"
  shows "case dm_enqueue c cd rnd i st of (st', Inl e) \<Rightarrow> st' = st
    | (st', Inr _) \<Rightarrow> dm_inv c cd st' \<and> x3dh_item i \<and> queued c cd st' = (queued c cd st)(qi_messageId i \<mapsto> i)"
proof -
  obtain st' r where s: "dm_enqueue c cd rnd i st = (st', r)" by (cases "dm_enqueue c cd rnd i st")
  then consider "st' = st" "\<exists>e. r = Inl e"
    | "x3dh_item i" "dm_write c cd rnd (queue_key (qi_messageId i)) (VItem i) st = (st', r)"
    by (auto simp: dm_enqueue_def x3dh_item_def split: if_splits sum.splits option.splits)
  then show ?thesis
  proof cases
    case 2
    then show ?thesis using write_item [OF assms 2(1,2)] s by (auto split: sum.splits)
  qed (auto simp: s)
qed

lemma attempt_contract:
  assumes "dm_env c cd rnd" "dm_inv c cd st" "queued c cd st k = Some i" "qi_deliveryState i = Pending"
  shows "case dm_markAttempt c cd rnd now k st of (st', Inl e) \<Rightarrow> st' = st
    | (st', Inr _) \<Rightarrow> dm_inv c cd st' \<and> queued c cd st' = (queued c cd st)(k \<mapsto> retried now i)"
proof -
  have k: "k = qi_messageId (retried now i)" "x3dh_item (retried now i)" using queued_ok [OF assms(2,3)] by simp_all
  obtain st' r where s: "dm_markAttempt c cd rnd now k st = (st', r)" by (cases "dm_markAttempt c cd rnd now k st")
  then have "dm_write c cd rnd (queue_key (qi_messageId (retried now i))) (VItem (retried now i)) st = (st', r)"
    using read_item_queued [OF assms(1-3)] assms(4) k(1) by (simp add: dm_markAttempt_def retried_def)
  from write_item [OF assms(1,2) k(2) this] show ?thesis using s k(1) by (auto split: sum.splits)
qed

lemma write_receipt:
  assumes "dm_env c cd rnd" "dm_inv c cd st" "dm_write c cd rnd (receipt_key k) v st = (st', r)"
  shows "case r of Inl e \<Rightarrow> st' = st | Inr _ \<Rightarrow> dm_inv c cd st' \<and> queued c cd st' = queued c cd st"
proof -
  have "dm_ok c st" using assms(2) by (simp add: dm_inv_def)
  from dm_write_cases [OF assms(1) this assms(3)] show ?thesis
  proof cases
    case 2
    have "dm_inv c cd st'" by (rule dm_inv_upd [OF assms(2) 2(2,4,5)]) simp_all
    then show ?thesis using 2(1,5) by (simp add: queued_def fun_eq_iff)
  qed simp
qed

lemma delivered_contract:
  assumes "dm_env c cd rnd" "dm_inv c cd st" "queued c cd st k = Some i" "qi_deliveryState i = Pending"
  shows "case dm_markDelivered c cd rnd now k pf st of (st', Inl e) \<Rightarrow> st' = st
    | (st', Inr _) \<Rightarrow> dm_inv c cd st' \<and> queued c cd st' = (queued c cd st)(k \<mapsto> i\<lparr>qi_deliveryState := Delivered\<rparr>)"
proof -
  let ?i = "i\<lparr>qi_deliveryState := Delivered\<rparr>"
  let ?both = "\<lambda>s. then_do (dm_write c cd rnd (receipt_key k) (VReceipt pf now) s) (\<lambda>_. dm_write c cd rnd (queue_key k) (VItem ?i))"
  have k: "k = qi_messageId ?i" "x3dh_item ?i" using queued_ok [OF assms(2,3)] by (simp_all add: x3dh_item_def)
  obtain st' r where s: "dm_markDelivered c cd rnd now k pf st = (st', r)" by (cases "dm_markDelivered c cd rnd now k pf st")
  then consider "st' = st" "\<exists>e. r = Inl e" | "transaction ?both st = (st', r)"
    using read_item_queued [OF assms(1-3)]
    by (auto simp: dm_markDelivered_def split: if_splits sum.splits option.splits)
  then show ?thesis
  proof cases
    case 2
    obtain s1 r1 where s1: "dm_write c cd rnd (receipt_key k) (VReceipt pf now) st = (s1, r1)"
      by (cases "dm_write c cd rnd (receipt_key k) (VReceipt pf now) st")
    show ?thesis
    proof (cases r1)
      case (Inl e)
      then have "st' = st" "r = Inl e" using 2 s1 by (simp_all add: transaction_def then_do_def)
      then show ?thesis using s by simp
    next
      case (Inr u)
      then have inv1: "dm_inv c cd s1" "queued c cd s1 = queued c cd st" using write_receipt [OF assms(1,2) s1] by simp_all
      obtain s2 r2 where s2: "dm_write c cd rnd (queue_key (qi_messageId ?i)) (VItem ?i) s1 = (s2, r2)"
        by (cases "dm_write c cd rnd (queue_key (qi_messageId ?i)) (VItem ?i) s1")
      have "?both st = (s2, r2)" using s1 Inr s2 k(1) by (simp add: then_do_def)
      then have "transaction ?both st = (case r2 of Inl e \<Rightarrow> (st, Inl e) | Inr x \<Rightarrow> (s2, Inr x))"
        by (simp add: transaction_def split: sum.split)
      then show ?thesis
        using 2 s write_item [OF assms(1) inv1(1) k(2) s2] inv1(2) k(1) by (auto split: sum.splits)
    qed
  qed (auto simp: s)
qed

lemma persistent_contract:
  assumes "dm_env c cd rnd"
  shows "outbound_queue (dm_ops c cd rnd) (dm_inv c cd) (queued c cd)"
proof (unfold_locales, goal_cases)
  case (1 s k i)
  then show ?case by (rule queued_ok)
next
  case (2 s now)
  then obtain xs where xs: "dm_items c cd s = Inr xs" "distinct (map qi_messageId xs)"
    "\<forall>i. i \<in> set xs \<longleftrightarrow> queued c cd s (qi_messageId i) = Some i \<and> qi_deliveryState i = Pending"
    using items_list [OF assms] by blast
  then show ?case
    using 2 queued_ok by (auto simp: dm_ops_def dm_pending_def distinct_map_filter due_def split: option.split)
next
  case (3 s r)
  then obtain xs where "dm_items c cd s = Inr xs" "distinct (map qi_messageId xs)"
    "\<forall>i. i \<in> set xs \<longleftrightarrow> queued c cd s (qi_messageId i) = Some i \<and> qi_deliveryState i = Pending"
    using items_list [OF assms] by blast
  then show ?case by (auto simp: dm_ops_def dm_pendingForRecipient_def distinct_map_filter)
next
  case (4 s i)
  then show ?case using enqueue_contract [OF assms] by (simp add: dm_ops_def)
next
  case (5 s k i now)
  then show ?case using attempt_contract [OF assms] by (simp add: dm_ops_def)
next
  case (6 s k i now pf)
  then show ?case using delivered_contract [OF assms] by (simp add: dm_ops_def)
qed

section \<open>Committing what was received and sent\<close>

lemma put_session:
  assumes "dm_env c cd rnd" "dm_inv c cd st" "dm_saveSession c cd rnd key state st = (st', r)"
  shows "case r of Inl e \<Rightarrow> st' = st
    | Inr _ \<Rightarrow> dm_inv c cd st' \<and> cell c st' = (cell c st)(''ratchet:'' @ key \<mapsto> js_encode cd (serializeState state))"
proof -
  have ok: "dm_ok c st" using assms(2) by (simp add: dm_inv_def)
  have "dm_put c rnd (''ratchet:'' @ key) (js_encode cd (serializeState state)) st = (st', r)"
    using assms(3) by (simp add: dm_saveSession_def)
  from dm_put_cases [OF assms(1) ok this] show ?thesis
  proof cases
    case 2
    have "stored c cd st' = (stored c cd st)(''ratchet:'' @ key := cd_decode cd (js_encode cd (serializeState state)))"
      using 2(4) by (auto simp: stored_def fun_eq_iff)
    then have "dm_inv c cd st'" by (rule dm_inv_upd [OF assms(2) 2(2,4)]) simp_all
    then show ?thesis using 2(1,4) by simp
  qed simp
qed

lemma write_prekeys:
  assumes "dm_env c cd rnd" "dm_inv c cd st" "dm_write c cd rnd ''prekeys:v1'' (VPrekeys pk) st = (st', r)"
  shows "case r of Inl e \<Rightarrow> st' = st
    | Inr _ \<Rightarrow> dm_inv c cd st' \<and> cell c st' = (cell c st)(''prekeys:v1'' \<mapsto> cd_encode cd (VPrekeys pk))"
proof -
  have "dm_ok c st" using assms(2) by (simp add: dm_inv_def)
  from dm_write_cases [OF assms(1) this assms(3)] show ?thesis
  proof cases
    case 2
    have "dm_inv c cd st'" by (rule dm_inv_upd [OF assms(2) 2(2,4,5)]) simp_all
    then show ?thesis using 2(1,4) by simp
  qed simp
qed

lemma write_inbox:
  assumes "dm_env c cd rnd" "dm_inv c cd st"
    and "dm_write c cd rnd (inbox_key (me_messageId (im_envelope m))) (VInbox m) st = (st', r)"
  shows "case r of Inl e \<Rightarrow> st' = st
    | Inr _ \<Rightarrow> dm_inv c cd st' \<and> cell c st' = (cell c st)(inbox_key (me_messageId (im_envelope m)) \<mapsto> cd_encode cd (VInbox m))"
proof -
  have "dm_ok c st" using assms(2) by (simp add: dm_inv_def)
  from dm_write_cases [OF assms(1) this assms(3)] show ?thesis
  proof cases
    case 2
    have "dm_inv c cd st'" by (rule dm_inv_upd [OF assms(2) 2(2,4,5)]) simp_all
    then show ?thesis using 2(1,4) by simp
  qed simp
qed

text \<open>The rows after a successful \<open>commitReceive\<close>.\<close>

definition received_rows :: "dm_codec \<Rightarrow> int \<Rightarrow> string \<Rightarrow> ratchet_state \<Rightarrow> local_prekeys option \<Rightarrow> inbox_message
    \<Rightarrow> (string \<Rightarrow> bytes option) \<Rightarrow> string \<Rightarrow> bytes option" where
  "received_rows cd now key state prekeys m rows n =
     (if n = inbox_key (me_messageId (im_envelope m)) then Some (cd_encode cd (VInbox (m\<lparr>im_receivedAt := Some now\<rparr>)))
      else if n = ''prekeys:v1'' \<and> prekeys \<noteq> None then Some (cd_encode cd (VPrekeys (the prekeys)))
      else if n = ''ratchet:'' @ key then Some (js_encode cd (serializeState state)) else rows n)"

lemma receive_writes_done:
  assumes "dm_env c cd rnd" "dm_inv c cd st" "receive_writes c cd rnd now key state prekeys m st = (s, Inr b)"
  shows "b" "dm_inv c cd s" "cell c s = received_rows cd now key state prekeys m (cell c st)"
proof -
  let ?k = "inbox_key (me_messageId (im_envelope m))" and ?m = "m\<lparr>im_receivedAt := Some now\<rparr>"
  let ?pre = "\<lambda>s1. case prekeys of None \<Rightarrow> (s1, Inr ()) | Some pk \<Rightarrow> dm_write c cd rnd ''prekeys:v1'' (VPrekeys pk) s1"
  note w = assms(3) [unfolded receive_writes_def]
  obtain s1 u1 where s1: "dm_saveSession c cd rnd key state st = (s1, Inr u1)"
    using w by (cases "dm_saveSession c cd rnd key state st") (auto simp: then_do_def split: sum.splits)
  then have i1: "dm_inv c cd s1" "cell c s1 = (cell c st)(''ratchet:'' @ key \<mapsto> js_encode cd (serializeState state))"
    using put_session [OF assms(1,2) s1] by simp_all
  obtain s2 u2 where s2: "?pre s1 = (s2, Inr u2)"
    using w s1 by (cases "?pre s1") (auto simp: then_do_def split: sum.splits)
  have i2: "dm_inv c cd s2 \<and> cell c s2 = (case prekeys of None \<Rightarrow> cell c s1 | Some pk \<Rightarrow> (cell c s1)(''prekeys:v1'' \<mapsto> cd_encode cd (VPrekeys pk)))"
  proof (cases prekeys)
    case None
    then show ?thesis using s2 i1(1) by simp
  next
    case (Some pk)
    then have "dm_write c cd rnd ''prekeys:v1'' (VPrekeys pk) s1 = (s2, Inr u2)" using s2 by simp
    from write_prekeys [OF assms(1) i1(1) this] show ?thesis using Some by simp
  qed
  obtain s3 u3 where s3: "dm_write c cd rnd (inbox_key (me_messageId (im_envelope ?m))) (VInbox ?m) s2 = (s3, Inr u3)"
    using w s1 s2 by (cases "dm_write c cd rnd ?k (VInbox ?m) s2") (auto simp: then_do_def split: sum.splits)
  then have "s = s3" "b" using w s1 s2 by (simp_all add: then_do_def)
  moreover have "dm_inv c cd s3" "cell c s3 = (cell c s2)(?k \<mapsto> cd_encode cd (VInbox ?m))"
    using write_inbox [OF assms(1) _ s3] i2 by simp_all
  moreover from this(2) have "cell c s3 = received_rows cd now key state prekeys m (cell c st)"
    using i1(2) i2 by (auto simp: fun_eq_iff received_rows_def split: option.splits)
  ultimately show "b" "dm_inv c cd s" "cell c s = received_rows cd now key state prekeys m (cell c st)" by simp_all
qed

lemma transaction_eq: "op s = (s1, r) \<Longrightarrow> transaction op s = (case r of Inl e \<Rightarrow> (s, Inl e) | Inr x \<Rightarrow> (s1, Inr x))"
  by (simp add: transaction_def split: sum.split)

lemma commitReceive_cases:
  assumes "dm_env c cd rnd" "dm_inv c cd st" "commitReceive c cd rnd now key state prekeys m st = (st', r)"
  shows "case r of
      Inl e \<Rightarrow> st' = st
    | Inr False \<Rightarrow> st' = st \<and> cell c st (inbox_key (me_messageId (im_envelope m))) \<noteq> None
    | Inr True \<Rightarrow> dm_inv c cd st' \<and> cell c st (inbox_key (me_messageId (im_envelope m))) = None
        \<and> cell c st' = received_rows cd now key state prekeys m (cell c st)"
proof -
  have has: "hasIncoming c (me_messageId (im_envelope m)) st = Inr (cell c st (inbox_key (me_messageId (im_envelope m))) \<noteq> None)"
    using assms(1,2) by (simp add: hasIncoming_def dm_get_cell dm_env_def dm_inv_def)
  show ?thesis
  proof (cases "cell c st (inbox_key (me_messageId (im_envelope m)))")
    case (Some b)
    then have "st' = st" "r = Inr False" using assms(3) has by (simp_all add: commitReceive_def transaction_def)
    then show ?thesis using Some by simp
  next
    case None
    then have f: "commitReceive c cd rnd now key state prekeys m st = (case inbox_full c cd (me_senderIdentityId (im_envelope m)) st of
        Inl e \<Rightarrow> (st, Inl e) | Inr True \<Rightarrow> (st, Inl QueueCapacity)
      | Inr False \<Rightarrow> transaction (receive_writes c cd rnd now key state prekeys m) st)"
      using has by (simp add: commitReceive_def transaction_def split: sum.split bool.split)
    obtain s q where q: "receive_writes c cd rnd now key state prekeys m st = (s, q)"
      by (cases "receive_writes c cd rnd now key state prekeys m st")
    show ?thesis
      using f assms(3) transaction_eq [of "receive_writes c cd rnd now key state prekeys m", OF q] None
        receive_writes_done [OF assms(1,2), of now key state prekeys m s] q
      by (cases q) (auto split: sum.splits bool.splits)
  qed
qed

end
