(* ===== verification/Sample_Codec.thy ===== *)
theory Sample_Codec
  imports Persistent_State
begin

text \<open>
  A concrete codec for the stored values, over the byte encoding of dynamic values: an instance of
  the parameter \<open>dm_codec\<close> on which the hypotheses about the codec hold.
\<close>

fun jnum :: "jval \<Rightarrow> int" where "jnum (JNum n) = n" | "jnum _ = 0"
fun jstr :: "jval \<Rightarrow> string" where "jstr (JStr s) = s" | "jstr _ = []"
fun jbytes :: "jval \<Rightarrow> bytes" where "jbytes (JBytes b) = b" | "jbytes _ = []"
fun jarr :: "jval \<Rightarrow> jval list" where "jarr (JArr vs) = vs" | "jarr _ = []"

definition opt_j :: "('a \<Rightarrow> jval) \<Rightarrow> 'a option \<Rightarrow> jval" where
  "opt_j f x = (case x of None \<Rightarrow> JArr [] | Some y \<Rightarrow> JArr [f y])"

definition opt_of :: "(jval \<Rightarrow> 'a) \<Rightarrow> jval \<Rightarrow> 'a option" where
  "opt_of g v = (case jarr v of [] \<Rightarrow> None | y # _ \<Rightarrow> Some (g y))"

lemma opt_of_j [simp]: "(\<And>y. g (f y) = y) \<Longrightarrow> opt_of g (opt_j f x) = x"
  by (cases x) (simp_all add: opt_of_def opt_j_def)

fun state_code :: "delivery_state \<Rightarrow> int" where
  "state_code Pending = 0" | "state_code Sent = 1" | "state_code Delivered = 2" | "state_code Failed = 3"

definition state_of :: "int \<Rightarrow> delivery_state" where
  "state_of n = (if n = 0 then Pending else if n = 1 then Sent else if n = 2 then Delivered else Failed)"

lemma state_of_code [simp]: "state_of (state_code s) = s"
  by (cases s) (simp_all add: state_of_def)

definition item_j :: "queue_item \<Rightarrow> jval" where
  "item_j i = JArr [opt_j JStr (qi_encryptionFormat i), JBytes (qi_messageId i), JBytes (qi_recipientIdentityId i),
     JBytes (qi_encryptedEnvelope i), JNum (qi_createdAt i), opt_j JNum (qi_lastAttemptAt i), opt_j JNum (qi_nextAttemptAt i),
     JNum (int (qi_attemptCount i)), JNum (state_code (qi_deliveryState i))]"

definition item_of :: "jval \<Rightarrow> queue_item" where
  "item_of v = \<lparr>qi_encryptionFormat = opt_of jstr (jarr v ! 0), qi_messageId = jbytes (jarr v ! 1),
     qi_recipientIdentityId = jbytes (jarr v ! 2), qi_encryptedEnvelope = jbytes (jarr v ! 3), qi_createdAt = jnum (jarr v ! 4),
     qi_lastAttemptAt = opt_of jnum (jarr v ! 5), qi_nextAttemptAt = opt_of jnum (jarr v ! 6),
     qi_attemptCount = nat (jnum (jarr v ! 7)), qi_deliveryState = state_of (jnum (jarr v ! 8))\<rparr>"

definition cert_j :: "device_certificate \<Rightarrow> jval" where
  "cert_j d = JArr [JBytes (dc_accountId d), JBytes (dc_deviceId d), JBytes (dc_signingKey d), JBytes (dc_encryptionKey d),
     JNum (dc_issuedAt d), JNum (dc_expiresAt d), JNum (dc_capabilities d), JBytes (dc_rootSignature d)]"

definition cert_of :: "jval \<Rightarrow> device_certificate" where
  "cert_of v = \<lparr>dc_accountId = jbytes (jarr v ! 0), dc_deviceId = jbytes (jarr v ! 1), dc_signingKey = jbytes (jarr v ! 2),
     dc_encryptionKey = jbytes (jarr v ! 3), dc_issuedAt = jnum (jarr v ! 4), dc_expiresAt = jnum (jarr v ! 5),
     dc_capabilities = jnum (jarr v ! 6), dc_rootSignature = jbytes (jarr v ! 7)\<rparr>"

definition envelope_j :: "message_envelope \<Rightarrow> jval" where
  "envelope_j e = JArr [JNum (me_protocolVersion e), JBytes (me_messageId e), JBytes (me_conversationId e),
     JBytes (me_senderIdentityId e), JBytes (me_senderDeviceId e), JBytes (me_recipientIdentityId e),
     cert_j (me_senderCertificate e), JNum (me_senderSequence e), JArr (map JBytes (me_parentIds e)), JNum (me_createdAt e),
     JBytes (me_ciphertext e), JBytes (me_signature e)]"

definition envelope_of :: "jval \<Rightarrow> message_envelope" where
  "envelope_of v = \<lparr>me_protocolVersion = jnum (jarr v ! 0), me_messageId = jbytes (jarr v ! 1),
     me_conversationId = jbytes (jarr v ! 2), me_senderIdentityId = jbytes (jarr v ! 3), me_senderDeviceId = jbytes (jarr v ! 4),
     me_recipientIdentityId = jbytes (jarr v ! 5), me_senderCertificate = cert_of (jarr v ! 6),
     me_senderSequence = jnum (jarr v ! 7), me_parentIds = map jbytes (jarr (jarr v ! 8)), me_createdAt = jnum (jarr v ! 9),
     me_ciphertext = jbytes (jarr v ! 10), me_signature = jbytes (jarr v ! 11)\<rparr>"

definition inbox_j :: "inbox_message \<Rightarrow> jval" where
  "inbox_j m = JArr [envelope_j (im_envelope m), JStr (mp_contentType (im_payload m)), JStr (mp_text (im_payload m)),
     mp_rest (im_payload m), opt_j JNum (im_receivedAt m), JNum (if im_contentExpired m then 1 else 0)]"

definition inbox_of :: "jval \<Rightarrow> inbox_message" where
  "inbox_of v = \<lparr>im_envelope = envelope_of (jarr v ! 0), im_payload = \<lparr>mp_contentType = jstr (jarr v ! 1),
     mp_text = jstr (jarr v ! 2), mp_rest = jarr v ! 3\<rparr>, im_receivedAt = opt_of jnum (jarr v ! 4),
     im_contentExpired = (jnum (jarr v ! 5) = 1)\<rparr>"

definition credentials_j :: "device_credentials \<Rightarrow> jval" where
  "credentials_j x = JArr [JBytes (cr_identityId x), JBytes (cr_deviceId x), JBytes (cr_rootPublicKey x),
     JBytes (cr_deviceSigningSecretKey x), JBytes (cr_deviceSigningPublicKey x), cert_j (cr_deviceCertificate x)]"

definition credentials_of :: "jval \<Rightarrow> device_credentials" where
  "credentials_of v = \<lparr>cr_identityId = jbytes (jarr v ! 0), cr_deviceId = jbytes (jarr v ! 1), cr_rootPublicKey = jbytes (jarr v ! 2),
     cr_deviceSigningSecretKey = jbytes (jarr v ! 3), cr_deviceSigningPublicKey = jbytes (jarr v ! 4),
     cr_deviceCertificate = cert_of (jarr v ! 5)\<rparr>"

definition pair_j :: "dh_pair \<Rightarrow> jval" where "pair_j p = JArr [JBytes (kp_secret p), JBytes (kp_public p)]"
definition pair_of :: "jval \<Rightarrow> dh_pair" where "pair_of v = \<lparr>kp_secret = jbytes (jarr v ! 0), kp_public = jbytes (jarr v ! 1)\<rparr>"

definition prekeys_j :: "local_prekeys \<Rightarrow> jval" where
  "prekeys_j p = JArr [pair_j (lp_identityDh p), pair_j (lp_signedPrekey p), JBytes (lp_signedPrekeySig p),
     JArr (map (\<lambda>(i, k). JArr [JNum (int i), pair_j k]) (lp_oneTime p)), JNum (int (lp_nextOtpId p))]"

definition prekeys_of :: "jval \<Rightarrow> local_prekeys" where
  "prekeys_of v = \<lparr>lp_identityDh = pair_of (jarr v ! 0), lp_signedPrekey = pair_of (jarr v ! 1),
     lp_signedPrekeySig = jbytes (jarr v ! 2),
     lp_oneTime = map (\<lambda>e. (nat (jnum (jarr e ! 0)), pair_of (jarr e ! 1))) (jarr (jarr v ! 3)),
     lp_nextOtpId = nat (jnum (jarr v ! 4))\<rparr>"

fun stored_j :: "stored_value \<Rightarrow> jval" where
  "stored_j (VItem i) = JArr [JNum 0, item_j i]"
| "stored_j (VInbox m) = JArr [JNum 1, inbox_j m]"
| "stored_j (VReceipt p t) = JArr [JNum 2, p, JNum t]"
| "stored_j (VCredentials x) = JArr [JNum 3, credentials_j x]"
| "stored_j (VPrekeys x) = JArr [JNum 4, prekeys_j x]"

definition stored_of :: "jval \<Rightarrow> stored_value" where
  "stored_of v = (let t = jnum (jarr v ! 0); x = jarr v ! 1 in
     if t = 0 then VItem (item_of x) else if t = 1 then VInbox (inbox_of x) else if t = 2 then VReceipt x (jnum (jarr v ! 2))
     else if t = 3 then VCredentials (credentials_of x) else VPrekeys (prekeys_of x))"

definition nums_j :: "int list \<Rightarrow> jval" where "nums_j ns = JArr (map JNum ns)"
definition nums_of :: "jval \<Rightarrow> int list" where "nums_of v = map jnum (jarr v)"

definition ratchet_j :: "serialized_ratchet \<Rightarrow> jval" where
  "ratchet_j r = JArr [nums_j (sr_secret r), nums_j (sr_public r), opt_j nums_j (sr_DHr r), nums_j (sr_RK r),
     opt_j nums_j (sr_CKs r), opt_j nums_j (sr_CKr r), JNum (int (sr_Ns r)), JNum (int (sr_Nr r)), JNum (int (sr_PN r)),
     JArr (map (\<lambda>(k, v). JArr [JStr k, nums_j v]) (sr_skipped r))]"

definition ratchet_of :: "jval \<Rightarrow> serialized_ratchet" where
  "ratchet_of v = \<lparr>sr_secret = nums_of (jarr v ! 0), sr_public = nums_of (jarr v ! 1), sr_DHr = opt_of nums_of (jarr v ! 2),
     sr_RK = nums_of (jarr v ! 3), sr_CKs = opt_of nums_of (jarr v ! 4), sr_CKr = opt_of nums_of (jarr v ! 5),
     sr_Ns = nat (jnum (jarr v ! 6)), sr_Nr = nat (jnum (jarr v ! 7)), sr_PN = nat (jnum (jarr v ! 8)),
     sr_skipped = map (\<lambda>e. (jstr (jarr e ! 0), nums_of (jarr e ! 1))) (jarr (jarr v ! 9))\<rparr>"

lemma sample_parts [simp]:
  "item_of (item_j i) = i" "cert_of (cert_j d) = d" "pair_of (pair_j p) = p" "nums_of (nums_j ns) = ns"
  by (simp_all add: item_of_def item_j_def cert_of_def cert_j_def pair_of_def pair_j_def nums_of_def nums_j_def comp_def)

lemma sample_envelope [simp]: "envelope_of (envelope_j e) = e"
  by (simp add: envelope_of_def envelope_j_def comp_def nth_append)

lemma sample_inbox [simp]: "inbox_of (inbox_j m) = m"
  by (simp add: inbox_of_def inbox_j_def)

lemma sample_records [simp]: "credentials_of (credentials_j x) = x" "prekeys_of (prekeys_j p) = p" "ratchet_of (ratchet_j r) = r"
  by (simp_all add: credentials_of_def credentials_j_def prekeys_of_def prekeys_j_def ratchet_of_def ratchet_j_def comp_def split_beta)

lemma sample_stored [simp]: "stored_of (stored_j v) = v"
  by (cases v) (simp_all add: stored_of_def Let_def)

definition sample_codec :: dm_codec where
  "sample_codec = \<lparr>cd_encode = (\<lambda>v. put_value (stored_j v)), cd_decode = (\<lambda>b. map_option stored_of (sample_decode b)),
     js_encode = (\<lambda>r. put_value (ratchet_j r)), js_decode = (\<lambda>b. map_option ratchet_of (sample_decode b))\<rparr>"

lemma sample_codec_roundtrip: "codec_roundtrip sample_codec"
  by (simp add: codec_roundtrip_def sample_codec_def)

end
