(* ===== verification/Persistent_Properties.thy ===== *)
theory Persistent_Properties
  imports Persistent_Queue Sample_Codec
begin

text \<open>
  What the persistent device state guarantees: its queue refines the queue contract, a received
  message is committed once and together with the keys that opened it, and a client is recovered
  from its store with the credentials it was created with.
\<close>

section \<open>The queue of the device state\<close>

text \<open>
  C38. The queue kept in the encrypted device store refines the abstract outbound queue: every
  operation of \<open>PersistentDmState\<close> either throws and leaves the state as it was or acts on the
  map of queued items as the contract of \<open>OutboundQueueLike\<close> says. So under the queue manager
  a queued message stays queued, with its recipient and ciphertext, until a receipt that the sender
  can verify for that message arrives from that recipient.
\<close>

theorem persistent_queue_refines:
  assumes "dm_env c cd rnd" "dm_inv c cd st" "queued c cd st k = Some i" "qi_deliveryState i = Pending"
    and "\<forall>e \<in> set es. timely T e \<and> \<not> requeues k e"
  shows "outbound_queue (dm_ops c cd rnd) (dm_inv c cd) (queued c cd)
    \<and> ((\<exists>i'. queued c cd (fst (manager_run c (dm_ops c cd rnd) client es st)) k = Some i' \<and> still_queued i i')
      \<or> (\<exists>e \<in> set es. acknowledges c (cl_identityId client) k (qi_recipientIdentityId i) e))"
proof -
  note contract = persistent_contract [OF assms(1)]
  obtain T' where T': "T \<le> T'" "paced T' i" by (rule paced_later)
  have "\<exists>i'. queued c cd (fst (manager_run c (dm_ops c cd rnd) client es st)) k = Some i' \<and> still_queued i i'"
    if no_ack: "\<forall>e \<in> set es. \<not> acknowledges c (cl_identityId client) k (qi_recipientIdentityId i) e"
    using outbound_queue.run_keeps [OF contract assms(2) _ assms(3,4) T'(2) no_ack] assms(5) timely_mono [OF T'(1)] by blast
  then show ?thesis using contract by blast
qed

definition empty_state :: dm_state where
  "empty_state = \<lparr>ps_store = \<lparr>ds_limits = None, ds_rows = [], ds_key = replicate 32 1\<rparr>, ps_limits = None\<rparr>"

definition demo_rnd :: "string \<Rightarrow> bytes" where "demo_rnd n = replicate 24 0"

lemma sample_dm_env: "dm_env sample_crypto sample_codec demo_rnd"
  by (simp add: dm_env_def sample_aead sample_codec_roundtrip demo_rnd_def)

lemma empty_state_rows [simp]: "cell c empty_state n = None" "stored c cd empty_state n = None"
  by (simp_all add: cell_def stored_def empty_state_def device_get_def find_row_def)

lemma empty_state_inv: "dm_inv c cd empty_state"
  unfolding dm_inv_def by (simp add: dm_ok_def device_ok_def) (simp add: empty_state_def)

lemma empty_state_write: "dm_write c cd rnd n v empty_state = (st, r) \<Longrightarrow> r = Inr ()"
  by (auto simp: dm_write_def dm_put_def device_put_def over_capacity_def empty_state_def Let_def)

lemma demo_queued:
  obtains st where "dm_enqueue sample_crypto sample_codec demo_rnd demo_item empty_state = (st, Inr ())"
    "dm_inv sample_crypto sample_codec st" "queued sample_crypto sample_codec st [1] = Some demo_item"
proof -
  have g: "dm_get sample_crypto n empty_state = Inr None" for n
    by (simp add: dm_get_def empty_state_def device_get_def find_row_def)
  obtain st r where s: "dm_write sample_crypto sample_codec demo_rnd (queue_key [1]) (VItem demo_item) empty_state = (st, r)"
    by (cases "dm_write sample_crypto sample_codec demo_rnd (queue_key [1]) (VItem demo_item) empty_state")
  then have "dm_enqueue sample_crypto sample_codec demo_rnd demo_item empty_state = (st, Inr ())"
    using empty_state_write [OF s] g by (simp add: dm_enqueue_def demo_item_def queue_full_def) (simp add: empty_state_def)
  moreover from this have "dm_inv sample_crypto sample_codec st" "queued sample_crypto sample_codec st [1] = Some demo_item"
    using enqueue_contract [OF sample_dm_env empty_state_inv, of demo_item] by (simp_all add: demo_item_def)
  ultimately show thesis by (rule that)
qed

theorem persistent_queue_refines_witness:
  "\<exists>st i'. dm_enqueue sample_crypto sample_codec demo_rnd demo_item empty_state = (st, Inr ())
     \<and> queued sample_crypto sample_codec
         (fst (manager_run sample_crypto (dm_ops sample_crypto sample_codec demo_rnd) demo_client [EvPoll 5] st)) [1] = Some i'
     \<and> still_queued demo_item i'"
proof -
  obtain st where st: "dm_enqueue sample_crypto sample_codec demo_rnd demo_item empty_state = (st, Inr ())"
    "dm_inv sample_crypto sample_codec st" "queued sample_crypto sample_codec st [1] = Some demo_item" by (rule demo_queued)
  show ?thesis
    using persistent_queue_refines [OF sample_dm_env st(2,3) demo_queue(4), of "[EvPoll 5]" 5 demo_client] st(1)
    by (simp add: timely_def requeues_def del: manager_run.simps)
qed

section \<open>Receiving\<close>

lemma session_read:
  assumes "dm_env c cd rnd" "dm_inv c cd st" "cell c st (''ratchet:'' @ key) = Some (js_encode cd (serializeState s))" "jm_ok (rs_skipped s)"
  shows "dm_session c cd key st = Inr (Some s)"
  using assms deserialize_serialize [OF assms(4)]
  by (simp add: dm_session_def dm_get_cell dm_env_def dm_inv_def codec_roundtrip_def)

lemma cell_read:
  assumes "dm_env c cd rnd" "dm_inv c cd st" "cell c st n = Some (cd_encode cd v)"
  shows "dm_read c cd n st = Inr v"
  using assms dm_read_stored [of c st cd n v] by (simp add: stored_def dm_env_def dm_inv_def codec_roundtrip_def)

text \<open>
  A received message is committed exactly once and atomically. \<open>commitReceive\<close> either
  throws and changes nothing, or finds the message already in the inbox and changes nothing, or
  stores the advanced ratchet, the remaining prekeys and the message together; the queue is left
  alone, and no later commit of a message with that id changes anything.
\<close>

lemma commitReceive_once:
  assumes "dm_env c cd rnd" "dm_inv c cd st" "jm_ok (rs_skipped state)"
  shows "case commitReceive c cd rnd now key state prekeys m st of
      (st', Inl e) \<Rightarrow> st' = st
    | (st', Inr False) \<Rightarrow> st' = st \<and> hasIncoming c (me_messageId (im_envelope m)) st = Inr True
    | (st', Inr True) \<Rightarrow> dm_inv c cd st' \<and> hasIncoming c (me_messageId (im_envelope m)) st = Inr False
        \<and> dm_session c cd key st' = Inr (Some state)
        \<and> (\<forall>pk. prekeys = Some pk \<longrightarrow> dm_prekeys c cd st' = Inr pk)
        \<and> read_inbox c cd (inbox_key (me_messageId (im_envelope m))) st' = Inr (m\<lparr>im_receivedAt := Some now\<rparr>)
        \<and> queued c cd st' = queued c cd st
        \<and> (\<forall>now' key' state' prekeys' m'. me_messageId (im_envelope m') = me_messageId (im_envelope m) \<longrightarrow>
             commitReceive c cd rnd now' key' state' prekeys' m' st' = (st', Inr False))"
proof -
  let ?k = "inbox_key (me_messageId (im_envelope m))"
  obtain st' r where s: "commitReceive c cd rnd now key state prekeys m st = (st', r)"
    by (cases "commitReceive c cd rnd now key state prekeys m st")
  note cs = commitReceive_cases [OF assms(1,2) s]
  have has: "hasIncoming c i s = Inr (cell c s (inbox_key i) \<noteq> None)" if "dm_inv c cd s" for s i
    using assms(1) that by (simp add: hasIncoming_def dm_get_cell dm_env_def dm_inv_def)
  show ?thesis
  proof (cases "r = Inr True")
    case True
    then have inv: "dm_inv c cd st'" "cell c st ?k = None" and rows: "cell c st' = received_rows cd now key state prekeys m (cell c st)"
      using cs by simp_all
    have "dm_session c cd key st' = Inr (Some state)"
      by (rule session_read [OF assms(1) inv(1) _ assms(3)]) (simp add: rows received_rows_def inbox_key_def)
    moreover have "dm_prekeys c cd st' = Inr pk" if "prekeys = Some pk" for pk
      using cell_read [OF assms(1) inv(1), of "''prekeys:v1''" "VPrekeys pk"] that
      by (simp add: dm_prekeys_def rows received_rows_def inbox_key_def)
    moreover have "read_inbox c cd ?k st' = Inr (m\<lparr>im_receivedAt := Some now\<rparr>)"
      using cell_read [OF assms(1) inv(1), of ?k "VInbox (m\<lparr>im_receivedAt := Some now\<rparr>)"]
      by (simp add: read_inbox_def rows received_rows_def)
    moreover have "queued c cd st' = queued c cd st"
      by (auto simp: fun_eq_iff queued_def stored_def rows received_rows_def queue_key_def inbox_key_def)
    moreover have "commitReceive c cd rnd now' key' state' prekeys' m' st' = (st', Inr False)"
      if "me_messageId (im_envelope m') = me_messageId (im_envelope m)" for now' key' state' prekeys' m'
      using that has [OF inv(1)] by (simp add: commitReceive_def transaction_def rows received_rows_def)
    ultimately show ?thesis using s True inv has [OF assms(2)] by simp
  next
    case False
    then show ?thesis using s cs has [OF assms(2)] by (cases r) (auto split: bool.splits)
  qed
qed

text \<open>Without limits every write succeeds.\<close>

lemma unlimited_put: "ds_limits (ps_store st) = None \<Longrightarrow> \<exists>st'. dm_put c rnd n v st = (st', Inr ()) \<and> ds_limits (ps_store st') = None"
  by (auto simp: dm_put_def device_put_def over_capacity_def Let_def)

lemma unlimited_writes:
  assumes "ds_limits (ps_store st) = None"
  shows "\<exists>st'. receive_writes c cd rnd now key state prekeys m st = (st', Inr True)"
proof -
  obtain s1 where s1: "dm_saveSession c cd rnd key state st = (s1, Inr ())" "ds_limits (ps_store s1) = None"
    using unlimited_put [OF assms] unfolding dm_saveSession_def by blast
  obtain s2 where s2: "(case prekeys of None \<Rightarrow> (s1, Inr ()) | Some pk \<Rightarrow> dm_write c cd rnd ''prekeys:v1'' (VPrekeys pk) s1) = (s2, Inr ())"
    "ds_limits (ps_store s2) = None"
    using unlimited_put [OF s1(2), of c rnd "''prekeys:v1''"] s1(2) by (cases prekeys) (auto simp: dm_write_def)
  obtain s3 where "dm_write c cd rnd (inbox_key (me_messageId (im_envelope m))) (VInbox (m\<lparr>im_receivedAt := Some now\<rparr>)) s2 = (s3, Inr ())"
    using unlimited_put [OF s2(2)] unfolding dm_write_def by blast
  then show ?thesis using s1 s2 by (simp add: receive_writes_def then_do_def)
qed

definition demo_message :: inbox_message where
  "demo_message = \<lparr>im_envelope = \<lparr>me_protocolVersion = 1, me_messageId = [7], me_conversationId = [1], me_senderIdentityId = [2],
     me_senderDeviceId = [3], me_recipientIdentityId = [4], me_senderCertificate = the (is_certificate demo_signer),
     me_senderSequence = 1, me_parentIds = [], me_createdAt = 5, me_ciphertext = [6], me_signature = []\<rparr>,
     im_payload = \<lparr>mp_contentType = ''text'', mp_text = ''hi'', mp_rest = JNull\<rparr>, im_receivedAt = None, im_contentExpired = False\<rparr>"

definition demo_ratchet :: ratchet_state where
  "demo_ratchet = initResponder (demo_pair 1) (replicate 32 2)"

lemma commitReceive_once_witness:
  "\<exists>st'. commitReceive sample_crypto sample_codec demo_rnd 9 ''s'' demo_ratchet None demo_message empty_state = (st', Inr True)
     \<and> dm_session sample_crypto sample_codec ''s'' st' = Inr (Some demo_ratchet)
     \<and> commitReceive sample_crypto sample_codec demo_rnd 10 ''t'' demo_ratchet None demo_message st' = (st', Inr False)"
proof -
  have lim: "ds_limits (ps_store empty_state) = None" "ps_limits empty_state = None" by (simp_all add: empty_state_def)
  obtain s where "receive_writes sample_crypto sample_codec demo_rnd 9 ''s'' demo_ratchet None demo_message empty_state = (s, Inr True)"
    using unlimited_writes [OF lim(1)] by blast
  moreover have "hasIncoming sample_crypto [7] empty_state = Inr False"
    by (simp add: hasIncoming_def dm_get_def empty_state_def device_get_def find_row_def)
  ultimately have s: "commitReceive sample_crypto sample_codec demo_rnd 9 ''s'' demo_ratchet None demo_message empty_state = (s, Inr True)"
    using lim(2) by (simp add: commitReceive_def transaction_def demo_message_def inbox_full_def)
  have "jm_ok (rs_skipped demo_ratchet)" by (simp add: demo_ratchet_def initResponder_def)
  from commitReceive_once [OF sample_dm_env empty_state_inv this, where now = 9 and key = "''s''" and prekeys = None and m = demo_message] s show ?thesis by simp
qed

section \<open>Recovering a client\<close>

lemma dm_ok_store: "store_inv c key s \<Longrightarrow> dm_ok c \<lparr>ps_store = s, ps_limits = lim\<rparr>"
  by (simp add: dm_ok_def store_inv_def)

lemma write_store_inv:
  assumes "dm_env c cd rnd" "store_inv c key (ps_store st)" "n \<noteq> ''format''" "dm_write c cd rnd n v st = (st', r)"
  shows "store_inv c key (ps_store st')"
proof -
  have "ps_store st' = fst (device_put c (rnd n) n (cd_encode cd v) (ps_store st))"
    using assms(4) by (auto simp: dm_write_def dm_put_def split: prod.splits sum.splits)
  then show ?thesis using put_inv [OF _ assms(2) _ assms(3)] assms(1) by (simp add: dm_env_def)
qed

text \<open>The two rows \<open>recover\<close> writes when it creates a store.\<close>

lemma bootstrap_rows:
  fixes pk cr
  defines "boot \<equiv> \<lambda>c cd rnd s. then_do (dm_write c cd rnd ''credentials:v1'' (VCredentials cr) s) (\<lambda>_. dm_write c cd rnd ''prekeys:v1'' (VPrekeys pk))"
  assumes env: "dm_env c cd rnd" and inv: "store_inv c key s" and lim: "ds_limits s = None"
  obtains st where "transaction (boot c cd rnd) \<lparr>ps_store = s, ps_limits = None\<rparr> = (st, Inr ())" "store_inv c key (ps_store st)"
    "ps_limits st = None" "ds_limits (ps_store st) = None" "dm_credentials c cd st = Inr cr" "dm_prekeys c cd st = Inr pk"
proof -
  let ?s = "\<lparr>ps_store = s, ps_limits = None\<rparr>"
  have a: "aead_correct c" using env by (simp add: dm_env_def)
  obtain s1 where s1: "dm_write c cd rnd ''credentials:v1'' (VCredentials cr) ?s = (s1, Inr ())" "ds_limits (ps_store s1) = None"
    using unlimited_put [of ?s c rnd "''credentials:v1''"] lim unfolding dm_write_def by auto
  have w1: "dm_ok c s1" "ps_limits s1 = None" "stored c cd s1 = (stored c cd ?s)(''credentials:v1'' \<mapsto> VCredentials cr)"
    using dm_write_cases [OF env dm_ok_store [OF inv] s1(1)] by auto
  obtain s2 where s2: "dm_write c cd rnd ''prekeys:v1'' (VPrekeys pk) s1 = (s2, Inr ())" "ds_limits (ps_store s2) = None"
    using unlimited_put [OF s1(2), of c rnd "''prekeys:v1''"] unfolding dm_write_def by blast
  have w2: "dm_ok c s2" "ps_limits s2 = None" "stored c cd s2 = (stored c cd s1)(''prekeys:v1'' \<mapsto> VPrekeys pk)"
    using dm_write_cases [OF env w1(1) s2(1)] w1(2) by auto
  have "boot c cd rnd ?s = (s2, Inr ())" using s1 s2 by (simp add: boot_def then_do_def)
  then have "transaction (boot c cd rnd) ?s = (s2, Inr ())" by (simp add: transaction_def)
  moreover have "store_inv c key (ps_store s2)"
    using write_store_inv [OF env _ _ s2(1)] write_store_inv [OF env _ _ s1(1)] inv by simp
  moreover have "dm_read c cd ''credentials:v1'' s2 = Inr (VCredentials cr)" "dm_read c cd ''prekeys:v1'' s2 = Inr (VPrekeys pk)"
    using dm_read_stored [OF a w2(1)] w1(3) w2(3) by simp_all
  ultimately show thesis using that w2(2) s2(2) by (simp add: dm_credentials_def dm_prekeys_def)
qed

text \<open>
  Recovery of a client. Creating a client with valid device credentials in an empty directory
  succeeds, and opening that directory again gives the same credentials, prekeys and published
  bundle and leaves the file as it is. Creating with invalid credentials fails, but leaves behind a
  store that refuses from then on both to be created and to be opened.
\<close>

lemma recover_roundtrip:
  assumes "dm_env c cd rnd" "length key = 32"
  shows "\<exists>rows. (validateCredentials c cr \<longrightarrow> (\<exists>st pb.
      recover c cd rnd ik spk otp False key (Some cr) None = (Some rows, Inr (st, cr, pb))
      \<and> recover c cd rnd ik' spk' otp' False key None (Some rows) = (Some rows, Inr (st, cr, pb))
      \<and> pb = exportBundle (createLocalPrekeys c ik spk otp (cr_deviceSigningSecretKey cr)) (cr_deviceSigningPublicKey cr)))
    \<and> (\<not> validateCredentials c cr \<longrightarrow>
      recover c cd rnd ik spk otp False key (Some cr) None = (Some rows, Inl InvalidCredentials)
      \<and> recover c cd rnd ik' spk' otp' False key None (Some rows) = (Some rows, Inl MissingState)
      \<and> recover c cd rnd ik' spk' otp' False key (Some cr') (Some rows) = (Some rows, Inl (CannotOpen AlreadyExists)))"
proof -
  have a: "aead_correct c" "\<And>n. length (rnd n) = 24" using assms(1) by (simp_all add: dm_env_def)
  obtain s where s: "device_open c (rnd ''format'') False key True None = (Some (ds_rows s), Inr s)" "store_inv c key s"
    "ds_limits s = None" "map dv_name (ds_rows s) = [''format'']"
    using create_ok [OF a(1) a(2) assms(2)] .
  show ?thesis
  proof (cases "validateCredentials c cr")
    case True
    let ?pk = "createLocalPrekeys c ik spk otp (cr_deviceSigningSecretKey cr)"
    obtain st where st: "transaction (\<lambda>s. then_do (dm_write c cd rnd ''credentials:v1'' (VCredentials cr) s)
        (\<lambda>_. dm_write c cd rnd ''prekeys:v1'' (VPrekeys ?pk))) \<lparr>ps_store = s, ps_limits = None\<rparr> = (st, Inr ())"
      "store_inv c key (ps_store st)" "ps_limits st = None" "ds_limits (ps_store st) = None"
      "dm_credentials c cd st = Inr cr" "dm_prekeys c cd st = Inr ?pk"
      using bootstrap_rows [OF assms(1) s(2,3)] .
    have again: "\<lparr>ps_store = (ps_store st)\<lparr>ds_limits := None\<rparr>, ps_limits = None\<rparr> = st" using st(3,4) by (cases st) simp
    have "recover c cd rnd ik spk otp False key (Some cr) None = (Some (ds_rows (ps_store st)), Inr (st, cr, exportBundle ?pk (cr_deviceSigningPublicKey cr)))"
      unfolding recover_def using s(1) st(1,5,6) True by simp
    moreover have "recover c cd rnd ik' spk' otp' False key None (Some (ds_rows (ps_store st)))
        = (Some (ds_rows (ps_store st)), Inr (st, cr, exportBundle ?pk (cr_deviceSigningPublicKey cr)))"
      unfolding recover_def using reopen_ok [OF a(1) st(2)] again st(5,6) True by simp
    ultimately show ?thesis using True by blast
  next
    case False
    have none: "find_row ''credentials:v1'' s = None" using s(4) by (auto simp: find_row_def find_None_iff)
    have same: "s\<lparr>ds_limits := None\<rparr> = s" using s(3) by (cases s) simp
    have "recover c cd rnd ik spk otp False key (Some cr) None = (Some (ds_rows s), Inl InvalidCredentials)"
      unfolding recover_def using s(1) False by simp
    moreover have "recover c cd rnd ik' spk' otp' False key None (Some (ds_rows s)) = (Some (ds_rows s), Inl MissingState)"
      unfolding recover_def using reopen_ok [OF a(1) s(2)] same none
      by (simp add: dm_credentials_def dm_read_def dm_get_def device_get_def)
    moreover have "recover c cd rnd ik' spk' otp' False key (Some cr') (Some (ds_rows s)) = (Some (ds_rows s), Inl (CannotOpen AlreadyExists))"
      unfolding recover_def using assms(2) by (simp add: device_open_def)
    ultimately show ?thesis using False by blast
  qed
qed

definition demo_credentials :: device_credentials where
  "demo_credentials = \<lparr>cr_identityId = identityIdFromWallet sample_crypto demo_root, cr_deviceId = replicate 32 6,
     cr_rootPublicKey = demo_root, cr_deviceSigningSecretKey = replicate 32 4, cr_deviceSigningPublicKey = replicate 32 4,
     cr_deviceCertificate = the (is_certificate demo_signer)\<rparr>"

lemma demo_credentials_valid: "validateCredentials sample_crypto demo_credentials"
  unfolding validateCredentials_def demo_credentials_def demo_signer_def
  by (simp add: issueDeviceCert_def verifyDeviceCert_def deviceCertPreimage_def sample_signing)

lemma recover_roundtrip_witness:
  "\<exists>rows st pb.
     recover sample_crypto sample_codec demo_rnd (demo_pair 1) (demo_pair 2) [] False (replicate 32 1) (Some demo_credentials) None
       = (Some rows, Inr (st, demo_credentials, pb))
     \<and> recover sample_crypto sample_codec demo_rnd (demo_pair 3) (demo_pair 4) [] False (replicate 32 1) None (Some rows)
       = (Some rows, Inr (st, demo_credentials, pb))"
  using recover_roundtrip [OF sample_dm_env, where key = "replicate 32 1" and cr = demo_credentials and ik = "demo_pair 1"
      and spk = "demo_pair 2" and otp = "[]" and ik' = "demo_pair 3" and spk' = "demo_pair 4" and otp' = "[]"] demo_credentials_valid
  by auto

end
