(* ===== verification/Dm_Receive.thy ===== *)
theory Dm_Receive
  imports Dm Persistent_Properties
begin

text \<open>
  What receiving does to the state of a persistent client: retention, the commit of a message that
  opens, and nothing at all otherwise.
\<close>

section \<open>Retention\<close>

text \<open>
  What retention may do to a row: empty an inbox message that came in by the cutoff, is text or
  capabilities that were looked at, and is not empty yet; or drop the envelope of a delivered queue item
  whose receipt came in by the cutoff.
\<close>

definition expired_message :: "inbox_message \<Rightarrow> inbox_message" where
  "expired_message m = m\<lparr>im_envelope := (im_envelope m)\<lparr>me_ciphertext := []\<rparr>,
     im_payload := \<lparr>mp_contentType = ''text'', mp_text = [], mp_rest = JNull\<rparr>, im_contentExpired := True\<rparr>"

definition message_emptied :: "dm_codec \<Rightarrow> int \<Rightarrow> (string \<Rightarrow> bytes option) \<Rightarrow> string \<Rightarrow> bytes option \<Rightarrow> bool" where
  "message_emptied cd cutoff rows n b \<longleftrightarrow>
     (\<exists>m t. take 6 n = ''inbox:'' \<and> Option.bind (rows n) (cd_decode cd) = Some (VInbox m) \<and> \<not> im_contentExpired m
        \<and> im_receivedAt m = Some t \<and> t \<le> cutoff
        \<and> (mp_contentType (im_payload m) = ''text''
           \<or> mp_contentType (im_payload m) = ''agent_capabilities'' \<and> rows (''capabilities:v1:seen:'' @ n) \<noteq> None)
        \<and> b = Some (cd_encode cd (VInbox (expired_message m))))"

definition item_emptied :: "dm_codec \<Rightarrow> int \<Rightarrow> (string \<Rightarrow> bytes option) \<Rightarrow> string \<Rightarrow> bytes option \<Rightarrow> bool" where
  "item_emptied cd cutoff rows n b \<longleftrightarrow>
     (\<exists>i k t. take 6 n = ''queue:'' \<and> Option.bind (rows n) (cd_decode cd) = Some (VItem i) \<and> qi_encryptedEnvelope i \<noteq> []
        \<and> qi_deliveryState i = Delivered \<and> Option.bind (rows (receipt_key (qi_messageId i))) (cd_decode cd) = Some (VReceipt k t) \<and> t \<le> cutoff
        \<and> b = Some (cd_encode cd (VItem (i\<lparr>qi_encryptedEnvelope := []\<rparr>))))"

text \<open>Every row is as it was, or retention was due for it, which takes limits that are set.\<close>

definition aged :: "dm_codec \<Rightarrow> resource_limits option \<Rightarrow> int \<Rightarrow> (string \<Rightarrow> bytes option) \<Rightarrow> string \<Rightarrow> bytes option \<Rightarrow> bool" where
  "aged cd limits now rows n b \<longleftrightarrow> b = rows n
     \<or> (\<exists>lim. limits = Some lim \<and> (message_emptied cd (now - rl_retentionMs lim) rows n b \<or> item_emptied cd (now - rl_retentionMs lim) rows n b))"

definition retained :: "crypto \<Rightarrow> dm_codec \<Rightarrow> int \<Rightarrow> dm_state \<Rightarrow> dm_state \<Rightarrow> bool" where
  "retained c cd now st st' \<longleftrightarrow> dm_inv c cd st' \<and> ps_limits st' = ps_limits st \<and> ds_limits (ps_store st') = ds_limits (ps_store st)
     \<and> (\<forall>n. aged cd (ps_limits st) now (cell c st) n (cell c st' n))"

lemma aged_none: "aged cd limits now rows n b \<Longrightarrow> (b = None) = (rows n = None)"
  by (auto simp: aged_def message_emptied_def item_emptied_def)

lemma aged_other: "aged cd limits now rows n b \<Longrightarrow> take 6 n \<noteq> ''queue:'' \<Longrightarrow> take 6 n \<noteq> ''inbox:'' \<Longrightarrow> b = rows n"
  by (auto simp: aged_def message_emptied_def item_emptied_def)

lemma retained_rows:
  assumes "retained c cd now st st'"
  shows "(cell c st' n = None) = (cell c st n = None)" "take 6 n \<noteq> ''queue:'' \<Longrightarrow> take 6 n \<noteq> ''inbox:'' \<Longrightarrow> cell c st' n = cell c st n"
  using assms aged_none aged_other unfolding retained_def by blast+

lemma retained_refl: "dm_inv c cd st \<Longrightarrow> retained c cd now st st"
  by (simp add: retained_def aged_def)

text \<open>What was emptied is not emptied again, and what retention goes by is in rows it leaves alone.\<close>

lemma emptied_once:
  assumes "codec_roundtrip cd" "message_emptied cd k rows n b \<or> item_emptied cd k rows n b" "rows' n = b"
  shows "\<not> message_emptied cd k' rows' n b'" "\<not> item_emptied cd k' rows' n b'"
proof -
  have v: "cd_decode cd (cd_encode cd v) = Some v" for v using assms(1) by (simp add: codec_roundtrip_def)
  show "\<not> message_emptied cd k' rows' n b'" using assms(2,3) v by (auto simp: message_emptied_def item_emptied_def expired_message_def)
  show "\<not> item_emptied cd k' rows' n b'" using assms(2,3) v by (auto simp: message_emptied_def item_emptied_def expired_message_def)
qed

lemma emptied_local:
  assumes "rows' n = rows n" "\<And>n. take 6 n \<noteq> ''queue:'' \<Longrightarrow> take 6 n \<noteq> ''inbox:'' \<Longrightarrow> rows' n = rows n"
  shows "message_emptied cd k rows' n b = message_emptied cd k rows n b" "item_emptied cd k rows' n b = item_emptied cd k rows n b"
proof -
  have "rows' (''capabilities:v1:seen:'' @ n) = rows (''capabilities:v1:seen:'' @ n)" "\<And>i. rows' (receipt_key i) = rows (receipt_key i)"
    by (rule assms(2); simp)+
  then show "message_emptied cd k rows' n b = message_emptied cd k rows n b" "item_emptied cd k rows' n b = item_emptied cd k rows n b"
    using assms(1) by (simp_all add: message_emptied_def item_emptied_def)
qed

lemma retained_trans:
  assumes "codec_roundtrip cd" "retained c cd now a b" "retained c cd now b d"
  shows "retained c cd now a d"
proof -
  have lim: "ps_limits b = ps_limits a" using assms(2) by (simp add: retained_def)
  have d: "aged cd (ps_limits a) now (cell c b) n (cell c d n)" for n using assms(3) lim by (simp add: retained_def)
  have "aged cd (ps_limits a) now (cell c a) n (cell c d n)" for n
  proof (cases "cell c b n = cell c a n")
    case True
    then show ?thesis using d [of n] emptied_local [of "cell c b" n "cell c a", OF True retained_rows(2) [OF assms(2)]] by (simp add: aged_def)
  next
    case False
    have "aged cd (ps_limits a) now (cell c a) n (cell c b n)" using assms(2) by (simp add: retained_def)
    then obtain lim' :: resource_limits where
      e: "message_emptied cd (now - rl_retentionMs lim') (cell c a) n (cell c b n) \<or> item_emptied cd (now - rl_retentionMs lim') (cell c a) n (cell c b n)"
      using False by (auto simp: aged_def)
    have "cell c d n = cell c b n" using d [of n] emptied_once [OF assms(1) e, of "cell c b"] by (auto simp: aged_def)
    then show ?thesis using assms(2) by (simp add: retained_def)
  qed
  then show ?thesis using assms(2,3) by (simp add: retained_def)
qed

lemma dm_put_limits: "dm_put c rnd n v st = (st', r) \<Longrightarrow> ps_limits st' = ps_limits st \<and> ds_limits (ps_store st') = ds_limits (ps_store st)"
  by (auto simp: dm_put_def device_put_def Let_def split: if_splits prod.splits sum.splits)

lemma rewrite_row:
  assumes "dm_env c cd rnd" "dm_inv c cd st" "dm_write c cd rnd n v st = (st', r)"
    and "aged cd (ps_limits st) now (cell c st) n (Some (cd_encode cd v))"
    and "(\<exists>i. v = VItem i \<and> n = queue_key (qi_messageId i) \<and> x3dh_item i)
      \<or> (\<exists>m. v = VInbox m \<and> n = inbox_key (me_messageId (im_envelope m)))"
  shows "retained c cd now st st'"
proof -
  have ok: "dm_ok c st" using assms(2) by (simp add: dm_inv_def)
  have lim: "ps_limits st' = ps_limits st \<and> ds_limits (ps_store st') = ds_limits (ps_store st)"
    using dm_put_limits assms(3) unfolding dm_write_def by blast
  from dm_write_cases [OF assms(1) ok assms(3)] show ?thesis
  proof cases
    case 1
    then show ?thesis using retained_refl [OF assms(2)] by simp
  next
    case 2
    have "dm_inv c cd st'"
      by (rule dm_inv_upd [OF assms(2) 2(2,4,5)]) (use assms(5) in auto)
    moreover have "aged cd (ps_limits st) now (cell c st) m (cell c st' m)" for m
      using 2(4) assms(4) by (cases "m = n") (simp_all add: aged_def)
    ultimately show ?thesis using lim by (simp add: retained_def)
  qed
qed

lemma each_row_retained:
  assumes "codec_roundtrip cd"
    and "\<And>n s s' r. n \<in> set ns \<Longrightarrow> dm_inv c cd s \<Longrightarrow> ps_limits s = limits \<Longrightarrow> cell c s n \<noteq> None \<Longrightarrow> f n s = (s', r) \<Longrightarrow> retained c cd now s s'"
    and "dm_inv c cd st" "ps_limits st = limits" "\<And>n. n \<in> set ns \<Longrightarrow> cell c st n \<noteq> None" "each_row f ns st = (st', r)"
  shows "retained c cd now st st'"
  using assms(2-)
proof (induction ns arbitrary: st)
  case Nil
  then show ?case by (simp add: retained_refl)
next
  case (Cons n ns)
  obtain s1 q where s1: "f n st = (s1, q)" by (cases "f n st")
  have r1: "retained c cd now st s1" by (rule Cons.prems(1) [OF _ Cons.prems(2,3) _ s1]) (use Cons.prems(4) in auto)
  show ?case
  proof (cases q)
    case (Inl e)
    then show ?thesis using Cons.prems(5) s1 r1 by (simp add: then_do_def)
  next
    case (Inr u)
    then have rest: "each_row f ns s1 = (st', r)" using Cons.prems(5) s1 by (simp add: then_do_def)
    have i1: "dm_inv c cd s1" "ps_limits s1 = limits" using r1 Cons.prems(3) by (simp_all add: retained_def)
    have "retained c cd now s1 st'"
    proof (rule Cons.IH [OF _ i1 _ rest])
      show "retained c cd now s s'" if "m \<in> set ns" "dm_inv c cd s" "ps_limits s = limits" "cell c s m \<noteq> None" "f m s = (s', x)" for m s s' x
        by (rule Cons.prems(1) [OF _ that(2-5)]) (use that(1) in simp)
      show "cell c s1 m \<noteq> None" if "m \<in> set ns" for m using Cons.prems(4) that retained_rows(1) [OF r1] by simp
    qed
    then show ?thesis by (rule retained_trans [OF assms(1) r1])
  qed
qed

lemma retain_item_retained:
  assumes "dm_env c cd rnd" "dm_inv c cd st" "ps_limits st = Some lim" "take 6 n = ''queue:''" "cell c st n \<noteq> None"
    and "retain_item c cd rnd (now - rl_retentionMs lim) n st = (st', r)"
  shows "retained c cd now st st'"
proof -
  obtain i where i: "stored c cd st n = Some (VItem i)" "n = queue_key (qi_messageId i)" "x3dh_item i"
    using assms(2,4,5) unfolding dm_inv_def by blast
  then have read: "read_item c cd n st = Inr i"
    using dm_read_stored [of c st cd n "VItem i"] assms(1,2) by (simp add: read_item_def dm_env_def dm_inv_def)
  have get: "dm_get c k st = Inr (cell c st k)" for k using assms(1,2) by (simp add: dm_get_cell dm_env_def dm_inv_def)
  let ?v = "VItem (i\<lparr>qi_encryptedEnvelope := []\<rparr>)"
  have "st' = st \<or> dm_write c cd rnd n ?v st = (st', r) \<and> item_emptied cd (now - rl_retentionMs lim) (cell c st) n (Some (cd_encode cd ?v))"
    using assms(4,6) i(1)
    by (auto simp: retain_item_def read get item_emptied_def receipt_time_def stored_def
        split: sum.splits option.splits if_splits stored_value.splits)
  moreover have "x3dh_item (i\<lparr>qi_encryptedEnvelope := []\<rparr>)" using i(3) by (simp add: x3dh_item_def)
  ultimately show ?thesis
    using rewrite_row [OF assms(1,2), of n ?v st' r now] retained_refl [OF assms(2)] i(2) assms(3) by (auto simp: aged_def)
qed

lemma retain_message_retained:
  assumes "dm_env c cd rnd" "dm_inv c cd st" "ps_limits st = Some lim" "take 6 n = ''inbox:''" "cell c st n \<noteq> None"
    and "retain_message c cd rnd (now - rl_retentionMs lim) n st = (st', r)"
  shows "retained c cd now st st'"
proof -
  obtain m where m: "stored c cd st n = Some (VInbox m)" "n = inbox_key (me_messageId (im_envelope m))"
    using assms(2,4,5) unfolding dm_inv_def by blast
  then have read: "read_inbox c cd n st = Inr m"
    using dm_read_stored [of c st cd n "VInbox m"] assms(1,2) by (simp add: read_inbox_def dm_env_def dm_inv_def)
  have get: "dm_get c k st = Inr (cell c st k)" for k using assms(1,2) by (simp add: dm_get_cell dm_env_def dm_inv_def)
  have expired: "\<lparr>im_envelope = (im_envelope m)\<lparr>me_ciphertext := []\<rparr>, im_payload = \<lparr>mp_contentType = ''text'', mp_text = [], mp_rest = JNull\<rparr>,
      im_receivedAt = Some t, im_contentExpired = True\<rparr> = expired_message m" if "im_receivedAt m = Some t" for t
    using that by (cases m) (simp add: expired_message_def)
  let ?v = "VInbox (expired_message m)"
  have "st' = st \<or> dm_write c cd rnd n ?v st = (st', r) \<and> message_emptied cd (now - rl_retentionMs lim) (cell c st) n (Some (cd_encode cd ?v))"
    using assms(4,6) m(1)
    by (auto simp: retain_message_def read get message_emptied_def stored_def expired split: sum.splits option.splits if_splits)
  moreover have "me_messageId (im_envelope (expired_message m)) = me_messageId (im_envelope m)" by (simp add: expired_message_def)
  ultimately show ?thesis
    using rewrite_row [OF assms(1,2), of n ?v st' r now] retained_refl [OF assms(2)] m(2) assms(3) by (auto simp: aged_def)
qed

lemma retain_retained:
  assumes "dm_env c cd rnd" "dm_inv c cd st" "retain c cd rnd now st = (st', r)"
  shows "retained c cd now st st'"
proof (cases "ps_limits st")
  case None
  then show ?thesis using assms(3) retained_refl [OF assms(2)] by (simp add: retain_def)
next
  case (Some lim)
  have codec: "codec_roundtrip cd" using assms(1) by (simp add: dm_env_def)
  let ?cut = "now - rl_retentionMs lim"
  let ?op = "\<lambda>s. then_do (each_row (retain_item c cd rnd ?cut) (device_keys ''queue:'' (ps_store s)) s) (\<lambda>_ s1.
      each_row (retain_message c cd rnd ?cut) (device_keys ''inbox:'' (ps_store s1)) s1)"
  have keys: "n \<in> set (device_keys p (ps_store s)) \<longleftrightarrow> cell c s n \<noteq> None \<and> take 6 n = p" if "dm_inv c cd s" "length p = 6" for n p s
    using set_device_keys(1) [of c s p] that assms(1) by (auto simp: dm_env_def dm_inv_def)
  obtain s1 q where s1: "each_row (retain_item c cd rnd ?cut) (device_keys ''queue:'' (ps_store st)) st = (s1, q)"
    by (cases "each_row (retain_item c cd rnd ?cut) (device_keys ''queue:'' (ps_store st)) st")
  have r1: "retained c cd now st s1"
  proof (rule each_row_retained [OF codec _ assms(2) Some _ s1])
    fix n s s' x assume a: "n \<in> set (device_keys ''queue:'' (ps_store st))" "dm_inv c cd s" "ps_limits s = Some lim" "cell c s n \<noteq> None"
      "retain_item c cd rnd ?cut n s = (s', x)"
    have "take 6 n = ''queue:''" using keys [OF assms(2), of "''queue:''"] a(1) by simp
    then show "retained c cd now s s'" by (rule retain_item_retained [OF assms(1) a(2,3) _ a(4,5)])
  qed (use keys [OF assms(2), of "''queue:''"] in simp)
  have all: "retained c cd now st s2" if "?op st = (s2, x)" for s2 x
  proof (cases q)
    case (Inl e)
    then show ?thesis using that s1 r1 by (simp add: then_do_def)
  next
    case (Inr u)
    have i1: "dm_inv c cd s1" "ps_limits s1 = Some lim" using r1 Some by (simp_all add: retained_def)
    have rest: "each_row (retain_message c cd rnd ?cut) (device_keys ''inbox:'' (ps_store s1)) s1 = (s2, x)"
      using that s1 Inr by (simp add: then_do_def)
    have "retained c cd now s1 s2"
    proof (rule each_row_retained [OF codec _ i1 _ rest])
      fix n s s' x assume a: "n \<in> set (device_keys ''inbox:'' (ps_store s1))" "dm_inv c cd s" "ps_limits s = Some lim" "cell c s n \<noteq> None"
        "retain_message c cd rnd ?cut n s = (s', x)"
      have "take 6 n = ''inbox:''" using keys [OF i1(1), of "''inbox:''"] a(1) by simp
      then show "retained c cd now s s'" by (rule retain_message_retained [OF assms(1) a(2,3) _ a(4,5)])
    qed (use keys [OF i1(1), of "''inbox:''"] in simp)
    then show ?thesis by (rule retained_trans [OF codec r1])
  qed
  obtain s2 x where s2: "?op st = (s2, x)" by (cases "?op st")
  have "transaction ?op st = (st', r)" using assms(3) Some by (simp add: retain_def Let_def)
  then have "st' = st \<or> st' = s2" using transaction_eq [of ?op, OF s2] by (auto split: sum.splits)
  then show ?thesis using all [OF s2] retained_refl [OF assms(2)] by blast
qed

lemma dm_get_retained:
  assumes "dm_env c cd rnd" "dm_inv c cd st" "retained c cd now st st'" "take 6 n \<noteq> ''queue:''" "take 6 n \<noteq> ''inbox:''"
  shows "dm_get c n st' = dm_get c n st"
  using assms retained_rows(2) [OF assms(3-5)] by (simp add: retained_def dm_get_cell dm_env_def dm_inv_def)

lemma retained_reads:
  assumes "dm_env c cd rnd" "dm_inv c cd st" "retained c cd now st st'"
  shows "dm_session c cd key st' = dm_session c cd key st" "dm_prekeys c cd st' = dm_prekeys c cd st"
    "hasIncoming c i st' = hasIncoming c i st"
proof -
  show "dm_session c cd key st' = dm_session c cd key st"
    using dm_get_retained [OF assms, of "''ratchet:'' @ key"] by (simp add: dm_session_def)
  show "dm_prekeys c cd st' = dm_prekeys c cd st"
    using dm_get_retained [OF assms, of "''prekeys:v1''"] by (simp add: dm_prekeys_def dm_read_def)
  have "dm_ok c st" "dm_ok c st'" "(cell c st' (inbox_key i) = None) = (cell c st (inbox_key i) = None)" "aead_correct c"
    using assms retained_rows(1) [OF assms(3)] by (auto simp: retained_def dm_inv_def dm_env_def)
  then show "hasIncoming c i st' = hasIncoming c i st"
    by (cases "cell c st (inbox_key i)"; cases "cell c st' (inbox_key i)") (simp_all add: hasIncoming_def dm_get_cell)
qed

section \<open>Receiving\<close>

text \<open>What can be read after a commit: the message, its ratchet and prekeys; everything else as before.\<close>

lemma commit_reads:
  assumes "dm_env c cd rnd" "dm_inv c cd st" "jm_ok (rs_skipped state)" "commitReceive c cd rnd now key state prekeys m st = (st', Inr True)"
  shows "dm_inv c cd st'" "dm_session c cd key' st' = (if key' = key then Inr (Some state) else dm_session c cd key' st)"
    "dm_prekeys c cd st' = (case prekeys of None \<Rightarrow> dm_prekeys c cd st | Some pk \<Rightarrow> Inr pk)"
    "read_inbox c cd (inbox_key (me_messageId (im_envelope m))) st' = Inr (m\<lparr>im_receivedAt := Some now\<rparr>)"
    "hasIncoming c i st = Inr (cell c st (inbox_key i) \<noteq> None)"
    "hasIncoming c i st' = (if i = me_messageId (im_envelope m) then Inr True else hasIncoming c i st)"
proof -
  have inv: "dm_inv c cd st'" and rows: "cell c st' = received_rows cd now key state prekeys m (cell c st)"
    using commitReceive_cases [OF assms(1,2,4)] by simp_all
  have get: "dm_get c n s = Inr (cell c s n)" if "dm_inv c cd s" for n s
    using that assms(1) by (simp add: dm_get_cell dm_env_def dm_inv_def)
  show "dm_inv c cd st'" by (rule inv)
  show "dm_session c cd key' st' = (if key' = key then Inr (Some state) else dm_session c cd key' st)"
  proof (cases "key' = key")
    case True
    then show ?thesis
      using session_read [OF assms(1) inv _ assms(3), of key] by (simp add: rows received_rows_def inbox_key_def)
  next
    case False
    then show ?thesis
      by (simp add: dm_session_def get [OF inv] get [OF assms(2)] rows received_rows_def inbox_key_def)
  qed
  show "dm_prekeys c cd st' = (case prekeys of None \<Rightarrow> dm_prekeys c cd st | Some pk \<Rightarrow> Inr pk)"
  proof (cases prekeys)
    case None
    then show ?thesis
      by (simp add: dm_prekeys_def dm_read_def get [OF inv] get [OF assms(2)] rows received_rows_def inbox_key_def)
  next
    case (Some pk)
    then show ?thesis
      using cell_read [OF assms(1) inv, of "''prekeys:v1''" "VPrekeys pk"]
      by (simp add: dm_prekeys_def rows received_rows_def inbox_key_def)
  qed
  show "read_inbox c cd (inbox_key (me_messageId (im_envelope m))) st' = Inr (m\<lparr>im_receivedAt := Some now\<rparr>)"
    using cell_read [OF assms(1) inv, of "inbox_key (me_messageId (im_envelope m))"]
    by (simp add: read_inbox_def rows received_rows_def)
  show "hasIncoming c i st = Inr (cell c st (inbox_key i) \<noteq> None)" by (simp add: hasIncoming_def get [OF assms(2)])
  show "hasIncoming c i st' = (if i = me_messageId (im_envelope m) then Inr True else hasIncoming c i st)"
    by (simp add: hasIncoming_def get [OF assms(2)] get [OF inv] rows received_rows_def inbox_key_def)
qed

lemma current_session_persistent:
  "dw_persistent w = Some st \<Longrightarrow> current_session c cd key w = (w, case dm_session c cd key st of Inl e \<Rightarrow> Inl (StateError e) | Inr s \<Rightarrow> Inr s)"
  by (simp add: current_session_def)

lemma incoming_ratchet_persistent:
  "dw_persistent w = Some st \<Longrightarrow> fst (incoming_ratchet c cd client fresh key ct w) = w"
  by (auto simp: incoming_ratchet_def current_session_persistent Let_def split: sum.splits option.splits)

lemma deserialize_jm_ok: "jm_ok (rs_skipped (deserializeState obj))"
proof -
  have "jm_ok (foldl (\<lambda>m (k, v). jm_set k (new_uint8 v) m) m0 xs)" if "jm_ok m0" for m0 :: "(string \<times> bytes) list" and xs
    using that by (induction xs arbitrary: m0) auto
  then show ?thesis by (simp add: deserializeState_def)
qed

lemma incoming_ratchet_jm_ok:
  "incoming_ratchet c cd client fresh key ct w = (w', Inr (Some (existing, blob, consumed))) \<Longrightarrow> jm_ok (rs_skipped existing)"
  by (auto simp: incoming_ratchet_def Let_def deserialize_jm_ok initResponder_def split: sum.splits option.splits if_splits prod.splits)

lemma receipt_quiet: "OutDelivered e p \<notin> set (sendDeliveryReceipt c now client hex i)" "OutDm h b \<notin> set (sendDeliveryReceipt c now client hex i)"
  by (auto simp: sendDeliveryReceipt_def split: if_splits sum.splits)

lemma refresh_bundle_persistent:
  assumes "dw_persistent w = Some st" "dm_prekeys c cd st = Inr pk"
  shows "\<exists>w' out. refresh_bundle c cd client w = (w', out, Inr ()) \<and> dw_persistent w' = Some st \<and> set out \<subseteq> range OutPublish"
  using assms by (cases "fetchBundle (nc_identityId client) (pn_directory (dw_network w))") (auto simp add: refresh_bundle_def Let_def)

lemma store_received_persistent:
  assumes "dm_env c cd rnd" "dm_inv c cd st" "dw_persistent w = Some st" "jm_ok (rs_skipped state)"
    and "store_received c cd rnd now client key state consumed envelope payload bytes w = (w', out, r)"
  obtains (kept) "dw_persistent w' = Some st" "r \<noteq> Inr (Some ())" "out = []"
      "snd (commitReceive c cd rnd now key state (map_option (\<lambda>(m, i). without_otp m i) consumed)
        \<lparr>im_envelope = envelope, im_payload = payload, im_receivedAt = None, im_contentExpired = False\<rparr> st) \<noteq> Inr True"
    | (stored) st' where "dw_persistent w' = Some st'" "r = Inr (Some ())" "set out \<subseteq> range OutPublish"
      "commitReceive c cd rnd now key state (map_option (\<lambda>(m, i). without_otp m i) consumed)
        \<lparr>im_envelope = envelope, im_payload = payload, im_receivedAt = None, im_contentExpired = False\<rparr> st = (st', Inr True)"
proof -
  let ?pk = "map_option (\<lambda>(m, i). without_otp m i) consumed"
  let ?m = "\<lparr>im_envelope = envelope, im_payload = payload, im_receivedAt = None, im_contentExpired = False\<rparr>"
  obtain st' q where q: "commitReceive c cd rnd now key state ?pk ?m st = (st', q)"
    by (cases "commitReceive c cd rnd now key state ?pk ?m st")
  note cs = commitReceive_cases [OF assms(1,2) q]
  show ?thesis
  proof (cases "q = Inr True")
    case False
    have "st' = st" using cs False by (cases q) (auto split: bool.splits)
    moreover have "(\<exists>e. q = Inl e) \<or> q = Inr False" using False by (cases q) auto
    ultimately show ?thesis using assms(3,5) q by (intro kept) (auto simp: store_received_def)
  next
    case True
    then have st': "dm_inv c cd st'" "cell c st' = received_rows cd now key state ?pk ?m (cell c st)" using cs by simp_all
    show ?thesis
    proof (cases consumed)
      case None
      then show ?thesis using assms(3,5) q True by (intro stored [of st']) (auto simp: store_received_def)
    next
      case (Some mi)
      then obtain pk where pk: "?pk = Some pk" by simp
      have "dm_read c cd ''prekeys:v1'' st' = Inr (VPrekeys pk)"
        by (rule cell_read [OF assms(1) st'(1)]) (simp only: st'(2) pk, simp add: received_rows_def inbox_key_def)
      then have read: "dm_prekeys c cd st' = Inr pk" by (simp add: dm_prekeys_def)
      obtain w2 out2 where r2: "refresh_bundle c cd client (w\<lparr>dw_persistent := Some st'\<rparr>) = (w2, out2, Inr ())"
        "dw_persistent w2 = Some st'" "set out2 \<subseteq> range OutPublish"
        using refresh_bundle_persistent [of "w\<lparr>dw_persistent := Some st'\<rparr>" st' c cd pk client] read by auto
      then have "w' = w2" "out = out2" "r = Inr (Some ())" using assms(3,5) q True Some by (auto simp: store_received_def)
      then show ?thesis using r2 q True by (intro stored) auto
    qed
  qed
qed

text \<open>The two ends of a message that reaches a persistent client.\<close>

lemma receive_cases:
  fixes envelope
  defines "key \<equiv> x3dhSessionStoreKey (me_conversationId envelope) (me_senderIdentityId envelope)"
    and "aad \<equiv> \<lambda>mc. dm_aad mc (me_conversationId envelope) (me_senderIdentityId envelope) (me_recipientIdentityId envelope)"
  assumes "dm_env c cd rnd" "dm_inv c cd st" "dw_persistent w = Some st"
    and "handleAuthorizedDirectMessage c cd mc rnd now fresh fresh' client envelope bytes preimage w = (w', outs)"
  obtains (kept) st' where "dw_persistent w' = Some st'" "retained c cd now st st'" "\<And>e p. OutDelivered e p \<notin> set outs"
    | (delivered) st1 st' existing blob consumed state plaintext payload out where
      "ed_verify c (dc_signingKey (me_senderCertificate envelope)) preimage (me_signature envelope) = Some True"
      "retain c cd rnd now st = (st1, Inr ())" "retained c cd now st st1"
      "hasIncoming c (me_messageId envelope) st = Inr False"
      "snd (incoming_ratchet c cd client fresh key (me_ciphertext envelope) (w\<lparr>dw_persistent := Some st1\<rparr>)) = Inr (Some (existing, blob, consumed))"
      "open_sealed c fresh' blob (aad mc) existing = (state, Inr plaintext)" "mc_payload_decode mc plaintext = Some payload"
      "jm_ok (rs_skipped state)" "dw_persistent w' = Some st'"
      "commitReceive c cd rnd now key state (map_option (\<lambda>(m, i). without_otp m i) consumed)
        \<lparr>im_envelope = envelope, im_payload = payload, im_receivedAt = None, im_contentExpired = False\<rparr> st1 = (st', Inr True)"
      "set out \<subseteq> range OutPublish"
      "outs = out @ sendDeliveryReceipt c now client (toHex (me_senderIdentityId envelope)) (me_messageId envelope) @ [OutDelivered envelope payload]"
proof -
  note refl = retained_refl [OF assms(4)]
  show ?thesis
  proof (cases "ed_verify c (dc_signingKey (me_senderCertificate envelope)) preimage (me_signature envelope) = Some True")
    case False
    then have "w' = w \<and> (\<forall>e p. OutDelivered e p \<notin> set outs)"
      using assms(6) by (auto simp: handleAuthorizedDirectMessage_def Let_def split: option.splits bool.splits)
    then show ?thesis using refl assms(5) by (intro kept [of st]) auto
  next
    case sig: True
    obtain st1 r1 where ret: "retain c cd rnd now st = (st1, r1)" by (cases "retain c cd rnd now st")
    have kept1: "retained c cd now st st1" by (rule retain_retained [OF assms(3,4) ret])
    let ?w = "w\<lparr>dw_persistent := Some st1\<rparr>"
    let ?receipt = "sendDeliveryReceipt c now client (toHex (me_senderIdentityId envelope)) (me_messageId envelope)"
    note reads = retained_reads [OF assms(3,4) kept1]
    have quiet: thesis if "w' = ?w" "\<And>e p. OutDelivered e p \<notin> set outs"
      using that kept1 by (intro kept [of st1]) auto
    note H = assms(6) [unfolded handleAuthorizedDirectMessage_def Let_def, simplified sig assms(5) ret option.case bool.case prod.case]
    show ?thesis
    proof (cases r1)
      case (Inl e)
      then show ?thesis using H by (intro quiet) auto
    next
      case r1: (Inr u)
      show ?thesis
      proof (cases "hasIncoming c (me_messageId envelope) st = Inr False \<and> \<not> length (me_ciphertext envelope) < 2")
        case False
        then show ?thesis
          using H r1 by (intro quiet) (auto simp: hasIncomingMessage_def reads receipt_quiet split: sum.splits bool.splits)
      next
        case new: True
        obtain v where v: "incoming_ratchet c cd client fresh key (me_ciphertext envelope) ?w = (?w, v)"
          using incoming_ratchet_persistent [of ?w st1 c cd client fresh key "me_ciphertext envelope"]
          by (cases "incoming_ratchet c cd client fresh key (me_ciphertext envelope) ?w") simp
        have seen: "hasIncomingMessage c (me_messageId envelope) ?w = Inr False"
          using new reads(3) by (simp add: hasIncomingMessage_def)
        note H1 = H [unfolded r1 sum.case prod.case seen bool.case, simplified new v [unfolded key_def]]
        show ?thesis
        proof (cases "\<exists>existing blob consumed. v = Inr (Some (existing, blob, consumed))")
          case False
          then consider e where "v = Inl e" | "v = Inr None" by (metis old.prod.exhaust option.exhaust sum.exhaust)
          then show ?thesis
          proof cases
            case 1
            then show ?thesis using H1 [simplified 1 sum.case prod.case] by (intro quiet) auto
          next
            case 2
            then show ?thesis using H1 [simplified 2 sum.case prod.case option.case] by (intro quiet) auto
          qed
        next
          case True
          then obtain existing blob consumed where ex: "v = Inr (Some (existing, blob, consumed))" by blast
          obtain state o1 where o1: "open_sealed c fresh' blob (aad mc) existing = (state, o1)"
            by (cases "open_sealed c fresh' blob (aad mc) existing")
          show ?thesis
          proof (cases "\<exists>plaintext payload. o1 = Inr plaintext \<and> mc_payload_decode mc plaintext = Some payload")
            case False
            then show ?thesis
              using H1 ex o1 by (cases o1) (auto simp: aad_def split: option.splits intro: quiet)
          next
            case True
            then obtain plaintext payload where p: "o1 = Inr plaintext" "mc_payload_decode mc plaintext = Some payload" by blast
            have jm: "jm_ok (rs_skipped state)"
              using open_jm_ok [OF incoming_ratchet_jm_ok [OF v [unfolded ex]], of c fresh' blob "aad mc"] o1 by simp
            obtain w2 out s2 where s2: "store_received c cd rnd now client key state consumed envelope payload bytes ?w = (w2, out, s2)"
              by (cases "store_received c cd rnd now client key state consumed envelope payload bytes ?w")
            note H2 = H1 [simplified ex sum.case option.case prod.case o1 [unfolded aad_def] p s2 [unfolded key_def]]
            have inv1: "dm_inv c cd st1" using kept1 by (simp add: retained_def)
            have pers: "dw_persistent ?w = Some st1" by simp
            from assms(3) inv1 pers jm s2 show ?thesis
            proof (cases rule: store_received_persistent)
              case kept
              then show ?thesis
                using H2 kept1 by (intro that(1) [of st1]) (auto split: sum.splits option.splits)
            next
              case (stored st')
              have fin: "w' = w2" "outs = out @ ?receipt @ [OutDelivered envelope payload]" using H2 stored(2) by simp_all
              have unit: "r1 = Inr ()" using r1 by simp
              show ?thesis
              proof (rule that(2))
                show "retain c cd rnd now st = (st1, Inr ())" using ret unit by simp
                show "snd (incoming_ratchet c cd client fresh key (me_ciphertext envelope) ?w) = Inr (Some (existing, blob, consumed))"
                  using v ex by simp
                show "open_sealed c fresh' blob (aad mc) existing = (state, Inr plaintext)" using o1 p by simp
              qed (use sig kept1 new p jm stored fin in auto)
            qed
          qed
        qed
      qed
    qed
  qed
qed

end
