(* ===== verification/Dm_First.thy ===== *)
theory Dm_First
  imports Dm_Receive
begin

text \<open>
  The first message of a conversation, from the sender's \<open>sendDirectMessage\<close> to the recipient's
  \<open>onDirectMessage\<close>: the conversation id, the X3DH prefix, the two ends of the ratchet.
\<close>

section \<open>Conversations\<close>

lemma compareBytes_swap: "compareBytes b a = - compareBytes a b"
  by (induction a b rule: compareBytes.induct) auto

lemma compareBytes_zero: "compareBytes a b = 0 \<Longrightarrow> a = b"
  by (induction a b rule: compareBytes.induct) (auto split: if_splits simp: word_uint_eq_iff)

lemma deriveConversationId_comm: "deriveConversationId c a b = deriveConversationId c b a"
  using compareBytes_swap [of a b] compareBytes_zero [of a b] by (auto simp: deriveConversationId_def)

section \<open>The prefix\<close>

lemma field32_id: "length b = 32 \<Longrightarrow> field32 b = b"
  by (simp add: field32_def)

lemma prefix_roundtrip:
  assumes "length ik = 32" "length ek = 32" "\<And>i. otp = Some i \<Longrightarrow> 0 < i \<and> i < 2 ^ 32" "2 \<le> length blob"
  shows "decodeX3dhPrefix (encodeX3dhPrefix ik ek otp @ blob)
    = Some \<lparr>xp_identityDhPublic = ik, xp_ekPublic = ek, xp_otpId = otp, xp_ratchetBlob = blob\<rparr>"
proof -
  let ?n = "case otp of None \<Rightarrow> 0 | Some i \<Rightarrow> i"
  have n: "be32 (put32 ?n) = ?n" using assms(3) by (auto split: option.splits)
  have l: "length (put32 ?n) = 4" by simp
  have "decodeX3dhPrefix (encodeX3dhPrefix ik ek otp @ blob)
    = Some \<lparr>xp_identityDhPublic = ik, xp_ekPublic = ek, xp_otpId = (if ?n = 0 then None else Some ?n), xp_ratchetBlob = blob\<rparr>"
    using assms(1,2,4) l n by (simp add: decodeX3dhPrefix_def encodeX3dhPrefix_def field32_id X3DH_PREFIX_LEN_def Let_def del: length_put32)
  moreover have "(if ?n = 0 then None else Some ?n) = otp" using assms(3) by (auto split: option.splits)
  ultimately show ?thesis by simp
qed

section \<open>The ratchets\<close>

lemma first_sealed_opens:
  assumes "ratchet_primitives c" "pair_ok c ka" "length nonce = 24"
  obtains st blob st' where "seal c nonce p a (initInitiator c ka sk) = (st, Inr blob)" "2 \<le> length blob" "jm_ok (rs_skipped st)"
    "open_sealed c fresh blob a (initResponder kb sk) = (st', Inr p)"
proof -
  let ?s = "initInitiator c ka sk" and ?r = "initResponder kb sk"
  obtain rk ck where k: "kdfRk c sk (kp_public ka) = (rk, ck)" by (cases "kdfRk c sk (kp_public ka)")
  have s: "rs_CKs ?s = Some ck" "rs_DHs ?s = ka" "rs_Ns ?s = 0" "rs_PN ?s = 0" "rs_skipped ?s = []" by (simp_all add: initInitiator_def k)
  let ?h = "\<lparr>hd_dh = kp_public ka, hd_pn = 0, hd_n = 0\<rparr>"
  obtain blob where b: "seal c nonce p a ?s = (?s\<lparr>rs_CKs := Some (fst (kdfCk c ck)), rs_Ns := 1\<rparr>, Inr blob)"
    "sealed_with c a ?h (MK c ck 0) p blob"
    using seal_chain [OF s(1) assms(1) _ assms(3), of p a] assms(2) s by (auto simp: kdfCk_first)
  obtain n ct where o: "aead_dec c (MK c ck 0) n (a @ encodeHeader ?h) ct = Some p"
    "open_sealed c fresh blob a ?r =
       (case skipped_key ?r (hd_dh ?h) (hd_n ?h) of
          Some k \<Rightarrow> (?r\<lparr>rs_skipped := jm_del (skipKeyId (hd_dh ?h) (hd_n ?h)) (rs_skipped ?r)\<rparr>,
             decrypted (aead_dec c k n (a @ encodeHeader ?h) ct))
        | None \<Rightarrow> (case turn c fresh ?h ?r of (st1, Inl e) \<Rightarrow> (st1, Inl e)
             | (st1, Inr _) \<Rightarrow> receive c ?h n (a @ encodeHeader ?h) ct st1))"
    by (rule open_sealed_with [OF _ b(2)]) (use assms(1) in \<open>auto simp: ratchet_primitives_def\<close>)
  have sk: "skipped_key ?r P i = None" for P i by (simp add: skipped_key_def initResponder_def)
  have pr: "pristine ?r" "rs_Nr ?r = 0" by (simp_all add: pristine_def initResponder_def)
  have nk: "next_keys c ?r (hd_dh ?h) = Some (rk, ck)" using pr k by (simp add: next_keys_def) (simp add: initResponder_def)
  note t = turn_bootstrap [OF pr(1) nk sk pr(2)]
  let ?r1 = "?r\<lparr>rs_RK := rk, rs_CKr := Some ck, rs_DHr := Some (hd_dh ?h)\<rparr>"
  have d: "rs_DHr ?r1 = Some (hd_dh ?h)" "hd_n ?h \<le> rs_Nr ?r1 + MAX_SKIP" by simp_all
  obtain st' where "receive c ?h n (a @ encodeHeader ?h) ct ?r1 = (st', Inr p)"
    using receive_current [OF t(2) d(1) t(4) t(3) [of "hd_n ?h"] d(2)] o(1) by (metis ratchet_header.select_convs(3))
  then have "open_sealed c fresh blob a ?r = (st', Inr p)" using o(2) sk t(1) by simp
  moreover have "2 \<le> length blob" using b(2) by (auto simp: sealed_with_def)
  ultimately show ?thesis using that b(1) s(5) by (simp add: jm_ok_def)
qed

section \<open>Sending and receiving\<close>

text \<open>What \<open>senderCertificate\<close> has checked.\<close>

lemma senderCertificateD:
  assumes "senderCertificate c now client registered = Inr cert"
  shows "nc_deviceCertificate client = Some cert" "dc_accountId cert = nc_identityId client" "dc_deviceId cert = nc_deviceId client"
    "dc_issuedAt cert \<le> now" "now < dc_expiresAt cert" "nc_deviceSigningPublicKey client = Some (dc_signingKey cert)"
    "\<exists>sk. nc_deviceSigningSecretKey client = Some sk"
  using assms by (auto simp: senderCertificate_def split: option.splits if_splits bool.splits)

lemma stored_none:
  assumes "dw_persistent w = Some st" "dm_session c cd key st = Inr None"
  shows "current_session c cd key w = (w, Inr None)"
  using assms by (simp add: current_session_def)

lemma refresh_peer_persistent:
  assumes "dw_persistent w = Some st" "refresh_peer c cd si client r key w = (w1, Inr u)"
  shows "dw_persistent w1 = Some st"
  using assms by (auto simp: refresh_peer_def current_session_def split: option.splits sum.splits if_splits prod.splits)

text \<open>The material of a recipient whose bundle is out: its keys are pairs and its ids fit the prefix.\<close>

definition offered :: "crypto \<Rightarrow> local_prekeys \<Rightarrow> bytes \<Rightarrow> bool" where
  "offered c m signPk \<longleftrightarrow> material_ok c m \<and> verifyBundle c (exportBundle m signPk) = Some True
     \<and> (\<forall>i \<in> fst ` set (lp_oneTime m). 0 < i \<and> i < 2 ^ 32)"

definition used_otp :: "local_prekeys \<Rightarrow> nat option" where
  "used_otp m = (case lp_oneTime m of [] \<Rightarrow> None | (i, _) # _ \<Rightarrow> Some i)"

lemma first_seal:
  assumes "ratchet_primitives c" "dw_persistent w = Some st" "dm_session c cd key st = Inr None" "dm_prekeys c cd st = Inr m"
    and "pair_ok c (lp_identityDh m)" "pair_ok c (si_ephemeral si)" "pair_ok c (si_ratchet si)" "length (si_sealNonce si) = 24"
    and "fetchBundle r (pn_directory (dw_network w)) = Some (exportBundle mb signPk)" "offered c mb signPk"
  obtains adv blob sk x m' res st' where
    "seal_message c cd si client r key payload a w
      = (w, Inr (adv, encodeX3dhPrefix (kp_public (lp_identityDh m)) (kp_public (si_ephemeral si)) (used_otp mb) @ blob))"
    "decodeX3dhPrefix (encodeX3dhPrefix (kp_public (lp_identityDh m)) (kp_public (si_ephemeral si)) (used_otp mb) @ blob) = Some x"
    "xp_ratchetBlob x = blob" "xp_otpId x = used_otp mb"
    "x3dhRespond c mb (xp_identityDhPublic x) (xp_ekPublic x) (xp_otpId x) = (m', Inr res)" "m' = mb\<lparr>lp_oneTime := tl (lp_oneTime mb)\<rparr>"
    "xr_sk res = sk" "open_sealed c fresh' blob a (initResponder fresh sk) = (st', Inr payload)" "jm_ok (rs_skipped adv)"
proof -
  have prim: "dh_agrees c" "public_length c" using assms(1) by (simp_all add: ratchet_primitives_def)
  have mb: "material_ok c mb" "verifyBundle c (exportBundle mb signPk) = Some True" using assms(10) by (simp_all add: offered_def)
  obtain i m' res where x: "x3dhInitiate c (si_ephemeral si) (kp_secret (lp_identityDh m)) (exportBundle mb signPk) = Inr i"
    "x3dhRespond c mb (kp_public (lp_identityDh m)) (xi_ekPublic i) (xi_usedOneTimePrekeyId i) = (m', Inr res)"
    "xi_sk i = xr_sk res" "xi_ekPublic i = kp_public (si_ephemeral si)"
    "xi_usedOneTimePrekeyId i = map_option fst (if lp_oneTime mb = [] then None else Some (hd (lp_oneTime mb)))"
    "m' = mb\<lparr>lp_oneTime := tl (lp_oneTime mb)\<rparr>"
    using x3dh_exchange [OF prim(1) mb assms(5,6)] by metis
  have otp: "xi_usedOneTimePrekeyId i = used_otp mb" unfolding x(5) used_otp_def by (auto split: list.splits)
  obtain adv blob st' where s: "seal c (si_sealNonce si) payload a (initInitiator c (si_ratchet si) (xi_sk i)) = (adv, Inr blob)"
    "2 \<le> length blob" "jm_ok (rs_skipped adv)" "open_sealed c fresh' blob a (initResponder fresh (xi_sk i)) = (st', Inr payload)"
    using first_sealed_opens [OF assms(1,7,8)] by metis
  have "length (kp_public (lp_identityDh m)) = 32" "length (kp_public (si_ephemeral si)) = 32"
    using assms(5,6) prim(2) by (auto simp: pair_ok_def public_length_def)
  moreover have "0 < j \<and> j < 2 ^ 32" if "used_otp mb = Some j" for j
    using that assms(10) by (auto simp: offered_def used_otp_def split: list.splits)
  ultimately have dec: "decodeX3dhPrefix (encodeX3dhPrefix (kp_public (lp_identityDh m)) (kp_public (si_ephemeral si)) (used_otp mb) @ blob)
    = Some \<lparr>xp_identityDhPublic = kp_public (lp_identityDh m), xp_ekPublic = kp_public (si_ephemeral si), xp_otpId = used_otp mb, xp_ratchetBlob = blob\<rparr>"
    using s(2) by (intro prefix_roundtrip) auto
  have seal: "seal_message c cd si client r key payload a w
      = (w, Inr (adv, encodeX3dhPrefix (kp_public (lp_identityDh m)) (kp_public (si_ephemeral si)) (used_otp mb) @ blob))"
    using assms(2,4,9) x(1,4) s(1) otp by (simp add: seal_message_def stored_none [OF assms(2,3)] local_material_def)
  show ?thesis
    by (rule that [OF seal dec, where sk = "xi_sk i"]) (use x otp s in auto)
qed

lemma unlimited_commit:
  assumes "ds_limits (ps_store st) = None" "ps_limits st = None" "hasIncoming c (me_messageId (im_envelope m)) st = Inr False"
  shows "\<exists>st'. commitReceive c cd rnd now key state prekeys m st = (st', Inr True)"
proof -
  obtain s where "receive_writes c cd rnd now key state prekeys m st = (s, Inr True)" using unlimited_writes [OF assms(1)] by blast
  then show ?thesis using assms(2,3) by (simp add: commitReceive_def transaction_def inbox_full_def)
qed

lemma first_received:
  fixes e
  defines "key \<equiv> x3dhSessionStoreKey (me_conversationId e) (me_senderIdentityId e)"
    and "msg \<equiv> \<lambda>p. \<lparr>im_envelope = e, im_payload = p, im_receivedAt = None, im_contentExpired = False\<rparr>"
  assumes env: "dm_env c cd rnd" "dm_inv c cd st" "dw_persistent w = Some st" "ds_limits (ps_store st) = None" "ps_limits st = None"
    and new: "hasIncoming c (me_messageId e) st = Inr False" "dm_session c cd key st = Inr None" "dm_prekeys c cd st = Inr mb"
    and dec: "decodeX3dhPrefix (me_ciphertext e) = Some x"
      "x3dhRespond c mb (xp_identityDhPublic x) (xp_ekPublic x) (xp_otpId x) = (m', Inr res)"
      "open_sealed c fresh' (xp_ratchetBlob x) (dm_aad mc (me_conversationId e) (me_senderIdentityId e) (me_recipientIdentityId e))
         (initResponder fresh (xr_sk res)) = (state, Inr plaintext)" "mc_payload_decode mc plaintext = Some p"
    and sig: "ed_verify c (dc_signingKey (me_senderCertificate e)) preimage (me_signature e) = Some True"
  obtains w' out st' where
    "handleAuthorizedDirectMessage c cd mc rnd now fresh fresh' client e bytes preimage w = (w', out @ [OutDelivered e p])"
    "dw_persistent w' = Some st'"
    "commitReceive c cd rnd now key state (map_option (without_otp mb) (xp_otpId x)) (msg p) st = (st', Inr True)" "jm_ok (rs_skipped state)"
proof -
  let ?consumed = "map_option (\<lambda>i. (mb, i)) (xp_otpId x)"
  have len: "\<not> length (me_ciphertext e) < 2" using dec(1) by (auto simp: decodeX3dhPrefix_def X3DH_PREFIX_LEN_def split: if_splits)
  have same: "w\<lparr>dw_persistent := Some st\<rparr> = w" using env(3) by simp
  have ratchet: "incoming_ratchet c cd client fresh key (me_ciphertext e) w
      = (w, Inr (Some (initResponder fresh (xr_sk res), xp_ratchetBlob x, ?consumed)))"
    using env(3) new(3) dec(1,2) by (simp add: incoming_ratchet_def stored_none [OF env(3) new(2)] local_material_def)
  have jm: "jm_ok (rs_skipped state)"
    using open_jm_ok [OF incoming_ratchet_jm_ok [OF ratchet], of c fresh' "xp_ratchetBlob x"] dec(3) by (metis fst_conv)
  have pk: "map_option (\<lambda>(m, i). without_otp m i) ?consumed = map_option (without_otp mb) (xp_otpId x)"
    by (simp add: option.map_comp comp_def)
  have fresh_id: "hasIncoming c (me_messageId (im_envelope (msg p))) st = Inr False" using new(1) by (simp add: msg_def)
  obtain st' where st': "commitReceive c cd rnd now key state (map_option (without_otp mb) (xp_otpId x)) (msg p) st = (st', Inr True)"
    using unlimited_commit [OF env(4,5) fresh_id] by blast
  obtain w' out s where s: "store_received c cd rnd now client key state ?consumed e p bytes w = (w', out, s)"
    by (cases "store_received c cd rnd now client key state ?consumed e p bytes w")
  from env(1,2,3) jm s have "s = Inr (Some ()) \<and> dw_persistent w' = Some st'"
  proof (cases rule: store_received_persistent)
    case kept
    then show ?thesis using st' unfolding pk msg_def by simp
  next
    case (stored st2)
    then show ?thesis using st' unfolding pk msg_def by simp
  qed
  then have out: "s = Inr (Some ())" "dw_persistent w' = Some st'" by simp_all
  have "handleAuthorizedDirectMessage c cd mc rnd now fresh fresh' client e bytes preimage w
      = (w', (out @ sendDeliveryReceipt c now client (toHex (me_senderIdentityId e)) (me_messageId e)) @ [OutDelivered e p])"
    using env(3,5) sig len new(1) ratchet [unfolded key_def] dec(3,4) s [unfolded key_def] out(1)
    by (simp add: handleAuthorizedDirectMessage_def retain_def hasIncomingMessage_def same Let_def)
  then show ?thesis by (rule that [OF _ out(2) st' jm])
qed

text \<open>What the sender hands over.\<close>

lemma preimage_signature [simp]: "envelope_preimage mc (e\<lparr>me_signature := s\<rparr>) = envelope_preimage mc e"
  by (simp add: envelope_preimage_def envelope_object_def)

lemma signed_envelope_fields:
  fixes c mc client r cert i conv now ct
  defines "e \<equiv> signed_envelope c mc client r cert i conv now ct"
  shows "me_messageId e = i" "me_conversationId e = conv" "me_senderIdentityId e = nc_identityId client" "me_senderDeviceId e = nc_deviceId client"
    "me_recipientIdentityId e = r" "me_senderCertificate e = cert" "me_createdAt e = now" "me_ciphertext e = ct"
    "nc_deviceSigningSecretKey client = Some k \<Longrightarrow> me_signature e = ed_sign c k (envelope_preimage mc e)"
  by (simp_all add: e_def signed_envelope_def Let_def envelope_preimage_def envelope_object_def)

lemma hand_over_frame:
  assumes "hand_over c cd rnd client so key adv item w = (w', outs, Inr i)" "OutDm h frame \<in> set outs \<or> OutDirect h frame \<in> set outs"
  shows "i = qi_messageId item" "frame = qi_encryptedEnvelope item" "h = toHex (qi_recipientIdentityId item)"
  using assms by (auto simp: hand_over_def Let_def split: prod.splits sum.splits if_splits)

lemma first_sent:
  fixes c a b
  defines "conv \<equiv> deriveConversationId c a b"
  assumes "ratchet_primitives c" "nc_identityId alice = a" "senderCertificate c (si_now si) alice (si_registered si) = Inr cert"
    and "dw_persistent wa = Some sa" "dm_session c cd (x3dhSessionStoreKey conv b) sa = Inr None" "dm_prekeys c cd sa = Inr ma"
    and "pair_ok c (lp_identityDh ma)" "pair_ok c (si_ephemeral si)" "pair_ok c (si_ratchet si)" "length (si_sealNonce si) = 24"
    and "refresh_peer c cd si alice b (x3dhSessionStoreKey conv b) wa = (w1, Inr ())"
    and "fetchBundle b (pn_directory (dw_network w1)) = Some (exportBundle mb signPk)" "offered c mb signPk"
    and "sendDirectMessage c cd mc rnd si alice b message so wa = (wa', outs, Inr i)" "OutDm h frame \<in> set outs \<or> OutDirect h frame \<in> set outs"
  obtains e x m' res st' where "e = signed_envelope c mc alice b cert i conv (si_now si) (me_ciphertext e)" "frame = mc_envelope mc e"
    "decodeX3dhPrefix (me_ciphertext e) = Some x" "xp_otpId x = used_otp mb"
    "x3dhRespond c mb (xp_identityDhPublic x) (xp_ekPublic x) (xp_otpId x) = (m', Inr res)" "m' = mb\<lparr>lp_oneTime := tl (lp_oneTime mb)\<rparr>"
    "open_sealed c fresh' (xp_ratchetBlob x) (dm_aad mc conv a b) (initResponder fresh (xr_sk res)) = (st', Inr (mc_payload mc (as_payload message)))"
proof -
  let ?key = "x3dhSessionStoreKey conv b" and ?p = "mc_payload mc (as_payload message)"
  let ?id = "message_id c mc conv a b (si_now si) (si_nonce si) ?p"
  have pers: "dw_persistent w1 = Some sa" by (rule refresh_peer_persistent [OF assms(5,12)])
  obtain adv blob sk x m' res st' where f:
    "seal_message c cd si alice b ?key ?p (dm_aad mc conv a b) w1
      = (w1, Inr (adv, encodeX3dhPrefix (kp_public (lp_identityDh ma)) (kp_public (si_ephemeral si)) (used_otp mb) @ blob))"
    "decodeX3dhPrefix (encodeX3dhPrefix (kp_public (lp_identityDh ma)) (kp_public (si_ephemeral si)) (used_otp mb) @ blob) = Some x"
    "xp_ratchetBlob x = blob" "xp_otpId x = used_otp mb"
    "x3dhRespond c mb (xp_identityDhPublic x) (xp_ekPublic x) (xp_otpId x) = (m', Inr res)" "m' = mb\<lparr>lp_oneTime := tl (lp_oneTime mb)\<rparr>"
    "xr_sk res = sk" "open_sealed c fresh' blob (dm_aad mc conv a b) (initResponder fresh sk) = (st', Inr ?p)"
    by (rule first_seal [OF assms(2) pers assms(6-11,13,14)])
  let ?ct = "encodeX3dhPrefix (kp_public (lp_identityDh ma)) (kp_public (si_ephemeral si)) (used_otp mb) @ blob"
  let ?e = "signed_envelope c mc alice b cert ?id conv (si_now si) ?ct"
  have "hand_over c cd rnd alice so ?key adv (queued_envelope ?id b (mc_envelope mc ?e) (si_now si)) w1 = (wa', outs, Inr i)"
    using assms(3-5,12,15) f(1) by (auto simp: sendDirectMessage_def conv_def Let_def split: if_splits)
  from hand_over_frame [OF this assms(16)] have fr: "i = ?id" "frame = mc_envelope mc ?e" by (simp_all add: queued_envelope_def)
  show ?thesis
    by (rule that [where e = ?e and x = x and m' = m' and res = res and st' = st']) (use f fr in \<open>simp_all add: signed_envelope_fields\<close>)
qed

section \<open>The exchange\<close>

lemma onDirectMessage_handles:
  assumes "mc_envelope_decode mc bytes = Some e" "cert_fits e" "\<And>ids. allowed = Some ids \<Longrightarrow> toHex (me_senderIdentityId e) \<in> set ids"
    and "lookupRoot (me_senderIdentityId e) = Some root" "verifyDeviceCert c (me_senderCertificate e) root = Some True"
  shows "onDirectMessage c cd mc rnd now fresh fresh' client allowed lookupRoot resp registered bytes w
    = handleAuthorizedDirectMessage c cd mc rnd now fresh fresh' client e bytes (envelope_preimage mc e) w"
proof -
  have "(case allowed of None \<Rightarrow> False | Some ids \<Rightarrow> toHex (me_senderIdentityId e) \<notin> set ids) = False"
    using assms(3) by (cases allowed) auto
  then show ?thesis unfolding onDirectMessage_def Let_def assms(1) option.case by (simp add: assms)
qed

text \<open>
  The situation before the first message from \<open>a\<close> to \<open>b\<close>: both have persistent state and no
  session; the sender holds a certificate for its device key and the recipient's bundle, the
  recipient its material, room for messages, and the sender's root key.
\<close>

definition sender_ready ::
  "crypto \<Rightarrow> dm_codec \<Rightarrow> send_inputs \<Rightarrow> nexnet_client \<Rightarrow> bytes \<Rightarrow> local_prekeys \<Rightarrow> dm_world \<Rightarrow> bool" where
  "sender_ready c cd si alice b mb wa \<longleftrightarrow> (\<exists>sa ma w1 signPk dk.
     let key = x3dhSessionStoreKey (deriveConversationId c (nc_identityId alice) b) b in
     dw_persistent wa = Some sa \<and> dm_session c cd key sa = Inr None \<and> dm_prekeys c cd sa = Inr ma \<and> pair_ok c (lp_identityDh ma)
     \<and> pair_ok c (si_ephemeral si) \<and> pair_ok c (si_ratchet si) \<and> length (si_sealNonce si) = 24
     \<and> nc_deviceSigningSecretKey alice = Some dk \<and> nc_deviceSigningPublicKey alice = Some (ed_public c dk)
     \<and> refresh_peer c cd si alice b key wa = (w1, Inr ())
     \<and> fetchBundle b (pn_directory (dw_network w1)) = Some (exportBundle mb signPk) \<and> offered c mb signPk)"

definition recipient_ready ::
  "crypto \<Rightarrow> dm_codec \<Rightarrow> bytes \<Rightarrow> local_prekeys \<Rightarrow> bytes \<Rightarrow> bytes \<Rightarrow> dm_world \<Rightarrow> bool" where
  "recipient_ready c cd b mb a i wb \<longleftrightarrow> (\<exists>sb. dw_persistent wb = Some sb \<and> dm_inv c cd sb
     \<and> ds_limits (ps_store sb) = None \<and> ps_limits sb = None
     \<and> dm_session c cd (x3dhSessionStoreKey (deriveConversationId c b a) a) sb = Inr None
     \<and> dm_prekeys c cd sb = Inr mb \<and> hasIncoming c i sb = Inr False)"

lemma first_exchange:
  assumes "ratchet_primitives c" "signatures_correct c" "dm_env c cd rnd" "message_roundtrip mc"
    and "sender_ready c cd si alice b mb wa" "recipient_ready c cd b mb (nc_identityId alice) i wb"
    and "sendDirectMessage c cd mc rnda si alice b message so wa = (wa', outs, Inr i)"
    and "OutDm h frame \<in> set outs \<or> OutDirect h frame \<in> set outs"
    and "nc_deviceCertificate alice = Some cert" "lookupRoot (nc_identityId alice) = Some root" "verifyDeviceCert c cert root = Some True"
    and "allowed = None \<or> allowed = Some ids \<and> toHex (nc_identityId alice) \<in> set ids"
  obtains wb' out e sb' s where
    "onDirectMessage c cd mc rnd now fresh fresh' bob allowed lookupRoot resp registered frame wb = (wb', out @ [OutDelivered e (as_payload message)])"
    "me_messageId e = i" "me_senderIdentityId e = nc_identityId alice" "dw_persistent wb' = Some sb'" "hasIncoming c i sb' = Inr True"
    "dm_session c cd (x3dhSessionStoreKey (deriveConversationId c b (nc_identityId alice)) (nc_identityId alice)) sb' = Inr (Some s)"
    "dm_prekeys c cd sb' = Inr (mb\<lparr>lp_oneTime := tl (lp_oneTime mb)\<rparr>)"
proof -
  let ?a = "nc_identityId alice"
  let ?conv = "deriveConversationId c ?a b"
  obtain sa ma w1 signPk dk where A: "dw_persistent wa = Some sa" "dm_session c cd (x3dhSessionStoreKey ?conv b) sa = Inr None"
    "dm_prekeys c cd sa = Inr ma" "pair_ok c (lp_identityDh ma)" "pair_ok c (si_ephemeral si)" "pair_ok c (si_ratchet si)"
    "length (si_sealNonce si) = 24" "nc_deviceSigningSecretKey alice = Some dk" "nc_deviceSigningPublicKey alice = Some (ed_public c dk)"
    "refresh_peer c cd si alice b (x3dhSessionStoreKey ?conv b) wa = (w1, Inr ())"
    "fetchBundle b (pn_directory (dw_network w1)) = Some (exportBundle mb signPk)" "offered c mb signPk"
    using assms(5) by (auto simp: sender_ready_def Let_def)
  obtain sb where B: "dw_persistent wb = Some sb" "dm_inv c cd sb" "ds_limits (ps_store sb) = None" "ps_limits sb = None"
    "dm_session c cd (x3dhSessionStoreKey ?conv ?a) sb = Inr None" "dm_prekeys c cd sb = Inr mb" "hasIncoming c i sb = Inr False"
    using assms(6) deriveConversationId_comm [of c b ?a] by (auto simp: recipient_ready_def)
  obtain cert' where cert': "senderCertificate c (si_now si) alice (si_registered si) = Inr cert'"
    using assms(7) by (auto simp: sendDirectMessage_def split: if_splits sum.splits)
  note cert = senderCertificateD [OF cert'] and same = senderCertificateD(1) [OF cert', unfolded assms(9)]
  obtain e x m' res st' where e: "e = signed_envelope c mc alice b cert' i ?conv (si_now si) (me_ciphertext e)" "frame = mc_envelope mc e"
    "decodeX3dhPrefix (me_ciphertext e) = Some x" "xp_otpId x = used_otp mb"
    "x3dhRespond c mb (xp_identityDhPublic x) (xp_ekPublic x) (xp_otpId x) = (m', Inr res)" "m' = mb\<lparr>lp_oneTime := tl (lp_oneTime mb)\<rparr>"
    "open_sealed c fresh' (xp_ratchetBlob x) (dm_aad mc ?conv ?a b) (initResponder fresh (xr_sk res)) = (st', Inr (mc_payload mc (as_payload message)))"
    by (rule first_sent [OF assms(1) refl cert' A(1-7,10-12) assms(7,8)])
  have f: "me_messageId e = i" "me_conversationId e = ?conv" "me_senderIdentityId e = ?a" "me_senderDeviceId e = nc_deviceId alice"
    "me_recipientIdentityId e = b" "me_senderCertificate e = cert" "me_createdAt e = si_now si"
    "me_signature e = ed_sign c dk (envelope_preimage mc e)"
    using signed_envelope_fields [where c = c and mc = mc and client = alice and r = b and cert = cert' and i = i and conv = ?conv
      and now = "si_now si" and ct = "me_ciphertext e"] e(1) A(8) same by simp_all
  have sig: "ed_verify c (dc_signingKey (me_senderCertificate e)) (envelope_preimage mc e) (me_signature e) = Some True"
    using assms(2) [unfolded signatures_correct_def, rule_format, of dk "envelope_preimage mc e"] f(6,8) same cert(6) A(9) by simp
  have fits: "cert_fits e" using cert(2-5) same f by (simp add: cert_fits_def)
  have payload: "mc_payload_decode mc (mc_payload mc (as_payload message)) = Some (as_payload message)" "mc_envelope_decode mc frame = Some e"
    using assms(4) e(2) by (simp_all add: message_roundtrip_def)
  have handled: "onDirectMessage c cd mc rnd now fresh fresh' bob allowed lookupRoot resp registered frame wb
    = handleAuthorizedDirectMessage c cd mc rnd now fresh fresh' bob e frame (envelope_preimage mc e) wb"
    by (rule onDirectMessage_handles [OF payload(2) fits]) (use assms(10-12) f in auto)
  obtain wb' out sb' where r:
    "handleAuthorizedDirectMessage c cd mc rnd now fresh fresh' bob e frame (envelope_preimage mc e) wb = (wb', out @ [OutDelivered e (as_payload message)])"
    "dw_persistent wb' = Some sb'"
    "commitReceive c cd rnd now (x3dhSessionStoreKey (me_conversationId e) (me_senderIdentityId e)) st' (map_option (without_otp mb) (xp_otpId x))
       \<lparr>im_envelope = e, im_payload = as_payload message, im_receivedAt = None, im_contentExpired = False\<rparr> sb = (sb', Inr True)"
    "jm_ok (rs_skipped st')"
    by (rule first_received [OF assms(3) B(2,1,3,4), of e mb x m' res fresh' mc fresh st' "mc_payload mc (as_payload message)" "as_payload message"])
       (use B f e sig payload in auto)
  note reads = commit_reads [OF assms(3) B(2) r(4,3)]
  have pk: "dm_prekeys c cd sb' = Inr (mb\<lparr>lp_oneTime := tl (lp_oneTime mb)\<rparr>)"
  proof (cases "used_otp mb")
    case None
    then have "lp_oneTime mb = []" by (auto simp: used_otp_def split: list.splits)
    then show ?thesis using reads(3) None e(4) B(6) by simp
  next
    case (Some j)
    then have "m' = without_otp mb j"
      using e(4,5) by (auto simp: x3dhRespond_def without_otp_def Let_def split: option.splits)
    then show ?thesis using reads(3) Some e(4,6) by simp
  qed
  show ?thesis
  proof (rule that [OF handled [unfolded r(1)] f(1,3) r(2)])
    show "hasIncoming c i sb' = Inr True" using reads(6) [of i] f by simp
    show "dm_session c cd (x3dhSessionStoreKey (deriveConversationId c b ?a) ?a) sb' = Inr (Some st')"
      using reads(2) f deriveConversationId_comm [of c b ?a] by simp
  qed fact
qed

end
