(* ===== verification/Dm_Samples.thy ===== *)
theory Dm_Samples
  imports Dm_First
begin

text \<open>
  A concrete conversation: a codec for envelopes and payloads on which the hypotheses about it hold,
  two clients, and the first message between them.
\<close>

section \<open>A codec\<close>

definition payload_j :: "message_payload \<Rightarrow> jval" where
  "payload_j p = JArr [JStr (mp_contentType p), JStr (mp_text p), mp_rest p]"

definition payload_of :: "jval \<Rightarrow> message_payload" where
  "payload_of v = \<lparr>mp_contentType = jstr (jarr v ! 0), mp_text = jstr (jarr v ! 1), mp_rest = jarr v ! 2\<rparr>"

definition sample_messages :: message_codec where
  "sample_messages = \<lparr>mc_value = put_value, mc_payload = (\<lambda>p. put_value (payload_j p)),
     mc_payload_decode = (\<lambda>b. map_option payload_of (sample_decode b)), mc_envelope = (\<lambda>e. put_value (envelope_j e)),
     mc_envelope_decode = (\<lambda>b. map_option envelope_of (sample_decode b))\<rparr>"

lemma payload_of_j [simp]: "payload_of (payload_j p) = p"
  by (simp add: payload_j_def payload_of_def)

lemma sample_message_roundtrip: "message_roundtrip sample_messages"
  by (simp add: message_roundtrip_def sample_messages_def)

section \<open>States with prekeys\<close>

lemma prekey_state:
  obtains st where "dm_inv sample_crypto sample_codec st" "ds_limits (ps_store st) = None" "ps_limits st = None"
    "dm_prekeys sample_crypto sample_codec st = Inr m" "\<And>key. dm_session sample_crypto sample_codec key st = Inr None"
    "\<And>i. hasIncoming sample_crypto i st = Inr False" "\<And>k. dm_get sample_crypto (queue_key k) st = Inr None"
proof -
  obtain st r where st: "dm_write sample_crypto sample_codec demo_rnd ''prekeys:v1'' (VPrekeys m) empty_state = (st, r)"
    by (cases "dm_write sample_crypto sample_codec demo_rnd ''prekeys:v1'' (VPrekeys m) empty_state")
  have ok: "dm_ok sample_crypto empty_state" using empty_state_inv [of sample_crypto sample_codec] by (simp add: dm_inv_def)
  have lim: "ps_limits st = None" "ds_limits (ps_store st) = None"
    using dm_put_limits [of sample_crypto demo_rnd "''prekeys:v1''" "cd_encode sample_codec (VPrekeys m)" empty_state st r] st
    by (simp_all add: dm_write_def empty_state_def)
  from sample_dm_env ok st show ?thesis
  proof (cases rule: dm_write_cases)
    case failed
    then show ?thesis using empty_state_write [OF st] by simp
  next
    case written
    have inv: "dm_inv sample_crypto sample_codec st" by (rule dm_inv_upd [OF empty_state_inv written(2,4,5)]) simp_all
    have get: "dm_get sample_crypto n st = Inr (cell sample_crypto st n)" for n
      using inv sample_aead by (simp add: dm_get_cell dm_inv_def)
    have "dm_read sample_crypto sample_codec ''prekeys:v1'' st = Inr (VPrekeys m)"
      by (rule cell_read [OF sample_dm_env inv]) (simp add: written(4))
    then have "dm_prekeys sample_crypto sample_codec st = Inr m" by (simp add: dm_prekeys_def)
    then show ?thesis
      by (rule that [OF inv lim(2,1)]) (simp_all add: dm_session_def hasIncoming_def get written(4) inbox_key_def queue_key_def)
  qed
qed

text \<open>A send commits when there are no limits and the message is not queued yet.\<close>

lemma unlimited_send:
  assumes "dm_env c cd rnd" "dm_inv c cd st" "ds_limits (ps_store st) = None" "ps_limits st = None"
    and "x3dh_item item" "dm_get c (queue_key (qi_messageId item)) st = Inr None"
  shows "\<exists>st'. commitSend c cd rnd key state item None st = (st', Inr ())"
proof -
  have ok: "dm_ok c st" using assms(2) by (simp add: dm_inv_def)
  obtain s1 where s1: "dm_put c rnd (''ratchet:'' @ key) (js_encode cd (serializeState state)) st = (s1, Inr ())" "ds_limits (ps_store s1) = None"
    using unlimited_put [OF assms(3)] by blast
  from assms(1) ok s1(1) have "ps_limits s1 = None \<and> dm_get c (queue_key (qi_messageId item)) s1 = Inr None"
  proof (cases rule: dm_put_cases)
    case failed
    then show ?thesis by simp
  next
    case written
    then show ?thesis using assms(1,4,6) ok by (simp add: dm_get_cell dm_env_def queue_key_def)
  qed
  moreover obtain s2 where "dm_write c cd rnd (queue_key (qi_messageId item)) (VItem item) s1 = (s2, Inr ())"
    using unlimited_put [OF s1(2)] unfolding dm_write_def by blast
  ultimately show ?thesis
    using s1(1) assms(5) by (simp add: commitSend_def transaction_def dm_saveSession_def dm_enqueue_def queue_full_def x3dh_item_def then_do_def)
qed

section \<open>Two clients\<close>

definition dm_alice :: nexnet_client where
  "dm_alice = \<lparr>nc_identityId = replicate 32 9, nc_deviceId = replicate 32 6, nc_signingSecretKey = replicate 32 9,
     nc_rootPublicKey = Some demo_root, nc_deviceSigningSecretKey = Some (replicate 32 4),
     nc_deviceSigningPublicKey = Some (replicate 32 4), nc_deviceCertificate = is_certificate demo_signer, nc_online = False,
     nc_presence = False, nc_accepts = (\<lambda>_. False), nc_direct = (\<lambda>_. True)\<rparr>"

definition dm_bob :: nexnet_client where
  "dm_bob = dm_alice\<lparr>nc_identityId := replicate 32 8, nc_deviceCertificate := None\<rparr>"

definition demo_material :: local_prekeys where
  "demo_material = createLocalPrekeys sample_crypto (demo_pair 1) (demo_pair 2) [demo_pair 3] (replicate 32 7)"

definition demo_sending :: send_inputs where
  "demo_sending = \<lparr>si_now = 60, si_nonce = replicate 32 1, si_sealNonce = replicate 24 2, si_ephemeral = demo_pair 10,
     si_ratchet = demo_pair 11, si_registered = None, si_response = demo_response\<rparr>"

definition demo_options :: send_options where
  "demo_options = \<lparr>so_queue = False, so_directOnly = False, so_commitMetadata = None\<rparr>"

definition demo_network :: prekey_network where
  "demo_network = empty_network\<lparr>pn_directory := publishBundle (replicate 32 8) (exportBundle demo_material (replicate 32 7)) (pn_directory empty_network)\<rparr>"

definition demo_world :: "dm_state \<Rightarrow> dm_world" where
  "demo_world st = \<lparr>dw_persistent = Some st, dw_sessions = \<lparr>sn_sessions = [], sn_backend = None\<rparr>, dw_network = demo_network,
     dw_queue = [], dw_log = []\<rparr>"

lemma demo_pairs: "pair_ok sample_crypto (demo_pair b)"
  by (simp add: pair_ok_def demo_pair_def sample_crypto_def)

lemma sample_primitives: "ratchet_primitives sample_crypto"
  by (simp add: ratchet_primitives_def sample_aead sample_dh sample_hkdf sample_public)

lemma demo_offered: "offered sample_crypto demo_material (replicate 32 7)"
proof -
  have pairs: "list_all (pair_ok sample_crypto) [demo_pair 3]" using demo_pairs by simp
  note m = created_material [OF sample_signatures demo_pairs [of 1] demo_pairs [of 2] pairs, of "replicate 32 7"]
  moreover have "fst ` set (lp_oneTime demo_material) = {1}"
    by (simp add: demo_material_def createLocalPrekeys_def)
  ultimately show ?thesis by (simp add: offered_def demo_material_def sample_signing)
qed

lemma dm_certificate:
  "verifyDeviceCert sample_crypto (the (is_certificate demo_signer)) demo_root = Some True"
  "nc_deviceCertificate dm_alice = Some (the (is_certificate demo_signer))"
  "senderCertificate sample_crypto 60 dm_alice registered = Inr (the (is_certificate demo_signer))"
proof -
  show v: "verifyDeviceCert sample_crypto (the (is_certificate demo_signer)) demo_root = Some True"
    by (simp add: demo_signer_def issueDeviceCert_def verifyDeviceCert_def deviceCertPreimage_def sample_signing)
  show "nc_deviceCertificate dm_alice = Some (the (is_certificate demo_signer))" by (simp add: dm_alice_def demo_signer_def)
  then show "senderCertificate sample_crypto 60 dm_alice registered = Inr (the (is_certificate demo_signer))"
    using v by (simp add: senderCertificate_def dm_alice_def) (simp add: demo_signer_def issueDeviceCert_def demo_identity sample_signing)
qed

lemma demo_sender_ready:
  assumes "\<And>key. dm_session sample_crypto sample_codec key st = Inr None" "dm_prekeys sample_crypto sample_codec st = Inr demo_material"
  shows "sender_ready sample_crypto sample_codec demo_sending dm_alice (replicate 32 8) demo_material (demo_world st)"
    "refresh_peer sample_crypto sample_codec demo_sending dm_alice (replicate 32 8) key (demo_world st) = (demo_world st, Inr ())"
proof -
  show refresh: "refresh_peer sample_crypto sample_codec demo_sending dm_alice (replicate 32 8) key (demo_world st) = (demo_world st, Inr ())" for key
    by (simp add: refresh_peer_def current_session_def demo_world_def assms(1)) (simp add: dm_alice_def)
  have "fetchBundle (replicate 32 8) (pn_directory (dw_network (demo_world st))) = Some (exportBundle demo_material (replicate 32 7))"
    by (simp add: demo_world_def demo_network_def fetchBundle_def publishBundle_def jm_simps del: replicate.simps)
  moreover have "pair_ok sample_crypto (lp_identityDh demo_material)" using demo_pairs by (simp add: demo_material_def createLocalPrekeys_def)
  ultimately show "sender_ready sample_crypto sample_codec demo_sending dm_alice (replicate 32 8) demo_material (demo_world st)"
    unfolding sender_ready_def Let_def
    using assms refresh demo_offered demo_pairs
    by (intro exI [of _ st] exI [of _ demo_material] exI [of _ "demo_world st"] exI [of _ "replicate 32 7"] exI [of _ "replicate 32 4"])
       (simp add: demo_world_def demo_sending_def dm_alice_def sample_signing del: replicate.simps)
qed

lemma demo_sent:
  assumes "dm_inv sample_crypto sample_codec st" "ds_limits (ps_store st) = None" "ps_limits st = None"
    and "\<And>key. dm_session sample_crypto sample_codec key st = Inr None" "dm_prekeys sample_crypto sample_codec st = Inr demo_material"
    and "\<And>k. dm_get sample_crypto (queue_key k) st = Inr None"
  obtains wa' h frame i where
    "sendDirectMessage sample_crypto sample_codec sample_messages demo_rnd demo_sending dm_alice (replicate 32 8) (Inl ''hello'') demo_options (demo_world st)
      = (wa', [OutDirect h frame], Inr i)"
proof -
  let ?a = "nc_identityId dm_alice" and ?b = "replicate 32 8 :: bytes" and ?p = "mc_payload sample_messages (as_payload (Inl ''hello''))"
  let ?conv = "deriveConversationId sample_crypto ?a ?b"
  let ?key = "x3dhSessionStoreKey ?conv ?b" and ?id = "message_id sample_crypto sample_messages ?conv ?a ?b 60 (si_nonce demo_sending) ?p"
  let ?aad = "dm_aad sample_messages ?conv ?a ?b"
  have pers: "dw_persistent (demo_world st) = Some st" by (simp add: demo_world_def)
  have dirb: "fetchBundle ?b (pn_directory (dw_network (demo_world st))) = Some (exportBundle demo_material (replicate 32 7))"
    by (simp add: demo_world_def demo_network_def fetchBundle_def publishBundle_def jm_simps del: replicate.simps)
  have draws: "pair_ok sample_crypto (lp_identityDh demo_material)" "pair_ok sample_crypto (si_ephemeral demo_sending)"
    "pair_ok sample_crypto (si_ratchet demo_sending)" "length (si_sealNonce demo_sending) = 24"
    using demo_pairs by (simp_all add: demo_material_def createLocalPrekeys_def demo_sending_def)
  obtain adv ct where sealed: "seal_message sample_crypto sample_codec demo_sending dm_alice ?b ?key ?p ?aad (demo_world st) = (demo_world st, Inr (adv, ct))"
    by (rule first_seal [OF sample_primitives pers assms(4,5) draws dirb demo_offered]) blast
  let ?e = "signed_envelope sample_crypto sample_messages dm_alice ?b (the (is_certificate demo_signer)) ?id ?conv 60 ct"
  let ?item = "queued_envelope ?id ?b (mc_envelope sample_messages ?e) 60"
  obtain st' where st': "commitSend sample_crypto sample_codec demo_rnd ?key adv ?item None st = (st', Inr ())"
    using unlimited_send [OF sample_dm_env assms(1-3), of ?item ?key adv] assms(6) by (auto simp: queued_envelope_def x3dh_item_def)
  have "hand_over sample_crypto sample_codec demo_rnd dm_alice demo_options ?key adv ?item (demo_world st)
      = ((demo_world st)\<lparr>dw_persistent := Some st'\<rparr>, [OutDirect (toHex ?b) (mc_envelope sample_messages ?e)], Inr ?id)"
    using st' pers
    by (simp add: hand_over_def demo_options_def Let_def queued_envelope_def del: replicate.simps) (simp add: dm_alice_def del: replicate.simps)
  moreover have now: "si_now demo_sending = 60" by (simp add: demo_sending_def)
  ultimately show ?thesis
    using sealed demo_sender_ready(2) [OF assms(4,5), of ?key] dm_certificate(3) [of "si_registered demo_sending"] pers
    by (intro that) (simp add: sendDirectMessage_def demo_options_def Let_def now del: replicate.simps)
qed

end
