(* ===== verification/Dm_Properties.thy ===== *)
theory Dm_Properties
  imports Dm_Samples
begin

text \<open>
  Properties of direct messages: what a delivered message proves about its sender, that receiving
  is all or nothing for a persistent client, and that no message is delivered twice.
\<close>

section \<open>Authenticity\<close>

lemma sameCertificate_eq: "sameCertificate a b \<longleftrightarrow> a = b"
  by (cases a; cases b) (auto simp: sameCertificate_def)

text \<open>
  The root keys a client goes by: the caller's, else the one an earlier bundle proved, else one that
  derives to the sender's identity, fetched now.
\<close>

definition trusted_root :: "crypto \<Rightarrow> (bytes \<Rightarrow> bytes option) \<Rightarrow> prekey_network \<Rightarrow> bytes \<Rightarrow> bytes \<Rightarrow> bool" where
  "trusted_root c lookupRoot pn sender root \<longleftrightarrow>
     (case lookupRoot sender of
        Some r \<Rightarrow> root = r
      | None \<Rightarrow> (case verifiedRootPublicKey sender pn of Some r \<Rightarrow> root = r | None \<Rightarrow> identityIdFromWallet c root = sender))"

definition authorised ::
  "crypto \<Rightarrow> string list option \<Rightarrow> (bytes \<Rightarrow> bytes option) \<Rightarrow> device_certificate option \<Rightarrow> prekey_network \<Rightarrow> message_envelope \<Rightarrow> bool" where
  "authorised c allowed lookupRoot registered pn e \<longleftrightarrow>
     dc_accountId (me_senderCertificate e) = me_senderIdentityId e \<and> dc_deviceId (me_senderCertificate e) = me_senderDeviceId e
     \<and> dc_issuedAt (me_senderCertificate e) \<le> me_createdAt e \<and> me_createdAt e \<le> dc_expiresAt (me_senderCertificate e)
     \<and> (\<forall>ids. allowed = Some ids \<longrightarrow> toHex (me_senderIdentityId e) \<in> set ids)
     \<and> (registered = Some (me_senderCertificate e)
        \<or> (\<exists>root. trusted_root c lookupRoot pn (me_senderIdentityId e) root \<and> verifyDeviceCert c (me_senderCertificate e) root = Some True))"

lemma fetched_root:
  assumes "fetchBundleRemote c now sender resp pn = (pn', Inr r)" "verifiedRootPublicKey sender pn' = Some root" "verifiedRootPublicKey sender pn = None"
  shows "identityIdFromWallet c root = sender"
proof (cases r)
  case None
  then have "pn' = pn" using assms(1) by (auto simp: fetchBundleRemote_def Let_def split: if_splits option.splits sum.splits simp del: jfield.simps)
  then show ?thesis using assms(2,3) by simp
next
  case (Some b)
  show ?thesis
  proof (rule fetched_facts [OF assms(1) [unfolded Some]])
    fix json signed p
    assume "identity_signed c ''prekeys.publish'' sender (JObj (without_auth signed)) now (ip_rootPublicKey p)"
      "pn' = pn\<lparr>pn_verifiedRootKeys := jm_set (toHex sender) (ip_rootPublicKey p) (pn_verifiedRootKeys pn),
       pn_directory := publishBundle sender b (pn_directory pn)\<rparr>"
    then show ?thesis using assms(2) by (simp add: identity_signed_def verifiedRootPublicKey_def jm_simps)
  qed
qed

lemma onDirectMessage_cases:
  assumes "onDirectMessage c cd mc rnd now fresh fresh' client allowed lookupRoot resp registered bytes w = (w', outs)"
  obtains (dropped) "dw_persistent w' = dw_persistent w" "outs = []"
    | (handled) envelope pn where "mc_envelope_decode mc bytes = Some envelope"
      "authorised c allowed lookupRoot registered (dw_network w) envelope"
      "handleAuthorizedDirectMessage c cd mc rnd now fresh fresh' client envelope bytes (envelope_preimage mc envelope)
        (w\<lparr>dw_network := pn\<rparr>) = (w', outs)"
proof (cases "mc_envelope_decode mc bytes")
  case None
  then show ?thesis using assms by (intro dropped) (auto simp: onDirectMessage_def)
next
  case (Some e)
  let ?sender = "me_senderIdentityId e"
  let ?handle = "handleAuthorizedDirectMessage c cd mc rnd now fresh fresh' client e bytes (envelope_preimage mc e)"
  let ?resolve = "\<lambda>w'. case registered of None \<Rightarrow> (w', []) | Some r \<Rightarrow> if sameCertificate (me_senderCertificate e) r then ?handle w' else (w', [])"
  let ?list = "\<forall>ids. allowed = Some ids \<longrightarrow> toHex ?sender \<in> set ids"
  let ?by = "\<lambda>root (w :: dm_world). case verifyDeviceCert c (me_senderCertificate e) root of
      None \<Rightarrow> (w, []) | Some True \<Rightarrow> ?handle w | Some False \<Rightarrow> ?resolve w"
  let ?rootPk = "case lookupRoot ?sender of Some r \<Rightarrow> Some r | None \<Rightarrow> verifiedRootPublicKey ?sender (dw_network w)"
  show ?thesis
  proof (cases "cert_fits e \<and> ?list")
    case False
    then have "(w', outs) = (w, [])"
      unfolding assms [symmetric] by (cases allowed) (simp_all only: onDirectMessage_def Some Let_def option.case if_True if_False, auto)
    then show ?thesis by (intro dropped) auto
  next
    case fits: True
    have handle: thesis if "?handle (w\<lparr>dw_network := pn\<rparr>) = (w', outs)" "registered = Some (me_senderCertificate e)
        \<or> (\<exists>root. trusted_root c lookupRoot (dw_network w) ?sender root \<and> verifyDeviceCert c (me_senderCertificate e) root = Some True)" for pn
      using that fits by (intro handled [OF Some _ that(1)]) (auto simp: authorised_def cert_fits_def)
    have resolve: thesis if "?resolve (w\<lparr>dw_network := pn\<rparr>) = (w', outs)" for pn
    proof (cases "registered = Some (me_senderCertificate e)")
      case True
      then show ?thesis using that by (intro handle [of pn]) (auto simp: sameCertificate_eq)
    next
      case False
      then have "(w', outs) = (w\<lparr>dw_network := pn\<rparr>, [])"
        unfolding that [symmetric] by (cases registered) (auto simp: sameCertificate_eq)
      then show ?thesis by (intro dropped) auto
    qed
    have checked: thesis if "?by root (w\<lparr>dw_network := pn\<rparr>) = (w', outs)" "trusted_root c lookupRoot (dw_network w) ?sender root" for root pn
    proof (cases "verifyDeviceCert c (me_senderCertificate e) root")
      case None
      then show ?thesis using that(1) by (intro dropped) auto
    next
      case (Some b)
      then show ?thesis using that resolve handle by (cases b) auto
    qed
    have pass: "(case allowed of None \<Rightarrow> False | Some ids \<Rightarrow> toHex ?sender \<notin> set ids) = False" "cert_fits e = True"
      using fits by (auto split: option.splits)
    note H = assms [unfolded onDirectMessage_def Let_def Some option.case pass if_False not_True_eq_False]
    have same: "w\<lparr>dw_network := dw_network w\<rparr> = w" by simp
    show ?thesis
    proof (cases ?rootPk)
      case (Some root)
      have "?by root w = (w', outs)" using H unfolding Some option.case .
      moreover have "trusted_root c lookupRoot (dw_network w) ?sender root"
        using Some by (auto simp: trusted_root_def split: option.splits)
      ultimately show ?thesis by (rule checked [where pn = "dw_network w", unfolded same])
    next
      case None
      have rest: "(if \<not> nc_presence client then ?resolve w else (case fetchBundleRemote c now ?sender resp (dw_network w) of
           (pn, r) \<Rightarrow> (case (case r of Inl _ \<Rightarrow> None | Inr _ \<Rightarrow> verifiedRootPublicKey ?sender pn) of
              None \<Rightarrow> ?resolve (w\<lparr>dw_network := pn\<rparr>) | Some root \<Rightarrow> ?by root (w\<lparr>dw_network := pn\<rparr>)))) = (w', outs)"
        using H unfolding None option.case .
      obtain pn r where f: "fetchBundleRemote c now ?sender resp (dw_network w) = (pn, r)"
        by (cases "fetchBundleRemote c now ?sender resp (dw_network w)")
      let ?fetched = "case r of Inl _ \<Rightarrow> None | Inr _ \<Rightarrow> verifiedRootPublicKey ?sender pn"
      show ?thesis
      proof (cases "nc_presence client")
        case False
        then have "?resolve w = (w', outs)" using rest by (simp only: not_False_eq_True if_True)
        then show ?thesis by (rule resolve [of "dw_network w", unfolded same])
      next
        case True
        show ?thesis
        proof (cases ?fetched)
          case None
          have "?resolve (w\<lparr>dw_network := pn\<rparr>) = (w', outs)"
            using rest unfolding f prod.case None option.case by (simp only: True not_True_eq_False if_False)
          then show ?thesis by (rule resolve)
        next
          case (Some root)
          have "?by root (w\<lparr>dw_network := pn\<rparr>) = (w', outs)"
            using rest unfolding f prod.case Some option.case by (simp only: True not_True_eq_False if_False)
          moreover obtain b where "r = Inr b" "verifiedRootPublicKey ?sender pn = Some root" using Some by (cases r) auto
          then have "trusted_root c lookupRoot (dw_network w) ?sender root"
            using fetched_root [of c now ?sender resp "dw_network w" pn b root] f \<open>?rootPk = None\<close>
            by (auto simp: trusted_root_def split: option.splits)
          ultimately show ?thesis by (rule checked)
        qed
      qed
    qed
  qed
qed

lemma store_received_quiet:
  "store_received c cd rnd now client key state consumed envelope payload bytes w = (w', out, r) \<Longrightarrow> \<forall>e p. OutDelivered e p \<notin> set out"
  by (auto simp: store_received_def refresh_bundle_def Let_def split: option.splits sum.splits bool.splits prod.splits if_splits)

lemma handled_delivery:
  assumes "handleAuthorizedDirectMessage c cd mc rnd now fresh fresh' client envelope bytes preimage w = (w', outs)" "OutDelivered e p \<in> set outs"
  shows "e = envelope \<and> ed_verify c (dc_signingKey (me_senderCertificate envelope)) preimage (me_signature envelope) = Some True
    \<and> (\<exists>existing blob state plaintext. open_sealed c fresh' blob (dm_aad mc (me_conversationId e) (me_senderIdentityId e) (me_recipientIdentityId e)) existing
       = (state, Inr plaintext) \<and> mc_payload_decode mc plaintext = Some p)"
  using assms unfolding handleAuthorizedDirectMessage_def Let_def
  by (auto simp: receipt_quiet dest!: store_received_quiet split: option.splits bool.splits sum.splits prod.splits if_splits; blast)

text \<open>
  C2. A delivered message is authentic. Whatever bytes arrive, a message is delivered to the
  application only if the bytes are its envelope, the signature over all its other fields verifies
  under the device key of the certificate it carries, that certificate names the sender and its
  device and is in force at the time of the message, and the certificate is vouched for: by the
  sender's root key, which the caller supplied, an earlier bundle proved, or was fetched now and
  derives to the sender's identity, or by being the one registered for the device. The payload is
  what the ratchet opened with the conversation, sender and recipient as associated data, and a
  sender that is not on a given allow list never gets through.
\<close>

theorem delivered_message_authentic:
  assumes "onDirectMessage c cd mc rnd now fresh fresh' client allowed lookupRoot resp registered bytes w = (w', outs)"
    and "OutDelivered e p \<in> set outs"
  shows "mc_envelope_decode mc bytes = Some e \<and> authorised c allowed lookupRoot registered (dw_network w) e
    \<and> ed_verify c (dc_signingKey (me_senderCertificate e)) (envelope_preimage mc e) (me_signature e) = Some True
    \<and> (\<exists>ratchet blob state plaintext. open_sealed c fresh' blob (dm_aad mc (me_conversationId e) (me_senderIdentityId e) (me_recipientIdentityId e)) ratchet
         = (state, Inr plaintext) \<and> mc_payload_decode mc plaintext = Some p)"
  using assms(1)
proof (cases rule: onDirectMessage_cases)
  case dropped
  then show ?thesis using assms(2) by simp
next
  case (handled envelope pn)
  then show ?thesis using handled_delivery [OF handled(3) assms(2)] by auto
qed

lemma demo_exchange:
  obtains wa wa' frame i h wb where
    "sender_ready sample_crypto sample_codec demo_sending dm_alice (replicate 32 8) demo_material wa"
    "recipient_ready sample_crypto sample_codec (replicate 32 8) demo_material (nc_identityId dm_alice) i wb"
    "sendDirectMessage sample_crypto sample_codec sample_messages demo_rnd demo_sending dm_alice (replicate 32 8) (Inl ''hello'') demo_options wa
      = (wa', [OutDirect h frame], Inr i)"
proof -
  obtain st where st: "dm_inv sample_crypto sample_codec st" "ds_limits (ps_store st) = None" "ps_limits st = None"
    "dm_prekeys sample_crypto sample_codec st = Inr demo_material" "\<And>key. dm_session sample_crypto sample_codec key st = Inr None"
    "\<And>i. hasIncoming sample_crypto i st = Inr False" "\<And>k. dm_get sample_crypto (queue_key k) st = Inr None"
    using prekey_state [of demo_material] by blast
  obtain wa' h frame i where sent:
    "sendDirectMessage sample_crypto sample_codec sample_messages demo_rnd demo_sending dm_alice (replicate 32 8) (Inl ''hello'') demo_options (demo_world st)
      = (wa', [OutDirect h frame], Inr i)"
    by (rule demo_sent [OF st(1-3,5,4,7)])
  have "recipient_ready sample_crypto sample_codec (replicate 32 8) demo_material (nc_identityId dm_alice) i (demo_world st)"
    using st by (auto simp: recipient_ready_def demo_world_def)
  then show ?thesis by (rule that [OF demo_sender_ready(1) [OF st(5,4)] _ sent])
qed

definition demo_lookup :: "bytes \<Rightarrow> bytes option" where "demo_lookup i = Some demo_root"

lemma demo_delivered:
  obtains frame wb wb' out e where
    "onDirectMessage sample_crypto sample_codec sample_messages demo_rnd 70 (demo_pair 12) (demo_pair 13) dm_bob None demo_lookup demo_response None frame wb
      = (wb', out @ [OutDelivered e (as_payload (Inl ''hello''))])"
    "\<exists>st. dw_persistent wb = Some st \<and> dm_inv sample_crypto sample_codec st"
proof -
  obtain wa wa' frame i h wb where d:
    "sender_ready sample_crypto sample_codec demo_sending dm_alice (replicate 32 8) demo_material wa"
    "recipient_ready sample_crypto sample_codec (replicate 32 8) demo_material (nc_identityId dm_alice) i wb"
    "sendDirectMessage sample_crypto sample_codec sample_messages demo_rnd demo_sending dm_alice (replicate 32 8) (Inl ''hello'') demo_options wa
      = (wa', [OutDirect h frame], Inr i)"
    by (rule demo_exchange)
  have out: "OutDm h frame \<in> set [OutDirect h frame] \<or> OutDirect h frame \<in> set [OutDirect h frame]" by simp
  have look: "demo_lookup (nc_identityId dm_alice) = Some demo_root" by (simp add: demo_lookup_def)
  have all: "(None :: string list option) = None \<or> None = Some [] \<and> toHex (nc_identityId dm_alice) \<in> set []" by simp
  obtain wb' out' e where "onDirectMessage sample_crypto sample_codec sample_messages demo_rnd 70 (demo_pair 12) (demo_pair 13) dm_bob None demo_lookup
      demo_response None frame wb = (wb', out' @ [OutDelivered e (as_payload (Inl ''hello''))])"
    by (rule first_exchange [where lookupRoot = demo_lookup, OF sample_primitives sample_signatures sample_dm_env sample_message_roundtrip d out dm_certificate(2) look dm_certificate(1) all])
  moreover have "\<exists>st. dw_persistent wb = Some st \<and> dm_inv sample_crypto sample_codec st" using d(2) by (auto simp: recipient_ready_def)
  ultimately show ?thesis by (rule that)
qed

theorem delivered_message_authentic_witness:
  "\<exists>frame wb wb' outs e p. onDirectMessage sample_crypto sample_codec sample_messages demo_rnd 70 (demo_pair 12) (demo_pair 13) dm_bob None demo_lookup
       demo_response None frame wb = (wb', outs) \<and> OutDelivered e p \<in> set outs
     \<and> ed_verify sample_crypto (dc_signingKey (me_senderCertificate e)) (envelope_preimage sample_messages e) (me_signature e) = Some True"
proof -
  obtain frame wb wb' out e where d:
    "onDirectMessage sample_crypto sample_codec sample_messages demo_rnd 70 (demo_pair 12) (demo_pair 13) dm_bob None demo_lookup demo_response None frame wb
      = (wb', out @ [OutDelivered e (as_payload (Inl ''hello''))])"
    by (rule demo_delivered)
  have m: "OutDelivered e (as_payload (Inl ''hello'')) \<in> set (out @ [OutDelivered e (as_payload (Inl ''hello''))])" by simp
  from delivered_message_authentic [OF d m] d m show ?thesis by blast
qed

text \<open>
  C1. The first message of a conversation arrives. Let two clients with persistent state have no
  session with each other (\<open>sender_ready\<close>, \<open>recipient_ready\<close>), the sender the recipient's
  verified bundle and a certificate, the recipient the sender's root key. Then the frame that
  \<open>sendDirectMessage\<close> hands to the relay or the data channel makes the recipient's
  \<open>onDirectMessage\<close> deliver exactly the payload that was sent, under the id the sender was
  given; the message is stored, the one-time prekey is used up, and the session the recipient's own
  reply will look for is in place.
\<close>

theorem first_message_delivered:
  assumes "ratchet_primitives c" "signatures_correct c" "dm_env c cd rnd" "message_roundtrip mc"
    and "sender_ready c cd si alice b mb wa" "recipient_ready c cd b mb (nc_identityId alice) i wb"
    and "sendDirectMessage c cd mc rnda si alice b message so wa = (wa', outs, Inr i)"
    and "OutDm h frame \<in> set outs \<or> OutDirect h frame \<in> set outs"
    and "nc_deviceCertificate alice = Some cert" "lookupRoot (nc_identityId alice) = Some root" "verifyDeviceCert c cert root = Some True"
    and "allowed = None \<or> allowed = Some ids \<and> toHex (nc_identityId alice) \<in> set ids"
  shows "\<exists>wb' out e sb' s. onDirectMessage c cd mc rnd now fresh fresh' bob allowed lookupRoot resp registered frame wb
      = (wb', out @ [OutDelivered e (as_payload message)])
    \<and> me_messageId e = i \<and> me_senderIdentityId e = nc_identityId alice \<and> dw_persistent wb' = Some sb' \<and> hasIncoming c i sb' = Inr True
    \<and> dm_session c cd (x3dhSessionStoreKey (deriveConversationId c b (nc_identityId alice)) (nc_identityId alice)) sb' = Inr (Some s)
    \<and> dm_prekeys c cd sb' = Inr (mb\<lparr>lp_oneTime := tl (lp_oneTime mb)\<rparr>)"
  by (rule first_exchange [where lookupRoot = lookupRoot, OF assms]) blast

theorem first_message_delivered_witness:
  "\<exists>wa wa' frame i h wb wb' out e.
     sendDirectMessage sample_crypto sample_codec sample_messages demo_rnd demo_sending dm_alice (replicate 32 8) (Inl ''hello'') demo_options wa
       = (wa', [OutDirect h frame], Inr i)
     \<and> onDirectMessage sample_crypto sample_codec sample_messages demo_rnd 70 (demo_pair 12) (demo_pair 13) dm_bob None demo_lookup demo_response None frame wb
       = (wb', out @ [OutDelivered e (as_payload (Inl ''hello''))]) \<and> me_messageId e = i"
proof -
  obtain wa wa' frame i h wb where d:
    "sender_ready sample_crypto sample_codec demo_sending dm_alice (replicate 32 8) demo_material wa"
    "recipient_ready sample_crypto sample_codec (replicate 32 8) demo_material (nc_identityId dm_alice) i wb"
    "sendDirectMessage sample_crypto sample_codec sample_messages demo_rnd demo_sending dm_alice (replicate 32 8) (Inl ''hello'') demo_options wa
      = (wa', [OutDirect h frame], Inr i)"
    by (rule demo_exchange)
  have out: "OutDm h frame \<in> set [OutDirect h frame] \<or> OutDirect h frame \<in> set [OutDirect h frame]" by simp
  have look: "demo_lookup (nc_identityId dm_alice) = Some demo_root" by (simp add: demo_lookup_def)
  have all: "(None :: string list option) = None \<or> None = Some [] \<and> toHex (nc_identityId dm_alice) \<in> set []" by simp
  from first_message_delivered [where lookupRoot = demo_lookup, OF sample_primitives sample_signatures sample_dm_env sample_message_roundtrip d out
      dm_certificate(2) look dm_certificate(1) all, where now = 70 and fresh = "demo_pair 12" and fresh' = "demo_pair 13" and bob = dm_bob
      and resp = demo_response and registered = None] d(3)
  show ?thesis by blast
qed

section \<open>All or nothing, and at most once\<close>

lemma incoming_consumed:
  assumes "dw_persistent w = Some st" "snd (incoming_ratchet c cd client fresh key ct w) = Inr (Some (existing, blob, consumed))"
  shows "(\<exists>s. dm_session c cd key st = Inr (Some s)) \<and> consumed = None
    \<or> dm_session c cd key st = Inr None \<and> (\<exists>x m. decodeX3dhPrefix ct = Some x \<and> dm_prekeys c cd st = Inr m \<and> consumed = map_option (Pair m) (xp_otpId x))"
  using assms
  by (auto simp: incoming_ratchet_def current_session_def local_material_def Let_def split: sum.splits option.splits if_splits prod.splits)

definition prekeys_after :: "queue_error + ratchet_state option \<Rightarrow> bytes \<Rightarrow> queue_error + local_prekeys \<Rightarrow> queue_error + local_prekeys" where
  "prekeys_after session ciphertext material =
     (case (session, Option.bind (decodeX3dhPrefix ciphertext) xp_otpId, material) of
        (Inr None, Some i, Inr m) \<Rightarrow> Inr (without_otp m i) | _ \<Rightarrow> material)"

definition delivery :: "client_out list \<Rightarrow> (message_envelope \<times> message_payload) list" where
  "delivery outs = concat (map (\<lambda>out. case out of OutDelivered e p \<Rightarrow> [(e, p)] | _ \<Rightarrow> []) outs)"

lemma delivery_append [simp]: "delivery (a @ b) = delivery a @ delivery b" "delivery [] = []" "delivery [OutDelivered e p] = [(e, p)]"
  by (simp_all add: delivery_def)

lemma delivery_none: "(\<And>e p. OutDelivered e p \<notin> set outs) \<Longrightarrow> delivery outs = []"
  by (induction outs) (auto simp: delivery_def split: client_out.splits)

text \<open>
  The ratchet a message is opened with and the bytes it opens: the stored session of the conversation
  with the sender, or for a first message the one X3DH gives from the prekeys.
\<close>

definition opens_with ::
  "crypto \<Rightarrow> dh_pair \<Rightarrow> bytes \<Rightarrow> queue_error + ratchet_state option \<Rightarrow> queue_error + local_prekeys \<Rightarrow> ratchet_state \<Rightarrow> bytes \<Rightarrow> bool" where
  "opens_with c fresh ciphertext session material ratchet blob \<longleftrightarrow>
     session = Inr (Some ratchet)
       \<and> (if hd ciphertext = DM_WIRE_X3DH then map_option xp_ratchetBlob (decodeX3dhPrefix ciphertext) = Some blob else blob = ciphertext)
     \<or> session = Inr None \<and> (\<exists>x m m' resp. decodeX3dhPrefix ciphertext = Some x \<and> blob = xp_ratchetBlob x \<and> material = Inr m
         \<and> x3dhRespond c m (xp_identityDhPublic x) (xp_ekPublic x) (xp_otpId x) = (m', Inr resp) \<and> ratchet = initResponder fresh (xr_sk resp))"

lemma dm_session_jm_ok: "dm_session c cd key st = Inr (Some s) \<Longrightarrow> jm_ok (rs_skipped s)"
  by (auto simp: dm_session_def deserialize_jm_ok sbind_def split: option.split_asm sum.split_asm)

lemma incoming_opening:
  assumes "dw_persistent w = Some st" "snd (incoming_ratchet c cd client fresh key ct w) = Inr (Some (existing, blob, consumed))"
  shows "opens_with c fresh ct (dm_session c cd key st) (dm_prekeys c cd st) existing blob"
proof (cases "dm_session c cd key st")
  case (Inl e)
  then show ?thesis using assms by (simp add: incoming_ratchet_def current_session_persistent)
next
  case (Inr s)
  show ?thesis
  proof (cases s)
    case None
    then show ?thesis using assms Inr
      by (auto simp: incoming_ratchet_def current_session_persistent local_material_def opens_with_def split: sum.splits option.splits prod.splits)
  next
    case (Some r)
    then have "deserializeState (serializeState r) = r" using deserialize_serialize dm_session_jm_ok Inr by blast
    then show ?thesis using assms Inr Some
      by (auto simp: incoming_ratchet_def current_session_persistent opens_with_def split: if_splits)
  qed
qed

text \<open>The state of a persistent client before and after one frame, with what was delivered of it.\<close>

definition received_one ::
  "crypto \<Rightarrow> dm_codec \<Rightarrow> message_codec \<Rightarrow> int \<Rightarrow> dh_pair \<Rightarrow> dh_pair \<Rightarrow> bytes \<Rightarrow> dm_state \<Rightarrow> dm_state \<Rightarrow> message_envelope \<Rightarrow> message_payload \<Rightarrow> bool" where
  "received_one c cd mc now fresh fresh' bytes st st' e p \<longleftrightarrow>
     (let key = x3dhSessionStoreKey (me_conversationId e) (me_senderIdentityId e);
          aad = dm_aad mc (me_conversationId e) (me_senderIdentityId e) (me_recipientIdentityId e) in
      mc_envelope_decode mc bytes = Some e \<and> hasIncoming c (me_messageId e) st = Inr False
      \<and> read_inbox c cd (inbox_key (me_messageId e)) st'
          = Inr \<lparr>im_envelope = e, im_payload = p, im_receivedAt = Some now, im_contentExpired = False\<rparr>
      \<and> (\<exists>ratchet blob state plaintext. opens_with c fresh (me_ciphertext e) (dm_session c cd key st) (dm_prekeys c cd st) ratchet blob
          \<and> open_sealed c fresh' blob aad ratchet = (state, Inr plaintext) \<and> mc_payload_decode mc plaintext = Some p
          \<and> dm_session c cd key st' = Inr (Some state))
      \<and> dm_prekeys c cd st' = prekeys_after (dm_session c cd key st) (me_ciphertext e) (dm_prekeys c cd st)
      \<and> (\<forall>n. n \<notin> {inbox_key (me_messageId e), ''ratchet:'' @ key, ''prekeys:v1''} \<longrightarrow> aged cd (ps_limits st) now (cell c st) n (cell c st' n)))"

definition received_none :: "crypto \<Rightarrow> dm_codec \<Rightarrow> int \<Rightarrow> dm_state \<Rightarrow> dm_state \<Rightarrow> bool" where
  "received_none c cd now st st' \<longleftrightarrow> (\<forall>n. aged cd (ps_limits st) now (cell c st) n (cell c st' n))
     \<and> (\<forall>k. dm_session c cd k st' = dm_session c cd k st) \<and> dm_prekeys c cd st' = dm_prekeys c cd st"

lemma aged_incoming:
  assumes "dm_env c cd rnd" "dm_inv c cd st" "dm_inv c cd st'" "aged cd limits now (cell c st) (inbox_key i) (cell c st' (inbox_key i))"
  shows "hasIncoming c i st' = hasIncoming c i st"
proof -
  have "dm_get c n s = Inr (cell c s n)" if "dm_inv c cd s" for n s using that assms(1) by (simp add: dm_get_cell dm_env_def dm_inv_def)
  then show ?thesis using aged_none [OF assms(4)] assms(2,3) by (simp add: hasIncoming_def del: not_None_eq)
qed

lemma received_incoming:
  assumes "dm_env c cd rnd" "dm_inv c cd st" "dm_inv c cd st'"
  shows "received_none c cd now st st' \<Longrightarrow> hasIncoming c i st' = hasIncoming c i st"
    "received_one c cd mc now fresh fresh' bytes st st' e p \<Longrightarrow> hasIncoming c i st' = (if i = me_messageId e then Inr True else hasIncoming c i st)"
proof -
  show "hasIncoming c i st' = hasIncoming c i st" if "received_none c cd now st st'"
    using that aged_incoming [OF assms, of "ps_limits st" now i] by (simp add: received_none_def)
  assume one: "received_one c cd mc now fresh fresh' bytes st st' e p"
  show "hasIncoming c i st' = (if i = me_messageId e then Inr True else hasIncoming c i st)"
  proof (cases "i = me_messageId e")
    case True
    have get: "dm_get c n st' = Inr (cell c st' n)" for n using assms by (simp add: dm_get_cell dm_env_def dm_inv_def)
    have "read_inbox c cd (inbox_key i) st' = Inr \<lparr>im_envelope = e, im_payload = p, im_receivedAt = Some now, im_contentExpired = False\<rparr>"
      using one True by (simp add: received_one_def Let_def)
    then have "cell c st' (inbox_key i) \<noteq> None" by (auto simp: read_inbox_def dm_read_def get split: option.split_asm)
    then show ?thesis using True by (simp add: hasIncoming_def get)
  next
    case False
    have "inbox_key i \<notin> {inbox_key (me_messageId e), ''ratchet:'' @ x, ''prekeys:v1''}" for x using False by (simp add: inbox_key_def)
    then have "aged cd (ps_limits st) now (cell c st) (inbox_key i) (cell c st' (inbox_key i))"
      using one unfolding received_one_def Let_def by blast
    then show ?thesis using False aged_incoming [OF assms] by simp
  qed
qed

lemma receive_outcome:
  assumes "dm_env c cd rnd" "dm_inv c cd st" "dw_persistent w = Some st"
    and "onDirectMessage c cd mc rnd now fresh fresh' client allowed lookupRoot resp registered bytes w = (w', outs)"
  obtains st' where "dw_persistent w' = Some st'" "dm_inv c cd st'"
    "delivery outs = [] \<and> received_none c cd now st st'
      \<or> (\<exists>e p. delivery outs = [(e, p)] \<and> received_one c cd mc now fresh fresh' bytes st st' e p)"
proof -
  note outcome = that
  have same: thesis if "dw_persistent w' = Some st'" "retained c cd now st st'" "\<And>e p. OutDelivered e p \<notin> set outs" for st'
    using that(1) by (rule outcome)
       (use that(2,3) retained_reads [OF assms(1,2) that(2)] delivery_none [of outs] in \<open>simp_all add: received_none_def retained_def\<close>)
  show ?thesis
    using assms(4)
  proof (cases rule: onDirectMessage_cases)
    case dropped
    then show ?thesis using assms(3) retained_refl [OF assms(2)] by (intro same [of st]) auto
  next
    case (handled e pn)
    have pers: "dw_persistent (w\<lparr>dw_network := pn\<rparr>) = Some st" using assms(3) by simp
    from assms(1,2) pers handled(3) show ?thesis
    proof (cases rule: receive_cases)
      case (kept st')
      then show ?thesis by (rule same)
    next
      case (delivered st1 st' existing blob consumed state plaintext payload out)
      note r = retained_reads [OF assms(1,2) delivered(3)]
      have inv1: "dm_inv c cd st1" using delivered(3) by (simp add: retained_def)
      note reads = commit_reads [OF assms(1) inv1 delivered(8,10)]
      let ?key = "x3dhSessionStoreKey (me_conversationId e) (me_senderIdentityId e)"
      have "map_option (\<lambda>(m, i). without_otp m i) consumed = None \<longrightarrow> prekeys_after (dm_session c cd ?key st) (me_ciphertext e) (dm_prekeys c cd st) = dm_prekeys c cd st"
        "map_option (\<lambda>(m, i). without_otp m i) consumed = Some pk \<longrightarrow> prekeys_after (dm_session c cd ?key st) (me_ciphertext e) (dm_prekeys c cd st) = Inr pk" for pk
        using incoming_consumed [OF _ delivered(5), of st1] r by (auto simp: prekeys_after_def split: option.splits)
      then have prekeys: "dm_prekeys c cd st' = prekeys_after (dm_session c cd ?key st) (me_ciphertext e) (dm_prekeys c cd st)"
        using reads(3) r by (auto split: option.splits)
      have opened: "opens_with c fresh (me_ciphertext e) (dm_session c cd ?key st) (dm_prekeys c cd st) existing blob"
        using incoming_opening [OF _ delivered(5), of st1] r by simp
      have rows: "aged cd (ps_limits st) now (cell c st) n (cell c st' n)"
        if "n \<notin> {inbox_key (me_messageId e), ''ratchet:'' @ ?key, ''prekeys:v1''}" for n
        using that delivered(3) commitReceive_cases [OF assms(1) inv1 delivered(10)] by (simp add: received_rows_def retained_def)
      have "received_one c cd mc now fresh fresh' bytes st st' e payload"
        unfolding received_one_def Let_def
      proof (intro conjI exI)
        show "dm_session c cd ?key st' = Inr (Some state)" using reads(2) by simp
        show "read_inbox c cd (inbox_key (me_messageId e)) st'
            = Inr \<lparr>im_envelope = e, im_payload = payload, im_receivedAt = Some now, im_contentExpired = False\<rparr>"
          using reads(4) by simp
      qed (use handled(1) delivered(4,6,7) prekeys opened rows in auto)
      moreover have "delivery outs = [(e, payload)]"
        using delivery_none [of out] delivered(11) delivery_none [of "sendDeliveryReceipt c now client (toHex (me_senderIdentityId e)) (me_messageId e)"]
        by (auto simp: delivered(12) receipt_quiet)
      ultimately show ?thesis using delivered(9) reads(1) by (intro outcome) auto
    qed
  qed
qed

text \<open>
  C3. Receiving is all or nothing. For a client with persistent state every frame ends in one of two
  ways. Either nothing is delivered, and then every row of the store, sessions, prekeys, queue and
  messages, is what it was, whatever was opened or failed on the way, but for retention, which runs on
  every frame with a valid signature and may have emptied messages and delivered queue items that are
  past the configured age (\<open>aged\<close>). Or exactly one message is delivered; then it was not there before and
  is now, as the envelope and payload that were delivered, the session of its conversation with the
  sender is exactly the one that opening the ciphertext with the stored session (or the one X3DH gives
  for a first message) leaves, the one-time prekey of a first message is gone, and every other row is
  as it was, again but for retention. The invariant of the state is kept.
\<close>

theorem receive_all_or_nothing:
  assumes "dm_env c cd rnd" "dm_inv c cd st" "dw_persistent w = Some st"
    and "onDirectMessage c cd mc rnd now fresh fresh' client allowed lookupRoot resp registered bytes w = (w', outs)"
  shows "\<exists>st'. dw_persistent w' = Some st' \<and> dm_inv c cd st'
    \<and> (delivery outs = [] \<and> received_none c cd now st st'
       \<or> (\<exists>e p. delivery outs = [(e, p)] \<and> received_one c cd mc now fresh fresh' bytes st st' e p))"
  by (rule receive_outcome [OF assms]) blast

theorem receive_all_or_nothing_witness:
  "\<exists>frame wb wb' outs st st' e p. onDirectMessage sample_crypto sample_codec sample_messages demo_rnd 70 (demo_pair 12) (demo_pair 13) dm_bob None demo_lookup
       demo_response None frame wb = (wb', outs) \<and> dw_persistent wb = Some st \<and> dw_persistent wb' = Some st'
     \<and> delivery outs = [(e, p)] \<and> received_one sample_crypto sample_codec sample_messages 70 (demo_pair 12) (demo_pair 13) frame st st' e p"
proof -
  obtain frame wb wb' out e where d:
    "onDirectMessage sample_crypto sample_codec sample_messages demo_rnd 70 (demo_pair 12) (demo_pair 13) dm_bob None demo_lookup demo_response None frame wb
      = (wb', out @ [OutDelivered e (as_payload (Inl ''hello''))])"
    "\<exists>st. dw_persistent wb = Some st \<and> dm_inv sample_crypto sample_codec st"
    by (rule demo_delivered)
  then obtain st where st: "dw_persistent wb = Some st" "dm_inv sample_crypto sample_codec st" by blast
  have "delivery (out @ [OutDelivered e (as_payload (Inl ''hello''))]) \<noteq> []" by simp
  with receive_all_or_nothing [OF sample_dm_env st(2,1) d(1)] d(1) st(1) show ?thesis by blast
qed

text \<open>A client's frames, one after the other, each with the clock, key pairs and answers of its turn.\<close>

record arrival =
  ar_now :: int
  ar_fresh :: dh_pair
  ar_turn :: dh_pair
  ar_response :: fetch_response
  ar_registered :: "device_certificate option"
  ar_bytes :: bytes

fun receive_all ::
  "crypto \<Rightarrow> dm_codec \<Rightarrow> message_codec \<Rightarrow> (string \<Rightarrow> bytes) \<Rightarrow> nexnet_client \<Rightarrow> string list option \<Rightarrow> (bytes \<Rightarrow> bytes option)
     \<Rightarrow> arrival list \<Rightarrow> dm_world \<Rightarrow> dm_world \<times> client_out list" where
  "receive_all c cd mc rnd client allowed lookupRoot [] w = (w, [])"
| "receive_all c cd mc rnd client allowed lookupRoot (a # rest) w =
     (case onDirectMessage c cd mc rnd (ar_now a) (ar_fresh a) (ar_turn a) client allowed lookupRoot (ar_response a) (ar_registered a) (ar_bytes a) w of
        (w1, outs) \<Rightarrow> (case receive_all c cd mc rnd client allowed lookupRoot rest w1 of (w2, outs') \<Rightarrow> (w2, outs @ outs')))"

abbreviation delivered_ids :: "client_out list \<Rightarrow> bytes list" where
  "delivered_ids outs \<equiv> map (\<lambda>(e, p). me_messageId e) (delivery outs)"

lemma receive_all_ids:
  assumes "dm_env c cd rnd" "dm_inv c cd st" "dw_persistent w = Some st"
    and "receive_all c cd mc rnd client allowed lookupRoot arrivals w = (w', outs)"
  shows "\<exists>st'. dw_persistent w' = Some st' \<and> dm_inv c cd st' \<and> distinct (delivered_ids outs)
    \<and> (\<forall>i. hasIncoming c i st' = (if i \<in> set (delivered_ids outs) then Inr True else hasIncoming c i st))
    \<and> (\<forall>i. i \<in> set (delivered_ids outs) \<longrightarrow> hasIncoming c i st = Inr False)"
  using assms(2-)
proof (induction arrivals arbitrary: w st outs)
  case Nil
  then show ?case by simp
next
  case (Cons a rest)
  obtain w1 o1 where one: "onDirectMessage c cd mc rnd (ar_now a) (ar_fresh a) (ar_turn a) client allowed lookupRoot (ar_response a) (ar_registered a) (ar_bytes a) w = (w1, o1)"
    by (cases "onDirectMessage c cd mc rnd (ar_now a) (ar_fresh a) (ar_turn a) client allowed lookupRoot (ar_response a) (ar_registered a) (ar_bytes a) w")
  obtain w2 o2 where two: "receive_all c cd mc rnd client allowed lookupRoot rest w1 = (w2, o2)"
    by (cases "receive_all c cd mc rnd client allowed lookupRoot rest w1")
  have out: "w' = w2" "outs = o1 @ o2" using Cons.prems(3) one two by simp_all
  obtain st1 where st1: "dw_persistent w1 = Some st1" "dm_inv c cd st1"
    "delivery o1 = [] \<and> received_none c cd (ar_now a) st st1 \<or> (\<exists>e p. delivery o1 = [(e, p)] \<and> received_one c cd mc (ar_now a) (ar_fresh a) (ar_turn a) (ar_bytes a) st st1 e p)"
    by (rule receive_outcome [OF assms(1) Cons.prems(1,2) one])
  obtain st2 where st2: "dw_persistent w2 = Some st2" "dm_inv c cd st2" "distinct (delivered_ids o2)"
    "\<forall>i. hasIncoming c i st2 = (if i \<in> set (delivered_ids o2) then Inr True else hasIncoming c i st1)"
    "\<forall>i. i \<in> set (delivered_ids o2) \<longrightarrow> hasIncoming c i st1 = Inr False"
    using Cons.IH [OF st1(2,1) two [folded out(1)]] out(1) by blast
  from st1(3) show ?case
  proof
    assume "delivery o1 = [] \<and> received_none c cd (ar_now a) st st1"
    then show ?thesis using st2 out received_incoming(1) [OF assms(1) Cons.prems(1) st1(2)] by auto
  next
    assume "\<exists>e p. delivery o1 = [(e, p)] \<and> received_one c cd mc (ar_now a) (ar_fresh a) (ar_turn a) (ar_bytes a) st st1 e p"
    then obtain e p where one: "delivery o1 = [(e, p)]" "received_one c cd mc (ar_now a) (ar_fresh a) (ar_turn a) (ar_bytes a) st st1 e p" by blast
    have "hasIncoming c (me_messageId e) st = Inr False" using one(2) by (simp add: received_one_def Let_def)
    note e = one(1) this received_incoming(2) [OF assms(1) Cons.prems(1) st1(2) one(2)]
    have new: "me_messageId e \<notin> set (delivered_ids o2)" using st2(5) e(3) [of "me_messageId e"] by auto
    show ?thesis
    proof (intro exI conjI allI impI)
      show "distinct (delivered_ids outs)" using new st2(3) e(1) out(2) by simp
      show "hasIncoming c i st2 = (if i \<in> set (delivered_ids outs) then Inr True else hasIncoming c i st)" for i
        using st2(4) e(1,3) out(2) by simp
      show "hasIncoming c i st = Inr False" if "i \<in> set (delivered_ids outs)" for i
        using that st2(5) e out(2) by (cases "i = me_messageId e") auto
    qed (use st2 out in simp_all)
  qed
qed

text \<open>
  C4. Each message is delivered at most once. However many frames reach a client with persistent
  state, in whatever order, replayed or re-sent under other signatures, no message id is delivered to the
  application twice, none that was in the inbox before is delivered again, and at the end the inbox
  holds exactly the ids it held before and those delivered.
\<close>

theorem delivered_at_most_once:
  assumes "dm_env c cd rnd" "dm_inv c cd st" "dw_persistent w = Some st"
    and "receive_all c cd mc rnd client allowed lookupRoot arrivals w = (w', outs)"
  shows "\<exists>st'. dw_persistent w' = Some st' \<and> dm_inv c cd st' \<and> distinct (delivered_ids outs)
    \<and> (\<forall>i. hasIncoming c i st' = (if i \<in> set (delivered_ids outs) then Inr True else hasIncoming c i st))
    \<and> (\<forall>i. i \<in> set (delivered_ids outs) \<longrightarrow> hasIncoming c i st = Inr False)"
  by (rule receive_all_ids [OF assms])

theorem delivered_at_most_once_witness:
  "\<exists>a wb wb' outs i. receive_all sample_crypto sample_codec sample_messages demo_rnd dm_bob None demo_lookup [a, a] wb = (wb', outs)
     \<and> delivered_ids outs = [i]"
proof -
  obtain frame wb wb' o1 where d:
    "onDirectMessage sample_crypto sample_codec sample_messages demo_rnd 70 (demo_pair 12) (demo_pair 13) dm_bob None demo_lookup demo_response None frame wb
      = (wb', o1)" "delivery o1 \<noteq> []"
    "\<exists>st. dw_persistent wb = Some st \<and> dm_inv sample_crypto sample_codec st"
    by (rule demo_delivered) fastforce
  then obtain st where st: "dw_persistent wb = Some st" "dm_inv sample_crypto sample_codec st" by blast
  let ?a = "\<lparr>ar_now = 70, ar_fresh = demo_pair 12, ar_turn = demo_pair 13, ar_response = demo_response, ar_registered = None, ar_bytes = frame\<rparr>"
  obtain st1 e where st1: "dw_persistent wb' = Some st1" "dm_inv sample_crypto sample_codec st1"
    "\<exists>p. delivery o1 = [(e, p)]"
    "mc_envelope_decode sample_messages frame = Some e"
    by (rule receive_outcome [OF sample_dm_env st(2,1) d(1)]) (use d(2) in \<open>auto simp: received_one_def Let_def\<close>)
  obtain w2 o2 where two: "onDirectMessage sample_crypto sample_codec sample_messages demo_rnd 70 (demo_pair 12) (demo_pair 13) dm_bob None demo_lookup demo_response None frame wb' = (w2, o2)"
    by (cases "onDirectMessage sample_crypto sample_codec sample_messages demo_rnd 70 (demo_pair 12) (demo_pair 13) dm_bob None demo_lookup demo_response None frame wb'")
  have all: "receive_all sample_crypto sample_codec sample_messages demo_rnd dm_bob None demo_lookup [?a, ?a] wb
      = (w2, o1 @ o2)"
    using d(1) two by simp
  have "delivery o2 = [] \<or> (\<exists>e' p. delivery o2 = [(e', p)] \<and> mc_envelope_decode sample_messages frame = Some e')"
    by (rule receive_outcome [OF sample_dm_env st1(2,1) two]) (auto simp: received_one_def Let_def)
  moreover have "distinct (delivered_ids (o1 @ o2))"
    using delivered_at_most_once [OF sample_dm_env st(2,1) all] by blast
  ultimately have "delivery o2 = []" using st1(3,4) by auto
  then have "delivered_ids (o1 @ o2) = [me_messageId e]" using st1(3) by auto
  with all show ?thesis
    by (intro exI [of _ ?a] exI [of _ wb] exI [of _ w2] exI [of _ "o1 @ o2"] exI [of _ "me_messageId e"] conjI)
qed

end
