(* ===== verification/Signed_Service.thy ===== *)
theory Signed_Service
  imports Prekey_Network "HOL-Library.Char_ord" "HOL-Library.List_Lexorder"
begin

text \<open>
  What the durable objects of the hosted services share: a storage that survives evictions, and what
  the services promise that take signed writes: a write names a key and the time it was issued
  at, and it is accepted only if that time is later than the newest accepted for the key. The laws
  are those of the locale; that accepted times increase and no write is accepted twice follows once
  for every service.
\<close>

section \<open>Durable storage\<close>

text \<open>\<open>storage.list()\<close> of a durable object yields the entries in the order of their keys.\<close>

definition storage_list :: "(string, 'v) jmap \<Rightarrow> (string \<times> 'v) list" where
  "storage_list s = sort_key fst s"

lemma storage_list_map:
  assumes "jm_ok s"
  shows "map_of (storage_list s) k = jm_get s k" "distinct (map fst (storage_list s))" "set (storage_list s) = set s"
proof -
  show d: "distinct (map fst (storage_list s))"
    using assms by (simp add: storage_list_def jm_ok_def distinct_map)
  show st: "set (storage_list s) = set s" by (simp add: storage_list_def)
  have "map_of (storage_list s) = map_of s" using d st assms map_of_inject_set [of "storage_list s" s] by (simp add: jm_ok_def)
  then show "map_of (storage_list s) k = jm_get s k" by (simp add: jm_get_def)
qed

text \<open>
  An object reads its maps back entry by entry. If the entry under \<open>key i\<close> alone decides what is read
  for \<open>i\<close>, the whole storage gives what that entry says.
\<close>

lemma fold_load_get:
  assumes "\<And>k v s. (k, v) \<in> set xs \<Longrightarrow> get (f (k, v) s) i = (if k = key i \<and> sel k v \<noteq> None then sel k v else get s i)"
    and "distinct (map fst xs)"
  shows "get (fold f xs s) i = (case map_of xs (key i) of None \<Rightarrow> get s i | Some v \<Rightarrow> (case sel (key i) v of None \<Rightarrow> get s i | Some b \<Rightarrow> Some b))"
  using assms
proof (induction xs arbitrary: s)
  case (Cons x xs)
  obtain k v where x: "x = (k, v)" by (cases x)
  have e: "get (f x s) i = (if k = key i \<and> sel k v \<noteq> None then sel k v else get s i)" using Cons.prems(1) x by simp
  have none: "map_of xs k = None" using Cons.prems(2) x by (simp add: map_of_eq_None_iff)
  have IH: "get (fold f xs (f x s)) i =
      (case map_of xs (key i) of None \<Rightarrow> get (f x s) i | Some v \<Rightarrow> (case sel (key i) v of None \<Rightarrow> get (f x s) i | Some b \<Rightarrow> Some b))"
    using Cons.IH [of "f x s"] Cons.prems by auto
  show ?case using IH e x none by (cases "k = key i") (auto split: option.splits)
qed simp

section \<open>Signed writes\<close>

lemma verified_signed:
  assumes "verifyIdentityAuthJson c body operation (Some (JStr s)) now = Some v"
  obtains i root where "fromHex s = Some i" "identity_signed c operation i (JObj (without_auth body)) now root"
proof -
  obtain p i where "identityProofFromJson (jfield body ''auth'') = Inr p" "fromHex s = Some i"
    "verifyIdentityAuth c p operation i (JObj (without_auth body)) now = Some v"
    using assms by (auto simp: verifyIdentityAuthJson_def split: if_splits sum.splits option.splits simp del: jfield.simps)
  then show ?thesis using that verifyIdentityAuth_signed by blast
qed

text \<open>The body was signed for the operation by the identity \<open>s\<close>, given in hexadecimal.\<close>

definition signed_request :: "crypto \<Rightarrow> string \<Rightarrow> string \<Rightarrow> (string \<times> jval) list \<Rightarrow> int \<Rightarrow> bool" where
  "signed_request c operation s body now \<longleftrightarrow>
     (\<exists>i root. fromHex s = Some i \<and> identity_signed c operation i (JObj (without_auth body)) now root)"

text \<open>A body that a certified device signs for its identity passes the proof.\<close>

lemma signed_body:
  fixes c s operation i fs
  defines "body \<equiv> signIdentityAuthJson c s operation i fs"
  assumes "signatures_correct c" "device_signer c s cert i now" "wire_proof (signIdentityAuth c s operation i (JObj fs))"
    and "map (\<lambda>(k, v). (k, json_normal v)) fs = fs" "''auth'' \<notin> fst ` set fs"
  shows "verifyIdentityAuthJson c body operation (Some (JStr (toHex i))) now = Some \<lparr>vi_deviceId = Some (dc_deviceId cert)\<rparr>"
    and "k \<noteq> ''auth'' \<Longrightarrow> jfield body k = jfield fs k" "jfield body ''auth'' \<noteq> None" "fst ` set body = insert ''auth'' (fst ` set fs)"
proof -
  let ?p = "signIdentityAuth c s operation i (JObj fs)"
  have "jm_get fs ''auth'' = None" using assms(6) by (simp add: jm_get_def map_of_eq_None_iff)
  then have body: "body = fs @ [(''auth'', identityProofToJson ?p)]"
    unfolding body_def signIdentityAuthJson_def assms(5) Let_def by (rule jm_set_new)
  have wa: "without_auth body = fs" using assms(6) unfolding body without_auth_def by (force simp: jm_del_def intro!: filter_True)
  have auth: "jfield body ''auth'' = Some (identityProofToJson ?p)"
    using assms(6) map_of_eq_None_iff [of fs "''auth''"] unfolding body by (simp add: map_add_def)
  then show "jfield body ''auth'' \<noteq> None" by (simp del: jfield.simps)
  show "fst ` set body = insert ''auth'' (fst ` set fs)" unfolding body by auto
  show "jfield body k = jfield fs k" if "k \<noteq> ''auth''" unfolding body using that by (simp add: map_add_def split: option.split)
  have "length i = 32" using assms(3) by (simp add: device_signer_def)
  then show "verifyIdentityAuthJson c body operation (Some (JStr (toHex i))) now = Some \<lparr>vi_deviceId = Some (dc_deviceId cert)\<rparr>"
    using signIdentityAuth_accepted [OF assms(2,3), of operation "JObj fs"]
    by (simp add: verifyIdentityAuthJson_def auth wa identityProof_json [OF assms(4)] del: jfield.simps toHex_simps)
qed

text \<open>The writes that were accepted along a run, each with its key and time.\<close>

fun writes :: "('e \<Rightarrow> 's \<Rightarrow> (string \<times> int) option) \<Rightarrow> ('e \<Rightarrow> 's \<Rightarrow> 's) \<Rightarrow> 'e list \<Rightarrow> 's \<Rightarrow> (string \<times> int) list" where
  "writes accepted step [] s = []"
| "writes accepted step (e # es) s =
     (case accepted e s of None \<Rightarrow> [] | Some w \<Rightarrow> [w]) @ writes accepted step es (step e s)"

fun run_events :: "('e \<Rightarrow> 's \<Rightarrow> 's) \<Rightarrow> 'e list \<Rightarrow> 's \<Rightarrow> 's" where
  "run_events step [] s = s"
| "run_events step (e # es) s = run_events step es (step e s)"

lemma run_events_append [simp]: "run_events step (es @ es') s = run_events step es' (run_events step es s)"
  by (induction es arbitrary: s) simp_all

abbreviation issued_times :: "string \<Rightarrow> (string \<times> int) list \<Rightarrow> int list" where
  "issued_times k ws \<equiv> map snd (filter (\<lambda>w. fst w = k) ws)"

lemma distinct_by_times: "(\<And>k. distinct (issued_times k ws)) \<Longrightarrow> distinct ws"
proof (induction ws)
  case (Cons w ws)
  have "distinct (issued_times k ws)" for k using Cons.prems [of k] by (simp split: if_splits)
  moreover have "w \<notin> set ws" using Cons.prems [of "fst w"] by force
  ultimately show ?case using Cons.IH by simp
qed simp

locale signed_service =
  fixes step :: "'e \<Rightarrow> 's \<Rightarrow> 's"
    and ok :: "'s \<Rightarrow> bool"
    and accepted :: "'e \<Rightarrow> 's \<Rightarrow> (string \<times> int) option"
    and newest :: "'s \<Rightarrow> string \<Rightarrow> int option"
  assumes ok_step: "ok s \<Longrightarrow> ok (step e s)"
    and accepted_newer: "ok s \<Longrightarrow> accepted e s = Some (k, t) \<Longrightarrow> newest s k = Some u \<Longrightarrow> u < t"
    and accepted_kept: "ok s \<Longrightarrow> accepted e s = Some (k, t) \<Longrightarrow> newest (step e s) k = Some t"
    and newest_kept: "ok s \<Longrightarrow> newest s k = Some u \<Longrightarrow> (\<And>t. accepted e s \<noteq> Some (k, t)) \<Longrightarrow> newest (step e s) k = Some u"
begin

lemma run_ok: "ok s \<Longrightarrow> ok (run_events step es s)"
  by (induction es arbitrary: s) (auto intro: ok_step)

lemma later_than_newest:
  "ok s \<Longrightarrow> newest s k = Some u \<Longrightarrow> t \<in> set (issued_times k (writes accepted step es s)) \<Longrightarrow> u < t"
proof (induction es arbitrary: s u)
  case (Cons e es)
  show ?case
  proof (cases "\<exists>t'. accepted e s = Some (k, t')")
    case True
    then obtain t' where t': "accepted e s = Some (k, t')" by blast
    have "u < t'" by (rule accepted_newer [OF Cons.prems(1) t' Cons.prems(2)])
    moreover have "t' < t \<or> t = t'"
      using Cons.IH [OF ok_step [OF Cons.prems(1)] accepted_kept [OF Cons.prems(1) t']] Cons.prems(3) t' by auto
    ultimately show ?thesis by auto
  next
    case False
    then have "newest (step e s) k = Some u" using newest_kept [OF Cons.prems(1,2)] by blast
    moreover have "t \<in> set (issued_times k (writes accepted step es (step e s)))"
      using Cons.prems(3) False by (cases "accepted e s") auto
    ultimately show ?thesis using Cons.IH [OF ok_step [OF Cons.prems(1)]] by blast
  qed
qed simp

lemma times_increase: "ok s \<Longrightarrow> sorted_wrt (<) (issued_times k (writes accepted step es s))"
proof (induction es arbitrary: s)
  case (Cons e es)
  note IH = Cons.IH [OF ok_step [OF Cons.prems]]
  show ?case
  proof (cases "\<exists>t. accepted e s = Some (k, t)")
    case True
    then obtain t where t: "accepted e s = Some (k, t)" by blast
    have "\<forall>t' \<in> set (issued_times k (writes accepted step es (step e s))). t < t'"
      using later_than_newest [OF ok_step [OF Cons.prems] accepted_kept [OF Cons.prems t]] by blast
    then show ?thesis using IH t by simp
  next
    case False
    then show ?thesis using IH by (auto split: option.splits)
  qed
qed simp

lemma writes_distinct: "ok s \<Longrightarrow> distinct (writes accepted step es s)"
  using times_increase by (intro distinct_by_times) (auto simp: strict_sorted_iff)

end

end
