(* ===== verification/Presence_Service.thy ===== *)
theory Presence_Service
  imports Prekey_Network Presence Signed_Service
begin

text \<open>
  The presence service (\<open>workers/presence/src/index.ts\<close>): leases of online identities, their
  prekey bundles, and the sockets that follow them. \<open>tracker\<close> is the durable object with its
  storage; the storage is gated, so a handler runs without interruption. The body of a request is the
  result of \<open>request.json()\<close>, \<open>None\<close> where that throws. \<open>alive ws\<close> says whether a send to
  a socket succeeds. An eviction drops everything but the storage.
\<close>

section \<open>State\<close>

record presence_lease =
  pl_identityId :: string
  pl_deviceId :: string
  pl_relayHint :: "string option"
  pl_issuedAt :: int
  pl_expiresAt :: int
  pl_nonce :: "string option"

datatype presence_entry = SLease presence_lease | SBundle "(string \<times> jval) list" | SSeq int

record tracker =
  pt_leases :: "(string, presence_lease) jmap"
  pt_prekeys :: "(string, (string \<times> jval) list) jmap"
  pt_subscriptions :: "nat list"
  pt_timer :: bool
  pt_loaded :: bool
  pt_storage :: "(string, presence_entry) jmap"

definition new_tracker :: tracker where
  "new_tracker = \<lparr>pt_leases = [], pt_prekeys = [], pt_subscriptions = [], pt_timer = False, pt_loaded = False, pt_storage = []\<rparr>"

datatype presence_reply =
    MalformedBody | Unauthorized | StaleIssuedAt | LeaseExpired | InvalidPrekeySignature | InvalidKeyMaterial
  | IdentityRequired | NotFound | UpgradeRequired
  | LeasePublished int | StatusOffline string | StatusOnline string int "string option"
  | PrekeysPublished int | PrekeyBundle "(string \<times> jval) list" | Removed bool | Subscribed | ServiceStatus nat nat nat

fun reply_status :: "presence_reply \<Rightarrow> nat" where
  "reply_status MalformedBody = 400"
| "reply_status Unauthorized = 401"
| "reply_status StaleIssuedAt = 409"
| "reply_status LeaseExpired = 400"
| "reply_status InvalidPrekeySignature = 403"
| "reply_status InvalidKeyMaterial = 400"
| "reply_status IdentityRequired = 400"
| "reply_status NotFound = 404"
| "reply_status UpgradeRequired = 400"
| "reply_status Subscribed = 101"
| "reply_status _ = 200"

section \<open>Requests\<close>

definition PREKEY_PUBLISH_KEYS :: "string list" where
  "PREKEY_PUBLISH_KEYS = [''identityId'', ''identityDhPublic'', ''signedPrekeyPublic'', ''signedPrekeySig'', ''identitySignPublic'',
     ''oneTimePrekeyPublic'', ''oneTimePrekeyId'', ''issuedAt'', ''auth'']"

definition LEASE_PUBLISH_KEYS :: "string list" where
  "LEASE_PUBLISH_KEYS = [''identityId'', ''deviceId'', ''issuedAt'', ''expiresAt'', ''nonce'', ''relayHint'', ''auth'']"

definition REMOVE_KEYS :: "string list" where
  "REMOVE_KEYS = [''identityId'', ''issuedAt'', ''auth'']"

text \<open>\<open>readBody\<close>, with the two fields it has checked.\<close>

definition readBody :: "string list \<Rightarrow> jval option \<Rightarrow> ((string \<times> jval) list \<times> string \<times> int) option" where
  "readBody allowed body =
     (case body of
        Some (JObj input) \<Rightarrow>
          (if list_ex (\<lambda>(k, v). k \<notin> set allowed) input then None
           else case (jfield input ''identityId'', jfield input ''issuedAt'') of
             (Some (JStr i), Some (JNum t)) \<Rightarrow> if id_hex i \<and> safe_int t then Some (input, i, t) else None
           | _ \<Rightarrow> None)
      | _ \<Rightarrow> None)"

fun string_field :: "jval option \<Rightarrow> string option" where
  "string_field (Some (JStr s)) = Some s"
| "string_field _ = None"

fun integer_field :: "jval option \<Rightarrow> int option" where
  "integer_field (Some (JNum n)) = (if safe_int n then Some n else None)"
| "integer_field _ = None"

definition absent_or :: "('a option \<Rightarrow> 'b option) \<Rightarrow> 'a option \<Rightarrow> bool" where
  "absent_or f v = (v = None \<or> f v \<noteq> None)"

section \<open>Reading the storage\<close>

definition load_entry :: "string \<times> presence_entry \<Rightarrow> tracker \<Rightarrow> tracker" where
  "load_entry kv t =
     (case kv of (key, v) \<Rightarrow>
        if take 6 key = ''lease:'' then (case v of SLease l \<Rightarrow> t\<lparr>pt_leases := jm_set (pl_identityId l) l (pt_leases t)\<rparr> | _ \<Rightarrow> t)
        else if take 7 key = ''prekey:'' then
          (case v of SBundle b \<Rightarrow>
             (case jfield b ''identityId'' of Some (JStr i) \<Rightarrow> t\<lparr>pt_prekeys := jm_set i b (pt_prekeys t)\<rparr> | _ \<Rightarrow> t) | _ \<Rightarrow> t)
        else t)"

definition ensureLoaded :: "tracker \<Rightarrow> tracker" where
  "ensureLoaded t =
     (if pt_loaded t then t
      else let t1 = (fold load_entry (storage_list (pt_storage t)) t)\<lparr>pt_loaded := True\<rparr> in
        if pt_leases t1 \<noteq> [] then t1\<lparr>pt_timer := True\<rparr> else t1)"

section \<open>Leases\<close>

definition claimIssuedAt :: "string \<Rightarrow> int \<Rightarrow> int \<Rightarrow> tracker \<Rightarrow> tracker \<times> bool" where
  "claimIssuedAt key issuedAt now t =
     (if \<not> isFreshIssuedAt (Some (JNum issuedAt)) now then (t, False)
      else case jm_get (pt_storage t) key of
        Some (SSeq l) \<Rightarrow> if issuedAt \<le> l then (t, False) else (t\<lparr>pt_storage := jm_set key (SSeq issuedAt) (pt_storage t)\<rparr>, True)
      | _ \<Rightarrow> (t\<lparr>pt_storage := jm_set key (SSeq issuedAt) (pt_storage t)\<rparr>, True))"

text \<open>A socket to which a send throws is dropped.\<close>

definition ps_broadcast :: "(nat \<Rightarrow> bool) \<Rightarrow> (string \<times> jval) list \<Rightarrow> tracker \<Rightarrow> tracker \<times> relay_out list" where
  "ps_broadcast alive frame t =
     (t\<lparr>pt_subscriptions := filter alive (pt_subscriptions t)\<rparr>, map (\<lambda>ws. Send ws frame) (filter alive (pt_subscriptions t)))"

definition online_frame :: "string \<Rightarrow> int \<Rightarrow> (string \<times> jval) list" where
  "online_frame identityId expiresAt = presence_notice identityId True @ [(''expiresAt'', JNum expiresAt)]"

definition lease_of :: "(string \<times> jval) list \<Rightarrow> string \<Rightarrow> string \<Rightarrow> int \<Rightarrow> int \<Rightarrow> presence_lease" where
  "lease_of body identityId deviceId issuedAt expiresAt = \<lparr>pl_identityId = identityId, pl_deviceId = deviceId,
     pl_relayHint = string_field (jfield body ''relayHint''), pl_issuedAt = issuedAt, pl_expiresAt = expiresAt,
     pl_nonce = string_field (jfield body ''nonce'')\<rparr>"

definition PRESENCE_LEASE_TTL_MS :: int where "PRESENCE_LEASE_TTL_MS = 90000"

definition handlePublish :: "crypto \<Rightarrow> (nat \<Rightarrow> bool) \<Rightarrow> int \<Rightarrow> jval option \<Rightarrow> tracker \<Rightarrow> tracker \<times> relay_out list \<times> presence_reply" where
  "handlePublish c alive now request t =
     (case readBody LEASE_PUBLISH_KEYS request of
        None \<Rightarrow> (t, [], MalformedBody)
      | Some (body, identityId, issuedAt) \<Rightarrow>
          (case (string_field (jfield body ''deviceId''), integer_field (jfield body ''expiresAt'')) of
             (Some deviceId, Some expiresAt) \<Rightarrow>
               (if \<not> id_hex deviceId \<or> \<not> absent_or string_field (jfield body ''nonce'') \<or> \<not> absent_or string_field (jfield body ''relayHint'')
                then (t, [], MalformedBody)
                else
                  (case verifyIdentityAuthJson c body ''presence.publish'' (Some (JStr identityId)) now of
                     None \<Rightarrow> (t, [], Unauthorized)
                   | Some verified \<Rightarrow>
                       (if (case vi_deviceId verified of None \<Rightarrow> False | Some d \<Rightarrow> toHex d \<noteq> deviceId) then (t, [], Unauthorized)
                        else if expiresAt \<le> now then (t, [], LeaseExpired)
                        else
                          (case claimIssuedAt (''presence-seq:'' @ identityId) issuedAt now t of
                             (t1, False) \<Rightarrow> (t1, [], StaleIssuedAt)
                           | (t1, True) \<Rightarrow>
                               (let expiresAt' = min expiresAt (now + PRESENCE_LEASE_TTL_MS);
                                    lease = lease_of body identityId deviceId issuedAt expiresAt';
                                    t2 = t1\<lparr>pt_leases := jm_set identityId lease (pt_leases t1),
                                      pt_storage := jm_set (''lease:'' @ identityId) (SLease lease) (pt_storage t1), pt_timer := True\<rparr>;
                                    (t3, out) = ps_broadcast alive (online_frame identityId expiresAt') t2 in
                                (t3, out, LeasePublished expiresAt'))))))
           | _ \<Rightarrow> (t, [], MalformedBody)))"

definition isExpired :: "int \<Rightarrow> presence_lease \<Rightarrow> bool" where
  "isExpired now lease = (pl_expiresAt lease \<le> now)"

definition drop_lease :: "string \<Rightarrow> tracker \<Rightarrow> tracker" where
  "drop_lease identityId t = t\<lparr>pt_leases := jm_del identityId (pt_leases t), pt_storage := jm_del (''lease:'' @ identityId) (pt_storage t)\<rparr>"

definition handleQuery :: "int \<Rightarrow> string option \<Rightarrow> tracker \<Rightarrow> tracker \<times> relay_out list \<times> presence_reply" where
  "handleQuery now param t =
     (case param of
        None \<Rightarrow> (t, [], IdentityRequired)
      | Some identityId \<Rightarrow>
          (if identityId = [] then (t, [], IdentityRequired)
           else case jm_get (pt_leases t) identityId of
             None \<Rightarrow> (t, [], StatusOffline identityId)
           | Some lease \<Rightarrow>
               (if isExpired now lease then (drop_lease identityId t, [], StatusOffline identityId)
                else (t, [], StatusOnline identityId (pl_expiresAt lease) (pl_relayHint lease)))))"

definition lease_snapshot :: "int \<Rightarrow> tracker \<Rightarrow> (string \<times> jval) list" where
  "lease_snapshot now t = [(''type'', JStr ''presence_snapshot''),
     (''leases'', JObj (map (\<lambda>(i, l). (i, JObj [(''status'', JStr ''online''), (''expiresAt'', JNum (pl_expiresAt l))]))
        (filter (\<lambda>(i, l). \<not> isExpired now l) (pt_leases t))))]"

definition handleSubscribe :: "(nat \<Rightarrow> bool) \<Rightarrow> int \<Rightarrow> string option \<Rightarrow> nat \<Rightarrow> tracker \<Rightarrow> tracker \<times> relay_out list \<times> presence_reply" where
  "handleSubscribe alive now upgrade server t =
     (if map_option js_lower upgrade \<noteq> Some ''websocket'' then (t, [], UpgradeRequired)
      else (t\<lparr>pt_subscriptions := set_add server (pt_subscriptions t), pt_timer := True\<rparr>,
            if alive server then [Send server (lease_snapshot now t)] else [], Subscribed))"

definition ps_closed :: "nat \<Rightarrow> tracker \<Rightarrow> tracker" where
  "ps_closed ws t = t\<lparr>pt_subscriptions := set_delete ws (pt_subscriptions t)\<rparr>"

section \<open>Prekeys\<close>

text \<open>\<open>parseInt(s, 16)\<close> stored into a byte: leading white space, a sign and \<open>0x\<close> are skipped, \<open>NaN\<close> is 0.\<close>

definition parse_hex_byte :: "string \<Rightarrow> byte" where
  "parse_hex_byte s =
     (let s1 = dropWhile js_ws s;
          neg = (take 1 s1 = ''-'');
          s2 = (if take 1 s1 = ''-'' \<or> take 1 s1 = ''+'' then drop 1 s1 else s1);
          s3 = (if take 2 (js_lower s2) = ''0x'' then drop 2 s2 else s2);
          digits = takeWhile is_hex (js_lower s3);
          n = foldl (\<lambda>a ch. 16 * a + int (case hex_value ch of None \<Rightarrow> 0 | Some d \<Rightarrow> d)) 0 digits in
      word_of_int (if neg then - n else n))"

fun hexToBytes :: "string \<Rightarrow> bytes" where
  "hexToBytes (a # b # rest) = parse_hex_byte [a, b] # hexToBytes rest"
| "hexToBytes _ = []"

definition handlePrekeyPublish :: "crypto \<Rightarrow> int \<Rightarrow> jval option \<Rightarrow> tracker \<Rightarrow> tracker \<times> relay_out list \<times> presence_reply" where
  "handlePrekeyPublish c now request t =
     (case readBody PREKEY_PUBLISH_KEYS request of
        None \<Rightarrow> (t, [], MalformedBody)
      | Some (body, identityId, issuedAt) \<Rightarrow>
          (case (string_field (jfield body ''identityDhPublic''), string_field (jfield body ''signedPrekeyPublic''),
                 string_field (jfield body ''signedPrekeySig''), string_field (jfield body ''identitySignPublic'')) of
             (Some _, Some signedPrekeyPublic, Some signedPrekeySig, Some identitySignPublic) \<Rightarrow>
               (if \<not> absent_or string_field (jfield body ''oneTimePrekeyPublic'') \<or> \<not> absent_or integer_field (jfield body ''oneTimePrekeyId'')
                then (t, [], MalformedBody)
                else if verifyIdentityAuthJson c body ''prekeys.publish'' (Some (JStr identityId)) now = None then (t, [], Unauthorized)
                else
                  (case ed_verify c (hexToBytes identitySignPublic) (hexToBytes signedPrekeyPublic) (hexToBytes signedPrekeySig) of
                     None \<Rightarrow> (t, [], InvalidKeyMaterial)
                   | Some False \<Rightarrow> (t, [], InvalidPrekeySignature)
                   | Some True \<Rightarrow>
                       (case claimIssuedAt (''prekey-seq:'' @ identityId) issuedAt now t of
                          (t1, False) \<Rightarrow> (t1, [], StaleIssuedAt)
                        | (t1, True) \<Rightarrow>
                            (let bundle = jm_set ''updatedAt'' (JNum now) body in
                             (t1\<lparr>pt_prekeys := jm_set identityId bundle (pt_prekeys t1),
                                 pt_storage := jm_set (''prekey:'' @ identityId) (SBundle bundle) (pt_storage t1)\<rparr>, [],
                              PrekeysPublished now)))))
           | _ \<Rightarrow> (t, [], MalformedBody)))"

definition handlePrekeyGet :: "string option \<Rightarrow> tracker \<Rightarrow> tracker \<times> relay_out list \<times> presence_reply" where
  "handlePrekeyGet param t =
     (t, [], case param of
        None \<Rightarrow> IdentityRequired
      | Some identityId \<Rightarrow>
          (if identityId = [] then IdentityRequired
           else case jm_get (pt_prekeys t) identityId of None \<Rightarrow> NotFound | Some bundle \<Rightarrow> PrekeyBundle bundle))"

section \<open>Removal\<close>

definition authorizeRemove ::
  "crypto \<Rightarrow> int \<Rightarrow> jval option \<Rightarrow> string option \<Rightarrow> string \<Rightarrow> string \<Rightarrow> tracker \<Rightarrow> tracker \<times> (presence_reply + string)" where
  "authorizeRemove c now request param operation seqKey t =
     (case readBody REMOVE_KEYS request of
        None \<Rightarrow> (t, Inl MalformedBody)
      | Some (body, identityId, issuedAt) \<Rightarrow>
          (if param \<noteq> Some identityId then (t, Inl MalformedBody)
           else if verifyIdentityAuthJson c body operation (Some (JStr identityId)) now = None then (t, Inl Unauthorized)
           else case claimIssuedAt (seqKey @ '':'' @ identityId) issuedAt now t of
             (t1, ok) \<Rightarrow> (t1, if ok then Inr identityId else Inl StaleIssuedAt)))"

definition handlePrekeyRemove :: "crypto \<Rightarrow> int \<Rightarrow> jval option \<Rightarrow> string option \<Rightarrow> tracker \<Rightarrow> tracker \<times> relay_out list \<times> presence_reply" where
  "handlePrekeyRemove c now request param t =
     (case authorizeRemove c now request param ''prekeys.remove'' ''prekey-seq'' t of
        (t1, Inl r) \<Rightarrow> (t1, [], r)
      | (t1, Inr identityId) \<Rightarrow>
          (if jm_has (pt_prekeys t1) identityId
           then (t1\<lparr>pt_prekeys := jm_del identityId (pt_prekeys t1), pt_storage := jm_del (''prekey:'' @ identityId) (pt_storage t1)\<rparr>, [], Removed True)
           else (t1, [], Removed False)))"

definition handleRemove ::
  "crypto \<Rightarrow> (nat \<Rightarrow> bool) \<Rightarrow> int \<Rightarrow> jval option \<Rightarrow> string option \<Rightarrow> tracker \<Rightarrow> tracker \<times> relay_out list \<times> presence_reply" where
  "handleRemove c alive now request param t =
     (case authorizeRemove c now request param ''presence.remove'' ''presence-seq'' t of
        (t1, Inl r) \<Rightarrow> (t1, [], r)
      | (t1, Inr identityId) \<Rightarrow>
          (if jm_has (pt_leases t1) identityId
           then (case ps_broadcast alive (presence_notice identityId False) (drop_lease identityId t1) of (t2, out) \<Rightarrow> (t2, out, Removed True))
           else (t1, [], Removed False)))"

section \<open>Cleaning up\<close>

fun cleanup_loop :: "(nat \<Rightarrow> bool) \<Rightarrow> int \<Rightarrow> (string \<times> presence_lease) list \<Rightarrow> tracker \<Rightarrow> tracker \<times> relay_out list" where
  "cleanup_loop alive now [] t = (t, [])"
| "cleanup_loop alive now ((i, lease) # rest) t =
     (if isExpired now lease then
        (case ps_broadcast alive (presence_notice i False) (drop_lease i t) of
           (t1, out) \<Rightarrow> (case cleanup_loop alive now rest t1 of (t2, out') \<Rightarrow> (t2, out @ out')))
      else cleanup_loop alive now rest t)"

definition cleanupExpired :: "(nat \<Rightarrow> bool) \<Rightarrow> int \<Rightarrow> tracker \<Rightarrow> tracker \<times> relay_out list" where
  "cleanupExpired alive now t =
     (case cleanup_loop alive now (pt_leases t) t of
        (t1, out) \<Rightarrow> (if pt_leases t1 = [] \<and> pt_subscriptions t1 = [] then t1\<lparr>pt_timer := False\<rparr> else t1, out))"

section \<open>Routing\<close>

text \<open>A request to the durable object; \<open>dq_socket\<close> is the server side of the pair a subscription makes.\<close>

record do_request =
  dq_path :: string
  dq_identityId :: "string option"
  dq_body :: "jval option"
  dq_upgrade :: "string option"
  dq_socket :: nat

definition tracker_fetch :: "crypto \<Rightarrow> (nat \<Rightarrow> bool) \<Rightarrow> int \<Rightarrow> do_request \<Rightarrow> tracker \<Rightarrow> tracker \<times> relay_out list \<times> presence_reply" where
  "tracker_fetch c alive now req t0 =
     (let t = ensureLoaded t0; path = dq_path req in
      if path = ''/do/publish'' then handlePublish c alive now (dq_body req) t
      else if path = ''/do/query'' then handleQuery now (dq_identityId req) t
      else if path = ''/do/subscribe'' then handleSubscribe alive now (dq_upgrade req) (dq_socket req) t
      else if path = ''/do/remove'' then handleRemove c alive now (dq_body req) (dq_identityId req) t
      else if path = ''/do/prekeys/publish'' then handlePrekeyPublish c now (dq_body req) t
      else if path = ''/do/prekeys/get'' then handlePrekeyGet (dq_identityId req) t
      else if path = ''/do/prekeys/remove'' then handlePrekeyRemove c now (dq_body req) (dq_identityId req) t
      else if path = ''/do/status'' then
        (t, [], ServiceStatus (length (pt_leases t)) (length (pt_subscriptions t)) (length (pt_prekeys t)))
      else (t, [], NotFound))"

text \<open>The routes of the worker in front of it. A subscription is forwarded with the path it came with.\<close>

datatype presence_route =
    PostPresence "jval option"
  | GetSubscribe "string option" nat
  | PostPrekeys "jval option"
  | GetPresence string
  | DeletePresence string "jval option"
  | GetPrekeys string
  | DeletePrekeys string "jval option"

fun presence_app :: "presence_route \<Rightarrow> do_request" where
  "presence_app (PostPresence body) = \<lparr>dq_path = ''/do/publish'', dq_identityId = None, dq_body = body, dq_upgrade = None, dq_socket = 0\<rparr>"
| "presence_app (GetSubscribe upgrade ws) =
     \<lparr>dq_path = ''/presence/subscribe'', dq_identityId = None, dq_body = None, dq_upgrade = upgrade, dq_socket = ws\<rparr>"
| "presence_app (PostPrekeys body) = \<lparr>dq_path = ''/do/prekeys/publish'', dq_identityId = None, dq_body = body, dq_upgrade = None, dq_socket = 0\<rparr>"
| "presence_app (GetPresence i) = \<lparr>dq_path = ''/do/query'', dq_identityId = Some i, dq_body = None, dq_upgrade = None, dq_socket = 0\<rparr>"
| "presence_app (DeletePresence i body) = \<lparr>dq_path = ''/do/remove'', dq_identityId = Some i, dq_body = body, dq_upgrade = None, dq_socket = 0\<rparr>"
| "presence_app (GetPrekeys i) = \<lparr>dq_path = ''/do/prekeys/get'', dq_identityId = Some i, dq_body = None, dq_upgrade = None, dq_socket = 0\<rparr>"
| "presence_app (DeletePrekeys i body) =
     \<lparr>dq_path = ''/do/prekeys/remove'', dq_identityId = Some i, dq_body = body, dq_upgrade = None, dq_socket = 0\<rparr>"

section \<open>Events\<close>

datatype presence_event =
    PRequest "nat \<Rightarrow> bool" int do_request
  | PTick "nat \<Rightarrow> bool" int
  | PSocketClosed nat
  | PEvicted

fun presence_step :: "crypto \<Rightarrow> presence_event \<Rightarrow> tracker \<Rightarrow> tracker \<times> relay_out list \<times> presence_reply option" where
  "presence_step c (PRequest alive now req) t = (case tracker_fetch c alive now req t of (t', out, r) \<Rightarrow> (t', out, Some r))"
| "presence_step c (PTick alive now) t =
     (if pt_timer t then (case cleanupExpired alive now t of (t', out) \<Rightarrow> (t', out, None)) else (t, [], None))"
| "presence_step c (PSocketClosed ws) t = (ps_closed ws t, [], None)"
| "presence_step c PEvicted t = (new_tracker\<lparr>pt_storage := pt_storage t\<rparr>, [], None)"

end
