(* ===== verification/Presence_Service_Inv.thy ===== *)
theory Presence_Service_Inv
  imports Presence_Service
begin

text \<open>
  The invariant of the presence service: what lies in the storage, that the maps in memory show
  exactly that, and that every lease and bundle was signed by its identity.
\<close>

section \<open>What is held\<close>

definition held_lease :: "tracker \<Rightarrow> string \<Rightarrow> presence_lease option" where
  "held_lease t i = (case jm_get (pt_storage t) (''lease:'' @ i) of Some (SLease l) \<Rightarrow> Some l | _ \<Rightarrow> None)"

definition held_bundle :: "tracker \<Rightarrow> string \<Rightarrow> (string \<times> jval) list option" where
  "held_bundle t i = (case jm_get (pt_storage t) (''prekey:'' @ i) of Some (SBundle b) \<Rightarrow> Some b | _ \<Rightarrow> None)"

definition newest_seq :: "tracker \<Rightarrow> string \<Rightarrow> int option" where
  "newest_seq t k = (case jm_get (pt_storage t) k of Some (SSeq n) \<Rightarrow> Some n | _ \<Rightarrow> None)"

text \<open>The identity has signed the fields of the lease; its expiry was cut to the maximal one.\<close>

definition lease_signed :: "crypto \<Rightarrow> presence_lease \<Rightarrow> bool" where
  "lease_signed c l \<longleftrightarrow> (\<exists>body i now root expiresAt. fromHex (pl_identityId l) = Some i
     \<and> identity_signed c ''presence.publish'' i (JObj (without_auth body)) now root
     \<and> jfield body ''identityId'' = Some (JStr (pl_identityId l)) \<and> jfield body ''deviceId'' = Some (JStr (pl_deviceId l))
     \<and> jfield body ''issuedAt'' = Some (JNum (pl_issuedAt l)) \<and> jfield body ''expiresAt'' = Some (JNum expiresAt)
     \<and> pl_expiresAt l = min expiresAt (now + PRESENCE_LEASE_TTL_MS) \<and> now < pl_expiresAt l
     \<and> isFreshIssuedAt (Some (JNum (pl_issuedAt l))) now)"

definition bundle_signed :: "crypto \<Rightarrow> string \<Rightarrow> (string \<times> jval) list \<Rightarrow> bool" where
  "bundle_signed c identityId b \<longleftrightarrow> (\<exists>body i now root. b = jm_set ''updatedAt'' (JNum now) body \<and> fromHex identityId = Some i
     \<and> jfield body ''identityId'' = Some (JStr identityId) \<and> jfield body ''updatedAt'' = None
     \<and> identity_signed c ''prekeys.publish'' i (JObj (without_auth body)) now root)"

definition entry_ok :: "crypto \<Rightarrow> string \<Rightarrow> presence_entry \<Rightarrow> bool" where
  "entry_ok c k v \<longleftrightarrow>
     (case v of
        SLease l \<Rightarrow> k = ''lease:'' @ pl_identityId l \<and> lease_signed c l
      | SBundle b \<Rightarrow> (\<exists>i. k = ''prekey:'' @ i \<and> jfield b ''identityId'' = Some (JStr i) \<and> bundle_signed c i b)
      | SSeq n \<Rightarrow> take 6 k \<noteq> ''lease:'' \<and> take 7 k \<noteq> ''prekey:'')"

definition presence_inv :: "crypto \<Rightarrow> tracker \<Rightarrow> bool" where
  "presence_inv c t \<longleftrightarrow> jm_ok (pt_storage t) \<and> jm_ok (pt_leases t) \<and> jm_ok (pt_prekeys t) \<and> distinct (pt_subscriptions t)
     \<and> (\<forall>k v. jm_get (pt_storage t) k = Some v \<longrightarrow> entry_ok c k v)
     \<and> (if pt_loaded t then (\<forall>i. jm_get (pt_leases t) i = held_lease t i) \<and> (\<forall>i. jm_get (pt_prekeys t) i = held_bundle t i)
          \<and> (pt_leases t \<noteq> [] \<longrightarrow> pt_timer t)
        else pt_leases t = [] \<and> pt_prekeys t = [] \<and> pt_subscriptions t = [])"

lemma new_tracker_inv: "presence_inv c new_tracker"
  by (simp add: presence_inv_def new_tracker_def)

lemma evicted_inv: "presence_inv c t \<Longrightarrow> presence_inv c (new_tracker\<lparr>pt_storage := pt_storage t\<rparr>)"
  by (simp add: presence_inv_def new_tracker_def)

section \<open>Loading\<close>

lemma load_entry_frame [simp]:
  "pt_storage (load_entry e t) = pt_storage t" "pt_subscriptions (load_entry e t) = pt_subscriptions t" "pt_timer (load_entry e t) = pt_timer t"
  "pt_loaded (load_entry e t) = pt_loaded t"
  by (auto simp: load_entry_def split: prod.splits presence_entry.splits option.splits jval.splits)

lemma load_entry_jm_ok:
  "jm_ok (pt_leases t) \<Longrightarrow> jm_ok (pt_leases (load_entry e t))" "jm_ok (pt_prekeys t) \<Longrightarrow> jm_ok (pt_prekeys (load_entry e t))"
  by (auto simp: load_entry_def split: prod.splits presence_entry.splits option.splits jval.splits)

lemma load_fold_frame [simp]:
  "pt_storage (fold load_entry xs t) = pt_storage t" "pt_subscriptions (fold load_entry xs t) = pt_subscriptions t"
  "pt_timer (fold load_entry xs t) = pt_timer t" "pt_loaded (fold load_entry xs t) = pt_loaded t"
  "jm_ok (pt_leases t) \<Longrightarrow> jm_ok (pt_leases (fold load_entry xs t))" "jm_ok (pt_prekeys t) \<Longrightarrow> jm_ok (pt_prekeys (fold load_entry xs t))"
  by (induction xs arbitrary: t) (auto simp: load_entry_jm_ok)

lemma load_entry_get:
  assumes "entry_ok c k v"
  shows "jm_get (pt_leases (load_entry (k, v) t)) i = (case v of SLease l \<Rightarrow> if k = ''lease:'' @ i then Some l else jm_get (pt_leases t) i | _ \<Rightarrow> jm_get (pt_leases t) i)"
    "jm_get (pt_prekeys (load_entry (k, v) t)) i = (case v of SBundle b \<Rightarrow> if k = ''prekey:'' @ i then Some b else jm_get (pt_prekeys t) i | _ \<Rightarrow> jm_get (pt_prekeys t) i)"
  using assms by (auto simp: load_entry_def entry_ok_def jm_simps split: presence_entry.splits if_splits simp del: jfield.simps)

lemma load_fold_get:
  assumes "\<And>k v. (k, v) \<in> set xs \<Longrightarrow> entry_ok c k v" "distinct (map fst xs)"
  shows "jm_get (pt_leases (fold load_entry xs t)) i = (case map_of xs (''lease:'' @ i) of Some (SLease l) \<Rightarrow> Some l | _ \<Rightarrow> jm_get (pt_leases t) i)
    \<and> jm_get (pt_prekeys (fold load_entry xs t)) i = (case map_of xs (''prekey:'' @ i) of Some (SBundle b) \<Rightarrow> Some b | _ \<Rightarrow> jm_get (pt_prekeys t) i)"
  using assms
proof (induction xs arbitrary: t)
  case (Cons x xs)
  obtain k v where x: "x = (k, v)" by (cases x)
  have "entry_ok c k v" using Cons.prems(1) x by simp
  note e = load_entry_get [OF this, of t i]
  have none: "map_of xs k = None" using Cons.prems(2) x by (simp add: map_of_eq_None_iff)
  have "distinct (map fst xs)" "\<And>k v. (k, v) \<in> set xs \<Longrightarrow> entry_ok c k v" using Cons.prems by auto
  then show ?case using Cons.IH [of "load_entry (k, v) t"] e x none by (auto split: presence_entry.splits option.splits)
qed simp

lemma ensureLoaded_inv:
  assumes "presence_inv c t"
  shows "presence_inv c (ensureLoaded t)" "pt_loaded (ensureLoaded t)" "pt_storage (ensureLoaded t) = pt_storage t"
    "held_lease (ensureLoaded t) = held_lease t" "held_bundle (ensureLoaded t) = held_bundle t"
    "jm_get (pt_leases (ensureLoaded t)) i = held_lease t i" "jm_get (pt_prekeys (ensureLoaded t)) i = held_bundle t i"
proof -
  show l: "pt_loaded (ensureLoaded t)" and s: "pt_storage (ensureLoaded t) = pt_storage t" by (simp_all add: ensureLoaded_def Let_def)
  show h: "held_lease (ensureLoaded t) = held_lease t" "held_bundle (ensureLoaded t) = held_bundle t"
    by (simp_all add: fun_eq_iff held_lease_def held_bundle_def s)
  have ok: "jm_ok (pt_storage t)" "\<And>k v. (k, v) \<in> set (storage_list (pt_storage t)) \<Longrightarrow> entry_ok c k v"
    using assms storage_list_map(3) jm_in_set_get by (force simp: presence_inv_def)+
  have get: "jm_get (pt_leases (ensureLoaded t)) i = held_lease t i" "jm_get (pt_prekeys (ensureLoaded t)) i = held_bundle t i" for i
    using assms load_fold_get [OF ok(2) storage_list_map(2) [OF ok(1)], of t i] storage_list_map(1) [OF ok(1)]
    by (auto simp: ensureLoaded_def presence_inv_def Let_def held_lease_def held_bundle_def split: option.splits presence_entry.splits)
  show "jm_get (pt_leases (ensureLoaded t)) i = held_lease t i" "jm_get (pt_prekeys (ensureLoaded t)) i = held_bundle t i" by (rule get)+
  show "presence_inv c (ensureLoaded t)"
  proof (cases "pt_loaded t")
    case True
    then show ?thesis using assms by (simp add: ensureLoaded_def)
  next
    case False
    have "jm_ok (pt_leases (ensureLoaded t))" "jm_ok (pt_prekeys (ensureLoaded t))" "pt_leases (ensureLoaded t) \<noteq> [] \<longrightarrow> pt_timer (ensureLoaded t)"
      "distinct (pt_subscriptions (ensureLoaded t))"
      using assms False by (auto simp: ensureLoaded_def presence_inv_def Let_def)
    then show ?thesis using assms get l s h by (auto simp: presence_inv_def)
  qed
qed

section \<open>Changes that keep the invariant\<close>

text \<open>The keys of the storage: four families that never meet.\<close>

lemma seq_keys [simp]:
  "take 6 (''presence-seq:'' @ i) \<noteq> ''lease:''" "take 7 (''presence-seq:'' @ i) \<noteq> ''prekey:''"
  "take 6 (''prekey-seq:'' @ i) \<noteq> ''lease:''" "take 7 (''prekey-seq:'' @ i) \<noteq> ''prekey:''"
  by simp_all

lemma claim_cases:
  assumes "claimIssuedAt key n now t = (t', b)"
  shows "if b then isFreshIssuedAt (Some (JNum n)) now \<and> t' = t\<lparr>pt_storage := jm_set key (SSeq n) (pt_storage t)\<rparr> \<and> (\<forall>u. newest_seq t key = Some u \<longrightarrow> u < n)
    else t' = t"
  using assms by (auto simp: claimIssuedAt_def newest_seq_def split: if_splits option.splits presence_entry.splits)

lemma claim_inv:
  assumes "presence_inv c t" "take 6 k \<noteq> ''lease:''" "take 7 k \<noteq> ''prekey:''"
  shows "presence_inv c (t\<lparr>pt_storage := jm_set k (SSeq n) (pt_storage t)\<rparr>)"
proof -
  have "''lease:'' @ i \<noteq> k" "''prekey:'' @ i \<noteq> k" for i using assms(2,3) by auto
  then have "held_lease (t\<lparr>pt_storage := jm_set k (SSeq n) (pt_storage t)\<rparr>) i = held_lease t i"
    "held_bundle (t\<lparr>pt_storage := jm_set k (SSeq n) (pt_storage t)\<rparr>) i = held_bundle t i" for i
    by (simp_all add: held_lease_def held_bundle_def jm_get_set del: append_Cons append_Nil)
  then show ?thesis using assms by (auto simp: presence_inv_def jm_get_set entry_ok_def)
qed

lemma lease_inv:
  assumes "presence_inv c t" "pt_loaded t" "lease_signed c l" "pl_identityId l = i"
  shows "presence_inv c (t\<lparr>pt_leases := jm_set i l (pt_leases t), pt_storage := jm_set (''lease:'' @ i) (SLease l) (pt_storage t), pt_timer := True\<rparr>)"
  using assms by (auto simp: presence_inv_def jm_get_set entry_ok_def held_lease_def held_bundle_def)

lemma jm_del_nonempty: "jm_del i m \<noteq> [] \<Longrightarrow> m \<noteq> []"
  by (auto simp: jm_del_def)

lemma drop_lease_inv: "presence_inv c t \<Longrightarrow> pt_loaded t \<Longrightarrow> presence_inv c (drop_lease i t)"
  using jm_del_nonempty [of i "pt_leases t"]
  by (auto simp: presence_inv_def drop_lease_def jm_get_del held_lease_def held_bundle_def)

lemma bundle_inv:
  assumes "presence_inv c t" "pt_loaded t" "bundle_signed c i b" "jfield b ''identityId'' = Some (JStr i)"
  shows "presence_inv c (t\<lparr>pt_prekeys := jm_set i b (pt_prekeys t), pt_storage := jm_set (''prekey:'' @ i) (SBundle b) (pt_storage t)\<rparr>)"
  using assms by (auto simp: presence_inv_def jm_get_set entry_ok_def held_lease_def held_bundle_def simp del: jfield.simps)

lemma drop_bundle_inv:
  "presence_inv c t \<Longrightarrow> pt_loaded t \<Longrightarrow>
    presence_inv c (t\<lparr>pt_prekeys := jm_del i (pt_prekeys t), pt_storage := jm_del (''prekey:'' @ i) (pt_storage t)\<rparr>)"
  by (auto simp: presence_inv_def jm_get_del held_lease_def held_bundle_def)

lemma subscriptions_inv:
  "presence_inv c t \<Longrightarrow> distinct ss \<Longrightarrow> pt_loaded t \<or> ss = [] \<Longrightarrow> presence_inv c (t\<lparr>pt_subscriptions := ss\<rparr>)"
  by (auto simp: presence_inv_def held_lease_def held_bundle_def)

lemma timer_inv: "presence_inv c t \<Longrightarrow> b \<or> pt_leases t = [] \<Longrightarrow> presence_inv c (t\<lparr>pt_timer := b\<rparr>)"
  by (auto simp: presence_inv_def held_lease_def held_bundle_def)

lemma broadcast_fields:
  assumes "ps_broadcast alive f t = (t', out)"
  shows "pt_storage t' = pt_storage t" "pt_leases t' = pt_leases t" "pt_prekeys t' = pt_prekeys t" "pt_loaded t' = pt_loaded t" "pt_timer t' = pt_timer t"
    "pt_subscriptions t' = filter alive (pt_subscriptions t)" "out = map (\<lambda>ws. Send ws f) (filter alive (pt_subscriptions t))"
  using assms by (auto simp: ps_broadcast_def)

lemma broadcast_inv:
  assumes "presence_inv c t" "ps_broadcast alive f t = (t', out)"
  shows "presence_inv c t'"
proof -
  have "distinct (filter alive (pt_subscriptions t))" "pt_loaded t \<or> filter alive (pt_subscriptions t) = []"
    using assms(1) by (auto simp: presence_inv_def split: if_splits)
  then show ?thesis using subscriptions_inv [OF assms(1)] assms(2) by (auto simp: ps_broadcast_def)
qed

section \<open>Accepted writes\<close>

lemma readBody_Some:
  assumes "readBody allowed request = Some (body, i, t)"
  shows "request = Some (JObj body)" "jfield body ''identityId'' = Some (JStr i)" "jfield body ''issuedAt'' = Some (JNum t)" "id_hex i"
    "safe_int t" "\<And>k v. (k, v) \<in> set body \<Longrightarrow> k \<in> set allowed"
  using assms by (auto simp: readBody_def list_ex_iff split: option.splits jval.splits if_splits simp del: jfield.simps)

lemma handlePublish_cases:
  assumes "handlePublish c alive now request t = (t', out, r)"
  obtains (rejected) "t' = t" "out = []" "\<And>x. r \<noteq> LeasePublished x" "\<And>b. r \<noteq> Removed b" "\<And>x. r \<noteq> PrekeysPublished x"
    | (published) body i issuedAt l where "readBody LEASE_PUBLISH_KEYS request = Some (body, i, issuedAt)" "r = LeasePublished (pl_expiresAt l)"
      "lease_signed c l" "pl_identityId l = i" "pl_issuedAt l = issuedAt" "isFreshIssuedAt (Some (JNum issuedAt)) now"
      "\<And>u. newest_seq t (''presence-seq:'' @ i) = Some u \<Longrightarrow> u < issuedAt"
      "now < pl_expiresAt l" "pl_expiresAt l \<le> now + PRESENCE_LEASE_TTL_MS"
      "ps_broadcast alive (online_frame i (pl_expiresAt l)) (t\<lparr>pt_leases := jm_set i l (pt_leases t),
         pt_storage := jm_set (''lease:'' @ i) (SLease l) (jm_set (''presence-seq:'' @ i) (SSeq issuedAt) (pt_storage t)), pt_timer := True\<rparr>) = (t', out)"
proof (cases "\<exists>x. r = LeasePublished x")
  case False
  then have "t' = t \<and> out = [] \<and> (\<forall>b. r \<noteq> Removed b) \<and> (\<forall>x. r \<noteq> PrekeysPublished x)"
    using assms
    by (auto simp: handlePublish_def Let_def dest!: claim_cases split: option.splits prod.splits if_splits bool.splits simp del: jfield.simps)
  then show ?thesis using False by (intro rejected) auto
next
  case True
  obtain body i issuedAt where b: "readBody LEASE_PUBLISH_KEYS request = Some (body, i, issuedAt)"
    using assms True by (auto simp: handlePublish_def split: option.splits)
  obtain deviceId expiresAt where d: "string_field (jfield body ''deviceId'') = Some deviceId" "integer_field (jfield body ''expiresAt'') = Some expiresAt"
    using assms True b by (auto simp: handlePublish_def split: option.splits simp del: jfield.simps)
  obtain v t1 where v: "verifyIdentityAuthJson c body ''presence.publish'' (Some (JStr i)) now = Some v" "now < expiresAt"
    "claimIssuedAt (''presence-seq:'' @ i) issuedAt now t = (t1, True)"
    "ps_broadcast alive (online_frame i (min expiresAt (now + PRESENCE_LEASE_TTL_MS)))
       (t1\<lparr>pt_leases := jm_set i (lease_of body i deviceId issuedAt (min expiresAt (now + PRESENCE_LEASE_TTL_MS))) (pt_leases t1),
          pt_storage := jm_set (''lease:'' @ i) (SLease (lease_of body i deviceId issuedAt (min expiresAt (now + PRESENCE_LEASE_TTL_MS)))) (pt_storage t1),
          pt_timer := True\<rparr>) = (t', out)" "r = LeasePublished (min expiresAt (now + PRESENCE_LEASE_TTL_MS))"
    using assms True b d
    by (auto simp: handlePublish_def Let_def split: option.splits if_splits prod.splits bool.splits simp del: jfield.simps append_Cons append_Nil)
  let ?l = "lease_of body i deviceId issuedAt (min expiresAt (now + PRESENCE_LEASE_TTL_MS))"
  note claim = claim_cases [OF v(3), simplified]
  obtain ident root where s: "fromHex i = Some ident" "identity_signed c ''presence.publish'' ident (JObj (without_auth body)) now root"
    by (rule verified_signed [OF v(1)])
  have "jfield body ''deviceId'' = Some (JStr deviceId)" "jfield body ''expiresAt'' = Some (JNum expiresAt)"
    using d by (auto elim!: string_field.elims integer_field.elims split: if_splits simp del: jfield.simps)
  then have "lease_signed c ?l"
    unfolding lease_signed_def using s readBody_Some [OF b] claim v(2)
    by (intro exI [of _ body] exI [of _ ident] exI [of _ now] exI [of _ root] exI [of _ expiresAt])
       (simp add: lease_of_def PRESENCE_LEASE_TTL_MS_def del: jfield.simps)
  then show ?thesis
    by (rule published [OF b, of ?l, rotated 1]) (use v claim in \<open>simp_all add: lease_of_def PRESENCE_LEASE_TTL_MS_def\<close>)
qed

lemma handlePrekeyPublish_cases:
  assumes "handlePrekeyPublish c now request t = (t', out, r)"
  obtains (rejected) "t' = t" "out = []" "\<And>x. r \<noteq> LeasePublished x" "\<And>b. r \<noteq> Removed b" "\<And>x. r \<noteq> PrekeysPublished x"
    | (published) body i issuedAt b where "readBody PREKEY_PUBLISH_KEYS request = Some (body, i, issuedAt)" "r = PrekeysPublished now"
      "b = jm_set ''updatedAt'' (JNum now) body" "bundle_signed c i b" "jfield b ''identityId'' = Some (JStr i)" "out = []"
      "\<And>u. newest_seq t (''prekey-seq:'' @ i) = Some u \<Longrightarrow> u < issuedAt"
      "t' = t\<lparr>pt_prekeys := jm_set i b (pt_prekeys t),
         pt_storage := jm_set (''prekey:'' @ i) (SBundle b) (jm_set (''prekey-seq:'' @ i) (SSeq issuedAt) (pt_storage t))\<rparr>"
proof (cases "\<exists>x. r = PrekeysPublished x")
  case False
  then have "t' = t \<and> out = [] \<and> (\<forall>b. r \<noteq> Removed b) \<and> (\<forall>x. r \<noteq> LeasePublished x)"
    using assms
    by (auto simp: handlePrekeyPublish_def Let_def dest!: claim_cases split: option.splits prod.splits if_splits bool.splits simp del: jfield.simps)
  then show ?thesis using False by (intro rejected) auto
next
  case True
  obtain body i issuedAt where b: "readBody PREKEY_PUBLISH_KEYS request = Some (body, i, issuedAt)"
    using assms True by (auto simp: handlePrekeyPublish_def split: option.splits)
  let ?b = "jm_set ''updatedAt'' (JNum now) body"
  obtain v t1 where v: "verifyIdentityAuthJson c body ''prekeys.publish'' (Some (JStr i)) now = Some v"
    "claimIssuedAt (''prekey-seq:'' @ i) issuedAt now t = (t1, True)" "r = PrekeysPublished now" "out = []"
    "t' = t1\<lparr>pt_prekeys := jm_set i ?b (pt_prekeys t1), pt_storage := jm_set (''prekey:'' @ i) (SBundle ?b) (pt_storage t1)\<rparr>"
    using assms True b
    by (auto simp: handlePrekeyPublish_def Let_def split: option.splits if_splits prod.splits bool.splits simp del: jfield.simps append_Cons append_Nil)
  note claim = claim_cases [OF v(2), simplified]
  obtain ident root where s: "fromHex i = Some ident" "identity_signed c ''prekeys.publish'' ident (JObj (without_auth body)) now root"
    by (rule verified_signed [OF v(1)])
  have new: "jfield body ''updatedAt'' = None"
    using readBody_Some(6) [OF b] by (force simp: PREKEY_PUBLISH_KEYS_def map_of_eq_None_iff)
  have id: "jfield ?b ''identityId'' = Some (JStr i)"
    using readBody_Some(2) [OF b] jm_get_set [of "''updatedAt''" "JNum now" body "''identityId''"] by (simp add: jm_get_def)
  have "bundle_signed c i ?b"
    unfolding bundle_signed_def using s new readBody_Some(2) [OF b] by blast
  then show ?thesis
    by (rule published [OF b v(3) refl _ id v(4)]) (use claim v(5) in simp_all)
qed

lemma authorizeRemove_cases:
  assumes "authorizeRemove c now request param operation seqKey t = (t', r)"
  obtains (rejected) e where "t' = t" "r = Inl e" "\<And>x. e \<noteq> LeasePublished x" "\<And>b. e \<noteq> Removed b" "\<And>x. e \<noteq> PrekeysPublished x"
    | (allowed) body i issuedAt v where "readBody REMOVE_KEYS request = Some (body, i, issuedAt)" "r = Inr i" "param = Some i"
      "verifyIdentityAuthJson c body operation (Some (JStr i)) now = Some v"
      "\<And>u. newest_seq t (seqKey @ '':'' @ i) = Some u \<Longrightarrow> u < issuedAt"
      "t' = t\<lparr>pt_storage := jm_set (seqKey @ '':'' @ i) (SSeq issuedAt) (pt_storage t)\<rparr>"
proof (cases "readBody REMOVE_KEYS request")
  case None
  then show ?thesis using assms by (intro rejected [of MalformedBody]) (auto simp: authorizeRemove_def)
next
  case (Some bi)
  obtain body i issuedAt where b: "readBody REMOVE_KEYS request = Some (body, i, issuedAt)" using Some by (cases bi) auto
  obtain t1 ok where k: "claimIssuedAt (seqKey @ '':'' @ i) issuedAt now t = (t1, ok)"
    by (cases "claimIssuedAt (seqKey @ '':'' @ i) issuedAt now t")
  note claim = claim_cases [OF k]
  show ?thesis
  proof (cases "param = Some i \<and> verifyIdentityAuthJson c body operation (Some (JStr i)) now \<noteq> None \<and> ok")
    case True
    then obtain v where "verifyIdentityAuthJson c body operation (Some (JStr i)) now = Some v" by blast
    then show ?thesis using True assms b k claim by (intro allowed [OF b]) (auto simp: authorizeRemove_def)
  next
    case False
    then consider "t' = t" "r = Inl MalformedBody" | "t' = t" "r = Inl Unauthorized" | "t' = t" "r = Inl StaleIssuedAt"
      using assms b k claim by (auto simp: authorizeRemove_def split: if_splits)
    then show ?thesis by cases (use rejected in auto)
  qed
qed

lemma cleanup_inv:
  "presence_inv c t \<Longrightarrow> pt_loaded t \<Longrightarrow> cleanup_loop alive now xs t = (t', out) \<Longrightarrow> presence_inv c t' \<and> pt_loaded t'"
proof (induction alive now xs t arbitrary: t' out rule: cleanup_loop.induct)
  case (2 alive now i lease rest t)
  show ?case
  proof (cases "isExpired now lease")
    case True
    obtain t1 o1 where b: "ps_broadcast alive (presence_notice i False) (drop_lease i t) = (t1, o1)"
      by (cases "ps_broadcast alive (presence_notice i False) (drop_lease i t)")
    obtain t2 o2 where l: "cleanup_loop alive now rest t1 = (t2, o2)" by (cases "cleanup_loop alive now rest t1")
    have "presence_inv c t1" "pt_loaded t1"
      using broadcast_inv [OF drop_lease_inv [OF 2(3,4)] b] broadcast_fields(4) [OF b] 2(4) by (simp_all add: drop_lease_def)
    then show ?thesis using 2(1) [OF True b [symmetric] _ _ l] 2(5) True b l by simp
  next
    case False
    then show ?thesis using 2 by simp
  qed
qed simp

lemma cleanup_seq: "cleanup_loop alive now xs t = (t', out) \<Longrightarrow> take 6 k \<noteq> ''lease:'' \<Longrightarrow> jm_get (pt_storage t') k = jm_get (pt_storage t) k"
proof (induction alive now xs t arbitrary: t' out rule: cleanup_loop.induct)
  case (2 alive now i lease rest t)
  have "k \<noteq> ''lease:'' @ i" using 2(4) by auto
  then show ?case
    using 2 broadcast_fields(1) by (fastforce simp: drop_lease_def jm_get_del split: if_splits prod.splits)
qed simp

section \<open>Every event\<close>

text \<open>The key and time of a write that was accepted.\<close>

definition presence_write :: "crypto \<Rightarrow> presence_event \<Rightarrow> tracker \<Rightarrow> (string \<times> int) option" where
  "presence_write c e t =
     (case e of
        PRequest alive now req \<Rightarrow>
          (case dq_body req of
             Some (JObj body) \<Rightarrow>
               (case (jfield body ''identityId'', jfield body ''issuedAt'') of
                  (Some (JStr i), Some (JNum n)) \<Rightarrow>
                    (case snd (snd (tracker_fetch c alive now req t)) of
                       LeasePublished _ \<Rightarrow> Some (''presence-seq:'' @ i, n)
                     | PrekeysPublished _ \<Rightarrow> Some (''prekey-seq:'' @ i, n)
                     | Removed _ \<Rightarrow> Some ((if dq_path req = ''/do/remove'' then ''presence-seq:'' else ''prekey-seq:'') @ i, n)
                     | _ \<Rightarrow> None)
                | _ \<Rightarrow> None)
           | _ \<Rightarrow> None)
      | _ \<Rightarrow> None)"

lemma newest_seq_keys:
  assumes "presence_inv c t"
  shows "newest_seq t (''lease:'' @ i) = None" "newest_seq t (''prekey:'' @ i) = None"
  using assms by (fastforce simp: presence_inv_def newest_seq_def entry_ok_def split: option.splits presence_entry.splits)+

lemma newest_seq_set:
  assumes "presence_inv c t" "pt_storage t' = jm_set k v (pt_storage t)" "case v of SSeq n \<Rightarrow> True | SLease l \<Rightarrow> \<exists>i. k = ''lease:'' @ i | SBundle b \<Rightarrow> \<exists>i. k = ''prekey:'' @ i"
  shows "newest_seq t' k' = (case v of SSeq n \<Rightarrow> if k' = k then Some n else newest_seq t k' | _ \<Rightarrow> newest_seq t k')"
  using assms newest_seq_keys [OF assms(1)]
  by (auto simp: newest_seq_def jm_get_set split: presence_entry.splits)

lemma newest_seq_del:
  assumes "presence_inv c t" "pt_storage t' = jm_del k (pt_storage t)" "(\<exists>i. k = ''lease:'' @ i) \<or> (\<exists>i. k = ''prekey:'' @ i)"
  shows "newest_seq t' k' = newest_seq t k'"
  using assms newest_seq_keys [OF assms(1)] by (auto simp: newest_seq_def jm_get_del)

lemma newest_seq_same: "pt_storage t' = pt_storage t \<Longrightarrow> newest_seq t' = newest_seq t"
  by (simp add: newest_seq_def fun_eq_iff)

definition write_outcome :: "crypto \<Rightarrow> tracker \<Rightarrow> tracker \<Rightarrow> (string \<times> int) option \<Rightarrow> bool" where
  "write_outcome c t t' w \<longleftrightarrow> presence_inv c t' \<and> pt_loaded t' \<and>
     (case w of
        None \<Rightarrow> newest_seq t' = newest_seq t
      | Some (k, n) \<Rightarrow> (\<forall>u. newest_seq t k = Some u \<longrightarrow> u < n) \<and> newest_seq t' = (newest_seq t)(k \<mapsto> n))"

lemma handlePublish_outcome:
  assumes "presence_inv c t" "pt_loaded t" "handlePublish c alive now request t = (t', out, r)"
  shows "write_outcome c t t' (case (r, readBody LEASE_PUBLISH_KEYS request) of (LeasePublished _, Some (_, i, n)) \<Rightarrow> Some (''presence-seq:'' @ i, n) | _ \<Rightarrow> None)
    \<and> (case r of Removed _ \<Rightarrow> False | PrekeysPublished _ \<Rightarrow> False | LeasePublished _ \<Rightarrow> readBody LEASE_PUBLISH_KEYS request \<noteq> None | _ \<Rightarrow> True)"
  using assms(3)
proof (cases rule: handlePublish_cases)
  case rejected
  then show ?thesis using assms(1,2) by (simp add: write_outcome_def split: presence_reply.splits)
next
  case (published body i n l)
  let ?t1 = "t\<lparr>pt_storage := jm_set (''presence-seq:'' @ i) (SSeq n) (pt_storage t)\<rparr>"
  let ?t2 = "?t1\<lparr>pt_leases := jm_set i l (pt_leases ?t1), pt_storage := jm_set (''lease:'' @ i) (SLease l) (pt_storage ?t1), pt_timer := True\<rparr>"
  have inv1: "presence_inv c ?t1" by (rule claim_inv [OF assms(1)]) simp_all
  have inv2: "presence_inv c ?t2" by (rule lease_inv [OF inv1 _ published(3,4)]) (use assms(2) in simp)
  have b: "ps_broadcast alive (online_frame i (pl_expiresAt l)) ?t2 = (t', out)" using published(10) by simp
  have st: "pt_storage t' = pt_storage ?t2" "pt_loaded t'" using broadcast_fields [OF b] assms(2) by simp_all
  have "newest_seq ?t2 = newest_seq ?t1" using newest_seq_set [OF inv1, of ?t2 "''lease:'' @ i" "SLease l"] by (auto simp: fun_eq_iff)
  moreover have "newest_seq ?t1 = (newest_seq t)(''presence-seq:'' @ i \<mapsto> n)"
    using newest_seq_set [OF assms(1), of ?t1 "''presence-seq:'' @ i" "SSeq n"] by (auto simp: fun_eq_iff)
  ultimately have "newest_seq t' = (newest_seq t)(''presence-seq:'' @ i \<mapsto> n)" using newest_seq_same [OF st(1)] by simp
  then show ?thesis
    using broadcast_inv [OF inv2 b] st(2) published(1,2,7) by (simp add: write_outcome_def del: append_Cons append_Nil)
qed

lemma handlePrekeyPublish_outcome:
  assumes "presence_inv c t" "pt_loaded t" "handlePrekeyPublish c now request t = (t', out, r)"
  shows "write_outcome c t t' (case (r, readBody PREKEY_PUBLISH_KEYS request) of (PrekeysPublished _, Some (_, i, n)) \<Rightarrow> Some (''prekey-seq:'' @ i, n) | _ \<Rightarrow> None)
    \<and> (case r of Removed _ \<Rightarrow> False | LeasePublished _ \<Rightarrow> False | PrekeysPublished _ \<Rightarrow> readBody PREKEY_PUBLISH_KEYS request \<noteq> None | _ \<Rightarrow> True)"
  using assms(3)
proof (cases rule: handlePrekeyPublish_cases)
  case rejected
  then show ?thesis using assms(1,2) by (simp add: write_outcome_def split: presence_reply.splits)
next
  case (published body i n b)
  let ?t1 = "t\<lparr>pt_storage := jm_set (''prekey-seq:'' @ i) (SSeq n) (pt_storage t)\<rparr>"
  have t': "t' = ?t1\<lparr>pt_prekeys := jm_set i b (pt_prekeys ?t1), pt_storage := jm_set (''prekey:'' @ i) (SBundle b) (pt_storage ?t1)\<rparr>"
    using published(8) by simp
  have inv1: "presence_inv c ?t1" by (rule claim_inv [OF assms(1)]) simp_all
  have inv2: "presence_inv c t'" unfolding t' by (rule bundle_inv [OF inv1 _ published(4,5)]) (use assms(2) in simp)
  have "newest_seq t' = newest_seq ?t1" using newest_seq_set [OF inv1, of t' "''prekey:'' @ i" "SBundle b"] t' by (auto simp: fun_eq_iff)
  moreover have "newest_seq ?t1 = (newest_seq t)(''prekey-seq:'' @ i \<mapsto> n)"
    using newest_seq_set [OF assms(1), of ?t1 "''prekey-seq:'' @ i" "SSeq n"] by (auto simp: fun_eq_iff)
  ultimately have "newest_seq t' = (newest_seq t)(''prekey-seq:'' @ i \<mapsto> n)" by simp
  moreover have "pt_loaded t'" using t' assms(2) by simp
  ultimately show ?thesis
    using inv2 published(1,2,7) by (simp add: write_outcome_def del: append_Cons append_Nil)
qed

lemma authorizeRemove_outcome:
  assumes "presence_inv c t" "pt_loaded t" "authorizeRemove c now request param operation seqKey t = (t1, r)"
    and "\<And>i. take 6 (seqKey @ '':'' @ i) \<noteq> ''lease:''" "\<And>i. take 7 (seqKey @ '':'' @ i) \<noteq> ''prekey:''"
  shows "write_outcome c t t1 (case (r, readBody REMOVE_KEYS request) of (Inr _, Some (_, i, n)) \<Rightarrow> Some (seqKey @ '':'' @ i, n) | _ \<Rightarrow> None)
    \<and> (case r of Inl e \<Rightarrow> (case e of Removed _ \<Rightarrow> False | LeasePublished _ \<Rightarrow> False | PrekeysPublished _ \<Rightarrow> False | _ \<Rightarrow> True)
       | Inr i \<Rightarrow> (\<exists>body n. readBody REMOVE_KEYS request = Some (body, i, n)))"
  using assms(3)
proof (cases rule: authorizeRemove_cases)
  case (rejected e)
  then show ?thesis using assms(1,2) by (simp add: write_outcome_def split: presence_reply.splits)
next
  case (allowed body i n v)
  have inv1: "presence_inv c t1" unfolding allowed(6) by (rule claim_inv [OF assms(1,4,5)])
  have "newest_seq t1 = (newest_seq t)(seqKey @ '':'' @ i \<mapsto> n)"
    using newest_seq_set [OF assms(1), of t1 "seqKey @ '':'' @ i" "SSeq n"] allowed(6) by (auto simp: fun_eq_iff)
  moreover have "pt_loaded t1" using allowed(6) assms(2) by simp
  ultimately show ?thesis using inv1 allowed(1,2,5) by (simp add: write_outcome_def)
qed

lemma write_outcome_same:
  "write_outcome c t t1 w \<Longrightarrow> presence_inv c t2 \<Longrightarrow> pt_loaded t2 \<Longrightarrow> newest_seq t2 = newest_seq t1 \<Longrightarrow> write_outcome c t t2 w"
  by (auto simp: write_outcome_def split: option.splits)

lemma handleRemove_outcome:
  assumes "presence_inv c t" "pt_loaded t" "handleRemove c alive now request param t = (t', out, r)"
  shows "write_outcome c t t' (case (r, readBody REMOVE_KEYS request) of (Removed _, Some (_, i, n)) \<Rightarrow> Some (''presence-seq:'' @ i, n) | _ \<Rightarrow> None)
    \<and> (case r of LeasePublished _ \<Rightarrow> False | PrekeysPublished _ \<Rightarrow> False | Removed _ \<Rightarrow> readBody REMOVE_KEYS request \<noteq> None | _ \<Rightarrow> True)"
proof -
  obtain t1 q where q: "authorizeRemove c now request param ''presence.remove'' ''presence-seq'' t = (t1, q)"
    by (cases "authorizeRemove c now request param ''presence.remove'' ''presence-seq'' t")
  note out1 = authorizeRemove_outcome [OF assms(1,2) q, simplified append_Cons append_Nil, simplified]
  show ?thesis
  proof (cases q)
    case (Inl e)
    then show ?thesis using assms(3) q out1 by (auto simp: handleRemove_def split: presence_reply.splits)
  next
    case (Inr i)
    then obtain body n where b: "readBody REMOVE_KEYS request = Some (body, i, n)" using out1 by auto
    have o1: "write_outcome c t t1 (Some (''presence-seq:'' @ i, n))" using out1 Inr b by simp
    then have inv1: "presence_inv c t1" "pt_loaded t1" by (simp_all add: write_outcome_def)
    show ?thesis
    proof (cases "jm_has (pt_leases t1) i")
      case False
      then show ?thesis using assms(3) q Inr b o1 by (auto simp: handleRemove_def)
    next
      case True
      obtain t2 o2 where bc: "ps_broadcast alive (presence_notice i False) (drop_lease i t1) = (t2, o2)"
        by (cases "ps_broadcast alive (presence_notice i False) (drop_lease i t1)")
      have t2: "presence_inv c t2" "pt_loaded t2" "newest_seq t2 = newest_seq t1"
        using broadcast_inv [OF drop_lease_inv [OF inv1, of i] bc] broadcast_fields(1,4) [OF bc] inv1
          newest_seq_del [OF inv1(1), of "drop_lease i t1" "''lease:'' @ i"] newest_seq_same [of t2 "drop_lease i t1"]
        by (auto simp: drop_lease_def fun_eq_iff)
      have "t' = t2" "r = Removed True" using assms(3) q Inr True bc by (auto simp: handleRemove_def)
      then show ?thesis using write_outcome_same [OF o1 t2] b by simp
    qed
  qed
qed

lemma handlePrekeyRemove_outcome:
  assumes "presence_inv c t" "pt_loaded t" "handlePrekeyRemove c now request param t = (t', out, r)"
  shows "write_outcome c t t' (case (r, readBody REMOVE_KEYS request) of (Removed _, Some (_, i, n)) \<Rightarrow> Some (''prekey-seq:'' @ i, n) | _ \<Rightarrow> None)
    \<and> (case r of LeasePublished _ \<Rightarrow> False | PrekeysPublished _ \<Rightarrow> False | Removed _ \<Rightarrow> readBody REMOVE_KEYS request \<noteq> None | _ \<Rightarrow> True)"
proof -
  obtain t1 q where q: "authorizeRemove c now request param ''prekeys.remove'' ''prekey-seq'' t = (t1, q)"
    by (cases "authorizeRemove c now request param ''prekeys.remove'' ''prekey-seq'' t")
  note out1 = authorizeRemove_outcome [OF assms(1,2) q, simplified append_Cons append_Nil, simplified]
  show ?thesis
  proof (cases q)
    case (Inl e)
    then show ?thesis using assms(3) q out1 by (auto simp: handlePrekeyRemove_def split: presence_reply.splits)
  next
    case (Inr i)
    then obtain body n where b: "readBody REMOVE_KEYS request = Some (body, i, n)" using out1 by auto
    have o1: "write_outcome c t t1 (Some (''prekey-seq:'' @ i, n))" using out1 Inr b by simp
    then have inv1: "presence_inv c t1" "pt_loaded t1" by (simp_all add: write_outcome_def)
    let ?t2 = "t1\<lparr>pt_prekeys := jm_del i (pt_prekeys t1), pt_storage := jm_del (''prekey:'' @ i) (pt_storage t1)\<rparr>"
    have t2: "presence_inv c ?t2" "pt_loaded ?t2" "newest_seq ?t2 = newest_seq t1"
      using drop_bundle_inv [OF inv1, of i] inv1 newest_seq_del [OF inv1(1), of ?t2 "''prekey:'' @ i"] by (auto simp: fun_eq_iff)
    have "t' = t1 \<and> r = Removed False \<or> t' = ?t2 \<and> r = Removed True" using assms(3) q Inr by (auto simp: handlePrekeyRemove_def split: if_splits)
    then show ?thesis using o1 write_outcome_same [OF o1 t2] b by auto
  qed
qed

lemma handleQuery_outcome:
  assumes "presence_inv c t" "pt_loaded t" "handleQuery now param t = (t', out, r)"
  shows "write_outcome c t t' None" "case r of LeasePublished _ \<Rightarrow> False | PrekeysPublished _ \<Rightarrow> False | Removed _ \<Rightarrow> False | _ \<Rightarrow> True"
proof -
  have "t' = t \<or> (\<exists>i. t' = drop_lease i t)" using assms(3) by (auto simp: handleQuery_def split: option.splits if_splits)
  moreover have "write_outcome c t t None" using assms(1,2) by (simp add: write_outcome_def)
  moreover have "write_outcome c t (drop_lease i t) None" for i
    using drop_lease_inv [OF assms(1,2)] assms(2) newest_seq_del [OF assms(1), of "drop_lease i t" "''lease:'' @ i"]
    by (auto simp: write_outcome_def fun_eq_iff drop_lease_def)
  ultimately show "write_outcome c t t' None" by auto
  show "case r of LeasePublished _ \<Rightarrow> False | PrekeysPublished _ \<Rightarrow> False | Removed _ \<Rightarrow> False | _ \<Rightarrow> True"
    using assms(3) by (auto simp: handleQuery_def split: option.splits if_splits)
qed

lemma handleSubscribe_outcome:
  assumes "presence_inv c t" "pt_loaded t" "handleSubscribe alive now upgrade ws t = (t', out, r)"
  shows "write_outcome c t t' None" "case r of LeasePublished _ \<Rightarrow> False | PrekeysPublished _ \<Rightarrow> False | Removed _ \<Rightarrow> False | _ \<Rightarrow> True"
proof -
  have d: "distinct (set_add ws (pt_subscriptions t))" using assms(1) by (simp add: presence_inv_def)
  have "presence_inv c (t\<lparr>pt_subscriptions := set_add ws (pt_subscriptions t), pt_timer := True\<rparr>)"
    using timer_inv [OF subscriptions_inv [OF assms(1) d], of True] assms(2) by simp
  then show "write_outcome c t t' None"
    using assms by (auto simp: handleSubscribe_def write_outcome_def newest_seq_def fun_eq_iff split: if_splits)
  show "case r of LeasePublished _ \<Rightarrow> False | PrekeysPublished _ \<Rightarrow> False | Removed _ \<Rightarrow> False | _ \<Rightarrow> True"
    using assms(3) by (auto simp: handleSubscribe_def split: if_splits)
qed

lemma presence_write_reply:
  assumes "tracker_fetch c alive now req t = (t', out, r)"
  shows "(case r of LeasePublished _ \<Rightarrow> False | PrekeysPublished _ \<Rightarrow> False | Removed _ \<Rightarrow> False | _ \<Rightarrow> True)
      \<Longrightarrow> presence_write c (PRequest alive now req) t = None"
    "readBody allowed (dq_body req) = Some (body, i, n) \<Longrightarrow> presence_write c (PRequest alive now req) t =
      (case r of LeasePublished _ \<Rightarrow> Some (''presence-seq:'' @ i, n) | PrekeysPublished _ \<Rightarrow> Some (''prekey-seq:'' @ i, n)
       | Removed _ \<Rightarrow> Some ((if dq_path req = ''/do/remove'' then ''presence-seq:'' else ''prekey-seq:'') @ i, n) | _ \<Rightarrow> None)"
  using assms readBody_Some(1-3) [of allowed "dq_body req" body i n]
  by (auto simp: presence_write_def split: presence_reply.splits option.splits jval.splits simp del: jfield.simps append_Cons append_Nil)

lemma fetch_outcome:
  assumes "presence_inv c t0" "tracker_fetch c alive now req t0 = (t', out, r)"
  shows "write_outcome c t0 t' (presence_write c (PRequest alive now req) t0)"
proof -
  let ?t = "ensureLoaded t0"
  note inv = ensureLoaded_inv(1,2) [OF assms(1)]
  have seq: "newest_seq ?t = newest_seq t0" by (rule newest_seq_same) (rule ensureLoaded_inv(3) [OF assms(1)])
  note none = presence_write_reply(1) [OF assms(2)] and some = presence_write_reply(2) [OF assms(2)]
  note F = assms(2) [unfolded tracker_fetch_def Let_def]
  have "write_outcome c ?t t' (presence_write c (PRequest alive now req) t0)"
  proof (cases "dq_path req \<in> {''/do/publish'', ''/do/remove'', ''/do/prekeys/publish'', ''/do/prekeys/remove''}")
    case False
    then consider "handleQuery now (dq_identityId req) ?t = (t', out, r)" | "handleSubscribe alive now (dq_upgrade req) (dq_socket req) ?t = (t', out, r)"
      | "t' = ?t" "case r of LeasePublished _ \<Rightarrow> False | PrekeysPublished _ \<Rightarrow> False | Removed _ \<Rightarrow> False | _ \<Rightarrow> True"
      using F by (auto simp: handlePrekeyGet_def split: if_splits option.splits)
    then show ?thesis
    proof cases
      case 1
      then show ?thesis using handleQuery_outcome [OF inv 1] none by simp
    next
      case 2
      then show ?thesis using handleSubscribe_outcome [OF inv 2] none by simp
    next
      case 3
      then show ?thesis using none inv by (simp add: write_outcome_def)
    qed
  next
    case True
    then consider "dq_path req = ''/do/publish''" | "dq_path req = ''/do/remove''" | "dq_path req = ''/do/prekeys/publish''" | "dq_path req = ''/do/prekeys/remove''"
      by blast
    then show ?thesis
    proof cases
      case 1
      then have h: "handlePublish c alive now (dq_body req) ?t = (t', out, r)" using F by simp
      from handlePublish_outcome [OF inv h] none some [of LEASE_PUBLISH_KEYS] show ?thesis
        by (cases "readBody LEASE_PUBLISH_KEYS (dq_body req)") (auto split: presence_reply.splits)
    next
      case 2
      then have h: "handleRemove c alive now (dq_body req) (dq_identityId req) ?t = (t', out, r)" using F by simp
      from handleRemove_outcome [OF inv h] none some [of REMOVE_KEYS] 2 show ?thesis
        by (cases "readBody REMOVE_KEYS (dq_body req)") (auto split: presence_reply.splits)
    next
      case 3
      then have h: "handlePrekeyPublish c now (dq_body req) ?t = (t', out, r)" using F by simp
      from handlePrekeyPublish_outcome [OF inv h] none some [of PREKEY_PUBLISH_KEYS] show ?thesis
        by (cases "readBody PREKEY_PUBLISH_KEYS (dq_body req)") (auto split: presence_reply.splits)
    next
      case 4
      then have h: "handlePrekeyRemove c now (dq_body req) (dq_identityId req) ?t = (t', out, r)" using F by simp
      from handlePrekeyRemove_outcome [OF inv h] none some [of REMOVE_KEYS] 4 show ?thesis
        by (cases "readBody REMOVE_KEYS (dq_body req)") (auto split: presence_reply.splits)
    qed
  qed
  then show ?thesis unfolding write_outcome_def seq .
qed

abbreviation tracker_step :: "crypto \<Rightarrow> presence_event \<Rightarrow> tracker \<Rightarrow> tracker" where
  "tracker_step c e t \<equiv> fst (presence_step c e t)"

definition step_ok :: "crypto \<Rightarrow> presence_event \<Rightarrow> tracker \<Rightarrow> bool" where
  "step_ok c e t \<longleftrightarrow> presence_inv c (tracker_step c e t) \<and>
     (case presence_write c e t of None \<Rightarrow> newest_seq (tracker_step c e t) = newest_seq t
      | Some (k, n) \<Rightarrow> (\<forall>u. newest_seq t k = Some u \<longrightarrow> u < n) \<and> newest_seq (tracker_step c e t) = (newest_seq t)(k \<mapsto> n))"

lemma tick_ok:
  assumes "presence_inv c t"
  shows "step_ok c (PTick alive now) t"
proof (cases "pt_loaded t")
  case True
  obtain t1 out where l: "cleanup_loop alive now (pt_leases t) t = (t1, out)" by (cases "cleanup_loop alive now (pt_leases t) t")
  have inv1: "presence_inv c t1" using cleanup_inv [OF assms True l] by simp
  have seq: "newest_seq t1 k = newest_seq t k" for k
  proof (cases "take 6 k = ''lease:''")
    case True
    then obtain i where "k = ''lease:'' @ i" by (metis append_take_drop_id)
    then show ?thesis using newest_seq_keys [OF assms] newest_seq_keys [OF inv1] by simp
  next
    case False
    then show ?thesis using cleanup_seq [OF l False] by (simp add: newest_seq_def)
  qed
  show ?thesis
    using l inv1 assms timer_inv [OF inv1, of False] seq
    by (auto simp: step_ok_def presence_write_def cleanupExpired_def newest_seq_def fun_eq_iff)
next
  case False
  then have "pt_leases t = []" "pt_subscriptions t = []" using assms by (simp_all add: presence_inv_def)
  then show ?thesis
    using assms timer_inv [OF assms, of False] by (auto simp: step_ok_def presence_write_def cleanupExpired_def newest_seq_def fun_eq_iff)
qed

lemma step_outcome:
  assumes "presence_inv c t"
  shows "step_ok c e t"
proof (cases e)
  case (PRequest alive now req)
  obtain t' out r where f: "tracker_fetch c alive now req t = (t', out, r)" by (cases "tracker_fetch c alive now req t") auto
  then have step: "tracker_step c e t = t'" using PRequest by simp
  show ?thesis
    using fetch_outcome [OF assms f] PRequest unfolding step_ok_def step write_outcome_def by blast
next
  case (PTick alive now)
  then show ?thesis using tick_ok [OF assms] by simp
next
  case (PSocketClosed ws)
  have "distinct (set_delete ws (pt_subscriptions t))" "pt_loaded t \<or> set_delete ws (pt_subscriptions t) = []"
    using assms by (auto simp: presence_inv_def set_delete_def split: if_splits)
  from subscriptions_inv [OF assms this] show ?thesis
    using PSocketClosed by (simp add: step_ok_def presence_write_def ps_closed_def newest_seq_def fun_eq_iff)
next
  case PEvicted
  then show ?thesis using evicted_inv [OF assms] by (simp add: step_ok_def presence_write_def newest_seq_def fun_eq_iff)
qed

text \<open>The presence service is a service of signed writes.\<close>

interpretation presence: signed_service "tracker_step c" "presence_inv c" "presence_write c" newest_seq for c
proof unfold_locales
  fix s e k t u assume ok: "presence_inv c s"
  note o = step_outcome [OF ok, of e, unfolded step_ok_def, THEN conjunct1] step_outcome [OF ok, of e, unfolded step_ok_def, THEN conjunct2]
  show "presence_inv c (tracker_step c e s)" by (rule o(1))
  show "presence_write c e s = Some (k, t) \<Longrightarrow> newest_seq s k = Some u \<Longrightarrow> u < t"
    "presence_write c e s = Some (k, t) \<Longrightarrow> newest_seq (tracker_step c e s) k = Some t" using o(2) by auto
  show "newest_seq (tracker_step c e s) k = Some u" if "newest_seq s k = Some u" "\<And>t. presence_write c e s \<noteq> Some (k, t)"
    using o(2) that by (cases "presence_write c e s") (auto split: prod.splits)
qed

end
