(* ===== verification/Discovery.thy ===== *)
theory Discovery
  imports Complex_Main Presence Signed_Service
begin

text \<open>
  The discovery service (\<open>workers/discovery/src/index.ts\<close>): profiles, searches, blocks and random
  matches. \<open>discovery\<close> is the durable object with its storage. No other request is delivered
  while a handler waits for the storage, but one may be while it waits for the relay: a random match
  asks the relay about one profile after the other, so it is a run that is resumed by each answer,
  and other requests may come in between. The other handlers ask the relay after their last look at
  the state. One clock value stands for the several \<open>Date.now()\<close> calls of a request (the proof, the
  rate limit and the age of a profile). \<open>relay\<close> is the bound service, \<open>None\<close> when there is none; it gives the status
  and body of its answer, or \<open>None\<close> when the call throws. Profiles in the storage may be older than
  the code and are read as untyped values. Scores are floating-point numbers: every operation on
  them is followed by the rounding \<open>fl\<close>, and \<open>frac_of\<close> gives the value of a fractional
  number from its text.
\<close>

section \<open>State\<close>

record stored_profile =
  sp_identityId :: string
  sp_username :: string
  sp_bio :: "string option"
  sp_interests :: "string list"
  sp_languages :: "string list"
  sp_firstSeenAt :: jval

record stored_group =
  sg_groupId :: string
  sg_name :: string
  sg_creator :: string
  sg_discoverable :: bool
  sg_createdAt :: int

datatype discovery_entry = DProfile jval | DGroup stored_group | DBlocks "string list" | DRequests "int list" | DIssuedAt int

record discovery =
  di_profiles :: "(string, stored_profile) jmap"
  di_groups :: "(string, stored_group) jmap"
  di_blocks :: "(string, string list) jmap"
  di_matchRequests :: "(string, int list) jmap"
  di_lastIssuedAt :: "(string, int) jmap"
  di_loaded :: bool
  di_storage :: "(string, discovery_entry) jmap"

definition new_discovery :: discovery where
  "new_discovery = \<lparr>di_profiles = [], di_groups = [], di_blocks = [], di_matchRequests = [], di_lastIssuedAt = [],
     di_loaded = False, di_storage = []\<rparr>"

type_synonym relay_binding = "(string \<Rightarrow> (int \<times> jval option) option) option"

section \<open>Fields\<close>

fun isShortString :: "jval \<Rightarrow> bool" where
  "isShortString (JStr s) = (js_trim s \<noteq> [] \<and> length s \<le> 32)"
| "isShortString _ = False"

fun isStringList :: "jval \<Rightarrow> bool" where
  "isStringList (JArr vs) = (length vs \<le> 16 \<and> list_all isShortString vs)"
| "isStringList _ = False"

fun text_of :: "jval \<Rightarrow> string" where
  "text_of (JStr s) = s"
| "text_of _ = []"

fun texts_of :: "jval \<Rightarrow> string list" where
  "texts_of (JArr vs) = map text_of vs"
| "texts_of _ = []"

fun is_text :: "jval \<Rightarrow> bool" where
  "is_text (JStr _) = True"
| "is_text _ = False"

definition validProfileFields :: "(string \<times> jval) list \<Rightarrow> bool" where
  "validProfileFields body =
     ((case jfield body ''username'' of None \<Rightarrow> False | Some v \<Rightarrow> isShortString v)
      \<and> (case jfield body ''bio'' of None \<Rightarrow> True | Some v \<Rightarrow> is_text v)
      \<and> (case jfield body ''interests'' of None \<Rightarrow> True | Some v \<Rightarrow> isStringList v)
      \<and> (case jfield body ''languages'' of None \<Rightarrow> True | Some v \<Rightarrow> isStringList v))"

definition text_list :: "jval option \<Rightarrow> string list" where
  "text_list v = (case v of None \<Rightarrow> [] | Some w \<Rightarrow> texts_of w)"

definition profile_from :: "(string \<times> jval) list \<Rightarrow> string \<Rightarrow> jval \<Rightarrow> stored_profile" where
  "profile_from body identityId firstSeenAt = \<lparr>sp_identityId = identityId,
     sp_username = (case jfield body ''username'' of None \<Rightarrow> [] | Some v \<Rightarrow> text_of v),
     sp_bio = map_option (\<lambda>v. take 160 (text_of v)) (jfield body ''bio''),
     sp_interests = text_list (jfield body ''interests''), sp_languages = text_list (jfield body ''languages''),
     sp_firstSeenAt = firstSeenAt\<rparr>"

definition profile_value :: "stored_profile \<Rightarrow> jval" where
  "profile_value p = JObj ([(''identityId'', JStr (sp_identityId p)), (''username'', JStr (sp_username p))]
     @ opt_field ''bio'' (map_option JStr (sp_bio p))
     @ [(''interests'', JArr (map JStr (sp_interests p))), (''languages'', JArr (map JStr (sp_languages p))),
        (''firstSeenAt'', sp_firstSeenAt p)])"

text \<open>A number at least 0 and at most \<open>now\<close>; the fractional part of a value in \<open>JFrac\<close> is not 0.\<close>

definition number_between :: "(string \<Rightarrow> rat) \<Rightarrow> jval \<Rightarrow> int \<Rightarrow> bool" where
  "number_between frac_of v now =
     (case v of JNum n \<Rightarrow> 0 \<le> n \<and> n \<le> now | JFrac s \<Rightarrow> 0 \<le> frac_of s \<and> frac_of s \<le> of_int now | _ \<Rightarrow> False)"

section \<open>Reading the storage\<close>

text \<open>A profile that is kept, rewritten without what older code stored; \<open>None\<close> is skipped.\<close>

definition load_profile :: "(string \<Rightarrow> rat) \<Rightarrow> int \<Rightarrow> string \<Rightarrow> jval \<Rightarrow> stored_profile option" where
  "load_profile frac_of now key value =
     (case value of
        JObj p \<Rightarrow>
          (case jfield p ''identityId'' of
             Some (JStr i) \<Rightarrow>
               (if \<not> id_hex i \<or> key \<noteq> ''profile:'' @ i \<or> \<not> validProfileFields p then None
                else Some (profile_from p i
                  (case jfield p ''firstSeenAt'' of Some v \<Rightarrow> if number_between frac_of v now then v else JNum now | None \<Rightarrow> JNum now)))
           | _ \<Rightarrow> None)
      | _ \<Rightarrow> None)"

definition load_discovery :: "(string \<Rightarrow> rat) \<Rightarrow> int \<Rightarrow> string \<times> discovery_entry \<Rightarrow> discovery \<Rightarrow> discovery" where
  "load_discovery frac_of now kv d =
     (case kv of (key, entry) \<Rightarrow>
        if take 8 key = ''profile:'' then
          (case entry of DProfile value \<Rightarrow>
             (case load_profile frac_of now key value of
                None \<Rightarrow> d
              | Some p \<Rightarrow> d\<lparr>di_storage := jm_set key (DProfile (profile_value p)) (di_storage d),
                  di_profiles := jm_set (sp_identityId p) p (di_profiles d)\<rparr>)
           | _ \<Rightarrow> d)
        else if take 6 key = ''group:'' then
          (case entry of DGroup g \<Rightarrow> d\<lparr>di_groups := jm_set (sg_groupId g) g (di_groups d)\<rparr> | _ \<Rightarrow> d)
        else if take 7 key = ''blocks:'' then
          (case entry of DBlocks ids \<Rightarrow> d\<lparr>di_blocks := jm_set (drop 7 key) (fold set_add ids []) (di_blocks d)\<rparr> | _ \<Rightarrow> d)
        else if take 15 key = ''match-requests:'' then
          (case entry of DRequests ts \<Rightarrow> d\<lparr>di_matchRequests := jm_set (drop 15 key) ts (di_matchRequests d)\<rparr> | _ \<Rightarrow> d)
        else if take 15 key = ''auth-issued-at:'' then
          (case entry of DIssuedAt n \<Rightarrow> d\<lparr>di_lastIssuedAt := jm_set (drop 15 key) n (di_lastIssuedAt d)\<rparr> | _ \<Rightarrow> d)
        else d)"

definition discovery_ensureLoaded :: "(string \<Rightarrow> rat) \<Rightarrow> int \<Rightarrow> discovery \<Rightarrow> discovery" where
  "discovery_ensureLoaded frac_of now d =
     (if di_loaded d then d
      else (fold (load_discovery frac_of now) (storage_list (di_storage d)) d)\<lparr>di_loaded := True\<rparr>)"

section \<open>Replies\<close>

record public_profile =
  pp_identityId :: string
  pp_username :: string
  pp_bio :: "string option"
  pp_interests :: "string list"
  pp_languages :: "string list"
  pp_online :: "bool option"

datatype discovery_reply =
    InvalidJson | ObjectRequired | InvalidIdentity | IssuedAtRequired | ProofRequired | InvalidProof | StaleRequest | ReplayedRequest
  | InvalidProfile | ProfileSaved public_profile
  | ParamRequired | ProfileNotFound | ProfileFound public_profile
  | PathMismatch | ProfileRemoved bool
  | QueryRequired | SearchResults string nat "public_profile list"
  | DistinctRequired | BlockStored
  | MatchFieldsRequired | RateLimited int | NoCandidates | MatchFound stored_profile nat
  | GroupList nat "stored_group list"
  | NoSuchRoute

fun discovery_status :: "discovery_reply \<Rightarrow> nat" where
  "discovery_status ProofRequired = 401"
| "discovery_status InvalidProof = 401"
| "discovery_status StaleRequest = 409"
| "discovery_status ReplayedRequest = 409"
| "discovery_status ProfileNotFound = 404"
| "discovery_status NoSuchRoute = 404"
| "discovery_status (RateLimited _) = 429"
| "discovery_status (ProfileSaved _) = 200"
| "discovery_status (ProfileFound _) = 200"
| "discovery_status (ProfileRemoved _) = 200"
| "discovery_status (SearchResults _ _ _) = 200"
| "discovery_status BlockStored = 200"
| "discovery_status NoCandidates = 200"
| "discovery_status (MatchFound _ _) = 200"
| "discovery_status (GroupList _ _) = 200"
| "discovery_status _ = 400"

section \<open>Identity proof\<close>

definition authorize ::
  "crypto \<Rightarrow> int \<Rightarrow> jval option \<Rightarrow> string \<Rightarrow> discovery \<Rightarrow> discovery \<times> (discovery_reply + (string \<times> jval) list \<times> string)" where
  "authorize c now request operation d =
     (case request of
        None \<Rightarrow> (d, Inl InvalidJson)
      | Some (JObj body) \<Rightarrow>
          (case jfield body ''identityId'' of
             Some (JStr identityId) \<Rightarrow>
               (if \<not> id_hex identityId then (d, Inl InvalidIdentity)
                else
                  (case jfield body ''issuedAt'' of
                     Some (JNum issuedAt) \<Rightarrow>
                       (if \<not> safe_int issuedAt then (d, Inl IssuedAtRequired)
                        else if jfield body ''auth'' = None then (d, Inl ProofRequired)
                        else if verifyIdentityAuthJson c body operation (Some (JStr identityId)) now = None then (d, Inl InvalidProof)
                        else if \<not> isFreshIssuedAt (Some (JNum issuedAt)) now then (d, Inl StaleRequest)
                        else if (case jm_get (di_lastIssuedAt d) identityId of None \<Rightarrow> False | Some l \<Rightarrow> issuedAt \<le> l)
                        then (d, Inl ReplayedRequest)
                        else (d\<lparr>di_lastIssuedAt := jm_set identityId issuedAt (di_lastIssuedAt d),
                                di_storage := jm_set (''auth-issued-at:'' @ identityId) (DIssuedAt issuedAt) (di_storage d)\<rparr>,
                              Inr (body, identityId)))
                   | _ \<Rightarrow> (d, Inl IssuedAtRequired)))
           | _ \<Rightarrow> (d, Inl InvalidIdentity))
      | Some _ \<Rightarrow> (d, Inl ObjectRequired))"

section \<open>Profiles\<close>

definition relayOnline :: "relay_binding \<Rightarrow> string \<Rightarrow> bool option" where
  "relayOnline relay identityId =
     (case relay of
        None \<Rightarrow> None
      | Some fetch \<Rightarrow>
          (case fetch identityId of
             Some (status, Some (JObj body)) \<Rightarrow>
               (if status \<noteq> 200 then None
                else case (jfield body ''identityId'', jfield body ''online'') of
                  (Some v, Some (JBool online)) \<Rightarrow> if v = JStr identityId then Some online else None
                | _ \<Rightarrow> None)
           | _ \<Rightarrow> None))"

definition publicProfile :: "relay_binding \<Rightarrow> stored_profile \<Rightarrow> public_profile" where
  "publicProfile relay p = \<lparr>pp_identityId = sp_identityId p, pp_username = sp_username p, pp_bio = sp_bio p,
     pp_interests = sp_interests p, pp_languages = sp_languages p, pp_online = relayOnline relay (sp_identityId p)\<rparr>"

definition PROFILE_KEYS :: "string list" where
  "PROFILE_KEYS = [''identityId'', ''issuedAt'', ''auth'', ''username'', ''bio'', ''interests'', ''languages'']"

definition handleProfileUpsert :: "crypto \<Rightarrow> relay_binding \<Rightarrow> int \<Rightarrow> jval option \<Rightarrow> discovery \<Rightarrow> discovery \<times> discovery_reply" where
  "handleProfileUpsert c relay now request d =
     (case authorize c now request ''discovery.profile.upsert'' d of
        (d1, Inl r) \<Rightarrow> (d1, r)
      | (d1, Inr (body, identityId)) \<Rightarrow>
          (if list_ex (\<lambda>(k, v). k \<notin> set PROFILE_KEYS) body \<or> \<not> validProfileFields body then (d1, InvalidProfile)
           else let p = profile_from body identityId
                      (case jm_get (di_profiles d1) identityId of None \<Rightarrow> JNum now | Some q \<Rightarrow> sp_firstSeenAt q) in
             (d1\<lparr>di_storage := jm_set (''profile:'' @ identityId) (DProfile (profile_value p)) (di_storage d1),
                 di_profiles := jm_set identityId p (di_profiles d1)\<rparr>,
              ProfileSaved (publicProfile relay p))))"

definition handleProfileGet :: "relay_binding \<Rightarrow> string option \<Rightarrow> discovery \<Rightarrow> discovery_reply" where
  "handleProfileGet relay param d =
     (case param of
        None \<Rightarrow> ParamRequired
      | Some identityId \<Rightarrow>
          (if identityId = [] then ParamRequired
           else case jm_get (di_profiles d) identityId of None \<Rightarrow> ProfileNotFound | Some p \<Rightarrow> ProfileFound (publicProfile relay p)))"

definition handleProfileDelete :: "crypto \<Rightarrow> int \<Rightarrow> jval option \<Rightarrow> discovery \<Rightarrow> discovery \<times> discovery_reply" where
  "handleProfileDelete c now request d =
     (case authorize c now request ''discovery.profile.delete'' d of
        (d1, Inl r) \<Rightarrow> (d1, r)
      | (d1, Inr (body, identityId)) \<Rightarrow>
          (if jm_has (di_profiles d1) identityId
           then (d1\<lparr>di_profiles := jm_del identityId (di_profiles d1), di_storage := jm_del (''profile:'' @ identityId) (di_storage d1)\<rparr>,
                 ProfileRemoved True)
           else (d1, ProfileRemoved False)))"

section \<open>Searches\<close>

text \<open>The text of a field of the body, if it is not empty.\<close>

definition query_field :: "jval option \<Rightarrow> string \<Rightarrow> discovery_reply + string" where
  "query_field request name =
     (case request of
        None \<Rightarrow> Inl InvalidJson
      | Some (JObj body) \<Rightarrow>
          (case jfield body name of Some (JStr s) \<Rightarrow> if s = [] then Inl QueryRequired else Inr s | _ \<Rightarrow> Inl QueryRequired)
      | Some _ \<Rightarrow> Inl QueryRequired)"

definition handleSearchInterest :: "relay_binding \<Rightarrow> jval option \<Rightarrow> discovery \<Rightarrow> discovery_reply" where
  "handleSearchInterest relay request d =
     (case query_field request ''tag'' of
        Inl r \<Rightarrow> r
      | Inr s \<Rightarrow>
          (let tag = js_lower s;
               results = filter (\<lambda>p. list_ex (\<lambda>i. js_lower i = tag) (sp_interests p)) (map snd (di_profiles d)) in
           SearchResults tag (length results) (map (publicProfile relay) results)))"

definition handleSearchLanguage :: "relay_binding \<Rightarrow> jval option \<Rightarrow> discovery \<Rightarrow> discovery_reply" where
  "handleSearchLanguage relay request d =
     (case query_field request ''language'' of
        Inl r \<Rightarrow> r
      | Inr s \<Rightarrow>
          (let lang = js_lower s;
               results = filter (\<lambda>p. list_ex (\<lambda>l. js_lower l = lang) (sp_languages p)) (map snd (di_profiles d)) in
           SearchResults s (length results) (map (publicProfile relay) results)))"

section \<open>Blocks\<close>

abbreviation blocked_by :: "discovery \<Rightarrow> string \<Rightarrow> string list" where
  "blocked_by d i \<equiv> jm_get_or (di_blocks d) i []"

definition handleBlock :: "crypto \<Rightarrow> int \<Rightarrow> jval option \<Rightarrow> discovery \<Rightarrow> discovery \<times> discovery_reply" where
  "handleBlock c now request d =
     (case authorize c now request ''discovery.block'' d of
        (d1, Inl r) \<Rightarrow> (d1, r)
      | (d1, Inr (body, identityId)) \<Rightarrow>
          (case jfield body ''blockedIdentityId'' of
             Some (JStr b) \<Rightarrow>
               (if b = [] \<or> identityId = b then (d1, DistinctRequired)
                else let blocked = set_add b (blocked_by d1 identityId) in
                  (d1\<lparr>di_blocks := jm_set identityId blocked (di_blocks d1),
                      di_storage := jm_set (''blocks:'' @ identityId) (DBlocks blocked) (di_storage d1)\<rparr>, BlockStored))
           | _ \<Rightarrow> (d1, DistinctRequired)))"

section \<open>Random match\<close>

definition MATCH_RATE_LIMIT :: nat where "MATCH_RATE_LIMIT = 5"
definition MATCH_RATE_WINDOW_MS :: int where "MATCH_RATE_WINDOW_MS = 60000"
definition REPUTATION_AGE_CAP_MS :: int where "REPUTATION_AGE_CAP_MS = 30 * 24 * 60 * 60 * 1000"

text \<open>The age and inverse-block weights of \<open>DEFAULT_REPUTATION_WEIGHTS\<close>.\<close>

definition weight_age :: rat where "weight_age = 35 / 100"
definition weight_blockInverse :: rat where "weight_blockInverse = 15 / 100"

text \<open>
  A match under way: the request, the position of the iterator over the profiles, the profile the
  relay was asked about, and the candidates found.
\<close>

record match_run =
  mr_identityId :: string
  mr_exclude :: "string list"
  mr_interests :: "string list"
  mr_languages :: "string list"
  mr_now :: int
  mr_position :: nat
  mr_profile :: stored_profile
  mr_candidates :: "(stored_profile \<times> rat) list"

definition number_value :: "(string \<Rightarrow> rat) \<Rightarrow> jval \<Rightarrow> rat" where
  "number_value frac_of v = (case v of JNum n \<Rightarrow> of_int n | JFrac s \<Rightarrow> frac_of s | _ \<Rightarrow> 0)"

definition age_of :: "(rat \<Rightarrow> rat) \<Rightarrow> int \<Rightarrow> rat \<Rightarrow> rat" where
  "age_of fl now firstSeenAt = min 1 (fl (max 0 (fl (of_int now - firstSeenAt)) / of_int REPUTATION_AGE_CAP_MS))"

definition match_score :: "(rat \<Rightarrow> rat) \<Rightarrow> int \<Rightarrow> rat \<Rightarrow> nat \<Rightarrow> rat" where
  "match_score fl now firstSeenAt blocksReceived =
     fl (fl (fl weight_age * age_of fl now firstSeenAt)
         - fl (fl weight_blockInverse * fl (1 - fl (1 / (1 + of_nat blocksReceived)))))"

definition blocksReceived :: "discovery \<Rightarrow> string \<Rightarrow> nat" where
  "blocksReceived d i = length (filter (\<lambda>(k, blocked). i \<in> set blocked) (di_blocks d))"

definition overlap :: "string list \<Rightarrow> string list \<Rightarrow> bool" where
  "overlap xs wanted = list_ex (\<lambda>x. js_lower x \<in> set wanted) xs"

text \<open>The hard gates, with the answer of the relay.\<close>

definition eligible :: "bool option \<Rightarrow> discovery \<Rightarrow> match_run \<Rightarrow> stored_profile \<Rightarrow> bool" where
  "eligible online d run p =
     (online = Some True \<and> sp_identityId p \<notin> set (mr_exclude run)
      \<and> sp_identityId p \<notin> set (blocked_by d (mr_identityId run))
      \<and> mr_identityId run \<notin> set (blocked_by d (sp_identityId p))
      \<and> (overlap (sp_interests p) (mr_interests run) \<or> overlap (sp_languages p) (mr_languages run)))"

text \<open>One iteration of the loop, in the state in which the answer of the relay arrives.\<close>

definition match_visit :: "(string \<Rightarrow> rat) \<Rightarrow> (rat \<Rightarrow> rat) \<Rightarrow> relay_binding \<Rightarrow> discovery \<Rightarrow> match_run \<Rightarrow> match_run" where
  "match_visit frac_of fl relay d run =
     (let p = mr_profile run in
      if eligible (relayOnline relay (sp_identityId p)) d run p
      then run\<lparr>mr_candidates := mr_candidates run
          @ [(p, match_score fl (mr_now run) (number_value frac_of (sp_firstSeenAt p)) (blocksReceived d (sp_identityId p)))]\<rparr>
      else run)"

text \<open>
  After the loop. The sort is stable. \<open>pick n\<close> is \<open>Math.floor(Math.random() * n)\<close>, a number below
  \<open>n\<close>.
\<close>

definition top_candidates :: "(stored_profile \<times> rat) list \<Rightarrow> (stored_profile \<times> rat) list" where
  "top_candidates candidates =
     (let sorted = sort_key (\<lambda>q. - snd q) candidates;
          topN = max 1 ((length candidates + 1) div 2);
          cutoff = snd (sorted ! (topN - 1)) in
      filter (\<lambda>q. snd q \<ge> cutoff) sorted)"

definition match_result :: "(nat \<Rightarrow> nat) \<Rightarrow> match_run \<Rightarrow> discovery_reply" where
  "match_result pick run =
     (if mr_candidates run = [] then NoCandidates
      else let top = top_candidates (mr_candidates run) in
        MatchFound (fst (top ! pick (length top))) (length (mr_candidates run)))"

text \<open>The iterator moves to the next profile, or the loop is over.\<close>

definition match_next :: "(nat \<Rightarrow> nat) \<Rightarrow> discovery \<Rightarrow> match_run \<Rightarrow> discovery_reply + match_run" where
  "match_next pick d run =
     (if mr_position run < length (di_profiles d)
      then Inr (run\<lparr>mr_profile := snd (di_profiles d ! mr_position run), mr_position := Suc (mr_position run)\<rparr>)
      else Inl (match_result pick run))"

definition match_resume ::
  "(string \<Rightarrow> rat) \<Rightarrow> (rat \<Rightarrow> rat) \<Rightarrow> relay_binding \<Rightarrow> (nat \<Rightarrow> nat) \<Rightarrow> discovery \<Rightarrow> match_run \<Rightarrow> discovery_reply + match_run" where
  "match_resume frac_of fl relay pick d run = match_next pick d (match_visit frac_of fl relay d run)"

text \<open>The optional list of excluded identities; \<open>None\<close> is no list of strings.\<close>

definition exclude_list :: "jval option \<Rightarrow> string list option" where
  "exclude_list v =
     (case v of None \<Rightarrow> Some [] | Some (JArr vs) \<Rightarrow> if list_all is_text vs then Some (map text_of vs) else None | Some _ \<Rightarrow> None)"

definition new_run :: "string \<Rightarrow> int \<Rightarrow> string list \<Rightarrow> string list \<Rightarrow> string list \<Rightarrow> match_run" where
  "new_run identityId now exclude interests languages = \<lparr>mr_identityId = identityId, mr_exclude = fold set_add (exclude @ [identityId]) [],
     mr_interests = map js_lower interests, mr_languages = map js_lower languages, mr_now = now, mr_position = 0,
     mr_profile = \<lparr>sp_identityId = [], sp_username = [], sp_bio = None, sp_interests = [], sp_languages = [], sp_firstSeenAt = JNull\<rparr>,
     mr_candidates = []\<rparr>"

definition handleRandomMatch ::
  "crypto \<Rightarrow> (nat \<Rightarrow> nat) \<Rightarrow> int \<Rightarrow> jval option \<Rightarrow> discovery \<Rightarrow> discovery \<times> (discovery_reply + match_run)" where
  "handleRandomMatch c pick now request d =
     (case authorize c now request ''discovery.random-match'' d of
        (d1, Inl r) \<Rightarrow> (d1, Inl r)
      | (d1, Inr (body, identityId)) \<Rightarrow>
          (case (jfield body ''interests'', jfield body ''languages'', exclude_list (jfield body ''exclude'')) of
             (Some interests, Some languages, Some exclude) \<Rightarrow>
               (if \<not> isStringList interests \<or> \<not> isStringList languages then (d1, Inl MatchFieldsRequired)
                else
                  (let requests = filter (\<lambda>t. t > now - MATCH_RATE_WINDOW_MS) (jm_get_or (di_matchRequests d1) identityId []) in
                   if length requests \<ge> MATCH_RATE_LIMIT then (d1, Inl (RateLimited (hd requests + MATCH_RATE_WINDOW_MS - now)))
                   else
                     (let requests' = requests @ [now];
                          d2 = d1\<lparr>di_matchRequests := jm_set identityId requests' (di_matchRequests d1),
                            di_storage := jm_set (''match-requests:'' @ identityId) (DRequests requests') (di_storage d1)\<rparr> in
                      (d2, match_next pick d2 (new_run identityId now exclude (texts_of interests) (texts_of languages))))))
           | _ \<Rightarrow> (d1, Inl MatchFieldsRequired)))"

section \<open>Groups\<close>

definition handleGroupsList :: "discovery \<Rightarrow> discovery_reply" where
  "handleGroupsList d = (let gs = filter sg_discoverable (map snd (di_groups d)) in GroupList (length gs) gs)"

section \<open>Routing and events\<close>

text \<open>The routes of the worker. A deletion is refused in front unless the body names the identity of the path.\<close>

datatype discovery_route =
    PostProfile "jval option"
  | GetProfile string
  | DeleteProfile string "jval option"
  | PostSearchInterest "jval option"
  | PostSearchLanguage "jval option"
  | PostRandomMatch "jval option"
  | PostBlock "jval option"
  | GetGroups

definition delete_front :: "string \<Rightarrow> jval option \<Rightarrow> discovery_reply option" where
  "delete_front identityId request =
     (case request of
        None \<Rightarrow> Some InvalidJson
      | Some (JObj body) \<Rightarrow> if jfield body ''identityId'' = Some (JStr identityId) then None else Some PathMismatch
      | Some _ \<Rightarrow> Some PathMismatch)"

fun discovery_fetch ::
  "crypto \<Rightarrow> relay_binding \<Rightarrow> (nat \<Rightarrow> nat) \<Rightarrow> int \<Rightarrow> discovery_route \<Rightarrow> discovery \<Rightarrow> discovery \<times> (discovery_reply + match_run)" where
  "discovery_fetch c relay pick now (PostProfile body) d = (case handleProfileUpsert c relay now body d of (d', r) \<Rightarrow> (d', Inl r))"
| "discovery_fetch c relay pick now (GetProfile i) d = (d, Inl (handleProfileGet relay (Some i) d))"
| "discovery_fetch c relay pick now (DeleteProfile i body) d = (case handleProfileDelete c now body d of (d', r) \<Rightarrow> (d', Inl r))"
| "discovery_fetch c relay pick now (PostSearchInterest body) d = (d, Inl (handleSearchInterest relay body d))"
| "discovery_fetch c relay pick now (PostSearchLanguage body) d = (d, Inl (handleSearchLanguage relay body d))"
| "discovery_fetch c relay pick now (PostRandomMatch body) d = handleRandomMatch c pick now body d"
| "discovery_fetch c relay pick now (PostBlock body) d = (case handleBlock c now body d of (d', r) \<Rightarrow> (d', Inl r))"
| "discovery_fetch c relay pick now GetGroups d = (d, Inl (handleGroupsList d))"

text \<open>
  An entry that leaves the map before the position of an iterator moves the position back. Entries
  are appended otherwise, and an entry that is set again keeps its place.
\<close>

definition map_position :: "(string, 'v) jmap \<Rightarrow> (string, 'v) jmap \<Rightarrow> nat \<Rightarrow> nat" where
  "map_position before after n = length (filter (\<lambda>k. jm_has after k) (map fst (take n before)))"

record discovery_service =
  ds_index :: discovery
  ds_runs :: "(nat, match_run) jmap"

definition move_runs :: "discovery \<Rightarrow> discovery \<Rightarrow> (nat, match_run) jmap \<Rightarrow> (nat, match_run) jmap" where
  "move_runs d d' runs =
     map (\<lambda>(n, run). (n, run\<lparr>mr_position := map_position (di_profiles d) (di_profiles d') (mr_position run)\<rparr>)) runs"

datatype discovery_event =
    DRequest nat relay_binding "nat \<Rightarrow> nat" int discovery_route
  | DAnswer nat relay_binding "nat \<Rightarrow> nat"
  | DEvicted

definition keep_run :: "nat \<Rightarrow> discovery_reply + match_run \<Rightarrow> (nat, match_run) jmap \<Rightarrow> (nat, match_run) jmap" where
  "keep_run n q runs = (case q of Inl r \<Rightarrow> jm_del n runs | Inr run \<Rightarrow> jm_set n run runs)"

definition reply_of :: "discovery_reply + match_run \<Rightarrow> discovery_reply option" where
  "reply_of q = (case q of Inl r \<Rightarrow> Some r | Inr run \<Rightarrow> None)"

text \<open>\<open>n\<close> is the number of the request; a match keeps it until it replies.\<close>

fun discovery_step ::
  "crypto \<Rightarrow> (string \<Rightarrow> rat) \<Rightarrow> (rat \<Rightarrow> rat) \<Rightarrow> discovery_event \<Rightarrow> discovery_service \<Rightarrow> discovery_service \<times> discovery_reply option" where
  "discovery_step c frac_of fl (DRequest n relay pick now route) s =
     (case (case route of DeleteProfile i body \<Rightarrow> delete_front i body | _ \<Rightarrow> None) of
        Some r \<Rightarrow> (s, Some r)
      | None \<Rightarrow>
          (let d = discovery_ensureLoaded frac_of now (ds_index s) in
           case discovery_fetch c relay pick now route d of
             (d', q) \<Rightarrow> (\<lparr>ds_index = d', ds_runs = keep_run n q (move_runs d d' (ds_runs s))\<rparr>, reply_of q)))"
| "discovery_step c frac_of fl (DAnswer n relay pick) s =
     (case jm_get (ds_runs s) n of
        None \<Rightarrow> (s, None)
      | Some run \<Rightarrow>
          (let q = match_resume frac_of fl relay pick (ds_index s) run in (s\<lparr>ds_runs := keep_run n q (ds_runs s)\<rparr>, reply_of q)))"
| "discovery_step c frac_of fl DEvicted s =
     (\<lparr>ds_index = new_discovery\<lparr>di_storage := di_storage (ds_index s)\<rparr>, ds_runs = []\<rparr>, None)"

end
