(* ===== verification/Discovery_Inv.thy ===== *)
theory Discovery_Inv
  imports Discovery
begin

text \<open>
  The invariant of the discovery service: the maps in memory show what lies in the storage, and every
  profile was signed by its identity.
\<close>

section \<open>Profiles\<close>

text \<open>What a signed request says of a profile; the time it was first seen is the service's own.\<close>

definition profile_signed :: "crypto \<Rightarrow> stored_profile \<Rightarrow> bool" where
  "profile_signed c p \<longleftrightarrow> (\<exists>body i now root. fromHex (sp_identityId p) = Some i
     \<and> identity_signed c ''discovery.profile.upsert'' i (JObj (without_auth body)) now root
     \<and> jfield body ''identityId'' = Some (JStr (sp_identityId p)) \<and> validProfileFields body
     \<and> p = profile_from body (sp_identityId p) (sp_firstSeenAt p))"

lemma profile_from_age: "(profile_from body i v)\<lparr>sp_firstSeenAt := w\<rparr> = profile_from body i w"
  by (simp add: profile_from_def)

lemma profile_signed_age:
  assumes "profile_signed c p"
  shows "profile_signed c (p\<lparr>sp_firstSeenAt := v\<rparr>)"
proof -
  obtain body i now root where b: "fromHex (sp_identityId p) = Some i"
    "identity_signed c ''discovery.profile.upsert'' i (JObj (without_auth body)) now root"
    "jfield body ''identityId'' = Some (JStr (sp_identityId p))" "validProfileFields body"
    and p: "p = profile_from body (sp_identityId p) (sp_firstSeenAt p)"
    using assms unfolding profile_signed_def by blast
  have "p\<lparr>sp_firstSeenAt := v\<rparr> = profile_from body (sp_identityId p) v" by (subst p) (rule profile_from_age)
  then show ?thesis unfolding profile_signed_def using b by (intro exI conjI) (auto simp: profile_from_def simp del: jfield.simps)
qed

definition profile_ok :: "stored_profile \<Rightarrow> bool" where
  "profile_ok p \<longleftrightarrow> isShortString (JStr (sp_username p)) \<and> (\<forall>b. sp_bio p = Some b \<longrightarrow> length b \<le> 160)
     \<and> isStringList (JArr (map JStr (sp_interests p))) \<and> isStringList (JArr (map JStr (sp_languages p)))"

lemma isShortString_text: "isShortString v \<Longrightarrow> v = JStr (text_of v)"
  by (cases v) auto

lemma isStringList_texts: "isStringList v \<Longrightarrow> v = JArr (map JStr (texts_of v))"
  by (cases v) (auto simp: list_all_iff map_idI dest!: isShortString_text intro!: map_idI [symmetric])

lemma valid_profile_ok:
  assumes "validProfileFields body"
  shows "profile_ok (profile_from body i v)"
proof -
  have u: "isShortString (JStr (sp_username (profile_from body i v)))"
    using assms isShortString_text by (auto simp: validProfileFields_def profile_from_def split: option.splits simp del: jfield.simps isShortString.simps)
  have l: "isStringList (JArr (map JStr (text_list w)))" if "case w of None \<Rightarrow> True | Some u \<Rightarrow> isStringList u" for w
  proof (cases w)
    case (Some u)
    then have "JArr (map JStr (texts_of u)) = u" using isStringList_texts that by simp
    then show ?thesis using that Some by (simp add: text_list_def)
  qed (simp add: text_list_def)
  show ?thesis
    using u l assms by (auto simp: profile_ok_def validProfileFields_def profile_from_def simp del: jfield.simps isStringList.simps isShortString.simps)
qed

lemma load_profile_value:
  assumes "profile_ok p" "id_hex (sp_identityId p)" "key = ''profile:'' @ sp_identityId p"
  shows "load_profile frac_of now key (profile_value p) =
    Some (p\<lparr>sp_firstSeenAt := if number_between frac_of (sp_firstSeenAt p) now then sp_firstSeenAt p else JNum now\<rparr>)"
proof -
  have t: "texts_of (JArr (map JStr xs)) = xs" for xs by (simp add: comp_def)
  show ?thesis
    using assms unfolding profile_ok_def
    by (cases "sp_bio p")
       (auto simp: load_profile_def profile_value_def opt_field_def validProfileFields_def profile_from_def text_list_def t
          simp del: isStringList.simps isShortString.simps texts_of.simps)
qed

text \<open>What a stored value says of a profile.\<close>

definition profile_of :: "jval \<Rightarrow> stored_profile option" where
  "profile_of w =
     (case w of
        JObj q \<Rightarrow> (case (jfield q ''identityId'', jfield q ''firstSeenAt'') of (Some (JStr i), Some v) \<Rightarrow> Some (profile_from q i v) | _ \<Rightarrow> None)
      | _ \<Rightarrow> None)"

lemma profile_of_value: "profile_ok p \<Longrightarrow> profile_of (profile_value p) = Some p"
  by (cases "sp_bio p") (auto simp: profile_of_def profile_value_def opt_field_def profile_from_def text_list_def comp_def profile_ok_def)

section \<open>The invariant\<close>

lemma fold_set_add: "distinct (acc @ xs) \<Longrightarrow> fold set_add xs acc = acc @ xs"
  by (induction xs arbitrary: acc) (auto simp: set_add_def)

lemma fold_set_add_set [simp]: "set (fold set_add xs acc) = set acc \<union> set xs"
  by (induction xs arbitrary: acc) auto


definition dentry_ok :: "crypto \<Rightarrow> string \<Rightarrow> discovery_entry \<Rightarrow> bool" where
  "dentry_ok c k v \<longleftrightarrow>
     (case v of
        DProfile w \<Rightarrow> (\<exists>p. w = profile_value p \<and> k = ''profile:'' @ sp_identityId p \<and> id_hex (sp_identityId p) \<and> profile_ok p \<and> profile_signed c p)
      | DGroup g \<Rightarrow> k = ''group:'' @ sg_groupId g
      | DBlocks ids \<Rightarrow> distinct ids \<and> (\<exists>i. k = ''blocks:'' @ i)
      | DRequests ts \<Rightarrow> (\<exists>i. k = ''match-requests:'' @ i)
      | DIssuedAt n \<Rightarrow> (\<exists>i. k = ''auth-issued-at:'' @ i))"

text \<open>The profile the storage holds for an identity.\<close>

definition held_profile :: "discovery \<Rightarrow> string \<Rightarrow> stored_profile option" where
  "held_profile d i = (case jm_get (di_storage d) (''profile:'' @ i) of
     Some (DProfile w) \<Rightarrow> profile_of w | _ \<Rightarrow> None)"

definition held_group :: "discovery \<Rightarrow> string \<Rightarrow> stored_group option" where
  "held_group d i = (case jm_get (di_storage d) (''group:'' @ i) of Some (DGroup g) \<Rightarrow> Some g | _ \<Rightarrow> None)"

definition held_blocks :: "discovery \<Rightarrow> string \<Rightarrow> string list option" where
  "held_blocks d i = (case jm_get (di_storage d) (''blocks:'' @ i) of Some (DBlocks ids) \<Rightarrow> Some ids | _ \<Rightarrow> None)"

definition held_requests :: "discovery \<Rightarrow> string \<Rightarrow> int list option" where
  "held_requests d i = (case jm_get (di_storage d) (''match-requests:'' @ i) of Some (DRequests ts) \<Rightarrow> Some ts | _ \<Rightarrow> None)"

definition newest_issued :: "discovery \<Rightarrow> string \<Rightarrow> int option" where
  "newest_issued d i = (case jm_get (di_storage d) (''auth-issued-at:'' @ i) of Some (DIssuedAt n) \<Rightarrow> Some n | _ \<Rightarrow> None)"

text \<open>In memory exactly what the storage holds.\<close>

definition in_memory :: "discovery \<Rightarrow> bool" where
  "in_memory d \<longleftrightarrow> jm_get (di_profiles d) = held_profile d \<and> jm_get (di_groups d) = held_group d \<and> jm_get (di_blocks d) = held_blocks d
     \<and> jm_get (di_matchRequests d) = held_requests d \<and> jm_get (di_lastIssuedAt d) = newest_issued d"

definition discovery_inv :: "crypto \<Rightarrow> discovery \<Rightarrow> bool" where
  "discovery_inv c d \<longleftrightarrow> jm_ok (di_storage d) \<and> jm_ok (di_profiles d) \<and> jm_ok (di_blocks d)
     \<and> (\<forall>k v. jm_get (di_storage d) k = Some v \<longrightarrow> dentry_ok c k v)
     \<and> (if di_loaded d then in_memory d
        else di_profiles d = [] \<and> di_groups d = [] \<and> di_blocks d = [] \<and> di_matchRequests d = [] \<and> di_lastIssuedAt d = [])"

lemma new_discovery_inv: "discovery_inv c new_discovery"
  by (simp add: discovery_inv_def new_discovery_def)

lemma discovery_evicted_inv: "discovery_inv c d \<Longrightarrow> discovery_inv c (new_discovery\<lparr>di_storage := di_storage d\<rparr>)"
  by (simp add: discovery_inv_def new_discovery_def)

section \<open>Loading\<close>

text \<open>The families of keys never meet.\<close>

lemma family_keys [simp]:
  "''profile:'' @ i \<noteq> ''group:'' @ j" "''profile:'' @ i \<noteq> ''blocks:'' @ j" "''profile:'' @ i \<noteq> ''match-requests:'' @ j" "''profile:'' @ i \<noteq> ''auth-issued-at:'' @ j"
  by simp_all

definition read_profile :: "(string \<Rightarrow> rat) \<Rightarrow> int \<Rightarrow> string \<Rightarrow> discovery_entry \<Rightarrow> stored_profile option" where
  "read_profile frac_of now k v = (case v of DProfile w \<Rightarrow> load_profile frac_of now k w | _ \<Rightarrow> None)"

fun as_group :: "discovery_entry \<Rightarrow> stored_group option" where "as_group (DGroup g) = Some g" | "as_group _ = None"
fun as_blocks :: "discovery_entry \<Rightarrow> string list option" where "as_blocks (DBlocks b) = Some b" | "as_blocks _ = None"
fun as_requests :: "discovery_entry \<Rightarrow> int list option" where "as_requests (DRequests b) = Some b" | "as_requests _ = None"
fun as_issuedAt :: "discovery_entry \<Rightarrow> int option" where "as_issuedAt (DIssuedAt b) = Some b" | "as_issuedAt _ = None"

lemma load_discovery_get:
  assumes "dentry_ok c k v"
  shows "jm_get (di_storage (load_discovery frac_of now (k, v) d)) k' =
      (if k = k' \<and> map_option (DProfile \<circ> profile_value) (read_profile frac_of now k v) \<noteq> None
       then map_option (DProfile \<circ> profile_value) (read_profile frac_of now k v) else jm_get (di_storage d) k')"
    and "jm_get (di_profiles (load_discovery frac_of now (k, v) d)) i =
      (if k = ''profile:'' @ i \<and> read_profile frac_of now k v \<noteq> None then read_profile frac_of now k v else jm_get (di_profiles d) i)"
    and "jm_get (di_groups (load_discovery frac_of now (k, v) d)) i =
      (if k = ''group:'' @ i \<and> as_group v \<noteq> None then as_group v else jm_get (di_groups d) i)"
    and "jm_get (di_blocks (load_discovery frac_of now (k, v) d)) i =
      (if k = ''blocks:'' @ i \<and> as_blocks v \<noteq> None then as_blocks v else jm_get (di_blocks d) i)"
    and "jm_get (di_matchRequests (load_discovery frac_of now (k, v) d)) i =
      (if k = ''match-requests:'' @ i \<and> as_requests v \<noteq> None then as_requests v else jm_get (di_matchRequests d) i)"
    and "jm_get (di_lastIssuedAt (load_discovery frac_of now (k, v) d)) i =
      (if k = ''auth-issued-at:'' @ i \<and> as_issuedAt v \<noteq> None then as_issuedAt v else jm_get (di_lastIssuedAt d) i)"
proof -
  have p: "\<exists>q. load_profile frac_of now k w = Some q \<and> k = ''profile:'' @ sp_identityId q" if v: "v = DProfile w" for w
  proof -
    obtain p where p: "w = profile_value p" "k = ''profile:'' @ sp_identityId p" "id_hex (sp_identityId p)" "profile_ok p"
      using assms v by (auto simp: dentry_ok_def)
    show ?thesis using load_profile_value [OF p(4,3,2), of frac_of now] p(1,2) by simp
  qed
  have b: "fold set_add ids [] = ids" if "v = DBlocks ids" for ids
    using assms that fold_set_add [of "[]" ids] by (simp add: dentry_ok_def)
  note defs = load_discovery_def read_profile_def jm_get_set
  show "jm_get (di_storage (load_discovery frac_of now (k, v) d)) k' =
      (if k = k' \<and> map_option (DProfile \<circ> profile_value) (read_profile frac_of now k v) \<noteq> None
       then map_option (DProfile \<circ> profile_value) (read_profile frac_of now k v) else jm_get (di_storage d) k')"
    using p assms by (cases v) (force simp: defs dentry_ok_def)+
  show "jm_get (di_profiles (load_discovery frac_of now (k, v) d)) i =
      (if k = ''profile:'' @ i \<and> read_profile frac_of now k v \<noteq> None then read_profile frac_of now k v else jm_get (di_profiles d) i)"
  proof (cases v)
    case (DProfile w)
    then obtain q where q: "load_profile frac_of now k w = Some q" "k = ''profile:'' @ sp_identityId q" using p by blast
    then show ?thesis using DProfile by (cases "i = sp_identityId q") (simp_all add: defs)
  qed (use assms in \<open>auto simp: defs dentry_ok_def\<close>)
  show "jm_get (di_groups (load_discovery frac_of now (k, v) d)) i =
      (if k = ''group:'' @ i \<and> as_group v \<noteq> None then as_group v else jm_get (di_groups d) i)"
    using p assms by (cases v) (force simp: defs dentry_ok_def)+
  show "jm_get (di_blocks (load_discovery frac_of now (k, v) d)) i =
      (if k = ''blocks:'' @ i \<and> as_blocks v \<noteq> None then as_blocks v else jm_get (di_blocks d) i)"
    using p b assms by (cases v) (force simp: defs dentry_ok_def)+
  show "jm_get (di_matchRequests (load_discovery frac_of now (k, v) d)) i =
      (if k = ''match-requests:'' @ i \<and> as_requests v \<noteq> None then as_requests v else jm_get (di_matchRequests d) i)"
    using p assms by (cases v) (force simp: defs dentry_ok_def)+
  show "jm_get (di_lastIssuedAt (load_discovery frac_of now (k, v) d)) i =
      (if k = ''auth-issued-at:'' @ i \<and> as_issuedAt v \<noteq> None then as_issuedAt v else jm_get (di_lastIssuedAt d) i)"
    using p assms by (cases v) (force simp: defs dentry_ok_def)+
qed

lemma load_discovery_jm_ok:
  "jm_ok (di_storage d) \<Longrightarrow> jm_ok (di_storage (load_discovery frac_of now e d))" "jm_ok (di_profiles d) \<Longrightarrow> jm_ok (di_profiles (load_discovery frac_of now e d))"
  "jm_ok (di_blocks d) \<Longrightarrow> jm_ok (di_blocks (load_discovery frac_of now e d))" "di_loaded (load_discovery frac_of now e d) = di_loaded d"
  by (auto simp: load_discovery_def split: prod.splits discovery_entry.splits option.splits)

lemma load_discovery_fold_ok:
  "jm_ok (di_storage d) \<Longrightarrow> jm_ok (di_storage (fold (load_discovery frac_of now) xs d))"
  "jm_ok (di_profiles d) \<Longrightarrow> jm_ok (di_profiles (fold (load_discovery frac_of now) xs d))"
  "jm_ok (di_blocks d) \<Longrightarrow> jm_ok (di_blocks (fold (load_discovery frac_of now) xs d))"
  by (induction xs arbitrary: d) (auto simp: load_discovery_jm_ok)

text \<open>What a restart keeps: everything but the time a profile was first seen, which may become \<open>now\<close>.\<close>

definition same_profile :: "stored_profile \<Rightarrow> stored_profile \<Rightarrow> bool" where
  "same_profile p q \<longleftrightarrow> (\<exists>v. q = p\<lparr>sp_firstSeenAt := v\<rparr>)"

lemma same_profile_age: "same_profile p (p\<lparr>sp_firstSeenAt := v\<rparr>)" "same_profile p p"
  unfolding same_profile_def by (rule exI [of _ v], simp, rule exI [of _ "sp_firstSeenAt p"], simp)

lemma ensureLoaded_memory:
  fixes frac_of :: "string \<Rightarrow> rat" and now :: int and d :: discovery
  assumes "discovery_inv c d" "\<not> di_loaded d"
  defines "d' \<equiv> discovery_ensureLoaded frac_of now d"
  shows "in_memory d'" "held_group d' = held_group d" "held_blocks d' = held_blocks d" "held_requests d' = held_requests d"
    "newest_issued d' = newest_issued d" "jm_get (di_storage d') k = Some v \<Longrightarrow> dentry_ok c k v"
    "jm_ok (di_storage d')" "jm_ok (di_profiles d')" "jm_ok (di_blocks d')" "di_loaded d'"
    "rel_option same_profile (held_profile d i) (jm_get (di_profiles d') i)"
proof -
  let ?xs = "storage_list (di_storage d)"
  have d': "d' = (fold (load_discovery frac_of now) ?xs d)\<lparr>di_loaded := True\<rparr>" using assms(2) by (simp add: d'_def discovery_ensureLoaded_def)
  have ok: "jm_ok (di_storage d)" "\<And>k v. (k, v) \<in> set ?xs \<Longrightarrow> dentry_ok c k v"
    using assms(1) storage_list_map(3) jm_in_set_get by (force simp: discovery_inv_def)+
  note l = load_discovery_get [OF ok(2)] and D = storage_list_map(2) [OF ok(1)] and M = storage_list_map(1) [OF ok(1)]
  have empty: "di_profiles d = []" "di_groups d = []" "di_blocks d = []" "di_matchRequests d = []" "di_lastIssuedAt d = []"
    using assms(1,2) by (simp_all add: discovery_inv_def)
  have st: "jm_get (di_storage d') k = (case jm_get (di_storage d) k of None \<Rightarrow> None | Some v \<Rightarrow>
      (case map_option (DProfile \<circ> profile_value) (read_profile frac_of now k v) of None \<Rightarrow> jm_get (di_storage d) k | Some b \<Rightarrow> Some b))" for k
    using fold_load_get [of ?xs "\<lambda>d. jm_get (di_storage d)" "load_discovery frac_of now" k "\<lambda>k. k"
        "\<lambda>k v. map_option (DProfile \<circ> profile_value) (read_profile frac_of now k v)", OF l(1) D, of d] M
    by (auto simp: d' split: option.splits)
  have pr: "jm_get (di_profiles d') i = (case jm_get (di_storage d) (''profile:'' @ i) of None \<Rightarrow> None | Some v \<Rightarrow> read_profile frac_of now (''profile:'' @ i) v)" for i
    using fold_load_get [of ?xs "\<lambda>d. jm_get (di_profiles d)" "load_discovery frac_of now" i "\<lambda>i. ''profile:'' @ i"
        "read_profile frac_of now", OF l(2) D, of d] M by (auto simp: d' empty split: option.splits)
  have mem: "jm_get (di_groups d') i = held_group d i" "jm_get (di_blocks d') i = held_blocks d i"
    "jm_get (di_matchRequests d') i = held_requests d i" "jm_get (di_lastIssuedAt d') i = newest_issued d i" for i
    using fold_load_get [of ?xs "\<lambda>d. jm_get (di_groups d)" "load_discovery frac_of now" i "\<lambda>i. ''group:'' @ i" "\<lambda>k. as_group", OF l(3) D, of d]
      fold_load_get [of ?xs "\<lambda>d. jm_get (di_blocks d)" "load_discovery frac_of now" i "\<lambda>i. ''blocks:'' @ i" "\<lambda>k. as_blocks", OF l(4) D, of d]
      fold_load_get [of ?xs "\<lambda>d. jm_get (di_matchRequests d)" "load_discovery frac_of now" i "\<lambda>i. ''match-requests:'' @ i" "\<lambda>k. as_requests", OF l(5) D, of d]
      fold_load_get [of ?xs "\<lambda>d. jm_get (di_lastIssuedAt d)" "load_discovery frac_of now" i "\<lambda>i. ''auth-issued-at:'' @ i" "\<lambda>k. as_issuedAt", OF l(6) D, of d] M
    by (auto simp: d' empty held_group_def held_blocks_def held_requests_def newest_issued_def split: option.splits discovery_entry.splits)
  have prof: "\<exists>p q. v = DProfile (profile_value p) \<and> read_profile frac_of now (''profile:'' @ i) v = Some q \<and> same_profile p q \<and> profile_ok p
      \<and> sp_identityId p = i \<and> id_hex i \<and> profile_signed c p" if v: "jm_get (di_storage d) (''profile:'' @ i) = Some v" for i v
  proof -
    have "dentry_ok c (''profile:'' @ i) v" using assms(1) v by (simp add: discovery_inv_def)
    then obtain p where p: "v = DProfile (profile_value p)" "sp_identityId p = i" "id_hex i" "profile_ok p" "profile_signed c p"
      by (cases v) (auto simp: dentry_ok_def)
    then obtain q where "read_profile frac_of now (''profile:'' @ i) v = Some q" "same_profile p q"
      using load_profile_value [of p "''profile:'' @ i" frac_of now] same_profile_age by (auto simp: read_profile_def)
    then show ?thesis using p by blast
  qed
  have keep: "profile_ok q \<and> sp_identityId q = sp_identityId p \<and> profile_signed c q" if "same_profile p q" "profile_ok p" "profile_signed c p" for p q
    using that profile_signed_age by (auto simp: same_profile_def profile_ok_def)
  have other: "jm_get (di_storage d') k = jm_get (di_storage d) k" if k: "take 8 k \<noteq> ''profile:''" for k
  proof (cases "jm_get (di_storage d) k")
    case (Some v)
    then have "dentry_ok c k v" using assms(1) by (simp add: discovery_inv_def)
    then have "read_profile frac_of now k v = None" using k by (cases v) (auto simp: dentry_ok_def read_profile_def)
    then show ?thesis using st Some by simp
  qed (simp add: st)
  show same: "held_group d' = held_group d" "held_blocks d' = held_blocks d" "held_requests d' = held_requests d" "newest_issued d' = newest_issued d"
    by (simp_all add: fun_eq_iff held_group_def held_blocks_def held_requests_def newest_issued_def other)
  have hp: "jm_get (di_profiles d') i = held_profile d' i \<and> rel_option same_profile (held_profile d i) (jm_get (di_profiles d') i)" for i
  proof (cases "jm_get (di_storage d) (''profile:'' @ i)")
    case None
    then show ?thesis using pr st by (simp add: held_profile_def)
  next
    case (Some v)
    then show ?thesis using prof [OF Some] keep pr [of i] st [of "''profile:'' @ i"] by (auto simp: held_profile_def profile_of_value)
  qed
  show "in_memory d'" using hp mem same by (simp add: in_memory_def fun_eq_iff)
  show "rel_option same_profile (held_profile d i) (jm_get (di_profiles d') i)" using hp by blast
  show "dentry_ok c k v" if kv: "jm_get (di_storage d') k = Some v"
  proof (cases "take 8 k = ''profile:''")
    case True
    then obtain i where i: "k = ''profile:'' @ i" by (metis append_take_drop_id)
    then obtain u where u: "jm_get (di_storage d) (''profile:'' @ i) = Some u" using kv st [of k] by (auto split: option.splits)
    show ?thesis using prof [OF u] keep u st [of k] kv i by (fastforce simp: dentry_ok_def)
  next
    case False
    then show ?thesis using other [OF False] kv assms(1) by (simp add: discovery_inv_def)
  qed
  show "jm_ok (di_storage d')" "jm_ok (di_profiles d')" "jm_ok (di_blocks d')" "di_loaded d'"
    using assms(1) by (simp_all add: d' load_discovery_fold_ok discovery_inv_def)
qed

end
