(* ===== verification/Discovery_Steps.thy ===== *)
theory Discovery_Steps
  imports Discovery_Inv
begin

text \<open>
  What every event does to the discovery service: the invariant is kept, signed times increase, a
  profile changes by a signed request of its identity alone, blocks are never lifted and the times of
  match requests stay on record.
\<close>

section \<open>Loading\<close>

lemma discovery_ensureLoaded_inv:
  fixes frac_of :: "string \<Rightarrow> rat" and now :: int and d :: discovery
  assumes "discovery_inv c d"
  defines "d' \<equiv> discovery_ensureLoaded frac_of now d"
  shows "discovery_inv c d'" "di_loaded d'" "held_blocks d' = held_blocks d" "held_requests d' = held_requests d"
    "newest_issued d' = newest_issued d" "rel_option same_profile (held_profile d i) (held_profile d' i)"
proof -
  have "discovery_inv c d' \<and> di_loaded d' \<and> held_blocks d' = held_blocks d \<and> held_requests d' = held_requests d
    \<and> newest_issued d' = newest_issued d \<and> rel_option same_profile (held_profile d i) (held_profile d' i)"
  proof (cases "di_loaded d")
    case True
    then have "d' = d" by (simp add: d'_def discovery_ensureLoaded_def)
    then show ?thesis using assms(1) True same_profile_age(2) by (simp add: option.rel_refl)
  next
    case False
    note m = ensureLoaded_memory [OF assms(1) False, where frac_of = frac_of and now = now, folded d'_def]
    have "discovery_inv c d'" using m by (simp add: discovery_inv_def)
    moreover have "jm_get (di_profiles d') i = held_profile d' i" using m(1) by (simp add: in_memory_def)
    ultimately show ?thesis using m(3-5,10) m(11) [of i] by simp
  qed
  then show "discovery_inv c d'" "di_loaded d'" "held_blocks d' = held_blocks d" "held_requests d' = held_requests d"
    "newest_issued d' = newest_issued d" "rel_option same_profile (held_profile d i) (held_profile d' i)" by blast+
qed

section \<open>Changes\<close>

text \<open>The five changes a handler makes.\<close>

definition set_issued :: "string \<Rightarrow> int \<Rightarrow> discovery \<Rightarrow> discovery" where
  "set_issued i n d = d\<lparr>di_lastIssuedAt := jm_set i n (di_lastIssuedAt d), di_storage := jm_set (''auth-issued-at:'' @ i) (DIssuedAt n) (di_storage d)\<rparr>"

definition put_profile :: "string \<Rightarrow> stored_profile \<Rightarrow> discovery \<Rightarrow> discovery" where
  "put_profile i p d = d\<lparr>di_storage := jm_set (''profile:'' @ i) (DProfile (profile_value p)) (di_storage d), di_profiles := jm_set i p (di_profiles d)\<rparr>"

definition remove_profile :: "string \<Rightarrow> discovery \<Rightarrow> discovery" where
  "remove_profile i d = d\<lparr>di_profiles := jm_del i (di_profiles d), di_storage := jm_del (''profile:'' @ i) (di_storage d)\<rparr>"

definition put_blocks :: "string \<Rightarrow> string list \<Rightarrow> discovery \<Rightarrow> discovery" where
  "put_blocks i b d = d\<lparr>di_blocks := jm_set i b (di_blocks d), di_storage := jm_set (''blocks:'' @ i) (DBlocks b) (di_storage d)\<rparr>"

definition put_requests :: "string \<Rightarrow> int list \<Rightarrow> discovery \<Rightarrow> discovery" where
  "put_requests i ts d = d\<lparr>di_matchRequests := jm_set i ts (di_matchRequests d), di_storage := jm_set (''match-requests:'' @ i) (DRequests ts) (di_storage d)\<rparr>"

lemmas discovery_updates = set_issued_def put_profile_def remove_profile_def put_blocks_def put_requests_def
lemmas held_defs = held_profile_def held_group_def held_blocks_def held_requests_def newest_issued_def

lemma held_set_issued [simp]:
  "held_profile (set_issued i n d) = held_profile d" "held_group (set_issued i n d) = held_group d" "held_blocks (set_issued i n d) = held_blocks d"
  "held_requests (set_issued i n d) = held_requests d" "newest_issued (set_issued i n d) = (newest_issued d)(i \<mapsto> n)"
  by (auto simp: fun_eq_iff held_defs set_issued_def jm_get_set)

lemma held_put_profile [simp]:
  "profile_ok p \<Longrightarrow> held_profile (put_profile i p d) = (held_profile d)(i \<mapsto> p)" "held_group (put_profile i p d) = held_group d"
  "held_blocks (put_profile i p d) = held_blocks d" "held_requests (put_profile i p d) = held_requests d" "newest_issued (put_profile i p d) = newest_issued d"
  by (auto simp: fun_eq_iff held_defs put_profile_def jm_get_set profile_of_value)

lemma held_remove_profile [simp]:
  "held_profile (remove_profile i d) = (held_profile d)(i := None)" "held_group (remove_profile i d) = held_group d"
  "held_blocks (remove_profile i d) = held_blocks d" "held_requests (remove_profile i d) = held_requests d" "newest_issued (remove_profile i d) = newest_issued d"
  by (auto simp: fun_eq_iff held_defs remove_profile_def jm_get_del)

lemma held_put_blocks [simp]:
  "held_profile (put_blocks i b d) = held_profile d" "held_group (put_blocks i b d) = held_group d" "held_blocks (put_blocks i b d) = (held_blocks d)(i \<mapsto> b)"
  "held_requests (put_blocks i b d) = held_requests d" "newest_issued (put_blocks i b d) = newest_issued d"
  by (auto simp: fun_eq_iff held_defs put_blocks_def jm_get_set)

lemma held_put_requests [simp]:
  "held_profile (put_requests i b d) = held_profile d" "held_group (put_requests i b d) = held_group d" "held_blocks (put_requests i b d) = held_blocks d"
  "held_requests (put_requests i b d) = (held_requests d)(i \<mapsto> b)" "newest_issued (put_requests i b d) = newest_issued d"
  by (auto simp: fun_eq_iff held_defs put_requests_def jm_get_set)

lemma discovery_loaded_inv:
  assumes "di_loaded d"
  shows "discovery_inv c d \<longleftrightarrow> jm_ok (di_storage d) \<and> jm_ok (di_profiles d) \<and> jm_ok (di_blocks d)
     \<and> (\<forall>k v. jm_get (di_storage d) k = Some v \<longrightarrow> dentry_ok c k v) \<and> in_memory d"
  using assms by (simp add: discovery_inv_def)

lemma update_invs:
  assumes "discovery_inv c d" "di_loaded d"
  shows "discovery_inv c (set_issued i n d)" "di_loaded (set_issued i n d)"
    and "profile_ok p \<Longrightarrow> profile_signed c p \<Longrightarrow> id_hex i \<Longrightarrow> sp_identityId p = i \<Longrightarrow> discovery_inv c (put_profile i p d)" "di_loaded (put_profile i p d)"
    and "discovery_inv c (remove_profile i d)" "di_loaded (remove_profile i d)"
    and "distinct b \<Longrightarrow> discovery_inv c (put_blocks i b d)" "di_loaded (put_blocks i b d)"
    and "discovery_inv c (put_requests i ts d)" "di_loaded (put_requests i ts d)"
proof -
  note I = assms(1) [unfolded discovery_loaded_inv [OF assms(2)]]
  show l: "di_loaded (set_issued i n d)" "di_loaded (put_profile i p d)" "di_loaded (remove_profile i d)" "di_loaded (put_blocks i b d)" "di_loaded (put_requests i ts d)"
    using assms(2) by (simp_all add: discovery_updates)
  show "discovery_inv c (set_issued i n d)"
    unfolding discovery_loaded_inv [OF l(1)] in_memory_def held_set_issued using I
    by (auto simp: set_issued_def jm_get_set fun_eq_iff in_memory_def dentry_ok_def split: if_splits)
  show "discovery_inv c (put_profile i p d)" if "profile_ok p" "profile_signed c p" "id_hex i" "sp_identityId p = i"
    unfolding discovery_loaded_inv [OF l(2)] in_memory_def held_put_profile(1) [OF that(1)] held_put_profile(2-5) using I that
    by (auto simp: put_profile_def jm_get_set fun_eq_iff in_memory_def dentry_ok_def split: if_splits)
  show "discovery_inv c (remove_profile i d)"
    unfolding discovery_loaded_inv [OF l(3)] in_memory_def held_remove_profile using I
    by (auto simp: remove_profile_def jm_get_del fun_eq_iff in_memory_def split: if_splits)
  show "discovery_inv c (put_blocks i b d)" if "distinct b"
    unfolding discovery_loaded_inv [OF l(4)] in_memory_def held_put_blocks using I that
    by (auto simp: put_blocks_def jm_get_set fun_eq_iff in_memory_def dentry_ok_def split: if_splits)
  show "discovery_inv c (put_requests i ts d)"
    unfolding discovery_loaded_inv [OF l(5)] in_memory_def held_put_requests using I
    by (auto simp: put_requests_def jm_get_set fun_eq_iff in_memory_def dentry_ok_def split: if_splits)
qed

section \<open>Requests\<close>

text \<open>The operation a route signs and the body of the request.\<close>

fun route_op :: "discovery_route \<Rightarrow> (string \<times> jval option) option" where
  "route_op (PostProfile b) = Some (''discovery.profile.upsert'', b)"
| "route_op (DeleteProfile i b) = Some (''discovery.profile.delete'', b)"
| "route_op (PostRandomMatch b) = Some (''discovery.random-match'', b)"
| "route_op (PostBlock b) = Some (''discovery.block'', b)"
| "route_op _ = None"

text \<open>The identity and time of a request that passes the proof.\<close>

definition authorized :: "crypto \<Rightarrow> int \<Rightarrow> discovery_route \<Rightarrow> discovery \<Rightarrow> (string \<times> int) option" where
  "authorized c now route d =
     (case route_op route of
        None \<Rightarrow> None
      | Some (op, request) \<Rightarrow>
          (case authorize c now request op d of
             (d1, Inr (body, i)) \<Rightarrow> (case jfield body ''issuedAt'' of Some (JNum n) \<Rightarrow> Some (i, n) | _ \<Rightarrow> None)
           | _ \<Rightarrow> None))"

definition no_match :: "discovery_reply \<Rightarrow> bool" where
  "no_match r \<longleftrightarrow> r \<noteq> NoCandidates \<and> (\<forall>p n. r \<noteq> MatchFound p n)"

lemma authorize_cases:
  assumes "discovery_inv c d" "di_loaded d" "authorize c now request op d = (d1, q)"
  obtains (refused) e where "d1 = d" "q = Inl e" "no_match e"
    | (accepted) body i n where "request = Some (JObj body)" "q = Inr (body, i)" "d1 = set_issued i n d" "id_hex i"
      "jfield body ''identityId'' = Some (JStr i)" "jfield body ''issuedAt'' = Some (JNum n)" "signed_request c op i body now"
      "isFreshIssuedAt (Some (JNum n)) now" "\<And>u. newest_issued d i = Some u \<Longrightarrow> u < n"
proof (cases q)
  case (Inl e)
  then have "d1 = d \<and> no_match e"
    using assms(3) by (auto simp: authorize_def no_match_def split: option.splits jval.splits if_splits simp del: jfield.simps)
  then show ?thesis using Inl refused by blast
next
  case (Inr bi)
  obtain body i where bi: "bi = (body, i)" by (cases bi)
  have mem: "jm_get (di_lastIssuedAt d) = newest_issued d" using assms(1,2) by (simp add: discovery_inv_def in_memory_def)
  have "request = Some (JObj body) \<and> (\<exists>n. jfield body ''identityId'' = Some (JStr i) \<and> jfield body ''issuedAt'' = Some (JNum n) \<and> id_hex i
      \<and> verifyIdentityAuthJson c body op (Some (JStr i)) now \<noteq> None \<and> isFreshIssuedAt (Some (JNum n)) now
      \<and> (\<forall>u. newest_issued d i = Some u \<longrightarrow> u < n) \<and> d1 = set_issued i n d)"
    using assms(3) Inr bi mem
    by (auto simp: authorize_def set_issued_def split: option.splits jval.splits if_splits simp del: jfield.simps)
  moreover have "signed_request c op i body now" if "verifyIdentityAuthJson c body op (Some (JStr i)) now \<noteq> None"
    using that verified_signed by (fastforce simp: signed_request_def)
  ultimately show ?thesis using accepted Inr bi by blast
qed

text \<open>What an authorized request of \<open>i\<close> changes beside the time.\<close>

datatype discovery_change = NoChange | SaveProfile stored_profile | DropProfile | AddBlock string | AddRequest int

fun apply_change :: "string \<Rightarrow> discovery_change \<Rightarrow> discovery \<Rightarrow> discovery" where
  "apply_change i NoChange d = d"
| "apply_change i (SaveProfile p) d = put_profile i p d"
| "apply_change i DropProfile d = remove_profile i d"
| "apply_change i (AddBlock b) d = put_blocks i (set_add b (blocked_by d i)) d"
| "apply_change i (AddRequest now) d =
     put_requests i (filter (\<lambda>t. t > now - MATCH_RATE_WINDOW_MS) (jm_get_or (di_matchRequests d) i []) @ [now]) d"

text \<open>The change is the one the body asks for, and the rate limit leaves room for a match.\<close>

fun change_ok :: "crypto \<Rightarrow> int \<Rightarrow> string \<Rightarrow> (string \<times> jval) list \<Rightarrow> string \<Rightarrow> discovery \<Rightarrow> discovery_change \<Rightarrow> bool" where
  "change_ok c now op body i d NoChange = True"
| "change_ok c now op body i d (SaveProfile p) = (op = ''discovery.profile.upsert'' \<and> validProfileFields body \<and> p = profile_from body i (sp_firstSeenAt p)
     \<and> sp_firstSeenAt p = (case held_profile d i of None \<Rightarrow> JNum now | Some q \<Rightarrow> sp_firstSeenAt q))"
| "change_ok c now op body i d DropProfile = (op = ''discovery.profile.delete'')"
| "change_ok c now op body i d (AddBlock b) = (op = ''discovery.block'' \<and> jfield body ''blockedIdentityId'' = Some (JStr b) \<and> b \<noteq> i)"
| "change_ok c now op body i d (AddRequest t) = (op = ''discovery.random-match'' \<and> t = now
     \<and> length (filter (\<lambda>t. t > now - MATCH_RATE_WINDOW_MS) (jm_get_or (di_matchRequests d) i [])) < MATCH_RATE_LIMIT)"

text \<open>The lists of a request for a match.\<close>

definition match_asked :: "(string \<times> jval) list \<Rightarrow> string list \<Rightarrow> string list \<Rightarrow> string list \<Rightarrow> bool" where
  "match_asked body ex ins ls \<longleftrightarrow> exclude_list (jfield body ''exclude'') = Some ex
     \<and> (\<exists>i l. jfield body ''interests'' = Some i \<and> isStringList i \<and> ins = texts_of i
          \<and> jfield body ''languages'' = Some l \<and> isStringList l \<and> ls = texts_of l)"

definition fetch_outcome_ok ::
  "crypto \<Rightarrow> (nat \<Rightarrow> nat) \<Rightarrow> int \<Rightarrow> discovery_route \<Rightarrow> discovery \<Rightarrow> discovery \<Rightarrow> discovery_reply + match_run \<Rightarrow> bool" where
  "fetch_outcome_ok c pick now route d d' q \<longleftrightarrow>
     (case authorized c now route d of
        None \<Rightarrow> d' = d \<and> (\<exists>r. q = Inl r \<and> no_match r)
      | Some (i, n) \<Rightarrow> (\<exists>op body ch. route_op route = Some (op, Some (JObj body)) \<and> id_hex i \<and> signed_request c op i body now
          \<and> jfield body ''identityId'' = Some (JStr i) \<and> jfield body ''issuedAt'' = Some (JNum n)
          \<and> isFreshIssuedAt (Some (JNum n)) now \<and> (\<forall>u. newest_issued d i = Some u \<longrightarrow> u < n)
          \<and> d' = apply_change i ch (set_issued i n d) \<and> change_ok c now op body i d ch
          \<and> (case ch of AddRequest t \<Rightarrow> (\<exists>ex ins ls. match_asked body ex ins ls \<and> q = match_next pick d' (new_run i now ex ins ls))
             | _ \<Rightarrow> (\<exists>r. q = Inl r \<and> no_match r))))"

lemma handled:
  assumes "discovery_inv c d" "di_loaded d" "discovery_fetch c relay pick now route d = (d', q)"
    and "route_op route = Some (op, request)" "authorize c now request op d = (set_issued i n d, Inr (body, i))"
  shows "\<exists>ch. d' = apply_change i ch (set_issued i n d) \<and> change_ok c now op body i d ch
    \<and> (case ch of AddRequest t \<Rightarrow> (\<exists>ex ins ls. match_asked body ex ins ls \<and> q = match_next pick d' (new_run i now ex ins ls)) | _ \<Rightarrow> (\<exists>r. q = Inl r \<and> no_match r))"
proof -
  have mem: "jm_get (di_profiles (set_issued i n d)) i = held_profile d i" "di_matchRequests (set_issued i n d) = di_matchRequests d"
    using assms(1,2) by (simp_all add: discovery_inv_def in_memory_def set_issued_def)
  show ?thesis
  proof (cases route)
    case (PostProfile b)
    show ?thesis
    proof (cases "list_ex (\<lambda>(k, v). k \<notin> set PROFILE_KEYS) body \<or> \<not> validProfileFields body")
      case True
      then show ?thesis using assms PostProfile by (intro exI [of _ NoChange]) (auto simp: handleProfileUpsert_def no_match_def)
    next
      case False
      define p where "p = profile_from body i (case held_profile d i of None \<Rightarrow> JNum now | Some q \<Rightarrow> sp_firstSeenAt q)"
      have "sp_firstSeenAt p = (case held_profile d i of None \<Rightarrow> JNum now | Some q \<Rightarrow> sp_firstSeenAt q)" by (simp add: p_def profile_from_def)
      then show ?thesis using assms PostProfile False mem
        by (intro exI [of _ "SaveProfile p"]) (auto simp: handleProfileUpsert_def no_match_def put_profile_def Let_def p_def [symmetric] split: option.splits)
    qed
  next
    case (DeleteProfile j b)
    show ?thesis
    proof (cases "jm_has (di_profiles (set_issued i n d)) i")
      case True
      then show ?thesis using assms DeleteProfile by (intro exI [of _ DropProfile]) (auto simp: handleProfileDelete_def no_match_def remove_profile_def)
    next
      case False
      then show ?thesis using assms DeleteProfile by (intro exI [of _ NoChange]) (auto simp: handleProfileDelete_def no_match_def)
    qed
  next
    case (PostBlock b)
    then consider "d' = set_issued i n d" "q = Inl DistinctRequired"
      | j where "jfield body ''blockedIdentityId'' = Some (JStr j)" "j \<noteq> i" "q = Inl BlockStored" "d' = apply_change i (AddBlock j) (set_issued i n d)"
      using assms by (auto simp: handleBlock_def no_match_def put_blocks_def Let_def split: option.splits jval.splits if_splits simp del: jfield.simps)
    then show ?thesis
    proof cases
      case 1
      then show ?thesis by (intro exI [of _ NoChange]) (auto simp: no_match_def)
    next
      case (2 j)
      then show ?thesis using assms PostBlock by (intro exI [of _ "AddBlock j"]) (auto simp: no_match_def simp del: jfield.simps)
    qed
  next
    case (PostRandomMatch b)
    then consider e where "d' = set_issued i n d" "q = Inl e" "no_match e"
      | ex ins ls where "length (filter (\<lambda>t. t > now - MATCH_RATE_WINDOW_MS) (jm_get_or (di_matchRequests d) i [])) < MATCH_RATE_LIMIT"
        "d' = apply_change i (AddRequest now) (set_issued i n d)" "q = match_next pick d' (new_run i now ex ins ls)"
        "match_asked body ex ins ls"
      using assms mem(2)
      by (auto simp: handleRandomMatch_def match_asked_def no_match_def put_requests_def Let_def split: option.splits if_splits simp del: jfield.simps)
    then show ?thesis
    proof cases
      case (1 e)
      then show ?thesis by (intro exI [of _ NoChange]) (auto simp: no_match_def)
    next
      case (2 ex ins ls)
      then show ?thesis using assms PostRandomMatch by (intro exI [of _ "AddRequest now"]) auto
    qed
  qed (use assms in auto)
qed

lemma fetch_ok:
  assumes "discovery_inv c d" "di_loaded d" "discovery_fetch c relay pick now route d = (d', q)"
  shows "fetch_outcome_ok c pick now route d d' q"
proof (cases "route_op route")
  case None
  then show ?thesis using assms(3)
    by (cases route) (auto simp: fetch_outcome_ok_def no_match_def authorized_def handleProfileGet_def handleSearchInterest_def handleSearchLanguage_def
        handleGroupsList_def query_field_def Let_def split: option.splits sum.splits jval.splits if_splits)
next
  case (Some or)
  obtain op request where r: "route_op route = Some (op, request)" using Some by (cases or) auto
  obtain d1 a where a: "authorize c now request op d = (d1, a)" by (cases "authorize c now request op d")
  show ?thesis using assms(1,2) a
  proof (cases rule: authorize_cases)
    case (refused e)
    then have "authorized c now route d = None" using r a by (simp add: authorized_def)
    moreover have "d' = d \<and> q = Inl e"
      using assms(3) r a refused
      by (cases route) (auto simp: handleProfileUpsert_def handleProfileDelete_def handleBlock_def handleRandomMatch_def)
    ultimately show ?thesis using refused(3) by (simp add: fetch_outcome_ok_def)
  next
    case (accepted body i n)
    have w: "authorized c now route d = Some (i, n)" using r a accepted by (simp add: authorized_def)
    show ?thesis
      using handled [OF assms(1,2,3) r a [unfolded accepted(2,3)]] r accepted
      unfolding fetch_outcome_ok_def w by fastforce
  qed
qed

section \<open>Events\<close>

lemma apply_change_inv:
  assumes "discovery_inv c d" "di_loaded d" "change_ok c now op body i d0 ch" "id_hex i" "signed_request c op i body now"
    "jfield body ''identityId'' = Some (JStr i)"
  shows "discovery_inv c (apply_change i ch d) \<and> di_loaded (apply_change i ch d) \<and> newest_issued (apply_change i ch d) = newest_issued d"
proof (cases ch)
  case NoChange
  then show ?thesis using assms(1,2) by simp
next
  case (SaveProfile p)
  then have p: "validProfileFields body" "p = profile_from body i (sp_firstSeenAt p)" "op = ''discovery.profile.upsert''" using assms(3) by simp_all metis
  have i: "sp_identityId p = i" by (subst p(2)) (simp add: profile_from_def)
  have "profile_ok p" by (subst p(2)) (rule valid_profile_ok [OF p(1)])
  moreover have "profile_signed c p" unfolding profile_signed_def i using assms(5,6) p by (auto simp: signed_request_def simp del: jfield.simps)
  ultimately show ?thesis using update_invs(3,4) [OF assms(1,2), where p = p and i = i] assms(4) i SaveProfile by simp
next
  case DropProfile
  then show ?thesis using update_invs(5,6) [OF assms(1,2), where i = i] by simp
next
  case (AddBlock b)
  have "distinct (blocked_by d i)"
  proof (cases "jm_get (di_blocks d) i")
    case (Some x)
    then have "jm_get (di_storage d) (''blocks:'' @ i) = Some (DBlocks x)"
      using assms(1,2) by (auto simp: discovery_inv_def in_memory_def held_blocks_def split: option.splits discovery_entry.splits)
    then show ?thesis using assms(1) Some by (fastforce simp: discovery_inv_def dentry_ok_def jm_get_or_def)
  qed (simp add: jm_get_or_def)
  then show ?thesis using update_invs(7,8) [OF assms(1,2), where b = "set_add b (blocked_by d i)" and i = i] AddBlock by simp
next
  case (AddRequest t)
  then show ?thesis using update_invs(9,10) [OF assms(1,2)] by simp
qed

lemma fetch_inv:
  assumes "discovery_inv c d" "di_loaded d" "discovery_fetch c relay pick now route d = (d', q)"
  shows "discovery_inv c d' \<and> di_loaded d' \<and>
    (case authorized c now route d of None \<Rightarrow> newest_issued d' = newest_issued d
     | Some (i, n) \<Rightarrow> (\<forall>u. newest_issued d i = Some u \<longrightarrow> u < n) \<and> newest_issued d' = (newest_issued d)(i \<mapsto> n))"
proof (cases "authorized c now route d")
  case None
  then show ?thesis using fetch_ok [OF assms] assms(1,2) by (simp add: fetch_outcome_ok_def)
next
  case (Some w)
  obtain i n where w: "authorized c now route d = Some (i, n)" using Some by (cases w) auto
  obtain op body ch where o: "id_hex i" "signed_request c op i body now" "jfield body ''identityId'' = Some (JStr i)"
    "\<forall>u. newest_issued d i = Some u \<longrightarrow> u < n" "d' = apply_change i ch (set_issued i n d)" "change_ok c now op body i d ch"
    using fetch_ok [OF assms] unfolding fetch_outcome_ok_def w by (auto simp del: jfield.simps)
  show ?thesis
    using apply_change_inv [OF update_invs(1,2) [OF assms(1,2), where i = i and n = n] o(6,1,2,3)] o(4,5) w by simp
qed

text \<open>The request a step passes to the object, \<open>None\<close> if there is none or it is refused in front.\<close>

fun passed :: "discovery_event \<Rightarrow> (int \<times> discovery_route) option" where
  "passed (DRequest n relay pick now (DeleteProfile i body)) = (if delete_front i body = None then Some (now, DeleteProfile i body) else None)"
| "passed (DRequest n relay pick now route) = Some (now, route)"
| "passed _ = None"

definition discovery_write :: "crypto \<Rightarrow> (string \<Rightarrow> rat) \<Rightarrow> discovery_event \<Rightarrow> discovery_service \<Rightarrow> (string \<times> int) option" where
  "discovery_write c frac_of e s =
     (case passed e of None \<Rightarrow> None | Some (now, route) \<Rightarrow> authorized c now route (discovery_ensureLoaded frac_of now (ds_index s)))"

abbreviation service_step :: "crypto \<Rightarrow> (string \<Rightarrow> rat) \<Rightarrow> (rat \<Rightarrow> rat) \<Rightarrow> discovery_event \<Rightarrow> discovery_service \<Rightarrow> discovery_service" where
  "service_step c frac_of fl e s \<equiv> fst (discovery_step c frac_of fl e s)"

text \<open>A step is a request to the loaded object, or it leaves what is held as it is.\<close>

lemma discovery_step_cases:
  assumes "discovery_inv c (ds_index s)"
  obtains (request) n relay pick now route d d' q where "e = DRequest n relay pick now route" "passed e = Some (now, route)"
      "d = discovery_ensureLoaded frac_of now (ds_index s)" "discovery_inv c d" "di_loaded d"
      "discovery_fetch c relay pick now route d = (d', q)"
      "discovery_step c frac_of fl e s = (\<lparr>ds_index = d', ds_runs = keep_run n q (move_runs d d' (ds_runs s))\<rparr>, reply_of q)"
    | (refused) n relay pick now i body r where "e = DRequest n relay pick now (DeleteProfile i body)" "passed e = None" "discovery_step c frac_of fl e s = (s, Some r)"
        "r = InvalidJson \<or> r = PathMismatch"
    | (answer) n relay pick where "e = DAnswer n relay pick" "ds_index (service_step c frac_of fl e s) = ds_index s"
    | (evicted) "e = DEvicted" "discovery_step c frac_of fl e s = (\<lparr>ds_index = new_discovery\<lparr>di_storage := di_storage (ds_index s)\<rparr>, ds_runs = []\<rparr>, None)"
proof (cases e)
  case (DRequest n relay pick now route)
  show ?thesis
  proof (cases "passed e")
    case None
    then obtain i body where r: "route = DeleteProfile i body" "delete_front i body \<noteq> None" using DRequest by (cases route) (auto split: if_splits)
    then show ?thesis using refused DRequest None by (auto simp: delete_front_def split: option.splits jval.splits if_splits simp del: jfield.simps)
  next
    case (Some x)
    then have x: "passed e = Some (now, route)" "(case route of DeleteProfile i body \<Rightarrow> delete_front i body | _ \<Rightarrow> None) = None"
      using DRequest by (cases route; auto split: if_splits)+
    let ?d = "discovery_ensureLoaded frac_of now (ds_index s)"
    obtain d' q where f: "discovery_fetch c relay pick now route ?d = (d', q)" by (cases "discovery_fetch c relay pick now route ?d")
    show ?thesis
      by (rule request [OF DRequest x(1) refl discovery_ensureLoaded_inv(1,2) [OF assms] f]) (simp add: DRequest x(2) f)
  qed
next
  case (DAnswer n relay pick)
  then show ?thesis using answer by (auto simp: Let_def split: option.splits)
next
  case DEvicted
  then show ?thesis using evicted by simp
qed

lemma held_evicted [simp]:
  "held_profile (new_discovery\<lparr>di_storage := di_storage d\<rparr>) = held_profile d" "held_blocks (new_discovery\<lparr>di_storage := di_storage d\<rparr>) = held_blocks d"
  "held_requests (new_discovery\<lparr>di_storage := di_storage d\<rparr>) = held_requests d" "newest_issued (new_discovery\<lparr>di_storage := di_storage d\<rparr>) = newest_issued d"
  by (simp_all add: fun_eq_iff held_defs)

lemma discovery_step_ok:
  assumes "discovery_inv c (ds_index s)"
  shows "discovery_inv c (ds_index (service_step c frac_of fl e s)) \<and>
    (case discovery_write c frac_of e s of
       None \<Rightarrow> newest_issued (ds_index (service_step c frac_of fl e s)) = newest_issued (ds_index s)
     | Some (i, n) \<Rightarrow> (\<forall>u. newest_issued (ds_index s) i = Some u \<longrightarrow> u < n)
         \<and> newest_issued (ds_index (service_step c frac_of fl e s)) = (newest_issued (ds_index s))(i \<mapsto> n))"
  using assms
proof (cases rule: discovery_step_cases [where e = e and frac_of = frac_of and fl = fl])
  case (request n relay pick now route d d' q)
  have "newest_issued d = newest_issued (ds_index s)" unfolding request(3) by (rule discovery_ensureLoaded_inv(5) [OF assms])
  moreover have "discovery_write c frac_of e s = authorized c now route d" using request(2,3) by (simp add: discovery_write_def)
  moreover have "ds_index (service_step c frac_of fl e s) = d'" using request(7) by simp
  ultimately show ?thesis using fetch_inv [OF request(4-6)] by (auto split: option.splits)
next
  case (evicted)
  then show ?thesis using discovery_evicted_inv [OF assms] by (simp add: discovery_write_def)
qed (use assms in \<open>simp_all add: discovery_write_def\<close>)

text \<open>The discovery service is a service of signed writes.\<close>

interpretation discovery: signed_service "service_step c frac_of fl" "\<lambda>s. discovery_inv c (ds_index s)" "discovery_write c frac_of"
  "\<lambda>s. newest_issued (ds_index s)" for c frac_of fl
proof unfold_locales
  fix s :: discovery_service and e k t u
  assume ok: "discovery_inv c (ds_index s)"
  note o = discovery_step_ok [OF ok, where frac_of = frac_of and fl = fl and e = e, THEN conjunct1] discovery_step_ok [OF ok, where frac_of = frac_of and fl = fl and e = e, THEN conjunct2]
  show "discovery_inv c (ds_index (service_step c frac_of fl e s))" by (rule o(1))
  show "discovery_write c frac_of e s = Some (k, t) \<Longrightarrow> newest_issued (ds_index s) k = Some u \<Longrightarrow> u < t"
    "discovery_write c frac_of e s = Some (k, t) \<Longrightarrow> newest_issued (ds_index (service_step c frac_of fl e s)) k = Some t" using o(2) by auto
  show "newest_issued (ds_index (service_step c frac_of fl e s)) k = Some u"
    if "newest_issued (ds_index s) k = Some u" "\<And>t. discovery_write c frac_of e s \<noteq> Some (k, t)"
    using o(2) that by (cases "discovery_write c frac_of e s") (auto split: prod.splits)
qed

end
