(* ===== verification/Discovery_Match.thy ===== *)
theory Discovery_Match
  imports Discovery_Steps "HOL-Library.Multiset"
begin

text \<open>
  Random matches over runs of the discovery service in which any requests come between the answers of
  the relay: which candidates a match collects, which of them it chooses, and when it replies.
\<close>

section \<open>Runs and the object\<close>

definition new_service :: discovery_service where
  "new_service = \<lparr>ds_index = new_discovery, ds_runs = []\<rparr>"

definition service_inv :: "crypto \<Rightarrow> discovery_service \<Rightarrow> bool" where
  "service_inv c s \<longleftrightarrow> discovery_inv c (ds_index s) \<and> (di_loaded (ds_index s) \<or> ds_runs s = [])"

lemma new_service_inv: "service_inv c new_service"
  by (simp add: service_inv_def new_service_def new_discovery_inv)

lemma service_step_inv:
  assumes "service_inv c s"
  shows "service_inv c (service_step c frac_of fl e s)"
proof -
  have inv: "discovery_inv c (ds_index s)" using assms by (simp add: service_inv_def)
  have "di_loaded (ds_index (service_step c frac_of fl e s)) \<or> ds_runs (service_step c frac_of fl e s) = []"
    using inv
  proof (cases rule: discovery_step_cases [where e = e and frac_of = frac_of and fl = fl])
    case (request n relay pick now route d d' q)
    then show ?thesis using fetch_inv [OF request(4-6)] by simp
  next
    case (answer n relay pick)
    then show ?thesis using assms by (auto simp: service_inv_def keep_run_def Let_def split: option.splits)
  qed (use assms in \<open>simp_all add: service_inv_def\<close>)
  then show ?thesis using discovery.ok_step [OF inv] by (simp add: service_inv_def)
qed

lemma service_run_inv: "service_inv c s \<Longrightarrow> service_inv c (run_events (service_step c frac_of fl) es s)"
  by (induction es arbitrary: s) (auto intro: service_step_inv)

lemma loaded_profile_signed:
  assumes "discovery_inv c d" "di_loaded d" "(i, p) \<in> set (di_profiles d)"
  shows "profile_signed c p" "sp_identityId p = i" "profile_ok p"
proof -
  have "jm_get (di_profiles d) i = Some p" using assms(1,3) jm_in_set_get by (fastforce simp: discovery_inv_def)
  then have "held_profile d i = Some p" using assms(1,2) by (simp add: discovery_inv_def in_memory_def)
  then obtain w where w: "jm_get (di_storage d) (''profile:'' @ i) = Some (DProfile w)" "profile_of w = Some p"
    by (auto simp: held_profile_def split: option.splits discovery_entry.splits)
  then have "dentry_ok c (''profile:'' @ i) (DProfile w)" using assms(1) by (simp add: discovery_inv_def)
  then obtain q where "w = profile_value q" "sp_identityId q = i" "profile_ok q" "profile_signed c q" by (auto simp: dentry_ok_def)
  then show "profile_signed c p" "sp_identityId p = i" "profile_ok p" using w(2) profile_of_value by auto
qed

section \<open>Blocks\<close>

definition blocked :: "discovery \<Rightarrow> string \<Rightarrow> string set" where
  "blocked d i = (case held_blocks d i of None \<Rightarrow> {} | Some b \<Rightarrow> set b)"

lemma blocked_loaded: "discovery_inv c d \<Longrightarrow> di_loaded d \<Longrightarrow> set (blocked_by d i) = blocked d i"
  by (simp add: discovery_inv_def in_memory_def jm_get_or_def blocked_def split: option.splits)

lemma change_blocks:
  assumes "discovery_inv c d" "di_loaded d"
    and "change_ok c now op body j d0 ch"
  shows "blocked d i \<subseteq> blocked (apply_change j ch d) i"
proof (cases ch)
  case (AddBlock b)
  have "blocked (put_blocks j (set_add b (blocked_by d j)) d) i = (if i = j then insert b (blocked d j) else blocked d i)"
    using blocked_loaded [OF assms(1,2), of j] by (auto simp: blocked_def)
  then show ?thesis using AddBlock by auto
next
  case (SaveProfile p)
  then have "validProfileFields body" "p = profile_from body j (sp_firstSeenAt p)" using assms(3) by (simp, simp, metis)
  then have "profile_ok p" using valid_profile_ok by metis
  then show ?thesis using SaveProfile by (simp add: blocked_def)
qed (simp_all add: blocked_def)

text \<open>A block is never lifted, whatever comes.\<close>

lemma blocks_stay:
  assumes "discovery_inv c (ds_index s)"
  shows "blocked (ds_index s) i \<subseteq> blocked (ds_index (service_step c frac_of fl e s)) i"
  using assms
proof (cases rule: discovery_step_cases [where e = e and frac_of = frac_of and fl = fl])
  case (request n relay pick now route d d' q)
  have same: "blocked d i = blocked (ds_index s) i"
    unfolding request(3) blocked_def by (simp add: discovery_ensureLoaded_inv(3) [OF assms])
  have "blocked d i \<subseteq> blocked d' i"
  proof (cases "authorized c now route d")
    case None
    then show ?thesis using fetch_ok [OF request(4-6)] by (simp add: fetch_outcome_ok_def)
  next
    case (Some w)
    obtain j m where w: "authorized c now route d = Some (j, m)" using Some by (cases w) auto
    obtain op body ch where o: "d' = apply_change j ch (set_issued j m d)" "change_ok c now op body j d ch"
      using fetch_ok [OF request(4-6)] unfolding fetch_outcome_ok_def w by auto
    show ?thesis
      using change_blocks [OF update_invs(1,2) [OF request(4,5), where i = j and n = m] o(2), of i] o(1) by (simp add: blocked_def)
  qed
  then show ?thesis using same request(7) by simp
qed (simp_all add: blocked_def)

lemma blocks_stay_run:
  "discovery_inv c (ds_index s) \<Longrightarrow> blocked (ds_index s) i \<subseteq> blocked (ds_index (run_events (service_step c frac_of fl) es s)) i"
proof (induction es arbitrary: s)
  case (Cons e es)
  have "blocked (ds_index s) i \<subseteq> blocked (ds_index (service_step c frac_of fl e s)) i" by (rule blocks_stay [OF Cons.prems])
  also have "\<dots> \<subseteq> blocked (ds_index (run_events (service_step c frac_of fl) es (service_step c frac_of fl e s))) i"
    by (rule Cons.IH [OF discovery.ok_step [OF Cons.prems]])
  finally show ?case by simp
qed simp

section \<open>Candidates\<close>

text \<open>The identities the relay said to be online when asked for match \<open>n\<close>.\<close>

definition online_answers :: "nat \<Rightarrow> discovery_event list \<Rightarrow> string set" where
  "online_answers n es = {i. \<exists>relay pick. DAnswer n relay pick \<in> set es \<and> relayOnline relay i = Some True}"

definition candidate_ok :: "crypto \<Rightarrow> (string \<Rightarrow> string set) \<Rightarrow> string set \<Rightarrow> match_run \<Rightarrow> stored_profile \<Rightarrow> bool" where
  "candidate_ok c B on run p \<longleftrightarrow> profile_signed c p \<and> sp_identityId p \<in> on \<and> sp_identityId p \<noteq> mr_identityId run
     \<and> sp_identityId p \<notin> set (mr_exclude run) \<and> sp_identityId p \<notin> B (mr_identityId run) \<and> mr_identityId run \<notin> B (sp_identityId p)
     \<and> (overlap (sp_interests p) (mr_interests run) \<or> overlap (sp_languages p) (mr_languages run))"

text \<open>
  What a match has collected since some moment passed the gates, with the blocks \<open>B\<close> of that moment;
  \<open>old\<close> are the candidates there were then, each with the requester.
\<close>

definition collected :: "crypto \<Rightarrow> (string \<Rightarrow> string set) \<Rightarrow> string set \<Rightarrow> (string \<times> stored_profile) set \<Rightarrow> match_run \<Rightarrow> bool" where
  "collected c B on old run \<longleftrightarrow> mr_identityId run \<in> set (mr_exclude run) \<and> profile_signed c (mr_profile run)
     \<and> (\<forall>q \<in> set (mr_candidates run). (mr_identityId run, fst q) \<in> old \<or> candidate_ok c B on run (fst q))"

lemma collected_mono: "collected c B on old run \<Longrightarrow> on \<subseteq> on' \<Longrightarrow> collected c B on' old run"
  by (auto simp: collected_def candidate_ok_def)

definition same_request :: "match_run \<Rightarrow> match_run \<Rightarrow> bool" where
  "same_request r r' \<longleftrightarrow> mr_identityId r' = mr_identityId r \<and> mr_exclude r' = mr_exclude r \<and> mr_interests r' = mr_interests r
     \<and> mr_languages r' = mr_languages r \<and> mr_now r' = mr_now r"

lemma same_request_trans: "same_request a b \<Longrightarrow> same_request b d \<Longrightarrow> same_request a d"
  by (simp add: same_request_def)

lemma collected_same:
  assumes "collected c B on old r" "same_request r run" "mr_candidates run = mr_candidates r" "profile_signed c (mr_profile run)"
  shows "collected c B on old run"
  using assms by (simp add: collected_def candidate_ok_def same_request_def)

lemma visit_same: "same_request run (match_visit frac_of fl relay d run)" "mr_profile (match_visit frac_of fl relay d run) = mr_profile run"
  by (simp_all add: same_request_def match_visit_def Let_def)

lemma match_visit_collected:
  assumes "discovery_inv c d" "di_loaded d" "\<And>i. B i \<subseteq> blocked d i" "collected c B on old run"
  shows "collected c B (on \<union> {i. relayOnline relay i = Some True}) old (match_visit frac_of fl relay d run)"
proof -
  let ?on = "on \<union> {i. relayOnline relay i = Some True}" and ?p = "mr_profile run"
  have run: "collected c B ?on old run" by (rule collected_mono [OF assms(4)]) simp
  have "candidate_ok c B ?on run ?p" if "eligible (relayOnline relay (sp_identityId ?p)) d run ?p"
    using that run assms(3) blocked_loaded [OF assms(1,2)] by (fastforce simp: eligible_def collected_def candidate_ok_def)
  then show ?thesis using run by (auto simp: match_visit_def Let_def collected_def candidate_ok_def)
qed

lemma started_run:
  assumes "fetch_outcome_ok c pick now route d d' (Inr run)"
  obtains i n ex ins ls body where "authorized c now route d = Some (i, n)" "match_next pick d' (new_run i now ex ins ls) = Inr run"
    "route = PostRandomMatch (Some (JObj body))" "signed_request c ''discovery.random-match'' i body now" "match_asked body ex ins ls"
proof -
  note o = assms [unfolded fetch_outcome_ok_def]
  then obtain i n where w: "authorized c now route d = Some (i, n)" by (cases "authorized c now route d") auto
  obtain op body ch where ch: "route_op route = Some (op, Some (JObj body))" "signed_request c op i body now" "change_ok c now op body i d ch"
    "case ch of AddRequest t \<Rightarrow> (\<exists>ex ins ls. match_asked body ex ins ls \<and> Inr run = match_next pick d' (new_run i now ex ins ls))
      | _ \<Rightarrow> (\<exists>r. (Inr run :: discovery_reply + match_run) = Inl r \<and> no_match r)"
    using o unfolding w by auto
  then obtain t ex ins ls where t: "ch = AddRequest t" "match_next pick d' (new_run i now ex ins ls) = Inr run" "match_asked body ex ins ls" by (cases ch) auto
  then have "route = PostRandomMatch (Some (JObj body))" "op = ''discovery.random-match''" using ch(1,3) by (cases route; simp)+
  then show ?thesis using that [OF w t(2)] ch(2) t(3) by blast
qed

lemma match_next_signed:
  assumes "discovery_inv c d" "di_loaded d" "match_next pick d run = Inr run'"
  shows "same_request run run'" "mr_candidates run' = mr_candidates run" "profile_signed c (mr_profile run')"
proof -
  let ?k = "mr_position run"
  have k: "?k < length (di_profiles d)" and run': "run' = run\<lparr>mr_profile := snd (di_profiles d ! ?k), mr_position := Suc ?k\<rparr>"
    using assms(3) by (auto simp: match_next_def split: if_splits)
  have "(fst (di_profiles d ! ?k), snd (di_profiles d ! ?k)) \<in> set (di_profiles d)" using k by simp
  then have "profile_signed c (snd (di_profiles d ! ?k))" by (rule loaded_profile_signed(1) [OF assms(1,2)])
  then show "same_request run run'" "mr_candidates run' = mr_candidates run" "profile_signed c (mr_profile run')"
    by (simp_all add: run' same_request_def)
qed

text \<open>How a match comes to be where it is after an event.\<close>

lemma run_step_cases:
  assumes "service_inv c s" "jm_get (ds_runs (service_step c frac_of fl e s)) n = Some run"
  obtains (started) relay pick now body ex ins ls where "e = DRequest n relay pick now (PostRandomMatch (Some (JObj body)))"
      "signed_request c ''discovery.random-match'' (mr_identityId run) body now" "match_asked body ex ins ls"
      "same_request (new_run (mr_identityId run) now ex ins ls) run" "mr_candidates run = []" "profile_signed c (mr_profile run)"
    | (waiting) r where "jm_get (ds_runs s) n = Some r" "same_request r run" "mr_candidates run = mr_candidates r" "mr_profile run = mr_profile r"
    | (visited) r relay pick where "e = DAnswer n relay pick" "jm_get (ds_runs s) n = Some r" "di_loaded (ds_index s)" "same_request r run"
      "mr_candidates run = mr_candidates (match_visit frac_of fl relay (ds_index s) r)" "profile_signed c (mr_profile run)"
proof -
  have inv: "discovery_inv c (ds_index s)" using assms(1) by (simp add: service_inv_def)
  have same: thesis if "jm_get (ds_runs s) n = Some run" by (rule waiting [OF that]) (simp_all add: same_request_def)
  show ?thesis using inv
  proof (cases rule: discovery_step_cases [where e = e and frac_of = frac_of and fl = fl])
    case (request m relay pick now route d d' q)
    have I': "discovery_inv c d'" "di_loaded d'" using fetch_inv [OF request(4-6)] by blast+
    have moved: "jm_get (move_runs d d' (ds_runs s)) n = map_option (\<lambda>r. r\<lparr>mr_position := map_position (di_profiles d) (di_profiles d') (mr_position r)\<rparr>) (jm_get (ds_runs s) n)"
      unfolding move_runs_def jm_get_def by (induction "ds_runs s" rule: list.induct) (auto simp: map_of_map)
    show ?thesis
    proof (cases "m = n")
      case False
      then obtain r where "jm_get (ds_runs s) n = Some r" "run = r\<lparr>mr_position := map_position (di_profiles d) (di_profiles d') (mr_position r)\<rparr>"
        using assms(2) request(7) moved by (auto simp: keep_run_def jm_simps split: sum.splits)
      then show ?thesis by (intro waiting [of r]) (simp_all add: same_request_def)
    next
      case True
      then have q: "q = Inr run" using assms(2) request(7) by (auto simp: keep_run_def jm_simps split: sum.splits)
      have "fetch_outcome_ok c pick now route d d' (Inr run)" using fetch_ok [OF request(4-6)] q by simp
      then obtain i n' ex ins ls body where mn: "match_next pick d' (new_run i now ex ins ls) = Inr run"
        "route = PostRandomMatch (Some (JObj body))" "signed_request c ''discovery.random-match'' i body now" "match_asked body ex ins ls" by (rule started_run)
      note nx = match_next_signed [OF I' mn(1)]
      have "mr_identityId run = i" using nx(1) by (simp add: same_request_def new_run_def)
      then show ?thesis using mn nx request(1) True by (intro started) (auto simp: new_run_def)
    qed
  next
    case (answer m relay pick)
    show ?thesis
    proof (cases "m = n \<and> jm_get (ds_runs s) n \<noteq> None")
      case False
      then have "jm_get (ds_runs s) n = Some run"
        using assms(2) answer(1) by (auto simp: keep_run_def jm_simps Let_def split: option.splits sum.splits if_splits)
      then show ?thesis by (rule same)
    next
      case True
      then obtain r where r: "jm_get (ds_runs s) n = Some r" by blast
      have loaded: "di_loaded (ds_index s)" using assms(1) r by (auto simp: service_inv_def)
      have "match_next pick (ds_index s) (match_visit frac_of fl relay (ds_index s) r) = Inr run"
        using assms(2) True answer(1) r by (auto simp: keep_run_def jm_simps Let_def match_resume_def split: sum.splits)
      note nx = match_next_signed [OF inv loaded this]
      show ?thesis
        by (rule visited [OF _ r loaded same_request_trans [OF visit_same(1) nx(1)] nx(2,3)]) (use answer(1) True in simp)
    qed
  next
    case evicted
    then show ?thesis using assms(2) by simp
  qed (use assms(2) same in simp)
qed

lemma online_answers_append: "online_answers n (es @ es') = online_answers n es \<union> online_answers n es'"
  by (auto simp: online_answers_def)

lemma online_answer: "online_answers n [DAnswer n relay pick] = {i. relayOnline relay i = Some True}"
  by (auto simp: online_answers_def)

lemma new_run_collected:
  "same_request (new_run i now ex ins ls) run \<Longrightarrow> mr_candidates run = [] \<Longrightarrow> profile_signed c (mr_profile run) \<Longrightarrow> collected c B on old run"
  by (simp add: collected_def same_request_def new_run_def)

lemma collected_continued:
  assumes "service_inv c s" "\<And>i. B i \<subseteq> blocked (ds_index s) i" "collected c B on old r" "jm_get (ds_runs s) n = Some r" "same_request r run"
    and "mr_candidates run = mr_candidates (match_visit frac_of fl relay (ds_index s) r)" "di_loaded (ds_index s)" "profile_signed c (mr_profile run)"
  shows "collected c B (on \<union> online_answers n [DAnswer n relay pick]) old run"
proof -
  have inv: "discovery_inv c (ds_index s)" using assms(1) by (simp add: service_inv_def)
  have "same_request (match_visit frac_of fl relay (ds_index s) r) run"
    using assms(5) visit_same(1) [of r frac_of fl relay "ds_index s"] by (simp add: same_request_def)
  from collected_same [OF match_visit_collected [OF inv assms(7,2,3)] this assms(6,8)] show ?thesis by (simp add: online_answer)
qed

lemma collected_step:
  assumes "service_inv c s" "\<And>i. B i \<subseteq> blocked (ds_index s) i" "\<And>run. jm_get (ds_runs s) n = Some run \<Longrightarrow> collected c B on old run"
    and run: "jm_get (ds_runs (service_step c frac_of fl e s)) n = Some run"
  shows "collected c B (on \<union> online_answers n [e]) old run"
  using assms(1) run
proof (cases rule: run_step_cases)
  case (started relay pick now body ex ins ls)
  then show ?thesis by (intro new_run_collected)
next
  case (waiting r)
  have r: "collected c B (on \<union> online_answers n [e]) old r" by (rule collected_mono [OF assms(3) [OF waiting(1)]]) simp
  then have "profile_signed c (mr_profile run)" using waiting(4) by (simp add: collected_def)
  with r waiting(2,3) show ?thesis by (rule collected_same)
next
  case (visited r relay pick)
  then show ?thesis using collected_continued [OF assms(1,2) assms(3) [OF visited(2)] visited(2,4,5,3,6)] by simp
qed

lemma collected_run:
  assumes "service_inv c s" "\<And>i. B i \<subseteq> blocked (ds_index s) i" "\<And>run. jm_get (ds_runs s) n = Some run \<Longrightarrow> collected c B on old run"
    and "jm_get (ds_runs (run_events (service_step c frac_of fl) es s)) n = Some run"
  shows "collected c B (on \<union> online_answers n es) old run"
  using assms
proof (induction es arbitrary: s on)
  case Nil
  then show ?case using collected_mono [OF Nil.prems(3)] by simp
next
  case (Cons e es)
  have inv: "discovery_inv c (ds_index s)" using Cons.prems(1) by (simp add: service_inv_def)
  have "B i \<subseteq> blocked (ds_index (service_step c frac_of fl e s)) i" for i
    using blocks_stay [OF inv] Cons.prems(2) by blast
  from Cons.IH [OF service_step_inv [OF Cons.prems(1)] this collected_step [OF Cons.prems(1-3)]] Cons.prems(4)
  have "collected c B (on \<union> online_answers n [e] \<union> online_answers n es) old run" by simp
  then show ?case using online_answers_append [of n "[e]" es] by (simp add: Un_assoc)
qed

text \<open>A match under way goes back to a request for it, and has collected what passed the gates since.\<close>

definition tracked :: "crypto \<Rightarrow> nat \<Rightarrow> discovery_event list \<Rightarrow> match_run \<Rightarrow> bool" where
  "tracked c n es run \<longleftrightarrow>
     (\<exists>before relay pick now body after ex ins ls. es = before @ DRequest n relay pick now (PostRandomMatch (Some (JObj body))) # after
        \<and> signed_request c ''discovery.random-match'' (mr_identityId run) body now \<and> match_asked body ex ins ls
        \<and> same_request (new_run (mr_identityId run) now ex ins ls) run \<and> collected c (\<lambda>i. {}) (online_answers n after) {} run)"

lemma trackedE:
  assumes "tracked c n es run"
  obtains before relay pick now body after ex ins ls where "es = before @ DRequest n relay pick now (PostRandomMatch (Some (JObj body))) # after"
    "signed_request c ''discovery.random-match'' (mr_identityId run) body now" "match_asked body ex ins ls"
    "same_request (new_run (mr_identityId run) now ex ins ls) run" "collected c (\<lambda>i. {}) (online_answers n after) {} run"
  using assms unfolding tracked_def by blast

lemma tracked_step:
  assumes "tracked c n es r" "same_request r run" "\<And>on. collected c (\<lambda>i. {}) on {} r \<Longrightarrow> collected c (\<lambda>i. {}) (on \<union> online_answers n [e]) {} run"
  shows "tracked c n (es @ [e]) run"
proof -
  obtain before relay pick now body after ex ins ls where t: "es = before @ DRequest n relay pick now (PostRandomMatch (Some (JObj body))) # after"
    "signed_request c ''discovery.random-match'' (mr_identityId r) body now" "match_asked body ex ins ls"
    "same_request (new_run (mr_identityId r) now ex ins ls) r" "collected c (\<lambda>i. {}) (online_answers n after) {} r"
    by (rule trackedE [OF assms(1)])
  have i: "mr_identityId run = mr_identityId r" using assms(2) by (simp add: same_request_def)
  show ?thesis
    unfolding tracked_def
  proof (intro exI conjI)
    show "es @ [e] = before @ DRequest n relay pick now (PostRandomMatch (Some (JObj body))) # (after @ [e])" using t(1) by simp
    show "same_request (new_run (mr_identityId run) now ex ins ls) run" using same_request_trans [OF t(4) assms(2)] i by simp
    show "collected c (\<lambda>i. {}) (online_answers n (after @ [e])) {} run" using assms(3) [OF t(5)] by (simp add: online_answers_append)
  qed (use t(2,3) i in simp_all)
qed

lemma tracked_run:
  "jm_get (ds_runs (run_events (service_step c frac_of fl) es new_service)) n = Some run \<Longrightarrow> tracked c n es run"
proof (induction es arbitrary: run rule: rev_induct)
  case Nil
  then show ?case by (simp add: new_service_def)
next
  case (snoc e es)
  let ?s = "run_events (service_step c frac_of fl) es new_service"
  have inv: "service_inv c ?s" by (rule service_run_inv [OF new_service_inv])
  have "jm_get (ds_runs (service_step c frac_of fl e ?s)) n = Some run" using snoc.prems by (simp add: run_events_append)
  with inv show ?case
  proof (cases rule: run_step_cases)
    case (started relay pick now body ex ins ls)
    have "collected c (\<lambda>i. {}) (online_answers n []) {} run" by (rule new_run_collected [OF started(4-6)])
    then show ?thesis unfolding tracked_def using started(1-4)
      by (intro exI [of _ es] exI [of _ relay] exI [of _ pick] exI [of _ now] exI [of _ body] exI [of _ "[]"] exI [of _ ex] exI [of _ ins] exI [of _ ls] conjI) simp_all
  next
    case (waiting r)
    show ?thesis
    proof (rule tracked_step [OF snoc.IH [OF waiting(1)] waiting(2)])
      fix on assume r: "collected c (\<lambda>i. {}) on {} r"
      then have "profile_signed c (mr_profile run)" using waiting(4) by (simp add: collected_def)
      from collected_same [OF collected_mono [OF r Un_upper1] waiting(2,3) this]
      show "collected c (\<lambda>i. {}) (on \<union> online_answers n [e]) {} run" .
    qed
  next
    case (visited r relay pick)
    show ?thesis
      by (rule tracked_step [OF snoc.IH [OF visited(2)] visited(4)])
         (use collected_continued [OF inv _ _ visited(2,4,5,3,6)] visited(1) in simp)
  qed
qed

section \<open>The choice\<close>

text \<open>How many candidates have a strictly better score.\<close>

definition better :: "(stored_profile \<times> rat) list \<Rightarrow> rat \<Rightarrow> nat" where
  "better candidates score = length (filter (\<lambda>q. snd q > score) candidates)"

lemma better_mono: "x \<le> y \<Longrightarrow> better cs y \<le> better cs x"
  unfolding better_def by (induction cs) auto

lemma sorted_filter_prefix:
  fixes f :: "'a \<Rightarrow> 'b :: linorder"
  assumes "sorted (map f xs)" "k < length xs"
  shows "length (filter (\<lambda>x. f x < f (xs ! k)) xs) \<le> k"
proof -
  have "{i. i < length xs \<and> f (xs ! i) < f (xs ! k)} \<subseteq> {..<k}"
  proof
    fix i assume i: "i \<in> {i. i < length xs \<and> f (xs ! i) < f (xs ! k)}"
    show "i \<in> {..<k}"
    proof (rule ccontr)
      assume "i \<notin> {..<k}"
      then have "k \<le> i" by simp
      then have "f (xs ! k) \<le> f (xs ! i)" using sorted_nth_mono [OF assms(1), of k i] i by simp
      then show False using i leD by blast
    qed
  qed
  then have "card {i. i < length xs \<and> f (xs ! i) < f (xs ! k)} \<le> k" using card_mono [of "{..<k}"] by fastforce
  then show ?thesis by (simp add: length_filter_conv_card)
qed

lemma better_sorted: "better (sort_key f cs) x = better cs x"
proof -
  have "mset (filter (\<lambda>q. snd q > x) (sort_key f cs)) = mset (filter (\<lambda>q. snd q > x) cs)" by simp
  then show ?thesis unfolding better_def using mset_eq_length by blast
qed

text \<open>The top candidates are those with fewer better ones than half of the candidates, rounded up.\<close>

lemma top_candidates_iff:
  assumes "cs \<noteq> []"
  shows "q \<in> set (top_candidates cs) \<longleftrightarrow> q \<in> set cs \<and> better cs (snd q) < (length cs + 1) div 2"
proof -
  let ?s = "sort_key (\<lambda>q. - snd q) cs" and ?n = "(length cs + 1) div 2"
  have n: "max 1 ?n = ?n" "?n - 1 < length ?s" "0 < ?n" using assms by (cases cs; simp)+
  let ?cut = "snd (?s ! (?n - 1))"
  have sorted: "sorted (map (\<lambda>q. - snd q) ?s)" by simp
  have below: "better ?s ?cut \<le> ?n - 1"
    using sorted_filter_prefix [OF sorted n(2)] by (simp add: better_def)
  have "better ?s (snd q) < ?n \<longleftrightarrow> ?cut \<le> snd q" if "q \<in> set cs" for q
  proof
    assume "?cut \<le> snd q"
    then have "better ?s (snd q) \<le> better ?s ?cut" by (rule better_mono)
    then show "better ?s (snd q) < ?n" using below n(3) by linarith
  next
    assume b: "better ?s (snd q) < ?n"
    show "?cut \<le> snd q"
    proof (rule ccontr)
      assume "\<not> ?cut \<le> snd q"
      then have "{..?n - 1} \<subseteq> {i. i < length ?s \<and> snd (?s ! i) > snd q}"
        using sorted_nth_mono [OF sorted, of _ "?n - 1"] n(2) by fastforce
      then have "?n \<le> card {i. i < length ?s \<and> snd (?s ! i) > snd q}"
        using card_mono [of "{i. i < length ?s \<and> snd (?s ! i) > snd q}" "{..?n - 1}"] n(3) by simp
      then show False using b by (simp add: better_def length_filter_conv_card)
    qed
  qed
  then show ?thesis unfolding top_candidates_def Let_def n(1) better_sorted by (cases q) auto
qed

lemma top_candidates_nonempty: "cs \<noteq> [] \<Longrightarrow> top_candidates cs \<noteq> []"
proof
  assume cs: "cs \<noteq> []" and e: "top_candidates cs = []"
  let ?m = "Max (snd ` set cs)"
  have "?m \<in> snd ` set cs" using cs by (intro Max_in) auto
  then obtain q where q: "q \<in> set cs" "snd q = ?m" by auto
  have "snd r \<le> ?m" if "r \<in> set cs" for r using that cs by (intro Max_ge) auto
  then have "filter (\<lambda>r. snd r > ?m) cs = []" by (simp add: filter_empty_conv not_less)
  then have "better cs (snd q) = 0" by (simp only: better_def q(2)) simp
  moreover have "0 < (length cs + 1) div 2" using cs by (cases cs) auto
  ultimately have "q \<in> set (top_candidates cs)" using top_candidates_iff [OF cs] q(1) by simp
  then show False using e by simp
qed

lemma match_result_chosen:
  assumes "mr_candidates run \<noteq> []" "\<And>m. 0 < m \<Longrightarrow> pick m < m"
  obtains q where "q \<in> set (top_candidates (mr_candidates run))" "match_result pick run = MatchFound (fst q) (length (mr_candidates run))"
proof -
  let ?top = "top_candidates (mr_candidates run)"
  have "pick (length ?top) < length ?top" using assms(2) top_candidates_nonempty [OF assms(1)] by simp
  then have "?top ! pick (length ?top) \<in> set ?top" by (rule nth_mem)
  then show ?thesis using that [of "?top ! pick (length ?top)"] assms(1) by (simp add: match_result_def Let_def)
qed

lemma match_result_collected:
  assumes "match_result pick run = MatchFound p k" "\<And>m. 0 < m \<Longrightarrow> pick m < m" "collected c B on old run"
  shows "(mr_identityId run, p) \<in> old \<or> candidate_ok c B on run p"
proof -
  have ne: "mr_candidates run \<noteq> []" using assms(1) by (auto simp: match_result_def)
  obtain q where q: "q \<in> set (top_candidates (mr_candidates run))" "match_result pick run = MatchFound (fst q) (length (mr_candidates run))"
    using match_result_chosen [OF ne assms(2)] by blast
  then have "q \<in> set (mr_candidates run)" "p = fst q" using top_candidates_iff [OF ne] assms(1) by auto
  then show ?thesis using assms(3) by (auto simp: collected_def)
qed

text \<open>The reply of a match comes with an answer of the relay, and what it finds passed the gates.\<close>

lemma match_reply:
  assumes "service_inv c s" "\<And>i. B i \<subseteq> blocked (ds_index s) i" "\<And>m. 0 < m \<Longrightarrow> pick m < m"
    and "\<And>run. jm_get (ds_runs s) n = Some run \<Longrightarrow> collected c B on old run"
    and "snd (discovery_step c frac_of fl (DAnswer n relay pick) s) = Some (MatchFound p k)" "jm_get (ds_runs s) n = Some run"
  shows "(mr_identityId run, p) \<in> old \<or> candidate_ok c B (on \<union> online_answers n [DAnswer n relay pick]) run p"
proof -
  let ?v = "match_visit frac_of fl relay (ds_index s) run"
  have "match_next pick (ds_index s) ?v = Inl (MatchFound p k)"
    using assms(5,6) by (auto simp: Let_def reply_of_def match_resume_def split: sum.splits)
  then have r: "match_result pick ?v = MatchFound p k" by (auto simp: match_next_def split: if_splits)
  have loaded: "di_loaded (ds_index s)" and inv: "discovery_inv c (ds_index s)" using assms(1,6) by (auto simp: service_inv_def)
  have same: "candidate_ok c B x ?v p = candidate_ok c B x run p" "mr_identityId ?v = mr_identityId run" for x
    using visit_same(1) [of run frac_of fl relay "ds_index s"] by (simp_all add: candidate_ok_def same_request_def)
  from match_result_collected [OF r assms(3) match_visit_collected [OF inv loaded assms(2) assms(4) [OF assms(6)]]]
  show ?thesis by (simp add: same online_answer)
qed

section \<open>The loop\<close>

text \<open>The profiles that pass the gates, each with the relay that is asked about it.\<close>

definition gate :: "discovery \<Rightarrow> match_run \<Rightarrow> relay_binding \<times> stored_profile \<Rightarrow> bool" where
  "gate d run x = eligible (relayOnline (fst x) (sp_identityId (snd x))) d run (snd x)"

lemma gate_same: "mr_identityId r = mr_identityId run \<Longrightarrow> mr_exclude r = mr_exclude run \<Longrightarrow> mr_interests r = mr_interests run
   \<Longrightarrow> mr_languages r = mr_languages run \<Longrightarrow> gate d r = gate d run"
  by (simp add: gate_def eligible_def fun_eq_iff)

text \<open>A match that nothing interrupts takes the answers one after the other.\<close>

fun answers :: "(string \<Rightarrow> rat) \<Rightarrow> (rat \<Rightarrow> rat) \<Rightarrow> (nat \<Rightarrow> nat) \<Rightarrow> discovery \<Rightarrow> relay_binding list \<Rightarrow> match_run \<Rightarrow> discovery_reply + match_run" where
  "answers frac_of fl pick d [] run = Inr run"
| "answers frac_of fl pick d (r # rs) run =
     (case match_resume frac_of fl r pick d run of Inl reply \<Rightarrow> Inl reply | Inr run' \<Rightarrow> answers frac_of fl pick d rs run')"

lemma answers_append:
  "answers frac_of fl pick d (rs @ rs') run =
     (case answers frac_of fl pick d rs run of Inl reply \<Rightarrow> Inl reply | Inr run' \<Rightarrow> answers frac_of fl pick d rs' run')"
  by (induction rs arbitrary: run) (auto split: sum.splits)

lemma answers_service:
  assumes "jm_get (ds_runs s) n = Some run" "answers frac_of fl pick (ds_index s) rs run = Inr run'"
  shows "ds_index (run_events (service_step c frac_of fl) (map (\<lambda>r. DAnswer n r pick) rs) s) = ds_index s
    \<and> jm_get (ds_runs (run_events (service_step c frac_of fl) (map (\<lambda>r. DAnswer n r pick) rs) s)) n = Some run'"
  using assms
proof (induction rs arbitrary: s run)
  case (Cons r rs)
  obtain run1 where r1: "match_resume frac_of fl r pick (ds_index s) run = Inr run1" "answers frac_of fl pick (ds_index s) rs run1 = Inr run'"
    using Cons.prems(2) by (auto split: sum.splits)
  have step: "service_step c frac_of fl (DAnswer n r pick) s = s\<lparr>ds_runs := jm_set n run1 (ds_runs s)\<rparr>"
    using Cons.prems(1) r1(1) by (simp add: keep_run_def Let_def)
  show ?case using Cons.IH [of "s\<lparr>ds_runs := jm_set n run1 (ds_runs s)\<rparr>" run1] r1(2) step by (simp add: jm_get_set)
qed simp

lemma visit_candidates:
  "map fst (mr_candidates (match_visit frac_of fl r d run)) = map fst (mr_candidates run) @ (if gate d run (r, mr_profile run) then [mr_profile run] else [])"
  "same_request run (match_visit frac_of fl r d run)" "mr_position (match_visit frac_of fl r d run) = mr_position run"
  by (auto simp: match_visit_def gate_def Let_def same_request_def)

lemma zip_snoc: "length xs < length ys \<Longrightarrow> zip (xs @ [x]) ys = zip xs ys @ [(x, ys ! length xs)]"
proof (induction xs arbitrary: ys)
  case Nil
  then show ?case by (cases ys) auto
next
  case (Cons a xs)
  then show ?case by (cases ys) auto
qed

lemma answers_prefix:
  assumes "mr_position run = Suc 0" "mr_profile run = snd (di_profiles d ! 0)" "length rs < length (di_profiles d)"
  shows "\<exists>run'. answers frac_of fl pick d rs run = Inr run' \<and> mr_position run' = Suc (length rs)
    \<and> mr_profile run' = snd (di_profiles d ! length rs) \<and> same_request run run'
    \<and> map fst (mr_candidates run') = map fst (mr_candidates run) @ map snd (filter (gate d run) (zip rs (map snd (di_profiles d))))"
  using assms(3)
proof (induction rs rule: rev_induct)
  case Nil
  then show ?case using assms(1,2) by (simp add: same_request_def)
next
  case (snoc r rs)
  then obtain run1 where run1: "answers frac_of fl pick d rs run = Inr run1" "mr_position run1 = Suc (length rs)"
    "mr_profile run1 = snd (di_profiles d ! length rs)" "same_request run run1"
    "map fst (mr_candidates run1) = map fst (mr_candidates run) @ map snd (filter (gate d run) (zip rs (map snd (di_profiles d))))" by auto
  have g: "gate d run1 = gate d run" using run1(4) by (intro gate_same) (simp_all add: same_request_def)
  note v = visit_candidates [where frac_of = frac_of and fl = fl and r = r and d = d and run = run1]
  have z: "zip (rs @ [r]) (map snd (di_profiles d)) = zip rs (map snd (di_profiles d)) @ [(r, mr_profile run1)]"
    using snoc.prems run1(3) by (simp add: zip_snoc)
  show ?case
    using snoc.prems run1 v g z by (auto simp: answers_append match_resume_def match_next_def same_request_def)
qed

lemma match_completes:
  assumes "jm_get (ds_runs s) n = Some run" "mr_position run = Suc 0" "mr_profile run = snd (di_profiles (ds_index s) ! 0)" "mr_candidates run = []"
    and "length (rs @ [r]) = length (di_profiles (ds_index s))"
  obtains run' where "snd (discovery_step c frac_of fl (DAnswer n r pick) (run_events (service_step c frac_of fl) (map (\<lambda>r. DAnswer n r pick) rs) s)) = Some (match_result pick run')"
    "map fst (mr_candidates run') = map snd (filter (gate (ds_index s) run) (zip (rs @ [r]) (map snd (di_profiles (ds_index s)))))"
proof -
  let ?d = "ds_index s" and ?s = "run_events (service_step c frac_of fl) (map (\<lambda>r. DAnswer n r pick) rs) s"
  obtain run1 where run1: "answers frac_of fl pick ?d rs run = Inr run1" "mr_position run1 = Suc (length rs)"
    "mr_profile run1 = snd (di_profiles ?d ! length rs)" "same_request run run1"
    "map fst (mr_candidates run1) = map snd (filter (gate ?d run) (zip rs (map snd (di_profiles ?d))))"
    using answers_prefix [OF assms(2,3), where rs = rs and frac_of = frac_of and fl = fl and pick = pick] assms(4,5) by auto
  note S = answers_service [OF assms(1) run1(1), where c = c]
  let ?v = "match_visit frac_of fl r ?d run1"
  have g: "gate ?d run1 = gate ?d run" using run1(4) by (intro gate_same) (simp_all add: same_request_def)
  have "match_next pick ?d ?v = Inl (match_result pick ?v)"
    using visit_candidates(3) run1(2) assms(5) by (simp add: match_next_def)
  then have "snd (discovery_step c frac_of fl (DAnswer n r pick) ?s) = Some (match_result pick ?v)"
    using S by (simp add: match_resume_def Let_def reply_of_def)
  moreover have "map fst (mr_candidates ?v) = map snd (filter (gate ?d run) (zip (rs @ [r]) (map snd (di_profiles ?d))))"
    using visit_candidates(1) [of frac_of fl r ?d run1] run1(3,5) g assms(5) by (simp add: zip_snoc)
  ultimately show ?thesis by (rule that)
qed

end
