(* ===== verification/Discovery_Properties.thy ===== *)
theory Discovery_Properties
  imports Discovery_Match Sample_Crypto
begin

text \<open>The theorems on the discovery service.\<close>

section \<open>Signed requests are accepted\<close>

lemma authorize_accepts:
  fixes c s operation i fs n
  defines "body \<equiv> signIdentityAuthJson c s operation i fs"
  assumes "signatures_correct c" "device_signer c s cert i now" "wire_proof (signIdentityAuth c s operation i (JObj fs))"
    and "map (\<lambda>(k, v). (k, json_normal v)) fs = fs" "''auth'' \<notin> fst ` set fs"
    and "jfield fs ''identityId'' = Some (JStr (toHex i))" "jfield fs ''issuedAt'' = Some (JNum n)" "isFreshIssuedAt (Some (JNum n)) now"
    and "\<And>u. jm_get (di_lastIssuedAt d) (toHex i) = Some u \<Longrightarrow> u < n"
  shows "authorize c now (Some (JObj body)) operation d = (set_issued (toHex i) n d, Inr (body, toHex i))"
proof -
  note b = signed_body [OF assms(2-6), folded body_def]
  have f: "jfield body ''identityId'' = Some (JStr (toHex i))" "jfield body ''issuedAt'' = Some (JNum n)"
    using b(2) assms(7,8) by (simp_all del: jfield.simps)
  have "length i = 32" using assms(3) by (simp add: device_signer_def)
  then have "id_hex (toHex i)" by (simp add: id_hex_def)
  moreover have "safe_int n" using assms(9) by (simp add: isFreshIssuedAt_def)
  moreover have "\<not> (case jm_get (di_lastIssuedAt d) (toHex i) of None \<Rightarrow> False | Some l \<Rightarrow> n \<le> l)"
    using assms(10) by (auto split: option.splits)
  ultimately show ?thesis using f b(1,3) assms(9) by (simp add: authorize_def set_issued_def del: jfield.simps toHex_simps)
qed

section \<open>Matches that were found\<close>

text \<open>The matches the service replies with over a run: the number of the request, the match as it was, the profile.\<close>

fun found_matches ::
  "crypto \<Rightarrow> (string \<Rightarrow> rat) \<Rightarrow> (rat \<Rightarrow> rat) \<Rightarrow> discovery_event list \<Rightarrow> discovery_service \<Rightarrow> (nat \<times> match_run \<times> stored_profile) list" where
  "found_matches c frac_of fl [] s = []"
| "found_matches c frac_of fl (e # es) s =
     (case e of
        DAnswer n relay pick \<Rightarrow>
          (case (jm_get (ds_runs s) n, snd (discovery_step c frac_of fl e s)) of
             (Some run, Some (MatchFound p k)) \<Rightarrow> [(n, run, p)]
           | _ \<Rightarrow> [])
      | _ \<Rightarrow> []) @ found_matches c frac_of fl es (service_step c frac_of fl e s)"

definition picks_ok :: "discovery_event list \<Rightarrow> bool" where
  "picks_ok es \<longleftrightarrow> (\<forall>n relay pick m. DAnswer n relay pick \<in> set es \<longrightarrow> 0 < m \<longrightarrow> pick m < m)"

lemma found_matches_split:
  assumes "(n, run, p) \<in> set (found_matches c frac_of fl es s)"
  obtains es1 relay pick es2 k where "es = es1 @ DAnswer n relay pick # es2"
    "jm_get (ds_runs (run_events (service_step c frac_of fl) es1 s)) n = Some run"
    "snd (discovery_step c frac_of fl (DAnswer n relay pick) (run_events (service_step c frac_of fl) es1 s)) = Some (MatchFound p k)"
  using assms
proof (induction es arbitrary: s thesis)
  case (Cons e es)
  show ?case
  proof (cases "(n, run, p) \<in> set (found_matches c frac_of fl es (service_step c frac_of fl e s))")
    case True
    obtain es1 relay pick es2 k where "es = es1 @ DAnswer n relay pick # es2"
      "jm_get (ds_runs (run_events (service_step c frac_of fl) es1 (service_step c frac_of fl e s))) n = Some run"
      "snd (discovery_step c frac_of fl (DAnswer n relay pick) (run_events (service_step c frac_of fl) es1 (service_step c frac_of fl e s))) = Some (MatchFound p k)"
      using Cons.IH [OF _ True] by blast
    then show ?thesis using Cons.prems(1) [of "e # es1"] by simp
  next
    case False
    then obtain relay pick k where "e = DAnswer n relay pick" "jm_get (ds_runs s) n = Some run" "snd (discovery_step c frac_of fl e s) = Some (MatchFound p k)"
      using Cons.prems(2)
      by (auto split: discovery_event.splits option.splits discovery_reply.splits prod.splits simp del: discovery_step.simps) metis
    then show ?thesis using Cons.prems(1) [of "[]"] by simp
  qed
qed simp

text \<open>What a match finds after some moment passed the gates, with the blocks of then, or was collected before.\<close>

lemma found_ok:
  assumes "service_inv c s" "\<And>run. jm_get (ds_runs s) n = Some run \<Longrightarrow> collected c (\<lambda>i. {}) {} (old run) run"
    and "picks_ok es" "(n, run, p) \<in> set (found_matches c frac_of fl es s)"
  shows "(\<exists>r. jm_get (ds_runs s) n = Some r \<and> mr_identityId r = mr_identityId run \<and> p \<in> fst ` set (mr_candidates r))
    \<or> candidate_ok c (blocked (ds_index s)) (online_answers n es) run p"
proof -
  obtain es1 relay pick es2 k where es: "es = es1 @ DAnswer n relay pick # es2"
    "jm_get (ds_runs (run_events (service_step c frac_of fl) es1 s)) n = Some run"
    "snd (discovery_step c frac_of fl (DAnswer n relay pick) (run_events (service_step c frac_of fl) es1 s)) = Some (MatchFound p k)"
    by (rule found_matches_split [OF assms(4)])
  let ?s = "run_events (service_step c frac_of fl) es1 s" and ?B = "blocked (ds_index s)"
  define there where "there = (case jm_get (ds_runs s) n of None \<Rightarrow> {} | Some r \<Rightarrow> (\<lambda>q. (mr_identityId r, fst q)) ` set (mr_candidates r))"
  have start: "collected c ?B {} there r" if "jm_get (ds_runs s) n = Some r" for r
    using assms(2) [OF that] that by (auto simp: collected_def there_def)
  have col: "collected c ?B ({} \<union> online_answers n es1) there r" if "jm_get (ds_runs ?s) n = Some r" for r
    by (rule collected_run [OF assms(1) subset_refl start that])
  have "service_inv c ?s" by (rule service_run_inv [OF assms(1)])
  moreover have "blocked (ds_index s) i \<subseteq> blocked (ds_index ?s) i" for i using assms(1) blocks_stay_run by (simp add: service_inv_def)
  moreover have "\<And>m. 0 < m \<Longrightarrow> pick m < m" using assms(3) es(1) by (auto simp: picks_ok_def)
  ultimately have "(mr_identityId run, p) \<in> there \<or> candidate_ok c ?B ({} \<union> online_answers n es1 \<union> online_answers n [DAnswer n relay pick]) run p"
    by (rule match_reply [OF _ _ _ col es(3,2)])
  moreover have "online_answers n es1 \<union> online_answers n [DAnswer n relay pick] \<subseteq> online_answers n es" by (auto simp: online_answers_def es(1))
  ultimately show ?thesis by (auto simp: there_def candidate_ok_def split: option.splits)
qed

section \<open>Samples\<close>

definition demo_user :: "byte \<Rightarrow> identity_signer" where
  "demo_user b = \<lparr>is_rootPublicKey = replicate 32 b, is_secretKey = replicate 32 4,
     is_certificate = Some (issueDeviceCert sample_crypto (replicate 32 b) (replicate 32 4) (replicate 32 5) (replicate 32 6) (replicate 32 b) 10 1000 1)\<rparr>"

lemma demo_user_signer:
  "device_signer sample_crypto (demo_user b) (the (is_certificate (demo_user b))) (replicate 32 b) 60"
proof -
  have "identityIdFromWallet sample_crypto (replicate 32 b) = replicate 32 b"
    by (simp add: identityIdFromWallet_def sample_crypto_def)
  then show ?thesis
    unfolding device_signer_def demo_user_def
    by (simp add: issueDeviceCert_def verifyDeviceCert_def deviceCertPreimage_def sample_signing)
qed

lemma demo_user_wire: "wire_proof (signIdentityAuth sample_crypto (demo_user b) operation i fs)"
  by (simp add: wire_proof_def signIdentityAuth_def demo_user_def issueDeviceCert_def sample_signing safe_int_def)

definition demo_signed :: "byte \<Rightarrow> string \<Rightarrow> int \<Rightarrow> (string \<times> jval) list \<Rightarrow> (string \<times> jval) list" where
  "demo_signed b operation n fs = signIdentityAuthJson sample_crypto (demo_user b) operation (replicate 32 b)
     ([(''identityId'', JStr (toHex (replicate 32 b))), (''issuedAt'', JNum n)] @ fs)"

lemma demo_authorized:
  fixes b operation n fs
  defines "body \<equiv> demo_signed b operation n fs"
  assumes "map (\<lambda>(k, v). (k, json_normal v)) fs = fs" "''auth'' \<notin> fst ` set fs"
    and "isFreshIssuedAt (Some (JNum n)) 60" "\<And>u. jm_get (di_lastIssuedAt d) (toHex (replicate 32 b)) = Some u \<Longrightarrow> u < n"
  shows "authorize sample_crypto 60 (Some (JObj body)) operation d = (set_issued (toHex (replicate 32 b)) n d, Inr (body, toHex (replicate 32 b)))"
    and "k \<notin> {''auth'', ''identityId'', ''issuedAt''} \<Longrightarrow> jfield body k = jfield fs k"
    and "fst ` set body = {''auth'', ''identityId'', ''issuedAt''} \<union> fst ` set fs"
    and "jfield body ''identityId'' = Some (JStr (toHex (replicate 32 b)))"
proof -
  let ?fs = "[(''identityId'', JStr (toHex (replicate 32 b))), (''issuedAt'', JNum n)] @ fs"
  have fs: "map (\<lambda>(k, v). (k, json_normal v)) ?fs = ?fs" "''auth'' \<notin> fst ` set ?fs" using assms(2,3) by auto
  note sb = signed_body [OF sample_signatures demo_user_signer demo_user_wire fs]
  show "authorize sample_crypto 60 (Some (JObj body)) operation d = (set_issued (toHex (replicate 32 b)) n d, Inr (body, toHex (replicate 32 b)))"
    unfolding body_def demo_signed_def
    by (rule authorize_accepts [OF sample_signatures demo_user_signer demo_user_wire fs]) (use assms(4,5) in \<open>auto simp del: toHex_simps\<close>)
  show "k \<notin> {''auth'', ''identityId'', ''issuedAt''} \<Longrightarrow> jfield body k = jfield fs k"
    "fst ` set body = {''auth'', ''identityId'', ''issuedAt''} \<union> fst ` set fs" "jfield body ''identityId'' = Some (JStr (toHex (replicate 32 b)))"
    unfolding body_def demo_signed_def using sb(2) [of k] sb(4) sb(2) [of "''identityId''"] by auto
qed

section \<open>Blocks and matches\<close>

lemma started:
  assumes "discovery_inv c (ds_index s0)" "discovery_step c frac_of fl (DRequest n rl pk now route) s0 = (s, None)"
  obtains run where "jm_get (ds_runs s) n = Some run" "mr_position run = Suc 0" "mr_profile run = snd (di_profiles (ds_index s) ! 0)" "mr_candidates run = []"
proof -
  from assms(1) show ?thesis
  proof (cases rule: discovery_step_cases [where e = "DRequest n rl pk now route" and frac_of = frac_of and fl = fl])
    case (request m relay pick t route' d d' q)
    then obtain run where q: "q = Inr run" using assms(2) by (cases q) (auto simp: reply_of_def)
    have "fetch_outcome_ok c pick t route' d d' (Inr run)" using fetch_ok [OF request(4-6)] q by simp
    then obtain i x ex ins ls where mn: "match_next pick d' (new_run i t ex ins ls) = Inr run" by (rule started_run)
    have s: "s = \<lparr>ds_index = d', ds_runs = jm_set n run (move_runs d d' (ds_runs s0))\<rparr>"
      using assms(2) request(1,7) q by (simp add: keep_run_def del: discovery_step.simps)
    show ?thesis
      by (rule that [of run]) (use mn s in \<open>auto simp: match_next_def new_run_def jm_get_set split: if_splits\<close>)
  qed (use assms(2) in auto)
qed

lemma age_of_bounds:
  assumes "mono fl" "fl 0 = 0"
  shows "0 \<le> age_of fl now t"
proof -
  have "fl 0 \<le> fl (max 0 (fl (of_int now - t)) / of_int REPUTATION_AGE_CAP_MS)"
    by (rule monoD [OF assms(1)]) (simp add: REPUTATION_AGE_CAP_MS_def)
  then show ?thesis using assms(2) by (simp add: age_of_def)
qed

lemma age_of_mono:
  assumes "mono fl" "t \<le> t'"
  shows "age_of fl now t' \<le> age_of fl now t"
proof -
  have "fl (of_int now - t') \<le> fl (of_int now - t)" by (rule monoD [OF assms(1)]) (use assms(2) in simp)
  then have "max 0 (fl (of_int now - t')) / of_int REPUTATION_AGE_CAP_MS \<le> max 0 (fl (of_int now - t)) / of_int REPUTATION_AGE_CAP_MS"
    by (intro divide_right_mono) (auto simp: REPUTATION_AGE_CAP_MS_def)
  from monoD [OF assms(1) this] show ?thesis by (simp add: age_of_def)
qed

lemma match_score_mono:
  assumes "mono fl" "fl 0 = 0" "b \<le> b'" "t \<le> t'"
  shows "match_score fl now t' b' \<le> match_score fl now t b"
proof -
  note m = monoD [OF assms(1)]
  have w: "0 \<le> fl weight_age" "0 \<le> fl weight_blockInverse"
    using m [of 0 weight_age] m [of 0 weight_blockInverse] assms(2) by (simp_all add: weight_age_def weight_blockInverse_def)
  have age: "fl (fl weight_age * age_of fl now t') \<le> fl (fl weight_age * age_of fl now t)"
    by (intro m mult_left_mono w age_of_mono assms)
  have "1 / (1 + of_nat b') \<le> (1 :: rat) / (1 + of_nat b)" using assms(3) by (intro divide_left_mono) auto
  then have "fl (1 - fl (1 / (1 + of_nat b))) \<le> fl (1 - fl (1 / (1 + of_nat b')))" by (intro m diff_left_mono)
  then have "fl (fl weight_blockInverse * fl (1 - fl (1 / (1 + of_nat b)))) \<le> fl (fl weight_blockInverse * fl (1 - fl (1 / (1 + of_nat b'))))"
    by (rule m [OF mult_left_mono [OF _ w(2)]])
  then show ?thesis unfolding match_score_def using age by (intro m) linarith
qed


lemma block_stored:
  assumes "service_inv c s"
    and "discovery_step c frac_of fl (DRequest n relay pick now (PostBlock (Some (JObj body)))) s = (s', Some BlockStored)"
    and "jfield body ''identityId'' = Some (JStr a)" "jfield body ''blockedIdentityId'' = Some (JStr b)"
  shows "signed_request c ''discovery.block'' a body now" "b \<in> blocked (ds_index s') a" "service_inv c s'"
proof -
  let ?d = "discovery_ensureLoaded frac_of now (ds_index s)"
  have inv: "discovery_inv c ?d" "di_loaded ?d" using assms(1) discovery_ensureLoaded_inv(1,2) by (auto simp: service_inv_def)
  obtain d' where h: "handleBlock c now (Some (JObj body)) ?d = (d', BlockStored)" "ds_index s' = d'"
    using assms(2) by (auto simp: Let_def reply_of_def split: prod.splits)
  obtain d1 q where a: "authorize c now (Some (JObj body)) ''discovery.block'' ?d = (d1, q)" by (cases "authorize c now (Some (JObj body)) ''discovery.block'' ?d")
  from inv a have "signed_request c ''discovery.block'' a body now \<and> b \<in> blocked (ds_index s') a"
  proof (cases rule: authorize_cases)
    case (refused e)
    then have "e = BlockStored" using h(1) a by (simp add: handleBlock_def)
    moreover have "e \<noteq> BlockStored" using a refused by (auto simp: authorize_def split: option.splits if_splits jval.splits simp del: jfield.simps)
    ultimately show ?thesis by blast
  next
    case (accepted body' i m)
    then have e: "body' = body" "i = a" using assms(3) by auto
    then have "d' = put_blocks a (set_add b (blocked_by (set_issued a m ?d) a)) (set_issued a m ?d)"
      using h(1) a accepted(2,3) assms(4) by (auto simp: handleBlock_def Let_def put_blocks_def split: if_splits simp del: jfield.simps)
    then show ?thesis using h(2) accepted(7) e by (simp add: blocked_def)
  qed
  then show "signed_request c ''discovery.block'' a body now" "b \<in> blocked (ds_index s') a" by blast+
  show "service_inv c s'"
    using service_step_inv [OF assms(1), of frac_of fl "DRequest n relay pick now (PostBlock (Some (JObj body)))"] assms(2) by (simp del: discovery_step.simps)
qed

text \<open>
  C13. A block holds for every profile a match looks at from then on. Once the service has stored a block
  of \<open>b\<close> by \<open>a\<close>, and it stores it only when \<open>a\<close> has signed it, a random match that is found later brings
  the two together, whoever of them asked, only if it was under way when the block was stored and had
  the other among its candidates already; so no match that is asked for after the block does, nor one
  that had not come to the profile yet, whatever requests and restarts come later and however they
  fall between the steps of a match.
\<close>

theorem blocked_never_matched:
  assumes "s = run_events (service_step c frac_of fl) earlier new_service"
    and "discovery_step c frac_of fl (DRequest n relay pick now (PostBlock (Some (JObj body)))) s = (s', Some BlockStored)"
    and "jfield body ''identityId'' = Some (JStr a)" "jfield body ''blockedIdentityId'' = Some (JStr b)" "picks_ok es"
  shows "signed_request c ''discovery.block'' a body now
    \<and> (\<forall>(m, run, p) \<in> set (found_matches c frac_of fl es s'). {mr_identityId run, sp_identityId p} \<noteq> {a, b}
        \<or> (\<exists>r. jm_get (ds_runs s') m = Some r \<and> mr_identityId r = mr_identityId run \<and> p \<in> fst ` set (mr_candidates r)))"
proof -
  have "service_inv c s" unfolding assms(1) by (rule service_run_inv [OF new_service_inv])
  note b = block_stored [OF this assms(2-4)]
  have s': "s' = run_events (service_step c frac_of fl) (earlier @ [DRequest n relay pick now (PostBlock (Some (JObj body)))]) new_service"
    using assms(1,2) by (simp del: discovery_step.simps)
  have "{mr_identityId run, sp_identityId p} \<noteq> {a, b}
      \<or> (\<exists>r. jm_get (ds_runs s') m = Some r \<and> mr_identityId r = mr_identityId run \<and> p \<in> fst ` set (mr_candidates r))"
    if found: "(m, run, p) \<in> set (found_matches c frac_of fl es s')" for m run p
  proof -
    have "collected c (\<lambda>i. {}) {} ((\<lambda>q. (mr_identityId r, fst q)) ` set (mr_candidates r)) r" if "jm_get (ds_runs s') m = Some r" for r
      using tracked_run [OF that [unfolded s']] by (auto simp: tracked_def collected_def)
    then consider "\<exists>r. jm_get (ds_runs s') m = Some r \<and> mr_identityId r = mr_identityId run \<and> p \<in> fst ` set (mr_candidates r)"
      | "candidate_ok c (blocked (ds_index s')) (online_answers m es) run p"
      using found_ok [where old = "\<lambda>r. (\<lambda>q. (mr_identityId r, fst q)) ` set (mr_candidates r)", OF b(3) _ assms(5) found] by blast
    then show ?thesis
    proof cases
      case 2
      then have "sp_identityId p \<notin> blocked (ds_index s') (mr_identityId run)" "mr_identityId run \<notin> blocked (ds_index s') (sp_identityId p)"
        by (simp_all add: candidate_ok_def)
      then show ?thesis using b(2) by (auto simp: doubleton_eq_iff)
    qed (rule disjI2)
  qed
  then show ?thesis using b(1) by blast
qed

text \<open>A text in a list of the body.\<close>

definition lists_text :: "(string \<times> jval) list \<Rightarrow> string \<Rightarrow> string \<Rightarrow> bool" where
  "lists_text body field s \<longleftrightarrow> (\<exists>vs. jfield body field = Some (JArr vs) \<and> JStr s \<in> set vs)"

lemma texts_of_lists: "jfield body field = Some v \<Longrightarrow> isStringList v \<Longrightarrow> s \<in> set (texts_of v) \<Longrightarrow> lists_text body field s"
proof -
  assume a: "jfield body field = Some v" "isStringList v" "s \<in> set (texts_of v)"
  then obtain vs x where v: "v = JArr vs" "x \<in> set vs" "s = text_of x" by (cases v) auto
  then have "isShortString x" using a(2) by (auto simp: list_all_iff)
  then have "x = JStr s" using v(3) by (cases x) auto
  then show ?thesis using a(1) v(1,2) by (auto simp: lists_text_def)
qed

lemma exclude_lists: "exclude_list (jfield body field) = Some ex \<Longrightarrow> lists_text body field s \<Longrightarrow> s \<in> set ex"
  by (force simp: lists_text_def exclude_list_def split: if_splits)

text \<open>
  C14. What a random match finds. Behind every match that is found there is an earlier request of that
  number that the requester has signed, and the profile fits what it asked for: it is signed by its own
  identity, which is not the requester and not in the list the request excludes, it has an interest or a
  language in common with those of the request, up to case, and the relay said the identity to be online
  when it was asked for this match, after the request.
\<close>

theorem match_sound:
  assumes "\<And>m. 0 < m \<Longrightarrow> pick m < m"
    and "snd (discovery_step c frac_of fl (DAnswer n relay pick) (run_events (service_step c frac_of fl) es new_service)) = Some (MatchFound p k)"
  shows "\<exists>before rl pk now body after i. es = before @ DRequest n rl pk now (PostRandomMatch (Some (JObj body))) # after
    \<and> signed_request c ''discovery.random-match'' i body now
    \<and> profile_signed c p \<and> sp_identityId p \<noteq> i \<and> \<not> lists_text body ''exclude'' (sp_identityId p)
    \<and> ((\<exists>x \<in> set (sp_interests p). \<exists>y. lists_text body ''interests'' y \<and> js_lower x = js_lower y)
       \<or> (\<exists>x \<in> set (sp_languages p). \<exists>y. lists_text body ''languages'' y \<and> js_lower x = js_lower y))
    \<and> (\<exists>relay' pick'. DAnswer n relay' pick' \<in> set (after @ [DAnswer n relay pick]) \<and> relayOnline relay' (sp_identityId p) = Some True)"
proof -
  let ?s = "run_events (service_step c frac_of fl) es new_service"
  obtain run where run: "jm_get (ds_runs ?s) n = Some run" using assms(2) by (cases "jm_get (ds_runs ?s) n") auto
  obtain before rl pk now body after ex ins ls where t: "es = before @ DRequest n rl pk now (PostRandomMatch (Some (JObj body))) # after"
    "signed_request c ''discovery.random-match'' (mr_identityId run) body now" "match_asked body ex ins ls"
    "same_request (new_run (mr_identityId run) now ex ins ls) run" "collected c (\<lambda>i. {}) (online_answers n after) {} run"
    by (rule trackedE [OF tracked_run [OF run]])
  have "candidate_ok c (\<lambda>i. {}) (online_answers n after \<union> online_answers n [DAnswer n relay pick]) run p"
    using match_reply [where B = "\<lambda>i. {}" and old = "{}" and on = "online_answers n after", OF service_run_inv [OF new_service_inv] _ assms(1) _ assms(2) run] t(5) run
    by simp
  then have ok: "profile_signed c p" "sp_identityId p \<noteq> mr_identityId run" "sp_identityId p \<notin> set (mr_exclude run)"
    "overlap (sp_interests p) (mr_interests run) \<or> overlap (sp_languages p) (mr_languages run)"
    "sp_identityId p \<in> online_answers n (after @ [DAnswer n relay pick])"
    by (simp_all add: candidate_ok_def online_answers_append)
  have run': "set (mr_exclude run) = insert (mr_identityId run) (set ex)" "mr_interests run = map js_lower ins" "mr_languages run = map js_lower ls"
    using t(4) by (simp_all add: same_request_def new_run_def)
  have ex: "\<not> lists_text body ''exclude'' (sp_identityId p)" using ok(3) run'(1) exclude_lists t(3) unfolding match_asked_def by blast
  have ins: "lists_text body ''interests'' y" if "y \<in> set ins" for y using that t(3) texts_of_lists unfolding match_asked_def by blast
  have ls: "lists_text body ''languages'' y" if "y \<in> set ls" for y using that t(3) texts_of_lists unfolding match_asked_def by blast
  have common: "(\<exists>x \<in> set (sp_interests p). \<exists>y. lists_text body ''interests'' y \<and> js_lower x = js_lower y)
       \<or> (\<exists>x \<in> set (sp_languages p). \<exists>y. lists_text body ''languages'' y \<and> js_lower x = js_lower y)"
    using ok(4) ins ls unfolding overlap_def list_ex_iff run' by fastforce
  show ?thesis
    by (intro exI [of _ before] exI [of _ rl] exI [of _ pk] exI [of _ now] exI [of _ body] exI [of _ after] exI [of _ "mr_identityId run"])
       (use t(1,2) ok(1,2,5) ex common in \<open>simp add: online_answers_def; blast\<close>)
qed

text \<open>
  The choice. A match with candidates chooses one of those that fewer than half of the
  candidates, rounded up, beat strictly, and each of these is chosen for some random number; the reply
  counts all candidates. With a rounding that keeps the order, a profile known for longer never scores
  less and more blocks never make it score more.
\<close>

lemma match_rank:
  assumes "mr_candidates run \<noteq> []" "pick (length (top_candidates (mr_candidates run))) < length (top_candidates (mr_candidates run))"
    and "mono fl" "fl 0 = 0" "b \<le> b'" "t \<le> t'"
  shows "(\<exists>q \<in> set (mr_candidates run). match_result pick run = MatchFound (fst q) (length (mr_candidates run))
      \<and> length (filter (\<lambda>r. snd r > snd q) (mr_candidates run)) < (length (mr_candidates run) + 1) div 2)
    \<and> (\<forall>q \<in> set (mr_candidates run). length (filter (\<lambda>r. snd r > snd q) (mr_candidates run)) < (length (mr_candidates run) + 1) div 2 \<longrightarrow>
        (\<exists>k < length (top_candidates (mr_candidates run)). match_result (\<lambda>n. k) run = MatchFound (fst q) (length (mr_candidates run))))
    \<and> match_score fl now t' b' \<le> match_score fl now t b"
proof (intro conjI ballI impI)
  let ?top = "top_candidates (mr_candidates run)"
  have "?top ! pick (length ?top) \<in> set ?top" by (rule nth_mem [OF assms(2)])
  then show "\<exists>q \<in> set (mr_candidates run). match_result pick run = MatchFound (fst q) (length (mr_candidates run))
      \<and> length (filter (\<lambda>r. snd r > snd q) (mr_candidates run)) < (length (mr_candidates run) + 1) div 2"
    using assms(1) top_candidates_iff [OF assms(1)] by (intro bexI [of _ "?top ! pick (length ?top)"]) (auto simp: match_result_def Let_def better_def)
next
  fix q assume "q \<in> set (mr_candidates run)" "length (filter (\<lambda>r. snd r > snd q) (mr_candidates run)) < (length (mr_candidates run) + 1) div 2"
  then have "q \<in> set (top_candidates (mr_candidates run))" using top_candidates_iff [OF assms(1)] by (simp add: better_def)
  then show "\<exists>k < length (top_candidates (mr_candidates run)). match_result (\<lambda>n. k) run = MatchFound (fst q) (length (mr_candidates run))"
    using assms(1) by (auto simp: match_result_def Let_def in_set_conv_nth)
next
  show "match_score fl now t' b' \<le> match_score fl now t b" by (rule match_score_mono [OF assms(3-6)])
qed

text \<open>
  C16. A match comes to an end. If no other request comes in between, a match that was started replies
  to the answer about the last profile, after one answer for each. It reports no candidates exactly
  when no profile passes the gates, and otherwise one that does, with their number.
\<close>

theorem match_terminates:
  assumes "discovery_inv c (ds_index s0)" "discovery_step c frac_of fl (DRequest n rl pk now route) s0 = (s, None)"
    and "length (rs @ [r]) = length (di_profiles (ds_index s))" "\<And>m. 0 < m \<Longrightarrow> pick m < m"
  shows "\<exists>run reply. jm_get (ds_runs s) n = Some run
    \<and> snd (discovery_step c frac_of fl (DAnswer n r pick) (run_events (service_step c frac_of fl) (map (\<lambda>r. DAnswer n r pick) rs) s)) = Some reply
    \<and> (let passing = filter (\<lambda>(relay, p). eligible (relayOnline relay (sp_identityId p)) (ds_index s) run p) (zip (rs @ [r]) (map snd (di_profiles (ds_index s))))
       in if passing = [] then reply = NoCandidates else (\<exists>p \<in> snd ` set passing. reply = MatchFound p (length passing)))"
proof -
  obtain run where run: "jm_get (ds_runs s) n = Some run" "mr_position run = Suc 0" "mr_profile run = snd (di_profiles (ds_index s) ! 0)" "mr_candidates run = []"
    by (rule started [OF assms(1,2)])
  obtain run' where r': "snd (discovery_step c frac_of fl (DAnswer n r pick) (run_events (service_step c frac_of fl) (map (\<lambda>r. DAnswer n r pick) rs) s)) = Some (match_result pick run')"
    "map fst (mr_candidates run') = map snd (filter (gate (ds_index s) run) (zip (rs @ [r]) (map snd (di_profiles (ds_index s)))))"
    by (rule match_completes [OF run assms(3)])
  let ?passing = "filter (gate (ds_index s) run) (zip (rs @ [r]) (map snd (di_profiles (ds_index s))))"
  have len: "length (mr_candidates run') = length ?passing" using arg_cong [OF r'(2), of length] by simp
  have "if ?passing = [] then match_result pick run' = NoCandidates else (\<exists>p \<in> snd ` set ?passing. match_result pick run' = MatchFound p (length ?passing))"
  proof (cases "?passing = []")
    case True
    then show ?thesis using r'(2) by (simp add: match_result_def)
  next
    case False
    then have ne: "mr_candidates run' \<noteq> []" using len by auto
    obtain q where q: "q \<in> set (top_candidates (mr_candidates run'))" "match_result pick run' = MatchFound (fst q) (length (mr_candidates run'))"
      using match_result_chosen [OF ne assms(4)] by blast
    have "fst ` set (mr_candidates run') = snd ` set ?passing" using arg_cong [OF r'(2), of set] by (simp only: set_map)
    moreover have "fst q \<in> fst ` set (mr_candidates run')" using q(1) top_candidates_iff [OF ne] by (intro imageI) simp
    ultimately have "fst q \<in> snd ` set ?passing" by simp
    then show ?thesis using False q(2) len by simp
  qed
  moreover have "(\<lambda>(relay, p). eligible (relayOnline relay (sp_identityId p)) (ds_index s) run p) = gate (ds_index s) run"
    by (simp add: gate_def fun_eq_iff)
  ultimately have result: "let passing = filter (\<lambda>(relay, p). eligible (relayOnline relay (sp_identityId p)) (ds_index s) run p) (zip (rs @ [r]) (map snd (di_profiles (ds_index s))))
       in if passing = [] then match_result pick run' = NoCandidates else (\<exists>p \<in> snd ` set passing. match_result pick run' = MatchFound p (length passing))"
    by (simp only: Let_def)
  show ?thesis
    by (rule exI [of _ run], rule exI [of _ "match_result pick run'"]) (intro conjI run(1) r'(1) result)
qed

section \<open>Only the owner changes a profile\<close>

definition owner_change :: "crypto \<Rightarrow> string \<Rightarrow> discovery_event \<Rightarrow> discovery \<Rightarrow> discovery \<Rightarrow> bool" where
  "owner_change c i e d d' \<longleftrightarrow>
     (\<exists>n relay pick now route op body t. e = DRequest n relay pick now route \<and> route_op route = Some (op, Some (JObj body))
        \<and> op \<in> {''discovery.profile.upsert'', ''discovery.profile.delete''} \<and> signed_request c op i body now
        \<and> jfield body ''issuedAt'' = Some (JNum t) \<and> (\<forall>u. newest_issued d i = Some u \<longrightarrow> u < t)
        \<and> (case held_profile d' i of
             None \<Rightarrow> op = ''discovery.profile.delete''
           | Some p \<Rightarrow> op = ''discovery.profile.upsert'' \<and> p = profile_from body i (sp_firstSeenAt p)))"

lemma change_owner:
  assumes "discovery_inv c d" "di_loaded d" "discovery_fetch c relay pick now route d = (d', q)"
  shows "held_profile d' i = held_profile d i \<or> owner_change c i (DRequest n relay pick now route) d d'"
proof (cases "authorized c now route d")
  case None
  then show ?thesis using fetch_ok [OF assms] by (simp add: fetch_outcome_ok_def)
next
  case (Some w)
  obtain j t where w: "authorized c now route d = Some (j, t)" using Some by (cases w) auto
  obtain op body ch where o: "route_op route = Some (op, Some (JObj body))" "signed_request c op j body now" "jfield body ''issuedAt'' = Some (JNum t)"
    "\<forall>u. newest_issued d j = Some u \<longrightarrow> u < t" "d' = apply_change j ch (set_issued j t d)" "change_ok c now op body j d ch"
    using fetch_ok [OF assms] unfolding fetch_outcome_ok_def w by (auto simp del: jfield.simps)
  show ?thesis
  proof (cases ch)
    case (SaveProfile p)
    then have p: "validProfileFields body" "p = profile_from body j (sp_firstSeenAt p)" "op = ''discovery.profile.upsert''" using o(6) by simp_all metis
    have "profile_ok p" by (subst p(2)) (rule valid_profile_ok [OF p(1)])
    then have h: "held_profile d' = (held_profile d)(j \<mapsto> p)" using o(5) SaveProfile by simp
    show ?thesis
    proof (cases "i = j")
      case True
      then have "owner_change c i (DRequest n relay pick now route) d d'"
        unfolding owner_change_def using o(1-4) p(2,3) h by (intro exI conjI) (auto simp del: jfield.simps)
      then show ?thesis by blast
    qed (simp add: h)
  next
    case DropProfile
    then have h: "held_profile d' = (held_profile d)(j := None)" "op = ''discovery.profile.delete''" using o(5,6) by simp_all
    show ?thesis
    proof (cases "i = j")
      case True
      then have "owner_change c i (DRequest n relay pick now route) d d'"
        unfolding owner_change_def using o(1-4) h by (intro exI conjI) (auto simp del: jfield.simps)
      then show ?thesis by blast
    qed (simp add: h)
  qed (use o(5) in simp_all)
qed

lemma step_owner:
  assumes "discovery_inv c (ds_index s)"
  shows "rel_option same_profile (held_profile (ds_index s) i) (held_profile (ds_index (service_step c frac_of fl e s)) i)
    \<or> owner_change c i e (ds_index s) (ds_index (service_step c frac_of fl e s))"
proof -
  have refl: "rel_option same_profile x x" for x by (simp add: option.rel_refl same_profile_age(2))
  show ?thesis using assms
  proof (cases rule: discovery_step_cases [where e = e and frac_of = frac_of and fl = fl])
    case (request n relay pick now route d d' q)
    have same: "rel_option same_profile (held_profile (ds_index s) i) (held_profile d i)" "newest_issued d = newest_issued (ds_index s)"
      unfolding request(3) by (rule discovery_ensureLoaded_inv(6,5) [OF assms])+
    have "ds_index (service_step c frac_of fl e s) = d'" using request(7) by simp
    then show ?thesis
      using change_owner [OF request(4-6), of i n] same request(1) unfolding owner_change_def by auto
  qed (simp_all add: refl)
qed

lemma profile_shown:
  assumes "discovery_inv c (ds_index s)" "held_profile (ds_index s) i = Some p"
  shows "profile_signed c p" "sp_identityId p = i"
    "snd (discovery_step c frac_of fl (DRequest m relay pick now (GetProfile i)) s) = Some (ProfileFound (publicProfile relay p))"
proof -
  obtain w where w: "jm_get (di_storage (ds_index s)) (''profile:'' @ i) = Some (DProfile w)" "profile_of w = Some p"
    using assms(2) by (auto simp: held_profile_def split: option.splits discovery_entry.splits)
  then have "dentry_ok c (''profile:'' @ i) (DProfile w)" using assms(1) by (simp add: discovery_inv_def)
  then obtain q where q: "w = profile_value q" "sp_identityId q = i" "profile_ok q" "profile_signed c q" "id_hex i" by (auto simp: dentry_ok_def)
  then show "profile_signed c p" "sp_identityId p = i" using w(2) profile_of_value by auto
  let ?d = "discovery_ensureLoaded frac_of now (ds_index s)"
  note l = discovery_ensureLoaded_inv [OF assms(1), where frac_of = frac_of and now = now]
  obtain p' where p': "held_profile ?d i = Some p'" "same_profile p p'" using l(6) [of i] assms(2) by (auto simp: rel_option_iff split: option.splits)
  have "jm_get (di_profiles ?d) i = Some p'" using l(1,2) p'(1) by (simp add: discovery_inv_def in_memory_def)
  moreover have "publicProfile relay p' = publicProfile relay p" using p'(2) by (auto simp: same_profile_def publicProfile_def)
  moreover have "i \<noteq> []" using q(5) by (auto simp: id_hex_def)
  ultimately show "snd (discovery_step c frac_of fl (DRequest m relay pick now (GetProfile i)) s) = Some (ProfileFound (publicProfile relay p))"
    by (simp add: Let_def handleProfileGet_def reply_of_def)
qed

text \<open>
  C17. A profile belongs to its identity. From a state that arose from any events, no event changes or
  removes the profile of an identity beside the time it was first seen, except a request that
  this identity has signed for just that operation and that is newer than all before; every profile the
  service shows was signed by its identity; and a saved profile shows exactly the fields signed, the
  biography cut to 160 characters, also after a restart.
\<close>

theorem profile_only_by_owner:
  assumes "s = run_events (service_step c frac_of fl) es new_service"
  shows "(rel_option same_profile (held_profile (ds_index s) i) (held_profile (ds_index (service_step c frac_of fl e s)) i)
      \<or> (\<exists>n relay pick now route op body t. e = DRequest n relay pick now route \<and> route_op route = Some (op, Some (JObj body))
          \<and> op \<in> {''discovery.profile.upsert'', ''discovery.profile.delete''} \<and> signed_request c op i body now
          \<and> jfield body ''issuedAt'' = Some (JNum t) \<and> (\<forall>u. newest_issued (ds_index s) i = Some u \<longrightarrow> u < t)
          \<and> (case held_profile (ds_index (service_step c frac_of fl e s)) i of
               None \<Rightarrow> op = ''discovery.profile.delete''
             | Some p \<Rightarrow> op = ''discovery.profile.upsert'' \<and> p = profile_from body i (sp_firstSeenAt p))))
    \<and> (held_profile (ds_index s) i = Some p \<longrightarrow> profile_signed c p \<and> sp_identityId p = i
        \<and> snd (discovery_step c frac_of fl (DRequest m relay pick now (GetProfile i)) s) = Some (ProfileFound (publicProfile relay p)))"
proof -
  have inv: "discovery_inv c (ds_index s)"
    unfolding assms using service_run_inv [OF new_service_inv] by (simp add: service_inv_def)
  note shown = profile_shown [OF inv]
  show ?thesis
    by (intro conjI impI step_owner [OF inv, unfolded owner_change_def]) (erule shown)+
qed

section \<open>The rate of matches\<close>

text \<open>The identity and time of a match request that was let through.\<close>

definition match_started :: "crypto \<Rightarrow> (string \<Rightarrow> rat) \<Rightarrow> (rat \<Rightarrow> rat) \<Rightarrow> discovery_event \<Rightarrow> discovery_service \<Rightarrow> (string \<times> int) option" where
  "match_started c frac_of fl e s =
     (case e of
        DRequest n relay pick now (PostRandomMatch (Some (JObj body))) \<Rightarrow>
          (case (jfield body ''identityId'', snd (discovery_step c frac_of fl e s)) of
             (Some (JStr i), None) \<Rightarrow> Some (i, now)
           | (Some (JStr i), Some NoCandidates) \<Rightarrow> Some (i, now)
           | _ \<Rightarrow> None)
      | _ \<Rightarrow> None)"

fun request_times :: "discovery_event list \<Rightarrow> int list" where
  "request_times [] = []"
| "request_times (DRequest n relay pick now route # es) = now # request_times es"
| "request_times (_ # es) = request_times es"

abbreviation recent_matches :: "int \<Rightarrow> int list \<Rightarrow> int list" where
  "recent_matches now ts \<equiv> filter (\<lambda>t. t > now - MATCH_RATE_WINDOW_MS) ts"

definition match_window :: "int \<Rightarrow> int list \<Rightarrow> int list" where
  "match_window t ts = filter (\<lambda>x. t - MATCH_RATE_WINDOW_MS < x \<and> x \<le> t) ts"

lemma match_window_append:
  assumes "length (match_window t ts) \<le> n" "length (recent_matches now ts) < n" "\<forall>x \<in> set ts. x \<le> now"
  shows "length (match_window t (ts @ [now])) \<le> n"
proof (cases "t - MATCH_RATE_WINDOW_MS < now \<and> now \<le> t")
  case True
  have "length (match_window t ts) \<le> length (recent_matches now ts)" unfolding match_window_def using True by (induction ts) auto
  then show ?thesis using assms(2) by (simp add: match_window_def)
qed (use assms(1) in \<open>auto simp: match_window_def\<close>)

definition requests_of :: "discovery \<Rightarrow> string \<Rightarrow> int list" where
  "requests_of d i = (case held_requests d i of None \<Rightarrow> [] | Some ts \<Rightarrow> ts)"

text \<open>The record of an identity agrees with the matches \<open>ts\<close> it was granted up to \<open>now\<close>.\<close>

definition rate_agrees :: "int \<Rightarrow> int list \<Rightarrow> int list \<Rightarrow> bool" where
  "rate_agrees now r ts \<longleftrightarrow> (\<forall>t \<ge> now. recent_matches t r = recent_matches t ts) \<and> (\<forall>x \<in> set ts. x \<le> now)
     \<and> (\<forall>t. length (match_window t ts) \<le> MATCH_RATE_LIMIT)"

lemma rate_agrees_later: "rate_agrees now r ts \<Longrightarrow> now \<le> now' \<Longrightarrow> rate_agrees now' r ts"
  by (fastforce simp: rate_agrees_def)

lemma rate_agrees_add:
  assumes "rate_agrees now r ts" "length (recent_matches now r) < MATCH_RATE_LIMIT"
  shows "rate_agrees now (recent_matches now r @ [now]) (ts @ [now])"
proof -
  have "recent_matches t (recent_matches now r @ [now]) = recent_matches t (ts @ [now])" if "now \<le> t" for t
  proof -
    have "recent_matches t (recent_matches now r) = recent_matches t r" using that by (auto intro!: filter_cong)
    also have "\<dots> = recent_matches t ts" using assms(1) that unfolding rate_agrees_def by blast
    finally show ?thesis by (simp only: filter_append)
  qed
  moreover have "length (match_window t (ts @ [now])) \<le> MATCH_RATE_LIMIT" for t
    using assms by (intro match_window_append) (auto simp: rate_agrees_def)
  moreover have "\<forall>x \<in> set (ts @ [now]). x \<le> now" using assms(1) by (simp add: rate_agrees_def)
  ultimately show ?thesis unfolding rate_agrees_def by blast
qed

lemma step_requests:
  assumes "discovery_inv c (ds_index s)"
  shows "(match_started c frac_of fl e s = None \<and> requests_of (ds_index (service_step c frac_of fl e s)) = requests_of (ds_index s))
    \<or> (\<exists>j now. match_started c frac_of fl e s = Some (j, now) \<and> request_times [e] = [now]
        \<and> length (recent_matches now (requests_of (ds_index s) j)) < MATCH_RATE_LIMIT
        \<and> requests_of (ds_index (service_step c frac_of fl e s)) = (requests_of (ds_index s))(j := recent_matches now (requests_of (ds_index s) j) @ [now]))"
  using assms
proof (cases rule: discovery_step_cases [where e = e and frac_of = frac_of and fl = fl])
  case (request n relay pick now route d d' q)
  have same: "requests_of d = requests_of (ds_index s)" unfolding request(3) requests_of_def by (simp add: discovery_ensureLoaded_inv(4) [OF assms])
  have idx: "ds_index (service_step c frac_of fl e s) = d'" and rep: "snd (discovery_step c frac_of fl e s) = reply_of q" using request(7) by simp_all
  have mem: "jm_get_or (di_matchRequests d) j [] = requests_of d j" for j
    using request(4,5) by (simp add: discovery_inv_def in_memory_def jm_get_or_def requests_of_def)
  have quiet: "match_started c frac_of fl e s = None" if "q = Inl r" "no_match r" for r
    using that rep by (auto simp: match_started_def request(1) reply_of_def no_match_def split: discovery_route.splits option.splits jval.splits discovery_reply.splits simp del: discovery_step.simps jfield.simps)
  show ?thesis
  proof (cases "authorized c now route d")
    case None
    then show ?thesis using fetch_ok [OF request(4-6)] same idx quiet by (auto simp: fetch_outcome_ok_def)
  next
    case (Some w)
    obtain j m where w: "authorized c now route d = Some (j, m)" using Some by (cases w) auto
    obtain op body ch where o: "route_op route = Some (op, Some (JObj body))" "jfield body ''identityId'' = Some (JStr j)"
      "d' = apply_change j ch (set_issued j m d)" "change_ok c now op body j d ch"
      "case ch of AddRequest t \<Rightarrow> (\<exists>ex ins ls. match_asked body ex ins ls \<and> q = match_next pick d' (new_run j now ex ins ls)) | _ \<Rightarrow> (\<exists>r. q = Inl r \<and> no_match r)"
      using fetch_ok [OF request(4-6)] unfolding fetch_outcome_ok_def w by (auto simp del: jfield.simps)
    show ?thesis
    proof (cases "\<exists>t. ch = AddRequest t")
      case False
      then have "requests_of d' = requests_of d" using o(3,4) valid_profile_ok by (cases ch) (auto simp: requests_of_def fun_eq_iff)
      moreover have "\<exists>r. q = Inl r \<and> no_match r" using o(5) False by (cases ch) auto
      ultimately show ?thesis using quiet same idx by auto
    next
      case True
      then have ch: "ch = AddRequest now" "op = ''discovery.random-match''" using o(4) by auto
      then have r: "route = PostRandomMatch (Some (JObj body))" using o(1) by (cases route) auto
      obtain ex ins ls where "q = match_next pick d' (new_run j now ex ins ls)" using o(5) ch by auto
      then have "reply_of q = None \<or> reply_of q = Some NoCandidates"
        by (auto simp: reply_of_def match_next_def match_result_def new_run_def)
      then have st: "match_started c frac_of fl e s = Some (j, now)"
        using rep o(2) by (auto simp: match_started_def request(1) r simp del: discovery_step.simps jfield.simps)
      have i: "di_matchRequests (set_issued j m d) = di_matchRequests d" by (simp add: set_issued_def)
      have "requests_of d' = (requests_of d)(j := recent_matches now (requests_of d j) @ [now])"
        using o(3) ch(1) by (auto simp: requests_of_def fun_eq_iff i mem [unfolded requests_of_def])
      moreover have "length (recent_matches now (requests_of d j)) < MATCH_RATE_LIMIT" using o(4) ch mem by simp
      ultimately show ?thesis using st same idx request(1) by simp
    qed
  qed
qed (auto simp: match_started_def requests_of_def split: option.splits)

lemma run_requests:
  assumes "discovery_inv c (ds_index s)" "sorted (now # request_times es)" "rate_agrees now (requests_of (ds_index s) i) ts"
  shows "\<exists>now'. rate_agrees now' (requests_of (ds_index (run_events (service_step c frac_of fl) es s)) i)
    (ts @ issued_times i (writes (match_started c frac_of fl) (service_step c frac_of fl) es s))"
  using assms
proof (induction es arbitrary: s now ts)
  case (Cons e es)
  note inv = discovery.ok_step [OF Cons.prems(1), of frac_of fl e]
  obtain now1 where now1: "now \<le> now1" "sorted (now1 # request_times es)" "\<And>t. request_times [e] = [t] \<Longrightarrow> now1 = t"
    using Cons.prems(2) by (cases e) auto
  have later: "rate_agrees now1 (requests_of (ds_index s) i) ts" by (rule rate_agrees_later [OF Cons.prems(3) now1(1)])
  show ?case
  proof (cases "\<exists>t. match_started c frac_of fl e s = Some (i, t)")
    case True
    then obtain t where t: "match_started c frac_of fl e s = Some (i, t)" by blast
    then have r: "now1 = t" "length (recent_matches t (requests_of (ds_index s) i)) < MATCH_RATE_LIMIT"
      "requests_of (ds_index (service_step c frac_of fl e s)) i = recent_matches t (requests_of (ds_index s) i) @ [t]"
      using step_requests [OF Cons.prems(1), of frac_of fl e] now1(3) by auto
    have "rate_agrees now1 (requests_of (ds_index (service_step c frac_of fl e s)) i) (ts @ [t])"
      using rate_agrees_add [OF later] r by simp
    from Cons.IH [OF inv now1(2) this] t show ?thesis by simp
  next
    case False
    then have "requests_of (ds_index (service_step c frac_of fl e s)) i = requests_of (ds_index s) i"
      "issued_times i (case match_started c frac_of fl e s of None \<Rightarrow> [] | Some w \<Rightarrow> [w]) = []"
      using step_requests [OF Cons.prems(1), of frac_of fl e] by auto
    then show ?thesis using Cons.IH [OF inv now1(2), of ts] later by simp
  qed
qed auto

text \<open>
  C18. Random matches are rationed: over any events in the order of their times, restarts included,
  no identity is granted more than five matches in any minute, wherever the minute lies.
\<close>

theorem match_rate_limited:
  assumes "sorted (request_times es)"
  shows "length (filter (\<lambda>x. t - 60000 < x \<and> x \<le> t)
    (issued_times i (writes (match_started c frac_of fl) (service_step c frac_of fl) es new_service))) \<le> 5"
proof -
  obtain now where now: "sorted (now # request_times es)" using assms by (cases "request_times es") (auto simp: exI [of _ 0])
  have "requests_of (ds_index new_service) i = []" by (simp add: requests_of_def held_requests_def new_service_def new_discovery_def)
  then have "rate_agrees now (requests_of (ds_index new_service) i) []" by (simp add: rate_agrees_def match_window_def)
  from run_requests [OF _ now this, of c frac_of fl] show ?thesis
    using new_service_inv [of c] by (auto simp: service_inv_def rate_agrees_def match_window_def MATCH_RATE_WINDOW_MS_def MATCH_RATE_LIMIT_def)
qed

section \<open>A match from beginning to end\<close>

definition demo_interests :: "(string \<times> jval) list" where
  "demo_interests = [(''username'', JStr ''ann''), (''interests'', JArr [JStr ''go''])]"

definition demo_save :: discovery_event where
  "demo_save = DRequest 0 None (\<lambda>m. 0) 60 (PostProfile (Some (JObj (demo_signed 8 ''discovery.profile.upsert'' 50 demo_interests))))"

definition demo_match :: discovery_event where
  "demo_match = DRequest 1 None (\<lambda>m. 0) 60 (PostRandomMatch (Some (JObj (demo_signed 9 ''discovery.random-match'' 50
     [(''interests'', JArr [JStr ''Go'']), (''languages'', JArr [])]))))"

definition demo_answer :: discovery_event where
  "demo_answer = DAnswer 1 (Some (\<lambda>i. Some (200, Some (JObj [(''identityId'', JStr i), (''online'', JBool True)])))) (\<lambda>m. 0)"

definition demo_ann :: stored_profile where
  "demo_ann = \<lparr>sp_identityId = toHex (replicate 32 8), sp_username = ''ann'', sp_bio = None, sp_interests = [''go''], sp_languages = [], sp_firstSeenAt = JNum 60\<rparr>"

definition demo_saved :: discovery where
  "demo_saved = put_profile (toHex (replicate 32 8)) demo_ann (set_issued (toHex (replicate 32 8)) 50 (new_discovery\<lparr>di_loaded := True\<rparr>))"

definition demo_run :: match_run where
  "demo_run = \<lparr>mr_identityId = toHex (replicate 32 9), mr_exclude = [toHex (replicate 32 9)], mr_interests = [''go''], mr_languages = [],
     mr_now = 60, mr_position = 1, mr_profile = demo_ann, mr_candidates = []\<rparr>"

lemma demo_ids: "toHex (replicate 32 8) \<noteq> toHex (replicate 32 (9 :: byte))"
  by (simp add: toHex_inj)

lemma new_loaded: "discovery_ensureLoaded frac_of now new_discovery = new_discovery\<lparr>di_loaded := True\<rparr>"
  by (simp add: discovery_ensureLoaded_def new_discovery_def storage_list_def)

lemma demo_fresh: "isFreshIssuedAt (Some (JNum 50)) 60"
  by (simp add: isFreshIssuedAt_def safe_int_def IDENTITY_AUTH_MAX_SKEW_MS_def)

definition demo_profile :: "byte \<Rightarrow> stored_profile" where
  "demo_profile b = \<lparr>sp_identityId = toHex (replicate 32 b), sp_username = ''ann'', sp_bio = None, sp_interests = [''go''], sp_languages = [], sp_firstSeenAt = JNum 60\<rparr>"

lemma demo_upsert:
  assumes "jm_get (di_lastIssuedAt d) (toHex (replicate 32 b)) = None" "jm_get (di_profiles d) (toHex (replicate 32 b)) = None"
  shows "handleProfileUpsert sample_crypto None 60 (Some (JObj (demo_signed b ''discovery.profile.upsert'' 50 demo_interests))) d
    = (put_profile (toHex (replicate 32 b)) (demo_profile b) (set_issued (toHex (replicate 32 b)) 50 d), ProfileSaved (publicProfile None (demo_profile b)))"
proof -
  let ?body = "demo_signed b ''discovery.profile.upsert'' 50 demo_interests"
  have fs: "map (\<lambda>(k, v). (k, json_normal v)) demo_interests = demo_interests" "''auth'' \<notin> fst ` set demo_interests"
    "\<And>u. jm_get (di_lastIssuedAt d) (toHex (replicate 32 b)) = Some u \<Longrightarrow> u < 50"
    using assms(1) by (simp_all add: demo_interests_def)
  note a = demo_authorized [where b = b and operation = "''discovery.profile.upsert''" and n = 50 and fs = demo_interests and d = d,
      OF fs(1,2) demo_fresh fs(3)]
  have keys: "\<not> list_ex (\<lambda>(k, v). k \<notin> set PROFILE_KEYS) ?body"
    using a(3) by (force simp: list_ex_iff PROFILE_KEYS_def demo_interests_def)
  have ev: "jfield demo_interests ''username'' = Some (JStr ''ann'')" "jfield demo_interests ''bio'' = None"
    "jfield demo_interests ''interests'' = Some (JArr [JStr ''go''])" "jfield demo_interests ''languages'' = None"
    by (simp_all add: demo_interests_def)
  have f: "jfield ?body ''username'' = Some (JStr ''ann'')" "jfield ?body ''bio'' = None" "jfield ?body ''interests'' = Some (JArr [JStr ''go''])"
    "jfield ?body ''languages'' = None"
    using a(2) [of "''username''"] a(2) [of "''bio''"] a(2) [of "''interests''"] a(2) [of "''languages''"] ev by (simp_all del: jfield.simps)
  have "validProfileFields ?body" by (simp add: validProfileFields_def f js_trim_def js_ws_def del: jfield.simps)
  moreover have "profile_from ?body (toHex (replicate 32 b)) (JNum 60) = demo_profile b"
    by (simp add: profile_from_def f text_list_def demo_profile_def del: jfield.simps toHex_simps)
  moreover have "jm_get (di_profiles (set_issued (toHex (replicate 32 b)) 50 d)) (toHex (replicate 32 b)) = None"
    using assms(2) by (simp add: set_issued_def)
  ultimately show ?thesis
    using a(1) keys by (simp add: handleProfileUpsert_def Let_def put_profile_def del: toHex_simps)
qed

lemma demo_save_step:
  "discovery_step sample_crypto frac_of fl demo_save new_service = (\<lparr>ds_index = demo_saved, ds_runs = []\<rparr>, Some (ProfileSaved (publicProfile None demo_ann)))"
proof -
  have "demo_profile 8 = demo_ann" by (simp add: demo_profile_def demo_ann_def)
  then have "handleProfileUpsert sample_crypto None 60 (Some (JObj (demo_signed 8 ''discovery.profile.upsert'' 50 demo_interests))) (new_discovery\<lparr>di_loaded := True\<rparr>)
      = (demo_saved, ProfileSaved (publicProfile None demo_ann))"
    using demo_upsert [of "new_discovery\<lparr>di_loaded := True\<rparr>" 8] by (simp add: demo_saved_def new_discovery_def del: toHex_simps)
  then show ?thesis
    by (simp add: demo_save_def new_service_def new_loaded keep_run_def move_runs_def jm_del_def reply_of_def)
qed

definition demo_matching :: discovery where
  "demo_matching = put_requests (toHex (replicate 32 9)) [60] (set_issued (toHex (replicate 32 9)) 50 demo_saved)"

lemma demo_ask:
  assumes "jm_get (di_lastIssuedAt d) (toHex (replicate 32 9)) = None" "di_matchRequests d = []"
  shows "handleRandomMatch sample_crypto pick 60 (Some (JObj (demo_signed 9 ''discovery.random-match'' 50 [(''interests'', JArr [JStr ''Go'']), (''languages'', JArr [])]))) d
    = (let d' = put_requests (toHex (replicate 32 9)) [60] (set_issued (toHex (replicate 32 9)) 50 d)
       in (d', match_next pick d' (new_run (toHex (replicate 32 9)) 60 [] [''Go''] [])))"
proof -
  define fs where "fs = [(''interests'', JArr [JStr ''Go'']), (''languages'', JArr [])]"
  let ?body = "demo_signed 9 ''discovery.random-match'' 50 fs"
  have fs: "map (\<lambda>(k, v). (k, json_normal v)) fs = fs" "''auth'' \<notin> fst ` set fs"
    "\<And>u. jm_get (di_lastIssuedAt d) (toHex (replicate 32 9)) = Some u \<Longrightarrow> u < 50"
    using assms(1) by (simp_all add: fs_def)
  note a = demo_authorized [where b = 9 and operation = "''discovery.random-match''" and n = 50 and fs = fs and d = d, OF fs(1,2) demo_fresh fs(3)]
  have ev: "jfield fs ''interests'' = Some (JArr [JStr ''Go''])" "jfield fs ''languages'' = Some (JArr [])" "jfield fs ''exclude'' = None"
    by (simp_all add: fs_def)
  have f: "jfield ?body ''interests'' = Some (JArr [JStr ''Go''])" "jfield ?body ''languages'' = Some (JArr [])" "jfield ?body ''exclude'' = None"
    using a(2) [of "''interests''"] a(2) [of "''languages''"] a(2) [of "''exclude''"] ev by (simp_all del: jfield.simps)
  have sl: "isStringList (JArr [JStr ''Go''])" "isStringList (JArr [])" by (simp_all add: js_trim_def js_ws_def)
  have r: "di_matchRequests (set_issued (toHex (replicate 32 9)) 50 d) = []" using assms(2) by (simp add: set_issued_def)
  show ?thesis
    unfolding fs_def [symmetric] using a(1) f sl
    by (simp add: handleRandomMatch_def exclude_list_def r jm_get_or_def MATCH_RATE_LIMIT_def Let_def put_requests_def del: toHex_simps jfield.simps isStringList.simps)
qed

lemma demo_lower: "js_lower ''Go'' = ''go''" "js_lower ''go'' = ''go''"
  by code_simp+

lemma demo_match_step:
  "discovery_step sample_crypto frac_of fl demo_match \<lparr>ds_index = demo_saved, ds_runs = []\<rparr> = (\<lparr>ds_index = demo_matching, ds_runs = [(1, demo_run)]\<rparr>, None)"
proof -
  have d: "di_matchRequests demo_saved = []" "jm_get (di_lastIssuedAt demo_saved) (toHex (replicate 32 9)) = None"
    using demo_ids by (simp_all add: demo_saved_def put_profile_def set_issued_def new_discovery_def jm_get_set del: toHex_simps)
  have "di_profiles demo_matching = [(toHex (replicate 32 8), demo_ann)]"
    by (simp add: demo_matching_def demo_saved_def put_requests_def put_profile_def set_issued_def new_discovery_def jm_set_def)
  then have n: "match_next pick demo_matching (new_run (toHex (replicate 32 9)) 60 [] [''Go''] []) = Inr demo_run" for pick
    by (simp add: match_next_def new_run_def demo_run_def demo_lower set_add_def del: toHex_simps)
  moreover have "discovery_ensureLoaded frac_of 60 demo_saved = demo_saved"
    by (simp add: discovery_ensureLoaded_def demo_saved_def put_profile_def set_issued_def)
  ultimately show ?thesis
    by (simp add: demo_match_def demo_ask [OF d(2,1)] Let_def demo_matching_def [symmetric] keep_run_def move_runs_def jm_set_def reply_of_def del: toHex_simps)
qed

lemma demo_answer_step:
  "snd (discovery_step sample_crypto frac_of fl demo_answer \<lparr>ds_index = demo_matching, ds_runs = [(1, demo_run)]\<rparr>) = Some (MatchFound demo_ann 1)"
proof -
  have p: "di_profiles demo_matching = [(toHex (replicate 32 8), demo_ann)]" "di_blocks demo_matching = []"
    by (simp_all add: demo_matching_def demo_saved_def put_requests_def put_profile_def set_issued_def new_discovery_def jm_set_def)
  have "eligible (Some True) demo_matching demo_run demo_ann"
    using demo_ids by (simp add: eligible_def demo_run_def demo_ann_def p jm_get_or_def overlap_def js_lower_def js_lower_char_def del: toHex_simps)
  then show ?thesis
    by (simp add: demo_answer_def jm_get_def match_resume_def match_visit_def match_next_def p match_result_def top_candidates_def relayOnline_def
        demo_run_def reply_of_def Let_def)
qed

lemma demo_picks: "picks_ok [demo_save, demo_match, demo_answer]"
  by (auto simp: picks_ok_def demo_save_def demo_match_def demo_answer_def)

theorem match_sound_witness:
  "snd (discovery_step sample_crypto (\<lambda>s. 0) id demo_answer (run_events (service_step sample_crypto (\<lambda>s. 0) id) [demo_save, demo_match] new_service))
     = Some (MatchFound demo_ann 1)
   \<and> profile_signed sample_crypto demo_ann"
proof -
  have found: "snd (discovery_step sample_crypto (\<lambda>s. 0) id demo_answer (run_events (service_step sample_crypto (\<lambda>s. 0) id) [demo_save, demo_match] new_service))
     = Some (MatchFound demo_ann 1)"
    using demo_save_step [of "\<lambda>s. 0" id] demo_match_step [of "\<lambda>s. 0" id] demo_answer_step [of "\<lambda>s. 0" id] by (simp del: discovery_step.simps)
  then show ?thesis using match_sound [OF _ found [unfolded demo_answer_def]] by (auto simp del: discovery_step.simps)
qed

definition demo_block :: "int \<Rightarrow> (string \<times> jval) list" where
  "demo_block n = demo_signed 9 ''discovery.block'' n [(''blockedIdentityId'', JStr (toHex (replicate 32 8)))]"

lemma demo_blocked:
  assumes "isFreshIssuedAt (Some (JNum n)) 60" "\<And>u. jm_get (di_lastIssuedAt d) (toHex (replicate 32 9)) = Some u \<Longrightarrow> u < n"
  shows "\<exists>bs. handleBlock sample_crypto 60 (Some (JObj (demo_block n))) d
      = (put_blocks (toHex (replicate 32 9)) bs (set_issued (toHex (replicate 32 9)) n d), BlockStored)"
    "jfield (demo_block n) ''identityId'' = Some (JStr (toHex (replicate 32 9)))"
    "jfield (demo_block n) ''blockedIdentityId'' = Some (JStr (toHex (replicate 32 8)))"
proof -
  define fs where "fs = [(''blockedIdentityId'', JStr (toHex (replicate 32 8)))]"
  have fs: "map (\<lambda>(k, v). (k, json_normal v)) fs = fs" "''auth'' \<notin> fst ` set fs" by (auto simp: fs_def)
  note a = demo_authorized [where b = 9 and operation = "''discovery.block''" and n = n and fs = fs and d = d, OF fs(1,2) assms]
  have b: "demo_block n = demo_signed 9 ''discovery.block'' n fs" by (simp add: demo_block_def fs_def)
  show f: "jfield (demo_block n) ''blockedIdentityId'' = Some (JStr (toHex (replicate 32 8)))"
    using a(2) [of "''blockedIdentityId''"] by (simp add: fs_def b del: toHex_simps)
  show "jfield (demo_block n) ''identityId'' = Some (JStr (toHex (replicate 32 9)))" using a(4) b by simp
  have "length (toHex (replicate 32 (8 :: byte))) = 64" by simp
  then have ne: "toHex (replicate 32 (8 :: byte)) \<noteq> []" by (metis list.size(3) zero_neq_numeral)
  show "\<exists>bs. handleBlock sample_crypto 60 (Some (JObj (demo_block n))) d
      = (put_blocks (toHex (replicate 32 9)) bs (set_issued (toHex (replicate 32 9)) n d), BlockStored)"
    using a(1) f demo_ids ne by (simp add: handleBlock_def b Let_def put_blocks_def del: toHex_simps jfield.simps) blast
qed

theorem blocked_never_matched_witness:
  "\<exists>s'. discovery_step sample_crypto (\<lambda>s. 0) id (DRequest 0 None (\<lambda>m. 0) 60 (PostBlock (Some (JObj (demo_block 50))))) new_service = (s', Some BlockStored)
     \<and> (\<forall>(m, run, p) \<in> set (found_matches sample_crypto (\<lambda>s. 0) id [demo_save, demo_match, demo_answer] s').
          {mr_identityId run, sp_identityId p} \<noteq> {toHex (replicate 32 9), toHex (replicate 32 8)})"
proof -
  let ?d = "new_discovery\<lparr>di_loaded := True\<rparr>"
  have fresh: "\<And>u. jm_get (di_lastIssuedAt ?d) (toHex (replicate 32 9)) = Some u \<Longrightarrow> u < 50" by (simp add: new_discovery_def)
  note b = demo_blocked [OF demo_fresh fresh]
  from b(1) obtain d' where "handleBlock sample_crypto 60 (Some (JObj (demo_block 50))) ?d = (d', BlockStored)" by blast
  then have s': "discovery_step sample_crypto (\<lambda>s. 0) id (DRequest 0 None (\<lambda>m. 0) 60 (PostBlock (Some (JObj (demo_block 50))))) new_service
      = (\<lparr>ds_index = d', ds_runs = []\<rparr>, Some BlockStored)"
    by (simp add: new_service_def new_loaded Let_def reply_of_def move_runs_def keep_run_def jm_del_def)
  from blocked_never_matched [where earlier = "[]" and s = new_service, OF _ s' b(2,3) demo_picks]
  have "\<forall>(m, run, p) \<in> set (found_matches sample_crypto (\<lambda>s. 0) id [demo_save, demo_match, demo_answer] \<lparr>ds_index = d', ds_runs = []\<rparr>).
          {mr_identityId run, sp_identityId p} \<noteq> {toHex (replicate 32 9), toHex (replicate 32 8)}"
    by (simp add: jm_get_def del: toHex_simps discovery_step.simps)
  then show ?thesis using s' by blast
qed

section \<open>A block that comes too late\<close>

definition late_saved :: discovery where
  "late_saved = put_profile (toHex (replicate 32 7)) (demo_profile 7) (set_issued (toHex (replicate 32 7)) 50 demo_saved)"

definition late_matching :: discovery where
  "late_matching = put_requests (toHex (replicate 32 9)) [60] (set_issued (toHex (replicate 32 9)) 50 late_saved)"

definition late_save :: discovery_event where
  "late_save = DRequest 0 None (\<lambda>m. 0) 60 (PostProfile (Some (JObj (demo_signed 7 ''discovery.profile.upsert'' 50 demo_interests))))"

lemma late_ids: "toHex (replicate 32 7) \<noteq> toHex (replicate 32 (8 :: byte))" "toHex (replicate 32 7) \<noteq> toHex (replicate 32 (9 :: byte))"
  by (simp_all add: toHex_inj)

lemma late_parts:
  "di_loaded late_saved" "di_matchRequests late_saved = []" "jm_get (di_lastIssuedAt late_saved) (toHex (replicate 32 9)) = None"
  "di_loaded late_matching" "di_profiles late_matching = [(toHex (replicate 32 8), demo_ann), (toHex (replicate 32 7), demo_profile 7)]"
  "di_blocks late_matching = []" "jm_get (di_lastIssuedAt late_matching) (toHex (replicate 32 9)) = Some 50"
  using demo_ids late_ids
  by (simp_all add: late_matching_def late_saved_def demo_saved_def put_requests_def put_profile_def set_issued_def new_discovery_def jm_set_def jm_get_set jm_get_def jm_has_def del: toHex_simps)

lemma late_save_step:
  "service_step sample_crypto frac_of fl late_save \<lparr>ds_index = demo_saved, ds_runs = []\<rparr> = \<lparr>ds_index = late_saved, ds_runs = []\<rparr>"
proof -
  have "jm_get (di_lastIssuedAt demo_saved) (toHex (replicate 32 7)) = None" "jm_get (di_profiles demo_saved) (toHex (replicate 32 7)) = None"
    using late_ids by (simp_all add: demo_saved_def put_profile_def set_issued_def new_discovery_def jm_get_set del: toHex_simps)
  note u = demo_upsert [OF this]
  have "discovery_ensureLoaded frac_of 60 demo_saved = demo_saved"
    by (simp add: discovery_ensureLoaded_def demo_saved_def put_profile_def set_issued_def)
  then show ?thesis by (simp add: late_save_def u Let_def late_saved_def [symmetric] keep_run_def move_runs_def jm_del_def)
qed

lemma late_match_step:
  "service_step sample_crypto frac_of fl demo_match \<lparr>ds_index = late_saved, ds_runs = []\<rparr> = \<lparr>ds_index = late_matching, ds_runs = [(1, demo_run)]\<rparr>"
proof -
  have "match_next pick late_matching (new_run (toHex (replicate 32 9)) 60 [] [''Go''] []) = Inr demo_run" for pick
    by (simp add: match_next_def late_parts new_run_def demo_run_def demo_lower set_add_def del: toHex_simps)
  moreover have "discovery_ensureLoaded frac_of 60 late_saved = late_saved" using late_parts(1) by (simp add: discovery_ensureLoaded_def)
  ultimately show ?thesis
    by (simp add: demo_match_def demo_ask [OF late_parts(3,2)] Let_def late_matching_def [symmetric] keep_run_def move_runs_def jm_set_def del: toHex_simps)
qed

lemma late_collected:
  "\<exists>score. service_step sample_crypto frac_of fl demo_answer \<lparr>ds_index = late_matching, ds_runs = [(1, demo_run)]\<rparr>
     = \<lparr>ds_index = late_matching, ds_runs = [(1, demo_run\<lparr>mr_candidates := [(demo_ann, score)], mr_profile := demo_profile 7, mr_position := 2\<rparr>)]\<rparr>"
proof -
  have "eligible (Some True) late_matching demo_run demo_ann"
    using demo_ids by (simp add: eligible_def demo_run_def demo_ann_def late_parts jm_get_or_def overlap_def demo_lower del: toHex_simps)
  then show ?thesis
    by (simp add: demo_answer_def jm_get_def match_resume_def match_visit_def match_next_def late_parts relayOnline_def demo_run_def keep_run_def jm_set_def jm_has_def Let_def) 
qed

text \<open>
  C15. A block can come too late for a match under way. The service checks the blocks when it looks at a
  profile and not again when it replies: there is a sequence of requests in which the service accepts and
  stores the block of one identity by another, and then, to an answer of the relay about a third profile,
  replies to a match of the blocker with the blocked profile.
\<close>

theorem block_too_late:
  "\<exists>earlier s s' body a p relay pick. s = run_events (service_step sample_crypto (\<lambda>s. 0) id) earlier new_service
     \<and> discovery_step sample_crypto (\<lambda>s. 0) id (DRequest 2 None (\<lambda>m. 0) 60 (PostBlock (Some (JObj body)))) s = (s', Some BlockStored)
     \<and> jfield body ''identityId'' = Some (JStr a) \<and> jfield body ''blockedIdentityId'' = Some (JStr (sp_identityId p))
     \<and> (\<exists>run. jm_get (ds_runs s') 1 = Some run \<and> mr_identityId run = a)
     \<and> snd (discovery_step sample_crypto (\<lambda>s. 0) id (DAnswer 1 relay pick) s') = Some (MatchFound p 1)"
proof -
  let ?step = "service_step sample_crypto (\<lambda>s. 0) id"
  obtain score where col: "?step demo_answer \<lparr>ds_index = late_matching, ds_runs = [(1, demo_run)]\<rparr>
     = \<lparr>ds_index = late_matching, ds_runs = [(1, demo_run\<lparr>mr_candidates := [(demo_ann, score)], mr_profile := demo_profile 7, mr_position := 2\<rparr>)]\<rparr>"
    using late_collected by blast
  define run where "run = demo_run\<lparr>mr_candidates := [(demo_ann, score)], mr_profile := demo_profile 7, mr_position := 2\<rparr>"
  have s: "run_events ?step [demo_save, late_save, demo_match, demo_answer] new_service = \<lparr>ds_index = late_matching, ds_runs = [(1, run)]\<rparr>"
    using demo_save_step [of "\<lambda>s. 0" id] late_save_step [of "\<lambda>s. 0" id] late_match_step [of "\<lambda>s. 0" id] col
    by (simp add: run_def del: discovery_step.simps)
  have fresh: "isFreshIssuedAt (Some (JNum 51)) 60" by (simp add: isFreshIssuedAt_def safe_int_def IDENTITY_AUTH_MAX_SKEW_MS_def)
  have newer: "\<And>u. jm_get (di_lastIssuedAt late_matching) (toHex (replicate 32 9)) = Some u \<Longrightarrow> u < 51" by (simp add: late_parts del: toHex_simps)
  note b = demo_blocked [OF fresh newer]
  from b(1) obtain bs where bs: "handleBlock sample_crypto 60 (Some (JObj (demo_block 51))) late_matching
      = (put_blocks (toHex (replicate 32 9)) bs (set_issued (toHex (replicate 32 9)) 51 late_matching), BlockStored)" by blast
  define d where "d = put_blocks (toHex (replicate 32 9)) bs (set_issued (toHex (replicate 32 9)) 51 late_matching)"
  have d: "di_profiles d = di_profiles late_matching" by (simp add: d_def put_blocks_def set_issued_def)
  have pos: "map_position (di_profiles late_matching) (di_profiles d) 2 = 2" by (simp add: d map_position_def late_parts jm_has_def)
  have loaded: "discovery_ensureLoaded (\<lambda>s. 0) 60 late_matching = late_matching" using late_parts(4) by (simp add: discovery_ensureLoaded_def)
  have "move_runs late_matching d [(1, run)] = [(1, run)]" using pos by (simp add: move_runs_def run_def)
  then have block: "discovery_step sample_crypto (\<lambda>s. 0) id (DRequest 2 None (\<lambda>m. 0) 60 (PostBlock (Some (JObj (demo_block 51))))) \<lparr>ds_index = late_matching, ds_runs = [(1, run)]\<rparr>
      = (\<lparr>ds_index = d, ds_runs = [(1, run)]\<rparr>, Some BlockStored)"
    using bs by (simp add: loaded d_def [symmetric] Let_def keep_run_def jm_del_def reply_of_def)
  have "\<not> eligible None d run (demo_profile 7)" by (simp add: eligible_def)
  then have found: "snd (discovery_step sample_crypto (\<lambda>s. 0) id (DAnswer 1 None (\<lambda>m. 0)) \<lparr>ds_index = d, ds_runs = [(1, run)]\<rparr>) = Some (MatchFound demo_ann 1)"
    by (simp add: jm_get_def match_resume_def match_visit_def match_next_def match_result_def top_candidates_def relayOnline_def d late_parts run_def reply_of_def Let_def)
  have who: "mr_identityId run = toHex (replicate 32 9)" "sp_identityId demo_ann = toHex (replicate 32 8)" by (simp_all add: run_def demo_run_def demo_ann_def)
  have here: "jm_get (ds_runs \<lparr>ds_index = d, ds_runs = [(1, run)]\<rparr>) 1 = Some run" by (simp add: jm_get_def)
  show ?thesis
    by (rule exI [of _ "[demo_save, late_save, demo_match, demo_answer]"], rule exI [of _ "\<lparr>ds_index = late_matching, ds_runs = [(1, run)]\<rparr>"],
        rule exI [of _ "\<lparr>ds_index = d, ds_runs = [(1, run)]\<rparr>"], rule exI [of _ "demo_block 51"], rule exI [of _ "toHex (replicate 32 9)"],
        rule exI [of _ demo_ann], rule exI [of _ None], rule exI [of _ "\<lambda>m. 0"])
       (intro conjI s [symmetric] block b(2) b(3) [folded who(2)] exI [of _ run] who(1) found here)
qed

theorem match_terminates_witness:
  "discovery_step sample_crypto (\<lambda>s. 0) id demo_match \<lparr>ds_index = demo_saved, ds_runs = []\<rparr> = (\<lparr>ds_index = demo_matching, ds_runs = [(1, demo_run)]\<rparr>, None)
   \<and> (\<exists>reply. snd (discovery_step sample_crypto (\<lambda>s. 0) id demo_answer \<lparr>ds_index = demo_matching, ds_runs = [(1, demo_run)]\<rparr>) = Some reply)"
proof -
  have len: "length ([] @ [Some (\<lambda>i. Some (200, Some (JObj [(''identityId'', JStr i), (''online'', JBool True)])))])
      = length (di_profiles (ds_index \<lparr>ds_index = demo_matching, ds_runs = [(1, demo_run)]\<rparr>))"
    by (simp add: demo_matching_def demo_saved_def put_requests_def put_profile_def set_issued_def new_discovery_def jm_set_def)
  have inv: "discovery_inv sample_crypto (ds_index \<lparr>ds_index = demo_saved, ds_runs = []\<rparr>)"
    using service_step_inv [OF new_service_inv, of sample_crypto "\<lambda>s. 0" id demo_save] demo_save_step [of "\<lambda>s. 0" id] by (simp add: service_inv_def)
  note step = demo_match_step [of "\<lambda>s. 0" id]
  from match_terminates [OF inv step [unfolded demo_match_def] len, of "\<lambda>m. 0"] show ?thesis
    using step by (auto simp: demo_answer_def simp del: discovery_step.simps)
qed

theorem match_rate_limited_witness:
  "writes (match_started sample_crypto (\<lambda>s. 0) id) (service_step sample_crypto (\<lambda>s. 0) id) [demo_save, demo_match] new_service = [(toHex (replicate 32 9), 60)]
   \<and> length (filter (\<lambda>x. 100 - 60000 < x \<and> x \<le> 100) (issued_times (toHex (replicate 32 9))
       (writes (match_started sample_crypto (\<lambda>s. 0) id) (service_step sample_crypto (\<lambda>s. 0) id) [demo_save, demo_match] new_service))) \<le> 5"
proof
  have i: "jfield (demo_signed 9 ''discovery.random-match'' 50 [(''interests'', JArr [JStr ''Go'']), (''languages'', JArr [])]) ''identityId'' = Some (JStr (toHex (replicate 32 9)))"
    by (rule demo_authorized(4) [where d = new_discovery, OF _ _ demo_fresh]) (auto simp: new_discovery_def)
  have m: "match_started sample_crypto (\<lambda>s. 0) id demo_match \<lparr>ds_index = demo_saved, ds_runs = []\<rparr> = Some (toHex (replicate 32 9), 60)"
    using demo_match_step [of "\<lambda>s. 0" id] i unfolding match_started_def demo_match_def by (simp del: discovery_step.simps jfield.simps toHex_simps)
  have "match_started sample_crypto (\<lambda>s. 0) id demo_save new_service = None" by (simp add: match_started_def demo_save_def)
  then show "writes (match_started sample_crypto (\<lambda>s. 0) id) (service_step sample_crypto (\<lambda>s. 0) id) [demo_save, demo_match] new_service = [(toHex (replicate 32 9), 60)]"
    using m demo_save_step [of "\<lambda>s. 0" id] by simp
  show "length (filter (\<lambda>x. 100 - 60000 < x \<and> x \<le> 100) (issued_times (toHex (replicate 32 9))
       (writes (match_started sample_crypto (\<lambda>s. 0) id) (service_step sample_crypto (\<lambda>s. 0) id) [demo_save, demo_match] new_service))) \<le> 5"
    by (rule match_rate_limited) (simp add: demo_save_def demo_match_def)
qed

theorem profile_only_by_owner_witness:
  "held_profile (ds_index (run_events (service_step sample_crypto (\<lambda>s. 0) id) [demo_save] new_service)) (toHex (replicate 32 8)) = Some demo_ann
   \<and> profile_signed sample_crypto demo_ann"
proof -
  have s: "run_events (service_step sample_crypto (\<lambda>s. 0) id) [demo_save] new_service = \<lparr>ds_index = demo_saved, ds_runs = []\<rparr>"
    using demo_save_step [of "\<lambda>s. 0" id] by simp
  have "profile_ok demo_ann" by (simp add: profile_ok_def demo_ann_def js_trim_def js_ws_def)
  then have h: "held_profile (ds_index (run_events (service_step sample_crypto (\<lambda>s. 0) id) [demo_save] new_service)) (toHex (replicate 32 8)) = Some demo_ann"
    unfolding s by (simp add: demo_saved_def)
  then show ?thesis
    using profile_only_by_owner [OF refl, where c = sample_crypto and frac_of = "\<lambda>s. 0" and fl = id and es = "[demo_save]" and i = "toHex (replicate 32 8)" and p = demo_ann
        and e = DEvicted] by blast
qed

end
