(* ===== verification/Presence_Properties.thy ===== *)
theory Presence_Properties
  imports Presence_Service_Inv Discovery_Properties
begin

text \<open>The theorems on the presence service, and what both services promise of signed writes.\<close>

section \<open>Reads\<close>

lemma query_reply:
  assumes "presence_inv c t" "i \<noteq> []"
  shows "snd (snd (tracker_fetch c alive now (presence_app (GetPresence i)) t)) =
    (case held_lease t i of
       None \<Rightarrow> StatusOffline i
     | Some l \<Rightarrow> if pl_expiresAt l \<le> now then StatusOffline i else StatusOnline i (pl_expiresAt l) (pl_relayHint l))"
  using ensureLoaded_inv(6) [OF assms(1)] assms(2)
  by (simp add: tracker_fetch_def Let_def handleQuery_def isExpired_def split: option.splits)

lemma bundle_reply:
  assumes "presence_inv c t" "i \<noteq> []"
  shows "snd (snd (tracker_fetch c alive now (presence_app (GetPrekeys i)) t)) = (case held_bundle t i of None \<Rightarrow> NotFound | Some b \<Rightarrow> PrekeyBundle b)"
  using ensureLoaded_inv(7) [OF assms(1)] assms(2)
  by (simp add: tracker_fetch_def Let_def handlePrekeyGet_def split: option.splits)

lemma held_lease_signed:
  assumes "presence_inv c t" "held_lease t i = Some l"
  shows "lease_signed c l" "pl_identityId l = i"
proof -
  have "jm_get (pt_storage t) (''lease:'' @ i) = Some (SLease l)" using assms(2) by (auto simp: held_lease_def split: option.splits presence_entry.splits)
  then have "entry_ok c (''lease:'' @ i) (SLease l)" using assms(1) by (simp add: presence_inv_def)
  then show "lease_signed c l" "pl_identityId l = i" by (auto simp: entry_ok_def)
qed

lemma held_bundle_signed:
  assumes "presence_inv c t" "held_bundle t i = Some b"
  shows "bundle_signed c i b"
proof -
  have "jm_get (pt_storage t) (''prekey:'' @ i) = Some (SBundle b)" using assms(2) by (auto simp: held_bundle_def split: option.splits presence_entry.splits)
  then have "entry_ok c (''prekey:'' @ i) (SBundle b)" using assms(1) by (simp add: presence_inv_def)
  then show ?thesis by (auto simp: entry_ok_def)
qed

section \<open>Bundles stay\<close>

lemma held_bundle_storage: "(\<And>j. jm_get (pt_storage t') (''prekey:'' @ j) = jm_get (pt_storage t) (''prekey:'' @ j)) \<Longrightarrow> held_bundle t' = held_bundle t"
  by (simp add: held_bundle_def fun_eq_iff)

lemma drop_lease_bundle: "held_bundle (drop_lease i t) = held_bundle t"
  by (simp add: held_bundle_def drop_lease_def jm_get_del fun_eq_iff)

lemma authorizeRemove_bundle:
  assumes "authorizeRemove c now request param operation seqKey t = (t', r)" "\<And>i j. ''prekey:'' @ j \<noteq> seqKey @ '':'' @ i"
  shows "held_bundle t' = held_bundle t"
  using assms(1)
proof (cases rule: authorizeRemove_cases)
  case (allowed body i n v)
  then show ?thesis using assms(2) [of _ i] by (intro held_bundle_storage) (simp add: jm_get_set)
qed simp

lemma fetch_bundle:
  assumes "presence_inv c t0" "tracker_fetch c alive now req t0 = (t', out, r)"
    and "\<And>n. presence_write c (PRequest alive now req) t0 \<noteq> Some (''prekey-seq:'' @ i, n)"
  shows "held_bundle t' i = held_bundle t0 i"
proof -
  let ?t = "ensureLoaded t0"
  have l: "held_bundle ?t = held_bundle t0" by (rule ensureLoaded_inv(5) [OF assms(1)])
  have st: "pt_storage ?t = pt_storage t0" by (rule ensureLoaded_inv(3) [OF assms(1)])
  note F = assms(2) [unfolded tracker_fetch_def Let_def]
  consider "handlePublish c alive now (dq_body req) ?t = (t', out, r)" | "handleRemove c alive now (dq_body req) (dq_identityId req) ?t = (t', out, r)"
    | "handlePrekeyPublish c now (dq_body req) ?t = (t', out, r)"
    | "handlePrekeyRemove c now (dq_body req) (dq_identityId req) ?t = (t', out, r)" "dq_path req = ''/do/prekeys/remove''"
    | "t' = ?t \<or> (\<exists>j. t' = drop_lease j ?t) \<or> (\<exists>ss b. t' = ?t\<lparr>pt_subscriptions := ss, pt_timer := b\<rparr>)"
    using F by (auto simp: handleQuery_def handleSubscribe_def handlePrekeyGet_def split: if_splits option.splits)
  then show ?thesis
  proof cases
    case 1
    then show ?thesis
    proof (cases rule: handlePublish_cases)
      case (published body j n lse)
      from broadcast_fields(1) [OF published(10)] show ?thesis using st by (simp add: held_bundle_def jm_get_set)
    qed (simp add: l)
  next
    case 2
    obtain t1 q where q: "authorizeRemove c now (dq_body req) (dq_identityId req) ''presence.remove'' ''presence-seq'' ?t = (t1, q)"
      by (cases "authorizeRemove c now (dq_body req) (dq_identityId req) ''presence.remove'' ''presence-seq'' ?t")
    have "held_bundle t1 = held_bundle ?t" by (rule authorizeRemove_bundle [OF q]) simp
    moreover have "t' = t1 \<or> (\<exists>j f o2. ps_broadcast alive f (drop_lease j t1) = (t', o2))"
      using 2 q by (auto simp: handleRemove_def split: sum.splits if_splits prod.splits)
    ultimately show ?thesis using l broadcast_fields(1) drop_lease_bundle by (metis held_bundle_storage)
  next
    case 3
    then show ?thesis
    proof (cases rule: handlePrekeyPublish_cases)
      case (published body j n b)
      have "presence_write c (PRequest alive now req) t0 = Some (''prekey-seq:'' @ j, n)"
        using presence_write_reply(2) [OF assms(2) published(1)] published(2) by simp
      then have "j \<noteq> i" using assms(3) by auto
      then show ?thesis using st published(8) by (simp add: held_bundle_def jm_get_set)
    qed (simp add: l)
  next
    case 4
    obtain t1 q where q: "authorizeRemove c now (dq_body req) (dq_identityId req) ''prekeys.remove'' ''prekey-seq'' ?t = (t1, q)"
      by (cases "authorizeRemove c now (dq_body req) (dq_identityId req) ''prekeys.remove'' ''prekey-seq'' ?t")
    have same: "held_bundle t1 = held_bundle ?t" by (rule authorizeRemove_bundle [OF q]) simp
    from q show ?thesis
    proof (cases rule: authorizeRemove_cases)
      case (rejected e)
      then show ?thesis using 4 q l by (simp add: handlePrekeyRemove_def)
    next
      case (allowed body j n v)
      then obtain b where "r = Removed b" using 4 q by (auto simp: handlePrekeyRemove_def split: if_splits)
      then have "presence_write c (PRequest alive now req) t0 = Some (''prekey-seq:'' @ j, n)"
        using presence_write_reply(2) [OF assms(2) allowed(1)] 4(2) by simp
      then have "j \<noteq> i" using assms(3) by auto
      moreover have "t' = t1 \<or> pt_storage t' = jm_del (''prekey:'' @ j) (pt_storage t1)" using 4 q allowed(2) by (auto simp: handlePrekeyRemove_def split: if_splits)
      ultimately have "held_bundle t' i = held_bundle t1 i" by (auto simp: held_bundle_def jm_get_del)
      then show ?thesis using same l by simp
    qed
  next
    case 5
    then consider "t' = ?t" | j where "t' = drop_lease j ?t" | "pt_storage t' = pt_storage ?t" by auto
    then show ?thesis by cases (use l drop_lease_bundle st in \<open>simp_all add: held_bundle_def\<close>)
  qed
qed

lemma step_bundle:
  assumes "presence_inv c t" "\<And>n. presence_write c e t \<noteq> Some (''prekey-seq:'' @ i, n)"
  shows "held_bundle (tracker_step c e t) i = held_bundle t i"
proof (cases e)
  case (PRequest alive now req)
  obtain t' out r where f: "tracker_fetch c alive now req t = (t', out, r)" by (cases "tracker_fetch c alive now req t") auto
  then show ?thesis using fetch_bundle [OF assms(1) f] assms(2) PRequest by simp
next
  case (PTick alive now)
  obtain t1 out where l: "cleanup_loop alive now (pt_leases t) t = (t1, out)" by (cases "cleanup_loop alive now (pt_leases t) t")
  have "held_bundle t1 i = held_bundle t i" using cleanup_seq [OF l, of "''prekey:'' @ i"] by (simp add: held_bundle_def)
  then show ?thesis using PTick l by (auto simp: cleanupExpired_def held_bundle_def)
qed (simp_all add: ps_closed_def held_bundle_def)

text \<open>No write of the identity's bundle is accepted along the run.\<close>

definition no_bundle_write :: "crypto \<Rightarrow> string \<Rightarrow> presence_event list \<Rightarrow> tracker \<Rightarrow> bool" where
  "no_bundle_write c i es t \<longleftrightarrow> issued_times (''prekey-seq:'' @ i) (writes (presence_write c) (tracker_step c) es t) = []"

lemma run_bundle:
  "presence_inv c t \<Longrightarrow> no_bundle_write c i es t \<Longrightarrow> held_bundle (run_events (tracker_step c) es t) i = held_bundle t i"
proof (induction es arbitrary: t)
  case (Cons e es)
  have "\<And>n. presence_write c e t \<noteq> Some (''prekey-seq:'' @ i, n)" "no_bundle_write c i es (tracker_step c e t)"
    using Cons.prems(2) by (auto simp: no_bundle_write_def split: option.splits if_splits)
  then show ?case using Cons.IH [OF presence.ok_step [OF Cons.prems(1)]] step_bundle [OF Cons.prems(1)] by simp
qed simp

section \<open>From publishing to fetching\<close>

lemma hex_digit_plain:
  assumes "h < 16"
  shows "\<not> js_ws (hex_digit h)" "hex_digit h \<noteq> CHR ''-''" "hex_digit h \<noteq> CHR ''+''" "hex_digit h \<noteq> CHR ''x''" "js_lower_char (hex_digit h) = hex_digit h"
proof -
  have v: "hex_value (hex_digit h) = Some h" by (rule hex_value_digit [OF assms])
  have "hex_value CHR ''-'' = None" "hex_value CHR ''+'' = None" "hex_value CHR ''x'' = None" by (simp_all add: hex_value_def)
  then show "hex_digit h \<noteq> CHR ''-''" "hex_digit h \<noteq> CHR ''+''" "hex_digit h \<noteq> CHR ''x''" using v by auto
  have n: "(of_char (hex_digit h) :: nat) = (if h < 10 then 48 + h else 87 + h)" using assms by (simp add: hex_digit_def)
  show "\<not> js_ws (hex_digit h)" "js_lower_char (hex_digit h) = hex_digit h" unfolding js_ws_def js_lower_char_def Let_def n using assms by auto
qed

lemma hexToBytes_toHex [simp]: "hexToBytes (toHex b) = b"
proof (induction b)
  case (Cons x xs)
  have n: "unat x div 16 < 16" "unat x mod 16 < 16" using byte_nibbles [of x] by auto
  note p = hex_digit_plain [OF n(1)] hex_digit_plain [OF n(2)]
  have v: "hex_value (hex_digit (unat x div 16)) = Some (unat x div 16)" "hex_value (hex_digit (unat x mod 16)) = Some (unat x mod 16)"
    using n by (simp_all add: hex_value_digit)
  have "16 * int (unat x div 16) + int (unat x mod 16) = uint x"
  proof -
    have "int (16 * (unat x div 16) + unat x mod 16) = int (unat x)" by (simp only: mult_div_mod_eq)
    then show ?thesis by (simp only: of_nat_add of_nat_mult of_nat_numeral uint_nat)
  qed
  then have "parse_hex_byte [hex_digit (unat x div 16), hex_digit (unat x mod 16)] = x"
    unfolding parse_hex_byte_def Let_def by (simp add: p v js_lower_def is_hex_def del: of_nat_div of_nat_mod of_int_add)
  then show ?case using Cons by simp
qed simp

lemma publish_body_ok:
  fixes c i b s t
  defines "body \<equiv> publish_body c i b s t"
  assumes "signatures_correct c" "device_signer c s cert i now"
    and "wire_proof (signIdentityAuth c s ''prekeys.publish'' i (JObj (bundleToNetwork i b @ [(''issuedAt'', JNum t)])))"
    and "safe_int t" "\<And>k. pb_oneTimePrekeyId b = Some k \<Longrightarrow> safe_int (int k)"
  shows "readBody PREKEY_PUBLISH_KEYS (Some (JObj body)) = Some (body, toHex i, t)"
    and "verifyIdentityAuthJson c body ''prekeys.publish'' (Some (JStr (toHex i))) now \<noteq> None"
    and "string_field (jfield body ''identityDhPublic'') = Some (toHex (pb_identityDhPublic b))"
      "string_field (jfield body ''signedPrekeyPublic'') = Some (toHex (pb_signedPrekeyPublic b))"
      "string_field (jfield body ''signedPrekeySig'') = Some (toHex (pb_signedPrekeySig b))"
      "string_field (jfield body ''identitySignPublic'') = Some (toHex (pb_identitySignPublic b))"
      "absent_or string_field (jfield body ''oneTimePrekeyPublic'')" "absent_or integer_field (jfield body ''oneTimePrekeyId'')"
proof -
  let ?fs = "bundleToNetwork i b @ [(''issuedAt'', JNum t)]"
  have fs: "map (\<lambda>(k, v). (k, json_normal v)) ?fs = ?fs" "''auth'' \<notin> fst ` set ?fs"
    by (auto simp: bundleToNetwork_def split: option.splits)
  note sb = signed_body [OF assms(2-4) fs, folded publish_body_def, folded body_def]
  have keys: "fst ` set body \<subseteq> set PREKEY_PUBLISH_KEYS"
    unfolding sb(4) by (auto simp: bundleToNetwork_def PREKEY_PUBLISH_KEYS_def split: option.splits)
  have get: "jfield body ''identityId'' = Some (JStr (toHex i))" "jfield body ''issuedAt'' = Some (JNum t)"
    using sb(2) [of "''identityId''"] sb(2) [of "''issuedAt''"] by (auto simp: bundleToNetwork_def split: option.splits)
  have "length i = 32" using assms(3) by (simp add: device_signer_def)
  then have "id_hex (toHex i)" by (simp add: id_hex_def)
  moreover have "\<not> list_ex (\<lambda>(k, v). k \<notin> set PREKEY_PUBLISH_KEYS) body" using keys by (force simp: list_ex_iff)
  ultimately show "readBody PREKEY_PUBLISH_KEYS (Some (JObj body)) = Some (body, toHex i, t)"
    using get assms(5) by (simp add: readBody_def del: jfield.simps toHex_simps)
  show "verifyIdentityAuthJson c body ''prekeys.publish'' (Some (JStr (toHex i))) now \<noteq> None" using sb(1) by simp
  show "string_field (jfield body ''identityDhPublic'') = Some (toHex (pb_identityDhPublic b))"
      "string_field (jfield body ''signedPrekeyPublic'') = Some (toHex (pb_signedPrekeyPublic b))"
      "string_field (jfield body ''signedPrekeySig'') = Some (toHex (pb_signedPrekeySig b))"
      "string_field (jfield body ''identitySignPublic'') = Some (toHex (pb_identitySignPublic b))"
    using sb(2) [of "''identityDhPublic''"] sb(2) [of "''signedPrekeyPublic''"] sb(2) [of "''signedPrekeySig''"] sb(2) [of "''identitySignPublic''"]
    by (simp_all add: bundleToNetwork_def)
  show "absent_or string_field (jfield body ''oneTimePrekeyPublic'')" "absent_or integer_field (jfield body ''oneTimePrekeyId'')"
    using sb(2) [of "''oneTimePrekeyPublic''"] sb(2) [of "''oneTimePrekeyId''"] assms(6)
    by (auto simp: bundleToNetwork_def absent_or_def split: option.splits)
qed

lemma publish_accepted:
  assumes "presence_inv c t0" "signatures_correct c" "device_signer c s cert i now"
    and "wire_proof (signIdentityAuth c s ''prekeys.publish'' i (JObj (bundleToNetwork i b @ [(''issuedAt'', JNum n)])))"
    and "\<And>k. pb_oneTimePrekeyId b = Some k \<Longrightarrow> safe_int (int k)"
    and "ed_verify c (pb_identitySignPublic b) (pb_signedPrekeyPublic b) (pb_signedPrekeySig b) = Some True"
    and "isFreshIssuedAt (Some (JNum n)) now" "\<And>u. newest_seq t0 (''prekey-seq:'' @ toHex i) = Some u \<Longrightarrow> u < n"
    and "tracker_fetch c alive now (presence_app (PostPrekeys (Some (JObj (publish_body c i b s n))))) t0 = (t1, out, r)"
  shows "r = PrekeysPublished now" "held_bundle t1 (toHex i) = Some (jm_set ''updatedAt'' (JNum now) (publish_body c i b s n))"
proof -
  let ?t = "ensureLoaded t0" and ?body = "publish_body c i b s n"
  have "safe_int n" using assms(7) by (simp add: isFreshIssuedAt_def)
  note ok = publish_body_ok [OF assms(2-4) this assms(5)]
  have st: "pt_storage ?t = pt_storage t0" by (rule ensureLoaded_inv(3) [OF assms(1)])
  have "claimIssuedAt (''prekey-seq:'' @ toHex i) n now ?t = (?t\<lparr>pt_storage := jm_set (''prekey-seq:'' @ toHex i) (SSeq n) (pt_storage ?t)\<rparr>, True)"
    using assms(7,8) unfolding claimIssuedAt_def st newest_seq_def by (fastforce split: option.splits presence_entry.splits)
  moreover have "handlePrekeyPublish c now (Some (JObj ?body)) ?t = (t1, out, r)"
    using assms(9) by (simp add: tracker_fetch_def Let_def)
  ultimately have "r = PrekeysPublished now \<and> t1 = ?t\<lparr>pt_prekeys := jm_set (toHex i) (jm_set ''updatedAt'' (JNum now) ?body) (pt_prekeys ?t),
      pt_storage := jm_set (''prekey:'' @ toHex i) (SBundle (jm_set ''updatedAt'' (JNum now) ?body)) (jm_set (''prekey-seq:'' @ toHex i) (SSeq n) (pt_storage ?t))\<rparr>"
    using ok assms(6) by (simp add: handlePrekeyPublish_def Let_def del: jfield.simps toHex_simps append_Cons append_Nil)
  then show "r = PrekeysPublished now" "held_bundle t1 (toHex i) = Some (jm_set ''updatedAt'' (JNum now) ?body)"
    by (simp_all add: held_bundle_def jm_get_set del: toHex_simps)
qed

text \<open>
  C10. A published bundle arrives. When a certified device publishes a bundle whose prekey signature
  is right, with a fresh time later than the identity's previous ones, the service takes it; and after
  any further events, restarts included, among which no accepted write of this identity's bundle, the
  bundle the service serves is accepted by the client that asks for it and is exactly the published one.
\<close>

theorem published_bundle_fetched:
  assumes "t0 = run_events (tracker_step c) earlier new_tracker"
    and "signatures_correct c" "device_signer c s cert i now" "device_signer c s cert i later"
    and "wire_proof (signIdentityAuth c s ''prekeys.publish'' i (JObj (bundleToNetwork i b @ [(''issuedAt'', JNum n)])))"
    and "\<And>k. pb_oneTimePrekeyId b = Some k \<Longrightarrow> safe_int (int k)" "\<And>k. pb_oneTimePrekeyPublic b = Some k \<Longrightarrow> k \<noteq> []"
    and "ed_verify c (pb_identitySignPublic b) (pb_signedPrekeyPublic b) (pb_signedPrekeySig b) = Some True"
    and "isFreshIssuedAt (Some (JNum n)) now" "\<And>u. newest_seq t0 (''prekey-seq:'' @ toHex i) = Some u \<Longrightarrow> u < n"
    and "tracker_fetch c alive now (presence_app (PostPrekeys (Some (JObj (publish_body c i b s n))))) t0 = (t1, out, r)"
    and "no_bundle_write c (toHex i) es t1"
  shows "r = PrekeysPublished now
    \<and> (\<exists>served. snd (snd (tracker_fetch c alive' later (presence_app (GetPrekeys (toHex i))) (run_events (tracker_step c) es t1))) = PrekeyBundle served
        \<and> snd (fetchBundleRemote c later i \<lparr>fr_status = 200, fr_ok = True, fr_json = Some served\<rparr> pn) = Inr (Some b))"
proof -
  have inv0: "presence_inv c t0" unfolding assms(1) by (rule presence.run_ok [OF new_tracker_inv])
  note pub = publish_accepted [OF inv0 assms(2,3,5,6,8-11)]
  have inv1: "presence_inv c t1"
    using presence.ok_step [OF inv0, of "PRequest alive now (presence_app (PostPrekeys (Some (JObj (publish_body c i b s n)))))"] assms(11) by simp
  let ?t2 = "run_events (tracker_step c) es t1"
  have inv2: "presence_inv c ?t2" by (rule presence.run_ok [OF inv1])
  have "length (toHex i) = 64" using assms(3) by (simp add: device_signer_def)
  then have "toHex i \<noteq> []" by (metis list.size(3) zero_neq_numeral)
  from bundle_reply [OF inv2 this] run_bundle [OF inv1 assms(12)] pub(2)
  have "snd (snd (tracker_fetch c alive' later (presence_app (GetPrekeys (toHex i))) ?t2)) = PrekeyBundle (jm_set ''updatedAt'' (JNum now) (publish_body c i b s n))"
    by (simp del: presence_app.simps)
  moreover have "snd (fetchBundleRemote c later i \<lparr>fr_status = 200, fr_ok = True, fr_json = Some (jm_set ''updatedAt'' (JNum now) (publish_body c i b s n))\<rparr> pn) = Inr (Some b)"
    by (subst published_served [OF assms(2,4,5,7)]) simp_all
  ultimately show ?thesis using pub(1) by blast
qed

section \<open>What the service answers\<close>

text \<open>A reply depends on the storage and on what the maps hold.\<close>

definition alike :: "tracker \<Rightarrow> tracker \<Rightarrow> bool" where
  "alike t t' \<longleftrightarrow> pt_storage t' = pt_storage t \<and> jm_get (pt_leases t') = jm_get (pt_leases t) \<and> jm_get (pt_prekeys t') = jm_get (pt_prekeys t)"

lemma claim_alike:
  assumes "alike t t'"
  shows "snd (claimIssuedAt k n now t') = snd (claimIssuedAt k n now t)" "alike (fst (claimIssuedAt k n now t)) (fst (claimIssuedAt k n now t'))"
  using assms by (auto simp: alike_def claimIssuedAt_def split: option.splits presence_entry.splits)

lemma publish_alike:
  assumes "alike t t'"
  shows "snd (snd (handlePublish c alive now request t')) = snd (snd (handlePublish c alive now request t))"
    "snd (snd (handlePrekeyPublish c now request t')) = snd (snd (handlePrekeyPublish c now request t))"
  using claim_alike(1) [OF assms]
  by (auto simp: handlePublish_def handlePrekeyPublish_def Let_def split: option.split prod.split bool.split simp del: jfield.simps) (metis snd_conv)+

lemma remove_alike:
  assumes "alike t t'"
  shows "snd (authorizeRemove c now request param op k t') = snd (authorizeRemove c now request param op k t)"
    "alike (fst (authorizeRemove c now request param op k t)) (fst (authorizeRemove c now request param op k t'))"
  using claim_alike [OF assms] assms by (auto simp: authorizeRemove_def split: option.split prod.split) (metis fst_conv snd_conv)+

lemma removes_alike:
  assumes "alike t t'"
  shows "snd (snd (handleRemove c alive now request param t')) = snd (snd (handleRemove c alive now request param t))"
    "snd (snd (handlePrekeyRemove c now request param t')) = snd (snd (handlePrekeyRemove c now request param t))"
proof -
  have has: "jm_has (pt_leases t2) i = jm_has (pt_leases t1) i" "jm_has (pt_prekeys t2) i = jm_has (pt_prekeys t1) i" if "alike t1 t2" for t1 t2 i
    using that by (simp_all add: alike_def jm_has_get)
  show "snd (snd (handleRemove c alive now request param t')) = snd (snd (handleRemove c alive now request param t))"
    using remove_alike [OF assms, of c now request param "''presence.remove''" "''presence-seq''"] has
    by (cases "authorizeRemove c now request param ''presence.remove'' ''presence-seq'' t"; cases "authorizeRemove c now request param ''presence.remove'' ''presence-seq'' t'")
       (auto simp: handleRemove_def split: sum.split prod.split)
  show "snd (snd (handlePrekeyRemove c now request param t')) = snd (snd (handlePrekeyRemove c now request param t))"
    using remove_alike [OF assms, of c now request param "''prekeys.remove''" "''prekey-seq''"] has
    by (cases "authorizeRemove c now request param ''prekeys.remove'' ''prekey-seq'' t"; cases "authorizeRemove c now request param ''prekeys.remove'' ''prekey-seq'' t'")
       (auto simp: handlePrekeyRemove_def split: sum.split prod.split)
qed

lemma reads_alike:
  assumes "alike t t'"
  shows "snd (snd (handleQuery now param t')) = snd (snd (handleQuery now param t))" "snd (snd (handlePrekeyGet param t')) = snd (snd (handlePrekeyGet param t))"
    "snd (snd (handleSubscribe alive now up ws t')) = snd (snd (handleSubscribe alive now up ws t))"
  using assms by (auto simp: alike_def handleQuery_def handlePrekeyGet_def handleSubscribe_def split: option.split)

lemma same_replies:
  assumes "presence_inv c t" "presence_inv c t'" "pt_storage t' = pt_storage t" "dq_path req \<noteq> ''/do/status''"
  shows "snd (snd (tracker_fetch c alive now req t')) = snd (snd (tracker_fetch c alive now req t))"
proof -
  have "held_lease t' = held_lease t" "held_bundle t' = held_bundle t" using assms(3) by (simp_all add: fun_eq_iff held_lease_def held_bundle_def)
  then have "alike (ensureLoaded t) (ensureLoaded t')"
    using ensureLoaded_inv(3,6,7) [OF assms(1)] ensureLoaded_inv(3,6,7) [OF assms(2)] assms(3) by (simp add: alike_def fun_eq_iff)
  from publish_alike [OF this] removes_alike [OF this] reads_alike [OF this] show ?thesis
    using assms(4) by (simp add: tracker_fetch_def Let_def)
qed

text \<open>
  C11. What the presence service says is signed. After any events, an identity is reported online
  exactly while a lease is held that this identity has signed, that names no later end than it asked
  for and at most ninety seconds from its publication, and that has not expired; and a prekey bundle is
  served only if the identity it is served for has signed it.
\<close>

theorem presence_answers_signed:
  assumes "t = run_events (tracker_step c) es new_tracker" "i \<noteq> []"
  shows "(case snd (snd (tracker_fetch c alive now (presence_app (GetPresence i)) t)) of
       StatusOnline j e hint \<Rightarrow> j = i \<and> now < e \<and> (\<exists>l. lease_signed c l \<and> pl_identityId l = i \<and> pl_expiresAt l = e \<and> pl_relayHint l = hint)
     | r \<Rightarrow> r = StatusOffline i \<and> (\<forall>l. held_lease t i = Some l \<longrightarrow> pl_expiresAt l \<le> now))
    \<and> (case snd (snd (tracker_fetch c alive now (presence_app (GetPrekeys i)) t)) of
       PrekeyBundle b \<Rightarrow> bundle_signed c i b
     | r \<Rightarrow> r = NotFound \<and> held_bundle t i = None)"
proof -
  have inv: "presence_inv c t" unfolding assms(1) by (rule presence.run_ok [OF new_tracker_inv])
  show ?thesis
    unfolding query_reply [OF inv assms(2)] bundle_reply [OF inv assms(2)]
    using held_lease_signed [OF inv, of i] held_bundle_signed [OF inv, of i] by (auto split: option.splits)
qed

text \<open>
  C19. A restart of the presence service cannot be told from its replies: whatever has happened, an
  eviction changes neither the leases nor the bundles nor the newest times, and every request but the
  one for the service's own counters gets the reply it would have got before.
\<close>

theorem presence_restart_unnoticed:
  assumes "t = run_events (tracker_step c) es new_tracker" "dq_path req \<noteq> ''/do/status''"
  shows "held_lease (tracker_step c PEvicted t) = held_lease t \<and> held_bundle (tracker_step c PEvicted t) = held_bundle t
    \<and> newest_seq (tracker_step c PEvicted t) = newest_seq t
    \<and> snd (snd (presence_step c (PRequest alive now req) (tracker_step c PEvicted t))) = snd (snd (presence_step c (PRequest alive now req) t))"
proof -
  have inv: "presence_inv c t" unfolding assms(1) by (rule presence.run_ok [OF new_tracker_inv])
  have st: "pt_storage (tracker_step c PEvicted t) = pt_storage t" by simp
  have "held_lease (tracker_step c PEvicted t) = held_lease t" "held_bundle (tracker_step c PEvicted t) = held_bundle t"
    "newest_seq (tracker_step c PEvicted t) = newest_seq t"
    by (simp_all add: fun_eq_iff held_lease_def held_bundle_def newest_seq_def)
  moreover have "snd (snd (presence_step c (PRequest alive now req) u)) = Some (snd (snd (tracker_fetch c alive now req u)))" for u
    by (simp split: prod.split)
  ultimately show ?thesis
    using same_replies [OF inv presence.ok_step [OF inv, of PEvicted] st assms(2)] by simp
qed

text \<open>
  C12. Neither service takes a signed write twice. Along any events, restarts included, the times of
  the writes the presence service accepts for one kind of write of one identity strictly increase, and
  so do the times of the requests the discovery service accepts of one identity; so a captured request
  that was accepted once is never accepted again.
\<close>

theorem services_take_writes_once:
  "sorted_wrt (<) (issued_times k (writes (presence_write c) (tracker_step c) es new_tracker))
   \<and> distinct (writes (presence_write c) (tracker_step c) es new_tracker)
   \<and> sorted_wrt (<) (issued_times i (writes (discovery_write c frac_of) (service_step c frac_of fl) es' new_service))
   \<and> distinct (writes (discovery_write c frac_of) (service_step c frac_of fl) es' new_service)"
proof -
  have "discovery_inv c (ds_index new_service)" by (simp add: new_service_def new_discovery_inv)
  then show ?thesis
    using presence.times_increase presence.writes_distinct discovery.times_increase discovery.writes_distinct new_tracker_inv by blast
qed

section \<open>Witnesses\<close>

lemma demo_bundle_fields:
  "ed_verify sample_crypto (pb_identitySignPublic demo_bundle) (pb_signedPrekeyPublic demo_bundle) (pb_signedPrekeySig demo_bundle) = Some True"
  "\<And>k. pb_oneTimePrekeyId demo_bundle = Some k \<Longrightarrow> safe_int (int k)" "\<And>k. pb_oneTimePrekeyPublic demo_bundle = Some k \<Longrightarrow> k \<noteq> []"
  by (auto simp: demo_bundle_def exportBundle_def createLocalPrekeys_def sample_signing safe_int_def demo_pair_def)

theorem published_bundle_fetched_witness:
  "\<exists>t1 out. tracker_fetch sample_crypto (\<lambda>w. True) 60 (presence_app (PostPrekeys (Some (JObj (publish_body sample_crypto (replicate 32 8) demo_bundle (demo_user 8) 50))))) new_tracker
       = (t1, out, PrekeysPublished 60)
     \<and> (\<exists>served. snd (snd (tracker_fetch sample_crypto (\<lambda>w. True) 60 (presence_app (GetPrekeys (toHex (replicate 32 8)))) (tracker_step sample_crypto PEvicted t1))) = PrekeyBundle served
          \<and> snd (fetchBundleRemote sample_crypto 60 (replicate 32 8) \<lparr>fr_status = 200, fr_ok = True, fr_json = Some served\<rparr> empty_network) = Inr (Some demo_bundle))"
proof -
  obtain t1 out r where f: "tracker_fetch sample_crypto (\<lambda>w. True) 60 (presence_app (PostPrekeys (Some (JObj (publish_body sample_crypto (replicate 32 8) demo_bundle (demo_user 8) 50))))) new_tracker
      = (t1, out, r)" by (metis prod_cases3)
  have "no_bundle_write sample_crypto (toHex (replicate 32 8)) [PEvicted] t1" by (simp add: no_bundle_write_def presence_write_def)
  from published_bundle_fetched [where earlier = "[]" and es = "[PEvicted]" and n = 50 and now = 60 and later = 60 and b = demo_bundle and pn = empty_network
      and alive' = "\<lambda>w. True", OF _ sample_signatures demo_user_signer demo_user_signer demo_user_wire demo_bundle_fields(2,3,1) demo_fresh _ f this]
  show ?thesis using f by (simp add: newest_seq_def new_tracker_def del: presence_app.simps toHex_simps)
qed

definition demo_publish :: do_request where
  "demo_publish = presence_app (PostPrekeys (Some (JObj (publish_body sample_crypto (replicate 32 8) demo_bundle (demo_user 8) 50))))"

abbreviation demo_tracker :: tracker where
  "demo_tracker \<equiv> run_events (tracker_step sample_crypto) [PRequest (\<lambda>w. True) 60 demo_publish] new_tracker"

lemma demo_tracker_bundle:
  "held_bundle demo_tracker (toHex (replicate 32 8)) = Some (jm_set ''updatedAt'' (JNum 60) (publish_body sample_crypto (replicate 32 8) demo_bundle (demo_user 8) 50))"
proof -
  obtain t1 out r where f: "tracker_fetch sample_crypto (\<lambda>w. True) 60 demo_publish new_tracker = (t1, out, r)" by (metis prod_cases3)
  have "newest_seq new_tracker k = None" for k by (simp add: newest_seq_def new_tracker_def)
  then show ?thesis
    using publish_accepted(2) [OF new_tracker_inv sample_signatures demo_user_signer demo_user_wire demo_bundle_fields(2,1) demo_fresh _ f [unfolded demo_publish_def]] f
    by (simp del: toHex_simps)
qed

theorem presence_answers_signed_witness:
  "\<exists>b. snd (snd (tracker_fetch sample_crypto (\<lambda>w. True) 60 (presence_app (GetPrekeys (toHex (replicate 32 8)))) demo_tracker)) = PrekeyBundle b
     \<and> bundle_signed sample_crypto (toHex (replicate 32 8)) b"
proof -
  have "length (toHex (replicate 32 (8 :: byte))) = 64" by simp
  then have ne: "toHex (replicate 32 (8 :: byte)) \<noteq> []" by (metis list.size(3) zero_neq_numeral)
  have "case snd (snd (tracker_fetch sample_crypto (\<lambda>w. True) 60 (presence_app (GetPrekeys (toHex (replicate 32 8)))) demo_tracker)) of
       PrekeyBundle b \<Rightarrow> bundle_signed sample_crypto (toHex (replicate 32 8)) b
     | r \<Rightarrow> r = NotFound \<and> held_bundle demo_tracker (toHex (replicate 32 8)) = None"
    by (rule presence_answers_signed [OF refl ne, THEN conjunct2])
  then show ?thesis using demo_tracker_bundle by (auto split: presence_reply.splits simp del: presence_app.simps toHex_simps run_events.simps)
qed

theorem presence_restart_unnoticed_witness:
  "held_bundle (tracker_step sample_crypto PEvicted demo_tracker) (toHex (replicate 32 8)) \<noteq> None
   \<and> snd (snd (presence_step sample_crypto (PRequest (\<lambda>w. True) 61 demo_publish) (tracker_step sample_crypto PEvicted demo_tracker)))
     = snd (snd (presence_step sample_crypto (PRequest (\<lambda>w. True) 61 demo_publish) demo_tracker))"
  using presence_restart_unnoticed [OF refl, where c = sample_crypto and es = "[PRequest (\<lambda>w. True) 60 demo_publish]" and req = demo_publish and now = 61 and alive = "\<lambda>w. True"]
    demo_tracker_bundle by (simp add: demo_publish_def del: toHex_simps run_events.simps presence_step.simps)

end
