(* ===== verification/Signed_Objects.thy ===== *)
theory Signed_Objects
  imports Dm_Samples
begin

text \<open>
  Every object of the protocol that is signed in its canonical encoding, and that the signed bytes of
  different kinds never coincide. A signed prekey and a group message are signed as raw bytes, not as
  objects, and are not among them.
\<close>

datatype signed_object =
    SEvent nexnet_event
  | SRoomEvent nexnet_event
  | SDeviceCert device_certificate
  | SPasskey bytes passkey_credential
  | SIdentityProof bytes
  | SSshCommitment bytes ssh_commitment
  | SRevocation revocation
  | SSignIn signin_fields
  | SIdentityAuth string bytes jval
  | SEnvelope message_envelope

fun object_preimage :: "signed_object \<Rightarrow> jval" where
  "object_preimage (SEvent e) = toSigningPreimage e"
| "object_preimage (SRoomEvent e) = toIdPreimage e"
| "object_preimage (SDeviceCert d) = deviceCertPreimage d"
| "object_preimage (SPasskey a p) = passkeyPreimage a p"
| "object_preimage (SIdentityProof w) = identityProofPreimage w"
| "object_preimage (SSshCommitment a s) = sshCommitmentPreimage a s"
| "object_preimage (SRevocation r) = revocationPreimage r"
| "object_preimage (SSignIn f) = signInPreimageValue f"
| "object_preimage (SIdentityAuth op i fs) = identityAuthPreimage op i fs"
| "object_preimage (SEnvelope e) = envelope_object e"

text \<open>The kind of an object; a proof of identity is of one kind for each operation it is for.\<close>

fun object_kind :: "signed_object \<Rightarrow> nat \<times> string" where
  "object_kind (SEvent e) = (0, [])"
| "object_kind (SRoomEvent e) = (1, [])"
| "object_kind (SDeviceCert d) = (2, [])"
| "object_kind (SPasskey a p) = (3, [])"
| "object_kind (SIdentityProof w) = (4, [])"
| "object_kind (SSshCommitment a s) = (5, [])"
| "object_kind (SRevocation r) = (6, [])"
| "object_kind (SSignIn f) = (7, [])"
| "object_kind (SIdentityAuth op i fs) = (8, op)"
| "object_kind (SEnvelope e) = (9, [])"

lemmas preimage_defs = toSigningPreimage_def toIdPreimage_def deviceCertPreimage_def
  passkeyPreimage_def identityProofPreimage_def sshCommitmentPreimage_def revocationPreimage_def
  signInPreimageValue_def identityAuthPreimage_def IDENTITY_AUTH_DOMAIN_def envelope_object_def

text \<open>
  What tells the kinds apart, in any order of the fields: the text fields \<open>domain\<close> and \<open>operation\<close>,
  and the number of fields where there is no domain.
\<close>

definition text_field :: "string \<Rightarrow> jval \<Rightarrow> string set" where
  "text_field k v = (case v of JObj kvs \<Rightarrow> {s. (k, JStr s) \<in> set kvs} | _ \<Rightarrow> {})"

definition field_count :: "jval \<Rightarrow> nat" where
  "field_count v = (case v of JObj kvs \<Rightarrow> length kvs | _ \<Rightarrow> 0)"

lemma canon_text [simp]: "canon v = JStr s \<longleftrightarrow> v = JStr s"
  by (cases v) auto

lemma text_field_canon [simp]: "text_field k (canon v) = text_field k v"
proof (cases v)
  case (JObj kvs)
  have "(k, JStr s) \<in> (\<lambda>p. (fst p, canon (snd p))) ` set kvs \<longleftrightarrow> (k, JStr s) \<in> set kvs" for s
  proof
    assume "(k, JStr s) \<in> (\<lambda>p. (fst p, canon (snd p))) ` set kvs"
    then obtain p where p: "p \<in> set kvs" "(k, JStr s) = (fst p, canon (snd p))" by blast
    then have "canon (snd p) = JStr s" "fst p = k" by simp_all
    then have "p = (k, JStr s)" by (simp only: canon_text prod_eq_iff) simp
    then show "(k, JStr s) \<in> set kvs" using p(1) by simp
  next
    assume "(k, JStr s) \<in> set kvs"
    then show "(k, JStr s) \<in> (\<lambda>p. (fst p, canon (snd p))) ` set kvs"
      by (rule rev_image_eqI) simp
  qed
  then show ?thesis using JObj by (simp add: text_field_def)
qed (simp_all add: text_field_def)

lemma field_count_canon [simp]: "field_count (canon v) = field_count v"
  by (cases v) (simp_all add: field_count_def)

lemma object_domains:
  "text_field ''domain'' (object_preimage (SIdentityProof w)) = {''nexnet identity registration v1''}"
  "text_field ''domain'' (object_preimage (SSshCommitment a s)) = {''nexnet ssh key commitment v1''}"
  "text_field ''domain'' (object_preimage (SRevocation r)) = {''nexnet revocation v1''}"
  "text_field ''domain'' (object_preimage (SSignIn f)) = {''nexnet sign-in v1''}"
  "text_field ''domain'' (object_preimage (SIdentityAuth op i fs)) = {''nexnet identity auth v1''}"
  "text_field ''operation'' (object_preimage (SIdentityAuth op i fs)) = {op}"
  "text_field ''domain'' (object_preimage (SEvent e)) = {}" "text_field ''domain'' (object_preimage (SRoomEvent e)) = {}"
  "text_field ''domain'' (object_preimage (SDeviceCert d)) = {}" "text_field ''domain'' (object_preimage (SPasskey a p)) = {}"
  "text_field ''domain'' (object_preimage (SEnvelope m)) = {}"
  by (auto simp: text_field_def preimage_defs)

lemma object_counts:
  "field_count (object_preimage (SEvent e)) = 9" "field_count (object_preimage (SRoomEvent e)) = 8"
  "field_count (object_preimage (SDeviceCert d)) = 7" "field_count (object_preimage (SPasskey a p)) = 5"
  "field_count (object_preimage (SEnvelope m)) = 11"
  by (simp_all add: field_count_def preimage_defs)

text \<open>The kind, read off the preimage.\<close>

definition preimage_kind :: "jval \<Rightarrow> nat \<times> string" where
  "preimage_kind v =
     (let d = text_field ''domain'' v; n = field_count v in
      if d = {} then (if n = 9 then 0 else if n = 8 then 1 else if n = 7 then 2 else if n = 5 then 3 else 9, [])
      else if d = {''nexnet identity registration v1''} then (4, [])
      else if d = {''nexnet ssh key commitment v1''} then (5, [])
      else if d = {''nexnet revocation v1''} then (6, [])
      else if d = {''nexnet sign-in v1''} then (7, [])
      else (8, the_elem (text_field ''operation'' v)))"

lemma preimage_kind: "preimage_kind (object_preimage x) = object_kind x"
  by (cases x; simp only: preimage_kind_def object_domains object_counts Let_def) simp_all

lemma same_preimage_same_kind:
  assumes "canon (object_preimage x) = canon (object_preimage y)"
  shows "object_kind x = object_kind y"
proof -
  have "preimage_kind (canon v) = preimage_kind v" for v
    unfolding preimage_kind_def text_field_canon field_count_canon ..
  then show ?thesis using preimage_kind [of x] preimage_kind [of y] assms by metis
qed

text \<open>The bytes that are signed: envelopes in the codec of the client, all else canonically.\<close>

fun signed_bytes :: "crypto \<Rightarrow> message_codec \<Rightarrow> signed_object \<Rightarrow> bytes" where
  "signed_bytes c mc (SEnvelope e) = envelope_preimage mc e"
| "signed_bytes c mc x = cdeEncode c (object_preimage x)"

text \<open>
  C27. Domain separation: the bytes signed for one kind of protocol object (event, room event,
  device certificate, passkey authorisation, identity proof, SSH commitment, revocation, sign-in,
  proof of identity for one operation, message envelope) are never the bytes signed for another
  kind, nor those of a proof of identity for another operation, so a signature cannot be replayed
  across them. The hypotheses are that CBOR decoding inverts encoding and that the client is
  configured with that codec.
\<close>

theorem preimages_domain_separated:
  assumes "cbor_roundtrip c" "mc_value mc = cdeEncode c" "object_kind x \<noteq> object_kind y"
  shows "signed_bytes c mc x \<noteq> signed_bytes c mc y"
proof -
  have "signed_bytes c mc z = cdeEncode c (object_preimage z)" for z
    using assms(2) by (cases z) (simp_all add: envelope_preimage_def)
  then show ?thesis using assms(3) same_preimage_same_kind [of x y] cbor_inj [OF assms(1)] by metis
qed

theorem preimages_domain_separated_witness:
  "signed_bytes sample_crypto sample_messages (SIdentityAuth ''relay.connect'' [1] (JObj []))
     \<noteq> signed_bytes sample_crypto sample_messages (SIdentityAuth ''prekeys.publish'' [1] (JObj []))"
  by (rule preimages_domain_separated [OF sample_cbor]) (simp_all add: sample_messages_def sample_crypto_def)

end
