(* ===== verification/Spec2Isabelle.thy ===== *)
theory Spec2Isabelle
  imports Gateway_Properties Room_Properties Relay_Properties Dm_Properties Presence_Properties Signed_Objects
begin

text \<open>
  Nexnet: a model of the messaging system's core and the theorems that make it correct.

  The program (\<open>src/packages\<close>, TypeScript) is a messenger whose identities are wallets. A
  development chain records accounts, usernames, identity roots, device certificates, SSH keys,
  passkeys, revocations and validators. A gateway lets certified devices sign in by challenge and
  post signed events to two channels, and pushes them to open sockets. Clients exchange direct
  messages end to end: X3DH agrees on a root key, the double ratchet encrypts, an outbound queue
  retries until the recipient's device signs a delivery receipt, and everything a device has to
  remember lies in an encrypted store. Prekey bundles travel through a presence service, frames
  through a relay that knows a socket by a challenge its device has answered, and a discovery service
  brings strangers together. Public rooms carry
  signed plaintext under client-side moderation.

  Conventions. Every definition keeps the name it has in the source where that is possible. An
  exception is \<open>Inl\<close> of an error type or \<open>None\<close>; a method of an object takes the state
  of the object last and returns it first. The clock, random bytes and generated key pairs are
  arguments. A JavaScript \<open>Map\<close> is an association list in insertion order, a SQLite table a
  list of rows in rowid order, a dynamically typed value a \<open>jval\<close>. Numbers are \<open>int\<close> or
  \<open>nat\<close>, with \<open>Number.isSafeInteger\<close> written out where it is checked, bytes are
  \<open>8 word\<close>, and counters that travel as 32 bits are reduced modulo \<open>2 ^ 32\<close>. Strings
  are lists of code units below 256, also the message bodies of the gateway, though the text rules for
  them (\<open>validateBody\<close>) are on any UTF-16 code units. A service that handles sockets is a step function from an event
  (open, frame, close, timeout) and a state to a state and the frames and closings it causes; the
  answer of an awaited call is an argument, and from the last of them on an operation runs without
  interruption.
  The primitives of the noble libraries and of cbor2 are the record \<open>crypto\<close>, a parameter of
  the definitions that use them, and the codec of a client's configuration is the records
  \<open>dm_codec\<close> (what is stored) and \<open>message_codec\<close> (what is sent). What is relied on is stated by named hypotheses (\<open>signatures_correct\<close>,
  \<open>cbor_roundtrip\<close>, \<open>aead_correct\<close>, \<open>dh_agrees\<close>, \<open>codec_roundtrip\<close>,
  \<open>message_roundtrip\<close> and the lengths of keys and hashes), which \<open>Sample_Crypto\<close>,
  \<open>Sample_Codec\<close> and \<open>Dm_Samples\<close> satisfy with concrete functions; the witnesses of the theorems are built on those.

  Theories, in the order of the imports, and the sources they model:

  \<^item> \<open>Nexnet_Prelude\<close>: the \<open>Map\<close> model with the interface \<open>keyed_store\<close>, string and
    hexadecimal functions, errors as values. \<open>Wire_Codec\<close>: \<open>protocol/src/wire.ts\<close>,
    hexadecimal and base64url, with their round trips. \<open>Nexnet_Types\<close>:
    \<open>types/src/index.ts\<close>.
  \<^item> \<open>Protocol\<close>: \<open>event.ts\<close>, \<open>device-cert.ts\<close>, \<open>credentials.ts\<close>, the preimages
    of what is signed. \<open>Ssh\<close>:
    \<open>ssh.ts\<close>, OpenSSH public keys and SSHSIG signatures. \<open>Identity_Auth\<close>:
    \<open>identity-auth.ts\<close> and \<open>delivery-receipt.ts\<close>; a receipt is accepted exactly on the
    signature of a certified device of the recipient.
  \<^item> \<open>Dev_Chain\<close>: \<open>client/src/chain-stub.ts\<close>, every operation of \<open>DevChainClient\<close> on
    the record \<open>chain\<close>. \<open>Dev_Chain_Inv\<close>, \<open>Dev_Chain_Devices\<close>,
    \<open>Dev_Chain_Limits\<close>, \<open>Dev_Chain_Persist\<close>: the invariants of reachable states (the
    inductive step relation over all operations), what authorises a device certificate, the bounds,
    and the persisted file. \<open>Chain_Properties\<close>: the theorems on names, identity roots,
    certificates, revocation, validators and restarts.
  \<^item> \<open>Policy\<close>, \<open>Store\<close>, \<open>Gateway_Wire\<close>: \<open>policy.ts\<close>, \<open>store.ts\<close> and
    \<open>wire.ts\<close> of the gateway: the limiters, message validation, the tables and the parsers of
    untrusted input. \<open>Gateway\<close>: \<open>gateway.ts\<close>, every route as a handler over the record
    \<open>gateway\<close>, sign-in for each credential kind, posting, sockets and broadcast.
    \<open>Gateway_Inv\<close>, \<open>Gateway_Samples\<close>, \<open>Gateway_Properties\<close>: the invariant over
    sequences of requests, restarts and socket events, concrete runs, and the theorems on
    authentication, posting, revocation and challenges.
  \<^item> \<open>Storage\<close>: \<open>storage/src/sessions.ts\<close>, \<open>log.ts\<close>, \<open>device-store.ts\<close>.
    \<open>Double_Ratchet\<close>, \<open>Ratchet_Keys\<close>, \<open>Ratchet_Conversation\<close>:
    \<open>client/src/double-ratchet.ts\<close>; the keys a state can still derive, and two parties
    exchanging messages over a channel that reorders, delays and drops them. \<open>X3dh\<close>:
    \<open>x3dh.ts\<close> and \<open>prekeys.ts\<close>.
  \<^item> \<open>Queue\<close>, \<open>Queue_Contract\<close>: \<open>storage/src/queue.ts\<close> and
    \<open>client/src/queue-manager.ts\<close>. The interface \<open>OutboundQueueLike\<close> is the locale
    \<open>outbound_queue\<close> over an abstract map of items; the manager is verified once inside it, and
    the SQLite queue interprets it. \<open>Persistent_State\<close>, \<open>Persistent_Queue\<close>,
    \<open>Persistent_Properties\<close>: \<open>client/src/persistent-client.ts\<close>, whose queue satisfies the
    same contract, with the commits of received and sent messages and the recovery of a client.
  \<^item> \<open>Rooms\<close>, \<open>Room_Properties\<close>: \<open>client/src/rooms.ts\<close>, the moderation of rooms.
  \<^item> \<open>Relay_Wire\<close>: sockets, frames and challenges, and the traces of a relay. \<open>Presence\<close>:
    \<open>client/src/presence.ts\<close>. \<open>Relay\<close>, \<open>Relay_Inv\<close>:
    \<open>relay-standalone/src/index.ts\<close>. \<open>Worker_Relay\<close>, \<open>Worker_Relay_Inv\<close>:
    \<open>workers/relay/src/index.ts\<close>. \<open>Relay_Contract\<close> is what both promise (the locale
    \<open>relay_service\<close>: who is online, who is told, what names whom), \<open>Relay_Properties\<close> the
    theorems on both: senders are authentic, presence is exact, rooms reach their members, and a
    device with a certificate is admitted.
  \<^item> \<open>Prekey_Network\<close>: \<open>client/src/prekey-network.ts\<close>, bundles published and fetched under
    an identity proof. \<open>Dm\<close>: \<open>client/src/dm.ts\<close> with the parts of \<open>client.ts\<close> it
    calls, sending and receiving with and without persistent state. \<open>Dm_Receive\<close>: the two
    ends of a received frame for a persistent client. \<open>Dm_First\<close>: the first message, from
    X3DH and the ratchet on both sides. \<open>Dm_Samples\<close>: a concrete conversation.
    \<open>Dm_Properties\<close>: what is delivered is authentic, delivered at most once, stored with its
    ratchet or not at all, and the first message arrives. \<open>Signed_Objects\<close>: all objects that are
    signed, from the protocol, the proofs of identity and the direct messages; the bytes signed for
    different kinds never coincide.
  \<^item> \<open>Signed_Service\<close>: the storage of a durable object and what a service of signed writes
    promises (the locale \<open>signed_service\<close>). \<open>Presence_Service\<close>, \<open>Presence_Service_Inv\<close>:
    \<open>workers/presence/src/index.ts\<close>, leases, prekey bundles and the sockets that follow them.
    \<open>Discovery\<close>, \<open>Discovery_Inv\<close>, \<open>Discovery_Steps\<close>:
    \<open>workers/discovery/src/index.ts\<close>, profiles, searches, blocks and random matches, a match
    being a run that other requests interrupt while it waits for the relay. \<open>Discovery_Match\<close>,
    \<open>Discovery_Properties\<close>: what a match finds, what a block does to it and when it comes too late,
    that it ends, and who may change a profile.
    \<open>Presence_Properties\<close>: a published bundle reaches the client that asks, answers are signed,
    restarts go unnoticed, and neither service takes a write twice.

  Interfaces. \<open>keyed_store\<close> (provided by the \<open>Map\<close> model and the session table),
  \<open>session_backend\<close>, \<open>outbound_queue\<close> with \<open>reliable_queue\<close> and \<open>queue_frame\<close>,
  \<open>relay_service\<close> and \<open>signed_service\<close> are locales; each is interpreted on the definitions of the component that provides it, and the
  theorems rest on the facts of the interpretations.

  Termination and bounds. Every function is total: loops are recursion on a list or on a decreasing
  counter (\<open>skip_loop\<close> on the number of keys still to be skipped). No fuel is used outside
  \<open>Sample_Crypto\<close>, where the length of the input bounds the nesting of a decoded value.

  Not modelled. The connection handling of \<open>client.ts\<close>, \<open>transport.ts\<close>, WebRTC,
  attachments, the local daemon and SDK, the agent runtime and the terminal interface are network, process and
  screen I/O. The JSON text of a stored session is represented by the object it denotes. The WebAuthn
  library behind passkey assertions is a parameter. The wording of error messages, HTTP headers and
  \<open>Bun.serve\<close> are left out. The sharing of one lookup
  between frames of a sender that arrive together (\<open>senderRootFromPresence\<close>) is left out. Also left
  out are groups and sender keys (\<open>groups.ts\<close>, \<open>group-crypto.ts\<close>), capability claims and
  the agent mailbox. The hibernation of the hosted relay's object is no event of its model.
\<close>

end
